(* ===== verification/Prelude.thy ===== *)
theory Prelude
  imports Main "HOL-Library.AList"
begin

text \<open>
  Prelude of the development: what the components share.

  \<^item> A state-and-exception monad \<open>('s, 'e, 'a) io\<close> for the Python methods that change state and
    may raise: \<open>ret\<close>, \<open>throw\<close>, \<open>bind_io\<close>, \<open>then_io\<close>, \<open>seq_io\<close> (a block of statements),
    \<open>catch_io\<close> (\<^verbatim>\<open>try ... except\<close>), \<open>finally_io\<close> (\<^verbatim>\<open>try ... finally\<close>). What was written to the state
    before an exception stays written.
  \<^item> \<open>keeps P m\<close>: the method keeps \<open>P\<close> on every exit, exceptional ones included; its rules are
    collected in \<open>keeps_intros\<close>, so that preservation proofs of composed methods are one call of
    \<open>intro\<close>.
  \<^item> \<open>emits tr m xs\<close>: what a method appends to a trace of the state, with a rule per combinator.
  \<^item> The string functions of the language the sources use: \<open>str.strip\<close>, \<open>str.upper\<close>, \<open>repr\<close> of a
    string, slicing. A \<open>char\<close> is a code point below 256.
  \<^item> Reachable states of a transition system and the locale \<open>step_invariant\<close> that gives an invariant of
    all of them.
  \<^item> The locales \<open>keyed_store\<close>, the contract of a store of entries by key, and \<open>mirrored_stores\<close>, two of them
    that are given the same operations.
  \<^item> Facts on association lists, the model of Python dictionaries: \<open>AList.update\<close> overwrites in
    place and appends a new key at the end, which is the order a Python \<^verbatim>\<open>dict\<close> keeps.
\<close>

named_theorems keeps_intros \<open>introduction rules for invariants of methods\<close>
named_theorems io_simps \<open>how the combinators of the monad compute\<close>

section \<open>Methods that change state and may raise\<close>

type_synonym ('s, 'e, 'a) io = "'s \<Rightarrow> ('e + 'a) \<times> 's"

definition ret :: "'a \<Rightarrow> ('s, 'e, 'a) io" where
  "ret a = (\<lambda>s. (Inr a, s))"

definition throw :: "'e \<Rightarrow> ('s, 'e, 'a) io" where
  "throw e = (\<lambda>s. (Inl e, s))"

definition gets_io :: "('s \<Rightarrow> 'a) \<Rightarrow> ('s, 'e, 'a) io" where
  "gets_io f = (\<lambda>s. (Inr (f s), s))"

definition modify_io :: "('s \<Rightarrow> 's) \<Rightarrow> ('s, 'e, unit) io" where
  "modify_io f = (\<lambda>s. (Inr (), f s))"

definition bind_io :: "('s, 'e, 'a) io \<Rightarrow> ('a \<Rightarrow> ('s, 'e, 'b) io) \<Rightarrow> ('s, 'e, 'b) io" where
  "bind_io m k = (\<lambda>s. case m s of (Inl e, s') \<Rightarrow> (Inl e, s') | (Inr a, s') \<Rightarrow> k a s')"

definition then_io :: "('s, 'e, 'a) io \<Rightarrow> ('s, 'e, 'b) io \<Rightarrow> ('s, 'e, 'b) io" where
  "then_io m n = bind_io m (\<lambda>_. n)"

primrec seq_io :: "('s, 'e, unit) io list \<Rightarrow> ('s, 'e, unit) io" where
  "seq_io [] = ret ()"
| "seq_io (m # ms) = then_io m (seq_io ms)"

definition catch_io :: "('s, 'e, 'a) io \<Rightarrow> ('e \<Rightarrow> ('s, 'e, 'a) io) \<Rightarrow> ('s, 'e, 'a) io" where
  "catch_io m h = (\<lambda>s. case m s of (Inl e, s') \<Rightarrow> h e s' | (Inr a, s') \<Rightarrow> (Inr a, s'))"

text \<open>An exception of the \<^verbatim>\<open>finally\<close> block replaces the one that is propagating.\<close>

definition finally_io :: "('s, 'e, 'a) io \<Rightarrow> ('s, 'e, unit) io \<Rightarrow> ('s, 'e, 'a) io" where
  "finally_io m f = (\<lambda>s. case m s of (r, s') \<Rightarrow>
     (case f s' of (Inl e, s'') \<Rightarrow> (Inl e, s'') | (Inr _, s'') \<Rightarrow> (r, s'')))"

lemmas io_defs = bind_io_def then_io_def catch_io_def finally_io_def

lemma ret_app [simp, io_simps]: "ret a s = (Inr a, s)"
  by (simp add: ret_def)

lemma throw_app [simp, io_simps]: "throw e s = (Inl e, s)"
  by (simp add: throw_def)

lemma gets_io_app [simp, io_simps]: "gets_io f s = (Inr (f s), s)"
  by (simp add: gets_io_def)

lemma modify_io_app [simp, io_simps]: "modify_io f s = (Inr (), f s)"
  by (simp add: modify_io_def)

lemma bind_io_Inr [simp, io_simps]: "m s = (Inr a, s') \<Longrightarrow> bind_io m k s = k a s'"
  by (simp add: bind_io_def)

lemma bind_io_Inl [simp, io_simps]: "m s = (Inl e, s') \<Longrightarrow> bind_io m k s = (Inl e, s')"
  by (simp add: bind_io_def)

lemma then_io_Inr [simp, io_simps]: "m s = (Inr a, s') \<Longrightarrow> then_io m n s = n s'"
  by (simp add: then_io_def)

lemma then_io_Inl [simp, io_simps]: "m s = (Inl e, s') \<Longrightarrow> then_io m n s = (Inl e, s')"
  by (simp add: then_io_def)

lemma catch_io_Inr [simp, io_simps]: "m s = (Inr a, s') \<Longrightarrow> catch_io m h s = (Inr a, s')"
  by (simp add: catch_io_def)

lemma catch_io_Inl [simp, io_simps]: "m s = (Inl e, s') \<Longrightarrow> catch_io m h s = h e s'"
  by (simp add: catch_io_def)

lemma finally_io_Inr [simp, io_simps]:
  "m s = (r, s') \<Longrightarrow> f s' = (Inr u, s'') \<Longrightarrow> finally_io m f s = (r, s'')"
  by (simp add: finally_io_def)

lemma finally_io_Inl [simp, io_simps]:
  "m s = (r, s') \<Longrightarrow> f s' = (Inl e, s'') \<Longrightarrow> finally_io m f s = (Inl e, s'')"
  by (simp add: finally_io_def)

text \<open>When a composed method returns or raises, in terms of its parts.\<close>

named_theorems io_returns \<open>when a method returns or raises\<close>

lemma ret_returns [io_returns]: "ret a s = (Inr b, s') \<longleftrightarrow> b = a \<and> s' = s"
  by auto

lemma throw_returns [io_returns]: "throw e s = (Inr b, s') \<longleftrightarrow> False"
  by simp

lemma modify_returns [io_returns]: "modify_io f s = (Inr b, s') \<longleftrightarrow> s' = f s"
  by auto

lemma bind_returns [io_returns]:
  "bind_io m k s = (Inr b, s') \<longleftrightarrow> (\<exists>a s1. m s = (Inr a, s1) \<and> k a s1 = (Inr b, s'))"
  by (auto simp: bind_io_def split: prod.splits sum.splits)

lemma then_returns [io_returns]:
  "then_io m n s = (Inr b, s') \<longleftrightarrow> (\<exists>a s1. m s = (Inr a, s1) \<and> n s1 = (Inr b, s'))"
  by (simp add: then_io_def bind_returns)

lemma catch_returns [io_returns]:
  "catch_io m h s = (Inr b, s') \<longleftrightarrow> m s = (Inr b, s') \<or> (\<exists>e s1. m s = (Inl e, s1) \<and> h e s1 = (Inr b, s'))"
  by (auto simp: catch_io_def split: prod.splits sum.splits)

lemma bind_raises:
  "bind_io m k s = (Inl e, s') \<longleftrightarrow> m s = (Inl e, s') \<or> (\<exists>a s1. m s = (Inr a, s1) \<and> k a s1 = (Inl e, s'))"
  by (auto simp: bind_io_def split: prod.splits sum.splits)

lemma then_raises:
  "then_io m n s = (Inl e, s') \<longleftrightarrow> m s = (Inl e, s') \<or> (\<exists>a s1. m s = (Inr a, s1) \<and> n s1 = (Inl e, s'))"
  by (simp add: then_io_def bind_raises)

lemma catch_raises:
  "catch_io m h s = (Inl e, s') \<longleftrightarrow> (\<exists>e1 s1. m s = (Inl e1, s1) \<and> h e1 s1 = (Inl e, s'))"
  by (auto simp: catch_io_def split: prod.splits sum.splits)

lemmas io_raises = bind_raises then_raises catch_raises

subsection \<open>Invariants of methods\<close>

definition keeps :: "('s \<Rightarrow> bool) \<Rightarrow> ('s, 'e, 'a) io \<Rightarrow> bool" where
  "keeps P m \<longleftrightarrow> (\<forall>s. P s \<longrightarrow> P (snd (m s)))"

lemma keepsI: "(\<And>s. P s \<Longrightarrow> P (snd (m s))) \<Longrightarrow> keeps P m"
  by (simp add: keeps_def)

lemma keepsD: "keeps P m \<Longrightarrow> P s \<Longrightarrow> P (snd (m s))"
  by (simp add: keeps_def)

lemma keepsD_eq: "keeps P m \<Longrightarrow> m s = (r, s') \<Longrightarrow> P s \<Longrightarrow> P s'"
  by (metis keepsD snd_conv)

lemma keeps_ret [keeps_intros]: "keeps P (ret a)"
  by (simp add: keeps_def)

lemma keeps_throw [keeps_intros]: "keeps P (throw e)"
  by (simp add: keeps_def)

lemma keeps_gets [keeps_intros]: "keeps P (gets_io f)"
  by (simp add: keeps_def)

lemma keeps_bind [keeps_intros]:
  "keeps P m \<Longrightarrow> (\<And>a. keeps P (k a)) \<Longrightarrow> keeps P (bind_io m k)"
  by (auto simp: keeps_def bind_io_def split: prod.splits sum.splits) (metis snd_conv)?

lemma keeps_then [keeps_intros]: "keeps P m \<Longrightarrow> keeps P n \<Longrightarrow> keeps P (then_io m n)"
  by (simp add: then_io_def keeps_bind)

lemma keeps_seq [keeps_intros]: "(\<And>m. m \<in> set ms \<Longrightarrow> keeps P m) \<Longrightarrow> keeps P (seq_io ms)"
  by (induction ms) (auto intro!: keeps_intros)

lemma keeps_catch [keeps_intros]:
  "keeps P m \<Longrightarrow> (\<And>e. keeps P (h e)) \<Longrightarrow> keeps P (catch_io m h)"
  by (auto simp: keeps_def catch_io_def split: prod.splits sum.splits) (metis snd_conv)?

lemma keeps_finally [keeps_intros]: "keeps P m \<Longrightarrow> keeps P f \<Longrightarrow> keeps P (finally_io m f)"
  by (auto simp: keeps_def finally_io_def split: prod.splits sum.splits) (metis snd_conv)?

lemma keeps_if [keeps_intros]: "keeps P m \<Longrightarrow> keeps P n \<Longrightarrow> keeps P (if b then m else n)"
  by simp

subsection \<open>What methods append to a trace\<close>

text \<open>
  \<open>emits tr m xs\<close>: a run of \<open>m\<close> that returns appends exactly \<open>xs\<close> to the trace \<open>tr\<close> of the state, a run
  that raises appends a prefix of it.
\<close>

definition emits :: "('s \<Rightarrow> 'x list) \<Rightarrow> ('s, 'e, 'a) io \<Rightarrow> 'x list \<Rightarrow> bool" where
  "emits tr m xs \<longleftrightarrow> (\<forall>s. case m s of
     (Inr _, s') \<Rightarrow> tr s' = tr s @ xs
   | (Inl _, s') \<Rightarrow> \<exists>ys zs. xs = ys @ zs \<and> tr s' = tr s @ ys)"

named_theorems emits_intros \<open>rules for the traces of methods\<close>

lemma emitsD_Inr: "emits tr m xs \<Longrightarrow> m s = (Inr a, s') \<Longrightarrow> tr s' = tr s @ xs"
  by (auto simp: emits_def split: prod.splits sum.splits)

lemma emitsD_Inl: "emits tr m xs \<Longrightarrow> m s = (Inl e, s') \<Longrightarrow> \<exists>ys zs. xs = ys @ zs \<and> tr s' = tr s @ ys"
  by (fastforce simp: emits_def split: prod.splits sum.splits)

lemma emitsI:
  assumes "\<And>s a s'. m s = (Inr a, s') \<Longrightarrow> tr s' = tr s @ xs"
    and "\<And>s e s'. m s = (Inl e, s') \<Longrightarrow> \<exists>ys zs. xs = ys @ zs \<and> tr s' = tr s @ ys"
  shows "emits tr m xs"
  using assms by (auto simp: emits_def split: prod.splits sum.splits)

lemma emits_Nil_iff: "emits tr m [] \<longleftrightarrow> (\<forall>s. tr (snd (m s)) = tr s)"
  unfolding emits_def
proof (rule all_cong1)
  fix s
  show "(case m s of (Inr _, s') \<Rightarrow> tr s' = tr s @ []
       | (Inl _, s') \<Rightarrow> \<exists>ys zs. [] = ys @ zs \<and> tr s' = tr s @ ys) \<longleftrightarrow> tr (snd (m s)) = tr s"
    by (cases "m s"; cases "fst (m s)") auto
qed

lemma emits_silent [emits_intros]:
  "emits tr (ret a) []" "emits tr (throw e) xs" "emits tr (gets_io f) []"
  by (auto simp: emits_def)

lemma emits_bind:
  assumes m: "emits tr m xs" and k: "\<And>a. emits tr (k a) ys"
  shows "emits tr (bind_io m k) (xs @ ys)"
proof (rule emitsI)
  fix s b s' assume run: "bind_io m k s = (Inr b, s')"
  then obtain a s1 where "m s = (Inr a, s1)" "k a s1 = (Inr b, s')"
    by (auto simp: bind_io_def split: prod.splits sum.splits)
  then show "tr s' = tr s @ xs @ ys"
    using emitsD_Inr [OF m] emitsD_Inr [OF k] by (metis append_assoc)
next
  fix s e s' assume run: "bind_io m k s = (Inl e, s')"
  show "\<exists>us vs. xs @ ys = us @ vs \<and> tr s' = tr s @ us"
  proof (cases "fst (m s)")
    case (Inl e')
    then have "m s = (Inl e, s')" using run by (cases "m s") (auto simp: bind_io_def)
    then show ?thesis using emitsD_Inl [OF m] by (metis append_assoc)
  next
    case (Inr a)
    then obtain s1 where s1: "m s = (Inr a, s1)" "k a s1 = (Inl e, s')"
      using run by (cases "m s") (auto simp: bind_io_def)
    then obtain us vs where "ys = us @ vs" "tr s' = tr s1 @ us" using emitsD_Inl [OF k] by blast
    moreover have "tr s1 = tr s @ xs" using emitsD_Inr [OF m] s1(1) by blast
    ultimately show ?thesis by (intro exI [of _ "xs @ us"] exI [of _ vs]) simp
  qed
qed

lemma emits_then: "emits tr m xs \<Longrightarrow> emits tr n ys \<Longrightarrow> emits tr (then_io m n) (xs @ ys)"
  unfolding then_io_def by (rule emits_bind)

lemma emits_seq_Cons: "emits tr m xs \<Longrightarrow> emits tr (seq_io ms) ys \<Longrightarrow> emits tr (seq_io (m # ms)) (xs @ ys)"
  by (simp add: emits_then)

lemma emits_seq_Nil [emits_intros]: "emits tr (seq_io []) []"
  by (simp add: emits_silent)

lemma emits_catch_Nil [emits_intros]:
  "emits tr m [] \<Longrightarrow> (\<And>e. emits tr (h e) []) \<Longrightarrow> emits tr (catch_io m h) []"
  by (auto simp: emits_Nil_iff catch_io_def split: prod.splits sum.splits) (metis snd_conv)+

text \<open>A handler that always raises keeps the trace of a raising run.\<close>

lemma emits_catch_raise:
  assumes m: "emits tr m xs" and h: "\<And>e s. \<exists>e' s'. h e s = (Inl e', s') \<and> tr s' = tr s"
  shows "emits tr (catch_io m h) xs"
proof (rule emitsI)
  fix s a s' assume run: "catch_io m h s = (Inr a, s')"
  have "m s = (Inr a, s')"
  proof (cases "fst (m s)")
    case (Inl e)
    then obtain t where "m s = (Inl e, t)" by (cases "m s") auto
    with run show ?thesis using h [of e t] by auto
  next
    case (Inr b)
    then show ?thesis using run by (cases "m s") (auto simp: catch_io_def)
  qed
  then show "tr s' = tr s @ xs" by (rule emitsD_Inr [OF m])
next
  fix s e s' assume run: "catch_io m h s = (Inl e, s')"
  then obtain e0 t where t: "m s = (Inl e0, t)" "h e0 t = (Inl e, s')"
    by (auto simp: catch_io_def split: prod.splits sum.splits)
  have "tr s' = tr t" using h [of e0 t] t(2) by auto
  then show "\<exists>ys zs. xs = ys @ zs \<and> tr s' = tr s @ ys"
    using emitsD_Inl [OF m t(1)] by auto
qed

lemma emits_finally:
  assumes m: "emits tr m xs" and f: "emits tr f []"
  shows "emits tr (finally_io m f) xs"
proof (rule emitsI)
  fix s a s' assume "finally_io m f s = (Inr a, s')"
  then obtain t where t: "m s = (Inr a, t)" "s' = snd (f t)"
    by (auto simp: finally_io_def split: prod.splits sum.splits)
  then show "tr s' = tr s @ xs" using emitsD_Inr [OF m t(1)] f by (simp add: emits_Nil_iff)
next
  fix s e s' assume run: "finally_io m f s = (Inl e, s')"
  obtain r t where t: "m s = (r, t)" by (cases "m s")
  have "s' = snd (f t)" using run t by (auto simp: finally_io_def split: prod.splits sum.splits)
  then have "tr s' = tr t" using f by (simp add: emits_Nil_iff)
  moreover have "\<exists>ys zs. xs = ys @ zs \<and> tr t = tr s @ ys"
    using t emitsD_Inl [OF m] emitsD_Inr [OF m] by (cases r) (blast, metis append_Nil2)
  ultimately show "\<exists>ys zs. xs = ys @ zs \<and> tr s' = tr s @ ys" by simp
qed

text \<open>A run whose trace goes beyond what \<open>m\<close> appends has left \<open>m\<close> by returning.\<close>

lemma emits_bind_reached:
  assumes "emits tr m xs" and "bind_io m k s = (r, s')" and "tr s' = tr s @ xs @ y # ys"
  obtains a s1 where "m s = (Inr a, s1)" and "k a s1 = (r, s')" and "tr s1 = tr s @ xs"
proof (cases "m s")
  case (Pair r1 s1)
  show thesis
  proof (cases r1)
    case (Inl e)
    then have "s' = s1" using assms(2) Pair by simp
    then have "\<exists>us vs. xs = us @ vs \<and> us = xs @ y # ys"
      using emitsD_Inl [OF assms(1)] Pair Inl assms(3) by (metis same_append_eq)
    then show thesis by auto
  next
    case (Inr a)
    then show thesis using that assms(2) Pair emitsD_Inr [OF assms(1)] by auto
  qed
qed

lemma emits_then_reached:
  assumes "emits tr m xs" and "then_io m n s = (r, s')" and "tr s' = tr s @ xs @ y # ys"
  obtains a s1 where "m s = (Inr a, s1)" and "n s1 = (r, s')" and "tr s1 = tr s @ xs"
  using emits_bind_reached [OF assms(1) _ assms(3)] assms(2) unfolding then_io_def by blast

section \<open>Strings\<close>

text \<open>
  \<^verbatim>\<open>str.isspace\<close> on code points below 256, the characters \<^verbatim>\<open>str.strip\<close> removes at both ends.
\<close>

definition py_isspace :: "char \<Rightarrow> bool" where
  "py_isspace c = (let n = of_char c :: nat in
     (9 \<le> n \<and> n \<le> 13) \<or> (28 \<le> n \<and> n \<le> 32) \<or> n = 133 \<or> n = 160)"

definition strip :: "string \<Rightarrow> string" where
  "strip s = rev (dropWhile py_isspace (rev (dropWhile py_isspace s)))"

text \<open>
  \<^verbatim>\<open>str.upper\<close>: ASCII letters, and the sharp s, whose upper case is two ASCII letters. The other
  letters beyond ASCII have an upper case beyond ASCII and are left as they are, which makes no
  difference where the result is compared with the ASCII names of an enum.
\<close>

definition upper_char :: "char \<Rightarrow> string" where
  "upper_char c = (let n = of_char c :: nat in
     if 97 \<le> n \<and> n \<le> 122 then [char_of (n - 32)] else if n = 223 then ''SS'' else [c])"

definition upper :: "string \<Rightarrow> string" where
  "upper s = concat (map upper_char s)"

text \<open>\<^verbatim>\<open>s[:n]\<close> and \<^verbatim>\<open>s[-n:]\<close>; \<^verbatim>\<open>s[-0:]\<close> is the whole string.\<close>

definition py_prefix :: "nat \<Rightarrow> 'a list \<Rightarrow> 'a list" where
  "py_prefix n s = take n s"

definition py_suffix :: "nat \<Rightarrow> 'a list \<Rightarrow> 'a list" where
  "py_suffix n s = (if n = 0 then s else drop (length s - n) s)"

lemma length_py_prefix: "length (py_prefix n s) \<le> n"
  by (simp add: py_prefix_def)

lemma length_py_suffix: "n \<noteq> 0 \<Longrightarrow> length (py_suffix n s) \<le> n"
  by (simp add: py_suffix_def)

lemma strip_length: "length (strip s) \<le> length s"
  unfolding strip_def
  by (metis length_dropWhile_le length_rev le_trans)

lemma dropWhile_id_hd: "xs = [] \<or> \<not> P (hd xs) \<Longrightarrow> dropWhile P xs = xs"
  by (cases xs) auto

text \<open>A string with no white space at its ends is not changed by \<^verbatim>\<open>strip\<close>.\<close>

definition stripped :: "string \<Rightarrow> bool" where
  "stripped s \<longleftrightarrow> s = [] \<or> (\<not> py_isspace (hd s) \<and> \<not> py_isspace (last s))"

lemma strip_stripped: "stripped s \<Longrightarrow> strip s = s"
  by (cases s rule: rev_cases)
    (auto simp: stripped_def strip_def dropWhile_id_hd hd_rev last_rev)

lemma stripped_strip: "stripped (strip s)"
proof (cases "strip s = []")
  case False
  let ?t = "dropWhile py_isspace s"
  have ne: "dropWhile py_isspace (rev ?t) \<noteq> []"
    using False by (simp add: strip_def)
  then have last: "\<not> py_isspace (last (strip s))"
    using hd_dropWhile [OF ne] by (simp add: strip_def last_rev)
  have t_ne: "?t \<noteq> []" using ne by (metis dropWhile.simps(1) rev.simps(1))
  then have hd_t: "\<not> py_isspace (hd ?t)"
    by (rule hd_dropWhile)
  have "rev ?t = takeWhile py_isspace (rev ?t) @ dropWhile py_isspace (rev ?t)" by simp
  then have "?t = strip s @ rev (takeWhile py_isspace (rev ?t))"
    unfolding strip_def by (metis rev_append rev_rev_ident)
  then have "hd ?t = hd (strip s)" using False by (metis hd_append2)
  with hd_t last False show ?thesis by (simp add: stripped_def)
qed (simp add: stripped_def)

lemma strip_idem [simp]: "strip (strip s) = strip s"
  by (rule strip_stripped [OF stripped_strip])

subsection \<open>repr\<close>

definition hex_digit :: "nat \<Rightarrow> char" where
  "hex_digit n = ''0123456789abcdef'' ! (n mod 16)"

definition py_printable :: "nat \<Rightarrow> bool" where
  "py_printable n \<longleftrightarrow> (32 \<le> n \<and> n \<le> 126) \<or> (161 \<le> n \<and> n \<noteq> 173)"

definition repr_char :: "char \<Rightarrow> char \<Rightarrow> string" where
  "repr_char q c = (let n = of_char c :: nat in
     if c = q \<or> n = 92 then [char_of (92::nat), c]
     else if n = 10 then [char_of (92::nat), CHR ''n'']
     else if n = 13 then [char_of (92::nat), CHR ''r'']
     else if n = 9 then [char_of (92::nat), CHR ''t'']
     else if py_printable n then [c]
     else [char_of (92::nat), CHR ''x'', hex_digit (n div 16), hex_digit n])"

text \<open>\<^verbatim>\<open>repr(s)\<close>: single quotes, double ones when the string has a single quote and no double one.\<close>

definition py_repr :: "string \<Rightarrow> string" where
  "py_repr s = (let sq = char_of (39::nat); dq = char_of (34::nat);
       q = (if sq \<in> set s \<and> dq \<notin> set s then dq else sq)
     in [q] @ concat (map (repr_char q) s) @ [q])"

text \<open>\<^verbatim>\<open>str(t)\<close> of a tuple of strings.\<close>

fun join_repr :: "string list \<Rightarrow> string" where
  "join_repr [] = ''''"
| "join_repr [x] = py_repr x"
| "join_repr (x # xs) = py_repr x @ '', '' @ join_repr xs"

definition py_tuple_str :: "string list \<Rightarrow> string" where
  "py_tuple_str xs =
     ''('' @ join_repr xs @ (if length xs = 1 then '','' else '''') @ '')''"

subsection \<open>Decimal numbers\<close>

text \<open>\<^verbatim>\<open>str(n)\<close> of a natural number.\<close>

definition digit_char :: "nat \<Rightarrow> char" where
  "digit_char n = char_of (48 + n mod 10)"

fun nat_str :: "nat \<Rightarrow> string" where
  "nat_str n = (if n < 10 then [digit_char n] else nat_str (n div 10) @ [digit_char n])"

declare nat_str.simps [simp del]

section \<open>Dictionaries and lists\<close>

lemma map_of_update_same [simp]: "map_of (AList.update k v d) k = Some v"
  by (simp add: update_conv)

lemma map_of_update_other [simp]: "k' \<noteq> k \<Longrightarrow> map_of (AList.update k v d) k' = map_of d k'"
  by (simp add: update_conv)

lemma keys_update: "set (map fst (AList.update k v d)) = insert k (set (map fst d))"
  by (induction d) auto

lemma update_mem:
  "(k', v') \<in> set (AList.update k v d) \<Longrightarrow> (k', v') = (k, v) \<or> (k', v') \<in> set d"
  by (induction d) (auto split: if_splits)

lemma find_Some_iff_mem: "List.find P xs = Some x \<Longrightarrow> x \<in> set xs \<and> P x"
  by (induction xs) (auto split: if_splits)

lemma find_app: "List.find P (xs @ ys) = (case List.find P xs of None \<Rightarrow> List.find P ys | Some x \<Rightarrow> Some x)"
  by (induction xs) auto

lemma find_None_iff_all: "List.find P xs = None \<longleftrightarrow> (\<forall>x\<in>set xs. \<not> P x)"
  by (induction xs) auto

section \<open>Stores\<close>

text \<open>
  The contract of a store of entries by key: what a lookup returns after a removal and after a record is put,
  which a store without room refuses. Two stores that are given the same operations keep answering alike.
\<close>

locale keyed_store =
  fixes lookup :: "'s \<Rightarrow> 'k \<Rightarrow> 'v option" and remove :: "'k \<Rightarrow> 's \<Rightarrow> 's" and put :: "'r \<Rightarrow> 's \<Rightarrow> 's"
    and key :: "'r \<Rightarrow> 'k" and val :: "'r \<Rightarrow> 'v" and room :: "'s \<Rightarrow> bool"
  assumes lookup_remove: "lookup (remove k s) j = (if j = k then None else lookup s j)"
    and lookup_put: "room s \<Longrightarrow> lookup (put r s) j = (if j = key r then Some (val r) else lookup s j)"
    and lookup_put_full: "\<not> room s \<Longrightarrow> lookup (put r s) j = lookup s j"
begin

lemma lookup_remove_all: "lookup (fold remove ks s) j = (if j \<in> set ks then None else lookup s j)"
  by (induction ks arbitrary: s) (auto simp: lookup_remove)

lemma put_after_remove: "room (remove (key r) s) \<Longrightarrow> lookup (put r (remove (key r) s)) (key r) = Some (val r)"
  by (simp add: lookup_put)

end

locale mirrored_stores = a: keyed_store look1 rem1 put1 key val room1 + b: keyed_store look2 rem2 put2 key val "\<lambda>_. True"
  for look1 :: "'s \<Rightarrow> 'k \<Rightarrow> 'v option" and rem1 put1 and key :: "'r \<Rightarrow> 'k" and val room1
    and look2 :: "'t \<Rightarrow> 'k \<Rightarrow> 'v option" and rem2 put2
begin

lemma mirror_remove: "look1 s = look2 t \<Longrightarrow> look1 (rem1 k s) = look2 (rem2 k t)"
  by (auto simp: a.lookup_remove b.lookup_remove)

lemma mirror_put: "look1 s = look2 t \<Longrightarrow> look1 (put1 r s) = (if room1 s then look2 (put2 r t) else look2 t)"
  by (auto simp: a.lookup_put a.lookup_put_full b.lookup_put)

end

section \<open>Transition systems\<close>

inductive reachable :: "('s \<Rightarrow> bool) \<Rightarrow> ('s \<Rightarrow> 's \<Rightarrow> bool) \<Rightarrow> 's \<Rightarrow> bool"
  for init :: "'s \<Rightarrow> bool" and step :: "'s \<Rightarrow> 's \<Rightarrow> bool" where
  reach_init: "init s \<Longrightarrow> reachable init step s"
| reach_step: "reachable init step s \<Longrightarrow> step s s' \<Longrightarrow> reachable init step s'"

locale step_invariant =
  fixes init :: "'s \<Rightarrow> bool" and step :: "'s \<Rightarrow> 's \<Rightarrow> bool" and inv :: "'s \<Rightarrow> bool"
  assumes inv_init: "init s \<Longrightarrow> inv s"
    and inv_step: "inv s \<Longrightarrow> step s s' \<Longrightarrow> inv s'"
begin

lemma inv_reachable: "reachable init step s \<Longrightarrow> inv s"
  by (induction rule: reachable.induct) (auto intro: inv_init inv_step)

lemma inv_steps: "step\<^sup>*\<^sup>* s s' \<Longrightarrow> inv s \<Longrightarrow> inv s'"
  by (induction rule: rtranclp_induct) (auto intro: inv_step)

end

lemma reachable_steps: "step\<^sup>*\<^sup>* s s' \<Longrightarrow> reachable init step s \<Longrightarrow> reachable init step s'"
  by (induction rule: rtranclp_induct) (auto intro: reach_step)

end
