(* ===== verification/OTA_Types.thy ===== *)
theory OTA_Types
  imports Prelude
begin

text \<open>
  The data of the OTA client, \<^verbatim>\<open>src/otaclient/_types.py\<close>: the enums of the OTA status, the update
  phase, the failure type and the abort state, the internal status report and the requests and
  responses exchanged between the API server and the OTA core process. An enum is a datatype with
  the source's members; where the code stores or parses the member's name, \<open>name\<close> functions give it.
\<close>

section \<open>Status enums\<close>

datatype ota_operation = OP_UPDATE | OP_ROLLBACK

datatype ota_operation_resp = OP_ACCEPTED | OP_BUSY

datatype update_phase =
    PH_INITIALIZING
  | PH_PROCESSING_METADATA
  | PH_CALCULATING_DELTA
  | PH_DOWNLOADING_OTA_FILES
  | PH_APPLYING_UPDATE
  | PH_PROCESSING_POSTUPDATE
  | PH_FINALIZING_UPDATE
  | PH_DOWNLOADING_OTA_CLIENT

datatype ota_status =
    INITIALIZED
  | SUCCESS
  | FAILURE
  | UPDATING
  | ROLLBACKING
  | ROLLBACK_FAILURE
  | CLIENT_UPDATING
  | ABORTING
  | ABORTED

datatype failure_type = NO_FAILURE | RECOVERABLE | UNRECOVERABLE

datatype abort_state =
    AS_NONE
  | AS_REQUESTED
  | AS_ABORTING
  | AS_ABORTED
  | AS_FINAL_PHASE
  | AS_CRITICAL_ZONE

fun ota_status_name :: "ota_status \<Rightarrow> string" where
  "ota_status_name INITIALIZED = ''INITIALIZED''"
| "ota_status_name SUCCESS = ''SUCCESS''"
| "ota_status_name FAILURE = ''FAILURE''"
| "ota_status_name UPDATING = ''UPDATING''"
| "ota_status_name ROLLBACKING = ''ROLLBACKING''"
| "ota_status_name ROLLBACK_FAILURE = ''ROLLBACK_FAILURE''"
| "ota_status_name CLIENT_UPDATING = ''CLIENT_UPDATING''"
| "ota_status_name ABORTING = ''ABORTING''"
| "ota_status_name ABORTED = ''ABORTED''"

definition all_ota_status :: "ota_status list" where
  "all_ota_status = [INITIALIZED, SUCCESS, FAILURE, UPDATING, ROLLBACKING, ROLLBACK_FAILURE,
     CLIENT_UPDATING, ABORTING, ABORTED]"

text \<open>\<^verbatim>\<open>OTAStatus[name]\<close>; \<open>None\<close> is the \<^verbatim>\<open>KeyError\<close>.\<close>

definition ota_status_of_name :: "string \<Rightarrow> ota_status option" where
  "ota_status_of_name n = List.find (\<lambda>st. ota_status_name st = n) all_ota_status"

fun failure_type_value :: "failure_type \<Rightarrow> string" where
  "failure_type_value NO_FAILURE = ''NO_FAILURE''"
| "failure_type_value RECOVERABLE = ''RECOVERABLE''"
| "failure_type_value UNRECOVERABLE = ''UNRECOVERABLE''"

text \<open>\<^verbatim>\<open>FailureType(value)\<close>; \<open>None\<close> is the \<^verbatim>\<open>ValueError\<close>.\<close>

definition failure_type_of_value :: "string \<Rightarrow> failure_type option" where
  "failure_type_of_value v =
     List.find (\<lambda>ft. failure_type_value ft = v) [NO_FAILURE, RECOVERABLE, UNRECOVERABLE]"

lemma ota_status_of_name_name [simp]: "ota_status_of_name (ota_status_name st) = Some st"
  by (cases st) (simp_all add: ota_status_of_name_def all_ota_status_def)

lemma ota_status_of_name_SomeD: "ota_status_of_name n = Some st \<Longrightarrow> n = ota_status_name st"
  by (auto simp: ota_status_of_name_def dest: find_Some_iff_mem)

lemma failure_type_of_value_value [simp]:
  "failure_type_of_value (failure_type_value ft) = Some ft"
  by (cases ft) (simp_all add: failure_type_of_value_def)

section \<open>Internal status report\<close>

record version_detail =
  release_name :: string
  release_id :: string
  image_id :: string

record update_meta =
  update_firmware_version :: string
  image_size_uncompressed :: int
  image_file_entries :: int
  total_download_files_num :: int
  total_download_files_size :: int
  total_remove_files_num :: int

record update_progress =
  downloaded_files_num :: int
  downloaded_bytes :: int
  downloaded_files_size :: int
  downloading_errors :: int
  removed_files_num :: int
  processed_files_num :: int
  processed_files_size :: int

record update_timing =
  update_start_timestamp :: int
  delta_generate_start_timestamp :: int
  download_start_timestamp :: int
  update_apply_start_timestamp :: int
  post_update_start_timestamp :: int

text \<open>The default instances, \<^verbatim>\<open>UpdateMeta()\<close>, \<^verbatim>\<open>UpdateProgress()\<close> and \<^verbatim>\<open>UpdateTiming()\<close>.\<close>

definition update_meta_0 :: update_meta where
  "update_meta_0 = \<lparr>update_firmware_version = '''', image_size_uncompressed = 0,
     image_file_entries = 0, total_download_files_num = 0, total_download_files_size = 0,
     total_remove_files_num = 0\<rparr>"

definition update_progress_0 :: update_progress where
  "update_progress_0 = \<lparr>downloaded_files_num = 0, downloaded_bytes = 0,
     downloaded_files_size = 0, downloading_errors = 0, removed_files_num = 0,
     processed_files_num = 0, processed_files_size = 0\<rparr>"

definition update_timing_0 :: update_timing where
  "update_timing_0 = \<lparr>update_start_timestamp = 0, delta_generate_start_timestamp = 0,
     download_start_timestamp = 0, update_apply_start_timestamp = 0,
     post_update_start_timestamp = 0\<rparr>"

record otaclient_status =
  firmware_version :: string
  cs_version_detail :: "version_detail option"
  cs_ota_status :: ota_status
  session_id :: string
  cs_update_phase :: update_phase
  cs_update_meta :: "update_meta option"
  cs_update_progress :: "update_progress option"
  cs_update_timing :: "update_timing option"
  failure_type :: failure_type
  failure_reason :: string
  failure_traceback :: string

definition otaclient_status_0 :: otaclient_status where
  "otaclient_status_0 = \<lparr>firmware_version = '''', cs_version_detail = None,
     cs_ota_status = INITIALIZED, session_id = '''', cs_update_phase = PH_INITIALIZING,
     cs_update_meta = None, cs_update_progress = None, cs_update_timing = None,
     failure_type = NO_FAILURE, failure_reason = '''', failure_traceback = ''''\<rparr>"

text \<open>
  \<^verbatim>\<open>MultipleECUStatusFlags\<close> and \<^verbatim>\<open>ClientUpdateControlFlags\<close>: an event is whether it is set.
\<close>

record ecu_status_flags =
  any_child_ecu_in_update :: bool
  any_requires_network :: bool
  all_success :: bool

record client_update_control_flags =
  notify_data_ready_event :: bool
  request_shutdown_event :: bool

section \<open>Requests and responses between the processes\<close>

datatype ipc_res = IPC_ACCEPT | IPC_REJECT_BUSY | IPC_REJECT_ABORT | IPC_REJECT_OTHER

record ipc_response =
  res :: ipc_res
  res_session_id :: string
  msg :: string

text \<open>\<^verbatim>\<open>UpdateRequestV2\<close> and \<^verbatim>\<open>ClientUpdateRequestV2\<close> have the same fields.\<close>

record update_request_v2 =
  rq_request_id :: string
  rq_session_id :: string
  rq_version :: string
  rq_url_base :: string
  rq_cookies_json :: string
  rq_release_name :: string
  rq_release_id :: string
  rq_image_id :: string

text \<open>\<^verbatim>\<open>IPCRequest\<close> and its subclasses; the abort and rollback requests add no field to the base.\<close>

datatype ipc_request =
    UpdateRequestV2 update_request_v2
  | ClientUpdateRequestV2 update_request_v2
  | AbortRequestV2 string string
  | RollbackRequestV2 string string

fun ipc_session_id :: "ipc_request \<Rightarrow> string" where
  "ipc_session_id (UpdateRequestV2 r) = rq_session_id r"
| "ipc_session_id (ClientUpdateRequestV2 r) = rq_session_id r"
| "ipc_session_id (AbortRequestV2 _ sid) = sid"
| "ipc_session_id (RollbackRequestV2 _ sid) = sid"

end
