(* ===== verification/OTA_Errors.thy ===== *)
theory OTA_Errors
  imports OTA_Types
begin

text \<open>
  The OTA errors, \<^verbatim>\<open>src/otaclient/errors.py\<close>: the error codes, the exception classes with their class
  attributes and base classes, how an attribute that a class does not declare is looked up in its
  bases, the failure reason built from an instance, and \<^verbatim>\<open>raise_as_ota_error\<close>. The type \<open>exc\<close> of the
  exceptions of the development is declared here.
\<close>

section \<open>Error codes\<close>

datatype ota_errcode =
    E_UNSPECIFIC
  | E_INVALID_OTAUPDATE_REQUEST
  | E_UPDATE_REQUEST_COOKIE_INVALID
  | E_OTA_IMAGE_NOT_FOUND
  | E_OTA_BUSY
  | E_INVALID_STATUS_FOR_OTAROLLBACK
  | E_OTA_IMAGE_INVALID
  | E_METADATAJWT_CERT_VERIFICATION_FAILED
  | E_METADATAJWT_INVALID
  | E_BOOTCONTROL_BSP_VERSION_COMPATIBILITY_FAILED
  | E_CLIENT_UPDATE_SAME_VERSIONS
  | E_OTA_ABORTED
  | E_OTA_ERR_UNRECOVERABLE
  | E_BOOTCONTROL_PLATFORM_UNSUPPORTED
  | E_NETWORK
  | E_OTA_ERR_RECOVERABLE
  | E_DOWNLOAD_STALLED
  | E_STANDBY_SLOT_INSUFFICIENT_SPACE
  | E_OTAMETA_DOWNLOAD_FAILED
  | E_OTA_RESOURCE_DOWNLOAD_FAILED
  | E_OTACLIENT_PACKAGE_DOWNLOAD_FAILED
  | E_UPPER_OTAPROXY_UNREACHABLE
  | E_OTACLIENT_STARTUP_FAILED
  | E_OTAPROXY_FAILED_TO_START
  | E_CA_CERT_NOT_INSTALLED
  | E_CLIENT_UPDATE_FAILED
  | E_PREUPDATE_FAILED
  | E_UPDATEDELTA_GENERATION_FAILED
  | E_APPLY_OTAUPDATE_FAILED
  | E_POSTUPDATE_FAILED
  | E_BOOTCONTROL_STARTUP_ERR
  | E_BOOTCONTROL_PREUPDATE_FAILED
  | E_BOOTCONTROL_STANDBY_SLOT_PREPARE_FAILED
  | E_BOOTCONTROL_SLOT_MOUNT_FAILED
  | E_BOOTCONTROL_POSTUPDATE_FAILED
  | E_BOOTCONTROL_BOOT_CONFIG_UPDATE_FAILED
  | E_BOOTCONTROL_FIRMWARE_UPDATE_FAILED
  | E_BOOTCONTROL_SWITCH_BOOT_FAILED
  | E_BOOTCONTROL_PREROLLBACK_FAILED
  | E_BOOTCONTROL_POSTROLLBACK_FAILED

primrec errcode_value :: "ota_errcode \<Rightarrow> nat" where
  "errcode_value E_UNSPECIFIC = 0"
| "errcode_value E_INVALID_OTAUPDATE_REQUEST = 400"
| "errcode_value E_UPDATE_REQUEST_COOKIE_INVALID = 401"
| "errcode_value E_OTA_IMAGE_NOT_FOUND = 404"
| "errcode_value E_OTA_BUSY = 409"
| "errcode_value E_INVALID_STATUS_FOR_OTAROLLBACK = 412"
| "errcode_value E_OTA_IMAGE_INVALID = 422"
| "errcode_value E_METADATAJWT_CERT_VERIFICATION_FAILED = 460"
| "errcode_value E_METADATAJWT_INVALID = 461"
| "errcode_value E_BOOTCONTROL_BSP_VERSION_COMPATIBILITY_FAILED = 462"
| "errcode_value E_CLIENT_UPDATE_SAME_VERSIONS = 470"
| "errcode_value E_OTA_ABORTED = 499"
| "errcode_value E_OTA_ERR_UNRECOVERABLE = 500"
| "errcode_value E_BOOTCONTROL_PLATFORM_UNSUPPORTED = 501"
| "errcode_value E_NETWORK = 502"
| "errcode_value E_OTA_ERR_RECOVERABLE = 503"
| "errcode_value E_DOWNLOAD_STALLED = 504"
| "errcode_value E_STANDBY_SLOT_INSUFFICIENT_SPACE = 507"
| "errcode_value E_OTAMETA_DOWNLOAD_FAILED = 520"
| "errcode_value E_OTA_RESOURCE_DOWNLOAD_FAILED = 521"
| "errcode_value E_OTACLIENT_PACKAGE_DOWNLOAD_FAILED = 522"
| "errcode_value E_UPPER_OTAPROXY_UNREACHABLE = 523"
| "errcode_value E_OTACLIENT_STARTUP_FAILED = 530"
| "errcode_value E_OTAPROXY_FAILED_TO_START = 531"
| "errcode_value E_CA_CERT_NOT_INSTALLED = 532"
| "errcode_value E_CLIENT_UPDATE_FAILED = 533"
| "errcode_value E_PREUPDATE_FAILED = 540"
| "errcode_value E_UPDATEDELTA_GENERATION_FAILED = 541"
| "errcode_value E_APPLY_OTAUPDATE_FAILED = 542"
| "errcode_value E_POSTUPDATE_FAILED = 543"
| "errcode_value E_BOOTCONTROL_STARTUP_ERR = 550"
| "errcode_value E_BOOTCONTROL_PREUPDATE_FAILED = 551"
| "errcode_value E_BOOTCONTROL_STANDBY_SLOT_PREPARE_FAILED = 552"
| "errcode_value E_BOOTCONTROL_SLOT_MOUNT_FAILED = 553"
| "errcode_value E_BOOTCONTROL_POSTUPDATE_FAILED = 554"
| "errcode_value E_BOOTCONTROL_BOOT_CONFIG_UPDATE_FAILED = 555"
| "errcode_value E_BOOTCONTROL_FIRMWARE_UPDATE_FAILED = 556"
| "errcode_value E_BOOTCONTROL_SWITCH_BOOT_FAILED = 557"
| "errcode_value E_BOOTCONTROL_PREROLLBACK_FAILED = 558"
| "errcode_value E_BOOTCONTROL_POSTROLLBACK_FAILED = 559"

definition all_errcodes :: "ota_errcode list" where
  "all_errcodes = [E_UNSPECIFIC, E_INVALID_OTAUPDATE_REQUEST, E_UPDATE_REQUEST_COOKIE_INVALID
     , E_OTA_IMAGE_NOT_FOUND, E_OTA_BUSY, E_INVALID_STATUS_FOR_OTAROLLBACK, E_OTA_IMAGE_INVALID
     , E_METADATAJWT_CERT_VERIFICATION_FAILED, E_METADATAJWT_INVALID
     , E_BOOTCONTROL_BSP_VERSION_COMPATIBILITY_FAILED, E_CLIENT_UPDATE_SAME_VERSIONS
     , E_OTA_ABORTED, E_OTA_ERR_UNRECOVERABLE, E_BOOTCONTROL_PLATFORM_UNSUPPORTED, E_NETWORK
     , E_OTA_ERR_RECOVERABLE, E_DOWNLOAD_STALLED, E_STANDBY_SLOT_INSUFFICIENT_SPACE
     , E_OTAMETA_DOWNLOAD_FAILED, E_OTA_RESOURCE_DOWNLOAD_FAILED
     , E_OTACLIENT_PACKAGE_DOWNLOAD_FAILED, E_UPPER_OTAPROXY_UNREACHABLE
     , E_OTACLIENT_STARTUP_FAILED, E_OTAPROXY_FAILED_TO_START, E_CA_CERT_NOT_INSTALLED
     , E_CLIENT_UPDATE_FAILED, E_PREUPDATE_FAILED, E_UPDATEDELTA_GENERATION_FAILED
     , E_APPLY_OTAUPDATE_FAILED, E_POSTUPDATE_FAILED, E_BOOTCONTROL_STARTUP_ERR
     , E_BOOTCONTROL_PREUPDATE_FAILED, E_BOOTCONTROL_STANDBY_SLOT_PREPARE_FAILED
     , E_BOOTCONTROL_SLOT_MOUNT_FAILED, E_BOOTCONTROL_POSTUPDATE_FAILED
     , E_BOOTCONTROL_BOOT_CONFIG_UPDATE_FAILED, E_BOOTCONTROL_FIRMWARE_UPDATE_FAILED
     , E_BOOTCONTROL_SWITCH_BOOT_FAILED, E_BOOTCONTROL_PREROLLBACK_FAILED
     , E_BOOTCONTROL_POSTROLLBACK_FAILED]"

text \<open>
  \<^verbatim>\<open>category\<close> and \<^verbatim>\<open>to_errcode_str\<close>: the decimal digits, filled with zeros on the left to three.
\<close>

datatype failure_category = USER | SYSTEM

definition category :: "ota_errcode \<Rightarrow> failure_category" where
  "category e = (if 400 \<le> errcode_value e \<and> errcode_value e < 500 then USER else SYSTEM)"

definition to_errcode_str :: "ota_errcode \<Rightarrow> string" where
  "to_errcode_str e = (let s = nat_str (errcode_value e) in
     replicate (3 - length s) (CHR ''0'') @ s)"

datatype ota_error_cls =
    OTAError
  | NetworkError
  | OTAMetaDownloadFailed
  | OTAClientPackageDownloadFailed
  | OTAResourceDownloadFailed
  | DownloadStalled
  | UpperOTAProxyUnreachable
  | OTAErrorRecoverable
  | OTABusy
  | InvalidStatusForOTARollback
  | OTAImageInvalid
  | OTAImageNotFound
  | UpdateRequestCookieInvalid
  | ClientUpdateSameVersions
  | ClientUpdateFailed
  | OTAAbortSignal
  | BootControlBSPVersionCompatibilityFailed
  | OTAErrorUnrecoverable
  | BootControlPlatformUnsupported
  | BootControlStartupFailed
  | BootControlPreUpdateFailed
  | BootControlPostUpdateFailed
  | BootControlPreRollbackFailed
  | BootControlPostRollbackFailed
  | StandbySlotInsufficientSpace
  | InvalidUpdateRequest
  | MetadataJWTInvalid
  | MetadataJWTVerficationFailed
  | CACertNotInstalled
  | OTAProxyFailedToStart
  | UpdateDeltaGenerationFailed
  | ApplyOTAUpdateFailed
  | OTAClientStartupFailed
  | PreUpdateFailed
  | PostUpdateFailed
  | BootControlStandbySlotPrepareFailed
  | BootControlSlotMountFailed
  | BootControlBootConfigUpdateFailed
  | BootControlFirmwareUpdateFailed
  | BootControlSwitchBootFailed

definition all_error_cls :: "ota_error_cls list" where
  "all_error_cls = [OTAError, NetworkError, OTAMetaDownloadFailed, OTAClientPackageDownloadFailed
     , OTAResourceDownloadFailed, DownloadStalled, UpperOTAProxyUnreachable, OTAErrorRecoverable
     , OTABusy, InvalidStatusForOTARollback, OTAImageInvalid, OTAImageNotFound
     , UpdateRequestCookieInvalid, ClientUpdateSameVersions, ClientUpdateFailed, OTAAbortSignal
     , BootControlBSPVersionCompatibilityFailed, OTAErrorUnrecoverable
     , BootControlPlatformUnsupported, BootControlStartupFailed, BootControlPreUpdateFailed
     , BootControlPostUpdateFailed, BootControlPreRollbackFailed, BootControlPostRollbackFailed
     , StandbySlotInsufficientSpace, InvalidUpdateRequest, MetadataJWTInvalid
     , MetadataJWTVerficationFailed, CACertNotInstalled, OTAProxyFailedToStart
     , UpdateDeltaGenerationFailed, ApplyOTAUpdateFailed, OTAClientStartupFailed
     , PreUpdateFailed, PostUpdateFailed, BootControlStandbySlotPrepareFailed
     , BootControlSlotMountFailed, BootControlBootConfigUpdateFailed
     , BootControlFirmwareUpdateFailed, BootControlSwitchBootFailed]"

text \<open>The base class each class names in its \<^verbatim>\<open>class\<close> statement.\<close>

primrec superclass :: "ota_error_cls \<Rightarrow> ota_error_cls option" where
  "superclass OTAError = None"
| "superclass NetworkError = Some OTAError"
| "superclass OTAMetaDownloadFailed = Some NetworkError"
| "superclass OTAClientPackageDownloadFailed = Some NetworkError"
| "superclass OTAResourceDownloadFailed = Some NetworkError"
| "superclass DownloadStalled = Some NetworkError"
| "superclass UpperOTAProxyUnreachable = Some NetworkError"
| "superclass OTAErrorRecoverable = Some OTAError"
| "superclass OTABusy = Some OTAErrorRecoverable"
| "superclass InvalidStatusForOTARollback = Some OTAErrorRecoverable"
| "superclass OTAImageInvalid = Some OTAErrorRecoverable"
| "superclass OTAImageNotFound = Some OTAImageInvalid"
| "superclass UpdateRequestCookieInvalid = Some OTAErrorRecoverable"
| "superclass ClientUpdateSameVersions = Some OTAErrorRecoverable"
| "superclass ClientUpdateFailed = Some OTAErrorRecoverable"
| "superclass OTAAbortSignal = Some OTAErrorRecoverable"
| "superclass BootControlBSPVersionCompatibilityFailed = Some OTAErrorRecoverable"
| "superclass OTAErrorUnrecoverable = Some OTAError"
| "superclass BootControlPlatformUnsupported = Some OTAErrorUnrecoverable"
| "superclass BootControlStartupFailed = Some OTAErrorUnrecoverable"
| "superclass BootControlPreUpdateFailed = Some OTAErrorUnrecoverable"
| "superclass BootControlPostUpdateFailed = Some OTAErrorUnrecoverable"
| "superclass BootControlPreRollbackFailed = Some OTAErrorUnrecoverable"
| "superclass BootControlPostRollbackFailed = Some OTAErrorUnrecoverable"
| "superclass StandbySlotInsufficientSpace = Some OTAErrorUnrecoverable"
| "superclass InvalidUpdateRequest = Some OTAErrorUnrecoverable"
| "superclass MetadataJWTInvalid = Some OTAErrorUnrecoverable"
| "superclass MetadataJWTVerficationFailed = Some OTAErrorUnrecoverable"
| "superclass CACertNotInstalled = Some MetadataJWTVerficationFailed"
| "superclass OTAProxyFailedToStart = Some OTAErrorUnrecoverable"
| "superclass UpdateDeltaGenerationFailed = Some OTAErrorUnrecoverable"
| "superclass ApplyOTAUpdateFailed = Some OTAErrorUnrecoverable"
| "superclass OTAClientStartupFailed = Some OTAErrorUnrecoverable"
| "superclass PreUpdateFailed = Some OTAErrorUnrecoverable"
| "superclass PostUpdateFailed = Some OTAErrorUnrecoverable"
| "superclass BootControlStandbySlotPrepareFailed = Some BootControlPreUpdateFailed"
| "superclass BootControlSlotMountFailed = Some BootControlPreUpdateFailed"
| "superclass BootControlBootConfigUpdateFailed = Some BootControlPostUpdateFailed"
| "superclass BootControlFirmwareUpdateFailed = Some BootControlPostUpdateFailed"
| "superclass BootControlSwitchBootFailed = Some BootControlPostUpdateFailed"

text \<open>The \<^verbatim>\<open>failure_errcode\<close> of each class.\<close>

primrec errcode_of :: "ota_error_cls \<Rightarrow> ota_errcode" where
  "errcode_of OTAError = E_UNSPECIFIC"
| "errcode_of NetworkError = E_NETWORK"
| "errcode_of OTAMetaDownloadFailed = E_OTAMETA_DOWNLOAD_FAILED"
| "errcode_of OTAClientPackageDownloadFailed = E_OTACLIENT_PACKAGE_DOWNLOAD_FAILED"
| "errcode_of OTAResourceDownloadFailed = E_OTA_RESOURCE_DOWNLOAD_FAILED"
| "errcode_of DownloadStalled = E_DOWNLOAD_STALLED"
| "errcode_of UpperOTAProxyUnreachable = E_UPPER_OTAPROXY_UNREACHABLE"
| "errcode_of OTAErrorRecoverable = E_OTA_ERR_RECOVERABLE"
| "errcode_of OTABusy = E_OTA_BUSY"
| "errcode_of InvalidStatusForOTARollback = E_INVALID_STATUS_FOR_OTAROLLBACK"
| "errcode_of OTAImageInvalid = E_OTA_IMAGE_INVALID"
| "errcode_of OTAImageNotFound = E_OTA_IMAGE_NOT_FOUND"
| "errcode_of UpdateRequestCookieInvalid = E_UPDATE_REQUEST_COOKIE_INVALID"
| "errcode_of ClientUpdateSameVersions = E_CLIENT_UPDATE_SAME_VERSIONS"
| "errcode_of ClientUpdateFailed = E_CLIENT_UPDATE_FAILED"
| "errcode_of OTAAbortSignal = E_OTA_ABORTED"
| "errcode_of BootControlBSPVersionCompatibilityFailed = E_BOOTCONTROL_BSP_VERSION_COMPATIBILITY_FAILED"
| "errcode_of OTAErrorUnrecoverable = E_OTA_ERR_UNRECOVERABLE"
| "errcode_of BootControlPlatformUnsupported = E_BOOTCONTROL_PLATFORM_UNSUPPORTED"
| "errcode_of BootControlStartupFailed = E_BOOTCONTROL_STARTUP_ERR"
| "errcode_of BootControlPreUpdateFailed = E_BOOTCONTROL_PREUPDATE_FAILED"
| "errcode_of BootControlPostUpdateFailed = E_BOOTCONTROL_POSTUPDATE_FAILED"
| "errcode_of BootControlPreRollbackFailed = E_BOOTCONTROL_PREROLLBACK_FAILED"
| "errcode_of BootControlPostRollbackFailed = E_BOOTCONTROL_POSTROLLBACK_FAILED"
| "errcode_of StandbySlotInsufficientSpace = E_STANDBY_SLOT_INSUFFICIENT_SPACE"
| "errcode_of InvalidUpdateRequest = E_INVALID_OTAUPDATE_REQUEST"
| "errcode_of MetadataJWTInvalid = E_METADATAJWT_INVALID"
| "errcode_of MetadataJWTVerficationFailed = E_METADATAJWT_CERT_VERIFICATION_FAILED"
| "errcode_of CACertNotInstalled = E_CA_CERT_NOT_INSTALLED"
| "errcode_of OTAProxyFailedToStart = E_OTAPROXY_FAILED_TO_START"
| "errcode_of UpdateDeltaGenerationFailed = E_UPDATEDELTA_GENERATION_FAILED"
| "errcode_of ApplyOTAUpdateFailed = E_APPLY_OTAUPDATE_FAILED"
| "errcode_of OTAClientStartupFailed = E_OTACLIENT_STARTUP_FAILED"
| "errcode_of PreUpdateFailed = E_PREUPDATE_FAILED"
| "errcode_of PostUpdateFailed = E_POSTUPDATE_FAILED"
| "errcode_of BootControlStandbySlotPrepareFailed = E_BOOTCONTROL_STANDBY_SLOT_PREPARE_FAILED"
| "errcode_of BootControlSlotMountFailed = E_BOOTCONTROL_SLOT_MOUNT_FAILED"
| "errcode_of BootControlBootConfigUpdateFailed = E_BOOTCONTROL_BOOT_CONFIG_UPDATE_FAILED"
| "errcode_of BootControlFirmwareUpdateFailed = E_BOOTCONTROL_FIRMWARE_UPDATE_FAILED"
| "errcode_of BootControlSwitchBootFailed = E_BOOTCONTROL_SWITCH_BOOT_FAILED"

text \<open>The \<^verbatim>\<open>failure_description\<close> of each class.\<close>

definition NETWORK_ERR_DEFAULT_DESC :: string where
  "NETWORK_ERR_DEFAULT_DESC =
     ''network unstable, please check the network connection''"

definition RECOVERABLE_DEFAULT_DESC :: string where
  "RECOVERABLE_DEFAULT_DESC =
     ''recoverable OTA error(unrelated to network) detected, please retry after reboot device or restart otaclient''"

definition UNRECOVERABLE_DEFAULT_DESC :: string where
  "UNRECOVERABLE_DEFAULT_DESC =
     ''unrecoverable OTA error, please contact technical support''"

primrec description_of :: "ota_error_cls \<Rightarrow> string" where
  "description_of OTAError =
     ''no description available for this error''"
| "description_of NetworkError =
     NETWORK_ERR_DEFAULT_DESC"
| "description_of OTAMetaDownloadFailed =
     ''failed to download OTA meta due to '' @ NETWORK_ERR_DEFAULT_DESC"
| "description_of OTAClientPackageDownloadFailed =
     ''failed to download OTAClient package due to '' @ NETWORK_ERR_DEFAULT_DESC"
| "description_of OTAResourceDownloadFailed =
     ''failed to download OTA image resources due to '' @ NETWORK_ERR_DEFAULT_DESC"
| "description_of DownloadStalled =
     ''downloading made no progress for too long, please check the network connection to the OTA image server or upper otaproxy''"
| "description_of UpperOTAProxyUnreachable =
     ''upper otaproxy is not reachable, please check the main ECU's otaproxy and the in-vehicle network''"
| "description_of OTAErrorRecoverable =
     RECOVERABLE_DEFAULT_DESC"
| "description_of OTABusy =
     ''on-going OTA operation(update or rollback) detected, this request has been ignored''"
| "description_of InvalidStatusForOTARollback =
     ''previous OTA is not succeeded, reject OTA rollback''"
| "description_of OTAImageInvalid =
     ''failed to complete OTA as OTA image is broken''"
| "description_of OTAImageNotFound =
     ''failed to complete OTA as OTA image(or some of its files) is not found(HTTP 404), please check the OTA image URL''"
| "description_of UpdateRequestCookieInvalid =
     ''failed to complete OTA as cookie is invalid''"
| "description_of ClientUpdateSameVersions =
     ''client package version is the same, skip client update''"
| "description_of ClientUpdateFailed =
     ''failed to update client package, please check the log for more details''"
| "description_of OTAAbortSignal =
     ''OTA abort signal, cleanup pending''"
| "description_of BootControlBSPVersionCompatibilityFailed =
     ''boot_control BSP version compatibility check failed''"
| "description_of OTAErrorUnrecoverable =
     UNRECOVERABLE_DEFAULT_DESC"
| "description_of BootControlPlatformUnsupported =
     UNRECOVERABLE_DEFAULT_DESC @
     '': bootloader for this ECU is not supported''"
| "description_of BootControlStartupFailed =
     UNRECOVERABLE_DEFAULT_DESC @
     '': boot controller startup failed''"
| "description_of BootControlPreUpdateFailed =
     UNRECOVERABLE_DEFAULT_DESC @
     '': boot_control pre_update process failed''"
| "description_of BootControlPostUpdateFailed =
     UNRECOVERABLE_DEFAULT_DESC @
     '': boot_control post_update process failed''"
| "description_of BootControlPreRollbackFailed =
     UNRECOVERABLE_DEFAULT_DESC @
     '': boot_control pre_rollback process failed''"
| "description_of BootControlPostRollbackFailed =
     UNRECOVERABLE_DEFAULT_DESC @
     '': boot_control post_rollback process failed''"
| "description_of StandbySlotInsufficientSpace =
     UNRECOVERABLE_DEFAULT_DESC @
     '': insufficient space at standby slot''"
| "description_of InvalidUpdateRequest =
     ''incoming OTA update request is invalid, please check the request''"
| "description_of MetadataJWTInvalid =
     ''verfication for metadata.jwt is OK but metadata.jwt's content is invalid, please check the OTA image''"
| "description_of MetadataJWTVerficationFailed =
     ''certificate verification failed for OTA metadata.jwt, please check the OTA image is signed for this ECU''"
| "description_of CACertNotInstalled =
     UNRECOVERABLE_DEFAULT_DESC @
     '': no CA cert is installed on this ECU, cannot verify OTA image''"
| "description_of OTAProxyFailedToStart =
     UNRECOVERABLE_DEFAULT_DESC @
     '': otaproxy is required for multiple ECU update but otaproxy failed to start''"
| "description_of UpdateDeltaGenerationFailed =
     UNRECOVERABLE_DEFAULT_DESC @
     '': failed to calculate and/or prepare update delta''"
| "description_of ApplyOTAUpdateFailed =
     UNRECOVERABLE_DEFAULT_DESC @
     '': failed to apply OTA update to standby slot''"
| "description_of OTAClientStartupFailed =
     UNRECOVERABLE_DEFAULT_DESC @
     '': failed to start otaclient instance''"
| "description_of PreUpdateFailed =
     UNRECOVERABLE_DEFAULT_DESC @
     '': failed to prepare standby slot for applying update''"
| "description_of PostUpdateFailed =
     UNRECOVERABLE_DEFAULT_DESC @
     '': failed to finish post-update process(persist files, OTA image metadata) on standby slot''"
| "description_of BootControlStandbySlotPrepareFailed =
     UNRECOVERABLE_DEFAULT_DESC @
     '': boot_control failed to prepare(format) standby slot device''"
| "description_of BootControlSlotMountFailed =
     UNRECOVERABLE_DEFAULT_DESC @
     '': boot_control failed to mount slots''"
| "description_of BootControlBootConfigUpdateFailed =
     UNRECOVERABLE_DEFAULT_DESC @
     '': boot_control failed to update boot configurations(fstab, bootloader config, kernel files) for standby slot''"
| "description_of BootControlFirmwareUpdateFailed =
     UNRECOVERABLE_DEFAULT_DESC @
     '': boot_control failed to update firmware''"
| "description_of BootControlSwitchBootFailed =
     UNRECOVERABLE_DEFAULT_DESC @
     '': boot_control failed to switch boot to standby slot''"

text \<open>
  The \<^verbatim>\<open>failure_type\<close> a class declares itself; the classes without one inherit it.
\<close>

definition own_failure_type :: "ota_error_cls \<Rightarrow> failure_type option" where
  "own_failure_type c =
     (case c of
       OTAError \<Rightarrow> Some RECOVERABLE
     | NetworkError \<Rightarrow> Some RECOVERABLE
     | OTAErrorRecoverable \<Rightarrow> Some RECOVERABLE
     | OTAErrorUnrecoverable \<Rightarrow> Some UNRECOVERABLE
     | _ \<Rightarrow> None)"

text \<open>The length of the chain of base classes, which the attribute lookup walks up.\<close>

primrec cls_depth :: "ota_error_cls \<Rightarrow> nat" where
  "cls_depth OTAError = 0"
| "cls_depth NetworkError = 1"
| "cls_depth OTAMetaDownloadFailed = 2"
| "cls_depth OTAClientPackageDownloadFailed = 2"
| "cls_depth OTAResourceDownloadFailed = 2"
| "cls_depth DownloadStalled = 2"
| "cls_depth UpperOTAProxyUnreachable = 2"
| "cls_depth OTAErrorRecoverable = 1"
| "cls_depth OTABusy = 2"
| "cls_depth InvalidStatusForOTARollback = 2"
| "cls_depth OTAImageInvalid = 2"
| "cls_depth OTAImageNotFound = 3"
| "cls_depth UpdateRequestCookieInvalid = 2"
| "cls_depth ClientUpdateSameVersions = 2"
| "cls_depth ClientUpdateFailed = 2"
| "cls_depth OTAAbortSignal = 2"
| "cls_depth BootControlBSPVersionCompatibilityFailed = 2"
| "cls_depth OTAErrorUnrecoverable = 1"
| "cls_depth BootControlPlatformUnsupported = 2"
| "cls_depth BootControlStartupFailed = 2"
| "cls_depth BootControlPreUpdateFailed = 2"
| "cls_depth BootControlPostUpdateFailed = 2"
| "cls_depth BootControlPreRollbackFailed = 2"
| "cls_depth BootControlPostRollbackFailed = 2"
| "cls_depth StandbySlotInsufficientSpace = 2"
| "cls_depth InvalidUpdateRequest = 2"
| "cls_depth MetadataJWTInvalid = 2"
| "cls_depth MetadataJWTVerficationFailed = 2"
| "cls_depth CACertNotInstalled = 3"
| "cls_depth OTAProxyFailedToStart = 2"
| "cls_depth UpdateDeltaGenerationFailed = 2"
| "cls_depth ApplyOTAUpdateFailed = 2"
| "cls_depth OTAClientStartupFailed = 2"
| "cls_depth PreUpdateFailed = 2"
| "cls_depth PostUpdateFailed = 2"
| "cls_depth BootControlStandbySlotPrepareFailed = 3"
| "cls_depth BootControlSlotMountFailed = 3"
| "cls_depth BootControlBootConfigUpdateFailed = 3"
| "cls_depth BootControlFirmwareUpdateFailed = 3"
| "cls_depth BootControlSwitchBootFailed = 3"
text \<open>Attribute lookup: the class itself, then its base class and so on.\<close>

function failure_type_of :: "ota_error_cls \<Rightarrow> failure_type" where
  "failure_type_of c =
     (case own_failure_type c of
        Some t \<Rightarrow> t
      | None \<Rightarrow> (case superclass c of Some b \<Rightarrow> failure_type_of b | None \<Rightarrow> RECOVERABLE))"
  by pat_completeness auto

lemma superclass_depth: "superclass c = Some b \<Longrightarrow> cls_depth b < cls_depth c"
  by (cases c) auto

termination failure_type_of
  by (relation "measure cls_depth") (simp_all add: superclass_depth)

text \<open>\<^verbatim>\<open>issubclass(c, b)\<close>.\<close>

function is_subclass :: "ota_error_cls \<Rightarrow> ota_error_cls \<Rightarrow> bool" where
  "is_subclass c b \<longleftrightarrow>
     c = b \<or> (case superclass c of Some p \<Rightarrow> is_subclass p b | None \<Rightarrow> False)"
  by pat_completeness auto
termination
  by (relation "measure (\<lambda>(c, b). cls_depth c)") (simp_all add: superclass_depth)

declare failure_type_of.simps [simp del] is_subclass.simps [simp del]

section \<open>Exceptions\<close>

text \<open>
  An exception of the development: an instance of an OTA error class with its positional
  arguments and the module that raised it, any other \<^verbatim>\<open>Exception\<close>, represented by its \<^verbatim>\<open>repr\<close> and by
  what the code asks of the exception itself and of those that follow it in its chain (\<^verbatim>\<open>__cause__\<close> or
  else \<^verbatim>\<open>__context__\<close>), or the \<^verbatim>\<open>SystemExit\<close> of a call that ends the process, which no
  \<^verbatim>\<open>except Exception\<close> catches. An \<^verbatim>\<open>HTTPError\<close> of the \<^verbatim>\<open>requests\<close> library is an \<^verbatim>\<open>OSError\<close>; it has the
  status code of its response, if it has one.
\<close>

datatype exc_kind =
    K_OSError "int option"
  | K_HTTPError "int option" "int option"
  | K_ConnectionError
  | K_DownloadInactiveTimeout
  | K_SignCertInvalid
  | K_NoCAStoreAvailable
  | K_ImageMetadataInvalid
  | K_Other

datatype exc =
    OTAExc ota_error_cls "string list" string
  | PyExc string "exc_kind list"
  | SysExit

fun is_ota_error :: "exc \<Rightarrow> bool" where
  "is_ota_error (OTAExc _ _ _) = True"
| "is_ota_error (PyExc _ _) = False"
| "is_ota_error SysExit = False"

fun is_exception :: "exc \<Rightarrow> bool" where
  "is_exception (OTAExc _ _ _) = True"
| "is_exception (PyExc _ _) = True"
| "is_exception SysExit = False"

fun exc_cls :: "exc \<Rightarrow> ota_error_cls option" where
  "exc_cls (OTAExc c _ _) = Some c"
| "exc_cls _ = None"

text \<open>\<^verbatim>\<open>repr(e)\<close>.\<close>

primrec cls_name :: "ota_error_cls \<Rightarrow> string" where
  "cls_name OTAError = ''OTAError''"
| "cls_name NetworkError = ''NetworkError''"
| "cls_name OTAMetaDownloadFailed = ''OTAMetaDownloadFailed''"
| "cls_name OTAClientPackageDownloadFailed = ''OTAClientPackageDownloadFailed''"
| "cls_name OTAResourceDownloadFailed = ''OTAResourceDownloadFailed''"
| "cls_name DownloadStalled = ''DownloadStalled''"
| "cls_name UpperOTAProxyUnreachable = ''UpperOTAProxyUnreachable''"
| "cls_name OTAErrorRecoverable = ''OTAErrorRecoverable''"
| "cls_name OTABusy = ''OTABusy''"
| "cls_name InvalidStatusForOTARollback = ''InvalidStatusForOTARollback''"
| "cls_name OTAImageInvalid = ''OTAImageInvalid''"
| "cls_name OTAImageNotFound = ''OTAImageNotFound''"
| "cls_name UpdateRequestCookieInvalid = ''UpdateRequestCookieInvalid''"
| "cls_name ClientUpdateSameVersions = ''ClientUpdateSameVersions''"
| "cls_name ClientUpdateFailed = ''ClientUpdateFailed''"
| "cls_name OTAAbortSignal = ''OTAAbortSignal''"
| "cls_name BootControlBSPVersionCompatibilityFailed = ''BootControlBSPVersionCompatibilityFailed''"
| "cls_name OTAErrorUnrecoverable = ''OTAErrorUnrecoverable''"
| "cls_name BootControlPlatformUnsupported = ''BootControlPlatformUnsupported''"
| "cls_name BootControlStartupFailed = ''BootControlStartupFailed''"
| "cls_name BootControlPreUpdateFailed = ''BootControlPreUpdateFailed''"
| "cls_name BootControlPostUpdateFailed = ''BootControlPostUpdateFailed''"
| "cls_name BootControlPreRollbackFailed = ''BootControlPreRollbackFailed''"
| "cls_name BootControlPostRollbackFailed = ''BootControlPostRollbackFailed''"
| "cls_name StandbySlotInsufficientSpace = ''StandbySlotInsufficientSpace''"
| "cls_name InvalidUpdateRequest = ''InvalidUpdateRequest''"
| "cls_name MetadataJWTInvalid = ''MetadataJWTInvalid''"
| "cls_name MetadataJWTVerficationFailed = ''MetadataJWTVerficationFailed''"
| "cls_name CACertNotInstalled = ''CACertNotInstalled''"
| "cls_name OTAProxyFailedToStart = ''OTAProxyFailedToStart''"
| "cls_name UpdateDeltaGenerationFailed = ''UpdateDeltaGenerationFailed''"
| "cls_name ApplyOTAUpdateFailed = ''ApplyOTAUpdateFailed''"
| "cls_name OTAClientStartupFailed = ''OTAClientStartupFailed''"
| "cls_name PreUpdateFailed = ''PreUpdateFailed''"
| "cls_name PostUpdateFailed = ''PostUpdateFailed''"
| "cls_name BootControlStandbySlotPrepareFailed = ''BootControlStandbySlotPrepareFailed''"
| "cls_name BootControlSlotMountFailed = ''BootControlSlotMountFailed''"
| "cls_name BootControlBootConfigUpdateFailed = ''BootControlBootConfigUpdateFailed''"
| "cls_name BootControlFirmwareUpdateFailed = ''BootControlFirmwareUpdateFailed''"
| "cls_name BootControlSwitchBootFailed = ''BootControlSwitchBootFailed''"

fun exc_repr :: "exc \<Rightarrow> string" where
  "exc_repr (OTAExc c args _) = cls_name c @ ''('' @ join_repr args @ '')''"
| "exc_repr (PyExc r _) = r"
| "exc_repr SysExit = ''SystemExit()''"

definition isinstance_of :: "exc \<Rightarrow> ota_error_cls \<Rightarrow> bool" where
  "isinstance_of e c = (case exc_cls e of Some d \<Rightarrow> is_subclass d c | None \<Rightarrow> False)"

definition MAX_FAILURE_DETAIL_LEN :: nat where
  "MAX_FAILURE_DETAIL_LEN = 256"

definition ERROR_PREFIX :: string where
  "ERROR_PREFIX = ''E''"

definition failure_category_of :: "ota_error_cls \<Rightarrow> failure_category" where
  "failure_category_of c = category (errcode_of c)"

definition failure_errcode_str :: "ota_error_cls \<Rightarrow> string" where
  "failure_errcode_str c = ERROR_PREFIX @ to_errcode_str (errcode_of c)"

definition failure_detail :: "string list \<Rightarrow> string" where
  "failure_detail args =
     (if args = [] then ''''
      else let detail = (if length args = 1 then hd args else py_tuple_str args)
       in if length detail > MAX_FAILURE_DETAIL_LEN
          then py_prefix (MAX_FAILURE_DETAIL_LEN - 3) detail @ ''...'' else detail)"

definition get_failure_reason :: "ota_error_cls \<Rightarrow> string list \<Rightarrow> string" where
  "get_failure_reason c args =
     (let reason = failure_errcode_str c @ '': '' @ description_of c; detail = failure_detail args
      in if detail \<noteq> '''' then reason @ ''; detail: '' @ detail else reason)"

text \<open>
  \<^verbatim>\<open>raise_as_ota_error\<close> as a context around a method: an OTA error passes unchanged, any other
  \<^verbatim>\<open>Exception\<close> is raised again as the given class.
\<close>

definition raise_as_ota_error ::
  "ota_error_cls \<Rightarrow> string \<Rightarrow> string \<Rightarrow> ('s, exc, 'a) io \<Rightarrow> ('s, exc, 'a) io" where
  "raise_as_ota_error c err_msg md m = catch_io m (\<lambda>e.
     case e of
       OTAExc d args md' \<Rightarrow> throw e
     | PyExc r _ \<Rightarrow> throw (OTAExc c [err_msg @ '': '' @ r] md)
     | SysExit \<Rightarrow> throw SysExit)"

section \<open>Facts\<close>

lemma UNIV_errcodes: "set all_errcodes = UNIV"
proof -
  have "e \<in> set all_errcodes" for e by (cases e) (simp_all add: all_errcodes_def)
  then show ?thesis by blast
qed

lemma UNIV_error_cls: "set all_error_cls = UNIV"
proof -
  have "c \<in> set all_error_cls" for c by (cases c) (simp_all add: all_error_cls_def)
  then show ?thesis by blast
qed

lemma inj_errcode_value: "inj errcode_value"
proof -
  have "distinct (map errcode_value all_errcodes)"
    by (simp add: all_errcodes_def)
  then show ?thesis by (simp add: distinct_map UNIV_errcodes)
qed

lemma inj_errcode_of: "inj errcode_of"
proof -
  have "distinct (map errcode_of all_error_cls)"
    by (simp add: all_error_cls_def)
  then show ?thesis by (simp add: distinct_map UNIV_error_cls)
qed

lemma errcode_value_range: "c \<noteq> OTAError \<Longrightarrow> 400 \<le> errcode_value (errcode_of c) \<and>
    errcode_value (errcode_of c) < 600"
  by (cases c) simp_all

lemma to_errcode_str_length: "length (to_errcode_str e) = 3"
  by (cases e) (simp_all add: to_errcode_str_def nat_str.simps)

lemma description_length: "length (description_of c) \<le> 165"
  by (cases c) (simp_all add: NETWORK_ERR_DEFAULT_DESC_def RECOVERABLE_DEFAULT_DESC_def
      UNRECOVERABLE_DEFAULT_DESC_def)

lemma failure_detail_length: "length (failure_detail args) \<le> MAX_FAILURE_DETAIL_LEN"
  by (auto simp: failure_detail_def Let_def py_prefix_def MAX_FAILURE_DETAIL_LEN_def)

lemma raise_as_ota_error_Inr [simp, io_simps]:
  "m s = (Inr a, s') \<Longrightarrow> raise_as_ota_error c t md m s = (Inr a, s')"
  by (simp add: raise_as_ota_error_def)

lemma raise_as_ota_error_cases:
  "raise_as_ota_error c t md m s = (r, s') \<Longrightarrow>
     \<exists>r0. m s = (r0, s') \<and>
       (case r0 of Inr a \<Rightarrow> r = Inr a
        | Inl (PyExc x ks) \<Rightarrow> r = Inl (OTAExc c [t @ '': '' @ x] md)
        | Inl e \<Rightarrow> r = Inl e)"
  by (cases "m s") (auto simp: raise_as_ota_error_def catch_io_def split: sum.splits exc.splits)

lemma raise_as_returns [io_returns]: "raise_as_ota_error c t md m s = (Inr a, s') \<longleftrightarrow> m s = (Inr a, s')"
  by (cases "m s") (auto simp: raise_as_ota_error_def catch_io_def split: sum.splits exc.splits)

lemma keeps_raise_as [keeps_intros]: "keeps P m \<Longrightarrow> keeps P (raise_as_ota_error c t md m)"
  unfolding raise_as_ota_error_def
  by (auto intro!: keeps_intros split: exc.splits)

section \<open>Properties\<close>

text \<open>
  Two different OTA error classes never report the same error code, every class but the bare
  base class has a code of the 4xx (user side) or the 5xx (system side) range, and the category
  that the code derives from the range is \<open>USER\<close> exactly for the 4xx codes.
\<close>

lemma error_codes_identify_classes:
  "(errcode_value (errcode_of c) = errcode_value (errcode_of d) \<longleftrightarrow> c = d) \<and>
   (if c = OTAError then errcode_value (errcode_of c) = 0
    else 400 \<le> errcode_value (errcode_of c) \<and> errcode_value (errcode_of c) < 600) \<and>
   (failure_category_of c = USER \<longleftrightarrow> errcode_value (errcode_of c) div 100 = 4)"
proof -
  have "errcode_value (errcode_of c) = errcode_value (errcode_of d) \<longleftrightarrow> c = d"
    using inj_errcode_value inj_errcode_of by (auto dest: injD)
  moreover have "failure_category_of c = USER \<longleftrightarrow> errcode_value (errcode_of c) div 100 = 4"
    by (auto simp: failure_category_of_def category_def)
  ultimately show ?thesis using errcode_value_range [of c] by simp
qed

text \<open>
  The failure type a class reports, found by attribute lookup along its base classes, is
  \<open>UNRECOVERABLE\<close> exactly for the subclasses of \<^verbatim>\<open>OTAErrorUnrecoverable\<close>; it is never
  \<open>NO_FAILURE\<close>, so a raised OTA error is always reported as a failure.
\<close>

lemma failure_type_follows_hierarchy:
  "failure_type_of c =
     (if is_subclass c OTAErrorUnrecoverable then UNRECOVERABLE else RECOVERABLE)"
  by (cases c)
    (simp_all add: failure_type_of.simps own_failure_type_def is_subclass.simps)

text \<open>
  The failure reason is bounded whatever message the error carries (the status is pickled
  into a fixed-size shared memory): at most 437 characters, and it starts with the letter E and the
  three digits of the code.
\<close>

lemma failure_reason_bounded:
  "length (get_failure_reason c args) \<le> 437 \<and>
   take 4 (get_failure_reason c args) = failure_errcode_str c"
proof -
  have d: "length (failure_detail args) \<le> 256"
    using failure_detail_length [of args] by (simp add: MAX_FAILURE_DETAIL_LEN_def)
  have e: "length (failure_errcode_str c) = 4"
    by (simp add: failure_errcode_str_def ERROR_PREFIX_def to_errcode_str_length)
  show ?thesis
    using d description_length [of c] e by (simp add: get_failure_reason_def Let_def)
qed

end
