(* ===== verification/Status_Files.thy ===== *)
theory Status_Files
  imports OTA_Errors
begin

text \<open>
  The OTA status files of the two slots, \<^verbatim>\<open>src/otaclient/boot_control/_ota_status_control.py\<close>, over the
  file primitives of \<^verbatim>\<open>src/otaclient_common/_io.py\<close>. A file system is a map from directory paths to
  OTA status directories, so the current and the standby directory of a controller are two paths and
  a reboot into the other slot is a controller with the paths exchanged.

  A file is its decoded text. The text of a JSON document is represented by the document, since the
  code reads such files through \<^verbatim>\<open>json.loads\<close> only; documents are flat objects with scalar values, or
  \<open>JsonOther\<close> for a document that is no object. Every atomic write makes a new file: the inode number
  and the modification time of the n-th file written are the n-th element of \<open>fs_stamps\<close>, which is the
  kernel's choice and a parameter of every theorem.
\<close>

section \<open>Files\<close>

datatype json_val = JNull | JBool bool | JNum int | JStr string

datatype file_text = Text string | JsonObj "(string \<times> json_val) list" | JsonOther

record ota_dir =
  dir_exists :: bool
  f_status :: "(string \<times> (int \<times> int)) option"
  f_slot_in_use :: "string option"
  f_version :: "string option"
  f_version_detail :: "file_text option"
  f_failure_info :: "file_text option"

record ota_fs =
  fs_dirs :: "string \<Rightarrow> ota_dir"
  fs_writes :: nat
  fs_stamps :: "nat \<Rightarrow> int \<times> int"

definition absent_dir :: ota_dir where
  "absent_dir = \<lparr>dir_exists = False, f_status = None, f_slot_in_use = None, f_version = None,
     f_version_detail = None, f_failure_info = None\<rparr>"

type_synonym 'a fs_io = "(ota_fs, exc, 'a) io"

definition not_found_error :: exc where
  "not_found_error = PyExc ''FileNotFoundError(2, 'No such file or directory')'' [K_OSError (Some 2)]"

text \<open>
  \<^verbatim>\<open>write_str_to_file_atomic\<close>: the new file replaces the old one in one step. Without the directory,
  the temporary file cannot be made.
\<close>

definition write_str_to_file_atomic ::
  "string \<Rightarrow> (int \<times> int \<Rightarrow> ota_dir \<Rightarrow> ota_dir) \<Rightarrow> unit fs_io" where
  "write_str_to_file_atomic d upd = (\<lambda>fs.
     if dir_exists (fs_dirs fs d)
     then (Inr (), fs\<lparr>fs_dirs := (fs_dirs fs)(d := upd (fs_stamps fs (fs_writes fs)) (fs_dirs fs d)),
                      fs_writes := Suc (fs_writes fs)\<rparr>)
     else (Inl not_found_error, fs))"

text \<open>\<^verbatim>\<open>Path.mkdir(exist_ok=True, parents=True)\<close>.\<close>

definition mkdir :: "string \<Rightarrow> unit fs_io" where
  "mkdir d = modify_io (\<lambda>fs.
     if dir_exists (fs_dirs fs d) then fs
     else fs\<lparr>fs_dirs := (fs_dirs fs)(d := absent_dir\<lparr>dir_exists := True\<rparr>)\<rparr>)"

text \<open>
  \<^verbatim>\<open>read_str_from_file\<close> with and without a default; \<open>None\<close> is the file that is not found.
\<close>

definition file_in :: "ota_fs \<Rightarrow> string \<Rightarrow> (ota_dir \<Rightarrow> 'a option) \<Rightarrow> 'a option" where
  "file_in fs d f = (if dir_exists (fs_dirs fs d) then f (fs_dirs fs d) else None)"

definition read_str_from_file :: "string option \<Rightarrow> string \<Rightarrow> string" where
  "read_str_from_file f dflt = (case f of Some s \<Rightarrow> strip s | None \<Rightarrow> dflt)"

text \<open>\<^verbatim>\<open>remove_file\<close> of the failure info, errors ignored.\<close>

definition remove_failure_info :: "string \<Rightarrow> unit fs_io" where
  "remove_failure_info d = modify_io (\<lambda>fs.
     fs\<lparr>fs_dirs := (fs_dirs fs)(d := (fs_dirs fs d)\<lparr>f_failure_info := None\<rparr>)\<rparr>)"

section \<open>OTAStatusFilesControl\<close>

record status_control =
  active_slot :: string
  standby_slot :: string
  current_ota_status_dir :: string
  standby_ota_status_dir :: string
  force_initialize :: bool
  booted_ota_status :: ota_status

definition MAX_VERSION_STRING_LEN :: nat where
  "MAX_VERSION_STRING_LEN = 2048"

definition DEFAULT_VERSION_STR :: string where
  "DEFAULT_VERSION_STR = ''''"

subsection \<open>slot_in_use and status\<close>

definition store_slot_in_use :: "string \<Rightarrow> string \<Rightarrow> unit fs_io" where
  "store_slot_in_use d slot =
     write_str_to_file_atomic d (\<lambda>_ dir. dir\<lparr>f_slot_in_use := Some slot\<rparr>)"

definition store_current_slot_in_use :: "status_control \<Rightarrow> string \<Rightarrow> unit fs_io" where
  "store_current_slot_in_use c slot = store_slot_in_use (current_ota_status_dir c) slot"

definition store_standby_slot_in_use :: "status_control \<Rightarrow> string \<Rightarrow> unit fs_io" where
  "store_standby_slot_in_use c slot = store_slot_in_use (standby_ota_status_dir c) slot"

definition load_current_slot_in_use :: "status_control \<Rightarrow> ota_fs \<Rightarrow> string option" where
  "load_current_slot_in_use c fs =
     (let r = read_str_from_file (file_in fs (current_ota_status_dir c) f_slot_in_use) ''''
      in if r \<noteq> '''' then Some r else None)"

definition store_status :: "string \<Rightarrow> ota_status \<Rightarrow> unit fs_io" where
  "store_status d st = write_str_to_file_atomic d
     (\<lambda>stamp dir. dir\<lparr>f_status := Some (ota_status_name st, stamp)\<rparr>)"

definition store_current_status :: "status_control \<Rightarrow> ota_status \<Rightarrow> unit fs_io" where
  "store_current_status c st = store_status (current_ota_status_dir c) st"

definition store_standby_status :: "status_control \<Rightarrow> ota_status \<Rightarrow> unit fs_io" where
  "store_standby_status c st = store_status (standby_ota_status_dir c) st"

definition load_current_status :: "status_control \<Rightarrow> ota_fs \<Rightarrow> ota_status option" where
  "load_current_status c fs =
     (let s = upper (read_str_from_file
                (map_option fst (file_in fs (current_ota_status_dir c) f_status)) '''')
      in if s \<noteq> '''' then ota_status_of_name s else None)"

definition is_switching_boot :: "status_control \<Rightarrow> string \<Rightarrow> ota_fs \<Rightarrow> bool" where
  "is_switching_boot c active fs =
     (load_current_status c fs \<in> {Some UPDATING, Some ROLLBACKING} \<and>
      load_current_slot_in_use c fs = Some active)"

definition load_slot_in_use_file :: "status_control \<Rightarrow> unit fs_io" where
  "load_slot_in_use_file c = (\<lambda>fs.
     let loaded = (if force_initialize c then None else load_current_slot_in_use c fs)
     in case loaded of
          None \<Rightarrow> store_current_slot_in_use c (active_slot c) fs
        | Some _ \<Rightarrow> (Inr (), fs))"

text \<open>
  \<^verbatim>\<open>_load_status_file\<close>. \<open>dynamic_app\<close> is \<^verbatim>\<open>_env.is_running_as_downloaded_dynamic_app()\<close> and \<open>finalize\<close> the
  boot controller's \<^verbatim>\<open>finalize_switching_boot\<close>. The live status is returned; its assignment before the
  call of \<open>finalize\<close> is overwritten after the call.
\<close>

definition failure_status_of :: "ota_status \<Rightarrow> ota_status" where
  "failure_status_of loaded = (if loaded = ROLLBACKING then ROLLBACK_FAILURE else FAILURE)"

definition load_status_file ::
  "bool \<Rightarrow> bool fs_io \<Rightarrow> status_control \<Rightarrow> ota_status fs_io" where
  "load_status_file dynamic_app finalize c = (\<lambda>fs.
     let loaded = (if force_initialize c then None else load_current_status c fs)
     in case loaded of
          None \<Rightarrow> then_io (store_current_status c INITIALIZED) (ret INITIALIZED) fs
        | Some st \<Rightarrow>
            if dynamic_app then (Inr SUCCESS, fs)
            else if st = ABORTED
              then then_io (store_current_status c INITIALIZED) (ret ABORTED) fs
            else if st \<notin> {UPDATING, ROLLBACKING} then (Inr st, fs)
            else if is_switching_boot c (active_slot c) fs then
              bind_io finalize (\<lambda>ok.
                let new = (if ok then SUCCESS else failure_status_of st)
                in then_io (store_current_status c new) (ret new)) fs
            else then_io (store_current_status c (failure_status_of st))
                   (ret (failure_status_of st)) fs)"

text \<open>\<^verbatim>\<open>__init__\<close>: the constructed controller, or the exception the constructor raises.\<close>

definition status_control_init ::
  "bool \<Rightarrow> bool fs_io \<Rightarrow> status_control \<Rightarrow> status_control fs_io" where
  "status_control_init dynamic_app finalize c =
     then_io (mkdir (current_ota_status_dir c))
       (then_io (load_slot_in_use_file c)
          (bind_io (load_status_file dynamic_app finalize c)
             (\<lambda>st. ret (c\<lparr>booted_ota_status := st\<rparr>))))"

subsection \<open>version\<close>

definition store_standby_version :: "status_control \<Rightarrow> string \<Rightarrow> unit fs_io" where
  "store_standby_version c v = write_str_to_file_atomic (standby_ota_status_dir c)
     (\<lambda>_ dir. dir\<lparr>f_version := Some v\<rparr>)"

definition store_standby_version_detail :: "status_control \<Rightarrow> version_detail \<Rightarrow> unit fs_io" where
  "store_standby_version_detail c vd = write_str_to_file_atomic (standby_ota_status_dir c)
     (\<lambda>_ dir. dir\<lparr>f_version_detail := Some (JsonObj
        [(''release_name'', JStr (release_name vd)), (''release_id'', JStr (release_id vd)),
         (''image_id'', JStr (image_id vd))])\<rparr>)"

definition load_slot_version :: "string \<Rightarrow> ota_fs \<Rightarrow> string" where
  "load_slot_version d fs =
     (case file_in fs d f_version of
        Some s \<Rightarrow> py_prefix MAX_VERSION_STRING_LEN (strip s)
      | None \<Rightarrow> DEFAULT_VERSION_STR)"

definition load_active_slot_version :: "status_control \<Rightarrow> ota_fs \<Rightarrow> string" where
  "load_active_slot_version c fs = load_slot_version (current_ota_status_dir c) fs"

definition load_standby_slot_version :: "status_control \<Rightarrow> ota_fs \<Rightarrow> string" where
  "load_standby_slot_version c fs = load_slot_version (standby_ota_status_dir c) fs"

text \<open>
  \<^verbatim>\<open>_load_version_detail_from_dir\<close>: the values of the three keys are taken as they are, the empty
  string where a key is missing.
\<close>

definition dict_get :: "(string \<times> json_val) list \<Rightarrow> string \<Rightarrow> json_val \<Rightarrow> json_val" where
  "dict_get m k dflt = (case map_of m k of Some v \<Rightarrow> v | None \<Rightarrow> dflt)"

definition load_version_detail_from_dir ::
  "string \<Rightarrow> ota_fs \<Rightarrow> (json_val \<times> json_val \<times> json_val) option" where
  "load_version_detail_from_dir d fs =
     (case file_in fs d f_version_detail of
        Some (JsonObj m) \<Rightarrow>
          Some (dict_get m ''release_name'' (JStr ''''), dict_get m ''release_id'' (JStr ''''),
                dict_get m ''image_id'' (JStr ''''))
      | _ \<Rightarrow> None)"

definition load_active_slot_version_detail ::
  "status_control \<Rightarrow> ota_fs \<Rightarrow> (json_val \<times> json_val \<times> json_val) option" where
  "load_active_slot_version_detail c fs =
     load_version_detail_from_dir (current_ota_status_dir c) fs"

definition load_standby_slot_version_detail ::
  "status_control \<Rightarrow> ota_fs \<Rightarrow> (json_val \<times> json_val \<times> json_val) option" where
  "load_standby_slot_version_detail c fs =
     load_version_detail_from_dir (standby_ota_status_dir c) fs"

subsection \<open>Methods used by boot control\<close>

definition pre_update_current :: "status_control \<Rightarrow> unit fs_io" where
  "pre_update_current c = seq_io
     [store_current_status c FAILURE,
      store_current_slot_in_use c (standby_slot c),
      remove_failure_info (current_ota_status_dir c)]"

definition post_update_standby ::
  "status_control \<Rightarrow> string \<Rightarrow> version_detail option \<Rightarrow> unit fs_io" where
  "post_update_standby c version vd = seq_io
     [mkdir (standby_ota_status_dir c),
      store_standby_status c UPDATING,
      store_standby_version c version,
      (case vd of Some d \<Rightarrow> store_standby_version_detail c d | None \<Rightarrow> ret ()),
      store_standby_slot_in_use c (standby_slot c),
      remove_failure_info (standby_ota_status_dir c)]"

definition pre_rollback_current :: "status_control \<Rightarrow> unit fs_io" where
  "pre_rollback_current c = store_current_status c FAILURE"

definition post_rollback_standby :: "status_control \<Rightarrow> unit fs_io" where
  "post_rollback_standby c = seq_io
     [mkdir (standby_ota_status_dir c), store_standby_status c ROLLBACKING]"

definition on_failure :: "status_control \<Rightarrow> unit fs_io" where
  "on_failure c = then_io (store_current_status c FAILURE) (\<lambda>fs.
     if dir_exists (fs_dirs fs (standby_ota_status_dir c))
     then store_standby_status c FAILURE fs else (Inr (), fs))"

definition on_abort :: "status_control \<Rightarrow> unit fs_io" where
  "on_abort c = store_current_status c ABORTED"

subsection \<open>Failure info\<close>

definition store_failure_info ::
  "status_control \<Rightarrow> failure_type \<Rightarrow> string \<Rightarrow> unit fs_io" where
  "store_failure_info c ft reason = then_io (store_current_status c FAILURE) (\<lambda>fs.
     case file_in fs (current_ota_status_dir c) f_status of
       None \<Rightarrow> (Inl not_found_error, fs)
     | Some (_, ino, mtime_ns) \<Rightarrow>
         write_str_to_file_atomic (current_ota_status_dir c)
           (\<lambda>_ dir. dir\<lparr>f_failure_info := Some (JsonObj
              [(''failure_type'', JStr (failure_type_value ft)), (''failure_reason'', JStr reason),
               (''status_ino'', JNum ino), (''status_mtime_ns'', JNum mtime_ns)])\<rparr>) fs)"

text \<open>Python's \<^verbatim>\<open>==\<close> between a decoded value and an integer, and \<^verbatim>\<open>str\<close> of a decoded value.\<close>

fun json_eq_int :: "json_val \<Rightarrow> int \<Rightarrow> bool" where
  "json_eq_int (JNum n) i = (n = i)"
| "json_eq_int (JBool b) i = ((if b then 1 else 0) = i)"
| "json_eq_int JNull i = False"
| "json_eq_int (JStr s) i = False"

definition int_str :: "int \<Rightarrow> string" where
  "int_str i = (if i < 0 then ''-'' @ nat_str (nat (- i)) else nat_str (nat i))"

fun json_str :: "json_val \<Rightarrow> string" where
  "json_str (JStr s) = s"
| "json_str (JNum i) = int_str i"
| "json_str (JBool b) = (if b then ''True'' else ''False'')"
| "json_str JNull = ''None''"

fun json_failure_type :: "json_val \<Rightarrow> failure_type option" where
  "json_failure_type (JStr s) = failure_type_of_value s"
| "json_failure_type _ = None"

text \<open>
  \<^verbatim>\<open>load_booted_failure_info\<close>: a missing key, a value that is no failure type and a status file that is
  gone are exceptions that the method turns into \<open>None\<close>.
\<close>

definition load_booted_failure_info ::
  "status_control \<Rightarrow> ota_fs \<Rightarrow> (failure_type \<times> string) option" where
  "load_booted_failure_info c fs =
     (if booted_ota_status c \<notin> {FAILURE, ROLLBACK_FAILURE} then None
      else case file_in fs (current_ota_status_dir c) f_failure_info of
        Some (JsonObj m) \<Rightarrow>
          (case (file_in fs (current_ota_status_dir c) f_status,
                 map_of m ''status_ino'', map_of m ''status_mtime_ns'') of
             (Some (_, ino, mtime_ns), Some jino, Some jmtime) \<Rightarrow>
               if \<not> json_eq_int jino ino \<or> \<not> json_eq_int jmtime mtime_ns then None
               else (case (map_of m ''failure_type'', map_of m ''failure_reason'') of
                       (Some jt, Some jr) \<Rightarrow>
                         (case json_failure_type jt of
                            Some ft \<Rightarrow> Some (ft, json_str jr) | None \<Rightarrow> None)
                     | _ \<Rightarrow> None)
           | _ \<Rightarrow> None)
      | _ \<Rightarrow> None)"

section \<open>Facts\<close>

lemmas store_defs = store_current_slot_in_use_def store_standby_slot_in_use_def
  store_current_status_def store_standby_status_def store_slot_in_use_def store_status_def
  store_standby_version_def store_standby_version_detail_def write_str_to_file_atomic_def

lemma upper_strip_name: "upper (strip (ota_status_name st)) = ota_status_name st"
  by (cases st) (simp_all add: upper_def strip_def upper_char_def py_isspace_def)

lemma ota_status_name_nonempty [simp]: "ota_status_name st \<noteq> []"
  by (cases st) simp_all

lemma load_current_status_named:
  "dir_exists (fs_dirs fs (current_ota_status_dir c)) \<Longrightarrow>
   f_status (fs_dirs fs (current_ota_status_dir c)) = Some (n, x) \<Longrightarrow>
   n = ota_status_name st \<Longrightarrow> load_current_status c fs = Some st"
  by (simp add: load_current_status_def file_in_def read_str_from_file_def upper_strip_name)

lemma load_current_slot_in_use_stored:
  "dir_exists (fs_dirs fs (current_ota_status_dir c)) \<Longrightarrow>
   f_slot_in_use (fs_dirs fs (current_ota_status_dir c)) = Some s \<Longrightarrow>
   stripped s \<Longrightarrow> s \<noteq> '''' \<Longrightarrow> load_current_slot_in_use c fs = Some s"
  by (simp add: load_current_slot_in_use_def file_in_def read_str_from_file_def strip_stripped)

lemma store_status_Inr:
  "store_status d st fs = (Inr (), fs') \<Longrightarrow>
   dir_exists (fs_dirs fs' d) \<and>
   f_status (fs_dirs fs' d) = Some (ota_status_name st, fs_stamps fs (fs_writes fs)) \<and>
   fs_writes fs' = Suc (fs_writes fs) \<and> fs_stamps fs' = fs_stamps fs"
  by (auto simp: store_status_def write_str_to_file_atomic_def split: if_splits)

lemma store_status_exists:
  "dir_exists (fs_dirs fs d) \<Longrightarrow> fst (store_status d st fs) = Inr ()"
  by (simp add: store_status_def write_str_to_file_atomic_def)

abbreviation on_disk :: "status_control \<Rightarrow> ota_fs \<Rightarrow> bool" where
  "on_disk c fs \<equiv> dir_exists (fs_dirs fs (current_ota_status_dir c))"

text \<open>A \<open>finalize_switching_boot\<close> that returns, and leaves the status directory there.\<close>

definition finalize_returns :: "status_control \<Rightarrow> bool fs_io \<Rightarrow> bool" where
  "finalize_returns c fin \<longleftrightarrow>
     (\<forall>fs. on_disk c fs \<longrightarrow> (\<exists>ok fs'. fin fs = (Inr ok, fs') \<and> on_disk c fs'))"

lemma store_current_status_on_disk:
  "on_disk c fs \<Longrightarrow> \<exists>fs'. store_current_status c st fs = (Inr (), fs') \<and> on_disk c fs' \<and>
     load_current_status c fs' = Some st"
  unfolding store_current_status_def store_status_def write_str_to_file_atomic_def
  by (auto intro: load_current_status_named)

lemma load_current_status_cong:
  "dir_exists (fs_dirs fs' (current_ota_status_dir c)) = on_disk c fs \<Longrightarrow>
   f_status (fs_dirs fs' (current_ota_status_dir c)) = f_status (fs_dirs fs (current_ota_status_dir c)) \<Longrightarrow>
   load_current_status c fs' = load_current_status c fs"
  unfolding load_current_status_def file_in_def by simp

lemma load_slot_in_use_file_on_disk:
  "on_disk c fs \<Longrightarrow> \<exists>fs'. load_slot_in_use_file c fs = (Inr (), fs') \<and> on_disk c fs' \<and>
     load_current_status c fs' = load_current_status c fs"
  unfolding load_slot_in_use_file_def Let_def store_defs
  by (auto intro: load_current_status_cong split: option.split)

lemma mkdir_on_disk: "\<exists>fs'. mkdir (current_ota_status_dir c) fs = (Inr (), fs') \<and> on_disk c fs'"
  by (simp add: mkdir_def)

text \<open>What the constructor reports against what it leaves on disk.\<close>

definition settled :: "status_control \<Rightarrow> ota_status \<Rightarrow> ota_fs \<Rightarrow> bool" where
  "settled c st fs \<longleftrightarrow> on_disk c fs \<and> st \<notin> {UPDATING, ROLLBACKING} \<and>
     load_current_status c fs = Some (if st = ABORTED then INITIALIZED else st)"

lemma then_store_settled:
  "on_disk c fs \<Longrightarrow> st \<notin> {UPDATING, ROLLBACKING} \<Longrightarrow> new = (if st = ABORTED then INITIALIZED else st) \<Longrightarrow>
   \<exists>fs'. then_io (store_current_status c new) (ret st) fs = (Inr st, fs') \<and> settled c st fs'"
  using store_current_status_on_disk [where c = c and fs = fs and st = new] by (auto simp: settled_def)

lemma load_status_file_settled:
  assumes "on_disk c fs" and fin: "finalize_returns c fin"
  shows "\<exists>st fs'. load_status_file False fin c fs = (Inr st, fs') \<and> settled c st fs'"
proof -
  let ?loaded = "if force_initialize c then None else load_current_status c fs"
  consider (none) "?loaded = None"
    | (aborted) "?loaded = Some ABORTED"
    | (kept) st where "?loaded = Some st" "st \<notin> {ABORTED, UPDATING, ROLLBACKING}"
    | (switching) st where "?loaded = Some st" "st \<in> {UPDATING, ROLLBACKING}"
        "is_switching_boot c (active_slot c) fs"
    | (failed) st where "?loaded = Some st" "st \<in> {UPDATING, ROLLBACKING}"
        "\<not> is_switching_boot c (active_slot c) fs"
    by (cases ?loaded) blast+
  then show ?thesis
  proof cases
    case none
    then show ?thesis
      using then_store_settled [OF assms(1), of INITIALIZED]
      by (auto simp: load_status_file_def Let_def)
  next
    case aborted
    then show ?thesis
      using then_store_settled [OF assms(1), of ABORTED]
      by (auto simp: load_status_file_def Let_def split: if_splits)
  next
    case kept
    then show ?thesis
      using assms(1) by (auto simp: load_status_file_def settled_def split: if_splits)
  next
    case switching
    obtain ok fs1 where f: "fin fs = (Inr ok, fs1)" "on_disk c fs1"
      using fin assms(1) unfolding finalize_returns_def by blast
    show ?thesis
      using switching f then_store_settled [OF f(2), of "if ok then SUCCESS else failure_status_of st"]
      by (auto simp: load_status_file_def Let_def failure_status_of_def split: if_splits)
  next
    case failed
    then show ?thesis
      using then_store_settled [OF assms(1), of "failure_status_of st"]
      by (auto simp: load_status_file_def Let_def failure_status_of_def split: if_splits)
  qed
qed

lemma status_control_init_settled:
  assumes "finalize_returns c fin"
  shows "\<exists>st fs'. status_control_init False fin c fs = (Inr (c\<lparr>booted_ota_status := st\<rparr>), fs') \<and>
    settled c st fs'"
proof -
  obtain fs1 where 1: "mkdir (current_ota_status_dir c) fs = (Inr (), fs1)" "on_disk c fs1"
    using mkdir_on_disk by blast
  obtain fs2 where 2: "load_slot_in_use_file c fs1 = (Inr (), fs2)" "on_disk c fs2"
    using load_slot_in_use_file_on_disk [OF 1(2)] by blast
  obtain st fs3 where "load_status_file False fin c fs2 = (Inr st, fs3)" "settled c st fs3"
    using load_status_file_settled [OF 2(2) assms] by blast
  with 1 2 show ?thesis by (auto simp: status_control_init_def)
qed

lemma status_control_init_on_disk:
  assumes "on_disk c fs" and "load_current_slot_in_use c fs = Some s" and "\<not> force_initialize c"
  shows "status_control_init b fin c fs =
    bind_io (load_status_file b fin c) (\<lambda>st. ret (c\<lparr>booted_ota_status := st\<rparr>)) fs"
  using assms by (simp add: status_control_init_def mkdir_def load_slot_in_use_file_def)

lemma load_status_file_kept:
  assumes "load_current_status c fs = Some st" and "st \<notin> {ABORTED, UPDATING, ROLLBACKING}"
    and "\<not> force_initialize c"
  shows "load_status_file False fin c fs = (Inr st, fs)"
  using assms by (auto simp: load_status_file_def)

lemma status_control_init_kept:
  assumes "on_disk c fs" and "load_current_status c fs = Some st"
    and "st \<notin> {ABORTED, UPDATING, ROLLBACKING}" and "\<not> force_initialize c"
  shows "\<exists>fs'. status_control_init False fin c fs = (Inr (c\<lparr>booted_ota_status := st\<rparr>), fs')"
proof -
  obtain fs2 where 2: "load_slot_in_use_file c fs = (Inr (), fs2)"
      "load_current_status c fs2 = Some st"
    using load_slot_in_use_file_on_disk [OF assms(1)] assms(2) by auto
  then have "load_status_file False fin c fs2 = (Inr st, fs2)"
    using assms(3,4) by (intro load_status_file_kept)
  with 2 assms(1) show ?thesis by (simp add: status_control_init_def mkdir_def)
qed

text \<open>The controller of the other slot, after a reboot into it.\<close>

definition swap_slots :: "status_control \<Rightarrow> status_control" where
  "swap_slots c = c\<lparr>active_slot := standby_slot c, standby_slot := active_slot c,
     current_ota_status_dir := standby_ota_status_dir c,
     standby_ota_status_dir := current_ota_status_dir c\<rparr>"

lemma swap_slots_simps [simp]:
  "active_slot (swap_slots c) = standby_slot c"
  "standby_slot (swap_slots c) = active_slot c"
  "current_ota_status_dir (swap_slots c) = standby_ota_status_dir c"
  "standby_ota_status_dir (swap_slots c) = current_ota_status_dir c"
  "force_initialize (swap_slots c) = force_initialize c"
  "booted_ota_status (swap_slots c) = booted_ota_status c"
  by (simp_all add: swap_slots_def)

lemma pre_update_current_result:
  "pre_update_current c fs = (Inr (), fs') \<Longrightarrow>
   on_disk c fs' \<and>
   (\<exists>x. f_status (fs_dirs fs' (current_ota_status_dir c)) = Some (ota_status_name FAILURE, x)) \<and>
   f_slot_in_use (fs_dirs fs' (current_ota_status_dir c)) = Some (standby_slot c) \<and>
   f_failure_info (fs_dirs fs' (current_ota_status_dir c)) = None"
  by (auto simp: pre_update_current_def then_io_def bind_io_def store_defs remove_failure_info_def
      split: if_splits)

definition made_dir :: "ota_dir \<Rightarrow> ota_dir" where
  "made_dir d = (if dir_exists d then d else absent_dir\<lparr>dir_exists := True\<rparr>)"

lemma post_update_standby_result:
  "\<exists>fs'. post_update_standby c v vd fs = (Inr (), fs') \<and>
     (\<forall>d. d \<noteq> standby_ota_status_dir c \<longrightarrow> fs_dirs fs' d = fs_dirs fs d) \<and>
     (let dir = fs_dirs fs' (standby_ota_status_dir c) in
        dir_exists dir \<and> (\<exists>x. f_status dir = Some (ota_status_name UPDATING, x)) \<and>
        f_slot_in_use dir = Some (standby_slot c) \<and> f_version dir = Some v \<and>
        f_failure_info dir = None \<and>
        f_version_detail dir = (case vd of
            Some d \<Rightarrow> Some (JsonObj [(''release_name'', JStr (release_name d)),
              (''release_id'', JStr (release_id d)), (''image_id'', JStr (image_id d))])
          | None \<Rightarrow> f_version_detail (made_dir (fs_dirs fs (standby_ota_status_dir c)))))"
  by (cases vd) (auto simp: post_update_standby_def then_io_def bind_io_def store_defs mkdir_def
      remove_failure_info_def made_dir_def)

lemma load_status_file_switching:
  assumes st: "load_current_status c fs = Some UPDATING"
    and slot: "load_current_slot_in_use c fs = Some (active_slot c)"
    and f: "\<not> force_initialize c" and fin: "fin fs = (Inr ok, fs1)" and d: "on_disk c fs1"
  shows "load_status_file False fin c fs =
    (Inr (if ok then SUCCESS else FAILURE),
     snd (store_current_status c (if ok then SUCCESS else FAILURE) fs1))"
  using assms
  by (auto simp: load_status_file_def is_switching_boot_def Let_def failure_status_of_def
      bind_io_def then_io_def store_defs)

lemma store_status_version:
  "load_slot_version d (snd (store_current_status c st fs)) = load_slot_version d fs"
  by (auto simp: store_defs load_slot_version_def file_in_def)

text \<open>
  The A/B switch. A slot whose status files say UPDATING, name that slot as the one in use and hold the
  installed version reports SUCCESS when it is booted and the boot controller's finalization succeeds,
  and FAILURE when the finalization does not succeed, with that version.
\<close>

definition updated_slot :: "string \<Rightarrow> string \<Rightarrow> string \<Rightarrow> ota_fs \<Rightarrow> bool" where
  "updated_slot d slot v fs \<longleftrightarrow> dir_exists (fs_dirs fs d) \<and>
     (\<exists>x. f_status (fs_dirs fs d) = Some (ota_status_name UPDATING, x)) \<and>
     f_slot_in_use (fs_dirs fs d) = Some slot \<and> f_version (fs_dirs fs d) = Some v"

lemma post_update_standby_updated:
  assumes "post_update_standby c v vd fs = (Inr (), fs')"
  shows "updated_slot (standby_ota_status_dir c) (standby_slot c) v fs' \<and>
    (\<forall>d. d \<noteq> standby_ota_status_dir c \<longrightarrow> fs_dirs fs' d = fs_dirs fs d)"
  using assms post_update_standby_result [of c v vd fs] by (auto simp: updated_slot_def Let_def)

lemma boot_into_updated_slot:
  assumes "updated_slot (current_ota_status_dir c) (active_slot c) v fs"
    and "stripped (active_slot c)" and "active_slot c \<noteq> ''''" and "\<not> force_initialize c"
    and fin: "fin fs = (Inr ok, fs')"
      "fs_dirs fs' (current_ota_status_dir c) = fs_dirs fs (current_ota_status_dir c)"
  shows "\<exists>fs''. status_control_init False fin c fs =
      (Inr (c\<lparr>booted_ota_status := if ok then SUCCESS else FAILURE\<rparr>), fs'') \<and>
    load_active_slot_version c fs'' = py_prefix MAX_VERSION_STRING_LEN (strip v)"
proof -
  let ?new = "if ok then SUCCESS else FAILURE"
  have P: "dir_exists (fs_dirs fs (current_ota_status_dir c))"
      "f_version (fs_dirs fs (current_ota_status_dir c)) = Some v"
    using assms(1) by (auto simp: updated_slot_def)
  have st: "load_current_status c fs = Some UPDATING"
    using assms(1) by (auto simp: updated_slot_def intro: load_current_status_named)
  have slot: "load_current_slot_in_use c fs = Some (active_slot c)"
    using assms(1-3) by (auto simp: updated_slot_def intro: load_current_slot_in_use_stored)
  have "load_status_file False fin c fs = (Inr ?new, snd (store_current_status c ?new fs'))"
    using st slot assms(4) fin P(1) by (intro load_status_file_switching) auto
  then have "status_control_init False fin c fs =
      (Inr (c\<lparr>booted_ota_status := ?new\<rparr>), snd (store_current_status c ?new fs'))"
    using status_control_init_on_disk [OF _ slot] P(1) assms(4) by simp
  moreover have "load_slot_version (current_ota_status_dir c) fs' =
      py_prefix MAX_VERSION_STRING_LEN (strip v)"
    using fin(2) P by (simp add: load_slot_version_def file_in_def)
  ultimately show ?thesis
    by (simp add: load_active_slot_version_def store_status_version)
qed

lemma store_failure_info_result:
  assumes "on_disk c fs"
  shows "\<exists>fs'. store_failure_info c ft reason fs = (Inr (), fs') \<and>
    fs_stamps fs' = fs_stamps fs \<and> fs_writes fs' = Suc (Suc (fs_writes fs)) \<and>
    (let dir = fs_dirs fs' (current_ota_status_dir c); x = fs_stamps fs (fs_writes fs) in
       dir_exists dir \<and> f_status dir = Some (ota_status_name FAILURE, x) \<and>
       f_slot_in_use dir = f_slot_in_use (fs_dirs fs (current_ota_status_dir c)) \<and>
       f_failure_info dir = Some (JsonObj
         [(''failure_type'', JStr (failure_type_value ft)), (''failure_reason'', JStr reason),
          (''status_ino'', JNum (fst x)), (''status_mtime_ns'', JNum (snd x))]))"
  using assms
  by (auto simp: store_failure_info_def then_io_def bind_io_def store_defs file_in_def
      split: prod.splits)

text \<open>The saved failure is read back as long as the status file is the one written with it.\<close>

lemma load_booted_failure_info_saved:
  assumes "on_disk c fs" and "booted_ota_status c \<in> {FAILURE, ROLLBACK_FAILURE}"
    and "f_failure_info (fs_dirs fs (current_ota_status_dir c)) = Some (JsonObj
         [(''failure_type'', JStr (failure_type_value ft)), (''failure_reason'', JStr reason),
          (''status_ino'', JNum (fst x)), (''status_mtime_ns'', JNum (snd x))])"
    and "f_status (fs_dirs fs (current_ota_status_dir c)) = Some (n, y)"
  shows "load_booted_failure_info c fs = (if y = x then Some (ft, reason) else None)"
  using assms
  by (auto simp: load_booted_failure_info_def file_in_def prod_eq_iff split: prod.splits)

text \<open>
  A failure that is persisted with its type and reason is reported again, with the same type
  and the same reason, by the controller of the same slot after a restart.
\<close>

lemma failure_info_survives_restart:
  assumes "on_disk c fs" and "\<not> force_initialize c"
    and store: "store_failure_info c ft reason fs = (Inr (), fs1)"
  shows "\<exists>fs2. status_control_init False fin c fs1 = (Inr (c\<lparr>booted_ota_status := FAILURE\<rparr>), fs2) \<and>
    load_booted_failure_info (c\<lparr>booted_ota_status := FAILURE\<rparr>) fs2 = Some (ft, reason)"
proof -
  let ?d = "current_ota_status_dir c" and ?c = "c\<lparr>booted_ota_status := FAILURE\<rparr>"
  have S: "on_disk c fs1" "f_status (fs_dirs fs1 ?d) =
        Some (ota_status_name FAILURE, fs_stamps fs (fs_writes fs))"
      "f_failure_info (fs_dirs fs1 ?d) = Some (JsonObj
         [(''failure_type'', JStr (failure_type_value ft)), (''failure_reason'', JStr reason),
          (''status_ino'', JNum (fst (fs_stamps fs (fs_writes fs)))),
          (''status_mtime_ns'', JNum (snd (fs_stamps fs (fs_writes fs))))])"
    using store_failure_info_result [OF assms(1), of ft reason] store by (auto simp: Let_def)
  obtain fs2 where 2: "load_slot_in_use_file c fs1 = (Inr (), fs2)"
      "load_current_status c fs2 = load_current_status c fs1" "on_disk c fs2"
      "f_status (fs_dirs fs2 ?d) = f_status (fs_dirs fs1 ?d)"
      "f_failure_info (fs_dirs fs2 ?d) = f_failure_info (fs_dirs fs1 ?d)"
    using load_slot_in_use_file_on_disk [OF S(1)]
    by (auto simp: load_slot_in_use_file_def Let_def store_defs split: option.splits if_splits)
  have "load_current_status c fs1 = Some FAILURE"
    using S by (auto intro: load_current_status_named)
  then have "load_status_file False fin c fs2 = (Inr FAILURE, fs2)"
    using 2(2) assms(2) by (intro load_status_file_kept) auto
  with 2(1) S(1) have "status_control_init False fin c fs1 = (Inr ?c, fs2)"
    by (simp add: status_control_init_def mkdir_def)
  moreover have "load_booted_failure_info ?c fs2 = Some (ft, reason)"
    using load_booted_failure_info_saved [where c = ?c and fs = fs2] 2(3-5) S by simp
  ultimately show ?thesis by blast
qed

text \<open>
  The persisted failure is bound to the status file written with it. Once the status file has
  been written again, by any later write, the failure info still on disk is ignored. The hypothesis
  on the stamps is that the kernel does not give two files written at different times both the same
  inode number and the same modification time.
\<close>

lemma failure_info_stale_after_rewrite:
  assumes "on_disk c fs" and store: "store_failure_info c ft reason fs = (Inr (), fs1)"
    and stamps: "inj (fs_stamps fs)"
    and later: "f_status (fs_dirs fs2 (current_ota_status_dir c)) = Some (n, fs_stamps fs k)"
      "fs_writes fs1 \<le> k" "dir_exists (fs_dirs fs2 (current_ota_status_dir c))"
      "f_failure_info (fs_dirs fs2 (current_ota_status_dir c)) =
       f_failure_info (fs_dirs fs1 (current_ota_status_dir c))"
  shows "load_booted_failure_info c fs2 = None"
proof (cases "booted_ota_status c \<in> {FAILURE, ROLLBACK_FAILURE}")
  case True
  have "fs_stamps fs k \<noteq> fs_stamps fs (fs_writes fs)"
    using store_failure_info_result [OF assms(1), of ft reason] store later(2) stamps
    by (auto dest: injD)
  then show ?thesis
    using load_booted_failure_info_saved [OF _ True] later
      store_failure_info_result [OF assms(1), of ft reason] store
    by (auto simp: Let_def)
next
  case False
  then show ?thesis by (simp add: load_booted_failure_info_def)
qed

text \<open>
  Restarting does not change what is reported: the second start on the same slot reports the
  status of the first, except that ABORTED is reported once and INITIALIZED from then on.
\<close>

lemma restart_keeps_status:
  assumes "finalize_returns c fin" and "\<not> force_initialize c"
    and "status_control_init False fin c fs = (Inr c1, fs1)"
  shows "\<exists>fs2. status_control_init False fin' c fs1 = (Inr (c\<lparr>booted_ota_status :=
      (if booted_ota_status c1 = ABORTED then INITIALIZED else booted_ota_status c1)\<rparr>), fs2)"
proof -
  obtain st where st: "c1 = c\<lparr>booted_ota_status := st\<rparr>" "settled c st fs1"
    using status_control_init_settled [OF assms(1), of fs] assms(3) by auto
  then show ?thesis
    using assms(2) by (auto simp: settled_def intro!: status_control_init_kept)
qed


subsection \<open>Concrete states for the witnesses\<close>

definition ex_ctl :: status_control where
  "ex_ctl = \<lparr>active_slot = ''sda1'', standby_slot = ''sda2'', current_ota_status_dir = ''a'',
     standby_ota_status_dir = ''b'', force_initialize = False, booted_ota_status = INITIALIZED\<rparr>"

definition ex_fs :: ota_fs where
  "ex_fs = \<lparr>fs_dirs = (\<lambda>d. if d = ''a'' then absent_dir\<lparr>dir_exists := True\<rparr> else absent_dir),
     fs_writes = 0, fs_stamps = (\<lambda>n. (int n, 7 + int n))\<rparr>"

lemma ex_stripped: "stripped ''sda2''"
  by (simp add: stripped_def py_isspace_def)

lemma ex_finalize: "finalize_returns ex_ctl (ret True)"
  by (auto simp: finalize_returns_def)


end
