(* ===== verification/Boot_Control.thy ===== *)
theory Boot_Control
  imports Status_Files
begin

text \<open>
  The template methods of the boot controllers, \<^verbatim>\<open>src/otaclient/boot_control/_base.py\<close>. The abstract
  methods and the mount helper of a platform are the fields of a record \<open>platform\<close> of methods over the
  state, which is the file system with the OTA status directories and whatever else the platform
  changes. What the templates rely on is stated as \<open>hooks_keep\<close>: a hook of a platform does not touch
  the OTA status directory of the current slot (it may do anything to the standby slot).
\<close>

section \<open>The controller\<close>

record 'p boot_state =
  bs_fs :: ota_fs
  bs_plat :: 'p

type_synonym ('p, 'a) boot_io = "('p boot_state, exc, 'a) io"

text \<open>
  \<open>plat_module\<close> is \<^verbatim>\<open>self.__class__.__module__\<close>, \<open>default_config_files\<close> is \<^verbatim>\<open>OTAConfigFiles()\<close>,
  the \<open>mp_\<close> fields are the methods of \<^verbatim>\<open>_mp_control\<close>.
\<close>

record ('p, 'c) platform =
  bootloader_type :: string
  plat_module :: string
  default_config_files :: 'c
  pre_update_prepare_standby :: "bool \<Rightarrow> ('p, unit) boot_io"
  mp_mount_standby :: "('p, unit) boot_io"
  mp_mount_active :: "('p, unit) boot_io"
  mp_umount_all :: "('p, unit) boot_io"
  pre_update_platform_specific :: "bool \<Rightarrow> bool \<Rightarrow> ('p, unit) boot_io"
  post_update_platform_specific :: "string \<Rightarrow> 'c \<Rightarrow> ('p, unit) boot_io"

definition on_fs :: "'a fs_io \<Rightarrow> ('p, 'a) boot_io" where
  "on_fs m = (\<lambda>s. case m (bs_fs s) of (r, fs') \<Rightarrow> (r, s\<lparr>bs_fs := fs'\<rparr>))"

text \<open>
  \<^verbatim>\<open>pre_update\<close>. The clauses \<^verbatim>\<open>except OTAError: raise\<close> and \<^verbatim>\<open>except Exception\<close> of the template are the
  conversion that \<open>raise_as_ota_error\<close> performs.
\<close>

definition bc_pre_update ::
  "('p, 'c) platform \<Rightarrow> status_control \<Rightarrow> bool \<Rightarrow> bool \<Rightarrow> ('p, unit) boot_io" where
  "bc_pre_update p c standby_as_ref erase_standby =
     raise_as_ota_error BootControlPreUpdateFailed ''failed on pre_update'' (plat_module p)
       (seq_io
         [on_fs (pre_update_current c),
          raise_as_ota_error BootControlStandbySlotPrepareFailed
            ''failed to prepare standby slot device'' (plat_module p)
            (pre_update_prepare_standby p erase_standby),
          raise_as_ota_error BootControlSlotMountFailed
            ''failed to mount slots'' (plat_module p)
            (seq_io [mp_mount_standby p, mp_mount_active p]),
          pre_update_platform_specific p standby_as_ref erase_standby])"

definition bc_post_update ::
  "('p, 'c) platform \<Rightarrow> status_control \<Rightarrow> string \<Rightarrow> version_detail option \<Rightarrow> 'c option \<Rightarrow>
   ('p, unit) boot_io" where
  "bc_post_update p c update_version vd ota_config_files =
     raise_as_ota_error BootControlPostUpdateFailed ''failed on post_update'' (plat_module p)
       (seq_io
         [on_fs (post_update_standby c update_version vd),
          post_update_platform_specific p update_version
            (case ota_config_files of Some f \<Rightarrow> f | None \<Rightarrow> default_config_files p),
          mp_umount_all p])"

definition on_operation_failure ::
  "('p, 'c) platform \<Rightarrow> status_control \<Rightarrow> ('p, unit) boot_io" where
  "on_operation_failure p c = seq_io [on_fs (on_failure c), mp_umount_all p]"

definition bc_on_abort :: "status_control \<Rightarrow> ('p, unit) boot_io" where
  "bc_on_abort c = on_fs (on_abort c)"

definition bc_store_failure_info ::
  "status_control \<Rightarrow> failure_type \<Rightarrow> string \<Rightarrow> ('p, unit) boot_io" where
  "bc_store_failure_info c ft reason = on_fs (store_failure_info c ft reason)"

text \<open>The read-only methods of the base class.\<close>

definition load_version :: "status_control \<Rightarrow> 'p boot_state \<Rightarrow> string" where
  "load_version c s = load_active_slot_version c (bs_fs s)"

definition bc_load_standby_slot_version :: "status_control \<Rightarrow> 'p boot_state \<Rightarrow> string" where
  "bc_load_standby_slot_version c s = load_standby_slot_version c (bs_fs s)"

definition get_booted_ota_status :: "status_control \<Rightarrow> ota_status" where
  "get_booted_ota_status c = booted_ota_status c"

definition get_booted_failure_info ::
  "status_control \<Rightarrow> 'p boot_state \<Rightarrow> (failure_type \<times> string) option" where
  "get_booted_failure_info c s = load_booted_failure_info c (bs_fs s)"

section \<open>What the templates rely on\<close>

definition current_dir :: "status_control \<Rightarrow> 'p boot_state \<Rightarrow> ota_dir" where
  "current_dir c s = fs_dirs (bs_fs s) (current_ota_status_dir c)"

definition hooks_keep :: "('p, 'c) platform \<Rightarrow> status_control \<Rightarrow> bool" where
  "hooks_keep p c \<longleftrightarrow> (\<forall>dir.
     (\<forall>b. keeps (\<lambda>s. current_dir c s = dir) (pre_update_prepare_standby p b)) \<and>
     keeps (\<lambda>s. current_dir c s = dir) (mp_mount_standby p) \<and>
     keeps (\<lambda>s. current_dir c s = dir) (mp_mount_active p) \<and>
     keeps (\<lambda>s. current_dir c s = dir) (mp_umount_all p) \<and>
     (\<forall>b b'. keeps (\<lambda>s. current_dir c s = dir) (pre_update_platform_specific p b b')) \<and>
     (\<forall>v f. keeps (\<lambda>s. current_dir c s = dir) (post_update_platform_specific p v f)))"

text \<open>The current slot says FAILURE.\<close>

definition marked_failure :: "status_control \<Rightarrow> 'p boot_state \<Rightarrow> bool" where
  "marked_failure c s \<longleftrightarrow> dir_exists (current_dir c s) \<and>
     (\<exists>x. f_status (current_dir c s) = Some (ota_status_name FAILURE, x))"

section \<open>Facts\<close>

lemma keeps_of_dir:
  assumes "\<And>dir. keeps (\<lambda>s. current_dir c s = dir) m" and "\<And>s s'. current_dir c s = current_dir c s' \<Longrightarrow> P s = P s'"
  shows "keeps P m"
proof (rule keepsI)
  fix s assume "P s"
  have "current_dir c (snd (m s)) = current_dir c s"
    using keepsD [OF assms(1)] by blast
  then show "P (snd (m s))" using assms(2) \<open>P s\<close> by blast
qed

lemma keeps_marked:
  "(\<And>dir. keeps (\<lambda>s. current_dir c s = dir) m) \<Longrightarrow> keeps (marked_failure c) m"
  by (erule keeps_of_dir) (simp add: marked_failure_def)

lemma hooks_keep_marked:
  assumes "hooks_keep p c"
  shows "keeps (marked_failure c) (pre_update_prepare_standby p b)"
    "keeps (marked_failure c) (mp_mount_standby p)"
    "keeps (marked_failure c) (mp_mount_active p)"
    "keeps (marked_failure c) (mp_umount_all p)"
    "keeps (marked_failure c) (pre_update_platform_specific p b b')"
    "keeps (marked_failure c) (post_update_platform_specific p v f)"
  using assms unfolding hooks_keep_def by (auto intro!: keeps_marked)

lemma marked_failure_load:
  "marked_failure c s \<Longrightarrow> load_current_status c (bs_fs s) = Some FAILURE"
  by (auto simp: marked_failure_def current_dir_def intro: load_current_status_named)

lemma raise_as_seq_state:
  "snd (raise_as_ota_error k t md m s) = snd (m s)"
  by (auto simp: raise_as_ota_error_def catch_io_def split: prod.splits sum.splits exc.splits)

lemma pre_update_current_marks:
  "dir_exists (current_dir c s) \<Longrightarrow> marked_failure c (snd (on_fs (pre_update_current c) s)) \<and>
     fst (on_fs (pre_update_current c) s) = Inr ()"
  by (simp add: on_fs_def pre_update_current_def io_defs store_defs remove_failure_info_def
      marked_failure_def current_dir_def)

lemma bc_pre_update_marks:
  assumes "hooks_keep p c" and "dir_exists (current_dir c s)"
  shows "marked_failure c (snd (bc_pre_update p c r e s))"
proof -
  let ?rest = "seq_io [raise_as_ota_error BootControlStandbySlotPrepareFailed
            ''failed to prepare standby slot device'' (plat_module p)
            (pre_update_prepare_standby p e),
          raise_as_ota_error BootControlSlotMountFailed
            ''failed to mount slots'' (plat_module p)
            (seq_io [mp_mount_standby p, mp_mount_active p]),
          pre_update_platform_specific p r e]"
  obtain s1 where s1: "on_fs (pre_update_current c) s = (Inr (), s1)" "marked_failure c s1"
    using pre_update_current_marks [OF assms(2)] by (metis prod.collapse)
  have "keeps (marked_failure c) ?rest"
    using hooks_keep_marked [OF assms(1)] by (auto intro!: keeps_intros)
  then have "marked_failure c (snd (?rest s1))" using s1(2) by (rule keepsD)
  moreover have "snd (bc_pre_update p c r e s) = snd (?rest s1)"
    unfolding bc_pre_update_def raise_as_seq_state using s1(1) by simp
  ultimately show ?thesis by simp
qed

text \<open>
  From the first step of the pre-update on, the current slot says FAILURE. Whatever step of
  the pre-update raises, and when none does, the status on disk is FAILURE afterwards, so an update
  that is interrupted at any later point is seen as failed by the next start on this slot.
\<close>

lemma pre_update_marks_failure:
  assumes "hooks_keep p c" and "dir_exists (current_dir c s)"
  shows "load_current_status c (bs_fs (snd (bc_pre_update p c r e s))) = Some FAILURE"
  using bc_pre_update_marks [OF assms] by (rule marked_failure_load)

lemma raise_as_no_PyExc: "fst (raise_as_ota_error k t md m s) \<noteq> Inl (PyExc x xs)"
  by (auto simp: raise_as_ota_error_def catch_io_def split: prod.splits sum.splits exc.splits)

text \<open>
  The pre-update and the post-update raise nothing but OTA errors (or end the process), so
  the updater can always report a code; and an exception of the step that prepares the standby
  device is reported with the code of that step, not with the generic one.
\<close>

lemma templates_raise_ota_errors:
  "fst (bc_pre_update p c r w s) \<noteq> Inl (PyExc x xs) \<and>
   fst (bc_post_update p c v vd f s) \<noteq> Inl (PyExc x xs) \<and>
   (on_fs (pre_update_current c) s = (Inr (), s1) \<and>
    pre_update_prepare_standby p w s1 = (Inl (PyExc y ys), s2) \<longrightarrow>
    bc_pre_update p c r w s = (Inl (OTAExc BootControlStandbySlotPrepareFailed
        [''failed to prepare standby slot device: '' @ y] (plat_module p)), s2))"
  unfolding bc_pre_update_def bc_post_update_def
  by (simp add: raise_as_no_PyExc) (simp add: raise_as_ota_error_def io_defs)

section \<open>A concrete platform for the witnesses\<close>

definition ex_platform :: "(unit, unit) platform" where
  "ex_platform = \<lparr>bootloader_type = ''example'', plat_module = ''m'', default_config_files = (),
     pre_update_prepare_standby = (\<lambda>_. throw (PyExc ''mkfs'' [K_OSError (Some 5)])), mp_mount_standby = ret (),
     mp_mount_active = ret (), mp_umount_all = ret (),
     pre_update_platform_specific = (\<lambda>_ _. ret ()),
     post_update_platform_specific = (\<lambda>_ _. ret ())\<rparr>"

definition ex_boot :: "unit boot_state" where
  "ex_boot = \<lparr>bs_fs = ex_fs, bs_plat = ()\<rparr>"

lemma ex_current: "dir_exists (current_dir ex_ctl ex_boot)"
  by (simp add: current_dir_def ex_boot_def ex_fs_def ex_ctl_def)

end
