(* ===== verification/Abort_Handler.thy ===== *)
theory Abort_Handler
  imports OTA_Errors
begin

text \<open>
  The abort handler, \<^verbatim>\<open>src/otaclient/ota_core/_abort_handler.py\<close>: its state, the zone transitions the
  updater thread makes, the two internal queues and the decision on an abort request. Each operation
  is what its \<^verbatim>\<open>with self._cond\<close> section does, so it is one atomic step; how the sections of the two
  threads interleave is the subject of theory \<open>Abort_Protocol\<close>.
\<close>

section \<open>State and operations\<close>

record abort_handler =
  ah_state :: abort_state
  ah_session_id :: string
  abort_queue :: "ipc_request list"
  resp_queue :: "ipc_response list"

type_synonym 'a ah_io = "(abort_handler, exc, 'a) io"

definition abort_handler_0 :: abort_handler where
  "abort_handler_0 = \<lparr>ah_state = AS_NONE, ah_session_id = '''', abort_queue = [],
     resp_queue = []\<rparr>"

definition abort_module :: string where
  "abort_module = ''otaclient.ota_core._abort_handler''"

definition set_session :: "string \<Rightarrow> unit ah_io" where
  "set_session sid = modify_io (\<lambda>h. h\<lparr>ah_session_id := sid, ah_state := AS_NONE\<rparr>)"

definition enter_critical_zone :: "unit ah_io" where
  "enter_critical_zone = (\<lambda>h.
     if ah_state h \<in> {AS_ABORTING, AS_ABORTED}
     then (Inl (OTAExc OTAAbortSignal [''cannot enter critical zone: abort in progress'']
             abort_module), h)
     else (Inr (), h\<lparr>ah_state := AS_CRITICAL_ZONE\<rparr>))"

definition exit_critical_zone :: "unit ah_io" where
  "exit_critical_zone = (\<lambda>h.
     if ah_state h = AS_REQUESTED
     then (Inl (OTAExc OTAAbortSignal [''abort queued during critical zone, now executing'']
             abort_module), h\<lparr>ah_state := AS_ABORTING\<rparr>)
     else if ah_state h \<in> {AS_ABORTING, AS_ABORTED}
     then (Inl (OTAExc OTAAbortSignal [''abort in progress''] abort_module), h)
     else (Inr (), h\<lparr>ah_state := AS_NONE\<rparr>))"

text \<open>
  The context manager \<^verbatim>\<open>critical_zone\<close>, for a body over any state the two operations are lifted to: an
  exception of \<open>leave\<close> replaces that of the body.
\<close>

definition critical_zone ::
  "('s, 'e, unit) io \<Rightarrow> ('s, 'e, unit) io \<Rightarrow> ('s, 'e, 'a) io \<Rightarrow> ('s, 'e, 'a) io" where
  "critical_zone enter leave body = then_io enter (finally_io body leave)"

definition enter_final_phase :: "unit ah_io" where
  "enter_final_phase = (\<lambda>h.
     if ah_state h \<in> {AS_ABORTING, AS_ABORTED}
     then (Inl (OTAExc OTAAbortSignal [''cannot enter final phase: abort in progress'']
             abort_module), h)
     else (Inr (), h\<lparr>ah_state := AS_FINAL_PHASE\<rparr>))"

text \<open>
  \<^verbatim>\<open>submit\<close> and \<^verbatim>\<open>get_response\<close> on the two queues; \<open>None\<close> is the timeout on an empty queue.
\<close>

definition submit :: "ipc_request \<Rightarrow> abort_handler \<Rightarrow> abort_handler" where
  "submit r h = h\<lparr>abort_queue := abort_queue h @ [r]\<rparr>"

definition get_response :: "abort_handler \<Rightarrow> ipc_response option \<times> abort_handler" where
  "get_response h = (case resp_queue h of
     [] \<Rightarrow> (None, h)
   | r # rs \<Rightarrow> (Some r, h\<lparr>resp_queue := rs\<rparr>))"

definition respond :: "ipc_res \<Rightarrow> string \<Rightarrow> ipc_request \<Rightarrow> abort_handler \<Rightarrow> abort_handler" where
  "respond rs m rq h = h\<lparr>resp_queue := resp_queue h @
     [\<lparr>res = rs, res_session_id = ipc_session_id rq, msg = m\<rparr>]\<rparr>"

text \<open>
  \<^verbatim>\<open>_handle\<close> up to the end of its locked section, with the live OTA status it reads; the boolean says
  whether \<^verbatim>\<open>_perform_abort\<close> is called next.
\<close>

definition handle :: "ota_status \<Rightarrow> ipc_request \<Rightarrow> abort_handler \<Rightarrow> bool \<times> abort_handler" where
  "handle live rq h =
     (if live \<noteq> UPDATING then
        (False, respond IPC_REJECT_ABORT ''Cannot abort: no active OTA update in progress'' rq h)
      else if ah_state h = AS_FINAL_PHASE then
        (False, respond IPC_REJECT_ABORT ''Cannot abort: update is in FINAL_PHASE'' rq h)
      else if ah_state h \<in> {AS_ABORTING, AS_ABORTED, AS_REQUESTED} then
        (False, respond IPC_ACCEPT ''Abort already in progress'' rq h)
      else if ah_state h = AS_CRITICAL_ZONE then
        (False, respond IPC_ACCEPT ''Abort queued, will proceed after critical zone exits'' rq
           (h\<lparr>ah_state := AS_REQUESTED\<rparr>))
      else
        (True, respond IPC_ACCEPT ''Abort accepted, aborting update immediately'' rq
           (h\<lparr>ah_state := AS_ABORTING\<rparr>)))"

text \<open>One round of \<^verbatim>\<open>_run\<close>: the next request is taken off the queue and decided on.\<close>

definition run_handle :: "ota_status \<Rightarrow> abort_handler \<Rightarrow> (bool \<times> abort_handler) option" where
  "run_handle live h = (case abort_queue h of
     [] \<Rightarrow> None
   | r # rs \<Rightarrow> Some (handle live r (h\<lparr>abort_queue := rs\<rparr>)))"

text \<open>The locked write of \<^verbatim>\<open>_perform_abort\<close>.\<close>

definition set_aborted :: "abort_handler \<Rightarrow> abort_handler" where
  "set_aborted h = h\<lparr>ah_state := AS_ABORTED\<rparr>"

section \<open>Zones, as their client sees them\<close>

text \<open>
  What a thread relies on that runs its work inside the zones: entering one is refused exactly when an
  abort is in progress, and then changes nothing; leaving the critical zone is refused when an abort
  was requested meanwhile or is in progress, and the abort is in progress afterwards.
\<close>

locale abort_zones =
  fixes enter leave final :: "('s, 'e, unit) io"
    and in_progress requested :: "'s \<Rightarrow> bool"
  assumes enter_law: "in_progress s \<longleftrightarrow> (\<exists>e. enter s = (Inl e, s))"
    and enter_ok: "\<not> in_progress s \<Longrightarrow> \<exists>s'. enter s = (Inr (), s') \<and> \<not> in_progress s'"
    and final_law: "in_progress s \<longleftrightarrow> (\<exists>e. final s = (Inl e, s))"
    and final_ok: "\<not> in_progress s \<Longrightarrow> \<exists>s'. final s = (Inr (), s') \<and> \<not> in_progress s' \<and> \<not> requested s'"
    and leave_law: "in_progress s \<or> requested s \<Longrightarrow> \<exists>e s'. leave s = (Inl e, s') \<and> in_progress s'"
    and leave_ok: "\<not> in_progress s \<Longrightarrow> \<not> requested s \<Longrightarrow>
      \<exists>s'. leave s = (Inr (), s') \<and> \<not> in_progress s' \<and> \<not> requested s'"
begin

lemma critical_zone_refused: "in_progress s \<Longrightarrow> \<exists>e. critical_zone enter leave m s = (Inl e, s)"
  using enter_law [of s] by (auto simp: critical_zone_def)

lemma critical_zone_left:
  assumes "critical_zone enter leave m s = (Inr a, s')"
  shows "\<not> in_progress s \<and> \<not> in_progress s' \<and> \<not> requested s'"
proof -
  have np: "\<not> in_progress s"
    using critical_zone_refused [of s m] assms by auto
  obtain s1 where s1: "enter s = (Inr (), s1)" using enter_ok [OF np] by blast
  obtain r s2 where m: "m s1 = (r, s2)" by (cases "m s1")
  have "\<not> (in_progress s2 \<or> requested s2)"
    using leave_law [of s2] assms s1 m by (auto simp: critical_zone_def finally_io_def)
  then obtain s3 where "leave s2 = (Inr (), s3)" "\<not> in_progress s3" "\<not> requested s3"
    using leave_ok by blast
  then show ?thesis using assms s1 m np by (simp add: critical_zone_def)
qed

lemma critical_zone_signal:
  assumes "critical_zone enter leave m s = (Inl e, s')" and "\<not> in_progress s'"
  shows "\<exists>s1 s2. enter s = (Inr (), s1) \<and> m s1 = (Inl e, s2)"
proof -
  have np: "\<not> in_progress s"
    using critical_zone_refused [of s m] assms by auto
  obtain s1 where s1: "enter s = (Inr (), s1)" using enter_ok [OF np] by blast
  obtain r s2 where m: "m s1 = (r, s2)" by (cases "m s1")
  have nr: "\<not> (in_progress s2 \<or> requested s2)"
  proof
    assume "in_progress s2 \<or> requested s2"
    then obtain e' s3 where "leave s2 = (Inl e', s3)" "in_progress s3" using leave_law by blast
    then show False using assms s1 m by (simp add: critical_zone_def)
  qed
  then obtain s3 where "leave s2 = (Inr (), s3)" using leave_ok by blast
  then show ?thesis using assms s1 m by (simp add: critical_zone_def)
qed

end

definition aborting :: "abort_handler \<Rightarrow> bool" where
  "aborting h \<longleftrightarrow> ah_state h \<in> {AS_ABORTING, AS_ABORTED}"

definition abort_requested :: "abort_handler \<Rightarrow> bool" where
  "abort_requested h \<longleftrightarrow> ah_state h = AS_REQUESTED"

lemmas zone_op_defs = enter_critical_zone_def exit_critical_zone_def enter_final_phase_def
  aborting_def abort_requested_def

interpretation ah: abort_zones enter_critical_zone exit_critical_zone enter_final_phase
  aborting abort_requested
  by unfold_locales (auto simp: zone_op_defs)

section \<open>Facts\<close>

lemma respond_state [simp]:
  "ah_state (respond r m rq h) = ah_state h" "ah_session_id (respond r m rq h) = ah_session_id h"
  "abort_queue (respond r m rq h) = abort_queue h"
  by (simp_all add: respond_def)

lemma handle_queues [simp]:
  "abort_queue (snd (handle live rq h)) = abort_queue h"
  by (simp add: handle_def)

text \<open>
  An abort request gets exactly one response, with its own session id, put behind the
  responses that are already waiting. The response is an acceptance exactly when an update is running
  and its final phase has not begun; and an acceptance leaves the handler in one of the states
  REQUESTED, ABORTING or ABORTED, from which every later zone transition of the updater is refused.
\<close>

lemma abort_request_answered:
  "\<exists>rs. resp_queue (snd (handle live rq h)) = resp_queue h @ [rs] \<and>
     res_session_id rs = ipc_session_id rq \<and>
     (res rs = IPC_ACCEPT \<longleftrightarrow> live = UPDATING \<and> ah_state h \<noteq> AS_FINAL_PHASE) \<and>
     (res rs \<noteq> IPC_ACCEPT \<longleftrightarrow> res rs = IPC_REJECT_ABORT) \<and>
     (res rs = IPC_ACCEPT \<longleftrightarrow> (live = UPDATING \<and>
        ah_state (snd (handle live rq h)) \<in> {AS_REQUESTED, AS_ABORTING, AS_ABORTED})) \<and>
     (fst (handle live rq h) \<longleftrightarrow> live = UPDATING \<and> ah_state h = AS_NONE)"
  by (cases "ah_state h") (auto simp: handle_def respond_def)

end
