(* ===== verification/Status_Monitor.thy ===== *)
theory Status_Monitor
  imports OTA_Types Complex_Main
begin

text \<open>
  The status collector of the OTA core process, \<^verbatim>\<open>src/otaclient/_status_monitor.py\<close>: the reports the
  other threads put on its queue, how one report changes the collected status (\<open>load_report\<close>), and
  one round of the collector thread with its pushes to the shared memory (\<open>collector_round\<close>). The clock
  readings (\<^verbatim>\<open>time.time\<close>, \<^verbatim>\<open>time.perf_counter\<close>) and whether the write to the shared memory succeeds are
  arguments.
\<close>

section \<open>Reports\<close>

datatype progress_type =
    PREPARE_LOCAL_COPY
  | DOWNLOAD_REMOTE_COPY
  | APPLY_DELTA
  | APPLY_REMOVE_DELTA

record progress_report =
  operation :: progress_type
  processed_file_num :: int
  processed_file_size :: int
  pr_downloaded_bytes :: int
  pr_errors :: int

record status_change =
  new_ota_status :: ota_status
  sc_failure_type :: failure_type
  sc_failure_reason :: string
  sc_failure_traceback :: string

record phase_change =
  new_update_phase :: update_phase
  trigger_timestamp :: int

record set_update_meta = update_meta +
  metadata_downloaded_bytes :: int

datatype payload =
    SetOTAClientMetaReport string "version_detail option"
  | UpdateProgressReport progress_report
  | OTAStatusChangeReport status_change
  | OTAUpdatePhaseChangeReport phase_change
  | SetUpdateMetaReport set_update_meta

record status_report =
  payload :: payload
  sr_session_id :: string

text \<open>\<^verbatim>\<open>OTAStatusChangeReport(new_ota_status=st)\<close>, with the defaults.\<close>

definition status_change_of :: "ota_status \<Rightarrow> status_change" where
  "status_change_of st = \<lparr>new_ota_status = st, sc_failure_type = NO_FAILURE,
     sc_failure_reason = '''', sc_failure_traceback = ''''\<rparr>"

section \<open>How a report changes the status\<close>

definition on_session_finished :: "otaclient_status \<Rightarrow> status_change \<Rightarrow> otaclient_status" where
  "on_session_finished st p =
     (let st1 = st\<lparr>session_id := '''', cs_update_phase := PH_INITIALIZING,
            cs_update_meta := Some update_meta_0, cs_update_progress := Some update_progress_0,
            cs_update_timing := Some update_timing_0, cs_ota_status := new_ota_status p\<rparr>
      in if new_ota_status p \<in> {FAILURE, ROLLBACK_FAILURE}
         then st1\<lparr>failure_type := sc_failure_type p, failure_reason := sc_failure_reason p,
                  failure_traceback := sc_failure_traceback p\<rparr>
         else st1\<lparr>failure_type := NO_FAILURE, failure_reason := '''', failure_traceback := ''''\<rparr>)"

definition on_new_ota_session ::
  "int \<Rightarrow> otaclient_status \<Rightarrow> status_change \<Rightarrow> otaclient_status" where
  "on_new_ota_session now st p =
     st\<lparr>cs_ota_status := new_ota_status p, cs_update_phase := PH_INITIALIZING,
        cs_update_meta := Some update_meta_0, cs_update_progress := Some update_progress_0,
        cs_update_timing := Some (update_timing_0\<lparr>update_start_timestamp := now\<rparr>),
        failure_type := NO_FAILURE, failure_reason := ''''\<rparr>"

definition on_update_phase_changed ::
  "otaclient_status \<Rightarrow> phase_change \<Rightarrow> bool \<times> otaclient_status" where
  "on_update_phase_changed st p =
     (case cs_update_timing st of
        None \<Rightarrow> (False, st)
      | Some t \<Rightarrow>
          let ts = trigger_timestamp p;
              t' = (case new_update_phase p of
                      PH_PROCESSING_POSTUPDATE \<Rightarrow> t\<lparr>post_update_start_timestamp := ts\<rparr>
                    | PH_DOWNLOADING_OTA_FILES \<Rightarrow> t\<lparr>download_start_timestamp := ts\<rparr>
                    | PH_CALCULATING_DELTA \<Rightarrow> t\<lparr>delta_generate_start_timestamp := ts\<rparr>
                    | PH_APPLYING_UPDATE \<Rightarrow> t\<lparr>update_apply_start_timestamp := ts\<rparr>
                    | _ \<Rightarrow> t)
          in (True, st\<lparr>cs_update_timing := Some t', cs_update_phase := new_update_phase p\<rparr>))"

definition add_progress :: "update_progress \<Rightarrow> progress_report \<Rightarrow> update_progress" where
  "add_progress u p =
     (case operation p of
        DOWNLOAD_REMOTE_COPY \<Rightarrow>
          u\<lparr>processed_files_num := processed_files_num u + processed_file_num p,
            processed_files_size := processed_files_size u + processed_file_size p,
            downloaded_bytes := downloaded_bytes u + pr_downloaded_bytes p,
            downloaded_files_num := downloaded_files_num u + processed_file_num p,
            downloaded_files_size := downloaded_files_size u + processed_file_size p,
            downloading_errors := downloading_errors u + pr_errors p\<rparr>
      | APPLY_REMOVE_DELTA \<Rightarrow>
          u\<lparr>removed_files_num := removed_files_num u + processed_file_num p\<rparr>
      | _ \<Rightarrow>
          u\<lparr>processed_files_num := processed_files_num u + processed_file_num p,
            processed_files_size := processed_files_size u + processed_file_size p\<rparr>)"

definition on_update_progress ::
  "otaclient_status \<Rightarrow> progress_report \<Rightarrow> bool \<times> otaclient_status" where
  "on_update_progress st p =
     (case cs_update_progress st of
        None \<Rightarrow> (False, st)
      | Some u \<Rightarrow> (True, st\<lparr>cs_update_progress := Some (add_progress u p)\<rparr>))"

text \<open>A field of the report is taken over when it is not empty or zero.\<close>

definition merge_meta :: "update_meta \<Rightarrow> set_update_meta \<Rightarrow> update_meta" where
  "merge_meta m p =
     \<lparr>update_firmware_version = (if update_firmware_version p \<noteq> '''' then update_firmware_version p
        else update_firmware_version m),
      image_size_uncompressed = (if image_size_uncompressed p \<noteq> 0 then image_size_uncompressed p
        else image_size_uncompressed m),
      image_file_entries = (if image_file_entries p \<noteq> 0 then image_file_entries p
        else image_file_entries m),
      total_download_files_num = (if total_download_files_num p \<noteq> 0
        then total_download_files_num p else total_download_files_num m),
      total_download_files_size = (if total_download_files_size p \<noteq> 0
        then total_download_files_size p else total_download_files_size m),
      total_remove_files_num = (if total_remove_files_num p \<noteq> 0 then total_remove_files_num p
        else total_remove_files_num m)\<rparr>"

definition on_update_meta ::
  "otaclient_status \<Rightarrow> set_update_meta \<Rightarrow> bool \<times> otaclient_status" where
  "on_update_meta st p =
     (case (cs_update_meta st, cs_update_progress st) of
        (Some m, Some u) \<Rightarrow>
          (True, st\<lparr>cs_update_meta := Some (merge_meta m p),
             cs_update_progress := Some (if metadata_downloaded_bytes p \<noteq> 0
               then u\<lparr>downloaded_bytes := downloaded_bytes u + metadata_downloaded_bytes p\<rparr>
               else u)\<rparr>)
      | _ \<Rightarrow> (False, st))"

text \<open>The traceback is cut to its last \<open>max_traceback_size\<close> characters.\<close>

definition cut_traceback :: "nat \<Rightarrow> status_change \<Rightarrow> status_change" where
  "cut_traceback max_traceback_size p =
     (if sc_failure_traceback p \<noteq> '''' \<and> length (sc_failure_traceback p) > max_traceback_size
      then p\<lparr>sc_failure_traceback := py_suffix max_traceback_size (sc_failure_traceback p)\<rparr>
      else p)"

text \<open>
  \<^verbatim>\<open>load_report\<close> on the collected status (\<open>None\<close> before the first report): whether the report was
  valid, and the status afterwards.
\<close>

definition load_report ::
  "nat \<Rightarrow> int \<Rightarrow> otaclient_status option \<Rightarrow> status_report \<Rightarrow> bool \<times> otaclient_status" where
  "load_report max_traceback_size now status report =
     (let st = (case status of None \<Rightarrow> otaclient_status_0 | Some s \<Rightarrow> s) in
      case payload report of
        SetOTAClientMetaReport fw vd \<Rightarrow>
          (let st1 = st\<lparr>firmware_version := fw\<rparr>
           in (True, case vd of Some d \<Rightarrow> st1\<lparr>cs_version_detail := Some d\<rparr> | None \<Rightarrow> st1))
      | OTAStatusChangeReport p0 \<Rightarrow>
          (let p = cut_traceback max_traceback_size p0
           in if new_ota_status p \<in> {UPDATING, ROLLBACKING, CLIENT_UPDATING}
              then (True, on_new_ota_session now (st\<lparr>session_id := sr_session_id report\<rparr>) p)
              else if new_ota_status p = ABORTING
              then (True, st\<lparr>cs_ota_status := ABORTING\<rparr>)
              else (True, on_session_finished (st\<lparr>session_id := ''''\<rparr>) p))
      | other \<Rightarrow>
          if sr_session_id report \<noteq> session_id st then (False, st)
          else (case other of
                  OTAUpdatePhaseChangeReport p \<Rightarrow> on_update_phase_changed st p
                | UpdateProgressReport p \<Rightarrow> on_update_progress st p
                | SetUpdateMetaReport p \<Rightarrow> on_update_meta st p
                | _ \<Rightarrow> (False, st)))"

section \<open>The collector thread\<close>

record collector =
  col_status :: "otaclient_status option"
  next_shm_push :: real
  latest_status_pushed :: bool
  shm_status :: "otaclient_status option"
  terminated :: bool

definition MIN_COLLECT_INTERVAL :: real where "MIN_COLLECT_INTERVAL = 1 / 2"

definition SHM_PUSH_INTERVAL :: real where "SHM_PUSH_INTERVAL = 1 / 2"

definition collector_0 :: collector where
  "collector_0 = \<lparr>col_status = None, next_shm_push = 0, latest_status_pushed = False,
     shm_status = None, terminated = False\<rparr>"

text \<open>What the queue yields in a round: a report, the sentinel, or nothing.\<close>

datatype queue_item = QReport status_report | QTerminate | QEmpty

definition is_status_change :: "status_report \<Rightarrow> bool" where
  "is_status_change r = (case payload r of OTAStatusChangeReport _ \<Rightarrow> True | _ \<Rightarrow> False)"

text \<open>
  One round of \<^verbatim>\<open>_status_collector_thread\<close>; \<open>perf\<close> is the performance counter, \<open>write_ok\<close> whether
  \<^verbatim>\<open>write_msg\<close> returns (its exceptions are ignored).
\<close>

definition collector_round ::
  "nat \<Rightarrow> int \<Rightarrow> real \<Rightarrow> queue_item \<Rightarrow> bool \<Rightarrow> collector \<Rightarrow> collector" where
  "collector_round max_traceback_size now perf item write_ok c =
     (case item of
        QTerminate \<Rightarrow> c\<lparr>terminated := True\<rparr>
      | _ \<Rightarrow>
          let (report, c1) =
                (case item of
                   QReport r \<Rightarrow>
                     (let (ok, st) = load_report max_traceback_size now (col_status c) r
                      in if ok then (Some r, c\<lparr>col_status := Some st, latest_status_pushed := False\<rparr>)
                         else (None, c\<lparr>col_status := Some st\<rparr>))
                 | _ \<Rightarrow> (None, c))
          in (case col_status c1 of
                None \<Rightarrow> c1
              | Some st \<Rightarrow>
                  if ((perf > next_shm_push c1 \<and> \<not> latest_status_pushed c1) \<or>
                      (case report of Some r \<Rightarrow> is_status_change r | None \<Rightarrow> False)) \<and> write_ok
                  then c1\<lparr>shm_status := Some st, next_shm_push := perf + SHM_PUSH_INTERVAL,
                          latest_status_pushed := True\<rparr>
                  else c1))"

text \<open>The status after a sequence of reports, each at its own time.\<close>

fun load_reports ::
  "nat \<Rightarrow> otaclient_status option \<Rightarrow> (int \<times> status_report) list \<Rightarrow> otaclient_status option" where
  "load_reports mx st [] = st"
| "load_reports mx st ((now, r) # rs) = load_reports mx (Some (snd (load_report mx now st r))) rs"

section \<open>Facts\<close>

lemmas report_defs = load_report_def on_session_finished_def on_new_ota_session_def
  on_update_phase_changed_def on_update_progress_def on_update_meta_def

text \<open>A report that belongs to one session: everything but the status change and the client's meta.\<close>

definition session_report :: "status_report \<Rightarrow> bool" where
  "session_report r = (case payload r of
     UpdateProgressReport _ \<Rightarrow> True | OTAUpdatePhaseChangeReport _ \<Rightarrow> True
   | SetUpdateMetaReport _ \<Rightarrow> True | _ \<Rightarrow> False)"

lemma load_report_foreign:
  "session_report r \<Longrightarrow> sr_session_id r \<noteq> session_id st \<Longrightarrow>
   load_report mx now (Some st) r = (False, st)"
  by (auto simp: load_report_def session_report_def split: payload.splits)

lemma load_reports_foreign:
  "\<forall>(now, r)\<in>set rs. session_report r \<and> sr_session_id r \<noteq> session_id st \<Longrightarrow>
   load_reports mx (Some st) rs = Some st"
  by (induction rs) (auto simp: load_report_foreign)

text \<open>Reports of a session keep the status, the session and the failure of the record.\<close>

lemma load_report_session_keeps:
  assumes "session_report r"
  shows "cs_ota_status (snd (load_report mx now (Some st) r)) = cs_ota_status st"
    "session_id (snd (load_report mx now (Some st) r)) = session_id st"
    "failure_type (snd (load_report mx now (Some st) r)) = failure_type st"
    "failure_reason (snd (load_report mx now (Some st) r)) = failure_reason st"
  using assms
  by (auto simp: report_defs session_report_def Let_def split: payload.splits option.splits)

definition failure_consistent :: "otaclient_status \<Rightarrow> bool" where
  "failure_consistent st \<longleftrightarrow>
     cs_ota_status st \<in> {FAILURE, ROLLBACK_FAILURE, ABORTING} \<or>
     (failure_type st = NO_FAILURE \<and> failure_reason st = '''')"

lemma failure_consistent_0: "failure_consistent otaclient_status_0"
  by (simp add: failure_consistent_def otaclient_status_0_def)

lemma load_report_failure_consistent:
  assumes "failure_consistent st"
  shows "failure_consistent (snd (load_report mx now (Some st) r))"
proof (cases "session_report r")
  case True
  then show ?thesis
    using assms load_report_session_keeps [OF True, of mx now st]
    by (simp add: failure_consistent_def)
next
  case False
  then show ?thesis
    using assms
    by (auto simp: report_defs session_report_def failure_consistent_def Let_def
        split: payload.splits option.splits if_splits)
qed

lemma load_report_None: "load_report mx now None r = load_report mx now (Some otaclient_status_0) r"
  by (simp add: load_report_def)

lemma load_reports_failure_consistent:
  "failure_consistent st \<Longrightarrow>
   \<exists>st'. load_reports mx (Some st) rs = Some st' \<and> failure_consistent st'"
proof (induction rs arbitrary: st)
  case (Cons a rs)
  obtain now r where a: "a = (now, r)" by (cases a)
  show ?case
    using Cons.IH [OF load_report_failure_consistent [OF Cons.prems, of mx now r]] by (simp add: a)
qed simp


text \<open>
  Sessions are isolated. Once a session has ended (a status change to anything but UPDATING,
  ROLLBACKING, CLIENT_UPDATING and ABORTING), the reports of that session or of any other one that
  still arrive change nothing: the status is what the end of the session made it, with no session,
  no progress and the phase INITIALIZING.
\<close>

lemma late_reports_are_dropped:
  assumes "new_ota_status p \<notin> {UPDATING, ROLLBACKING, CLIENT_UPDATING, ABORTING}"
    and "payload r = OTAStatusChangeReport p"
    and "\<forall>(t, x)\<in>set late. session_report x \<and> sr_session_id x \<noteq> ''''"
  shows "\<exists>st'. load_reports mx (Some st) ((now, r) # late) = Some st' \<and>
    cs_ota_status st' = new_ota_status p \<and> session_id st' = '''' \<and>
    cs_update_phase st' = PH_INITIALIZING \<and> cs_update_progress st' = Some update_progress_0 \<and>
    cs_update_meta st' = Some update_meta_0 \<and> cs_update_timing st' = Some update_timing_0"
proof -
  let ?st = "snd (load_report mx now (Some st) r)"
  have st: "cs_ota_status ?st = new_ota_status p" "session_id ?st = ''''"
      "cs_update_phase ?st = PH_INITIALIZING" "cs_update_progress ?st = Some update_progress_0"
      "cs_update_meta ?st = Some update_meta_0" "cs_update_timing ?st = Some update_timing_0"
    using assms(1,2) by (auto simp: load_report_def on_session_finished_def cut_traceback_def Let_def)
  have "load_reports mx (Some ?st) late = Some ?st"
    using assms(3) st(2) by (intro load_reports_foreign) auto
  with st show ?thesis by simp
qed

subsection \<open>Progress\<close>

text \<open>The totals a sequence of progress reports adds up to.\<close>

definition processes_files :: "progress_report \<Rightarrow> bool" where
  "processes_files p \<longleftrightarrow> operation p \<noteq> APPLY_REMOVE_DELTA"

definition downloads :: "progress_report \<Rightarrow> bool" where
  "downloads p \<longleftrightarrow> operation p = DOWNLOAD_REMOTE_COPY"

lemma add_progress_fields:
  "processed_files_num (add_progress u p) =
     processed_files_num u + (if processes_files p then processed_file_num p else 0)"
  "processed_files_size (add_progress u p) =
     processed_files_size u + (if processes_files p then processed_file_size p else 0)"
  "downloaded_files_num (add_progress u p) =
     downloaded_files_num u + (if downloads p then processed_file_num p else 0)"
  "downloaded_files_size (add_progress u p) =
     downloaded_files_size u + (if downloads p then processed_file_size p else 0)"
  "downloaded_bytes (add_progress u p) =
     downloaded_bytes u + (if downloads p then pr_downloaded_bytes p else 0)"
  "removed_files_num (add_progress u p) =
     removed_files_num u + (if processes_files p then 0 else processed_file_num p)"
  by (auto simp: add_progress_def processes_files_def downloads_def split: progress_type.splits)

definition progress_reports :: "string \<Rightarrow> progress_report list \<Rightarrow> (int \<times> status_report) list" where
  "progress_reports sid ps =
     map (\<lambda>p. (0, \<lparr>payload = UpdateProgressReport p, sr_session_id = sid\<rparr>)) ps"

lemma load_progress_reports:
  "cs_update_progress st = Some u \<Longrightarrow>
   load_reports mx (Some st) (progress_reports (session_id st) ps) =
     Some (st\<lparr>cs_update_progress := Some (fold (\<lambda>p u. add_progress u p) ps u)\<rparr>)"
proof (induction ps arbitrary: st u)
  case Nil
  then show ?case by (simp add: progress_reports_def)
next
  case (Cons p ps)
  let ?st = "st\<lparr>cs_update_progress := Some (add_progress u p)\<rparr>"
  have "load_reports mx (Some st) (progress_reports (session_id st) (p # ps)) =
      load_reports mx (Some ?st) (progress_reports (session_id ?st) ps)"
    using Cons.prems by (simp add: progress_reports_def load_report_def on_update_progress_def)
  then show ?case
    using Cons.IH [of ?st "add_progress u p"] by simp
qed

lemma fold_progress_totals:
  "processed_files_num (fold (\<lambda>p u. add_progress u p) ps u) =
     processed_files_num u + sum_list (map processed_file_num (filter processes_files ps))"
  "downloaded_files_num (fold (\<lambda>p u. add_progress u p) ps u) =
     downloaded_files_num u + sum_list (map processed_file_num (filter downloads ps))"
  "downloaded_bytes (fold (\<lambda>p u. add_progress u p) ps u) =
     downloaded_bytes u + sum_list (map pr_downloaded_bytes (filter downloads ps))"
  "removed_files_num (fold (\<lambda>p u. add_progress u p) ps u) =
     removed_files_num u + sum_list (map processed_file_num (filter (\<lambda>p. \<not> processes_files p) ps))"
  by (induction ps arbitrary: u) (auto simp: add_progress_fields)

lemma sum_list_downloads_le:
  "\<forall>p\<in>set ps. 0 \<le> processed_file_num p \<Longrightarrow>
   sum_list (map processed_file_num (filter downloads ps)) \<le>
   sum_list (map processed_file_num (filter processes_files ps))"
  by (induction ps) (auto simp: downloads_def processes_files_def)

text \<open>
  The progress counters add up. After any reports of the running session the number of
  processed files, of downloaded files, of downloaded bytes and of removed files are the sums over the
  reports of the operations that count for them, and, for reports of non-negative counts, no more
  files are counted as downloaded than as processed.
\<close>

lemma progress_adds_up:
  assumes "cs_update_progress st = Some update_progress_0"
  shows "\<exists>st' u. load_reports mx (Some st) (progress_reports (session_id st) ps) = Some st' \<and>
    cs_update_progress st' = Some u \<and>
    processed_files_num u = sum_list (map processed_file_num (filter processes_files ps)) \<and>
    downloaded_files_num u = sum_list (map processed_file_num (filter downloads ps)) \<and>
    downloaded_bytes u = sum_list (map pr_downloaded_bytes (filter downloads ps)) \<and>
    removed_files_num u =
      sum_list (map processed_file_num (filter (\<lambda>p. \<not> processes_files p) ps)) \<and>
    ((\<forall>p\<in>set ps. 0 \<le> processed_file_num p) \<longrightarrow>
      downloaded_files_num u \<le> processed_files_num u)"
  using load_progress_reports [OF assms, of mx ps]
  by (simp add: fold_progress_totals sum_list_downloads_le update_progress_0_def)

subsection \<open>Pushes to the shared memory\<close>

lemma new_ota_status_cut [simp]: "new_ota_status (cut_traceback mx p) = new_ota_status p"
  by (simp add: cut_traceback_def)

lemma load_report_status_change:
  assumes "payload r = OTAStatusChangeReport p"
  shows "\<exists>st'. load_report mx now st r = (True, st') \<and> cs_ota_status st' = new_ota_status p"
  using assms
  by (simp add: load_report_def on_session_finished_def on_new_ota_session_def Let_def)

text \<open>
  An OTA status change is in the shared memory at the end of the round that receives it,
  whatever the push interval says, unless the write itself fails; and a round that finds the queue
  empty after the push interval leaves the shared memory equal to the collected status.
\<close>

lemma status_change_pushed_at_once:
  "(payload r = OTAStatusChangeReport p \<longrightarrow>
    (\<exists>st. collector_round mx now perf (QReport r) True c =
       c\<lparr>col_status := Some st, shm_status := Some st,
         next_shm_push := perf + SHM_PUSH_INTERVAL, latest_status_pushed := True\<rparr> \<and>
       cs_ota_status st = new_ota_status p)) \<and>
   (col_status c = Some st0 \<and> next_shm_push c < perf \<and> \<not> latest_status_pushed c \<longrightarrow>
    shm_status (collector_round mx now perf QEmpty True c) = Some st0)"
proof (intro conjI impI)
  assume p: "payload r = OTAStatusChangeReport p"
  obtain st where st: "load_report mx now (col_status c) r = (True, st)"
      "cs_ota_status st = new_ota_status p"
    using load_report_status_change [OF p] by blast
  then show "\<exists>st. collector_round mx now perf (QReport r) True c =
       c\<lparr>col_status := Some st, shm_status := Some st,
         next_shm_push := perf + SHM_PUSH_INTERVAL, latest_status_pushed := True\<rparr> \<and>
       cs_ota_status st = new_ota_status p"
    using p by (auto simp: collector_round_def is_status_change_def)
qed (simp add: collector_round_def)

end
