(* ===== verification/Metrics.thy ===== *)
theory Metrics
  imports OTA_Types
begin

text \<open>
  The metrics of an OTA session, \<^verbatim>\<open>src/otaclient/metrics.py\<close>: the flat record the OTA core fills, the
  merge of the counters the OTA proxy process shares, and the publication to the log.
\<close>

text \<open>\<^verbatim>\<open>OTAMetricsSharedMemoryData\<close>: what the proxy's process writes.\<close>

record shm_metrics =
  cache_total_requests :: int
  cache_cdn_hits :: int
  cache_external_hits :: int
  cache_external_nfs_hits :: int
  cache_local_hits :: int

datatype ota_image_format = FMT_UNSET | FMT_LEGACY | FMT_V1

text \<open>
  \<^verbatim>\<open>OTAMetricsData\<close>. The fields that hold the value of an enum or the empty string are options; the
  last field is \<^verbatim>\<open>_already_published\<close>, which is not part of the published data.
\<close>

record metrics = shm_metrics +
  initializing_start_ts :: int
  processing_metadata_start_ts :: int
  delta_calculation_start_ts :: int
  download_start_ts :: int
  apply_update_start_ts :: int
  post_update_start_ts :: int
  finalizing_update_start_ts :: int
  reboot_start_ts :: int
  m_ecu_id :: string
  m_request_id :: string
  m_session_id :: string
  current_firmware_version :: string
  standby_firmware_version :: string
  target_firmware_version :: string
  m_failure_type :: "failure_type option"
  m_failure_reason :: string
  m_failed_status :: "ota_status option"
  use_inplace_mode :: bool
  m_image_format :: ota_image_format
  image_total_files_size :: int
  image_total_regulars_num :: int
  image_total_directories_num :: int
  image_total_symlinks_num :: int
  delta_download_files_num :: int
  delta_download_files_size :: int
  m_downloaded_bytes :: int
  m_downloaded_errors :: int
  m_bootloader_type :: string
  enable_local_ota_proxy_cache :: bool
  already_published :: bool

definition metrics_0 :: "string \<Rightarrow> metrics" where
  "metrics_0 ecu = \<lparr>cache_total_requests = 0, cache_cdn_hits = 0, cache_external_hits = 0,
     cache_external_nfs_hits = 0, cache_local_hits = 0,
     initializing_start_ts = 0, processing_metadata_start_ts = 0, delta_calculation_start_ts = 0,
     download_start_ts = 0, apply_update_start_ts = 0, post_update_start_ts = 0,
     finalizing_update_start_ts = 0, reboot_start_ts = 0, m_ecu_id = ecu, m_request_id = '''',
     m_session_id = '''', current_firmware_version = '''', standby_firmware_version = '''',
     target_firmware_version = '''', m_failure_type = None, m_failure_reason = '''',
     m_failed_status = None, use_inplace_mode = False, m_image_format = FMT_UNSET,
     image_total_files_size = 0, image_total_regulars_num = 0, image_total_directories_num = 0,
     image_total_symlinks_num = 0, delta_download_files_num = 0, delta_download_files_size = 0,
     m_downloaded_bytes = 0, m_downloaded_errors = 0, m_bootloader_type = '''',
     enable_local_ota_proxy_cache = False, already_published = False\<rparr>"

text \<open>
  \<^verbatim>\<open>shm_merge\<close>: every field that the shared data has too is overwritten with its value there.
\<close>

definition shm_merge :: "shm_metrics option \<Rightarrow> metrics \<Rightarrow> metrics" where
  "shm_merge d m = (case d of None \<Rightarrow> m
   | Some s \<Rightarrow> m\<lparr>cache_total_requests := cache_total_requests s, cache_cdn_hits := cache_cdn_hits s,
        cache_external_hits := cache_external_hits s,
        cache_external_nfs_hits := cache_external_nfs_hits s,
        cache_local_hits := cache_local_hits s\<rparr>)"

text \<open>
  \<^verbatim>\<open>publish\<close>: what goes to the metrics log, if anything, and the metrics afterwards; \<open>log_ok\<close> says whether
  the logging call returns.
\<close>

definition publish :: "bool \<Rightarrow> metrics \<Rightarrow> metrics option \<times> metrics" where
  "publish log_ok m =
     (if already_published m then (None, m)
      else if log_ok then (Some m, m\<lparr>already_published := True\<rparr>)
      else (None, m))"

lemma publish_once:
  "publish ok m = (p, m') \<Longrightarrow> p \<noteq> None \<longleftrightarrow> (ok \<and> \<not> already_published m)"
  by (auto simp: publish_def split: if_splits)

lemma already_published_mono: "already_published m \<Longrightarrow> already_published (snd (publish ok m))"
  by (simp add: publish_def)

lemma shm_merge_published [simp]: "already_published (shm_merge d m) = already_published m"
  by (simp add: shm_merge_def split: option.splits)

end
