(* ===== verification/Download_Results.thy ===== *)
theory Download_Results
  imports OTA_Errors Status_Monitor Metrics
begin

text \<open>
  What the updater makes of the outcome of its downloads: the handling of one finished task and of a
  whole batch (\<^verbatim>\<open>src/otaclient/ota_core/_common.py\<close> and \<^verbatim>\<open>_update_libs.py\<close>), the conversion of the exceptions
  that interrupt a download into OTA errors, and the check for a full disk along an exception chain.
\<close>

section \<open>Exceptions\<close>

definition ENOSPC :: int where "ENOSPC = 28"

definition common_module :: string where "common_module = ''otaclient.ota_core._common''"

definition update_libs_module :: string where "update_libs_module = ''otaclient.ota_core._update_libs''"

fun errno_of :: "exc_kind \<Rightarrow> int option" where
  "errno_of (K_OSError e) = e"
| "errno_of (K_HTTPError _ e) = e"
| "errno_of _ = None"

fun is_os_error :: "exc_kind \<Rightarrow> bool" where
  "is_os_error (K_OSError _) = True"
| "is_os_error (K_HTTPError _ _) = True"
| "is_os_error K_ConnectionError = True"
| "is_os_error _ = False"

text \<open>
  \<^verbatim>\<open>is_caused_by_enospc\<close> on the chain of an exception: the loop looks at no more than \<open>max_depth\<close>
  exceptions and ends with the chain.
\<close>

fun is_caused_by_enospc :: "nat \<Rightarrow> exc_kind list \<Rightarrow> bool" where
  "is_caused_by_enospc 0 _ = False"
| "is_caused_by_enospc (Suc n) [] = False"
| "is_caused_by_enospc (Suc n) (k # ks) =
     (if is_os_error k \<and> errno_of k = Some ENOSPC then True else is_caused_by_enospc n ks)"

text \<open>\<^verbatim>\<open>f"{exc.errno}"\<close>.\<close>

definition opt_int_str :: "int option \<Rightarrow> string" where
  "opt_int_str e = (case e of None \<Rightarrow> ''None''
   | Some i \<Rightarrow> if i < 0 then ''-'' @ nat_str (nat (- i)) else nat_str (nat i))"

text \<open>
  The outcome of a task, \<^verbatim>\<open>Future\<close>: the result of the download, of a whole resource or of a slice of
  one, or the exception.
\<close>

record download_result =
  retry_count :: int
  download_size :: int
  traffic_on_wire :: int

datatype future =
    FDone download_result
  | FSlice download_result
  | FExc string "exc_kind list"

text \<open>\<^verbatim>\<open>download_exception_handler\<close>: an error it raises, or whether the download succeeded.\<close>

definition download_exception_handler :: "future \<Rightarrow> exc + bool" where
  "download_exception_handler fut = (case fut of
     FExc r ks \<Rightarrow>
       (let k = (case ks of [] \<Rightarrow> K_Other | k # _ \<Rightarrow> k) in
        case k of
          K_HTTPError None _ \<Rightarrow> Inr False
        | K_HTTPError (Some code) errno \<Rightarrow>
            if code \<in> {401, 403} then
              Inl (OTAExc UpdateRequestCookieInvalid
                [''download failed with critical HTTP error: '' @ opt_int_str errno @ '', '' @ r]
                common_module)
            else if code = 404 then
              Inl (OTAExc OTAImageNotFound [''download failed with 404 on some file(s): '' @ r]
                common_module)
            else if errno = Some ENOSPC then
              Inl (OTAExc StandbySlotInsufficientSpace
                [''download failed due to space insufficient: '' @ r] common_module)
            else Inr False
        | _ \<Rightarrow>
            if is_os_error k \<and> errno_of k = Some ENOSPC then
              Inl (OTAExc StandbySlotInsufficientSpace
                [''download failed due to space insufficient: '' @ r] common_module)
            else Inr False)
   | _ \<Rightarrow> Inr True)"

text \<open>
  \<^verbatim>\<open>raise_on_download_resources_failed\<close> and \<^verbatim>\<open>metadata_download_err_handler\<close>: what an exception is
  raised as. \<open>timeout\<close> is the printed value of \<^verbatim>\<open>cfg.DOWNLOAD_INACTIVE_TIMEOUT\<close>, \<open>str\<close> gives the
  \<^verbatim>\<open>str(e)\<close> of the exception with the given \<^verbatim>\<open>repr\<close>.
\<close>

definition raise_on_download_resources_failed :: "string \<Rightarrow> exc \<Rightarrow> exc" where
  "raise_on_download_resources_failed timeout e = (case e of
     OTAExc c args md \<Rightarrow> e
   | PyExc r ks \<Rightarrow>
       if ks \<noteq> [] \<and> hd ks = K_DownloadInactiveTimeout
       then OTAExc DownloadStalled
         [''OTA resources downloading made no progress for '' @ timeout @ ''s, abort OTA'']
         update_libs_module
       else OTAExc OTAResourceDownloadFailed
         [''OTA resources downloading interrupted: '' @ r] update_libs_module
   | SysExit \<Rightarrow> SysExit)"

definition metadata_download_err :: "string \<Rightarrow> (string \<Rightarrow> string) \<Rightarrow> exc \<Rightarrow> exc" where
  "metadata_download_err timeout str e = (case e of
     OTAExc c args md \<Rightarrow> e
   | PyExc r ks \<Rightarrow>
       (case (case ks of [] \<Rightarrow> K_Other | k # _ \<Rightarrow> k) of
          K_SignCertInvalid \<Rightarrow> OTAExc MetadataJWTVerficationFailed
            [''failed to verify sign certificate: '' @ str r] update_libs_module
        | K_NoCAStoreAvailable \<Rightarrow> OTAExc MetadataJWTVerficationFailed
            [''failed to verify sign certificate: '' @ str r] update_libs_module
        | K_ImageMetadataInvalid \<Rightarrow> OTAExc OTAImageInvalid
            [''image metadata invalid: '' @ str r] update_libs_module
        | K_DownloadInactiveTimeout \<Rightarrow> OTAExc DownloadStalled
            [''OTA image metadata downloading made no progress for '' @ timeout @ ''s, abort OTA'']
            update_libs_module
        | _ \<Rightarrow> OTAExc OTAMetaDownloadFailed
            [''failed to prepare ota metafiles: '' @ r] update_libs_module)
   | SysExit \<Rightarrow> SysExit)"

section \<open>The batch\<close>

definition DOWNLOAD_STATS_REPORT_BATCH :: nat where "DOWNLOAD_STATS_REPORT_BATCH = 300"

definition DOWNLOAD_REPORT_INTERVAL :: real where "DOWNLOAD_REPORT_INTERVAL = 1"

definition empty_report :: progress_report where
  "empty_report = \<lparr>operation = DOWNLOAD_REMOTE_COPY, processed_file_num = 0,
     processed_file_size = 0, pr_downloaded_bytes = 0, pr_errors = 0\<rparr>"

definition merge_result :: "bool \<Rightarrow> download_result \<Rightarrow> progress_report \<Rightarrow> progress_report" where
  "merge_result whole d p =
     p\<lparr>processed_file_num := processed_file_num p + (if whole then 1 else 0),
       processed_file_size := processed_file_size p + download_size d,
       pr_errors := pr_errors p + retry_count d,
       pr_downloaded_bytes := pr_downloaded_bytes p + traffic_on_wire d\<rparr>"

fun merge_future :: "future \<Rightarrow> progress_report \<Rightarrow> progress_report" where
  "merge_future (FDone d) p = merge_result True d p"
| "merge_future (FSlice d) p = merge_result False d p"
| "merge_future (FExc _ _) p = p\<lparr>pr_errors := pr_errors p + 1\<rparr>"

text \<open>
  The loop of \<^verbatim>\<open>download_resources_handler\<close> over the finished tasks, each with the time at which it is
  handled: the reports put on the queue and the metrics, and the error that ended the loop. \<open>stop\<close> is the
  exception the generator of the tasks ends with, if it does not end normally, \<open>n\<close> the number of tasks
  handled before, \<open>next\<close> is \<^verbatim>\<open>_next_commit_before\<close>, \<open>cnt\<close> is \<^verbatim>\<open>_report_batch_cnt\<close>.
\<close>

fun download_loop ::
  "exc option \<Rightarrow> (real \<times> future) list \<Rightarrow> nat \<Rightarrow> real \<Rightarrow> nat \<Rightarrow> progress_report \<Rightarrow> metrics \<Rightarrow>
   exc option \<times> progress_report list \<times> metrics" where
  "download_loop stop [] n next cnt p m =
     (case stop of None \<Rightarrow> (None, [p], m) | Some e \<Rightarrow> (Some e, [], m))"
| "download_loop stop ((now, fut) # fs) n next cnt p m =
     (case download_exception_handler fut of
        Inl e \<Rightarrow> (Some e, [], m)
      | Inr _ \<Rightarrow>
          let p' = merge_future fut p; batch = Suc n div DOWNLOAD_STATS_REPORT_BATCH in
          if batch > cnt \<or> now > next then
            (let (e, ps, m') = download_loop stop fs (Suc n) (now + DOWNLOAD_REPORT_INTERVAL) batch
                   empty_report
                   (m\<lparr>m_downloaded_bytes := m_downloaded_bytes m + pr_downloaded_bytes p',
                      m_downloaded_errors := m_downloaded_errors m + pr_errors p'\<rparr>)
             in (e, p' # ps, m'))
          else download_loop stop fs (Suc n) next cnt p' m)"

definition download_resources_handler ::
  "exc option \<Rightarrow> (real \<times> future) list \<Rightarrow> metrics \<Rightarrow> exc option \<times> progress_report list \<times> metrics" where
  "download_resources_handler stop fs m = download_loop stop fs 0 0 0 empty_report m"

section \<open>Facts\<close>

lemma is_caused_by_enospc_iff:
  "is_caused_by_enospc n ks \<longleftrightarrow> (\<exists>k\<in>set (take n ks). is_os_error k \<and> errno_of k = Some ENOSPC)"
  by (induction n ks rule: is_caused_by_enospc.induct) auto

text \<open>What one task adds to the totals.\<close>

fun fut_files :: "future \<Rightarrow> int" where
  "fut_files (FDone _) = 1"
| "fut_files _ = 0"

fun fut_bytes :: "future \<Rightarrow> int" where
  "fut_bytes (FDone d) = traffic_on_wire d"
| "fut_bytes (FSlice d) = traffic_on_wire d"
| "fut_bytes (FExc _ _) = 0"

fun fut_errors :: "future \<Rightarrow> int" where
  "fut_errors (FDone d) = retry_count d"
| "fut_errors (FSlice d) = retry_count d"
| "fut_errors (FExc _ _) = 1"

lemma merge_future_fields:
  "processed_file_num (merge_future f p) = processed_file_num p + fut_files f"
  "pr_downloaded_bytes (merge_future f p) = pr_downloaded_bytes p + fut_bytes f"
  "pr_errors (merge_future f p) = pr_errors p + fut_errors f"
  "operation (merge_future f p) = operation p"
  by (cases f; simp add: merge_result_def)+

lemma empty_report_fields [simp]:
  "processed_file_num empty_report = 0" "pr_downloaded_bytes empty_report = 0"
  "pr_errors empty_report = 0" "operation empty_report = DOWNLOAD_REMOTE_COPY"
  by (simp_all add: empty_report_def)

lemma download_loop_totals:
  assumes "\<forall>f\<in>set (map snd fs). \<not> isl (download_exception_handler f)"
    and "operation p = DOWNLOAD_REMOTE_COPY"
  shows "\<exists>ps m'. download_loop None fs n nxt cnt p m = (None, ps, m') \<and> ps \<noteq> [] \<and>
    (\<forall>q\<in>set ps. operation q = DOWNLOAD_REMOTE_COPY) \<and>
    sum_list (map processed_file_num ps) =
      processed_file_num p + sum_list (map (\<lambda>a. fut_files (snd a)) fs) \<and>
    sum_list (map pr_downloaded_bytes ps) =
      pr_downloaded_bytes p + sum_list (map (\<lambda>a. fut_bytes (snd a)) fs) \<and>
    sum_list (map pr_errors ps) = pr_errors p + sum_list (map (\<lambda>a. fut_errors (snd a)) fs) \<and>
    m_downloaded_bytes m' = m_downloaded_bytes m + sum_list (map pr_downloaded_bytes (butlast ps))"
  using assms
proof (induction fs arbitrary: n nxt cnt p m)
  case (Cons a fs)
  obtain now fut where a: "a = (now, fut)" by (cases a)
  obtain b where b: "download_exception_handler fut = Inr b"
    using Cons.prems(1) a by (cases "download_exception_handler fut") auto
  let ?p = "merge_future fut p"
  let ?batch = "Suc n div DOWNLOAD_STATS_REPORT_BATCH"
  have fs: "\<forall>f\<in>set (map snd fs). \<not> isl (download_exception_handler f)" using Cons.prems(1) by auto
  show ?case
  proof (cases "?batch > cnt \<or> now > nxt")
    case True
    let ?m = "m\<lparr>m_downloaded_bytes := m_downloaded_bytes m + pr_downloaded_bytes ?p,
        m_downloaded_errors := m_downloaded_errors m + pr_errors ?p\<rparr>"
    have op: "operation empty_report = DOWNLOAD_REMOTE_COPY" by simp
    obtain ps m' where ih: "download_loop None fs (Suc n) (now + DOWNLOAD_REPORT_INTERVAL) ?batch empty_report ?m = (None, ps, m')"
      "ps \<noteq> []" "\<forall>q\<in>set ps. operation q = DOWNLOAD_REMOTE_COPY"
      "sum_list (map processed_file_num ps) = sum_list (map (\<lambda>a. fut_files (snd a)) fs)"
      "sum_list (map pr_downloaded_bytes ps) = sum_list (map (\<lambda>a. fut_bytes (snd a)) fs)"
      "sum_list (map pr_errors ps) = sum_list (map (\<lambda>a. fut_errors (snd a)) fs)"
      "m_downloaded_bytes m' = m_downloaded_bytes ?m + sum_list (map pr_downloaded_bytes (butlast ps))"
      using Cons.IH [OF fs op, of "Suc n" "now + DOWNLOAD_REPORT_INTERVAL" ?batch ?m] by auto
    have "download_loop None (a # fs) n nxt cnt p m = (None, ?p # ps, m')"
      using True ih(1) by (simp add: a b)
    then show ?thesis
      using ih(2-) Cons.prems(2) by (auto simp: a merge_future_fields)
  next
    case False
    then have "download_loop None (a # fs) n nxt cnt p m = download_loop None fs (Suc n) nxt cnt ?p m"
      by (simp add: a b)
    then show ?thesis
      using Cons.IH [OF fs, of ?p "Suc n" nxt cnt m] Cons.prems(2)
      by (simp add: a merge_future_fields add.assoc)
  qed
qed simp

section \<open>Properties\<close>

lemma sum_list_butlast: "ps \<noteq> [] \<Longrightarrow>
   sum_list (map f (butlast ps)) + f (last ps) = sum_list (map f ps)" for f :: "'a \<Rightarrow> int"
  by (induction ps) auto

lemma filter_downloads_id:
  "\<forall>q\<in>set ps. operation q = DOWNLOAD_REMOTE_COPY \<Longrightarrow> filter downloads ps = ps"
  by (induction ps) (auto simp: downloads_def)

text \<open>
  The accounting of a download is exact from end to end. When no task ends with one of the
  errors that interrupt the download, the reports the handler puts on the queue, loaded by the status
  collector in the running session, give as the downloaded files and bytes of the reported progress
  exactly the sums over all tasks (a slice counts for its bytes, not as a file), whatever the times at
  which the tasks finish and so wherever the batches are cut.
\<close>

lemma download_progress_exact:
  assumes "\<forall>f\<in>set (map snd fs). \<not> isl (download_exception_handler f)"
    and "cs_update_progress st = Some update_progress_0"
  shows "\<exists>ps m' st' u. download_resources_handler None fs m = (None, ps, m') \<and>
    load_reports mx (Some st) (progress_reports (session_id st) ps) = Some st' \<and>
    cs_update_progress st' = Some u \<and>
    downloaded_files_num u = (\<Sum>f\<leftarrow>fs. fut_files (snd f)) \<and>
    downloaded_bytes u = (\<Sum>f\<leftarrow>fs. fut_bytes (snd f))"
proof -
  obtain ps m' where ps: "download_resources_handler None fs m = (None, ps, m')"
      "\<forall>q\<in>set ps. operation q = DOWNLOAD_REMOTE_COPY"
      "sum_list (map processed_file_num ps) = (\<Sum>f\<leftarrow>fs. fut_files (snd f))"
      "sum_list (map pr_downloaded_bytes ps) = (\<Sum>f\<leftarrow>fs. fut_bytes (snd f))"
    using download_loop_totals [OF assms(1), of empty_report 0 0 0 m]
    unfolding download_resources_handler_def by auto
  let ?u = "fold (\<lambda>p u. add_progress u p) ps update_progress_0"
  have "downloaded_files_num ?u = (\<Sum>f\<leftarrow>fs. fut_files (snd f)) \<and>
      downloaded_bytes ?u = (\<Sum>f\<leftarrow>fs. fut_bytes (snd f))"
    using ps(3,4) filter_downloads_id [OF ps(2)]
    by (simp add: fold_progress_totals update_progress_0_def)
  then show ?thesis
    using ps(1) load_progress_reports [OF assms(2), of mx ps] by auto
qed

text \<open>
  The metrics do not count what the last report of a download carries: after a download
  that is not interrupted they fall short of the bytes of all tasks by exactly the bytes of the report
  for the left-over tasks, which the handler puts on the queue only.
\<close>

lemma metrics_miss_last_batch:
  assumes "\<forall>f\<in>set (map snd fs). \<not> isl (download_exception_handler f)"
  shows "\<exists>ps m'. download_resources_handler None fs m = (None, ps, m') \<and> ps \<noteq> [] \<and>
    m_downloaded_bytes m' + pr_downloaded_bytes (last ps) =
      m_downloaded_bytes m + (\<Sum>f\<leftarrow>fs. fut_bytes (snd f))"
proof -
  obtain ps m' where ps: "download_resources_handler None fs m = (None, ps, m')" "ps \<noteq> []"
      "sum_list (map pr_downloaded_bytes ps) = (\<Sum>f\<leftarrow>fs. fut_bytes (snd f))"
      "m_downloaded_bytes m' = m_downloaded_bytes m + sum_list (map pr_downloaded_bytes (butlast ps))"
    using download_loop_totals [OF assms, of empty_report 0 0 0 m]
    unfolding download_resources_handler_def by auto
  then show ?thesis
    using sum_list_butlast [OF ps(2), of pr_downloaded_bytes] by auto
qed

text \<open>
  Which failures of a download end the update, and with which error. A task ends it exactly
  when it failed with the HTTP status 401 or 403 (invalid cookies), 404 (no such image) or with a full
  disk; the error raised has that class; every other failure is left to be retried. An exception that
  interrupts the downloads of resources or of metadata is always raised as an OTA error, an OTA error
  unchanged.
\<close>

lemma download_errors_classified:
  "(download_exception_handler (FExc r (K_HTTPError (Some code) eno # ks)) =
      (if code = 401 \<or> code = 403 then Inl (OTAExc UpdateRequestCookieInvalid
         [''download failed with critical HTTP error: '' @ opt_int_str eno @ '', '' @ r] common_module)
       else if code = 404 then Inl (OTAExc OTAImageNotFound
         [''download failed with 404 on some file(s): '' @ r] common_module)
       else if eno = Some 28 then Inl (OTAExc StandbySlotInsufficientSpace
         [''download failed due to space insufficient: '' @ r] common_module)
       else Inr False)) \<and>
   (download_exception_handler (FExc r (K_OSError eno # ks)) =
      (if eno = Some 28 then Inl (OTAExc StandbySlotInsufficientSpace
         [''download failed due to space insufficient: '' @ r] common_module) else Inr False)) \<and>
   is_ota_error (raise_on_download_resources_failed t (PyExc r ks)) \<and>
   raise_on_download_resources_failed t (OTAExc c as md) = OTAExc c as md \<and>
   is_ota_error (metadata_download_err t str (PyExc r ks)) \<and>
   metadata_download_err t str (OTAExc c as md) = OTAExc c as md"
  by (auto simp: download_exception_handler_def raise_on_download_resources_failed_def
      metadata_download_err_def ENOSPC_def split: list.splits exc_kind.splits)

end
