(* ===== verification/Updater.thy ===== *)
theory Updater
  imports Boot_Control Abort_Handler Download_Results
begin

text \<open>
  The local OTA update, \<^verbatim>\<open>src/otaclient/ota_core/_updater.py\<close> and \<^verbatim>\<open>_updater_base.py\<close>, with the frame of the
  delta calculation of \<^verbatim>\<open>_update_libs.py\<close>: the steps of \<^verbatim>\<open>execute\<close>, the reports and metrics each makes, the
  conversion of exceptions into OTA errors and the handling of a failure and of an abort. The state
  \<open>core\<close> is what the threads of the OTA core process share. The work on the data (downloading, generating
  the delta, writing the slot, persisting files) is a record \<open>work\<close> of methods over that state, which may
  do anything to it, raise, and also stand for what the other threads do meanwhile; theorems name what they
  rely on.
\<close>

section \<open>State\<close>

text \<open>
  \<open>co_now\<close> is the reading of \<^verbatim>\<open>int(time.time())\<close>, \<open>report_queue\<close> everything put on the status report queue,
  in order, \<open>metrics_log\<close> the published metrics, \<open>workdirs\<close> the session directories that exist.
\<close>

record 'p core =
  co_boot :: "'p boot_state"
  co_ah :: abort_handler
  live_ota_status :: ota_status
  report_queue :: "status_report list"
  co_metrics :: metrics
  metrics_log :: "metrics list"
  aborted_deadline :: "real option"
  co_flags :: client_update_control_flags
  workdirs :: "string list"
  co_now :: int

type_synonym ('p, 'a) core_io = "('p core, exc, 'a) io"

record image_totals =
  total_regulars_num :: int
  total_regulars_size :: int
  total_dirs_num :: int
  total_symlinks_num :: int
  total_downloaded_bytes :: int

text \<open>
  The collaborators of an updater: the boot controller (its platform, its status files and the
  reboot), settings, and the work on the data.
\<close>

record ('p, 'c) work =
  wk_platform :: "('p, 'c) platform"
  wk_ctl :: status_control
  finalizing_update :: "('p, unit) core_io"
  is_jetson_uefi :: bool
  fstrim_at_ota :: bool
  enable_local_ota_proxy :: bool
  inactive_timeout :: string
  exc_str :: "string \<Rightarrow> string"
  setup_image_support :: "('p, unit) core_io"
  download_metafiles :: "('p, unit) core_io"
  image_totals_of :: "'p core \<Rightarrow> image_totals"
  check_bsp :: "('p, unit) core_io"
  can_use_in_place_mode :: "('p, bool) core_io"
  fstrim :: "('p, unit) core_io"
  prepare_meta_store :: "('p, unit) core_io"
  save_fstable :: "('p, unit) core_io"
  select_all_digests :: "('p, unit) core_io"
  generate_delta :: "bool \<Rightarrow> ('p, int \<times> int) core_io"
  download_tasks :: "('p, exc option \<times> (real \<times> future) list) core_io"
  shutdown_downloaders :: "('p, unit) core_io"
  update_slot :: "('p, unit) core_io"
  load_persist_entries :: "('p, unit) core_io"
  load_config_files :: "('p, 'c option) core_io"
  process_persists :: "('p, unit) core_io"
  preserve_image_meta :: "('p, unit) core_io"
  preserve_client_squashfs :: "('p, unit) core_io"
  wait_sub_ecus :: "('p, unit) core_io"
  sync_shm_metrics :: "('p, shm_metrics option) core_io"
  log_metrics_ok :: bool

definition on_boot :: "('p, 'a) boot_io \<Rightarrow> ('p, 'a) core_io" where
  "on_boot m = (\<lambda>s. case m (co_boot s) of (r, b) \<Rightarrow> (r, s\<lparr>co_boot := b\<rparr>))"

definition on_ah :: "'a ah_io \<Rightarrow> ('p, 'a) core_io" where
  "on_ah m = (\<lambda>s. case m (co_ah s) of (r, h) \<Rightarrow> (r, s\<lparr>co_ah := h\<rparr>))"

definition put_report :: "payload \<Rightarrow> string \<Rightarrow> ('p, unit) core_io" where
  "put_report p sid = modify_io (\<lambda>s.
     s\<lparr>report_queue := report_queue s @ [\<lparr>payload = p, sr_session_id = sid\<rparr>]\<rparr>)"

definition upd_metrics :: "(metrics \<Rightarrow> metrics) \<Rightarrow> ('p, unit) core_io" where
  "upd_metrics f = modify_io (\<lambda>s. s\<lparr>co_metrics := f (co_metrics s)\<rparr>)"

definition report_phase_at :: "string \<Rightarrow> update_phase \<Rightarrow> int \<Rightarrow> ('p, unit) core_io" where
  "report_phase_at sid ph ts = put_report (OTAUpdatePhaseChangeReport
     \<lparr>new_update_phase = ph, trigger_timestamp = ts\<rparr>) sid"

text \<open>The pattern of every phase: read the clock, report the phase, record its start in the metrics.\<close>

definition begin_phase ::
  "string \<Rightarrow> update_phase \<Rightarrow> (int \<Rightarrow> metrics \<Rightarrow> metrics) \<Rightarrow> ('p, unit) core_io" where
  "begin_phase sid ph f = bind_io (gets_io co_now) (\<lambda>ts.
     seq_io [report_phase_at sid ph ts, upd_metrics (f ts)])"

definition set_update_meta_0 :: set_update_meta where
  "set_update_meta_0 = \<lparr>update_firmware_version = '''', image_size_uncompressed = 0,
     image_file_entries = 0, total_download_files_num = 0, total_download_files_size = 0,
     total_remove_files_num = 0, metadata_downloaded_bytes = 0\<rparr>"

text \<open>\<^verbatim>\<open>except Exception as e: raise f(e)\<close>.\<close>

definition map_exc :: "(exc \<Rightarrow> exc) \<Rightarrow> ('s, exc, 'a) io \<Rightarrow> ('s, exc, 'a) io" where
  "map_exc f m = catch_io m (\<lambda>e. throw (if is_exception e then f e else e))"

text \<open>\<^verbatim>\<open>except Exception: pass\<close>.\<close>

definition ignore_exc :: "('s, exc, unit) io \<Rightarrow> ('s, exc, unit) io" where
  "ignore_exc m = catch_io m (\<lambda>e. if is_exception e then ret () else throw e)"

section \<open>The steps of an update\<close>

definition updater_module :: string where "updater_module = ''otaclient.ota_core._updater''"

text \<open>\<^verbatim>\<open>OTAUpdateInitializer.__init__\<close> and the set up of the image support.\<close>

definition updater_init :: "('p, 'c) work \<Rightarrow> update_request_v2 \<Rightarrow> ('p, unit) core_io" where
  "updater_init w rq = seq_io
     [begin_phase (rq_session_id rq) PH_INITIALIZING (\<lambda>t m. m\<lparr>initializing_start_ts := t\<rparr>),
      put_report (SetUpdateMetaReport
        (set_update_meta_0\<lparr>update_firmware_version := rq_version rq\<rparr>)) (rq_session_id rq),
      upd_metrics (\<lambda>m. m\<lparr>target_firmware_version := rq_version rq\<rparr>),
      modify_io (\<lambda>s. s\<lparr>workdirs := List.insert (rq_session_id rq) (workdirs s)\<rparr>),
      setup_image_support w]"

text \<open>\<^verbatim>\<open>_process_metadata\<close> of the image support, and the updater's, which adds the check of the BSP version.\<close>

definition support_process_metadata :: "('p, 'c) work \<Rightarrow> string \<Rightarrow> ('p, unit) core_io" where
  "support_process_metadata w sid = seq_io
     [begin_phase sid PH_PROCESSING_METADATA (\<lambda>t m. m\<lparr>processing_metadata_start_ts := t\<rparr>),
      map_exc (metadata_download_err (inactive_timeout w) (exc_str w)) (download_metafiles w),
      bind_io (gets_io (image_totals_of w)) (\<lambda>i. seq_io
        [put_report (SetUpdateMetaReport (set_update_meta_0\<lparr>
            image_file_entries := total_regulars_num i,
            image_size_uncompressed := total_regulars_size i,
            metadata_downloaded_bytes := total_downloaded_bytes i\<rparr>)) sid,
         upd_metrics (\<lambda>m. m\<lparr>image_total_files_size := total_regulars_size i,
            image_total_regulars_num := total_regulars_num i,
            image_total_directories_num := total_dirs_num i,
            image_total_symlinks_num := total_symlinks_num i\<rparr>)])]"

definition process_metadata :: "('p, 'c) work \<Rightarrow> string \<Rightarrow> ('p, unit) core_io" where
  "process_metadata w sid = then_io (support_process_metadata w sid)
     (if is_jetson_uefi w then check_bsp w else ret ())"

definition up_pre_update :: "('p, 'c) work \<Rightarrow> ('p, bool) core_io" where
  "up_pre_update w = bind_io (can_use_in_place_mode w) (\<lambda>inplace. then_io
     (seq_io
       [upd_metrics (\<lambda>m. m\<lparr>use_inplace_mode := inplace\<rparr>),
        on_boot (bc_pre_update (wk_platform w) (wk_ctl w) inplace (\<not> inplace)),
        if inplace \<and> fstrim_at_ota w then fstrim w else ret (),
        prepare_meta_store w,
        ignore_exc (save_fstable w),
        bind_io (gets_io (\<lambda>s. bc_load_standby_slot_version (wk_ctl w) (co_boot s))) (\<lambda>v.
          upd_metrics (\<lambda>m. m\<lparr>standby_firmware_version := v\<rparr>))])
     (ret inplace))"

definition calculate_delta ::
  "('p, 'c) work \<Rightarrow> string \<Rightarrow> bool \<Rightarrow> ('p, int \<times> int) core_io" where
  "calculate_delta w sid inplace = bind_io (gets_io co_now) (\<lambda>ts.
     then_io (seq_io
       [select_all_digests w,
        report_phase_at sid PH_CALCULATING_DELTA ts,
        upd_metrics (\<lambda>m. m\<lparr>delta_calculation_start_ts := ts\<rparr>)])
     (map_exc (\<lambda>e. OTAExc UpdateDeltaGenerationFailed
         [''failed to generate delta: '' @ exc_repr e] update_libs_module)
       (generate_delta w inplace)))"

definition put_progress :: "string \<Rightarrow> progress_report list \<Rightarrow> ('p, unit) core_io" where
  "put_progress sid ps = modify_io (\<lambda>s. s\<lparr>report_queue := report_queue s @
     map (\<lambda>p. \<lparr>payload = UpdateProgressReport p, sr_session_id = sid\<rparr>) ps\<rparr>)"

definition download_delta_resources :: "('p, 'c) work \<Rightarrow> string \<Rightarrow> ('p, unit) core_io" where
  "download_delta_resources w sid = finally_io
     (map_exc (raise_on_download_resources_failed (inactive_timeout w))
       (bind_io (download_tasks w) (\<lambda>(stop, fs).
         bind_io (gets_io co_metrics) (\<lambda>m.
           case download_resources_handler stop fs m of (e, ps, m') \<Rightarrow>
             then_io (seq_io [put_progress sid ps, upd_metrics (\<lambda>_. m')])
               (case e of None \<Rightarrow> ret () | Some x \<Rightarrow> throw x)))))
     (shutdown_downloaders w)"

text \<open>The conversion of an exception of the slot update.\<close>

definition apply_update_err :: "exc \<Rightarrow> exc" where
  "apply_update_err e = (case e of
     PyExc r ks \<Rightarrow>
       if is_caused_by_enospc 8 ks
       then OTAExc StandbySlotInsufficientSpace
         [''no space left on standby slot when applying update: '' @ r] updater_module
       else OTAExc ApplyOTAUpdateFailed
         [''failed to apply update to standby slot: '' @ r] updater_module
   | _ \<Rightarrow> e)"

definition in_update :: "('p, 'c) work \<Rightarrow> string \<Rightarrow> bool \<Rightarrow> ('p, unit) core_io" where
  "in_update w sid inplace = bind_io (calculate_delta w sid inplace) (\<lambda>(num, size). seq_io
     [begin_phase sid PH_DOWNLOADING_OTA_FILES (\<lambda>t m. m\<lparr>download_start_ts := t\<rparr>),
      put_report (SetUpdateMetaReport (set_update_meta_0\<lparr>total_download_files_num := num,
         total_download_files_size := size\<rparr>)) sid,
      upd_metrics (\<lambda>m. m\<lparr>delta_download_files_num := num, delta_download_files_size := size\<rparr>),
      download_delta_resources w sid,
      begin_phase sid PH_APPLYING_UPDATE (\<lambda>t m. m\<lparr>apply_update_start_ts := t\<rparr>),
      map_exc apply_update_err (update_slot w)])"

definition request_version_detail :: "update_request_v2 \<Rightarrow> version_detail option" where
  "request_version_detail rq =
     (if rq_release_name rq \<noteq> '''' \<and> rq_release_id rq \<noteq> '''' \<and> rq_image_id rq \<noteq> ''''
      then Some \<lparr>release_name = rq_release_name rq, release_id = rq_release_id rq,
             image_id = rq_image_id rq\<rparr>
      else None)"

definition up_post_update :: "('p, 'c) work \<Rightarrow> update_request_v2 \<Rightarrow> ('p, unit) core_io" where
  "up_post_update w rq = seq_io
     [begin_phase (rq_session_id rq) PH_PROCESSING_POSTUPDATE
        (\<lambda>t m. m\<lparr>post_update_start_ts := t\<rparr>),
      load_persist_entries w,
      bind_io (load_config_files w) (\<lambda>files. seq_io
        [process_persists w,
         preserve_image_meta w,
         preserve_client_squashfs w,
         on_boot (bc_post_update (wk_platform w) (wk_ctl w) (rq_version rq)
           (request_version_detail rq) files)])]"

definition publish_metrics :: "bool \<Rightarrow> ('p, unit) core_io" where
  "publish_metrics ok = modify_io (\<lambda>s. case publish ok (co_metrics s) of (p, m) \<Rightarrow>
     s\<lparr>co_metrics := m, metrics_log := metrics_log s @ (case p of None \<Rightarrow> [] | Some x \<Rightarrow> [x])\<rparr>)"

definition merge_shm_metrics :: "('p, 'c) work \<Rightarrow> ('p, unit) core_io" where
  "merge_shm_metrics w = ignore_exc
     (bind_io (sync_shm_metrics w) (\<lambda>d. upd_metrics (shm_merge d)))"

definition finalize_update_and_reboot :: "('p, 'c) work \<Rightarrow> string \<Rightarrow> ('p, unit) core_io" where
  "finalize_update_and_reboot w sid = seq_io
     [begin_phase sid PH_FINALIZING_UPDATE (\<lambda>t m. m\<lparr>finalizing_update_start_ts := t\<rparr>),
      if enable_local_ota_proxy w then wait_sub_ecus w else ret (),
      bind_io (gets_io co_now) (\<lambda>t. upd_metrics (\<lambda>m. m\<lparr>reboot_start_ts := t\<rparr>)),
      merge_shm_metrics w,
      publish_metrics (log_metrics_ok w),
      finalizing_update w]"

section \<open>execute\<close>

definition is_abort_signal :: "exc \<Rightarrow> bool" where
  "is_abort_signal e \<longleftrightarrow> isinstance_of e OTAAbortSignal"

definition abort_signal :: exc where
  "abort_signal = OTAExc OTAAbortSignal [''abort in progress''] updater_module"

text \<open>The body of the \<^verbatim>\<open>try\<close> of \<^verbatim>\<open>execute\<close>.\<close>

definition execute_body :: "('p, 'c) work \<Rightarrow> update_request_v2 \<Rightarrow> ('p, unit) core_io" where
  "execute_body w rq = then_io (process_metadata w (rq_session_id rq))
     (bind_io
       (critical_zone (on_ah enter_critical_zone) (on_ah exit_critical_zone)
         (raise_as_ota_error PreUpdateFailed ''pre-update failed'' updater_module
           (up_pre_update w)))
       (\<lambda>inplace. seq_io
         [in_update w (rq_session_id rq) inplace,
          on_ah enter_final_phase,
          raise_as_ota_error PostUpdateFailed ''post-update failed'' updater_module
            (up_post_update w rq),
          finalize_update_and_reboot w (rq_session_id rq)]))"

text \<open>Its \<^verbatim>\<open>except\<close> clauses.\<close>

definition execute_handler :: "('p, 'c) work \<Rightarrow> exc \<Rightarrow> ('p, unit) core_io" where
  "execute_handler w e =
     (if is_abort_signal e \<or> \<not> is_exception e then throw e
      else bind_io (gets_io (\<lambda>s. aborting (co_ah s))) (\<lambda>ab.
        if ab then throw abort_signal
        else then_io (on_boot (on_operation_failure (wk_platform w) (wk_ctl w)))
          (throw (case e of
             PyExc r _ \<Rightarrow> OTAExc ApplyOTAUpdateFailed
               [''unspecific error, update failed: '' @ r] updater_module
           | _ \<Rightarrow> e))))"

definition remove_workdir :: "string \<Rightarrow> ('p, unit) core_io" where
  "remove_workdir sid = modify_io (\<lambda>s. s\<lparr>workdirs := removeAll sid (workdirs s)\<rparr>)"

definition execute :: "('p, 'c) work \<Rightarrow> update_request_v2 \<Rightarrow> ('p, unit) core_io" where
  "execute w rq = finally_io (catch_io (execute_body w rq) (execute_handler w))
     (remove_workdir (rq_session_id rq))"

section \<open>What the work on the data is relied on for\<close>

text \<open>Every method of the collaborators keeps \<open>P\<close>, the boot controller's templates included.\<close>

definition work_keeps :: "('p core \<Rightarrow> bool) \<Rightarrow> ('p, 'c) work \<Rightarrow> bool" where
  "work_keeps P w \<longleftrightarrow>
     keeps P (finalizing_update w) \<and> keeps P (setup_image_support w) \<and>
     keeps P (download_metafiles w) \<and> keeps P (check_bsp w) \<and>
     keeps P (can_use_in_place_mode w) \<and> keeps P (fstrim w) \<and> keeps P (prepare_meta_store w) \<and>
     keeps P (save_fstable w) \<and> keeps P (select_all_digests w) \<and>
     (\<forall>b. keeps P (generate_delta w b)) \<and> keeps P (download_tasks w) \<and>
     keeps P (shutdown_downloaders w) \<and> keeps P (update_slot w) \<and>
     keeps P (load_persist_entries w) \<and> keeps P (load_config_files w) \<and>
     keeps P (process_persists w) \<and> keeps P (preserve_image_meta w) \<and>
     keeps P (preserve_client_squashfs w) \<and> keeps P (wait_sub_ecus w) \<and>
     keeps P (sync_shm_metrics w)"

text \<open>The traces the work does not add to.\<close>

definition work_silent :: "('p core \<Rightarrow> 'x list) \<Rightarrow> ('p, 'c) work \<Rightarrow> bool" where
  "work_silent tr w \<longleftrightarrow> (\<forall>xs. work_keeps (\<lambda>s. tr s = xs) w)"

lemma keeps_map_exc [keeps_intros]: "keeps P m \<Longrightarrow> keeps P (map_exc f m)"
  by (simp add: map_exc_def keeps_intros)

lemma keeps_ignore_exc [keeps_intros]: "keeps P m \<Longrightarrow> keeps P (ignore_exc m)"
  by (auto simp: ignore_exc_def intro!: keeps_intros)

lemma keeps_modify [keeps_intros]: "(\<And>s. P s \<Longrightarrow> P (f s)) \<Longrightarrow> keeps P (modify_io f)"
  by (simp add: keeps_def)

lemma keeps_on_boot: "keeps Q m \<Longrightarrow> keeps (\<lambda>s. Q (co_boot s)) (on_boot m)"
  by (simp add: keeps_def on_boot_def case_prod_unfold)

lemma on_boot_frame:
  "f (snd (on_boot m s)) = f s" if "\<And>s b. f (s\<lparr>co_boot := b\<rparr>) = f s"
  using that by (simp add: on_boot_def split: prod.splits)

lemma on_ah_frame:
  "f (snd (on_ah m s)) = f s" if "\<And>s h. f (s\<lparr>co_ah := h\<rparr>) = f s"
  using that by (simp add: on_ah_def split: prod.splits)

subsection \<open>Properties of the boot controller's files\<close>

text \<open>The methods that only report, measure or use the abort handler leave the boot controller alone.\<close>

lemma keeps_boot_simple [keeps_intros]:
  "keeps (\<lambda>s. Q (co_boot s)) (put_report p sid)" "keeps (\<lambda>s. Q (co_boot s)) (upd_metrics f)"
  "keeps (\<lambda>s. Q (co_boot s)) (report_phase_at sid ph ts)"
  "keeps (\<lambda>s. Q (co_boot s)) (put_progress sid ps)"
  "keeps (\<lambda>s. Q (co_boot s)) (publish_metrics ok)" "keeps (\<lambda>s. Q (co_boot s)) (remove_workdir sid)"
  "keeps (\<lambda>s. Q (co_boot s)) (on_ah m)"
  by (auto simp: put_report_def upd_metrics_def report_phase_at_def put_progress_def
      publish_metrics_def remove_workdir_def on_ah_def keeps_def split: prod.splits option.splits)

lemma keeps_boot_begin_phase [keeps_intros]: "keeps (\<lambda>s. Q (co_boot s)) (begin_phase sid ph f)"
  unfolding begin_phase_def by (auto intro!: keeps_intros)

lemma keeps_boot_publish [keeps_intros]:
  "keeps (\<lambda>s. Q (co_boot s)) (sync_shm_metrics w) \<Longrightarrow> keeps (\<lambda>s. Q (co_boot s)) (merge_shm_metrics w)"
  unfolding merge_shm_metrics_def by (auto intro!: keeps_intros)

text \<open>Whatever the templates of the boot controller keep, and the work keeps, \<^verbatim>\<open>execute\<close> keeps.\<close>

definition templates_keep :: "('p boot_state \<Rightarrow> bool) \<Rightarrow> ('p, 'c) work \<Rightarrow> bool" where
  "templates_keep Q w \<longleftrightarrow>
     (\<forall>a b. keeps Q (bc_pre_update (wk_platform w) (wk_ctl w) a b)) \<and>
     (\<forall>v d f. keeps Q (bc_post_update (wk_platform w) (wk_ctl w) v d f))"

lemma keeps_boot_steps:
  assumes w: "work_keeps (\<lambda>s. Q (co_boot s)) w" and t: "templates_keep Q w"
  shows "keeps (\<lambda>s. Q (co_boot s)) (process_metadata w sid)"
    "keeps (\<lambda>s. Q (co_boot s)) (up_pre_update w)"
    "keeps (\<lambda>s. Q (co_boot s)) (in_update w sid b)"
    "keeps (\<lambda>s. Q (co_boot s)) (up_post_update w rq)"
    "keeps (\<lambda>s. Q (co_boot s)) (finalize_update_and_reboot w sid)"
proof -
  note wk = w [unfolded work_keeps_def] and tk = t [unfolded templates_keep_def]
  show "keeps (\<lambda>s. Q (co_boot s)) (process_metadata w sid)"
    using wk unfolding process_metadata_def support_process_metadata_def
    by (auto intro!: keeps_intros)
  show "keeps (\<lambda>s. Q (co_boot s)) (up_pre_update w)"
    using wk tk unfolding up_pre_update_def by (auto intro!: keeps_intros keeps_on_boot)
  show "keeps (\<lambda>s. Q (co_boot s)) (in_update w sid b)"
    using wk unfolding in_update_def calculate_delta_def download_delta_resources_def
    by (auto intro!: keeps_intros split: option.splits prod.splits)
  show "keeps (\<lambda>s. Q (co_boot s)) (up_post_update w rq)"
    using wk tk unfolding up_post_update_def by (auto intro!: keeps_intros keeps_on_boot)
  show "keeps (\<lambda>s. Q (co_boot s)) (finalize_update_and_reboot w sid)"
    using wk unfolding finalize_update_and_reboot_def by (auto intro!: keeps_intros)
qed

lemma keeps_boot_execute_body:
  assumes "work_keeps (\<lambda>s. Q (co_boot s)) w" and "templates_keep Q w"
  shows "keeps (\<lambda>s. Q (co_boot s)) (execute_body w rq)"
  using keeps_boot_steps [OF assms] unfolding execute_body_def critical_zone_def
  by (auto intro!: keeps_intros)

subsection \<open>A failed update is marked as failed\<close>

text \<open>
  What \<^verbatim>\<open>execute\<close> relies on to mark a failure: the directory with the current slot's OTA status is not
  removed by anything, and the hooks of the platform do not write to it.
\<close>

definition status_dir_kept :: "('p, 'c) work \<Rightarrow> bool" where
  "status_dir_kept w \<longleftrightarrow> hooks_keep (wk_platform w) (wk_ctl w) \<and>
     work_keeps (\<lambda>s. dir_exists (current_dir (wk_ctl w) (co_boot s))) w"

lemma keeps_on_fs: "(\<And>fs. P fs \<Longrightarrow> P (snd (m fs))) \<Longrightarrow> keeps (\<lambda>s. P (bs_fs s)) (on_fs m)"
  by (auto simp: keeps_def on_fs_def split: prod.splits) (metis snd_conv)

lemma current_dir_bs: "dir_exists (current_dir c b) \<longleftrightarrow> dir_exists (fs_dirs (bs_fs b) (current_ota_status_dir c))"
  by (simp add: current_dir_def)

lemma pre_update_current_dir:
  "dir_exists (fs_dirs fs d) \<Longrightarrow> dir_exists (fs_dirs (snd (pre_update_current c fs)) d)"
  by (auto simp: pre_update_current_def io_defs store_defs remove_failure_info_def split: prod.splits)

lemma post_update_standby_dir:
  assumes "dir_exists (fs_dirs fs d)"
  shows "dir_exists (fs_dirs (snd (post_update_standby c v vd fs)) d)"
proof -
  obtain fs' where fs': "post_update_standby c v vd fs = (Inr (), fs')"
      "\<forall>d. d \<noteq> standby_ota_status_dir c \<longrightarrow> fs_dirs fs' d = fs_dirs fs d"
      "dir_exists (fs_dirs fs' (standby_ota_status_dir c))"
    using post_update_standby_result [of c v vd fs] by (auto simp: Let_def)
  then show ?thesis using assms by (cases "d = standby_ota_status_dir c") auto
qed

lemma keeps_exists:
  "(\<And>dir. keeps (\<lambda>s. current_dir c s = dir) m) \<Longrightarrow> keeps (\<lambda>s. dir_exists (current_dir c s)) m"
  by (erule keeps_of_dir) simp

lemma hooks_keep_exists:
  assumes "hooks_keep p c"
  shows "keeps (\<lambda>s. dir_exists (current_dir c s)) (pre_update_prepare_standby p b)"
    "keeps (\<lambda>s. dir_exists (current_dir c s)) (mp_mount_standby p)"
    "keeps (\<lambda>s. dir_exists (current_dir c s)) (mp_mount_active p)"
    "keeps (\<lambda>s. dir_exists (current_dir c s)) (mp_umount_all p)"
    "keeps (\<lambda>s. dir_exists (current_dir c s)) (pre_update_platform_specific p b b')"
    "keeps (\<lambda>s. dir_exists (current_dir c s)) (post_update_platform_specific p v f)"
  using assms unfolding hooks_keep_def by (auto intro!: keeps_exists)

lemma templates_keep_exists:
  assumes "hooks_keep (wk_platform w) (wk_ctl w)"
  shows "templates_keep (\<lambda>b. dir_exists (current_dir (wk_ctl w) b)) w"
proof -
  have "keeps (\<lambda>b. dir_exists (current_dir (wk_ctl w) b)) (on_fs (pre_update_current (wk_ctl w)))"
    unfolding current_dir_bs by (rule keeps_on_fs) (rule pre_update_current_dir)
  moreover have "keeps (\<lambda>b. dir_exists (current_dir (wk_ctl w) b))
      (on_fs (post_update_standby (wk_ctl w) v d))" for v d
    unfolding current_dir_bs by (rule keeps_on_fs) (rule post_update_standby_dir)
  ultimately show ?thesis
    using hooks_keep_exists [OF assms]
    unfolding templates_keep_def bc_pre_update_def bc_post_update_def
    by (auto intro!: keeps_intros)
qed

lemma on_operation_failure_marks:
  assumes "hooks_keep p c" and "dir_exists (current_dir c b)"
  shows "marked_failure c (snd (on_operation_failure p c b))"
proof -
  have "marked_failure c (snd (on_fs (on_failure c) b))"
    using assms(2) by (auto simp: on_fs_def on_failure_def io_defs store_defs marked_failure_def
        current_dir_def)
  moreover have "fst (on_fs (on_failure c) b) = Inr ()"
    using assms(2) by (auto simp: on_fs_def on_failure_def io_defs store_defs current_dir_def)
  ultimately obtain b1 where "on_fs (on_failure c) b = (Inr (), b1)" "marked_failure c b1"
    by (metis prod.collapse)
  then show ?thesis
    using keepsD [OF hooks_keep_marked(4) [OF assms(1)]]
    by (simp add: on_operation_failure_def io_defs split: prod.splits sum.splits) (metis snd_conv)
qed

lemma is_abort_signal_abort_signal [simp]: "is_abort_signal abort_signal"
  by (simp add: is_abort_signal_def abort_signal_def isinstance_of_def is_subclass.simps)

text \<open>The handler of an error calls the boot controller when no abort is in progress.\<close>

lemma execute_handler_failure:
  assumes "\<not> is_abort_signal e" and "is_exception e" and "\<not> aborting (co_ah s)"
  shows "snd (execute_handler w e s) =
      s\<lparr>co_boot := snd (on_operation_failure (wk_platform w) (wk_ctl w) (co_boot s))\<rparr>"
  using assms
  by (cases "on_operation_failure (wk_platform w) (wk_ctl w) (co_boot s)")
    (auto simp: execute_handler_def on_boot_def io_defs split: sum.splits)

lemma execute_handler_raises:
  "\<exists>e'. fst (execute_handler w e s) = Inl e'"
  by (auto simp: execute_handler_def on_boot_def io_defs split: prod.splits sum.splits)

lemma execute_cases:
  assumes "execute w rq s = (r, s')"
  obtains r0 s0 where "execute_body w rq s = (r0, s0)"
    and "case r0 of Inr u \<Rightarrow> r = Inr u \<and> s' = snd (remove_workdir (rq_session_id rq) s0)
         | Inl e \<Rightarrow> r = fst (execute_handler w e s0) \<and>
             s' = snd (remove_workdir (rq_session_id rq) (snd (execute_handler w e s0)))"
  using assms
  by (cases "execute_body w rq s")
    (auto simp: execute_def io_defs remove_workdir_def split: prod.splits sum.splits)


text \<open>
  While an abort is in progress a failing update leaves the slots to the abort handler.
  If the body of \<^verbatim>\<open>execute\<close> raises any exception in a state in which the abort handler is ABORTING or
  ABORTED, \<^verbatim>\<open>execute\<close> raises the abort signal, and the boot controller, its files included, is as the
  body left it: the failure is not recorded over the abort.
\<close>

lemma abort_keeps_slots:
  assumes "execute_body w rq s = (Inl e, s0)" and "is_exception e" and "aborting (co_ah s0)"
  shows "\<exists>sig. execute w rq s = (Inl sig, s0\<lparr>workdirs := removeAll (rq_session_id rq) (workdirs s0)\<rparr>) \<and>
    is_abort_signal sig"
  using assms
  by (auto simp: execute_def execute_handler_def io_defs remove_workdir_def)

subsection \<open>Phases\<close>

fun phase_of :: "status_report \<Rightarrow> update_phase list" where
  "phase_of r = (case payload r of OTAUpdatePhaseChangeReport p \<Rightarrow> [new_update_phase p] | _ \<Rightarrow> [])"

definition phases :: "'p core \<Rightarrow> update_phase list" where
  "phases s = concat (map phase_of (report_queue s))"

lemma emits_keeps: "(\<And>xs. keeps (\<lambda>s. tr s = xs) m) \<Longrightarrow> emits tr m []"
  by (simp add: emits_Nil_iff keeps_def)

lemma work_silentD:
  assumes "work_silent tr w"
  shows "emits tr (finalizing_update w) []" "emits tr (setup_image_support w) []"
    "emits tr (download_metafiles w) []" "emits tr (check_bsp w) []"
    "emits tr (can_use_in_place_mode w) []" "emits tr (fstrim w) []"
    "emits tr (prepare_meta_store w) []" "emits tr (save_fstable w) []"
    "emits tr (select_all_digests w) []" "emits tr (generate_delta w b) []"
    "emits tr (download_tasks w) []" "emits tr (shutdown_downloaders w) []"
    "emits tr (update_slot w) []" "emits tr (load_persist_entries w) []"
    "emits tr (load_config_files w) []" "emits tr (process_persists w) []"
    "emits tr (preserve_image_meta w) []" "emits tr (preserve_client_squashfs w) []"
    "emits tr (wait_sub_ecus w) []" "emits tr (sync_shm_metrics w) []"
  using assms unfolding work_silent_def work_keeps_def by (auto intro: emits_keeps)

lemma emits_map_exc [emits_intros]: "emits tr m xs \<Longrightarrow> emits tr (map_exc f m) xs"
  unfolding map_exc_def by (rule emits_catch_raise) auto

lemma emits_ignore_exc [emits_intros]: "emits tr m [] \<Longrightarrow> emits tr (ignore_exc m) []"
  unfolding ignore_exc_def by (rule emits_catch_Nil) (auto intro: emits_silent)

lemma emits_raise_as [emits_intros]: "emits tr m xs \<Longrightarrow> emits tr (raise_as_ota_error c t md m) xs"
  unfolding raise_as_ota_error_def by (rule emits_catch_raise) (auto split: exc.splits)

lemma phases_simple [emits_intros]:
  "emits phases (on_boot m) []" "emits phases (on_ah m') []" "emits phases (upd_metrics f) []"
  "emits phases (put_report (SetUpdateMetaReport u) sid) []" "emits phases (put_progress sid ps) []"
  "emits phases (publish_metrics ok) []" "emits phases (remove_workdir sid) []"
  by (auto simp: emits_Nil_iff phases_def on_boot_def on_ah_def upd_metrics_def put_report_def
      put_progress_def publish_metrics_def remove_workdir_def o_def split: prod.splits option.splits)

lemma phases_report [emits_intros]: "emits phases (report_phase_at sid ph ts) [ph]"
  by (simp add: emits_def report_phase_at_def put_report_def phases_def)

lemma phases_begin [emits_intros]: "emits phases (begin_phase sid ph f) [ph]"
  unfolding begin_phase_def
  using emits_bind [OF emits_silent(3) emits_seq_Cons [OF phases_report
        emits_seq_Cons [OF phases_simple(3) emits_seq_Nil]]]
  by simp

lemma phases_process_metadata:
  assumes "work_silent phases w"
  shows "emits phases (process_metadata w sid) [PH_PROCESSING_METADATA]"
proof -
  note ws = work_silentD [OF assms]
  have "emits phases (bind_io (gets_io (image_totals_of w)) (\<lambda>i. seq_io
        [put_report (SetUpdateMetaReport (f i)) sid, upd_metrics (g i)])) ([] @ [] @ [] @ [])" for f g
    by (intro emits_bind emits_seq_Cons emits_intros)
  moreover have "emits phases (if is_jetson_uefi w then check_bsp w else ret ()) []"
    using ws by (auto intro: emits_silent)
  ultimately have "emits phases (process_metadata w sid)
      (([PH_PROCESSING_METADATA] @ [] @ [] @ []) @ [])"
    unfolding process_metadata_def support_process_metadata_def using ws
    by (intro emits_then emits_seq_Cons emits_intros) simp_all
  then show ?thesis by simp
qed

lemma phases_pre_update:
  assumes "work_silent phases w"
  shows "emits phases (up_pre_update w) []"
proof -
  note ws = work_silentD [OF assms]
  have st: "emits phases (bind_io (gets_io f) (\<lambda>v. upd_metrics (g v))) ([] @ [])" for f :: "_ \<Rightarrow> string" and g
    by (intro emits_bind emits_intros)
  have fs: "emits phases (if b then fstrim w else ret ()) []" for b
    using ws by (auto intro: emits_silent)
  have "emits phases (up_pre_update w) ([] @ ([] @ [] @ [] @ [] @ [] @ [] @ []) @ [])"
    unfolding up_pre_update_def
    by (intro emits_bind emits_then emits_seq_Cons emits_intros ws fs st [simplified])
  then show ?thesis by simp
qed

lemma phases_calculate_delta:
  assumes "work_silent phases w"
  shows "emits phases (calculate_delta w sid b) [PH_CALCULATING_DELTA]"
proof -
  have "emits phases (calculate_delta w sid b) ([] @ ([] @ [PH_CALCULATING_DELTA] @ [] @ []) @ [])"
    unfolding calculate_delta_def
    by (intro emits_bind emits_then emits_seq_Cons emits_intros work_silentD [OF assms])
  then show ?thesis by simp
qed

lemma phases_download:
  assumes "work_silent phases w"
  shows "emits phases (download_delta_resources w sid) []"
proof -
  have inner: "emits phases (bind_io (gets_io co_metrics) (\<lambda>m.
      case download_resources_handler stop fs m of (e, ps, m') \<Rightarrow>
        then_io (seq_io [put_progress sid ps, upd_metrics (\<lambda>_. m')])
          (case e of None \<Rightarrow> ret () | Some x \<Rightarrow> throw x))) []" for stop fs
  proof -
    have "emits phases (then_io (seq_io [put_progress sid ps, upd_metrics (\<lambda>_. m')])
        (case e of None \<Rightarrow> ret () | Some x \<Rightarrow> throw x)) (([] @ [] @ []) @ [])" for e ps m'
      by (intro emits_then emits_seq_Cons emits_intros) (auto intro: emits_silent split: option.splits)
    then have "emits phases (bind_io (gets_io co_metrics) (\<lambda>m.
      case download_resources_handler stop fs m of (e, ps, m') \<Rightarrow>
        then_io (seq_io [put_progress sid ps, upd_metrics (\<lambda>_. m')])
          (case e of None \<Rightarrow> ret () | Some x \<Rightarrow> throw x))) ([] @ [])"
      by (intro emits_bind emits_intros) (auto split: prod.splits)
    then show ?thesis by simp
  qed
  have "emits phases (bind_io (download_tasks w) (\<lambda>(stop, fs). bind_io (gets_io co_metrics) (\<lambda>m.
      case download_resources_handler stop fs m of (e, ps, m') \<Rightarrow>
        then_io (seq_io [put_progress sid ps, upd_metrics (\<lambda>_. m')])
          (case e of None \<Rightarrow> ret () | Some x \<Rightarrow> throw x)))) ([] @ [])"
    using inner by (intro emits_bind work_silentD [OF assms]) (auto split: prod.splits)
  then show ?thesis
    unfolding download_delta_resources_def
    by (intro emits_finally emits_map_exc work_silentD [OF assms]) simp
qed

lemma phases_in_update:
  assumes "work_silent phases w"
  shows "emits phases (in_update w sid b)
    [PH_CALCULATING_DELTA, PH_DOWNLOADING_OTA_FILES, PH_APPLYING_UPDATE]"
proof -
  have "emits phases (case x of (n, sz) \<Rightarrow> seq_io
     [begin_phase sid PH_DOWNLOADING_OTA_FILES (\<lambda>t m. m\<lparr>download_start_ts := t\<rparr>),
      put_report (SetUpdateMetaReport (set_update_meta_0\<lparr>total_download_files_num := n,
         total_download_files_size := sz\<rparr>)) sid,
      upd_metrics (\<lambda>m. m\<lparr>delta_download_files_num := n, delta_download_files_size := sz\<rparr>),
      download_delta_resources w sid,
      begin_phase sid PH_APPLYING_UPDATE (\<lambda>t m. m\<lparr>apply_update_start_ts := t\<rparr>),
      map_exc apply_update_err (update_slot w)])
     ([PH_DOWNLOADING_OTA_FILES] @ [] @ [] @ [] @ [PH_APPLYING_UPDATE] @ [] @ [])" for x
    unfolding case_prod_unfold
    by (intro emits_seq_Cons emits_intros phases_download work_silentD [OF assms] assms)
  from emits_bind [OF phases_calculate_delta [OF assms] this] show ?thesis
    unfolding in_update_def by simp
qed

lemma phases_post_update:
  assumes "work_silent phases w"
  shows "emits phases (up_post_update w rq) [PH_PROCESSING_POSTUPDATE]"
proof -
  have "emits phases (bind_io (load_config_files w) (\<lambda>files. seq_io
        [process_persists w, preserve_image_meta w, preserve_client_squashfs w, on_boot (m files)]))
      ([] @ [] @ [] @ [] @ [] @ [])" for m
    by (intro emits_bind emits_seq_Cons emits_intros work_silentD [OF assms])
  then have "emits phases (up_post_update w rq) ([PH_PROCESSING_POSTUPDATE] @ [] @ [] @ [])"
    unfolding up_post_update_def
    by (intro emits_seq_Cons emits_intros work_silentD [OF assms]) simp
  then show ?thesis by simp
qed

lemma phases_finalize:
  assumes "work_silent phases w"
  shows "emits phases (finalize_update_and_reboot w sid) [PH_FINALIZING_UPDATE]"
proof -
  note ws = work_silentD [OF assms]
  have ts: "emits phases (bind_io (gets_io co_now) (\<lambda>t. upd_metrics (g t))) ([] @ [])" for g
    by (intro emits_bind emits_intros)
  have wt: "emits phases (if enable_local_ota_proxy w then wait_sub_ecus w else ret ()) []"
    using ws by (auto intro: emits_silent)
  have mg: "emits phases (merge_shm_metrics w) []"
    unfolding merge_shm_metrics_def
    using emits_bind [OF ws(20), of "\<lambda>d. upd_metrics (shm_merge d)" "[]"]
    by (auto intro!: emits_ignore_exc phases_simple)
  have "emits phases (finalize_update_and_reboot w sid) ([PH_FINALIZING_UPDATE] @ [] @ [] @ [] @ [] @ [] @ [])"
    unfolding finalize_update_and_reboot_def
    by (intro emits_seq_Cons emits_intros wt mg ts [simplified] ws)
  then show ?thesis by simp
qed

definition update_phases :: "update_phase list" where
  "update_phases = [PH_PROCESSING_METADATA, PH_CALCULATING_DELTA, PH_DOWNLOADING_OTA_FILES,
     PH_APPLYING_UPDATE, PH_PROCESSING_POSTUPDATE, PH_FINALIZING_UPDATE]"

lemma phases_execute_body:
  assumes "work_silent phases w"
  shows "emits phases (execute_body w rq) update_phases"
proof -
  have zone: "emits phases (critical_zone (on_ah enter_critical_zone) (on_ah exit_critical_zone)
      (raise_as_ota_error PreUpdateFailed t md (up_pre_update w))) ([] @ [])" for t md
    unfolding critical_zone_def
    by (intro emits_then emits_finally emits_intros phases_pre_update [OF assms])
  have "emits phases (execute_body w rq) ([PH_PROCESSING_METADATA] @ ([] @ []) @
      ([PH_CALCULATING_DELTA, PH_DOWNLOADING_OTA_FILES, PH_APPLYING_UPDATE] @ [] @
       [PH_PROCESSING_POSTUPDATE] @ [PH_FINALIZING_UPDATE] @ []))"
    unfolding execute_body_def
    by (intro emits_then emits_bind zone emits_seq_Cons emits_intros phases_process_metadata
        phases_in_update phases_post_update phases_finalize assms)
  then show ?thesis by (simp add: update_phases_def)
qed

text \<open>
  C12: an update reports its phases in the documented order. The phases \<^verbatim>\<open>execute\<close> reports are a
  prefix of PROCESSING_METADATA, CALCULATING_DELTA, DOWNLOADING_OTA_FILES, APPLYING_UPDATE,
  PROCESSING_POSTUPDATE, FINALIZING_UPDATE wherever it fails or is aborted, and all of them when it
  returns; no phase is skipped, repeated or reported out of order. The work on the data does not report
  phases itself.
\<close>

theorem phases_in_order:
  assumes "work_silent phases w" and "execute w rq s = (r, s')"
  shows "\<exists>ps rest. update_phases = ps @ rest \<and> phases s' = phases s @ ps \<and>
    (r = Inr () \<longrightarrow> rest = [])"
proof -
  have "emits phases (catch_io (execute_body w rq) (execute_handler w)) update_phases"
  proof (rule emits_catch_raise [OF phases_execute_body [OF assms(1)]])
    fix e and t :: "'a core"
    have "phases (snd (execute_handler w e t)) = phases t"
      by (auto simp: execute_handler_def io_defs on_boot_def phases_def split: prod.splits sum.splits)
    then show "\<exists>e' t'. execute_handler w e t = (Inl e', t') \<and> phases t' = phases t"
      using execute_handler_raises [of w e t] by (metis prod.collapse)
  qed
  then have em: "emits phases (execute w rq) update_phases"
    unfolding execute_def by (intro emits_finally emits_intros)
  show ?thesis
  proof (cases r)
    case (Inl e)
    then show ?thesis using emitsD_Inl [OF em] assms(2) by blast
  next
    case (Inr u)
    then show ?thesis using emitsD_Inr [OF em] assms(2) by auto
  qed
qed

section \<open>A concrete updater for the witnesses\<close>

definition ex_work :: "(unit, unit) work" where
  "ex_work = \<lparr>wk_platform = ex_platform\<lparr>pre_update_prepare_standby := \<lambda>_. ret ()\<rparr>,
     wk_ctl = ex_ctl, finalizing_update = throw SysExit, is_jetson_uefi = False,
     fstrim_at_ota = True, enable_local_ota_proxy = True, inactive_timeout = ''600'',
     exc_str = (\<lambda>r. r), setup_image_support = ret (), download_metafiles = ret (),
     image_totals_of = (\<lambda>_. \<lparr>total_regulars_num = 3, total_regulars_size = 30,
       total_dirs_num = 1, total_symlinks_num = 0, total_downloaded_bytes = 12\<rparr>),
     check_bsp = ret (), can_use_in_place_mode = ret True, fstrim = ret (),
     prepare_meta_store = ret (), save_fstable = ret (), select_all_digests = ret (),
     generate_delta = (\<lambda>_. ret (1, 10)),
     download_tasks = ret (None, [(5, FDone \<lparr>retry_count = 0, download_size = 10,
       traffic_on_wire = 7\<rparr>)]),
     shutdown_downloaders = ret (),
     update_slot = throw (PyExc ''OSError(28)'' [K_OSError (Some 28)]),
     load_persist_entries = ret (), load_config_files = ret None, process_persists = ret (),
     preserve_image_meta = ret (), preserve_client_squashfs = ret (), wait_sub_ecus = ret (),
     sync_shm_metrics = ret None, log_metrics_ok = True\<rparr>"

definition ex_core :: "unit core" where
  "ex_core = \<lparr>co_boot = ex_boot, co_ah = abort_handler_0, live_ota_status = SUCCESS,
     report_queue = [], co_metrics = metrics_0 ''main'', metrics_log = [], aborted_deadline = None,
     co_flags = \<lparr>notify_data_ready_event = False, request_shutdown_event = False\<rparr>,
     workdirs = [], co_now = 100\<rparr>"

definition ex_request :: update_request_v2 where
  "ex_request = \<lparr>rq_request_id = ''r1'', rq_session_id = ''s1'', rq_version = ''v2'',
     rq_url_base = ''http://x'', rq_cookies_json = ''{}'', rq_release_name = '''',
     rq_release_id = '''', rq_image_id = ''''\<rparr>"

lemma ex_work_keeps: "work_keeps P ex_work"
  by (simp add: work_keeps_def ex_work_def keeps_intros)

lemma ex_work_silent: "work_silent tr ex_work"
  by (simp add: work_silent_def ex_work_keeps)

lemma ex_status_dir_kept: "status_dir_kept ex_work"
  unfolding status_dir_kept_def
  by (simp add: ex_work_keeps) (simp add: hooks_keep_def ex_work_def ex_platform_def keeps_intros)

lemmas run_defs = execute_def execute_body_def execute_handler_def process_metadata_def
  support_process_metadata_def
  up_pre_update_def in_update_def calculate_delta_def download_delta_resources_def
  up_post_update_def finalize_update_and_reboot_def begin_phase_def report_phase_at_def
  put_report_def upd_metrics_def put_progress_def remove_workdir_def on_boot_def on_ah_def
  map_exc_def ignore_exc_def critical_zone_def raise_as_ota_error_def
  apply_update_err_def io_defs

lemma ex_execute:
  "fst (execute ex_work ex_request ex_core) = Inl (OTAExc StandbySlotInsufficientSpace
     [''no space left on standby slot when applying update: OSError(28)''] updater_module)"
  by (simp add: run_defs ex_work_def ex_core_def ex_request_def ex_platform_def bc_pre_update_def
      on_fs_def pre_update_current_def store_defs remove_failure_info_def ex_boot_def ex_ctl_def
      ex_fs_def abort_handler_0_def enter_critical_zone_def exit_critical_zone_def ENOSPC_def
      download_resources_handler_def download_exception_handler_def is_abort_signal_def
      isinstance_of_def is_subclass.simps aborting_def on_operation_failure_def on_failure_def
      eval_nat_numeral Let_def)

lemma ex_execute_not_abort:
  "\<not> is_abort_signal (OTAExc StandbySlotInsufficientSpace as md)"
  by (simp add: is_abort_signal_def isinstance_of_def is_subclass.simps)


theorem phases_in_order_witness:
  "\<exists>ps rest. update_phases = ps @ rest \<and>
     phases (snd (execute ex_work ex_request ex_core)) = phases ex_core @ ps"
proof -
  obtain r s' where "execute ex_work ex_request ex_core = (r, s')"
    by (cases "execute ex_work ex_request ex_core")
  then show ?thesis
    using phases_in_order [OF ex_work_silent, of ex_request ex_core r s'] by auto
qed

end
