(* ===== verification/AB_Update.thy ===== *)
theory AB_Update
  imports Updater
begin

text \<open>
  An update end to end: what the run of \<^verbatim>\<open>execute\<close> leaves in the status files of the two slots and what the
  boot controller of either slot reads from them after the reboot. It puts together the updater
  (\<^verbatim>\<open>_updater.py\<close>), the templates of the boot controllers (\<^verbatim>\<open>_base.py\<close>) and the status files
  (\<^verbatim>\<open>_ota_status_control.py\<close>).
\<close>

section \<open>What the collaborators leave alone\<close>

definition standby_dir :: "status_control \<Rightarrow> 'p boot_state \<Rightarrow> ota_dir" where
  "standby_dir c s = fs_dirs (bs_fs s) (standby_ota_status_dir c)"

text \<open>
  The work and the hooks of the platform do not write to the status directory of the current slot, and
  what runs after the status files of the standby slot have been written does not write to those.
\<close>

definition current_status_spared :: "('p, 'c) work \<Rightarrow> bool" where
  "current_status_spared w \<longleftrightarrow> hooks_keep (wk_platform w) (wk_ctl w) \<and>
     (\<forall>dir. work_keeps (\<lambda>s. current_dir (wk_ctl w) (co_boot s) = dir) w)"

definition standby_status_spared :: "('p, 'c) work \<Rightarrow> bool" where
  "standby_status_spared w \<longleftrightarrow> (\<forall>dir.
     (\<forall>v f. keeps (\<lambda>b. standby_dir (wk_ctl w) b = dir)
        (post_update_platform_specific (wk_platform w) v f)) \<and>
     keeps (\<lambda>b. standby_dir (wk_ctl w) b = dir) (mp_umount_all (wk_platform w)) \<and>
     keeps (\<lambda>s. standby_dir (wk_ctl w) (co_boot s) = dir) (wait_sub_ecus w) \<and>
     keeps (\<lambda>s. standby_dir (wk_ctl w) (co_boot s) = dir) (sync_shm_metrics w) \<and>
     keeps (\<lambda>s. standby_dir (wk_ctl w) (co_boot s) = dir) (finalizing_update w))"

lemma keeps_of_eq:
  assumes "\<And>x. keeps (\<lambda>s. f s = x) m"
  shows "keeps (\<lambda>s. P (f s)) m"
  using assms unfolding keeps_def by metis

lemma work_keeps_of_eq:
  assumes "\<And>x. work_keeps (\<lambda>s. f s = x) w"
  shows "work_keeps (\<lambda>s. P (f s)) w"
  unfolding work_keeps_def
  by (intro conjI allI keeps_of_eq [where f = f and P = P])
    (insert assms [unfolded work_keeps_def], blast+)

lemma spared_keeps:
  assumes "current_status_spared w"
  shows "work_keeps (\<lambda>s. P (current_dir (wk_ctl w) (co_boot s))) w"
  using assms unfolding current_status_spared_def
  by (intro work_keeps_of_eq [where f = "\<lambda>s. current_dir (wk_ctl w) (co_boot s)" and P = P]) blast

lemma spared_keeps_marked:
  "current_status_spared w \<Longrightarrow> work_keeps (\<lambda>s. marked_failure (wk_ctl w) (co_boot s)) w"
  using spared_keeps [of w "\<lambda>d. dir_exists d \<and> (\<exists>x. f_status d = Some (ota_status_name FAILURE, x))"]
  by (simp add: marked_failure_def)

section \<open>The current slot\<close>

lemma post_update_standby_marked:
  assumes "standby_ota_status_dir c \<noteq> current_ota_status_dir c"
  shows "keeps (marked_failure c) (on_fs (post_update_standby c v vd))"
proof (rule keepsI)
  fix s :: "'a boot_state" assume "marked_failure c s"
  moreover have "current_dir c (snd (on_fs (post_update_standby c v vd) s)) = current_dir c s"
    using post_update_standby_result [of c v vd "bs_fs s"] assms
    by (auto simp: on_fs_def current_dir_def)
  ultimately show "marked_failure c (snd (on_fs (post_update_standby c v vd) s))"
    by (simp add: marked_failure_def)
qed

lemma templates_keep_marked:
  assumes "hooks_keep (wk_platform w) (wk_ctl w)"
    and "standby_ota_status_dir (wk_ctl w) \<noteq> current_ota_status_dir (wk_ctl w)"
  shows "templates_keep (marked_failure (wk_ctl w)) w"
proof -
  have "keeps (marked_failure (wk_ctl w)) (bc_pre_update (wk_platform w) (wk_ctl w) a b)" for a b
    using bc_pre_update_marks [OF assms(1)] by (auto simp: marked_failure_def intro!: keepsI)
  moreover have "keeps (marked_failure (wk_ctl w)) (bc_post_update (wk_platform w) (wk_ctl w) v d f)" for v d f
    unfolding bc_post_update_def
    using hooks_keep_marked [OF assms(1)] post_update_standby_marked [OF assms(2)]
    by (auto intro!: keeps_intros)
  ultimately show ?thesis by (simp add: templates_keep_def)
qed

text \<open>A pre-update that returns has marked the current slot as failed.\<close>

lemma up_pre_update_marks:
  assumes "current_status_spared w" and "dir_exists (current_dir (wk_ctl w) (co_boot s))"
    and "standby_ota_status_dir (wk_ctl w) \<noteq> current_ota_status_dir (wk_ctl w)"
    and "up_pre_update w s = (Inr b, s')"
  shows "marked_failure (wk_ctl w) (co_boot s')"
proof -
  let ?M = "\<lambda>s. marked_failure (wk_ctl w) (co_boot s)"
  have hooks: "hooks_keep (wk_platform w) (wk_ctl w)"
    using assms(1) by (simp add: current_status_spared_def)
  obtain s1 where 1: "can_use_in_place_mode w s = (Inr b, s1)"
    using assms(4) by (auto simp: up_pre_update_def io_defs split: prod.splits sum.splits)
  have ex1: "dir_exists (current_dir (wk_ctl w) (co_boot s1))"
    using keepsD [of "\<lambda>s. dir_exists (current_dir (wk_ctl w) (co_boot s))" "can_use_in_place_mode w" s]
      spared_keeps [OF assms(1), of dir_exists] assms(2) 1 by (simp add: work_keeps_def)
  let ?rest = "seq_io [if b \<and> fstrim_at_ota w then fstrim w else ret (), prepare_meta_store w,
      ignore_exc (save_fstable w),
      bind_io (gets_io (\<lambda>s. bc_load_standby_slot_version (wk_ctl w) (co_boot s))) (\<lambda>v.
          upd_metrics (\<lambda>m. m\<lparr>standby_firmware_version := v\<rparr>))]"
  let ?pre = "on_boot (bc_pre_update (wk_platform w) (wk_ctl w) b (\<not> b))"
  let ?s2 = "s1\<lparr>co_metrics := (co_metrics s1)\<lparr>use_inplace_mode := b\<rparr>\<rparr>"
  obtain s3 where 3: "?pre ?s2 = (Inr (), s3)" "?rest s3 = (Inr (), s')"
    using assms(4) 1
    by (auto simp: up_pre_update_def upd_metrics_def io_defs split: prod.splits sum.splits)
  have "?M s3"
    using 3(1) bc_pre_update_marks [OF hooks ex1, of b "\<not> b"]
    by (auto simp: on_boot_def split: prod.splits)
  moreover have "keeps ?M ?rest"
    using spared_keeps_marked [OF assms(1)] unfolding work_keeps_def
    by (auto intro!: keeps_intros)
  ultimately show ?thesis using keepsD [of ?M ?rest s3] 3(2) by simp
qed

section \<open>The standby slot\<close>

abbreviation standby_updated :: "status_control \<Rightarrow> string \<Rightarrow> 'p boot_state \<Rightarrow> bool" where
  "standby_updated c v b \<equiv> updated_slot (standby_ota_status_dir c) (standby_slot c) v (bs_fs b)"

lemma standby_updated_dir:
  "standby_updated c v b \<longleftrightarrow> dir_exists (standby_dir c b) \<and>
     (\<exists>x. f_status (standby_dir c b) = Some (ota_status_name UPDATING, x)) \<and>
     f_slot_in_use (standby_dir c b) = Some (standby_slot c) \<and> f_version (standby_dir c b) = Some v"
  by (simp add: updated_slot_def standby_dir_def)

lemma keeps_updated:
  assumes "\<And>dir. keeps (\<lambda>s. standby_dir c (b s) = dir) m"
  shows "keeps (\<lambda>s. standby_updated c v (b s)) m"
  unfolding standby_updated_dir
  by (rule keeps_of_eq [where f = "\<lambda>s. standby_dir c (b s)" and P = "\<lambda>d. dir_exists d \<and>
     (\<exists>x. f_status d = Some (ota_status_name UPDATING, x)) \<and>
     f_slot_in_use d = Some (standby_slot c) \<and> f_version d = Some v"]) (rule assms)

lemma standby_sparedD:
  assumes "standby_status_spared w"
  shows "keeps (standby_updated (wk_ctl w) u) (post_update_platform_specific (wk_platform w) v f)"
    "keeps (standby_updated (wk_ctl w) u) (mp_umount_all (wk_platform w))"
    "keeps (\<lambda>s. standby_updated (wk_ctl w) u (co_boot s)) (wait_sub_ecus w)"
    "keeps (\<lambda>s. standby_updated (wk_ctl w) u (co_boot s)) (sync_shm_metrics w)"
    "keeps (\<lambda>s. standby_updated (wk_ctl w) u (co_boot s)) (finalizing_update w)"
  using assms unfolding standby_status_spared_def
  by (blast intro: keeps_updated [where b = "\<lambda>s. s"] keeps_updated [where b = co_boot])+

text \<open>A post-update that returns has written the status files of the standby slot.\<close>

lemma bc_post_update_updates:
  assumes "standby_status_spared w"
    and "bc_post_update (wk_platform w) (wk_ctl w) v vd f b = (Inr (), b')"
  shows "standby_updated (wk_ctl w) v b'"
proof -
  let ?p = "wk_platform w" and ?c = "wk_ctl w"
  let ?rest = "seq_io [post_update_platform_specific ?p v
      (case f of Some f \<Rightarrow> f | None \<Rightarrow> default_config_files ?p), mp_umount_all ?p]"
  obtain b1 where 1: "on_fs (post_update_standby ?c v vd) b = (Inr (), b1)" "?rest b1 = (Inr (), b')"
    using assms(2)
    by (auto simp: bc_post_update_def raise_as_ota_error_def io_defs split: prod.splits sum.splits exc.splits)
  have "standby_updated ?c v b1"
    using 1(1) post_update_standby_updated [of ?c v vd "bs_fs b"]
    by (auto simp: on_fs_def split: prod.splits)
  moreover have "keeps (standby_updated ?c v) ?rest"
    using standby_sparedD [OF assms(1)] by (auto intro!: keeps_intros)
  ultimately show ?thesis using keepsD [of "standby_updated ?c v" ?rest b1] 1(2) by simp
qed

lemma up_post_update_updates:
  assumes "standby_status_spared w" and "up_post_update w rq s = (Inr (), s')"
  shows "standby_updated (wk_ctl w) (rq_version rq) (co_boot s')"
proof -
  obtain f s1 where "on_boot (bc_post_update (wk_platform w) (wk_ctl w) (rq_version rq)
      (request_version_detail rq) f) s1 = (Inr (), s')"
    using assms(2) by (auto simp: up_post_update_def io_defs split: prod.splits sum.splits)
  then show ?thesis
    using bc_post_update_updates [OF assms(1)] by (auto simp: on_boot_def split: prod.splits)
qed

lemma finalize_keeps_updated:
  assumes "standby_status_spared w"
  shows "keeps (\<lambda>s. standby_updated (wk_ctl w) v (co_boot s)) (finalize_update_and_reboot w sid)"
  using standby_sparedD [OF assms] unfolding finalize_update_and_reboot_def
  by (auto intro!: keeps_intros keeps_boot_simple [where Q = "standby_updated (wk_ctl w) v"]
      keeps_boot_begin_phase [where Q = "standby_updated (wk_ctl w) v"]
      keeps_boot_publish [where Q = "standby_updated (wk_ctl w) v"])

section \<open>A run that reaches its last phase\<close>

abbreviation pre_update_zone :: "('p, 'c) work \<Rightarrow> ('p, bool) core_io" where
  "pre_update_zone w \<equiv> critical_zone (on_ah enter_critical_zone) (on_ah exit_critical_zone)
     (raise_as_ota_error PreUpdateFailed ''pre-update failed'' updater_module (up_pre_update w))"

lemma zone_returns:
  assumes "pre_update_zone w s = (Inr b, s')"
  obtains s1 s2 where "up_pre_update w s1 = (Inr b, s2)" and "co_boot s1 = co_boot s"
    and "co_boot s' = co_boot s2"
proof -
  obtain s1 s2 where "on_ah enter_critical_zone s = (Inr (), s1)" "up_pre_update w s1 = (Inr b, s2)"
      "on_ah exit_critical_zone s2 = (Inr (), s')"
    using assms
    by (auto simp: critical_zone_def raise_as_ota_error_def io_defs split: prod.splits sum.splits exc.splits)
  then show thesis using that by (auto simp: on_ah_def split: prod.splits)
qed

lemma finalizing_run:
  assumes ws: "work_silent phases w" and "execute_body w rq s = (r, s')"
    and "phases s' = phases s @ update_phases"
  obtains s1 b s2 s3 s4 s5 where "process_metadata w (rq_session_id rq) s = (Inr (), s1)"
    and "pre_update_zone w s1 = (Inr b, s2)" and "in_update w (rq_session_id rq) b s2 = (Inr (), s3)"
    and "co_boot s4 = co_boot s3" and "up_post_update w rq s4 = (Inr (), s5)"
    and "finalize_update_and_reboot w (rq_session_id rq) s5 = (r, s')"
proof -
  let ?sid = "rq_session_id rq"
  have zone: "emits phases (pre_update_zone w) []"
    using emits_then [OF phases_simple(2) emits_finally
        [OF emits_raise_as [OF phases_pre_update [OF ws]] phases_simple(2)]]
    by (simp add: critical_zone_def)
  obtain s1 where 1: "process_metadata w ?sid s = (Inr (), s1)"
      "bind_io (pre_update_zone w) (\<lambda>b. seq_io [in_update w ?sid b, on_ah enter_final_phase,
          raise_as_ota_error PostUpdateFailed ''post-update failed'' updater_module (up_post_update w rq),
          finalize_update_and_reboot w ?sid]) s1 = (r, s')" "phases s1 = phases s @ [PH_PROCESSING_METADATA]"
    using assms(2,3) unfolding execute_body_def update_phases_def
    by (elim emits_then_reached [OF phases_process_metadata [OF ws]]) auto
  have p1: "phases s' = phases s1 @ [PH_CALCULATING_DELTA, PH_DOWNLOADING_OTA_FILES, PH_APPLYING_UPDATE] @
      PH_PROCESSING_POSTUPDATE # [PH_FINALIZING_UPDATE]"
    using assms(3) 1(3) by (simp add: update_phases_def)
  obtain b s2 where 2: "pre_update_zone w s1 = (Inr b, s2)" "phases s2 = phases s1"
      "seq_io [in_update w ?sid b, on_ah enter_final_phase,
          raise_as_ota_error PostUpdateFailed ''post-update failed'' updater_module (up_post_update w rq),
          finalize_update_and_reboot w ?sid] s2 = (r, s')"
    using 1(2) p1 by (elim emits_bind_reached [OF zone]) auto
  obtain s3 where 3: "in_update w ?sid b s2 = (Inr (), s3)"
      "seq_io [on_ah enter_final_phase,
          raise_as_ota_error PostUpdateFailed ''post-update failed'' updater_module (up_post_update w rq),
          finalize_update_and_reboot w ?sid] s3 = (r, s')"
      "phases s' = phases s3 @ [] @ PH_PROCESSING_POSTUPDATE # [PH_FINALIZING_UPDATE]"
    using 2(3) p1 2(2) unfolding seq_io.simps(2) [of "in_update w ?sid b"]
    by (elim emits_then_reached [OF phases_in_update [OF ws]]) auto
  obtain s4 where 4: "on_ah enter_final_phase s3 = (Inr (), s4)"
      "seq_io [raise_as_ota_error PostUpdateFailed ''post-update failed'' updater_module (up_post_update w rq),
          finalize_update_and_reboot w ?sid] s4 = (r, s')"
      "phases s' = phases s4 @ [PH_PROCESSING_POSTUPDATE] @ PH_FINALIZING_UPDATE # []"
    using 3(2,3) unfolding seq_io.simps(2) [of "on_ah enter_final_phase"]
    by (elim emits_then_reached [OF phases_simple(2)]) auto
  obtain s5 where 5: "raise_as_ota_error PostUpdateFailed ''post-update failed'' updater_module
        (up_post_update w rq) s4 = (Inr (), s5)" "finalize_update_and_reboot w ?sid s5 = (r, s')"
    using 4(2,3) unfolding seq_io.simps(2) [of "raise_as_ota_error _ _ _ _"]
    by (elim emits_then_reached [OF emits_raise_as [OF phases_post_update [OF ws]]])
      (auto simp: io_defs split: prod.splits sum.splits)
  have "co_boot s4 = co_boot s3" using 4(1) by (auto simp: on_ah_def split: prod.splits)
  moreover have "up_post_update w rq s4 = (Inr (), s5)"
    using 5(1) by (auto simp: raise_as_ota_error_def io_defs split: prod.splits sum.splits exc.splits)
  ultimately show thesis using that 1(1) 2(1) 3(1) 5(2) by blast
qed

lemma finalizing_run_slots:
  assumes "work_silent phases w" and cs: "current_status_spared w" and ss: "standby_status_spared w"
    and ne: "standby_ota_status_dir (wk_ctl w) \<noteq> current_ota_status_dir (wk_ctl w)"
    and dir: "dir_exists (current_dir (wk_ctl w) (co_boot s))"
    and "execute_body w rq s = (r, s')" and "phases s' = phases s @ update_phases"
  shows "marked_failure (wk_ctl w) (co_boot s') \<and>
    standby_updated (wk_ctl w) (rq_version rq) (co_boot s')"
proof -
  let ?M = "\<lambda>s. marked_failure (wk_ctl w) (co_boot s)" and ?sid = "rq_session_id rq"
  have hooks: "hooks_keep (wk_platform w) (wk_ctl w)"
    using cs by (simp add: current_status_spared_def)
  note km = keeps_boot_steps [OF spared_keeps_marked [OF cs] templates_keep_marked [OF hooks ne]]
  note kd = keeps_boot_steps [OF spared_keeps [OF cs, of dir_exists] templates_keep_exists [OF hooks]]
  obtain s1 b s2 s3 s4 s5 where run: "process_metadata w ?sid s = (Inr (), s1)"
      "pre_update_zone w s1 = (Inr b, s2)" "in_update w ?sid b s2 = (Inr (), s3)"
      "co_boot s4 = co_boot s3" "up_post_update w rq s4 = (Inr (), s5)"
      "finalize_update_and_reboot w ?sid s5 = (r, s')"
    using finalizing_run [OF assms(1,6,7)] by blast
  have "dir_exists (current_dir (wk_ctl w) (co_boot s1))"
    using keepsD [OF kd(1), of s ?sid] dir run(1) by simp
  then have "?M s2" using up_pre_update_marks [OF cs _ ne] zone_returns [OF run(2)] by metis
  then have "?M s3" using keepsD [OF km(3), of s2 ?sid b] run(3) by simp
  then have "?M s5" using keepsD [OF km(4), of s4 rq] run(4,5) by simp
  then have "?M s'" using keepsD [OF km(5), of s5 ?sid] run(6) by simp
  moreover have "standby_updated (wk_ctl w) (rq_version rq) (co_boot s5)"
    by (rule up_post_update_updates [OF ss run(5)])
  ultimately show ?thesis using keepsD [OF finalize_keeps_updated [OF ss], of _ s5 ?sid] run(6) by simp
qed

lemma on_operation_failure_no_exit:
  assumes "\<And>b. fst (mp_umount_all p b) \<noteq> Inl SysExit"
  shows "fst (on_operation_failure p c b) \<noteq> Inl SysExit"
proof -
  have "fst (on_fs (on_failure c) b) \<noteq> Inl SysExit"
    by (auto simp: on_fs_def on_failure_def store_defs io_defs not_found_error_def)
  then show ?thesis
    using assms by (auto simp: on_operation_failure_def io_defs split: prod.splits sum.splits) (metis fst_conv)
qed

lemma execute_exit:
  assumes "\<And>b. fst (mp_umount_all (wk_platform w) b) \<noteq> Inl SysExit"
    and "execute w rq s = (Inl SysExit, s')"
  obtains s0 where "execute_body w rq s = (Inl SysExit, s0)"
    and "s' = s0\<lparr>workdirs := removeAll (rq_session_id rq) (workdirs s0)\<rparr>"
proof -
  obtain r0 s0 where body: "execute_body w rq s = (r0, s0)"
    and res: "case r0 of Inr u \<Rightarrow> Inl SysExit = Inr u \<and> s' = snd (remove_workdir (rq_session_id rq) s0)
         | Inl e0 \<Rightarrow> Inl SysExit = fst (execute_handler w e0 s0) \<and>
             s' = snd (remove_workdir (rq_session_id rq) (snd (execute_handler w e0 s0)))"
    using assms(2) by (rule execute_cases)
  then obtain e where e: "r0 = Inl e" "Inl SysExit = fst (execute_handler w e s0)"
      "s' = snd (remove_workdir (rq_session_id rq) (snd (execute_handler w e s0)))"
    by (cases r0) auto
  have "e = SysExit"
    using e(2) on_operation_failure_no_exit [OF assms(1), of "wk_ctl w" "co_boot s0"]
    by (cases e) (auto simp: execute_handler_def abort_signal_def on_boot_def io_defs
        split: if_splits prod.splits sum.splits)
  then show thesis
    using that body e(1,3) by (simp add: execute_handler_def remove_workdir_def is_abort_signal_def isinstance_of_def)
qed

text \<open>
  C1: an update that completes is what the next boot reports. When \<^verbatim>\<open>execute\<close> ends by leaving the
  process for the reboot, having reported all its phases, then a boot into the other slot, by the
  controller with the two slots exchanged, reports SUCCESS if the finalization of the boot controller
  succeeds and FAILURE if it does not, and the version it reports is the one the update was requested
  for, without white space at its ends and cut to the length limit; and a boot back into the old slot
  reports FAILURE. It is relied on that the work and the hooks of the platform do not write to
  the status directory of the running slot, that nothing writes to the one of the standby slot after
  the post-update has, and that unmounting raises no \<^verbatim>\<open>SystemExit\<close>.
\<close>

theorem completed_update_boots:
  assumes "work_silent phases w" and "current_status_spared w" and "standby_status_spared w"
    and "\<And>b. fst (mp_umount_all (wk_platform w) b) \<noteq> Inl SysExit" and "wk_ctl w = c"
    and "standby_ota_status_dir c \<noteq> current_ota_status_dir c" and "\<not> force_initialize c"
    and "stripped (standby_slot c)" and "standby_slot c \<noteq> ''''"
    and "dir_exists (current_dir c (co_boot s))"
    and run: "execute w rq s = (Inl SysExit, s')" "phases s' = phases s @ update_phases"
    and fin: "fin (bs_fs (co_boot s')) = (Inr ok, fs)"
      "fs_dirs fs (standby_ota_status_dir c) = standby_dir c (co_boot s')"
  shows "(\<exists>fs'. status_control_init False fin (swap_slots c) (bs_fs (co_boot s')) =
       (Inr ((swap_slots c)\<lparr>booted_ota_status := if ok then SUCCESS else FAILURE\<rparr>), fs') \<and>
       load_active_slot_version (swap_slots c) fs' =
         py_prefix MAX_VERSION_STRING_LEN (strip (rq_version rq))) \<and>
     (\<exists>fs'. status_control_init False fin' c (bs_fs (co_boot s')) =
       (Inr (c\<lparr>booted_ota_status := FAILURE\<rparr>), fs'))"
proof -
  obtain s0 where s0: "execute_body w rq s = (Inl SysExit, s0)"
      "s' = s0\<lparr>workdirs := removeAll (rq_session_id rq) (workdirs s0)\<rparr>"
    using execute_exit [OF assms(4) run(1)] .
  then have "phases s0 = phases s @ update_phases" using run(2) by (simp add: phases_def)
  then have slots: "marked_failure c (co_boot s')" "standby_updated c (rq_version rq) (co_boot s')"
    using finalizing_run_slots [OF assms(1-3) _ _ s0(1)] assms(5,6,10) s0(2) by simp_all
  have "\<exists>fs'. status_control_init False fin (swap_slots c) (bs_fs (co_boot s')) =
      (Inr ((swap_slots c)\<lparr>booted_ota_status := if ok then SUCCESS else FAILURE\<rparr>), fs') \<and>
      load_active_slot_version (swap_slots c) fs' = py_prefix MAX_VERSION_STRING_LEN (strip (rq_version rq))"
    using slots(2) assms(7-9) fin
    by (intro boot_into_updated_slot [where fs' = fs]) (simp_all add: standby_dir_def)
  moreover have "\<exists>fs'. status_control_init False fin' c (bs_fs (co_boot s')) =
      (Inr (c\<lparr>booted_ota_status := FAILURE\<rparr>), fs')"
    using slots(1) assms(7) marked_failure_load [OF slots(1)]
    by (intro status_control_init_kept) (auto simp: marked_failure_def current_dir_def)
  ultimately show ?thesis ..
qed

section \<open>A concrete update for the witness\<close>

definition ex_done_work :: "(unit, unit) work" where
  "ex_done_work = ex_work\<lparr>update_slot := ret ()\<rparr>"

lemma ex_done_keeps: "work_keeps P ex_done_work"
  by (simp add: work_keeps_def ex_done_work_def ex_work_def keeps_intros)

lemma ex_done_hooks: "hooks_keep (wk_platform ex_done_work) c"
  by (simp add: hooks_keep_def ex_done_work_def ex_work_def ex_platform_def keeps_intros)

lemma ex_done_spared:
  "work_silent phases ex_done_work" "current_status_spared ex_done_work"
  by (simp_all add: work_silent_def ex_done_keeps current_status_spared_def ex_done_hooks)

lemma ex_done_standby: "standby_status_spared ex_done_work"
  using ex_done_keeps unfolding standby_status_spared_def work_keeps_def
  by (simp add: keeps_ret ex_done_work_def ex_work_def ex_platform_def)

lemma ex_done_ctl:
  "fst (mp_umount_all (wk_platform ex_done_work) b) \<noteq> Inl SysExit" "wk_ctl ex_done_work = ex_ctl"
  by (simp_all add: ex_done_work_def ex_work_def ex_platform_def)

definition ex_ready :: "unit core \<Rightarrow> bool" where
  "ex_ready s \<longleftrightarrow> dir_exists (current_dir ex_ctl (co_boot s)) \<and>
     ah_state (co_ah s) \<notin> {AS_ABORTING, AS_ABORTED, AS_REQUESTED}"

lemmas ex_step_defs = begin_phase_def report_phase_at_def put_report_def upd_metrics_def
  put_progress_def on_boot_def on_ah_def map_exc_def ignore_exc_def raise_as_ota_error_def io_defs
  ex_ready_def current_dir_def ex_done_work_def ex_work_def ex_platform_def

lemma ex_done_metadata:
  "ex_ready s \<Longrightarrow> \<exists>s1. process_metadata ex_done_work sid s = (Inr (), s1) \<and> ex_ready s1"
  by (simp add: ex_step_defs process_metadata_def support_process_metadata_def)

lemma ex_done_zone:
  "ex_ready s \<Longrightarrow> \<exists>s1. pre_update_zone ex_done_work s = (Inr True, s1) \<and> ex_ready s1"
  by (auto simp: ex_step_defs critical_zone_def up_pre_update_def bc_pre_update_def on_fs_def
      pre_update_current_def store_defs remove_failure_info_def enter_critical_zone_def
      exit_critical_zone_def)

lemma ex_done_in_update:
  "ex_ready s \<Longrightarrow> \<exists>s1. in_update ex_done_work sid b s = (Inr (), s1) \<and> ex_ready s1"
  by (simp add: ex_step_defs in_update_def calculate_delta_def download_delta_resources_def
      download_resources_handler_def download_exception_handler_def Let_def split: prod.splits)

lemma ex_done_final_phase:
  "ex_ready s \<Longrightarrow> \<exists>s1. on_ah enter_final_phase s = (Inr (), s1)"
  by (simp add: ex_ready_def on_ah_def enter_final_phase_def)

lemma ex_done_post:
  "\<exists>s1. up_post_update ex_done_work rq s = (Inr (), s1)"
proof -
  have bc: "\<exists>s1. on_boot (bc_post_update (wk_platform ex_done_work) (wk_ctl ex_done_work) v vd f) s =
      (Inr (), s1)" for v vd f s
  proof -
    obtain fs where "post_update_standby ex_ctl v vd (bs_fs (co_boot s)) = (Inr (), fs)"
      using post_update_standby_result by blast
    then show ?thesis
      by (simp add: on_boot_def bc_post_update_def on_fs_def raise_as_ota_error_def io_defs
          ex_done_work_def ex_work_def ex_platform_def)
  qed
  have "load_config_files ex_done_work = ret None" "load_persist_entries ex_done_work = ret ()"
      "process_persists ex_done_work = ret ()" "preserve_image_meta ex_done_work = ret ()"
      "preserve_client_squashfs ex_done_work = ret ()"
    by (simp_all add: ex_done_work_def ex_work_def)
  moreover obtain s0 where "begin_phase (rq_session_id rq) PH_PROCESSING_POSTUPDATE
        (\<lambda>t m. m\<lparr>post_update_start_ts := t\<rparr>) s = (Inr (), s0)"
    by (simp add: begin_phase_def report_phase_at_def put_report_def upd_metrics_def)
  moreover obtain s1 where "on_boot (bc_post_update (wk_platform ex_done_work) (wk_ctl ex_done_work)
        (rq_version rq) (request_version_detail rq) None) s0 = (Inr (), s1)"
    using bc by blast
  ultimately show ?thesis by (simp add: up_post_update_def)
qed

lemma ex_done_reboot:
  "\<exists>s1. finalize_update_and_reboot ex_done_work sid s = (Inl SysExit, s1) \<and>
     phases s1 = phases s @ [PH_FINALIZING_UPDATE]"
  by (simp add: ex_step_defs finalize_update_and_reboot_def merge_shm_metrics_def publish_metrics_def
      phases_def shm_merge_def split: prod.splits option.splits)

lemma ex_done_run:
  "fst (execute ex_done_work ex_request ex_core) = Inl SysExit"
  "phases (snd (execute ex_done_work ex_request ex_core)) = phases ex_core @ update_phases"
proof -
  let ?w = ex_done_work and ?sid = "rq_session_id ex_request"
  have zone: "emits phases (pre_update_zone ?w) ([] @ [])"
    unfolding critical_zone_def
    by (intro emits_then emits_finally emits_intros phases_pre_update [OF ex_done_spared(1)])
  have r0: "ex_ready ex_core"
    using ex_current by (simp add: ex_ready_def ex_core_def abort_handler_0_def)
  obtain s1 where 1: "process_metadata ?w ?sid ex_core = (Inr (), s1)" "ex_ready s1"
    using ex_done_metadata [OF r0] by blast
  obtain s2 where 2: "pre_update_zone ?w s1 = (Inr True, s2)" "ex_ready s2"
    using ex_done_zone [OF 1(2)] by blast
  obtain s3 where 3: "in_update ?w ?sid True s2 = (Inr (), s3)" "ex_ready s3"
    using ex_done_in_update [OF 2(2)] by blast
  obtain s4 where 4: "on_ah enter_final_phase s3 = (Inr (), s4)"
    using ex_done_final_phase [OF 3(2)] by blast
  obtain s5 where 5: "up_post_update ?w ex_request s4 = (Inr (), s5)"
    using ex_done_post by blast
  obtain s6 where 6: "finalize_update_and_reboot ?w ?sid s5 = (Inl SysExit, s6)"
      "phases s6 = phases s5 @ [PH_FINALIZING_UPDATE]"
    using ex_done_reboot by blast
  have "phases s6 = phases ex_core @ update_phases"
    using emitsD_Inr [OF phases_process_metadata [OF ex_done_spared(1)] 1(1)] emitsD_Inr [OF zone 2(1)]
      emitsD_Inr [OF phases_in_update [OF ex_done_spared(1)] 3(1)] emitsD_Inr [OF phases_simple(2) 4]
      emitsD_Inr [OF phases_post_update [OF ex_done_spared(1)] 5] 6(2)
    by (simp add: update_phases_def)
  moreover have "raise_as_ota_error k t md (up_post_update ?w ex_request) s4 = (Inr (), s5)" for k t md
    using 5 by (simp add: raise_as_ota_error_def)
  then have "execute_body ?w ex_request ex_core = (Inl SysExit, s6)"
    using 1(1) 2(1) 3(1) 4 6(1) by (simp add: execute_body_def)
  ultimately show "fst (execute ?w ex_request ex_core) = Inl SysExit"
      "phases (snd (execute ?w ex_request ex_core)) = phases ex_core @ update_phases"
    by (simp_all add: execute_def execute_handler_def finally_io_def remove_workdir_def phases_def)
qed

theorem completed_update_boots_witness:
  "\<exists>s' fs'. execute ex_done_work ex_request ex_core = (Inl SysExit, s') \<and>
     status_control_init False (ret True) (swap_slots ex_ctl) (bs_fs (co_boot s')) =
       (Inr ((swap_slots ex_ctl)\<lparr>booted_ota_status := SUCCESS\<rparr>), fs') \<and>
     load_active_slot_version (swap_slots ex_ctl) fs' = ''v2''"
proof -
  let ?s' = "snd (execute ex_done_work ex_request ex_core)"
  have run: "execute ex_done_work ex_request ex_core = (Inl SysExit, ?s')"
    using ex_done_run(1) by (metis prod.collapse)
  have v: "py_prefix MAX_VERSION_STRING_LEN (strip (rq_version ex_request)) = ''v2''"
    by (simp add: ex_request_def strip_def py_isspace_def py_prefix_def MAX_VERSION_STRING_LEN_def)
  have "dir_exists (current_dir ex_ctl (co_boot ex_core))"
    using ex_current by (simp add: ex_core_def)
  then show ?thesis
    using completed_update_boots [OF ex_done_spared ex_done_standby ex_done_ctl _ _ _ _ _ run ex_done_run(2), of "ret True" True
        "bs_fs (co_boot ?s')"] run v
    by (simp add: ex_stripped standby_dir_def) (auto simp: ex_ctl_def ex_stripped)
qed

end
