(* ===== verification/OTA_Client.thy ===== *)
theory OTA_Client
  imports Updater
begin

text \<open>
  The OTA core process, \<^verbatim>\<open>src/otaclient/ota_core/_main.py\<close> with \<^verbatim>\<open>_client_updater.py\<close> and the request
  checks of \<^verbatim>\<open>_common.py\<close>: the start of \<^verbatim>\<open>OTAClient\<close>, the update and the client update as the threads run
  them, the expiry of a reported ABORTED and one round of the main loop. What the process environment
  gives (the proxy, the JSON library, the detection of the image's version, the certificate stores) is a
  record \<open>client_env\<close>.
\<close>

section \<open>Environment\<close>

text \<open>What \<^verbatim>\<open>json.loads\<close> makes of the cookies: an error, an object, or a value of another type.\<close>

datatype json_kind = JK_INVALID | JK_OBJECT | JK_OTHER string

datatype storage_rank = L1 | L2 | L3

text \<open>
  \<open>ce_boot_ok\<close> says whether \<^verbatim>\<open>__init__\<close> got as far as setting \<^verbatim>\<open>boot_controller\<close> and
  \<^verbatim>\<open>_download_threads\<close>; \<open>ce_partition_execute\<close> is the updater for partition images.
\<close>

record ('p, 'c) client_env =
  ce_work :: "('p, 'c) work"
  ce_ecu_id :: string
  ce_proxy_cache :: bool
  ce_boot_ok :: bool
  ce_proxy :: "string option"
  ce_otaproxy_start :: "string \<Rightarrow> ('p, unit) core_io"
  ce_json_loads :: "string \<Rightarrow> json_kind"
  ce_is_image_v1 :: "string \<Rightarrow> ('p, bool) core_io"
  ce_ca_store :: bool
  ce_ca_chains_store :: bool
  ce_partition_layout :: bool
  ce_partition_execute :: "update_request_v2 \<Rightarrow> ('p, unit) core_io"
  ce_dynamic_client :: bool
  ce_downloaded_app :: bool
  ce_traceback :: "exc \<Rightarrow> string"
  ce_download_client :: "('p, unit) core_io"
  ce_same_client_version :: "('p, bool) core_io"
  ce_copy_client :: "('p, unit) core_io"
  ce_umount_standby :: "('p, unit) core_io"

definition main_module :: string where "main_module = ''otaclient.ota_core._main''"

text \<open>\<^verbatim>\<open>AttributeError\<close> of an attribute that \<^verbatim>\<open>__init__\<close> did not set.\<close>

definition no_attribute :: "string \<Rightarrow> exc" where
  "no_attribute a = PyExc (''AttributeError('' @ py_repr
     ([char_of (39::nat)] @ ''OTAClient' object has no attribute '' @ [char_of (39::nat)] @ a @
      [char_of (39::nat)]) @ '')'') [K_Other]"

section \<open>Requests\<close>

definition map_to_download_threads :: "storage_rank \<Rightarrow> int \<Rightarrow> int" where
  "map_to_download_threads r cpu_count =
     (let f = (if cpu_count = 0 then 4 else cpu_count) + 4 in
      case r of L1 \<Rightarrow> min 24 (max 16 f) | L2 \<Rightarrow> min 20 (max 16 f) | L3 \<Rightarrow> min 14 (max 8 f))"

definition handle_upper_proxy :: "('p, 'c) client_env \<Rightarrow> string \<Rightarrow> ('p, unit) core_io" where
  "handle_upper_proxy e proxy = catch_io (ce_otaproxy_start e proxy) (\<lambda>x. case x of
     PyExc r (K_ConnectionError # _) \<Rightarrow> throw (OTAExc UpperOTAProxyUnreachable
       [''otaproxy@'' @ proxy @ '' is not online after 180s''] common_module)
   | _ \<Rightarrow> throw x)"

definition use_upper_proxy :: "('p, 'c) client_env \<Rightarrow> ('p, unit) core_io" where
  "use_upper_proxy e = (case ce_proxy e of
     Some p \<Rightarrow> if p \<noteq> '''' then handle_upper_proxy e p else ret ()
   | None \<Rightarrow> ret ())"

definition prepare_cookies :: "('p, 'c) client_env \<Rightarrow> string \<Rightarrow> ('p, unit) core_io" where
  "prepare_cookies e cookies = (case ce_json_loads e cookies of
     JK_INVALID \<Rightarrow> throw (OTAExc InvalidUpdateRequest [''cookie is invalid: not a valid json'']
       common_module)
   | JK_OBJECT \<Rightarrow> ret ()
   | JK_OTHER t \<Rightarrow> throw (OTAExc InvalidUpdateRequest
       [''cookie is invalid: expecting json object, got '' @ t] common_module))"

text \<open>
  \<^verbatim>\<open>create_downloader_pool(request.cookies_json, ..., download_threads=self._download_threads)\<close>: the
  attribute is read before the call.
\<close>

definition create_downloader_pool :: "('p, 'c) client_env \<Rightarrow> string \<Rightarrow> ('p, unit) core_io" where
  "create_downloader_pool e cookies =
     (if ce_boot_ok e then prepare_cookies e cookies else throw (no_attribute ''_download_threads''))"

section \<open>Update\<close>

definition set_live :: "ota_status \<Rightarrow> ('p, unit) core_io" where
  "set_live st = modify_io (\<lambda>s. s\<lparr>live_ota_status := st\<rparr>)"

definition report_ota_status :: "ota_status \<Rightarrow> string \<Rightarrow> ('p, unit) core_io" where
  "report_ota_status st sid = put_report (OTAStatusChangeReport (status_change_of st)) sid"

definition client_on_failure ::
  "('p, 'c) client_env \<Rightarrow> exc \<Rightarrow> ota_status \<Rightarrow> string \<Rightarrow> failure_type \<Rightarrow> ('p, unit) core_io" where
  "client_on_failure e x st reason ft = seq_io
     [put_report (OTAStatusChangeReport \<lparr>new_ota_status = st, sc_failure_type = ft,
        sc_failure_reason = reason, sc_failure_traceback = ce_traceback e x\<rparr>) '''',
      upd_metrics (\<lambda>m. m\<lparr>m_failure_type := Some ft, m_failure_reason := reason,
        m_failed_status := Some st\<rparr>)]"

text \<open>The \<^verbatim>\<open>try\<close> block of \<^verbatim>\<open>update\<close>.\<close>

definition update_try :: "('p, 'c) client_env \<Rightarrow> update_request_v2 \<Rightarrow> ('p, unit) core_io" where
  "update_try e rq =
     then_io (seq_io [use_upper_proxy e, create_downloader_pool e (rq_cookies_json rq)])
     (bind_io (ce_is_image_v1 e (rq_url_base rq)) (\<lambda>v1.
       if v1 then
         then_io (upd_metrics (\<lambda>m. m\<lparr>m_image_format := FMT_V1\<rparr>))
         (if \<not> ce_ca_store e then throw (OTAExc CACertNotInstalled
            [''no CA chains are installed, reject any OTA update''] main_module)
          else if ce_partition_layout e then ce_partition_execute e rq
          else seq_io [updater_init (ce_work e) rq, execute (ce_work e) rq])
       else
         then_io (upd_metrics (\<lambda>m. m\<lparr>m_image_format := FMT_LEGACY\<rparr>))
         (if \<not> ce_ca_chains_store e then throw (OTAExc CACertNotInstalled
            [''no CA chains are installed, reject any OTA update''] main_module)
          else if ce_partition_layout e then throw (OTAExc OTAImageInvalid
            [''a legacy OTA image cannot be applied to a partition-based layout; this ECU takes the partition-based payload of a v1 OTA image''] main_module)
          else seq_io [updater_init (ce_work e) rq, execute (ce_work e) rq])))"

definition report_aborted :: "string \<Rightarrow> ('p, unit) core_io" where
  "report_aborted sid = seq_io [set_live ABORTED, report_ota_status ABORTED sid]"

text \<open>The OTA error an exception is reported as.\<close>

definition as_ota_error :: "exc \<Rightarrow> ota_error_cls \<times> string list" where
  "as_ota_error x = (case x of
     OTAExc c args _ \<Rightarrow> (c, args)
   | PyExc r _ \<Rightarrow> (OTAErrorUnrecoverable, [''unexpected error during OTA update: '' @ r])
   | SysExit \<Rightarrow> (OTAErrorUnrecoverable, []))"

definition client_store_failure_info ::
  "('p, 'c) client_env \<Rightarrow> failure_type \<Rightarrow> string \<Rightarrow> ('p, unit) core_io" where
  "client_store_failure_info e ft reason =
     (if ce_boot_ok e then on_boot (bc_store_failure_info (wk_ctl (ce_work e)) ft reason)
      else throw (no_attribute ''boot_controller''))"

text \<open>Its \<^verbatim>\<open>except\<close> clauses.\<close>

definition update_handler ::
  "('p, 'c) client_env \<Rightarrow> update_request_v2 \<Rightarrow> exc \<Rightarrow> ('p, unit) core_io" where
  "update_handler e rq x =
     (if is_abort_signal x then report_aborted (rq_session_id rq)
      else if \<not> is_exception x then throw x
      else bind_io (gets_io (\<lambda>s. aborting (co_ah s))) (\<lambda>ab.
        if ab then report_aborted (rq_session_id rq)
        else case as_ota_error x of (c, args) \<Rightarrow>
          seq_io [set_live FAILURE,
            client_on_failure e x FAILURE (get_failure_reason c args) (failure_type_of c),
            ignore_exc (client_store_failure_info e (failure_type_of c)
              (get_failure_reason c args))]))"

definition exit_from_dynamic_client :: "('p, 'c) client_env \<Rightarrow> ('p, unit) core_io" where
  "exit_from_dynamic_client e =
     (if ce_dynamic_client e
      then modify_io (\<lambda>s. s\<lparr>co_flags := (co_flags s)\<lparr>request_shutdown_event := True\<rparr>\<rparr>)
      else ret ())"

definition update_finally ::
  "('p, 'c) client_env \<Rightarrow> update_request_v2 \<Rightarrow> ('p, unit) core_io" where
  "update_finally e rq = seq_io
     [remove_workdir (rq_session_id rq),
      merge_shm_metrics (ce_work e),
      publish_metrics (log_metrics_ok (ce_work e)),
      exit_from_dynamic_client e]"

definition update_begin :: "update_request_v2 \<Rightarrow> ('p, unit) core_io" where
  "update_begin rq = seq_io
     [on_ah (set_session (rq_session_id rq)),
      set_live UPDATING,
      report_ota_status UPDATING (rq_session_id rq),
      upd_metrics (\<lambda>m. m\<lparr>m_request_id := rq_request_id rq, m_session_id := rq_session_id rq\<rparr>)]"

definition client_do_update ::
  "('p, 'c) client_env \<Rightarrow> update_request_v2 \<Rightarrow> ('p, unit) core_io" where
  "client_do_update e rq = then_io (update_begin rq)
     (finally_io (catch_io (update_try e rq) (update_handler e rq)) (update_finally e rq))"

section \<open>Client update\<close>

text \<open>\<^verbatim>\<open>OTAClientUpdater._execute_client_update\<close> and \<^verbatim>\<open>execute\<close>.\<close>

definition client_updater_module :: string where
  "client_updater_module = ''otaclient.ota_core._client_updater''"

definition download_client_package_resources ::
  "('p, 'c) client_env \<Rightarrow> string \<Rightarrow> ('p, unit) core_io" where
  "download_client_package_resources e sid = then_io
     (bind_io (gets_io co_now) (report_phase_at sid PH_DOWNLOADING_OTA_CLIENT))
     (finally_io
       (map_exc (\<lambda>_. OTAExc OTAClientPackageDownloadFailed [] client_updater_module)
         (ce_download_client e))
       (shutdown_downloaders (ce_work e)))"

definition notify_data_ready :: "('p, 'c) client_env \<Rightarrow> ('p, unit) core_io" where
  "notify_data_ready e = seq_io
     [ce_umount_standby e,
      modify_io (\<lambda>s. s\<lparr>co_flags := (co_flags s)\<lparr>notify_data_ready_event := True\<rparr>\<rparr>)]"

definition execute_client_update :: "('p, 'c) client_env \<Rightarrow> string \<Rightarrow> ('p, unit) core_io" where
  "execute_client_update e sid = catch_io
     (then_io (seq_io
        [support_process_metadata (ce_work e) sid,
         download_client_package_resources e sid,
         wait_sub_ecus (ce_work e)])
      (bind_io (ce_same_client_version e) (\<lambda>same.
        if same then throw (OTAExc ClientUpdateSameVersions
          [''client package version is the same, skip client update''] client_updater_module)
        else seq_io [ce_copy_client e, notify_data_ready e])))
     (\<lambda>x. if isinstance_of x ClientUpdateSameVersions \<or> \<not> is_exception x then throw x
          else throw (OTAExc ClientUpdateFailed [''client update failed: '' @ exc_repr x]
            client_updater_module))"

definition client_updater_execute :: "('p, 'c) client_env \<Rightarrow> string \<Rightarrow> ('p, unit) core_io" where
  "client_updater_execute e sid = finally_io (execute_client_update e sid) (remove_workdir sid)"

definition client_update_try :: "('p, 'c) client_env \<Rightarrow> update_request_v2 \<Rightarrow> ('p, unit) core_io" where
  "client_update_try e rq =
     (if \<not> ce_ca_chains_store e then throw (OTAExc CACertNotInstalled
        [''no CA chains are installed, reject any OTA update''] main_module)
      else if \<not> ce_boot_ok e then throw (no_attribute ''boot_controller'')
      else seq_io [updater_init (ce_work e) rq, client_updater_execute e (rq_session_id rq)])"

definition client_update_handler :: "update_request_v2 \<Rightarrow> exc \<Rightarrow> ('p, unit) core_io" where
  "client_update_handler rq x =
     (if is_ota_error x then seq_io [set_live SUCCESS, report_ota_status SUCCESS (rq_session_id rq)]
      else if is_exception x then
        modify_io (\<lambda>s. s\<lparr>co_flags := (co_flags s)\<lparr>request_shutdown_event := True\<rparr>\<rparr>)
      else throw x)"

text \<open>
  \<^verbatim>\<open>client_update\<close>: the wait for the upper proxy and the creation of the downloaders come before the
  \<^verbatim>\<open>try\<close>.
\<close>

definition client_update :: "('p, 'c) client_env \<Rightarrow> update_request_v2 \<Rightarrow> ('p, unit) core_io" where
  "client_update e rq =
     (if ce_downloaded_app e then ret ()
      else then_io (seq_io
        [set_live CLIENT_UPDATING, report_ota_status CLIENT_UPDATING (rq_session_id rq),
         use_upper_proxy e, create_downloader_pool e (rq_cookies_json rq)])
        (finally_io (catch_io (client_update_try e rq) (client_update_handler rq))
          (remove_workdir (rq_session_id rq))))"

section \<open>Start\<close>

definition ABORTED_STATUS_REPORT_DURATION :: real where "ABORTED_STATUS_REPORT_DURATION = 300"

text \<open>
  \<^verbatim>\<open>__init__\<close>; the result is \<^verbatim>\<open>started\<close>. Arguments: the choice of the boot controller's class, its
  construction, which gives the status files it controls, the reading of the monotonic clock and the
  loading of the active slot's version detail.
\<close>

definition client_start ::
  "('p, 'c) client_env \<Rightarrow> ('p, unit) core_io \<Rightarrow> ('p, status_control) core_io \<Rightarrow> real \<Rightarrow>
   ('p core \<Rightarrow> version_detail option) \<Rightarrow> ('p, bool) core_io" where
  "client_start e choose_controller start_controller mclock load_detail =
     then_io (modify_io (\<lambda>s. s\<lparr>co_ah := abort_handler_0, live_ota_status := INITIALIZED,
        aborted_deadline := None, co_metrics := (metrics_0 (ce_ecu_id e))\<lparr>
          enable_local_ota_proxy_cache := ce_proxy_cache e\<rparr>\<rparr>))
     (catch_io (then_io choose_controller
        (catch_io (bind_io start_controller (\<lambda>c.
           then_io (upd_metrics (\<lambda>m. m\<lparr>m_bootloader_type := bootloader_type (wk_platform (ce_work e))\<rparr>))
           (bind_io (gets_io (\<lambda>s. s)) (\<lambda>s.
             let st = get_booted_ota_status c; v = load_version c (co_boot s);
                 (ft, reason) = (case get_booted_failure_info c (co_boot s) of
                    Some i \<Rightarrow> i | None \<Rightarrow> (NO_FAILURE, ''''))
             in then_io (seq_io
               [modify_io (\<lambda>s. s\<lparr>live_ota_status := st, aborted_deadline :=
                  (if st = ABORTED then Some (mclock + ABORTED_STATUS_REPORT_DURATION) else None)\<rparr>),
                put_report (SetOTAClientMetaReport v (load_detail s)) '''',
                put_report (OTAStatusChangeReport \<lparr>new_ota_status = st, sc_failure_type = ft,
                  sc_failure_reason = reason, sc_failure_traceback = ''''\<rparr>) '''',
                upd_metrics (\<lambda>m. m\<lparr>current_firmware_version := v\<rparr>)])
               (ret True)))))
         (\<lambda>x. if is_exception x
            then (let (c, args) = (case x of OTAExc c args _ \<Rightarrow> (c, args)
                    | _ \<Rightarrow> (BootControlStartupFailed,
                        [''boot controller startup failed: '' @ exc_repr x]))
              in then_io (client_on_failure e x FAILURE (get_failure_reason c args) (failure_type_of c))
                   (ret False))
            else throw x)))
      (\<lambda>x. if is_exception x
         then (let args = [''failed to determine boot controller: '' @ exc_repr x]
           in then_io (client_on_failure e x FAILURE
                (get_failure_reason BootControlPlatformUnsupported args)
                (failure_type_of BootControlPlatformUnsupported)) (ret False))
         else throw x))"

section \<open>The main loop\<close>

definition HOLD_REQ_HANDLING_ON_ACK_REQUEST :: int where
  "HOLD_REQ_HANDLING_ON_ACK_REQUEST = 16"

definition HOLD_REQ_HANDLING_ON_ACK_CLIENT_UPDATE_REQUEST :: int where
  "HOLD_REQ_HANDLING_ON_ACK_CLIENT_UPDATE_REQUEST = 4"

definition is_busy :: "'p core \<Rightarrow> bool" where
  "is_busy s \<longleftrightarrow> live_ota_status s \<in> {UPDATING, ROLLBACKING, CLIENT_UPDATING, ABORTING}"

definition expire_aborted_status_report :: "real \<Rightarrow> 'p core \<Rightarrow> 'p core" where
  "expire_aborted_status_report now s = (case aborted_deadline s of
     None \<Rightarrow> s
   | Some d \<Rightarrow>
       if now < d then s
       else let s1 = s\<lparr>aborted_deadline := None\<rparr> in
         if live_ota_status s \<noteq> ABORTED then s1
         else s1\<lparr>live_ota_status := INITIALIZED, report_queue := report_queue s1 @
           [\<lparr>payload = OTAStatusChangeReport (status_change_of INITIALIZED),
             sr_session_id = ''''\<rparr>]\<rparr>)"

datatype thread = UpdateThread update_request_v2 | ClientUpdateThread update_request_v2

definition ipc_response_of :: "ipc_res \<Rightarrow> string \<Rightarrow> ipc_request \<Rightarrow> ipc_response" where
  "ipc_response_of r m rq = \<lparr>res = r, res_session_id = ipc_session_id rq, msg = m\<rparr>"

text \<open>
  One round of \<^verbatim>\<open>main\<close> with the wall clock \<open>now\<close>, the monotonic clock \<open>mclock\<close> and what the request queue
  yields. The result is the response put on the response queue, the thread started, the state and
  \<^verbatim>\<open>_allow_request_after\<close>. \<open>wait\<close> is what the other threads do to the state while the loop waits for the
  abort handler; \<open>busy_msg\<close> and \<open>invalid_msg\<close> are the texts of the two error messages.
\<close>

definition main_round ::
  "(ipc_request \<Rightarrow> string) \<Rightarrow> (ipc_request \<Rightarrow> string) \<Rightarrow> ('p core \<Rightarrow> 'p core) \<Rightarrow> int \<Rightarrow> real \<Rightarrow>
   ipc_request option \<Rightarrow> 'p core \<times> int \<Rightarrow>
   ipc_response option \<times> thread option \<times> 'p core \<times> int" where
  "main_round busy_msg invalid_msg wait now mclock request st =
     (let (s0, allow) = st; s = expire_aborted_status_report mclock s0 in
      case request of
        None \<Rightarrow> (None, None, s, allow)
      | Some (AbortRequestV2 rid sid) \<Rightarrow>
          (let s1 = wait (s\<lparr>co_ah := submit (AbortRequestV2 rid sid) (co_ah s)\<rparr>);
               (resp, h) = get_response (co_ah s1)
           in (Some (case resp of Some r \<Rightarrow> r
                 | None \<Rightarrow> ipc_response_of IPC_REJECT_ABORT ''abort handler did not respond in time''
                     (AbortRequestV2 rid sid)),
               None, s1\<lparr>co_ah := h\<rparr>, allow))
      | Some rq \<Rightarrow>
          if now < allow \<or> is_busy s
          then (Some (ipc_response_of IPC_REJECT_BUSY (busy_msg rq) rq), None, s, allow)
          else (case rq of
             UpdateRequestV2 u \<Rightarrow>
               (Some (ipc_response_of IPC_ACCEPT '''' rq), Some (UpdateThread u),
                s\<lparr>aborted_deadline := None\<rparr>, now + HOLD_REQ_HANDLING_ON_ACK_REQUEST)
           | ClientUpdateRequestV2 u \<Rightarrow>
               (Some (ipc_response_of IPC_ACCEPT '''' rq), Some (ClientUpdateThread u),
                s\<lparr>aborted_deadline := None\<rparr>,
                now + HOLD_REQ_HANDLING_ON_ACK_CLIENT_UPDATE_REQUEST)
           | _ \<Rightarrow> (Some (ipc_response_of IPC_REJECT_OTHER (invalid_msg rq) rq), None, s, allow)))"

section \<open>Facts\<close>

text \<open>
  The number of download threads is within the limits of the storage's rank whatever the
  number of CPUs is, and does not decrease with it.
\<close>

lemma download_threads_bounded:
  "16 \<le> map_to_download_threads L1 n \<and> map_to_download_threads L1 n \<le> 24 \<and>
   16 \<le> map_to_download_threads L2 n \<and> map_to_download_threads L2 n \<le> 20 \<and>
   8 \<le> map_to_download_threads L3 n \<and> map_to_download_threads L3 n \<le> 14 \<and>
   (\<forall>r k. 0 < n \<longrightarrow> 0 \<le> k \<longrightarrow> map_to_download_threads r n \<le> map_to_download_threads r (n + k))"
  by (auto simp: map_to_download_threads_def Let_def split: storage_rank.splits)

subsection \<open>The end of an update\<close>

text \<open>
  What \<^verbatim>\<open>sync_msg\<close> of the shared memory reader is relied on for: it only reads, and its exceptions are
  ordinary ones.
\<close>

definition sync_reads :: "('p, 'c) work \<Rightarrow> bool" where
  "sync_reads w \<longleftrightarrow> (\<forall>s. snd (sync_shm_metrics w s) = s \<and> fst (sync_shm_metrics w s) \<noteq> Inl SysExit)"

lemma is_exception_iff: "is_exception x \<longleftrightarrow> x \<noteq> SysExit"
  by (cases x) auto

lemma merge_shm_metrics_returns:
  assumes "sync_reads w"
  shows "\<exists>m. merge_shm_metrics w s = (Inr (), s\<lparr>co_metrics := m\<rparr>)"
proof -
  obtain r where r: "sync_shm_metrics w s = (r, s)" "r \<noteq> Inl SysExit"
    using assms by (metis sync_reads_def prod.collapse)
  have self: "s = s\<lparr>co_metrics := co_metrics s\<rparr>" by simp
  show ?thesis
    using r by (cases r) (auto simp: merge_shm_metrics_def ignore_exc_def io_defs upd_metrics_def
        is_exception_iff intro: self)
qed

text \<open>The \<^verbatim>\<open>finally\<close> block returns, and changes nothing but the metrics, the flags and the directory.\<close>

lemma update_finally_returns:
  assumes "sync_reads (ce_work e)"
  shows "\<exists>m l f. update_finally e rq s = (Inr (), s\<lparr>workdirs := removeAll (rq_session_id rq) (workdirs s),
    co_metrics := m, metrics_log := l, co_flags := f\<rparr>)"
proof -
  let ?s = "s\<lparr>workdirs := removeAll (rq_session_id rq) (workdirs s)\<rparr>"
  obtain m where "merge_shm_metrics (ce_work e) ?s = (Inr (), ?s\<lparr>co_metrics := m\<rparr>)"
    using merge_shm_metrics_returns [OF assms] by blast
  then show ?thesis
    by (cases s; cases "publish (log_metrics_ok (ce_work e)) m")
      (auto simp: update_finally_def io_defs remove_workdir_def publish_metrics_def
        exit_from_dynamic_client_def split: prod.splits)
qed

lemma store_failure_info_no_exit: "fst (store_failure_info c ft reason fs) \<noteq> Inl SysExit"
  by (auto simp: store_failure_info_def io_defs store_defs not_found_error_def file_in_def
      split: prod.splits option.splits if_splits)

lemma client_store_failure_info_returns:
  "\<exists>b. ignore_exc (client_store_failure_info e ft reason) s = (Inr (), s\<lparr>co_boot := b\<rparr>) \<and>
     (ce_boot_ok e \<longrightarrow>
      bs_fs b = snd (store_failure_info (wk_ctl (ce_work e)) ft reason (bs_fs (co_boot s))))"
proof (cases "ce_boot_ok e")
  case True
  let ?c = "wk_ctl (ce_work e)"
  obtain r fs where r: "store_failure_info ?c ft reason (bs_fs (co_boot s)) = (r, fs)" "r \<noteq> Inl SysExit"
    using store_failure_info_no_exit by (metis fst_conv prod.collapse)
  then show ?thesis
    using True
    by (cases r) (auto simp: client_store_failure_info_def ignore_exc_def io_defs on_boot_def
        bc_store_failure_info_def on_fs_def is_exception_iff)
next
  case False
  then show ?thesis
    by (cases s) (auto simp: client_store_failure_info_def ignore_exc_def io_defs no_attribute_def)
qed

text \<open>How the handler of \<^verbatim>\<open>update\<close> ends: with the status the exception and the abort state call for.\<close>

definition end_status :: "exc \<Rightarrow> 'p core \<Rightarrow> ota_status" where
  "end_status x s = (if is_abort_signal x \<or> aborting (co_ah s) then ABORTED else FAILURE)"

lemma update_handler_result:
  assumes "x \<noteq> SysExit"
  shows "\<exists>s' p sid. update_handler e rq x s = (Inr (), s') \<and> live_ota_status s' = end_status x s \<and>
    report_queue s' = report_queue s @ [\<lparr>payload = OTAStatusChangeReport p, sr_session_id = sid\<rparr>] \<and>
    new_ota_status p = end_status x s \<and>
    (end_status x s = FAILURE \<longrightarrow> (case as_ota_error x of (c, args) \<Rightarrow>
       sc_failure_type p = failure_type_of c \<and> sc_failure_reason p = get_failure_reason c args \<and>
       (ce_boot_ok e \<longrightarrow> bs_fs (co_boot s') = snd (store_failure_info (wk_ctl (ce_work e))
          (failure_type_of c) (get_failure_reason c args) (bs_fs (co_boot s))))))"
proof (cases "is_abort_signal x \<or> aborting (co_ah s)")
  case True
  then show ?thesis
    using assms
    by (auto simp: update_handler_def io_defs report_aborted_def set_live_def report_ota_status_def
        put_report_def status_change_of_def is_exception_iff end_status_def)
next
  case False
  obtain c args where ca: "as_ota_error x = (c, args)" by (cases "as_ota_error x")
  let ?ft = "failure_type_of c" and ?rs = "get_failure_reason c args"
  let ?p = "\<lparr>new_ota_status = FAILURE, sc_failure_type = ?ft, sc_failure_reason = ?rs,
    sc_failure_traceback = ce_traceback e x\<rparr>"
  let ?s = "s\<lparr>live_ota_status := FAILURE,
      report_queue := report_queue s @ [\<lparr>payload = OTAStatusChangeReport ?p, sr_session_id = ''''\<rparr>],
      co_metrics := (co_metrics s)\<lparr>m_failure_type := Some ?ft, m_failure_reason := ?rs,
        m_failed_status := Some FAILURE\<rparr>\<rparr>"
  obtain b where b: "ignore_exc (client_store_failure_info e ?ft ?rs) ?s = (Inr (), ?s\<lparr>co_boot := b\<rparr>)"
      "ce_boot_ok e \<longrightarrow> bs_fs b = snd (store_failure_info (wk_ctl (ce_work e)) ?ft ?rs (bs_fs (co_boot ?s)))"
    using client_store_failure_info_returns [of e ?ft ?rs ?s] by blast
  have "update_handler e rq x s = (Inr (), ?s\<lparr>co_boot := b\<rparr>)"
    using False assms ca b(1)
    by (auto simp: update_handler_def io_defs set_live_def client_on_failure_def put_report_def
        upd_metrics_def is_exception_iff)
  then show ?thesis
    using False b(2) ca by (auto simp: end_status_def)
qed


subsection \<open>The main loop\<close>

text \<open>A round, request by request.\<close>

lemma main_round_simps:
  "main_round bm im wait now mc None (s, allow) =
     (None, None, expire_aborted_status_report mc s, allow)"
  "main_round bm im wait now mc (Some (UpdateRequestV2 u)) (s, allow) =
     (if now < allow \<or> is_busy (expire_aborted_status_report mc s)
      then (Some (ipc_response_of IPC_REJECT_BUSY (bm (UpdateRequestV2 u)) (UpdateRequestV2 u)),
        None, expire_aborted_status_report mc s, allow)
      else (Some (ipc_response_of IPC_ACCEPT '''' (UpdateRequestV2 u)), Some (UpdateThread u),
        (expire_aborted_status_report mc s)\<lparr>aborted_deadline := None\<rparr>, now + 16))"
  "main_round bm im wait now mc (Some (ClientUpdateRequestV2 u)) (s, allow) =
     (if now < allow \<or> is_busy (expire_aborted_status_report mc s)
      then (Some (ipc_response_of IPC_REJECT_BUSY (bm (ClientUpdateRequestV2 u)) (ClientUpdateRequestV2 u)),
        None, expire_aborted_status_report mc s, allow)
      else (Some (ipc_response_of IPC_ACCEPT '''' (ClientUpdateRequestV2 u)), Some (ClientUpdateThread u),
        (expire_aborted_status_report mc s)\<lparr>aborted_deadline := None\<rparr>, now + 4))"
  "main_round bm im wait now mc (Some (RollbackRequestV2 rid sid)) (s, allow) =
     (if now < allow \<or> is_busy (expire_aborted_status_report mc s)
      then (Some (ipc_response_of IPC_REJECT_BUSY (bm (RollbackRequestV2 rid sid)) (RollbackRequestV2 rid sid)),
        None, expire_aborted_status_report mc s, allow)
      else (Some (ipc_response_of IPC_REJECT_OTHER (im (RollbackRequestV2 rid sid)) (RollbackRequestV2 rid sid)),
        None, expire_aborted_status_report mc s, allow))"
  by (simp_all add: main_round_def HOLD_REQ_HANDLING_ON_ACK_REQUEST_def
      HOLD_REQ_HANDLING_ON_ACK_CLIENT_UPDATE_REQUEST_def)

lemma main_round_abort:
  "\<exists>r s'. main_round bm im wait now mc (Some (AbortRequestV2 rid sid)) (s, allow) =
      (Some r, None, s', allow) \<and>
    (resp_queue (co_ah (wait ((expire_aborted_status_report mc s)\<lparr>co_ah :=
        submit (AbortRequestV2 rid sid) (co_ah (expire_aborted_status_report mc s))\<rparr>))) = [] \<longrightarrow>
     res r = IPC_REJECT_ABORT \<and> res_session_id r = sid)"
  by (auto simp: main_round_def Let_def get_response_def ipc_response_of_def split: list.splits)

text \<open>
  Every request gets exactly one response in the round that takes it off the queue. For an
  update, client update or rollback request the response carries the request's session id; it is an
  acceptance exactly when a thread is started for the request, which happens exactly for an update or
  client update that arrives when the client is not busy and the hold time after the last acceptance is
  over; a client that is busy or on hold answers BUSY. An abort request that the handler does not
  answer in time is rejected with its session id.
\<close>

lemma one_response_per_request:
  assumes "main_round bm im wait now mclock (Some rq) (s, allow) = (resp, th, s', allow')"
  shows "\<exists>r. resp = Some r \<and>
    ((\<forall>rid sid. rq \<noteq> AbortRequestV2 rid sid) \<longrightarrow>
       res_session_id r = ipc_session_id rq \<and>
       (res r = IPC_ACCEPT \<longleftrightarrow> th \<noteq> None) \<and>
       (th \<noteq> None \<longleftrightarrow> (\<exists>u. rq = UpdateRequestV2 u \<or> rq = ClientUpdateRequestV2 u) \<and>
          \<not> is_busy (expire_aborted_status_report mclock s) \<and> allow \<le> now) \<and>
       (res r = IPC_REJECT_BUSY \<longleftrightarrow> is_busy (expire_aborted_status_report mclock s) \<or> now < allow)) \<and>
    ((\<exists>rid sid. rq = AbortRequestV2 rid sid) \<and> resp_queue (co_ah (wait
        ((expire_aborted_status_report mclock s)\<lparr>co_ah :=
          submit rq (co_ah (expire_aborted_status_report mclock s))\<rparr>))) = [] \<longrightarrow>
       res r = IPC_REJECT_ABORT \<and> res_session_id r = ipc_session_id rq \<and> th = None)"
  using assms
proof (cases rq)
  case (AbortRequestV2 rid sid)
  then show ?thesis using assms main_round_abort [of bm im wait now mclock rid sid s allow] by auto
qed (use assms in \<open>auto simp: main_round_simps ipc_response_of_def split: if_splits\<close>)

text \<open>
  The main loop over a sequence of rounds. Each comes with its clocks, what the other threads do to
  the state before it and during a wait for the abort handler, and what the queue yields; the result
  lists the threads that are started, with the time of the acceptance.
\<close>

record 'p round =
  rd_now :: int
  rd_mclock :: real
  rd_others :: "'p core \<Rightarrow> 'p core"
  rd_wait :: "'p core \<Rightarrow> 'p core"
  rd_request :: "ipc_request option"

fun main_run ::
  "(ipc_request \<Rightarrow> string) \<Rightarrow> (ipc_request \<Rightarrow> string) \<Rightarrow> 'p round list \<Rightarrow> 'p core \<times> int \<Rightarrow>
   (int \<times> thread) list \<times> 'p core \<times> int" where
  "main_run bm im [] st = ([], st)"
| "main_run bm im (rd # rds) (s, allow) =
     (let (_, th, st') = main_round bm im (rd_wait rd) (rd_now rd) (rd_mclock rd) (rd_request rd)
            (rd_others rd s, allow);
          (starts, st'') = main_run bm im rds st'
      in ((case th of None \<Rightarrow> [] | Some t \<Rightarrow> [(rd_now rd, t)]) @ starts, st''))"

fun hold_time :: "thread \<Rightarrow> int" where
  "hold_time (UpdateThread _) = 16"
| "hold_time (ClientUpdateThread _) = 4"

lemma main_round_start:
  assumes "main_round bm im wait now mclock rq (s, allow) = (resp, th, s', allow')"
  shows "case th of None \<Rightarrow> allow' = allow | Some t \<Rightarrow> allow \<le> now \<and> allow' = now + hold_time t"
proof (cases rq)
  case (Some q)
  show ?thesis
  proof (cases q)
    case (AbortRequestV2 rid sid)
    then show ?thesis
      using assms Some main_round_abort [of bm im wait now mclock rid sid s allow] by auto
  qed (use assms Some in \<open>auto simp: main_round_simps split: if_splits\<close>)
qed (use assms in \<open>auto simp: main_round_simps\<close>)

lemma hold_time_pos: "0 < hold_time t"
  by (cases t) auto

lemma main_run_apart:
  "main_run bm im rds (s, allow) = (starts, st') \<Longrightarrow>
   sorted_wrt (\<lambda>a b. fst a + hold_time (snd a) \<le> fst b) starts \<and> (\<forall>a\<in>set starts. allow \<le> fst a)"
proof (induction rds arbitrary: s allow starts)
  case (Cons rd rds)
  obtain resp th s1 allow1 where r: "main_round bm im (rd_wait rd) (rd_now rd) (rd_mclock rd)
      (rd_request rd) (rd_others rd s, allow) = (resp, th, s1, allow1)"
    by (metis prod_cases4)
  obtain starts1 where run: "main_run bm im rds (s1, allow1) = (starts1, st')"
      "starts = (case th of None \<Rightarrow> [] | Some t \<Rightarrow> [(rd_now rd, t)]) @ starts1"
    using Cons.prems r by (auto split: prod.splits)
  note ih = Cons.IH [OF run(1)] and st = main_round_start [OF r]
  show ?case
  proof (cases th)
    case (Some t)
    then show ?thesis
      using ih st run(2) hold_time_pos [of t] by auto
  qed (use ih st run(2) in auto)
qed simp

text \<open>
  Starts are kept apart. In every run of the main loop, whatever the other threads do to the
  state between the rounds, an update or client update is started no earlier than the hold time (16 s
  after an update, 4 s after a client update) after every earlier start.
\<close>

lemma starts_kept_apart:
  assumes "main_run bm im rds (s, allow) = (starts, st')" and "i < j" and "j < length starts"
  shows "fst (starts ! i) + hold_time (snd (starts ! i)) \<le> fst (starts ! j)"
  using main_run_apart [OF assms(1)] assms(2,3) by (simp add: sorted_wrt_iff_nth_less)

text \<open>
  The expiry of the ABORTED status never overwrites the status of a running OTA. It changes
  the live status only from ABORTED to INITIALIZED, only after its deadline, and reports the change; a
  round that accepts an update removes the deadline, and without a deadline the expiry does nothing.
\<close>

lemma expiry_spares_running_ota:
  "(live_ota_status (expire_aborted_status_report t s) \<noteq> live_ota_status s \<longrightarrow>
      live_ota_status s = ABORTED \<and>
      live_ota_status (expire_aborted_status_report t s) = INITIALIZED \<and>
      (\<exists>d. aborted_deadline s = Some d \<and> d \<le> t) \<and>
      report_queue (expire_aborted_status_report t s) = report_queue s @
        [\<lparr>payload = OTAStatusChangeReport (status_change_of INITIALIZED), sr_session_id = ''''\<rparr>]) \<and>
   (main_round bm im wait now mclock (Some rq) (s, allow) = (resp, Some th, s', allow') \<longrightarrow>
      aborted_deadline s' = None) \<and>
   (aborted_deadline s = None \<longrightarrow> expire_aborted_status_report t s = s)"
proof (intro conjI impI)
  assume r: "main_round bm im wait now mclock (Some rq) (s, allow) = (resp, Some th, s', allow')"
  show "aborted_deadline s' = None"
  proof (cases rq)
    case (AbortRequestV2 rid sid)
    then show ?thesis using r main_round_abort [of bm im wait now mclock rid sid s allow] by auto
  qed (use r in \<open>auto simp: main_round_simps split: if_splits\<close>)
qed (auto simp: expire_aborted_status_report_def Let_def split: option.splits if_splits)

text \<open>
  A client update can leave the client busy for ever. The wait for the proxy and the check
  of the cookies come before the \<^verbatim>\<open>try\<close> of \<^verbatim>\<open>client_update\<close>: when the cookies are no JSON object, the
  method raises, the live status stays CLIENT_UPDATING, and every later update request is rejected.
\<close>

lemma client_update_can_get_stuck:
  assumes "\<not> ce_downloaded_app e" and "ce_proxy e = None" and "ce_boot_ok e"
    and "ce_json_loads e (rq_cookies_json rq) \<noteq> JK_OBJECT"
  shows "\<exists>x s'. client_update e rq s = (Inl x, s') \<and> is_exception x \<and> is_busy s' \<and>
    live_ota_status s' = CLIENT_UPDATING \<and>
    (\<forall>bm im wait now mclock allow u. \<exists>m s''. main_round bm im wait now mclock (Some (UpdateRequestV2 u)) (s', allow) =
       (Some \<lparr>res = IPC_REJECT_BUSY, res_session_id = rq_session_id u, msg = m\<rparr>, None, s'', allow))"
proof -
  let ?s = "s\<lparr>live_ota_status := CLIENT_UPDATING, report_queue := report_queue s @
      [\<lparr>payload = OTAStatusChangeReport (status_change_of CLIENT_UPDATING),
        sr_session_id = rq_session_id rq\<rparr>]\<rparr>"
  have "\<exists>x. client_update e rq s = (Inl x, ?s) \<and> is_exception x"
    using assms
    by (cases "ce_json_loads e (rq_cookies_json rq)")
      (simp_all add: client_update_def io_defs set_live_def report_ota_status_def put_report_def
        use_upper_proxy_def create_downloader_pool_def prepare_cookies_def)
  moreover have "live_ota_status (expire_aborted_status_report t ?s) = CLIENT_UPDATING" for t
    by (simp add: expire_aborted_status_report_def split: option.splits)
  ultimately show ?thesis
    by (auto simp: is_busy_def main_round_simps ipc_response_of_def)
qed

section \<open>A concrete client for the witnesses\<close>

definition ex_env :: "(unit, unit) client_env" where
  "ex_env = \<lparr>ce_work = ex_work, ce_ecu_id = ''main'', ce_proxy_cache = False, ce_boot_ok = True,
     ce_proxy = None, ce_otaproxy_start = (\<lambda>_. ret ()), ce_json_loads = (\<lambda>_. JK_INVALID),
     ce_is_image_v1 = (\<lambda>_. ret False), ce_ca_store = True, ce_ca_chains_store = True,
     ce_partition_layout = False, ce_partition_execute = (\<lambda>_. ret ()), ce_dynamic_client = False,
     ce_downloaded_app = False, ce_traceback = (\<lambda>_. ''tb''), ce_download_client = ret (),
     ce_same_client_version = ret False, ce_copy_client = ret (), ce_umount_standby = ret ()\<rparr>"

lemma ex_sync_reads: "sync_reads (ce_work ex_env)"
  by (simp add: sync_reads_def ex_env_def ex_work_def)

lemma ex_update_try:
  "update_try ex_env ex_request s = (Inl (OTAExc InvalidUpdateRequest
     [''cookie is invalid: not a valid json''] common_module), s)"
  by (simp add: update_try_def io_defs use_upper_proxy_def create_downloader_pool_def
      prepare_cookies_def ex_env_def)


end
