(* ===== verification/Abort_Protocol.thy ===== *)
theory Abort_Protocol
  imports Abort_Handler
begin

text \<open>
  The update thread and the abort handler thread, interleaved. A state holds the abort handler of
  theory \<open>Abort_Handler\<close>, the live OTA status, the place where each thread is and whether the handler
  thread holds the condition's lock across steps, which it does while it performs a deferred abort
  (\<^verbatim>\<open>_run\<close> calls \<^verbatim>\<open>_perform_abort\<close> inside \<^verbatim>\<open>with self._cond\<close>). A step is one locked section or one access
  to the shared state of \<^verbatim>\<open>OTAClient.update\<close>, \<^verbatim>\<open>OTAUpdaterBase.execute\<close> or \<^verbatim>\<open>AbortHandler\<close>; the work of the
  update itself may succeed or fail at any time. \<open>events\<close> records, since the last \<^verbatim>\<open>set_session\<close>, the calls
  to the boot controller and the accepted aborts; \<open>overlap\<close> says that a session was ever started while
  an abort was requested or in progress.
\<close>

section \<open>States and steps\<close>

text \<open>
  Where the update thread is: \<open>U_UPDATING\<close> is the work up to the critical zone, \<open>U_ERROR\<close> the handler of
  an error in \<^verbatim>\<open>execute\<close>, \<open>U_FAILING\<close> after its check of the abort state, \<open>U_RAISED\<close> the handler of that
  error in \<^verbatim>\<open>update\<close>, \<open>U_SIGNAL\<close> the abort signal on its way to \<^verbatim>\<open>update\<close>, \<open>U_STORE\<close> after the live
  status was set to FAILURE.
\<close>

datatype upd_pc = U_IDLE | U_SPAWNED | U_SESSION | U_UPDATING | U_CRITICAL | U_IN_UPDATE
  | U_FINAL | U_REBOOT | U_ERROR | U_FAILING | U_RAISED | U_SIGNAL | U_STORE

text \<open>
  Where the handler thread is: \<open>H_CHECK\<close> is the locked loop of \<^verbatim>\<open>_run\<close> after a request was handled,
  the next four are the statements of \<^verbatim>\<open>_perform_abort\<close>.
\<close>

datatype hdl_pc = H_GET | H_CHECK | H_REPORT | H_ON_ABORT | H_SET_ABORTED | H_KILL | H_DEAD

datatype event = EvPreUpdate | EvPostUpdate | EvOnFailure | EvStoreFailure | EvAccept | EvOnAbort

record proto =
  ps_ah :: abort_handler
  ps_live :: ota_status
  ps_upd :: upd_pc
  ps_hdl :: hdl_pc
  ps_locked :: bool
  events :: "event list"
  overlap :: bool
  killed :: bool

definition proto_init :: "proto \<Rightarrow> bool" where
  "proto_init s \<longleftrightarrow> ps_ah s = abort_handler_0 \<and> ps_live s \<notin> {UPDATING, ROLLBACKING, CLIENT_UPDATING, ABORTING} \<and>
     ps_upd s = U_IDLE \<and> ps_hdl s = H_GET \<and> \<not> ps_locked s \<and> events s = [] \<and>
     \<not> overlap s \<and> \<not> killed s"

definition busy_status :: "ota_status \<Rightarrow> bool" where
  "busy_status st \<longleftrightarrow> st \<in> {UPDATING, ROLLBACKING, CLIENT_UPDATING, ABORTING}"

text \<open>A zone operation of the updater: where it goes on when it returns and when it raises.\<close>

definition zone_step :: "unit ah_io \<Rightarrow> upd_pc \<Rightarrow> proto \<Rightarrow> proto" where
  "zone_step m pc s = (case m (ps_ah s) of
     (Inr _, h) \<Rightarrow> s\<lparr>ps_ah := h, ps_upd := pc\<rparr>
   | (Inl _, h) \<Rightarrow> s\<lparr>ps_ah := h, ps_upd := U_SIGNAL\<rparr>)"

definition log_event :: "event \<Rightarrow> proto \<Rightarrow> proto" where
  "log_event ev s = s\<lparr>events := events s @ [ev]\<rparr>"

text \<open>The steps of the update thread. \<^verbatim>\<open>pre_update\<close> of the boot controller runs in \<open>U_CRITICAL\<close>.\<close>

inductive upd_step :: "proto \<Rightarrow> proto \<Rightarrow> bool" where
  spawn: "ps_upd s = U_IDLE \<Longrightarrow> \<not> busy_status (ps_live s) \<Longrightarrow> upd_step s (s\<lparr>ps_upd := U_SPAWNED\<rparr>)"
| session: "ps_upd s = U_SPAWNED \<Longrightarrow> \<not> ps_locked s \<Longrightarrow>
    upd_step s (s\<lparr>ps_ah := snd (set_session sid (ps_ah s)), ps_upd := U_SESSION, events := [],
      overlap := (overlap s \<or> ah_state (ps_ah s) \<in> {AS_REQUESTED, AS_ABORTING, AS_ABORTED})\<rparr>)"
| updating: "ps_upd s = U_SESSION \<Longrightarrow> upd_step s (s\<lparr>ps_live := UPDATING, ps_upd := U_UPDATING\<rparr>)"
| early_error: "ps_upd s = U_UPDATING \<Longrightarrow> upd_step s (s\<lparr>ps_upd := U_RAISED\<rparr>)"
| metadata_error: "ps_upd s = U_UPDATING \<Longrightarrow> upd_step s (s\<lparr>ps_upd := U_ERROR\<rparr>)"
| enter_zone: "ps_upd s = U_UPDATING \<Longrightarrow> \<not> ps_locked s \<Longrightarrow>
    upd_step s (zone_step enter_critical_zone U_CRITICAL s)"
| pre_update: "ps_upd s = U_CRITICAL \<Longrightarrow> upd_step s (log_event EvPreUpdate s)"
| leave_zone: "ps_upd s = U_CRITICAL \<Longrightarrow> \<not> ps_locked s \<Longrightarrow>
    upd_step s (zone_step exit_critical_zone U_IN_UPDATE s)"
| leave_zone_error: "ps_upd s = U_CRITICAL \<Longrightarrow> \<not> ps_locked s \<Longrightarrow>
    upd_step s (zone_step exit_critical_zone U_ERROR s)"
| in_update_error: "ps_upd s = U_IN_UPDATE \<Longrightarrow> upd_step s (s\<lparr>ps_upd := U_ERROR\<rparr>)"
| final_phase: "ps_upd s = U_IN_UPDATE \<Longrightarrow> \<not> ps_locked s \<Longrightarrow>
    upd_step s (zone_step enter_final_phase U_FINAL s)"
| post_update: "ps_upd s = U_FINAL \<Longrightarrow> upd_step s (log_event EvPostUpdate s)"
| reboot: "ps_upd s = U_FINAL \<Longrightarrow> upd_step s (s\<lparr>ps_upd := U_REBOOT\<rparr>)"
| final_error: "ps_upd s = U_FINAL \<Longrightarrow> upd_step s (s\<lparr>ps_upd := U_ERROR\<rparr>)"
| error_check: "ps_upd s = U_ERROR \<Longrightarrow> \<not> ps_locked s \<Longrightarrow>
    upd_step s (s\<lparr>ps_upd := (if aborting (ps_ah s) then U_SIGNAL else U_FAILING)\<rparr>)"
| on_failure: "ps_upd s = U_FAILING \<Longrightarrow> upd_step s (log_event EvOnFailure (s\<lparr>ps_upd := U_RAISED\<rparr>))"
| raised_abort: "ps_upd s = U_RAISED \<Longrightarrow> \<not> ps_locked s \<Longrightarrow> aborting (ps_ah s) \<Longrightarrow>
    upd_step s (s\<lparr>ps_live := ABORTED, ps_upd := U_IDLE\<rparr>)"
| raised_failure: "ps_upd s = U_RAISED \<Longrightarrow> \<not> ps_locked s \<Longrightarrow> \<not> aborting (ps_ah s) \<Longrightarrow>
    upd_step s (s\<lparr>ps_live := FAILURE, ps_upd := U_STORE\<rparr>)"
| store_failure: "ps_upd s = U_STORE \<Longrightarrow> upd_step s (log_event EvStoreFailure (s\<lparr>ps_upd := U_IDLE\<rparr>))"
| signal: "ps_upd s = U_SIGNAL \<Longrightarrow> upd_step s (s\<lparr>ps_live := ABORTED, ps_upd := U_IDLE\<rparr>)"

text \<open>
  The steps of the handler thread, and of the main loop that submits requests to it. \<^verbatim>\<open>on_abort\<close> of the
  boot controller may raise, which ends the handler thread and releases its lock.
\<close>

inductive hdl_step :: "proto \<Rightarrow> proto \<Rightarrow> bool" where
  request: "hdl_step s (s\<lparr>ps_ah := submit (AbortRequestV2 rid sid) (ps_ah s)\<rparr>)"
| handle_reject: "ps_hdl s = H_GET \<Longrightarrow> \<not> ps_locked s \<Longrightarrow>
    run_handle (ps_live s) (ps_ah s) = Some (False, h) \<Longrightarrow>
    \<not> (ps_live s = UPDATING \<and> ah_state h = AS_REQUESTED) \<Longrightarrow>
    hdl_step s (s\<lparr>ps_ah := h, ps_hdl := H_CHECK\<rparr>)"
| handle_queue: "ps_hdl s = H_GET \<Longrightarrow> \<not> ps_locked s \<Longrightarrow>
    run_handle (ps_live s) (ps_ah s) = Some (False, h) \<Longrightarrow>
    ps_live s = UPDATING \<Longrightarrow> ah_state h = AS_REQUESTED \<Longrightarrow>
    hdl_step s (log_event EvAccept (s\<lparr>ps_ah := h, ps_hdl := H_CHECK\<rparr>))"
| handle_now: "ps_hdl s = H_GET \<Longrightarrow> \<not> ps_locked s \<Longrightarrow>
    run_handle (ps_live s) (ps_ah s) = Some (True, h) \<Longrightarrow>
    hdl_step s (log_event EvAccept (s\<lparr>ps_ah := h, ps_hdl := H_REPORT\<rparr>))"
| check_aborting: "ps_hdl s = H_CHECK \<Longrightarrow> \<not> ps_locked s \<Longrightarrow> ah_state (ps_ah s) = AS_ABORTING \<Longrightarrow>
    hdl_step s (s\<lparr>ps_hdl := H_REPORT, ps_locked := True\<rparr>)"
| check_done: "ps_hdl s = H_CHECK \<Longrightarrow> \<not> ps_locked s \<Longrightarrow>
    ah_state (ps_ah s) \<notin> {AS_REQUESTED, AS_ABORTING} \<Longrightarrow> hdl_step s (s\<lparr>ps_hdl := H_GET\<rparr>)"
| report: "ps_hdl s = H_REPORT \<Longrightarrow> hdl_step s (s\<lparr>ps_hdl := H_ON_ABORT\<rparr>)"
| on_abort: "ps_hdl s = H_ON_ABORT \<Longrightarrow> hdl_step s (log_event EvOnAbort (s\<lparr>ps_hdl := H_SET_ABORTED\<rparr>))"
| on_abort_raises: "ps_hdl s = H_ON_ABORT \<Longrightarrow> hdl_step s (s\<lparr>ps_hdl := H_DEAD, ps_locked := False\<rparr>)"
| set_aborted: "ps_hdl s = H_SET_ABORTED \<Longrightarrow>
    hdl_step s (s\<lparr>ps_ah := set_aborted (ps_ah s), ps_hdl := H_KILL\<rparr>)"
| kill: "ps_hdl s = H_KILL \<Longrightarrow> hdl_step s (s\<lparr>killed := True\<rparr>)"

inductive proto_step :: "proto \<Rightarrow> proto \<Rightarrow> bool" where
  by_updater: "\<not> killed s \<Longrightarrow> upd_step s s' \<Longrightarrow> proto_step s s'"
| by_handler: "\<not> killed s \<Longrightarrow> hdl_step s s' \<Longrightarrow> proto_step s s'"

abbreviation proto_reachable :: "proto \<Rightarrow> bool" where
  "proto_reachable \<equiv> reachable proto_init proto_step"

section \<open>The invariant\<close>

text \<open>What the place of the update thread says of the abort state and of the live status.\<close>

fun upd_inv :: "upd_pc \<Rightarrow> abort_state \<Rightarrow> ota_status \<Rightarrow> bool" where
  "upd_inv U_SESSION st live = (st = AS_NONE \<and> live \<noteq> UPDATING)"
| "upd_inv U_UPDATING st live = (st \<in> {AS_NONE, AS_ABORTING, AS_ABORTED} \<and> live = UPDATING)"
| "upd_inv U_CRITICAL st live = (st \<in> {AS_CRITICAL_ZONE, AS_REQUESTED} \<and> live = UPDATING)"
| "upd_inv U_IN_UPDATE st live = (st \<in> {AS_NONE, AS_ABORTING, AS_ABORTED} \<and> live = UPDATING)"
| "upd_inv U_FINAL st live = (st = AS_FINAL_PHASE \<and> live = UPDATING)"
| "upd_inv U_REBOOT st live = (st = AS_FINAL_PHASE \<and> live = UPDATING)"
| "upd_inv U_SIGNAL st live = (st \<in> {AS_ABORTING, AS_ABORTED} \<and> live = UPDATING)"
| "upd_inv pc st live = (st \<notin> {AS_CRITICAL_ZONE, AS_REQUESTED} \<and>
     (pc \<in> {U_ERROR, U_FAILING, U_RAISED} \<longleftrightarrow> live = UPDATING))"

text \<open>What the place of the handler thread says of the abort state and of the lock.\<close>

fun hdl_inv :: "hdl_pc \<Rightarrow> abort_state \<Rightarrow> bool \<Rightarrow> bool" where
  "hdl_inv H_GET st lk = (st \<in> {AS_NONE, AS_CRITICAL_ZONE, AS_FINAL_PHASE} \<and> \<not> lk)"
| "hdl_inv H_CHECK st lk = (st \<noteq> AS_ABORTED \<and> \<not> lk)"
| "hdl_inv H_KILL st lk = (st = AS_ABORTED)"
| "hdl_inv H_DEAD st lk = (st = AS_ABORTING \<and> \<not> lk)"
| "hdl_inv _ st lk = (st = AS_ABORTING)"

definition ev_inv :: "proto \<Rightarrow> bool" where
  "ev_inv s \<longleftrightarrow>
     (EvAccept \<in> set (events s) \<longleftrightarrow> ah_state (ps_ah s) \<in> {AS_REQUESTED, AS_ABORTING, AS_ABORTED}) \<and>
     (EvPostUpdate \<in> set (events s) \<longrightarrow> ah_state (ps_ah s) = AS_FINAL_PHASE) \<and>
     (EvOnAbort \<in> set (events s) \<longleftrightarrow> ps_hdl s \<in> {H_SET_ABORTED, H_KILL})"

definition proto_inv :: "proto \<Rightarrow> bool" where
  "proto_inv s \<longleftrightarrow> overlap s \<or>
     (upd_inv (ps_upd s) (ah_state (ps_ah s)) (ps_live s) \<and>
      hdl_inv (ps_hdl s) (ah_state (ps_ah s)) (ps_locked s) \<and> ev_inv s)"

lemmas proto_op_defs = set_session_def submit_def set_aborted_def handle_def run_handle_def
  zone_op_defs zone_step_def log_event_def abort_handler_0_def

lemma upd_step_overlap: "upd_step s s' \<Longrightarrow> overlap s \<Longrightarrow> overlap s'"
  by (induction rule: upd_step.induct) (auto simp: zone_step_def log_event_def split: sum.splits prod.splits)

lemma hdl_step_overlap: "hdl_step s s' \<Longrightarrow> overlap s' = overlap s"
  by (induction rule: hdl_step.induct) (auto simp: log_event_def)

lemma proto_inv_I:
  "upd_inv (ps_upd s) (ah_state (ps_ah s)) (ps_live s) \<Longrightarrow>
   hdl_inv (ps_hdl s) (ah_state (ps_ah s)) (ps_locked s) \<Longrightarrow> ev_inv s \<Longrightarrow> proto_inv s"
  by (simp add: proto_inv_def)

lemma abort_state_idle_iff:
  "st \<notin> {AS_REQUESTED, AS_ABORTING, AS_ABORTED} \<longleftrightarrow> st \<in> {AS_NONE, AS_CRITICAL_ZONE, AS_FINAL_PHASE}"
  by (cases st) auto

lemma upd_inv_request: "upd_inv pc AS_CRITICAL_ZONE live \<Longrightarrow> upd_inv pc AS_REQUESTED live"
  by (cases pc) auto

lemma upd_inv_accept: "upd_inv pc AS_NONE UPDATING \<Longrightarrow> upd_inv pc AS_ABORTING UPDATING"
  by (cases pc) auto

lemma upd_inv_aborted: "upd_inv pc AS_ABORTING live \<Longrightarrow> upd_inv pc AS_ABORTED live"
  by (cases pc) auto

lemma hdl_inv_idle:
  "hdl_inv pc st lk \<Longrightarrow> st \<notin> {AS_REQUESTED, AS_ABORTING, AS_ABORTED} \<Longrightarrow>
   st' \<notin> {AS_REQUESTED, AS_ABORTING, AS_ABORTED} \<Longrightarrow> hdl_inv pc st' lk"
  by (cases pc; cases st; cases st') auto

lemma hdl_inv_requested: "hdl_inv pc AS_REQUESTED lk \<Longrightarrow> hdl_inv pc AS_ABORTING lk"
  by (cases pc) auto

text \<open>A zone transition that is not refused moves between the states with no abort.\<close>

lemma zone_step_inv:
  assumes inv: "proto_inv s" and s': "s' = zone_step m pc s" and nov: "\<not> overlap s"
    and ok: "\<And>h. m (ps_ah s) = (Inr (), h) \<Longrightarrow>
      ah_state (ps_ah s) \<notin> {AS_REQUESTED, AS_ABORTING, AS_ABORTED} \<and>
      ah_state h \<notin> {AS_REQUESTED, AS_ABORTING, AS_ABORTED} \<and> upd_inv pc (ah_state h) (ps_live s) \<and>
      (EvPostUpdate \<notin> set (events s))"
    and sig: "\<And>e h. m (ps_ah s) = (Inl e, h) \<Longrightarrow> ps_live s = UPDATING \<and>
      (h = ps_ah s \<and> aborting h \<or>
       ah_state (ps_ah s) = AS_REQUESTED \<and> h = (ps_ah s)\<lparr>ah_state := AS_ABORTING\<rparr>)"
  shows "proto_inv s'"
proof -
  have h: "hdl_inv (ps_hdl s) (ah_state (ps_ah s)) (ps_locked s)" and e: "ev_inv s"
    using inv nov by (auto simp: proto_inv_def)
  obtain r h' where m: "m (ps_ah s) = (r, h')" by (cases "m (ps_ah s)")
  show ?thesis
  proof (cases r)
    case (Inr u)
    then have "m (ps_ah s) = (Inr (), h')" using m by simp
    note ok' = ok [OF this]
    have "hdl_inv (ps_hdl s) (ah_state h') (ps_locked s)"
      using ok' by (auto intro: hdl_inv_idle [OF h])
    then show ?thesis
      using ok' e m Inr unfolding s' zone_step_def
      by (auto simp: proto_inv_def ev_inv_def)
  next
    case (Inl x)
    then show ?thesis
      using sig [of x h'] e h m unfolding s' zone_step_def
      by (auto simp: proto_inv_def ev_inv_def aborting_def intro: hdl_inv_requested)
  qed
qed

lemma upd_step_inv:
  assumes "upd_step s s'" and "proto_inv s"
  shows "proto_inv s'"
proof (cases "overlap s")
  case True
  then show ?thesis using upd_step_overlap [OF assms(1)] by (simp add: proto_inv_def)
next
  case nov: False
  have u: "upd_inv (ps_upd s) (ah_state (ps_ah s)) (ps_live s)"
    and h: "hdl_inv (ps_hdl s) (ah_state (ps_ah s)) (ps_locked s)" and e: "ev_inv s"
    using assms(2) nov by (auto simp: proto_inv_def)
  show ?thesis
    using assms(1)
  proof (cases rule: upd_step.cases)
    case (session sid)
    show ?thesis
    proof (cases "ah_state (ps_ah s) \<in> {AS_REQUESTED, AS_ABORTING, AS_ABORTED}")
      case False
      then have "hdl_inv (ps_hdl s) AS_NONE (ps_locked s)"
        using hdl_inv_idle [OF h] by simp
      then show ?thesis
        using session u e False by (auto simp: proto_inv_def ev_inv_def set_session_def)
    qed (simp add: session proto_inv_def)
  next
    case enter_zone
    show ?thesis
      by (rule zone_step_inv [OF assms(2) enter_zone(1) nov])
        (use enter_zone u e in \<open>auto simp: zone_op_defs ev_inv_def split: if_splits\<close>)
  next
    case leave_zone
    show ?thesis
      by (rule zone_step_inv [OF assms(2) leave_zone(1) nov])
        (use leave_zone u e in \<open>auto simp: zone_op_defs ev_inv_def split: if_splits\<close>)
  next
    case leave_zone_error
    show ?thesis
      by (rule zone_step_inv [OF assms(2) leave_zone_error(1) nov])
        (use leave_zone_error u e in \<open>auto simp: zone_op_defs ev_inv_def split: if_splits\<close>)
  next
    case final_phase
    show ?thesis
      by (rule zone_step_inv [OF assms(2) final_phase(1) nov])
        (use final_phase u e in \<open>auto simp: zone_op_defs ev_inv_def split: if_splits\<close>)
  next
    case error_check
    then show ?thesis using u h e by (auto simp: proto_inv_def ev_inv_def aborting_def)
  qed (use u h e in \<open>auto simp: proto_inv_def ev_inv_def log_event_def aborting_def busy_status_def\<close>)
qed

lemma run_handle_cases:
  assumes "run_handle live h = Some (b, h')" and "ah_state h \<notin> {AS_REQUESTED, AS_ABORTING, AS_ABORTED}"
  shows "b \<and> live = UPDATING \<and> ah_state h = AS_NONE \<and> ah_state h' = AS_ABORTING \<or>
     \<not> b \<and> live = UPDATING \<and> ah_state h = AS_CRITICAL_ZONE \<and> ah_state h' = AS_REQUESTED \<or>
     \<not> b \<and> ah_state h' = ah_state h"
  using assms by (cases "ah_state h") (auto simp: run_handle_def handle_def split: list.splits if_splits)

lemma hdl_step_inv:
  assumes "hdl_step s s'" and "proto_inv s"
  shows "proto_inv s'"
proof (cases "overlap s")
  case True
  then show ?thesis using hdl_step_overlap [OF assms(1)] by (simp add: proto_inv_def)
next
  case nov: False
  have u: "upd_inv (ps_upd s) (ah_state (ps_ah s)) (ps_live s)"
    and h: "hdl_inv (ps_hdl s) (ah_state (ps_ah s)) (ps_locked s)" and e: "ev_inv s"
    using assms(2) nov by (auto simp: proto_inv_def)
  have idle: "ps_hdl s = H_GET \<Longrightarrow> ah_state (ps_ah s) \<notin> {AS_REQUESTED, AS_ABORTING, AS_ABORTED}"
    using h by auto
  show ?thesis
    using assms(1)
  proof (cases rule: hdl_step.cases)
    case (handle_reject h')
    then show ?thesis
      using run_handle_cases [OF handle_reject(4) idle [OF handle_reject(2)]] u h e
      by (auto simp: proto_inv_def ev_inv_def)
  next
    case (handle_queue h')
    then show ?thesis
      using run_handle_cases [OF handle_queue(4) idle [OF handle_queue(2)]] u h e
      by (auto simp: proto_inv_def ev_inv_def log_event_def intro: upd_inv_request)
  next
    case (handle_now h')
    then show ?thesis
      using run_handle_cases [OF handle_now(4) idle [OF handle_now(2)]] u h e
      by (auto simp: proto_inv_def ev_inv_def log_event_def intro: upd_inv_accept)
  next
    case check_done
    then show ?thesis
      using u h e abort_state_idle_iff [of "ah_state (ps_ah s)"]
      by (auto simp: proto_inv_def ev_inv_def)
  next
    case set_aborted
    then show ?thesis
      using u h e by (auto simp: proto_inv_def ev_inv_def set_aborted_def intro: upd_inv_aborted)
  qed (use u h e in \<open>auto simp: proto_inv_def ev_inv_def log_event_def submit_def\<close>)
qed

lemma proto_step_inv: "proto_inv s \<Longrightarrow> proto_step s s' \<Longrightarrow> proto_inv s'"
  by (auto elim!: proto_step.cases intro: upd_step_inv hdl_step_inv)

lemma proto_init_inv: "proto_init s \<Longrightarrow> proto_inv s"
  by (auto simp: proto_init_def proto_inv_def ev_inv_def abort_handler_0_def)

interpretation pr: step_invariant proto_init proto_step proto_inv
  by unfold_locales (auto intro: proto_init_inv proto_step_inv)

section \<open>What the protocol guarantees\<close>

text \<open>
  C2: an accepted abort and the final phase exclude each other, in every interleaving of the two
  threads in which no session was started while an abort was under way. An abort was accepted in the
  current session exactly when the handler's state says REQUESTED, ABORTING or ABORTED; then the
  post-update is not run in this session, before or after, and neither the final phase nor the reboot
  is reached; and the slot is marked ABORTED only after an acceptance and never while the pre-update is
  running in the critical zone.
\<close>

theorem abort_excludes_final_phase:
  assumes "proto_reachable s" and "\<not> overlap s"
  shows "(EvAccept \<in> set (events s) \<longleftrightarrow>
       ah_state (ps_ah s) \<in> {AS_REQUESTED, AS_ABORTING, AS_ABORTED}) \<and>
    (EvAccept \<in> set (events s) \<longrightarrow>
       EvPostUpdate \<notin> set (events s) \<and> ps_upd s \<notin> {U_FINAL, U_REBOOT}) \<and>
    (EvOnAbort \<in> set (events s) \<longrightarrow> EvAccept \<in> set (events s) \<and> ps_upd s \<noteq> U_CRITICAL)"
  using pr.inv_reachable [OF assms(1)] assms(2)
  by (cases "ps_upd s"; cases "ps_hdl s") (auto simp: proto_inv_def ev_inv_def)

text \<open>
  The handler thread takes the next request only when no abort is requested or in progress,
  so a second abort request is never answered with the acceptance the code has for it: it is not
  answered by the handler at all while the first one is under way.
\<close>

lemma no_request_handled_during_abort:
  assumes "proto_reachable s" and "\<not> overlap s" and "ps_hdl s = H_GET"
  shows "ah_state (ps_ah s) \<notin> {AS_REQUESTED, AS_ABORTING, AS_ABORTED} \<and> \<not> ps_locked s"
  using pr.inv_reachable [OF assms(1)] assms(2,3) by (auto simp: proto_inv_def)

lemma by_handler_steps: "\<not> killed s \<Longrightarrow> hdl_step s s' \<Longrightarrow> proto_step\<^sup>*\<^sup>* s' t \<Longrightarrow> proto_step\<^sup>*\<^sup>* s t"
  by (meson by_handler converse_rtranclp_into_rtranclp)

lemma by_updater_steps: "\<not> killed s \<Longrightarrow> upd_step s s' \<Longrightarrow> proto_step\<^sup>*\<^sup>* s' t \<Longrightarrow> proto_step\<^sup>*\<^sup>* s t"
  by (meson by_updater converse_rtranclp_into_rtranclp)

lemma finish_kill:
  "ps_hdl s = H_KILL \<Longrightarrow> \<not> killed s \<Longrightarrow>
   \<exists>t. proto_step\<^sup>*\<^sup>* s t \<and> killed t \<and> events t = events s \<and> ah_state (ps_ah t) = ah_state (ps_ah s)"
  by (rule exI [of _ "s\<lparr>killed := True\<rparr>"]) (auto intro: by_handler hdl_step.kill)

lemma finish_set_aborted:
  assumes "ps_hdl s = H_SET_ABORTED" and "\<not> killed s"
  shows "\<exists>t. proto_step\<^sup>*\<^sup>* s t \<and> killed t \<and> events t = events s \<and> ah_state (ps_ah t) = AS_ABORTED"
  using finish_kill [of "s\<lparr>ps_ah := set_aborted (ps_ah s), ps_hdl := H_KILL\<rparr>"] assms
  by (auto simp: set_aborted_def dest: by_handler_steps [OF assms(2) hdl_step.set_aborted [OF assms(1)], unfolded set_aborted_def])

lemma finish_on_abort:
  assumes "ps_hdl s = H_ON_ABORT" and "\<not> killed s"
  shows "\<exists>t. proto_step\<^sup>*\<^sup>* s t \<and> killed t \<and> EvOnAbort \<in> set (events t) \<and> ah_state (ps_ah t) = AS_ABORTED"
proof -
  let ?s = "log_event EvOnAbort (s\<lparr>ps_hdl := H_SET_ABORTED\<rparr>)"
  obtain t where "proto_step\<^sup>*\<^sup>* ?s t" "killed t" "events t = events ?s" "ah_state (ps_ah t) = AS_ABORTED"
    using finish_set_aborted [of ?s] assms(2) by (auto simp: log_event_def)
  then show ?thesis
    using by_handler_steps [OF assms(2) hdl_step.on_abort [OF assms(1)]]
    by (intro exI [of _ t]) (simp add: log_event_def)
qed

lemma finish_report:
  assumes "ps_hdl s = H_REPORT" and "\<not> killed s"
  shows "\<exists>t. proto_step\<^sup>*\<^sup>* s t \<and> killed t \<and> EvOnAbort \<in> set (events t) \<and> ah_state (ps_ah t) = AS_ABORTED"
  using finish_on_abort [of "s\<lparr>ps_hdl := H_ON_ABORT\<rparr>"] assms(2)
    by_handler_steps [OF assms(2) hdl_step.report [OF assms(1)]] by auto

lemma finish_check_aborting:
  assumes "ps_hdl s = H_CHECK" and "ah_state (ps_ah s) = AS_ABORTING" and "\<not> ps_locked s" and "\<not> killed s"
  shows "\<exists>t. proto_step\<^sup>*\<^sup>* s t \<and> killed t \<and> EvOnAbort \<in> set (events t) \<and> ah_state (ps_ah t) = AS_ABORTED"
  using finish_report [of "s\<lparr>ps_hdl := H_REPORT, ps_locked := True\<rparr>"] assms(4)
    by_handler_steps [OF assms(4) hdl_step.check_aborting [OF assms(1,3,2)]] by auto

lemma finish_check_requested:
  assumes "ps_hdl s = H_CHECK" and "ah_state (ps_ah s) = AS_REQUESTED" and "\<not> ps_locked s" and "\<not> killed s"
    and "ps_upd s = U_CRITICAL"
  shows "\<exists>t. proto_step\<^sup>*\<^sup>* s t \<and> killed t \<and> EvOnAbort \<in> set (events t) \<and> ah_state (ps_ah t) = AS_ABORTED"
proof -
  let ?s = "zone_step exit_critical_zone U_IN_UPDATE s"
  have "\<exists>t. proto_step\<^sup>*\<^sup>* ?s t \<and> killed t \<and> EvOnAbort \<in> set (events t) \<and> ah_state (ps_ah t) = AS_ABORTED"
    using assms by (intro finish_check_aborting) (simp_all add: zone_step_def exit_critical_zone_def)
  then show ?thesis
    using by_updater_steps [OF assms(4) upd_step.leave_zone [OF assms(5,3)]] by blast
qed


section \<open>Runs\<close>

definition ex_p0 :: proto where
  "ex_p0 = \<lparr>ps_ah = abort_handler_0, ps_live = SUCCESS, ps_upd = U_IDLE, ps_hdl = H_GET,
     ps_locked = False, events = [], overlap = False, killed = False\<rparr>"

definition ex_p1 :: proto where
  "ex_p1 = ex_p0\<lparr>ps_ah := snd (set_session ''s'' abort_handler_0), ps_live := UPDATING,
     ps_upd := U_UPDATING\<rparr>"

text \<open>An abort request comes in and is accepted at once, with the updater at place \<open>pc\<close>.\<close>

definition accepted_at :: "upd_pc \<Rightarrow> proto" where
  "accepted_at pc = log_event EvAccept (ex_p1\<lparr>ps_upd := pc, ps_hdl := H_REPORT,
     ps_ah := snd (handle UPDATING (AbortRequestV2 ''r'' ''a'') (ps_ah ex_p1))\<rparr>)"

lemma reach_upd: "proto_reachable s \<Longrightarrow> \<not> killed s \<Longrightarrow> upd_step s s' \<Longrightarrow> proto_reachable s'"
  by (blast intro: reach_step by_updater)

lemma reach_hdl: "proto_reachable s \<Longrightarrow> \<not> killed s \<Longrightarrow> hdl_step s s' \<Longrightarrow> proto_reachable s'"
  by (blast intro: reach_step by_handler)

lemma reach_ex_p0: "proto_reachable ex_p0"
  by (rule reach_init) (simp add: proto_init_def ex_p0_def)

lemma reach_ex_p1: "proto_reachable ex_p1"
proof -
  have "proto_reachable (ex_p0\<lparr>ps_upd := U_SPAWNED\<rparr>)"
    by (rule reach_upd [OF reach_ex_p0 _ spawn]) (simp_all add: ex_p0_def busy_status_def)
  from reach_upd [OF this _ session [where sid = "''s''"]]
  have "proto_reachable (ex_p0\<lparr>ps_ah := snd (set_session ''s'' abort_handler_0), ps_upd := U_SESSION\<rparr>)"
    by (simp add: ex_p0_def abort_handler_0_def)
  from reach_upd [OF this _ updating] show ?thesis
    by (simp add: ex_p0_def ex_p1_def)
qed

lemma reach_accepted:
  assumes "proto_reachable (ex_p1\<lparr>ps_upd := pc\<rparr>)"
  shows "proto_reachable (accepted_at pc)"
proof -
  let ?s = "ex_p1\<lparr>ps_upd := pc, ps_ah := submit (AbortRequestV2 ''r'' ''a'') (ps_ah ex_p1)\<rparr>"
  have "proto_reachable ?s"
    using reach_hdl [OF assms _ request [where rid = "''r''" and sid = "''a''"]]
    by (simp add: ex_p1_def ex_p0_def)
  moreover have "run_handle (ps_live ?s) (ps_ah ?s) =
      Some (True, snd (handle UPDATING (AbortRequestV2 ''r'' ''a'') (ps_ah ex_p1)))"
    by (simp add: run_handle_def submit_def ex_p1_def set_session_def abort_handler_0_def handle_def
        respond_def ex_p0_def)
  ultimately show ?thesis
    using reach_hdl [OF _ _ handle_now, of ?s]
    by (simp add: accepted_at_def log_event_def ex_p1_def ex_p0_def)
qed

lemmas ex_run_defs = accepted_at_def log_event_def ex_p1_def ex_p0_def handle_def respond_def
  set_session_def abort_handler_0_def

lemma ex_accepted_now: "proto_reachable (accepted_at U_UPDATING)"
proof -
  have "ex_p1\<lparr>ps_upd := U_UPDATING\<rparr> = ex_p1" by (simp add: ex_p1_def)
  then show ?thesis using reach_accepted [of U_UPDATING] reach_ex_p1 by simp
qed

theorem abort_excludes_final_phase_witness:
  "proto_reachable (accepted_at U_UPDATING) \<and> EvAccept \<in> set (events (accepted_at U_UPDATING)) \<and>
   EvPostUpdate \<notin> set (events (accepted_at U_UPDATING))"
  using abort_excludes_final_phase [OF ex_accepted_now] ex_accepted_now
  by (simp add: ex_run_defs)


text \<open>
  The check of the abort state in the error handler of the updater and the call that marks
  the slots are not atomic. There is a run of one session in which an error of the update is found with
  no abort in progress, the abort is then accepted and marks the slot ABORTED, and the updater marks it
  FAILURE afterwards: an accepted abort whose outcome on disk is a failure.
\<close>

lemma failure_can_overwrite_abort:
  "\<exists>s. proto_reachable s \<and> \<not> overlap s \<and> events s = [EvAccept, EvOnAbort, EvOnFailure]"
proof -
  have "proto_reachable (ex_p1\<lparr>ps_upd := U_ERROR\<rparr>)"
    by (rule reach_upd [OF reach_ex_p1 _ metadata_error]) (simp_all add: ex_p1_def ex_p0_def)
  from reach_upd [OF this _ error_check] have "proto_reachable (ex_p1\<lparr>ps_upd := U_FAILING\<rparr>)"
    by (simp add: ex_run_defs aborting_def)
  then have acc: "proto_reachable (accepted_at U_FAILING)" by (rule reach_accepted)
  let ?s1 = "(accepted_at U_FAILING)\<lparr>ps_hdl := H_ON_ABORT\<rparr>"
  have s1: "proto_reachable ?s1"
    by (rule reach_hdl [OF acc _ report]) (simp_all add: ex_run_defs)
  let ?s2 = "log_event EvOnAbort (?s1\<lparr>ps_hdl := H_SET_ABORTED\<rparr>)"
  have s2: "proto_reachable ?s2"
    by (rule reach_hdl [OF s1 _ on_abort]) (simp_all add: ex_run_defs)
  have "proto_reachable (log_event EvOnFailure (?s2\<lparr>ps_upd := U_RAISED\<rparr>))"
    by (rule reach_upd [OF s2 _ on_failure]) (simp_all add: ex_run_defs)
  then show ?thesis
    by (intro exI [of _ "log_event EvOnFailure (?s2\<lparr>ps_upd := U_RAISED\<rparr>)"])
      (simp add: ex_run_defs)
qed

text \<open>
  An abort can hit the next session. An immediate abort does not hold the lock while it waits
  for its status report, the updater meanwhile reports ABORTED, which is not a busy status, and a new
  update may start and reset the abort state: there is a run in which the slot is marked ABORTED, by an
  abort of the previous session, while the new session's pre-update is running in the critical zone.
\<close>

lemma abort_can_hit_next_session:
  "\<exists>s. proto_reachable s \<and> overlap s \<and> ps_upd s = U_CRITICAL \<and> events s = [EvOnAbort] \<and>
     ah_state (ps_ah s) = AS_CRITICAL_ZONE"
proof -
  let ?a = "accepted_at U_UPDATING"
  have "proto_reachable (?a\<lparr>ps_upd := U_SIGNAL\<rparr>)"
    using reach_upd [OF ex_accepted_now _ enter_zone]
    by (simp add: ex_run_defs zone_step_def enter_critical_zone_def)
  from reach_upd [OF this _ signal] have "proto_reachable (?a\<lparr>ps_live := ABORTED, ps_upd := U_IDLE\<rparr>)"
    by (simp add: ex_run_defs)
  from reach_upd [OF this _ spawn]
  have s3: "proto_reachable (?a\<lparr>ps_live := ABORTED, ps_upd := U_SPAWNED\<rparr>)"
    by (simp add: ex_run_defs busy_status_def)
  let ?h = "snd (set_session ''t'' (ps_ah ?a))"
  have s4: "proto_reachable (?a\<lparr>ps_live := ABORTED, ps_upd := U_SESSION, ps_ah := ?h, events := [],
      overlap := True\<rparr>)"
    using reach_upd [OF s3 _ session [where sid = "''t''"]] by (simp add: ex_run_defs)
  from reach_upd [OF this _ updating]
  have s5: "proto_reachable (?a\<lparr>ps_live := UPDATING, ps_upd := U_UPDATING, ps_ah := ?h, events := [],
      overlap := True\<rparr>)" by (simp add: ex_run_defs)
  let ?s6 = "?a\<lparr>ps_live := UPDATING, ps_upd := U_CRITICAL, ps_ah := ?h\<lparr>ah_state := AS_CRITICAL_ZONE\<rparr>,
      events := [], overlap := True\<rparr>"
  have s6: "proto_reachable ?s6"
    using reach_upd [OF s5 _ enter_zone] by (simp add: ex_run_defs zone_step_def enter_critical_zone_def)
  have s7: "proto_reachable (?s6\<lparr>ps_hdl := H_ON_ABORT\<rparr>)"
    by (rule reach_hdl [OF s6 _ report]) (simp_all add: ex_run_defs)
  have "proto_reachable (log_event EvOnAbort (?s6\<lparr>ps_hdl := H_SET_ABORTED\<rparr>))"
    using reach_hdl [OF s7 _ on_abort] by (simp add: ex_run_defs)
  then show ?thesis
    by (intro exI [of _ "log_event EvOnAbort (?s6\<lparr>ps_hdl := H_SET_ABORTED\<rparr>)"])
      (simp add: ex_run_defs)
qed

end
