(* ===== verification/API_Types.thy ===== *)
theory API_Types
  imports OTA_Types OTA_Errors
begin

text \<open>
  The messages of the service API, \<^verbatim>\<open>src/otaclient_api/v2/_types.py\<close>, the conversion of the internal status
  to them, \<^verbatim>\<open>src/otaclient/grpc/api_v2/_types.py\<close>, and the ids of requests and sessions of
  \<^verbatim>\<open>src/otaclient/_utils.py\<close>. The enums of the API have the same members as the internal ones, so the
  same datatypes are used. The numbers of the update phases come from the generated module
  \<^verbatim>\<open>otaclient_pb2\<close>: the function \<open>pb2_phase\<close> that gives them is an argument.
\<close>

section \<open>Lists of ECUs\<close>

text \<open>The protocol \<^verbatim>\<open>ECUList\<close>: \<open>eid\<close> reads the \<^verbatim>\<open>ecu_id\<close> of an element.\<close>

definition find_ecu :: "('e \<Rightarrow> string) \<Rightarrow> 'e list \<Rightarrow> string \<Rightarrow> 'e option" where
  "find_ecu eid es ecu_id = List.find (\<lambda>e. eid e = ecu_id) es"

definition if_contains_ecu :: "('e \<Rightarrow> string) \<Rightarrow> 'e list \<Rightarrow> string \<Rightarrow> bool" where
  "if_contains_ecu eid es ecu_id = (find_ecu eid es ecu_id \<noteq> None)"

lemma if_contains_ecu_iff: "if_contains_ecu eid es i \<longleftrightarrow> i \<in> eid ` set es"
  by (auto simp: if_contains_ecu_def find_ecu_def find_None_iff_all)

text \<open>
  What a message with a list of ECUs promises: an added ECU comes last, merging keeps all of both.
\<close>

locale ecu_list =
  fixes ecus :: "'m \<Rightarrow> 'e list" and eid :: "'e \<Rightarrow> string"
    and add :: "'e \<Rightarrow> 'm \<Rightarrow> 'm" and merge :: "'m \<Rightarrow> 'm \<Rightarrow> 'm"
  assumes ecus_add: "ecus (add e m) = ecus m @ [e]"
    and ecus_merge: "ecus (merge m m') = ecus m @ ecus m'"
begin

lemma contains_add: "if_contains_ecu eid (ecus (add e m)) i \<longleftrightarrow> if_contains_ecu eid (ecus m) i \<or> i = eid e"
  by (auto simp: if_contains_ecu_iff ecus_add)

lemma contains_merge:
  "if_contains_ecu eid (ecus (merge m m')) i \<longleftrightarrow>
     if_contains_ecu eid (ecus m) i \<or> if_contains_ecu eid (ecus m') i"
  by (auto simp: if_contains_ecu_iff ecus_merge)

lemma find_add_new:
  "\<not> if_contains_ecu eid (ecus m) (eid e) \<Longrightarrow> find_ecu eid (ecus (add e m)) (eid e) = Some e"
  by (auto simp: if_contains_ecu_def find_ecu_def ecus_add find_app)

lemma mem_add: "x \<in> set (ecus (add e m)) \<longleftrightarrow> x \<in> set (ecus m) \<or> x = e"
  by (auto simp: ecus_add)

lemma mem_merge: "x \<in> set (ecus (merge m m')) \<longleftrightarrow> x \<in> set (ecus m) \<or> x \<in> set (ecus m')"
  by (auto simp: ecus_merge)

end

section \<open>Messages\<close>

text \<open>\<^verbatim>\<open>UpdateRequestEcu\<close> and \<^verbatim>\<open>ClientUpdateRequestEcu\<close>.\<close>

record update_request_ecu =
  qe_ecu_id :: string
  qe_version :: string
  qe_url :: string
  qe_cookies :: string
  qe_release_name :: string
  qe_release_id :: string
  qe_image_id :: string

record update_request =
  uq_ecu :: "update_request_ecu list"
  uq_request_id :: string

text \<open>\<^verbatim>\<open>UpdateResponseEcu\<close>, \<^verbatim>\<open>ClientUpdateResponseEcu\<close>, \<^verbatim>\<open>RollbackResponseEcu\<close> and their lists.\<close>

record response_ecu =
  re_ecu_id :: string
  re_result :: failure_type
  re_message :: string

record update_response =
  ur_ecu :: "response_ecu list"

definition add_response_ecu :: "response_ecu \<Rightarrow> update_response \<Rightarrow> update_response" where
  "add_response_ecu e r = r\<lparr>ur_ecu := ur_ecu r @ [e]\<rparr>"

definition merge_response :: "update_response \<Rightarrow> update_response \<Rightarrow> update_response" where
  "merge_response r r' = r\<lparr>ur_ecu := ur_ecu r @ ur_ecu r'\<rparr>"

definition ecus_acked_update :: "update_response \<Rightarrow> string set" where
  "ecus_acked_update r = re_ecu_id ` {e \<in> set (ur_ecu r). re_result e = NO_FAILURE}"

datatype abort_failure_type = ABORT_NO_FAILURE | ABORT_FAILURE

record abort_response_ecu =
  ab_ecu_id :: string
  ab_result :: abort_failure_type
  ab_message :: string

record abort_response =
  abr_ecu :: "abort_response_ecu list"

definition add_abort_ecu :: "abort_response_ecu \<Rightarrow> abort_response \<Rightarrow> abort_response" where
  "add_abort_ecu e r = r\<lparr>abr_ecu := abr_ecu r @ [e]\<rparr>"

definition merge_abort :: "abort_response \<Rightarrow> abort_response \<Rightarrow> abort_response" where
  "merge_abort r r' = r\<lparr>abr_ecu := abr_ecu r @ abr_ecu r'\<rparr>"

text \<open>\<^verbatim>\<open>UpdateStatus\<close>, durations in seconds.\<close>

record update_status =
  us_phase :: update_phase
  us_update_firmware_version :: string
  us_update_start_timestamp :: int
  us_total_files_num :: int
  us_total_files_size_uncompressed :: int
  us_total_download_files_num :: int
  us_total_download_files_size :: int
  us_total_remove_files_num :: int
  us_downloaded_files_num :: int
  us_downloaded_bytes :: int
  us_downloaded_files_size :: int
  us_downloading_errors :: int
  us_removed_files_num :: int
  us_processed_files_num :: int
  us_processed_files_size :: int
  us_total_elapsed_time :: int
  us_delta_generating_elapsed_time :: int
  us_downloading_elapsed_time :: int
  us_update_applying_elapsed_time :: int

definition update_status_0 :: update_status where
  "update_status_0 = \<lparr>us_phase = PH_INITIALIZING, us_update_firmware_version = '''',
     us_update_start_timestamp = 0, us_total_files_num = 0, us_total_files_size_uncompressed = 0,
     us_total_download_files_num = 0, us_total_download_files_size = 0,
     us_total_remove_files_num = 0, us_downloaded_files_num = 0, us_downloaded_bytes = 0,
     us_downloaded_files_size = 0, us_downloading_errors = 0, us_removed_files_num = 0,
     us_processed_files_num = 0, us_processed_files_size = 0, us_total_elapsed_time = 0,
     us_delta_generating_elapsed_time = 0, us_downloading_elapsed_time = 0,
     us_update_applying_elapsed_time = 0\<rparr>"

record status_response_ecu =
  se_ecu_id :: string
  se_firmware_version :: string
  se_otaclient_version :: string
  se_ota_status :: ota_status
  se_failure_type :: failure_type
  se_failure_reason :: string
  se_failure_traceback :: string
  se_release_name :: string
  se_release_id :: string
  se_image_id :: string
  se_update_status :: update_status

record status_response =
  sr_available_ecu_ids :: "string list"
  sr_ecu_v2 :: "status_response_ecu list"

definition add_status_ecu :: "status_response_ecu \<Rightarrow> status_response \<Rightarrow> status_response" where
  "add_status_ecu e r = r\<lparr>sr_ecu_v2 := sr_ecu_v2 r @ [e]\<rparr>"

text \<open>\<^verbatim>\<open>merge_from\<close> of the status: the available ids are not merged.\<close>

definition merge_status :: "status_response \<Rightarrow> status_response \<Rightarrow> status_response" where
  "merge_status r r' = r\<lparr>sr_ecu_v2 := sr_ecu_v2 r @ sr_ecu_v2 r'\<rparr>"

interpretation upd_resp: ecu_list ur_ecu re_ecu_id add_response_ecu merge_response
  by unfold_locales (simp_all add: add_response_ecu_def merge_response_def)

interpretation abort_resp: ecu_list abr_ecu ab_ecu_id add_abort_ecu merge_abort
  by unfold_locales (simp_all add: add_abort_ecu_def merge_abort_def)

interpretation status_resp: ecu_list sr_ecu_v2 se_ecu_id add_status_ecu merge_status
  by unfold_locales (simp_all add: add_status_ecu_def merge_status_def)

subsection \<open>Summary of a status\<close>

definition is_in_update :: "status_response_ecu \<Rightarrow> bool" where
  "is_in_update e \<longleftrightarrow> se_ota_status e = UPDATING"

definition is_in_client_update :: "status_response_ecu \<Rightarrow> bool" where
  "is_in_client_update e \<longleftrightarrow> se_ota_status e = CLIENT_UPDATING"

definition is_aborting :: "status_response_ecu \<Rightarrow> bool" where
  "is_aborting e \<longleftrightarrow> se_ota_status e = ABORTING"

definition is_aborted :: "status_response_ecu \<Rightarrow> bool" where
  "is_aborted e \<longleftrightarrow> se_ota_status e = ABORTED"

definition is_failed :: "status_response_ecu \<Rightarrow> bool" where
  "is_failed e \<longleftrightarrow> se_ota_status e = FAILURE"

definition is_success :: "status_response_ecu \<Rightarrow> bool" where
  "is_success e \<longleftrightarrow> se_ota_status e = SUCCESS"

definition requires_network :: "(update_phase \<Rightarrow> int) \<Rightarrow> status_response_ecu \<Rightarrow> bool" where
  "requires_network pb2_phase e \<longleftrightarrow> se_ota_status e = UPDATING \<and>
     pb2_phase (us_phase (se_update_status e)) \<le> pb2_phase PH_DOWNLOADING_OTA_FILES"

lemmas summary_defs = is_in_update_def is_in_client_update_def is_aborting_def is_aborted_def
  is_failed_def is_success_def

section \<open>Conversion of the internal status\<close>

text \<open>\<open>None\<close> is \<^verbatim>\<open>float("inf")\<close>, which a timestamp of zero stands for.\<close>

definition ts_or_inf :: "int \<Rightarrow> int option" where
  "ts_or_inf t = (if t = 0 then None else Some t)"

text \<open>\<^verbatim>\<open>int(max(min(_now, until) - since, 0))\<close>.\<close>

definition elapsed :: "int \<Rightarrow> int option \<Rightarrow> int option \<Rightarrow> int" where
  "elapsed now since until = (case since of
     None \<Rightarrow> 0
   | Some s \<Rightarrow> max ((case until of None \<Rightarrow> now | Some u \<Rightarrow> min now u) - s) 0)"

definition calculate_elapsed_time :: "int \<Rightarrow> update_timing \<Rightarrow> update_status \<Rightarrow> update_status" where
  "calculate_elapsed_time now t us =
     (let delta = ts_or_inf (delta_generate_start_timestamp t);
          dl = ts_or_inf (download_start_timestamp t);
          app = ts_or_inf (update_apply_start_timestamp t);
          pst = ts_or_inf (post_update_start_timestamp t)
      in us\<lparr>us_delta_generating_elapsed_time := elapsed now delta dl,
            us_downloading_elapsed_time := elapsed now dl app,
            us_update_applying_elapsed_time := elapsed now app pst\<rparr>)"

definition convert_update_status ::
  "int \<Rightarrow> update_phase \<Rightarrow> update_meta \<Rightarrow> update_progress \<Rightarrow> update_timing \<Rightarrow> update_status" where
  "convert_update_status now ph m p t =
     (let started = update_start_timestamp t in
      calculate_elapsed_time now t
        (update_status_0\<lparr>us_phase := ph,
           us_update_start_timestamp := (if started \<le> 0 then 0 else started),
           us_processed_files_num := processed_files_num p,
           us_processed_files_size := processed_files_size p,
           us_downloaded_bytes := downloaded_bytes p,
           us_downloaded_files_num := downloaded_files_num p,
           us_downloaded_files_size := downloaded_files_size p,
           us_downloading_errors := downloading_errors p,
           us_total_download_files_num := total_download_files_num m,
           us_total_download_files_size := total_download_files_size m,
           us_total_elapsed_time := (if started \<le> 0 then 0 else now - started),
           us_update_firmware_version := update_firmware_version m,
           us_total_files_num := image_file_entries m,
           us_total_files_size_uncompressed := image_size_uncompressed m\<rparr>))"

definition convert_to_apiv2_status ::
  "int \<Rightarrow> string \<Rightarrow> string \<Rightarrow> otaclient_status \<Rightarrow> status_response_ecu" where
  "convert_to_apiv2_status now ecu_id otaclient_version st =
     (let base = \<lparr>se_ecu_id = ecu_id, se_firmware_version = firmware_version st,
            se_otaclient_version = otaclient_version, se_ota_status = cs_ota_status st,
            se_failure_type = failure_type st, se_failure_reason = failure_reason st,
            se_failure_traceback = '''', se_release_name = '''', se_release_id = '''',
            se_image_id = '''', se_update_status = update_status_0\<rparr>;
          base' = (case cs_version_detail st of None \<Rightarrow> base
            | Some d \<Rightarrow> base\<lparr>se_release_name := release_name d, se_release_id := release_id d,
                se_image_id := image_id d\<rparr>)
      in case (cs_update_meta st, cs_update_progress st, cs_update_timing st) of
           (Some m, Some p, Some t) \<Rightarrow>
             if cs_ota_status st = UPDATING
             then base'\<lparr>se_update_status := convert_update_status now (cs_update_phase st) m p t\<rparr>
             else base'
         | _ \<Rightarrow> base')"

section \<open>Request and session ids\<close>

text \<open>
  The characters of the pattern \<^verbatim>\<open>[\.\/\0<>:"\\|?*\x00-\x1F]\<close>.
\<close>

definition illegal_char :: "char \<Rightarrow> bool" where
  "illegal_char c = (let n = of_char c :: nat in
     n < 32 \<or> n \<in> {46, 47, 60, 62, 58, 34, 92, 124, 63, 42})"

definition sanitize :: "string \<Rightarrow> string" where
  "sanitize s = map (\<lambda>c. if illegal_char c then CHR ''_'' else c) s"

definition safe_dir_name :: "string \<Rightarrow> string" where
  "safe_dir_name v = (let s = sanitize v in if s = '''' then ''_'' else s)"

text \<open>\<^verbatim>\<open>os.urandom(n).hex()\<close> of the given bytes.\<close>

definition hex_str :: "nat list \<Rightarrow> string" where
  "hex_str bs = concat (map (\<lambda>b. [hex_digit (b div 16), hex_digit b]) bs)"

definition gen_request_id :: "nat \<Rightarrow> nat list \<Rightarrow> string" where
  "gen_request_id now rnd = nat_str now @ ''-'' @ hex_str rnd"

definition gen_session_id :: "nat \<Rightarrow> nat list \<Rightarrow> string \<Rightarrow> string" where
  "gen_session_id now rnd update_version =
     nat_str now @ ''-'' @ sanitize update_version @ ''-'' @ hex_str rnd"

section \<open>Properties\<close>

lemma sanitize_legal: "\<not> list_ex illegal_char (sanitize s)"
  by (induction s) (auto simp: sanitize_def illegal_char_def)

lemma of_char_digit: "of_char (digit_char n) = 48 + n mod 10"
proof -
  have "48 + n mod 10 < 256" using mod_less_divisor [of 10 n] by linarith
  then show ?thesis by (simp add: digit_char_def)
qed

lemma digit_char_legal: "\<not> illegal_char (digit_char n)"
  using mod_less_divisor [of 10 n] by (auto simp: illegal_char_def of_char_digit Let_def)

lemma nat_str_legal: "\<not> list_ex illegal_char (nat_str n) \<and> nat_str n \<noteq> ''''"
proof (induction n rule: nat_str.induct)
  case (1 n)
  then show ?case
    by (subst (1 2) nat_str.simps) (simp add: digit_char_legal)
qed

lemma hex_digit_legal: "\<not> illegal_char (hex_digit n)"
proof -
  have "list_all (\<lambda>c. \<not> illegal_char c) ''0123456789abcdef''"
    by (simp add: illegal_char_def)
  then show ?thesis
    unfolding hex_digit_def by (simp only: list_all_length) simp
qed

lemma hex_str_legal: "\<not> list_ex illegal_char (hex_str bs)"
  by (induction bs) (auto simp: hex_str_def hex_digit_legal)

text \<open>
  The id of a session is one path component whatever version string the request carries:
  it is not empty and has no path separator, dot, NUL or control character, so the directory of the
  session, the join of the session root and the id, is an immediate child of the root and never the
  root's parent.
\<close>

lemma session_id_is_path_component:
  "gen_session_id now rnd v \<noteq> '''' \<and> \<not> list_ex illegal_char (gen_session_id now rnd v) \<and>
   CHR ''/'' \<notin> set (gen_session_id now rnd v) \<and> gen_session_id now rnd v \<notin> {''.'', ''..''} \<and>
   safe_dir_name v \<noteq> '''' \<and> \<not> list_ex illegal_char (safe_dir_name v)"
proof -
  have legal: "\<not> list_ex illegal_char (gen_session_id now rnd v)"
    using nat_str_legal sanitize_legal hex_str_legal
    by (simp add: gen_session_id_def illegal_char_def)
  moreover have "illegal_char (CHR ''/'')" "illegal_char (CHR ''.'')"
    by (simp_all add: illegal_char_def)
  moreover have "\<not> list_ex illegal_char (safe_dir_name v)"
    using sanitize_legal by (simp add: safe_dir_name_def Let_def illegal_char_def)
  moreover have "gen_session_id now rnd v \<noteq> ''''" "safe_dir_name v \<noteq> ''''"
    by (simp_all add: gen_session_id_def safe_dir_name_def Let_def)
  ultimately show ?thesis
    by (auto simp: list_ex_iff)
qed

lemma elapsed_nonneg: "0 \<le> elapsed now since until"
  by (simp add: elapsed_def split: option.splits)

text \<open>
  The elapsed times of the phases of an update are not negative, none is counted before its
  phase has started, and for start times in the order of the phases they add up to no more than the
  time since the delta calculation was started.
\<close>

lemma elapsed_times_bounded:
  "(let us = calculate_elapsed_time now t us0;
        d = us_delta_generating_elapsed_time us; l = us_downloading_elapsed_time us;
        a = us_update_applying_elapsed_time us
    in 0 \<le> d \<and> 0 \<le> l \<and> 0 \<le> a \<and>
       (download_start_timestamp t = 0 \<longrightarrow> l = 0) \<and>
       (update_apply_start_timestamp t = 0 \<longrightarrow> a = 0) \<and>
       (0 < delta_generate_start_timestamp t \<and>
        delta_generate_start_timestamp t \<le> download_start_timestamp t \<and>
        download_start_timestamp t \<le> update_apply_start_timestamp t \<and>
        update_apply_start_timestamp t \<le> now \<longrightarrow>
        d + l + a \<le> now - delta_generate_start_timestamp t))"
  by (auto simp: calculate_elapsed_time_def elapsed_def ts_or_inf_def Let_def)

end
