(* ===== verification/ECU_Status.thy ===== *)
theory ECU_Status
  imports API_Types
begin

text \<open>
  The storage of the status of all ECUs, \<^verbatim>\<open>src/otaclient/grpc/api_v2/ecu_status.py\<close>, and the rounds of the
  tasks that poll the ECUs, \<^verbatim>\<open>ecu_tracker.py\<close>. Python dictionaries are association lists with the order of
  insertion, sets are sets. The clock \<^verbatim>\<open>int(time.time())\<close> is an argument; the settings
  \<^verbatim>\<open>ECU_UNREACHABLE_TIMEOUT\<close> and \<^verbatim>\<open>PAUSED_OVERALL_ECUS_STATUS_CHANGE_ON_UPDATE_REQ_ACKED\<close>, which a
  configuration may change, are fields of the state.
\<close>

section \<open>State\<close>

record ecu_storage =
  my_ecu_id :: string
  unreachable_timeout :: int
  paused_on_acked :: int
  ecu_status_flags :: ecu_status_flags
  storage_last_updated :: int
  available_ecu_ids :: "string list"
  all_ecus_status :: "(string \<times> status_response_ecu) list"
  last_contact :: "(string \<times> int) list"
  properties_last_update :: int
  lost_ecus_id :: "string set"
  failed_ecus_id :: "string set"
  in_update_ecus_id :: "string set"
  in_update_child_ecus_id :: "string set"
  success_ecus_id :: "string set"
  last_update_request_received :: int

definition DISCONNECTED_ECU_TIMEOUT_FACTOR :: int where "DISCONNECTED_ECU_TIMEOUT_FACTOR = 3"

definition IDLE_POLLING_INTERVAL :: int where "IDLE_POLLING_INTERVAL = 10"

definition ACTIVE_POLLING_INTERVAL :: int where "ACTIVE_POLLING_INTERVAL = 1"

text \<open>\<^verbatim>\<open>__init__\<close>: \<^verbatim>\<open>dict.fromkeys\<close> drops repeated ids.\<close>

definition ecu_storage_init ::
  "string \<Rightarrow> int \<Rightarrow> int \<Rightarrow> ecu_status_flags \<Rightarrow> string list \<Rightarrow> ecu_storage" where
  "ecu_storage_init my_id timeout paused flags available =
     \<lparr>my_ecu_id = my_id, unreachable_timeout = timeout, paused_on_acked = paused,
      ecu_status_flags = flags, storage_last_updated = 0,
      available_ecu_ids = rev (remdups (rev available)), all_ecus_status = [], last_contact = [],
      properties_last_update = 0, lost_ecus_id = {}, failed_ecus_id = {}, in_update_ecus_id = {},
      in_update_child_ecus_id = {}, success_ecus_id = {}, last_update_request_received = 0\<rparr>"

section \<open>The overall report\<close>

definition is_ecu_lost :: "ecu_storage \<Rightarrow> string \<Rightarrow> int \<Rightarrow> bool" where
  "is_ecu_lost s ecu_id now = (case map_of (last_contact s) ecu_id of
     None \<Rightarrow> True
   | Some t \<Rightarrow> now > t + unreachable_timeout s)"

definition lost_ecus :: "ecu_storage \<Rightarrow> int \<Rightarrow> string set" where
  "lost_ecus s now = set (filter (\<lambda>i. is_ecu_lost s i now) (map fst (last_contact s)))"

text \<open>The ids of the tracked ECUs (available and not lost) whose status satisfies \<open>P\<close>.\<close>

definition tracked_with :: "(status_response_ecu \<Rightarrow> bool) \<Rightarrow> ecu_storage \<Rightarrow> int \<Rightarrow> string set" where
  "tracked_with P s now = set (map se_ecu_id (filter (\<lambda>e. se_ecu_id e \<in> set (available_ecu_ids s) \<and>
     P e \<and> se_ecu_id e \<notin> lost_ecus s now) (map snd (all_ecus_status s))))"

definition needs_polling :: "status_response_ecu \<Rightarrow> bool" where
  "needs_polling e \<longleftrightarrow> is_in_update e \<or> is_in_client_update e \<or> is_aborting e"

definition generate_overall_status_report ::
  "(update_phase \<Rightarrow> int) \<Rightarrow> int \<Rightarrow> ecu_storage \<Rightarrow> ecu_storage" where
  "generate_overall_status_report pb2_phase now s =
     (let upd = tracked_with needs_polling s now;
          child = upd - {my_ecu_id s};
          succ = tracked_with is_success s now
      in s\<lparr>properties_last_update := now,
           lost_ecus_id := lost_ecus s now,
           in_update_ecus_id := upd,
           in_update_child_ecus_id := child,
           failed_ecus_id := tracked_with is_failed s now,
           success_ecus_id := succ,
           ecu_status_flags := (ecu_status_flags s)\<lparr>
             any_child_ecu_in_update := (child \<noteq> {}),
             any_requires_network := (tracked_with (requires_network pb2_phase) s now \<noteq> {}),
             all_success := (succ = set (available_ecu_ids s))\<rparr>\<rparr>)"

text \<open>
  One round of \<^verbatim>\<open>_loop_updating_properties\<close>; the first component is \<^verbatim>\<open>last_storage_update\<close>.
\<close>

definition loop_updating_properties ::
  "(update_phase \<Rightarrow> int) \<Rightarrow> int \<Rightarrow> int \<times> ecu_storage \<Rightarrow> int \<times> ecu_storage" where
  "loop_updating_properties pb2_phase now st = (case st of (last_update, s) \<Rightarrow>
     if last_update \<noteq> storage_last_updated s \<and>
        now > last_update_request_received s + paused_on_acked s
     then (storage_last_updated s, generate_overall_status_report pb2_phase now s)
     else st)"

section \<open>Updates\<close>

definition store_ecu_status :: "int \<Rightarrow> status_response_ecu \<Rightarrow> ecu_storage \<Rightarrow> ecu_storage" where
  "store_ecu_status now e s = s\<lparr>all_ecus_status := AList.update (se_ecu_id e) e (all_ecus_status s),
     last_contact := AList.update (se_ecu_id e) now (last_contact s)\<rparr>"

definition update_from_child_ecu :: "int \<Rightarrow> status_response \<Rightarrow> ecu_storage \<Rightarrow> ecu_storage" where
  "update_from_child_ecu now resp s =
     fold (store_ecu_status now) (sr_ecu_v2 resp) (s\<lparr>storage_last_updated := now\<rparr>)"

definition update_from_local_ecu :: "int \<Rightarrow> string \<Rightarrow> otaclient_status \<Rightarrow> ecu_storage \<Rightarrow> ecu_storage" where
  "update_from_local_ecu now version st s =
     store_ecu_status now (convert_to_apiv2_status now (my_ecu_id s) version st)
       (s\<lparr>storage_last_updated := now\<rparr>)"

definition on_ecus_accept_update_request :: "int \<Rightarrow> string set \<Rightarrow> ecu_storage \<Rightarrow> ecu_storage" where
  "on_ecus_accept_update_request now acc s =
     (let upd = in_update_ecus_id s \<union> acc; child = upd - {my_ecu_id s}
      in s\<lparr>last_update_request_received := now,
           lost_ecus_id := lost_ecus_id s - acc,
           failed_ecus_id := failed_ecus_id s - acc,
           success_ecus_id := success_ecus_id s - acc,
           in_update_ecus_id := upd,
           in_update_child_ecus_id := child,
           ecu_status_flags := (ecu_status_flags s)\<lparr>all_success := False,
             any_requires_network := True, any_child_ecu_in_update := (child \<noteq> {})\<rparr>\<rparr>)"

section \<open>Polling and export\<close>

definition get_polling_interval :: "ecu_storage \<Rightarrow> int" where
  "get_polling_interval s =
     (if in_update_ecus_id s \<noteq> {} then ACTIVE_POLLING_INTERVAL else IDLE_POLLING_INTERVAL)"

text \<open>
  The seconds the waiter of \<^verbatim>\<open>get_polling_waiter\<close> sleeps, where \<open>active k\<close> says whether an update is
  present \<open>k\<close> seconds after it was called.
\<close>

fun idle_wait :: "nat \<Rightarrow> nat \<Rightarrow> (nat \<Rightarrow> bool) \<Rightarrow> nat" where
  "idle_wait 0 k active = k"
| "idle_wait (Suc n) k active = (if active k then k else idle_wait n (Suc k) active)"

definition polling_wait :: "(nat \<Rightarrow> bool) \<Rightarrow> nat" where
  "polling_wait active = (if active 0 then 1 else idle_wait 10 0 active)"

definition local_not_ready :: exc where
  "local_not_ready = PyExc ''LocalECUStatusNotReady'' [K_Other]"

definition export_entries :: "ecu_storage \<Rightarrow> status_response_ecu list" where
  "export_entries s = concat (map (\<lambda>(ecu_id, t).
     if storage_last_updated s > t + DISCONNECTED_ECU_TIMEOUT_FACTOR * get_polling_interval s then []
     else (case map_of (all_ecus_status s) ecu_id of None \<Rightarrow> [] | Some e \<Rightarrow> [e])) (last_contact s))"

definition export :: "ecu_storage \<Rightarrow> exc + status_response" where
  "export s =
     (if my_ecu_id s \<in> set (available_ecu_ids s) \<and>
         my_ecu_id s \<notin> set (map fst (all_ecus_status s))
      then Inl local_not_ready
      else Inr \<lparr>sr_available_ecu_ids = available_ecu_ids s, sr_ecu_v2 = export_entries s\<rparr>)"

section \<open>The pollers\<close>

text \<open>
  A round of \<^verbatim>\<open>_polling_direct_subecu_status\<close>, with the response or \<open>None\<close> for \<^verbatim>\<open>ECUNoResponse\<close>, and of
  \<^verbatim>\<open>_polling_local_ecu_status\<close>, with the message of the shared memory, \<open>Inl\<close> an exception and \<open>Inr None\<close>
  an empty message, whose conversion raises after the time of the last update was set. The \<open>bool\<close> is the
  ECU's entry of \<^verbatim>\<open>_startup_matrix\<close>; when it is set afterwards the task polls again at once.
\<close>

definition polling_direct_subecu_status ::
  "int \<Rightarrow> string \<Rightarrow> status_response option \<Rightarrow> bool \<times> ecu_storage \<Rightarrow> bool \<times> ecu_storage" where
  "polling_direct_subecu_status now ecu_id resp st = (case (resp, st) of
     (None, _) \<Rightarrow> st
   | (Some r, startup, s) \<Rightarrow>
       (startup \<and> find_ecu se_ecu_id (sr_ecu_v2 r) ecu_id = None, update_from_child_ecu now r s))"

definition polling_local_ecu_status ::
  "int \<Rightarrow> string \<Rightarrow> exc + otaclient_status option \<Rightarrow> bool \<times> ecu_storage \<Rightarrow> bool \<times> ecu_storage" where
  "polling_local_ecu_status now version report st = (case (report, st) of
     (Inl _, _) \<Rightarrow> st
   | (Inr None, startup, s) \<Rightarrow> (startup, s\<lparr>storage_last_updated := now\<rparr>)
   | (Inr (Some m), _, s) \<Rightarrow> (False, update_from_local_ecu now version m s))"

section \<open>The invariant\<close>

text \<open>
  Every status is stored under its own id, the ECUs with a status are those with a time of contact, in
  the same order, and no id occurs twice.
\<close>

definition storage_wf :: "ecu_storage \<Rightarrow> bool" where
  "storage_wf s \<longleftrightarrow> distinct (map fst (all_ecus_status s)) \<and>
     map fst (last_contact s) = map fst (all_ecus_status s) \<and>
     (\<forall>(k, e)\<in>set (all_ecus_status s). se_ecu_id e = k) \<and> distinct (available_ecu_ids s)"

lemma update_keys: "map fst (AList.update k v d) = (if k \<in> set (map fst d) then map fst d else map fst d @ [k])"
  by (induction d) auto

lemma store_ecu_status_wf: "storage_wf s \<Longrightarrow> storage_wf (store_ecu_status now e s)"
  by (auto simp: storage_wf_def store_ecu_status_def update_keys dest: update_mem)

lemma fold_store_wf: "storage_wf s \<Longrightarrow> storage_wf (fold (store_ecu_status now) es s)"
  by (induction es arbitrary: s) (auto simp: store_ecu_status_wf)

lemma storage_wf_frame:
  "all_ecus_status s' = all_ecus_status s \<Longrightarrow> last_contact s' = last_contact s \<Longrightarrow>
   available_ecu_ids s' = available_ecu_ids s \<Longrightarrow> storage_wf s' = storage_wf s"
  by (simp add: storage_wf_def)

lemma ecu_storage_init_wf: "storage_wf (ecu_storage_init i t p f av)"
  by (simp add: storage_wf_def ecu_storage_init_def)

lemma update_from_child_wf: "storage_wf s \<Longrightarrow> storage_wf (update_from_child_ecu now r s)"
  unfolding update_from_child_ecu_def
  by (intro fold_store_wf) (simp add: storage_wf_def)

lemma update_from_local_wf: "storage_wf s \<Longrightarrow> storage_wf (update_from_local_ecu now v st s)"
  unfolding update_from_local_ecu_def
  by (intro store_ecu_status_wf) (simp add: storage_wf_def)

lemma storage_ops_wf:
  assumes "storage_wf s"
  shows "storage_wf (generate_overall_status_report pb now s)"
    "storage_wf (on_ecus_accept_update_request now acc s)"
    "storage_wf (s\<lparr>storage_last_updated := now\<rparr>)"
  using assms
  by (auto simp: storage_wf_def generate_overall_status_report_def
      on_ecus_accept_update_request_def Let_def)

text \<open>The steps of the storage, in any order.\<close>

inductive storage_step :: "(update_phase \<Rightarrow> int) \<Rightarrow> ecu_storage \<Rightarrow> ecu_storage \<Rightarrow> bool" for pb where
  st_report: "storage_step pb s (snd (loop_updating_properties pb now (l, s)))"
| st_child: "storage_step pb s (snd (polling_direct_subecu_status now i r (b, s)))"
| st_local: "storage_step pb s (snd (polling_local_ecu_status now v m (b, s)))"
| st_accept: "storage_step pb s (on_ecus_accept_update_request now acc s)"

definition storage_start :: "ecu_storage \<Rightarrow> bool" where
  "storage_start s \<longleftrightarrow> (\<exists>i t p f av. s = ecu_storage_init i t p f av)"

lemma storage_step_wf: "storage_wf s \<Longrightarrow> storage_step pb s s' \<Longrightarrow> storage_wf s'"
  by (erule storage_step.cases)
    (auto simp: loop_updating_properties_def polling_direct_subecu_status_def
      polling_local_ecu_status_def storage_ops_wf update_from_child_wf update_from_local_wf
      split: option.splits sum.splits)

interpretation stor: step_invariant storage_start "storage_step pb" storage_wf
  by unfold_locales (auto simp: storage_start_def ecu_storage_init_wf intro: storage_step_wf)

section \<open>Properties\<close>

lemma tracked_iff:
  assumes "storage_wf s"
  shows "i \<in> tracked_with P s now \<longleftrightarrow> i \<in> set (available_ecu_ids s) \<and> i \<notin> lost_ecus s now \<and>
    (\<exists>e. map_of (all_ecus_status s) i = Some e \<and> P e)"
proof -
  have key: "map_of (all_ecus_status s) i = Some e \<longleftrightarrow> (i, e) \<in> set (all_ecus_status s)" for e
    using assms by (simp add: storage_wf_def map_of_eq_Some_iff)
  have own: "(k, e) \<in> set (all_ecus_status s) \<Longrightarrow> se_ecu_id e = k" for k e
    using assms by (auto simp: storage_wf_def)
  have "(\<exists>e. (i, e) \<in> set (all_ecus_status s) \<and> P e) \<longleftrightarrow>
      (\<exists>e\<in>snd ` set (all_ecus_status s). se_ecu_id e = i \<and> P e)" (is "?l \<longleftrightarrow> ?r")
  proof
    assume ?l
    then obtain e where e: "(i, e) \<in> set (all_ecus_status s)" "P e" by blast
    then have "e \<in> snd ` set (all_ecus_status s)" by (metis image_eqI snd_conv)
    with e own show ?r by blast
  next
    assume ?r
    then obtain k e where e: "(k, e) \<in> set (all_ecus_status s)" "se_ecu_id e = i" "P e" by auto
    with own [OF e(1)] show ?l by auto
  qed
  moreover have "i \<in> tracked_with P s now \<longleftrightarrow> i \<in> set (available_ecu_ids s) \<and> i \<notin> lost_ecus s now \<and>
      (\<exists>e\<in>snd ` set (all_ecus_status s). se_ecu_id e = i \<and> P e)"
    unfolding tracked_with_def set_map set_filter by auto
  ultimately show ?thesis unfolding key by simp
qed

lemma lost_iff:
  "i \<in> lost_ecus s now \<longleftrightarrow>
    (\<exists>t. map_of (last_contact s) i = Some t \<and> now > t + unreachable_timeout s)"
proof (cases "map_of (last_contact s) i")
  case None
  then have "i \<notin> fst ` set (last_contact s)" by (simp add: map_of_eq_None_iff)
  with None show ?thesis by (simp add: lost_ecus_def)
next
  case (Some t)
  then have "i \<in> set (map fst (last_contact s))"
    by (metis domI dom_map_of_conv_image_fst set_map)
  with Some show ?thesis by (auto simp: lost_ecus_def is_ecu_lost_def)
qed

lemma contact_of_status:
  assumes "storage_wf s"
  shows "map_of (all_ecus_status s) i = None \<longleftrightarrow> map_of (last_contact s) i = None"
  using assms by (metis map_of_eq_None_iff storage_wf_def set_map)

text \<open>
  C24: what the overall report says, in every state the storage reaches. The sets of ECUs in
  update, failed and succeeded are disjoint from each other and from the lost ECUs and hold available
  ECUs only; \<^verbatim>\<open>all_success\<close> is set exactly when every available ECU has reported SUCCESS and has been in
  contact within the timeout, so one lost or unknown available ECU clears it; and
  \<^verbatim>\<open>any_child_ecu_in_update\<close>, which holds back the reboot of the main ECU, is set exactly when an available
  ECU other than this one is updating, updating its client or aborting and is not lost.
\<close>

theorem overall_report_correct:
  assumes "reachable storage_start (storage_step pb) s" and "s' = generate_overall_status_report pb now s"
  shows "in_update_ecus_id s' \<inter> failed_ecus_id s' = {} \<and> in_update_ecus_id s' \<inter> success_ecus_id s' = {} \<and>
    failed_ecus_id s' \<inter> success_ecus_id s' = {} \<and>
    (in_update_ecus_id s' \<union> failed_ecus_id s' \<union> success_ecus_id s') \<inter> lost_ecus_id s' = {} \<and>
    in_update_ecus_id s' \<union> failed_ecus_id s' \<union> success_ecus_id s' \<subseteq> set (available_ecu_ids s) \<and>
    (all_success (ecu_status_flags s') \<longleftrightarrow> (\<forall>i\<in>set (available_ecu_ids s).
       \<exists>e t. map_of (all_ecus_status s) i = Some e \<and> se_ota_status e = SUCCESS \<and>
         map_of (last_contact s) i = Some t \<and> now \<le> t + unreachable_timeout s)) \<and>
    (any_child_ecu_in_update (ecu_status_flags s') \<longleftrightarrow> (\<exists>i\<in>set (available_ecu_ids s).
       i \<noteq> my_ecu_id s \<and> i \<notin> lost_ecus_id s' \<and> (\<exists>e. map_of (all_ecus_status s) i = Some e \<and>
         se_ota_status e \<in> {UPDATING, CLIENT_UPDATING, ABORTING})))"
proof -
  have wf: "storage_wf s" by (rule stor.inv_reachable [OF assms(1)])
  note tr = tracked_iff [OF wf]
  have fields: "in_update_ecus_id s' = tracked_with needs_polling s now"
      "failed_ecus_id s' = tracked_with is_failed s now"
      "success_ecus_id s' = tracked_with is_success s now" "lost_ecus_id s' = lost_ecus s now"
      "all_success (ecu_status_flags s') \<longleftrightarrow> tracked_with is_success s now = set (available_ecu_ids s)"
      "any_child_ecu_in_update (ecu_status_flags s') \<longleftrightarrow>
         tracked_with needs_polling s now - {my_ecu_id s} \<noteq> {}"
    by (simp_all add: assms(2) generate_overall_status_report_def Let_def)
  have sets: "in_update_ecus_id s' \<inter> failed_ecus_id s' = {} \<and> in_update_ecus_id s' \<inter> success_ecus_id s' = {} \<and>
    failed_ecus_id s' \<inter> success_ecus_id s' = {} \<and>
    (in_update_ecus_id s' \<union> failed_ecus_id s' \<union> success_ecus_id s') \<inter> lost_ecus_id s' = {} \<and>
    in_update_ecus_id s' \<union> failed_ecus_id s' \<union> success_ecus_id s' \<subseteq> set (available_ecu_ids s)"
    unfolding fields by (auto simp: tr needs_polling_def summary_defs)
  have "tracked_with is_success s now = set (available_ecu_ids s) \<longleftrightarrow>
      (\<forall>i\<in>set (available_ecu_ids s). i \<in> tracked_with is_success s now)"
    using tr by blast
  also have "\<dots> \<longleftrightarrow> (\<forall>i\<in>set (available_ecu_ids s).
       \<exists>e t. map_of (all_ecus_status s) i = Some e \<and> se_ota_status e = SUCCESS \<and>
         map_of (last_contact s) i = Some t \<and> now \<le> t + unreachable_timeout s)"
  proof (intro ball_cong refl)
    fix i assume "i \<in> set (available_ecu_ids s)"
    then show "i \<in> tracked_with is_success s now \<longleftrightarrow>
        (\<exists>e t. map_of (all_ecus_status s) i = Some e \<and> se_ota_status e = SUCCESS \<and>
         map_of (last_contact s) i = Some t \<and> now \<le> t + unreachable_timeout s)"
      using contact_of_status [OF wf, of i]
      by (cases "map_of (last_contact s) i") (auto simp: tr lost_iff is_success_def not_less)
  qed
  finally have succ: "all_success (ecu_status_flags s') \<longleftrightarrow> (\<forall>i\<in>set (available_ecu_ids s).
       \<exists>e t. map_of (all_ecus_status s) i = Some e \<and> se_ota_status e = SUCCESS \<and>
         map_of (last_contact s) i = Some t \<and> now \<le> t + unreachable_timeout s)"
    using fields by blast
  have "any_child_ecu_in_update (ecu_status_flags s') \<longleftrightarrow> (\<exists>i\<in>set (available_ecu_ids s).
       i \<noteq> my_ecu_id s \<and> i \<notin> lost_ecus_id s' \<and> (\<exists>e. map_of (all_ecus_status s) i = Some e \<and>
         se_ota_status e \<in> {UPDATING, CLIENT_UPDATING, ABORTING}))"
  proof -
    have "needs_polling e \<longleftrightarrow> se_ota_status e \<in> {UPDATING, CLIENT_UPDATING, ABORTING}" for e
      by (auto simp: needs_polling_def summary_defs)
    moreover have "tracked_with needs_polling s now - {my_ecu_id s} \<noteq> {} \<longleftrightarrow>
        (\<exists>i. i \<in> tracked_with needs_polling s now \<and> i \<noteq> my_ecu_id s)" by blast
    ultimately show ?thesis unfolding fields by (simp add: tr) blast
  qed
  with sets succ show ?thesis by blast
qed

text \<open>
  C25: an accepted update request shows at once and is not undone too early. After ECUs have
  accepted a request, they are in update and neither lost, failed nor succeeded, \<^verbatim>\<open>all_success\<close> is
  cleared, the network is required and a child among them holds the reboot back; and no round of the
  task that generates the report changes the storage until the configured pause is over, whatever status
  arrives meanwhile.
\<close>

theorem accepted_request_held:
  assumes "s1 = on_ecus_accept_update_request t acc s"
    and "s2 = fold (\<lambda>(n, r) x. update_from_child_ecu n r x) resps s1"
    and "now \<le> t + paused_on_acked s"
  shows "acc \<subseteq> in_update_ecus_id s1 \<and>
    acc \<inter> (lost_ecus_id s1 \<union> failed_ecus_id s1 \<union> success_ecus_id s1) = {} \<and>
    \<not> all_success (ecu_status_flags s1) \<and> any_requires_network (ecu_status_flags s1) \<and>
    (\<not> acc \<subseteq> {my_ecu_id s} \<longrightarrow> any_child_ecu_in_update (ecu_status_flags s1)) \<and>
    loop_updating_properties pb now (l, s2) = (l, s2) \<and>
    ecu_status_flags s2 = ecu_status_flags s1 \<and> in_update_ecus_id s2 = in_update_ecus_id s1"
proof -
  have store: "last_update_request_received (fold (store_ecu_status n) es x) = last_update_request_received x \<and>
      paused_on_acked (fold (store_ecu_status n) es x) = paused_on_acked x \<and>
      ecu_status_flags (fold (store_ecu_status n) es x) = ecu_status_flags x \<and>
      in_update_ecus_id (fold (store_ecu_status n) es x) = in_update_ecus_id x" for n es x
    by (induction es arbitrary: x) (auto simp: store_ecu_status_def)
  have "last_update_request_received (fold (\<lambda>(n, r) x. update_from_child_ecu n r x) rs x) = last_update_request_received x \<and>
      paused_on_acked (fold (\<lambda>(n, r) x. update_from_child_ecu n r x) rs x) = paused_on_acked x \<and>
      ecu_status_flags (fold (\<lambda>(n, r) x. update_from_child_ecu n r x) rs x) = ecu_status_flags x \<and>
      in_update_ecus_id (fold (\<lambda>(n, r) x. update_from_child_ecu n r x) rs x) = in_update_ecus_id x" for rs x
    by (induction rs arbitrary: x) (auto simp: update_from_child_ecu_def store)
  then show ?thesis
    using assms
    by (auto simp: on_ecus_accept_update_request_def Let_def loop_updating_properties_def)
qed

lemma idle_wait_bounds:
  "k \<le> idle_wait n k active \<and> idle_wait n k active \<le> k + n \<and>
   (idle_wait n k active < k + n \<longrightarrow> active (idle_wait n k active)) \<and>
   (\<forall>j. k \<le> j \<and> j < idle_wait n k active \<longrightarrow> \<not> active j)"
proof (induction n k active rule: idle_wait.induct)
  case (2 n k active)
  show ?case
  proof (cases "active k")
    case False
    then have ih: "Suc k \<le> idle_wait n (Suc k) active" "idle_wait n (Suc k) active \<le> Suc k + n"
        "idle_wait n (Suc k) active < Suc k + n \<longrightarrow> active (idle_wait n (Suc k) active)"
        "\<forall>j. Suc k \<le> j \<and> j < idle_wait n (Suc k) active \<longrightarrow> \<not> active j"
      using 2 by auto
    have "\<not> active j" if "k \<le> j" "j < idle_wait n (Suc k) active" for j
      using ih(4) that False by (cases "j = k") auto
    then show ?thesis using ih False by auto
  qed auto
qed auto

text \<open>
  The waiter of the pollers returns. It sleeps between one and ten seconds, one when an
  update is in progress at the call, and otherwise it wakes at the first second at which one is.
\<close>

lemma polling_waits_bounded:
  "1 \<le> polling_wait active \<and> polling_wait active \<le> 10 \<and>
   (active 0 \<longrightarrow> polling_wait active = 1) \<and>
   (\<not> active 0 \<and> active k \<and> k < 10 \<longrightarrow> polling_wait active \<le> k) \<and>
   (\<not> active 0 \<and> polling_wait active < 10 \<longrightarrow> active (polling_wait active))"
proof -
  note b = idle_wait_bounds [of 0 10 active]
  have "\<not> active 0 \<Longrightarrow> 1 \<le> idle_wait 10 0 active"
    using b by (cases "idle_wait 10 0 active = 0") auto
  moreover have "active k \<Longrightarrow> k < 10 \<Longrightarrow> idle_wait 10 0 active \<le> k"
    using b by (metis not_le zero_le)
  ultimately show ?thesis using b by (auto simp: polling_wait_def)
qed

subsection \<open>Export\<close>

definition fresh_contact :: "ecu_storage \<Rightarrow> int \<Rightarrow> bool" where
  "fresh_contact s t \<longleftrightarrow>
     storage_last_updated s \<le> t + DISCONNECTED_ECU_TIMEOUT_FACTOR * get_polling_interval s"

lemma export_entries_alt:
  fixes n f :: int
  assumes "\<forall>(k, t)\<in>set cs. \<exists>e. map_of d k = Some e \<and> se_ecu_id e = k"
  shows "map se_ecu_id (concat (map (\<lambda>(k, t). if n > t + f then []
      else (case map_of d k of None \<Rightarrow> [] | Some e \<Rightarrow> [e])) cs)) =
    map fst (filter (\<lambda>(k, t). n \<le> t + f) cs)"
  using assms by (induction cs) (auto simp: not_less)

lemma storage_wf_lookup:
  assumes "storage_wf s" and "(k, t) \<in> set (last_contact s)"
  shows "\<exists>e. map_of (all_ecus_status s) k = Some e \<and> se_ecu_id e = k"
proof -
  have "k \<in> set (map fst (all_ecus_status s))"
    using assms by (metis fst_conv image_eqI set_map storage_wf_def)
  then obtain e where "map_of (all_ecus_status s) k = Some e"
    by (metis map_of_eq_None_iff not_None_eq set_map)
  moreover from this have "se_ecu_id e = k"
    using assms(1) by (auto simp: storage_wf_def dest: map_of_SomeD)
  ultimately show ?thesis by blast
qed

text \<open>
  What the status API exports, in every state the storage reaches. It is an error exactly
  when this ECU is an available one and its own status has not been collected yet; otherwise the
  response lists every available id, each reported ECU exactly once, and precisely the ECUs whose last
  contact was no more than three polling intervals before the last update of the storage, with the
  status stored last.
\<close>

lemma export_correct:
  assumes "reachable storage_start (storage_step pb) s"
  shows "(isl (export s) \<longleftrightarrow> my_ecu_id s \<in> set (available_ecu_ids s) \<and>
      map_of (all_ecus_status s) (my_ecu_id s) = None) \<and>
    (\<forall>r. export s = Inr r \<longrightarrow> sr_available_ecu_ids r = available_ecu_ids s \<and>
      distinct (map se_ecu_id (sr_ecu_v2 r)) \<and>
      (\<forall>i. i \<in> se_ecu_id ` set (sr_ecu_v2 r) \<longleftrightarrow>
         (\<exists>t. map_of (last_contact s) i = Some t \<and> fresh_contact s t)) \<and>
      (\<forall>e\<in>set (sr_ecu_v2 r). map_of (all_ecus_status s) (se_ecu_id e) = Some e))"
proof -
  have wf: "storage_wf s" by (rule stor.inv_reachable [OF assms])
  let ?fresh = "filter (\<lambda>(k, t). storage_last_updated s \<le> t + DISCONNECTED_ECU_TIMEOUT_FACTOR *
      get_polling_interval s) (last_contact s)"
  have ids: "map se_ecu_id (export_entries s) = map fst ?fresh"
    unfolding export_entries_def
    using storage_wf_lookup [OF wf] by (intro export_entries_alt) auto
  have dist: "distinct (map fst (last_contact s))" using wf by (simp add: storage_wf_def)
  then have d: "distinct (map se_ecu_id (export_entries s))"
    unfolding ids by (rule distinct_map_filter)
  have mem: "i \<in> se_ecu_id ` set (export_entries s) \<longleftrightarrow>
      (\<exists>t. map_of (last_contact s) i = Some t \<and> fresh_contact s t)" for i
  proof -
    have "i \<in> se_ecu_id ` set (export_entries s) \<longleftrightarrow> i \<in> set (map fst ?fresh)"
      using ids by (metis set_map)
    also have "\<dots> \<longleftrightarrow> (\<exists>t. (i, t) \<in> set (last_contact s) \<and> fresh_contact s t)"
      by (force simp: fresh_contact_def)
    finally show ?thesis using dist by (simp add: map_of_eq_Some_iff)
  qed
  have stored: "map_of (all_ecus_status s) (se_ecu_id e) = Some e" if e: "e \<in> set (export_entries s)" for e
  proof -
    obtain k t where kt: "(k, t) \<in> set (last_contact s)" "map_of (all_ecus_status s) k = Some e"
      using e unfolding export_entries_def by (auto split: if_splits option.splits)
    then show ?thesis using storage_wf_lookup [OF wf kt(1)] by auto
  qed
  have err: "isl (export s) \<longleftrightarrow> my_ecu_id s \<in> set (available_ecu_ids s) \<and>
      map_of (all_ecus_status s) (my_ecu_id s) = None"
    by (simp add: export_def map_of_eq_None_iff)
  show ?thesis
    using d mem stored err by (auto simp: export_def split: if_splits)
qed

section \<open>A concrete storage for the witnesses\<close>

definition ex_flags :: ecu_status_flags where
  "ex_flags = \<lparr>any_child_ecu_in_update = False, any_requires_network = False, all_success = False\<rparr>"

definition ex_status_ecu :: "string \<Rightarrow> ota_status \<Rightarrow> status_response_ecu" where
  "ex_status_ecu i st = convert_to_apiv2_status 100 i ''v'' (otaclient_status_0\<lparr>cs_ota_status := st\<rparr>)"

definition ex_storage :: ecu_storage where
  "ex_storage = update_from_child_ecu 100 \<lparr>sr_available_ecu_ids = [], sr_ecu_v2 =
     [ex_status_ecu ''main'' SUCCESS, ex_status_ecu ''sub'' UPDATING]\<rparr>
     (ecu_storage_init ''main'' 1200 60 ex_flags [''main'', ''sub''])"

definition ex_pb2 :: "update_phase \<Rightarrow> int" where
  "ex_pb2 ph = (case ph of PH_INITIALIZING \<Rightarrow> 0 | PH_PROCESSING_METADATA \<Rightarrow> 1
   | PH_CALCULATING_DELTA \<Rightarrow> 2 | PH_DOWNLOADING_OTA_FILES \<Rightarrow> 3 | PH_APPLYING_UPDATE \<Rightarrow> 4
   | PH_PROCESSING_POSTUPDATE \<Rightarrow> 5 | PH_FINALIZING_UPDATE \<Rightarrow> 6 | PH_DOWNLOADING_OTA_CLIENT \<Rightarrow> 7)"

lemma reach_ex_storage: "reachable storage_start (storage_step ex_pb2) ex_storage"
proof -
  let ?s0 = "ecu_storage_init ''main'' 1200 60 ex_flags [''main'', ''sub'']"
  have r0: "reachable storage_start (storage_step ex_pb2) ?s0"
    by (rule reach_init) (unfold storage_start_def, blast)
  have "storage_step ex_pb2 ?s0 (snd (polling_direct_subecu_status 100 ''sub''
      (Some \<lparr>sr_available_ecu_ids = [], sr_ecu_v2 =
        [ex_status_ecu ''main'' SUCCESS, ex_status_ecu ''sub'' UPDATING]\<rparr>) (True, ?s0)))"
    by (rule st_child)
  then have "storage_step ex_pb2 ?s0 ex_storage"
    by (simp add: polling_direct_subecu_status_def ex_storage_def)
  with r0 show ?thesis by (rule reach_step)
qed

lemma ex_se [simp]: "se_ecu_id (ex_status_ecu i st) = i" "se_ota_status (ex_status_ecu i st) = st"
  by (simp_all add: ex_status_ecu_def convert_to_apiv2_status_def otaclient_status_0_def Let_def)

lemmas ex_storage_simps = ex_storage_def update_from_child_ecu_def store_ecu_status_def
  ecu_storage_init_def

theorem overall_report_correct_witness:
  "any_child_ecu_in_update (ecu_status_flags (generate_overall_status_report ex_pb2 200 ex_storage)) \<and>
   \<not> all_success (ecu_status_flags (generate_overall_status_report ex_pb2 200 ex_storage))"
proof -
  let ?s = "generate_overall_status_report ex_pb2 200 ex_storage"
  note r = overall_report_correct [OF reach_ex_storage, of ?s 200, OF refl]
  have "lost_ecus_id ?s = {}"
    by (simp add: generate_overall_status_report_def Let_def lost_ecus_def is_ecu_lost_def ex_storage_simps)
  moreover have "''sub'' \<in> set (available_ecu_ids ex_storage)" "my_ecu_id ex_storage = ''main''"
      "map_of (all_ecus_status ex_storage) ''sub'' = Some (ex_status_ecu ''sub'' UPDATING)"
    by (simp_all add: ex_storage_simps)
  ultimately show ?thesis
    using r by fastforce
qed

theorem accepted_request_held_witness:
  "loop_updating_properties ex_pb2 150 (0, on_ecus_accept_update_request 100 {''sub''} ex_storage) =
     (0, on_ecus_accept_update_request 100 {''sub''} ex_storage)"
  using accepted_request_held [of "on_ecus_accept_update_request 100 {''sub''} ex_storage" 100 "{''sub''}"
      ex_storage "on_ecus_accept_update_request 100 {''sub''} ex_storage" "[]" 150 ex_pb2 0]
  by (simp add: ex_storage_simps)

end
