(* ===== verification/Servicer.thy ===== *)
theory Servicer
  imports ECU_Status
begin

text \<open>
  The handlers of the service API, \<^verbatim>\<open>src/otaclient/grpc/api_v2/servicer.py\<close>: the dispatch of a request to
  the local OTA core over the two IPC queues, the fan-out of an update, client update or abort request
  to the directly connected ECUs, and the merging of their responses. The call to another ECU is a
  function that gives its outcome, and the items the OTA core puts on the response queue while a handler
  waits are an argument of the dispatch.
\<close>

section \<open>State\<close>

text \<open>An item of the response queue: a response, or an object of another type.\<close>

datatype ipc_item = ItemResponse ipc_response | ItemOther string

record servicer =
  sv_my_ecu_id :: string
  sv_sub_ecus :: "string list"
  sv_op_queue :: "ipc_request list"
  sv_resp_queue :: "ipc_item list"
  sv_storage :: ecu_storage

definition response_ecu_of :: "string \<Rightarrow> failure_type \<Rightarrow> response_ecu" where
  "response_ecu_of i ft = \<lparr>re_ecu_id = i, re_result = ft, re_message = ''''\<rparr>"

section \<open>Local requests\<close>

text \<open>
  \<^verbatim>\<open>_dispatch_local_request\<close>; \<open>arrived\<close> is what the OTA core puts on the queue before the timeout.
\<close>

definition dispatch_local_request ::
  "ipc_item list \<Rightarrow> ipc_request \<Rightarrow> servicer \<Rightarrow> response_ecu \<times> servicer" where
  "dispatch_local_request arrived rq s =
     (let s1 = s\<lparr>sv_op_queue := sv_op_queue s @ [rq]\<rparr>; me = sv_my_ecu_id s in
      case sv_resp_queue s @ arrived of
        [] \<Rightarrow> (response_ecu_of me UNRECOVERABLE, s1\<lparr>sv_resp_queue := []\<rparr>)
      | ItemOther _ # q \<Rightarrow> (response_ecu_of me RECOVERABLE, s1\<lparr>sv_resp_queue := q\<rparr>)
      | ItemResponse r # q \<Rightarrow>
          (response_ecu_of me
             (if res_session_id r \<noteq> ipc_session_id rq then RECOVERABLE
              else if res r = IPC_ACCEPT then NO_FAILURE else RECOVERABLE),
           s1\<lparr>sv_resp_queue := q\<rparr>))"

text \<open>\<^verbatim>\<open>_create_local_request\<close> for an update and a client update; \<open>sess\<close> is \<^verbatim>\<open>gen_session_id\<close>.\<close>

datatype update_kind = OTA_UPDATE | CLIENT_UPDATE

definition create_local_request ::
  "update_kind \<Rightarrow> (string \<Rightarrow> string) \<Rightarrow> update_request_ecu \<Rightarrow> string \<Rightarrow> ipc_request" where
  "create_local_request k sess q rid =
     (let u = \<lparr>rq_request_id = rid, rq_session_id = sess (qe_version q), rq_version = qe_version q,
            rq_url_base = qe_url q, rq_cookies_json = qe_cookies q,
            rq_release_name = qe_release_name q, rq_release_id = qe_release_id q,
            rq_image_id = qe_image_id q\<rparr>
      in case k of OTA_UPDATE \<Rightarrow> UpdateRequestV2 u | CLIENT_UPDATE \<Rightarrow> ClientUpdateRequestV2 u)"

section \<open>Update requests\<close>

datatype remote_result = RemoteOk update_response | RemoteNoResponse string

text \<open>The handling of the finished call to one ECU.\<close>

definition handle_remote ::
  "(string \<Rightarrow> remote_result) \<Rightarrow> string \<Rightarrow> update_response \<times> string set \<Rightarrow> update_response \<times> string set" where
  "handle_remote remote i st = (case (remote i, st) of
     (RemoteOk r, resp, acked) \<Rightarrow> (merge_response resp r, acked \<union> ecus_acked_update r)
   | (RemoteNoResponse _, resp, acked) \<Rightarrow> (add_response_ecu (response_ecu_of i RECOVERABLE) resp, acked))"

text \<open>
  \<^verbatim>\<open>_handle_update_request\<close>: \<open>info_ok\<close> is \<^verbatim>\<open>ECU_INFO_LOADED_SUCCESSFULLY\<close>, \<open>remote\<close> the outcome of the call
  of an ECU with the request, \<open>order\<close> the order in which \<^verbatim>\<open>asyncio.wait\<close> yields the finished calls.
\<close>

definition handle_update_request ::
  "update_kind \<Rightarrow> bool \<Rightarrow> int \<Rightarrow> string \<Rightarrow> (string \<Rightarrow> string) \<Rightarrow>
   (string \<Rightarrow> update_request \<Rightarrow> remote_result) \<Rightarrow> (string list \<Rightarrow> string list) \<Rightarrow> ipc_item list \<Rightarrow>
   update_request \<Rightarrow> servicer \<Rightarrow> update_response \<times> servicer" where
  "handle_update_request k info_ok now new_id sess remote order arrived request s =
     (let rq = (if uq_request_id request = '''' then request\<lparr>uq_request_id := new_id\<rparr> else request) in
      if \<not> info_ok
      then (fold (\<lambda>q r. add_response_ecu (response_ecu_of (qe_ecu_id q) UNRECOVERABLE) r) (uq_ecu rq)
              \<lparr>ur_ecu = []\<rparr>, s)
      else
        let called = filter (if_contains_ecu qe_ecu_id (uq_ecu rq)) (sv_sub_ecus s);
            (resp, acked) = fold (handle_remote (\<lambda>i. remote i rq)) (order called) (\<lparr>ur_ecu = []\<rparr>, {});
            (resp', acked', s') =
              (case find_ecu qe_ecu_id (uq_ecu rq) (sv_my_ecu_id s) of
                 None \<Rightarrow> (resp, acked, s)
               | Some q \<Rightarrow>
                   let (e, s1) = dispatch_local_request arrived
                         (create_local_request k sess q (uq_request_id rq)) s
                   in (add_response_ecu e resp,
                       (if re_result e = NO_FAILURE then insert (sv_my_ecu_id s) acked else acked), s1))
        in (resp', if acked' = {} then s'
              else s'\<lparr>sv_storage := on_ecus_accept_update_request now acked' (sv_storage s')\<rparr>))"

section \<open>Abort and rollback\<close>

definition abort_ecu_of :: "string \<Rightarrow> abort_failure_type \<Rightarrow> string \<Rightarrow> abort_response_ecu" where
  "abort_ecu_of i ft m = \<lparr>ab_ecu_id = i, ab_result = ft, ab_message = m\<rparr>"

definition handle_abort_request ::
  "ipc_item list \<Rightarrow> ipc_request \<Rightarrow> servicer \<Rightarrow> abort_response_ecu \<times> servicer" where
  "handle_abort_request arrived rq s =
     (let s1 = s\<lparr>sv_op_queue := sv_op_queue s @ [rq]\<rparr>; me = sv_my_ecu_id s in
      case sv_resp_queue s @ arrived of
        [] \<Rightarrow> (abort_ecu_of me ABORT_FAILURE ''Failed to process abort request: Empty()'',
               s1\<lparr>sv_resp_queue := []\<rparr>)
      | ItemOther t # q \<Rightarrow>
          (abort_ecu_of me ABORT_FAILURE (''Unexpected response type: '' @ t), s1\<lparr>sv_resp_queue := q\<rparr>)
      | ItemResponse r # q \<Rightarrow>
          (if res_session_id r \<noteq> ipc_session_id rq
           then abort_ecu_of me ABORT_FAILURE (''Mismatched session_id: '' @ res_session_id r)
           else abort_ecu_of me (if res r = IPC_ACCEPT then ABORT_NO_FAILURE else ABORT_FAILURE) (msg r),
           s1\<lparr>sv_resp_queue := q\<rparr>))"

datatype abort_result = AbortOk abort_response | AbortNotSupported | AbortNoResponse string

definition handle_remote_abort ::
  "(string \<Rightarrow> abort_result) \<Rightarrow> string \<Rightarrow> abort_response \<Rightarrow> abort_response" where
  "handle_remote_abort remote i resp = (case remote i of
     AbortOk r \<Rightarrow> merge_abort resp r
   | AbortNotSupported \<Rightarrow> add_abort_ecu (abort_ecu_of i ABORT_FAILURE (''ECU '' @ i @
       '' does not support the abort endpoint (UNIMPLEMENTED)'')) resp
   | AbortNoResponse m \<Rightarrow> add_abort_ecu (abort_ecu_of i ABORT_FAILURE m) resp)"

definition servicer_abort ::
  "string \<Rightarrow> (string \<Rightarrow> string) \<Rightarrow> (string \<Rightarrow> abort_result) \<Rightarrow> (string list \<Rightarrow> string list) \<Rightarrow>
   ipc_item list \<Rightarrow> string \<Rightarrow> servicer \<Rightarrow> abort_response \<times> servicer" where
  "servicer_abort new_id sess remote order arrived request_id s =
     (let rid = (if request_id = '''' then new_id else request_id);
          resp = fold (handle_remote_abort remote) (order (sv_sub_ecus s)) \<lparr>abr_ecu = []\<rparr>;
          (e, s1) = handle_abort_request arrived (AbortRequestV2 rid (sess ''__abort'')) s
      in (add_abort_ecu e resp, s1))"

definition servicer_rollback :: "string list \<Rightarrow> update_response" where
  "servicer_rollback ids = \<lparr>ur_ecu = map (\<lambda>i. \<lparr>re_ecu_id = i, re_result = RECOVERABLE,
     re_message = ''rollback API support is removed''\<rparr>) ids\<rparr>"

section \<open>Facts\<close>

lemma acked_add:
  "ecus_acked_update (add_response_ecu e r) =
     ecus_acked_update r \<union> (if re_result e = NO_FAILURE then {re_ecu_id e} else {})"
  by (auto simp: ecus_acked_update_def add_response_ecu_def)

lemma acked_merge: "ecus_acked_update (merge_response r r') = ecus_acked_update r \<union> ecus_acked_update r'"
  by (auto simp: ecus_acked_update_def merge_response_def)

lemma acked_Nil [simp]: "ecus_acked_update \<lparr>ur_ecu = []\<rparr> = {}"
  by (simp add: ecus_acked_update_def)

lemma handle_remotes_acked:
  "acked = ecus_acked_update resp \<Longrightarrow>
   fold (handle_remote remote) cs (resp, acked) = (resp', acked') \<Longrightarrow> acked' = ecus_acked_update resp'"
proof (induction cs arbitrary: resp acked)
  case (Cons c cs)
  obtain r1 a1 where 1: "handle_remote remote c (resp, acked) = (r1, a1)"
    by (cases "handle_remote remote c (resp, acked)")
  have "a1 = ecus_acked_update r1"
    using 1 Cons.prems(1)
    by (auto simp: handle_remote_def acked_add acked_merge response_ecu_of_def
        split: remote_result.splits)
  then show ?case using Cons.IH Cons.prems(2) 1 by simp
qed simp

lemma handle_remotes_mono:
  "fold (handle_remote remote) cs (resp, acked) = (resp', acked') \<Longrightarrow> set (ur_ecu resp) \<subseteq> set (ur_ecu resp')"
proof (induction cs arbitrary: resp acked)
  case (Cons c cs)
  obtain r1 a1 where 1: "handle_remote remote c (resp, acked) = (r1, a1)"
    by (cases "handle_remote remote c (resp, acked)")
  have "set (ur_ecu resp) \<subseteq> set (ur_ecu r1)"
    using 1 by (auto simp: handle_remote_def add_response_ecu_def merge_response_def
        split: remote_result.splits)
  moreover have "set (ur_ecu r1) \<subseteq> set (ur_ecu resp')" using Cons.IH Cons.prems 1 by simp
  ultimately show ?case by blast
qed simp

lemma handle_remotes_cover:
  assumes "\<And>c r. c \<in> set cs \<Longrightarrow> remote c = RemoteOk r \<Longrightarrow> c \<in> re_ecu_id ` set (ur_ecu r)"
    and "fold (handle_remote remote) cs (resp, acked) = (resp', acked')"
  shows "set cs \<subseteq> re_ecu_id ` set (ur_ecu resp')"
  using assms
proof (induction cs arbitrary: resp acked)
  case (Cons c cs)
  obtain r1 a1 where 1: "handle_remote remote c (resp, acked) = (r1, a1)"
    by (cases "handle_remote remote c (resp, acked)")
  have "c \<in> re_ecu_id ` set (ur_ecu r1)"
    using 1 Cons.prems(1) [of c]
    by (auto simp: handle_remote_def add_response_ecu_def merge_response_def response_ecu_of_def
        image_Un split: remote_result.splits)
  moreover have rest: "fold (handle_remote remote) cs (r1, a1) = (resp', acked')"
    using Cons.prems(2) 1 by simp
  ultimately show ?case
    using Cons.IH [OF _ rest] Cons.prems(1) handle_remotes_mono [OF rest] by auto
qed simp

lemma dispatch_fields:
  "dispatch_local_request arrived rq s = (e, s1) \<Longrightarrow>
   re_ecu_id e = sv_my_ecu_id s \<and> sv_storage s1 = sv_storage s \<and> sv_my_ecu_id s1 = sv_my_ecu_id s"
  by (auto simp: dispatch_local_request_def response_ecu_of_def Let_def
      split: list.splits ipc_item.splits)

text \<open>
  The ECU storage is told of exactly the ECUs that the response reports as having accepted.
  Whatever the other ECUs and the local OTA core answer and in whatever order, the storage enters its
  update mode for the set of ECUs with result NO_FAILURE in the response that is sent back, and is left
  alone when there is none.
\<close>

lemma acked_ecus_match_response:
  assumes "handle_update_request k info_ok now new_id sess remote order arrived request s = (resp, s')"
    and "info_ok"
  shows "sv_storage s' = (if ecus_acked_update resp = {} then sv_storage s
    else on_ecus_accept_update_request now (ecus_acked_update resp) (sv_storage s))"
proof -
  let ?rq = "if uq_request_id request = '''' then request\<lparr>uq_request_id := new_id\<rparr> else request"
  let ?called = "filter (if_contains_ecu qe_ecu_id (uq_ecu ?rq)) (sv_sub_ecus s)"
  obtain r a where ra: "fold (handle_remote (\<lambda>i. remote i ?rq)) (order ?called) (\<lparr>ur_ecu = []\<rparr>, {}) = (r, a)"
    by (metis surj_pair)
  have a: "a = ecus_acked_update r" by (rule handle_remotes_acked [OF _ ra]) simp
  show ?thesis
  proof (cases "find_ecu qe_ecu_id (uq_ecu ?rq) (sv_my_ecu_id s)")
    case None
    then show ?thesis
      using assms ra a unfolding handle_update_request_def by (auto simp: Let_def split: if_splits)
  next
    case (Some q)
    obtain e s1 where d: "dispatch_local_request arrived
        (create_local_request k sess q (uq_request_id ?rq)) s = (e, s1)"
      by (metis surj_pair)
    then show ?thesis
      using assms ra a Some dispatch_fields [OF d] unfolding handle_update_request_def
      by (auto simp: Let_def acked_add split: if_splits)
  qed
qed

text \<open>
  No requested ECU is left without an answer. The response has an entry for this ECU, if it
  is requested, and for every directly connected ECU that is requested, whether its call succeeds (its
  own response then lists it) or times out; with an unusable ECU configuration every requested ECU is
  answered UNRECOVERABLE and nothing is dispatched.
\<close>

lemma requested_ecus_answered:
  assumes "handle_update_request k info_ok now new_id sess remote order arrived request s = (resp, s')"
    and "\<And>xs. set (order xs) = set xs"
    and "\<And>c rq r. remote c rq = RemoteOk r \<Longrightarrow> c \<in> re_ecu_id ` set (ur_ecu r)"
  shows "qe_ecu_id ` set (uq_ecu request) \<inter> insert (sv_my_ecu_id s) (set (sv_sub_ecus s)) \<subseteq>
      re_ecu_id ` set (ur_ecu resp) \<and>
    (\<not> info_ok \<longrightarrow> s' = s \<and> re_ecu_id ` set (ur_ecu resp) = qe_ecu_id ` set (uq_ecu request) \<and>
       (\<forall>e\<in>set (ur_ecu resp). re_result e = UNRECOVERABLE))"
proof (cases info_ok)
  case False
  let ?rej = "\<lambda>q. response_ecu_of (qe_ecu_id q) UNRECOVERABLE"
  have rej: "set (ur_ecu (fold (\<lambda>q r. add_response_ecu (?rej q) r) qs r0)) =
      set (ur_ecu r0) \<union> ?rej ` set qs" for qs r0
    by (induction qs arbitrary: r0) (auto simp: add_response_ecu_def)
  have "s' = s" "set (ur_ecu resp) = ?rej ` set (uq_ecu request)"
    using assms(1) False rej [of "uq_ecu request" "\<lparr>ur_ecu = []\<rparr>"]
    by (auto simp: handle_update_request_def Let_def split: if_splits)
  then show ?thesis
    using False by (auto simp: response_ecu_of_def image_image)
next
  case True
  let ?rq = "if uq_request_id request = '''' then request\<lparr>uq_request_id := new_id\<rparr> else request"
  let ?called = "filter (if_contains_ecu qe_ecu_id (uq_ecu ?rq)) (sv_sub_ecus s)"
  have ecus: "uq_ecu ?rq = uq_ecu request" by simp
  obtain r a where ra: "fold (handle_remote (\<lambda>i. remote i ?rq)) (order ?called) (\<lparr>ur_ecu = []\<rparr>, {}) = (r, a)"
    by (metis surj_pair)
  have "set (order ?called) \<subseteq> re_ecu_id ` set (ur_ecu r)"
    by (rule handle_remotes_cover [OF assms(3) ra])
  then have cover: "qe_ecu_id ` set (uq_ecu request) \<inter> set (sv_sub_ecus s) \<subseteq> re_ecu_id ` set (ur_ecu r)"
    unfolding assms(2) using ecus by (auto simp: if_contains_ecu_iff)
  show ?thesis
  proof (cases "find_ecu qe_ecu_id (uq_ecu ?rq) (sv_my_ecu_id s)")
    case None
    then have "sv_my_ecu_id s \<notin> qe_ecu_id ` set (uq_ecu request)"
      unfolding ecus by (auto simp: find_ecu_def find_None_iff_all)
    moreover have "resp = r"
      using assms(1) True ra None unfolding handle_update_request_def by (auto simp: Let_def split: if_splits)
    ultimately show ?thesis using cover True by auto
  next
    case (Some q)
    obtain e s1 where d: "dispatch_local_request arrived
        (create_local_request k sess q (uq_request_id ?rq)) s = (e, s1)"
      by (metis surj_pair)
    have "resp = add_response_ecu e r"
      using assms(1) True ra Some d unfolding handle_update_request_def by (auto simp: Let_def split: if_splits)
    then show ?thesis
      using cover True dispatch_fields [OF d] by (auto simp: add_response_ecu_def)
  qed
qed

subsection \<open>The response queue\<close>

text \<open>
  A sequence of local requests, each of which the OTA core answers in time with the given result.
\<close>

fun dispatch_all ::
  "(ipc_request \<times> ipc_res) list \<Rightarrow> servicer \<Rightarrow> failure_type list \<times> servicer" where
  "dispatch_all [] s = ([], s)"
| "dispatch_all ((rq, a) # rqs) s =
     (let (e, s1) = dispatch_local_request
            [ItemResponse \<lparr>res = a, res_session_id = ipc_session_id rq, msg = ''''\<rparr>] rq s;
          (fs, s2) = dispatch_all rqs s1
      in (re_result e # fs, s2))"


text \<open>
  One late response puts the queue out of step for good. If a response that came after its
  request had timed out is still on the queue, every later local request is answered RECOVERABLE,
  whatever the OTA core answers and however fast, because each reads the response to the request
  before it; requests that were accepted are reported as failed, and one response stays on the queue.
\<close>

lemma late_response_desyncs:
  assumes "sv_resp_queue s = [ItemResponse x]"
    and "res_session_id x \<notin> ipc_session_id ` fst ` set rqs"
    and "distinct (map (ipc_session_id \<circ> fst) rqs)"
  shows "fst (dispatch_all rqs s) = replicate (length rqs) RECOVERABLE \<and>
    length (sv_resp_queue (snd (dispatch_all rqs s))) = 1"
  using assms
proof (induction rqs arbitrary: s x)
  case (Cons y rqs)
  obtain rq a where y: "y = (rq, a)" by (cases y)
  let ?r = "\<lparr>res = a, res_session_id = ipc_session_id rq, msg = ''''\<rparr>"
  obtain s1 where d: "dispatch_local_request [ItemResponse ?r] rq s =
      (response_ecu_of (sv_my_ecu_id s) RECOVERABLE, s1)" "sv_resp_queue s1 = [ItemResponse ?r]"
    using Cons.prems(1,2) by (simp add: dispatch_local_request_def y Let_def)
  have "fst (dispatch_all rqs s1) = replicate (length rqs) RECOVERABLE \<and>
      length (sv_resp_queue (snd (dispatch_all rqs s1))) = 1"
    using Cons.prems(3) by (intro Cons.IH [OF d(2)]) (auto simp: y image_image)
  then show ?case
    using d(1) by (cases "dispatch_all rqs s1") (simp add: y response_ecu_of_def)
qed simp

subsection \<open>Abort\<close>

lemma remote_aborts_cover:
  assumes "\<And>c r. remote c = AbortOk r \<Longrightarrow> c \<in> ab_ecu_id ` set (abr_ecu r)"
  shows "set cs \<union> ab_ecu_id ` set (abr_ecu base) \<subseteq>
    ab_ecu_id ` set (abr_ecu (fold (handle_remote_abort remote) cs base))"
proof (induction cs arbitrary: base)
  case (Cons c cs)
  define base' where "base' = handle_remote_abort remote c base"
  have "insert c (ab_ecu_id ` set (abr_ecu base)) \<subseteq> ab_ecu_id ` set (abr_ecu base')"
    using assms [of c] unfolding base'_def
    by (auto simp: handle_remote_abort_def merge_abort_def add_abort_ecu_def abort_ecu_of_def image_Un
        split: abort_result.splits)
  moreover have "fold (handle_remote_abort remote) (c # cs) base =
      fold (handle_remote_abort remote) cs base'"
    by (simp add: base'_def)
  moreover have "set cs \<union> ab_ecu_id ` set (abr_ecu base') \<subseteq>
      ab_ecu_id ` set (abr_ecu (fold (handle_remote_abort remote) cs base'))"
    by (rule Cons.IH)
  ultimately show ?case unfolding list.set by (simp only:) blast
qed simp

text \<open>
  An abort reaches every ECU and is answered for every one. The response lists every
  directly connected ECU, with a failure for one that does not respond or does not know the request,
  and this ECU last; this ECU's entry is a success exactly when the item it reads from the queue is an
  acceptance with the session id of this very request; and exactly one abort request was put on the
  queue of the OTA core.
\<close>

lemma abort_answered_by_all:
  assumes "servicer_abort new_id sess remote order arrived rid s = (resp, s')"
    and "\<And>xs. set (order xs) = set xs"
    and "\<And>c r. remote c = AbortOk r \<Longrightarrow> c \<in> ab_ecu_id ` set (abr_ecu r)"
  shows "set (sv_sub_ecus s) \<union> {sv_my_ecu_id s} \<subseteq> ab_ecu_id ` set (abr_ecu resp) \<and>
    ab_ecu_id (last (abr_ecu resp)) = sv_my_ecu_id s \<and>
    (ab_result (last (abr_ecu resp)) = ABORT_NO_FAILURE \<longleftrightarrow>
      (\<exists>r q. sv_resp_queue s @ arrived = ItemResponse r # q \<and> res r = IPC_ACCEPT \<and>
         res_session_id r = sess ''__abort'')) \<and>
    (\<exists>i. sv_op_queue s' = sv_op_queue s @ [AbortRequestV2 i (sess ''__abort'')])"
proof -
  let ?rq = "AbortRequestV2 (if rid = '''' then new_id else rid) (sess ''__abort'')"
  let ?r = "fold (handle_remote_abort remote) (order (sv_sub_ecus s)) \<lparr>abr_ecu = []\<rparr>"
  obtain e where e: "handle_abort_request arrived ?rq s = (e, s')" "resp = add_abort_ecu e ?r"
    using assms(1) by (auto simp: servicer_abort_def Let_def split: prod.splits)
  have "set (sv_sub_ecus s) \<subseteq> ab_ecu_id ` set (abr_ecu ?r)"
    using remote_aborts_cover [OF assms(3), where cs = "order (sv_sub_ecus s)"
        and base = "\<lparr>abr_ecu = []\<rparr>"] assms(2) by auto
  moreover have "ab_ecu_id e = sv_my_ecu_id s \<and> (ab_result e = ABORT_NO_FAILURE \<longleftrightarrow>
      (\<exists>r q. sv_resp_queue s @ arrived = ItemResponse r # q \<and> res r = IPC_ACCEPT \<and>
         res_session_id r = sess ''__abort'')) \<and> sv_op_queue s' = sv_op_queue s @ [?rq]"
    using e(1) unfolding handle_abort_request_def
    by (auto simp: Let_def abort_ecu_of_def split: list.splits ipc_item.splits if_splits)
  ultimately show ?thesis
    using e(2) by (auto simp: add_abort_ecu_def)
qed

section \<open>Witnesses\<close>

definition ex_servicer :: servicer where
  "ex_servicer = \<lparr>sv_my_ecu_id = ''main'', sv_sub_ecus = [''sub''], sv_op_queue = [],
     sv_resp_queue = [], sv_storage = ex_storage\<rparr>"

definition ex_update_request :: update_request where
  "ex_update_request = \<lparr>uq_ecu = [\<lparr>qe_ecu_id = ''sub'', qe_version = ''v2'', qe_url = '''',
     qe_cookies = ''{}'', qe_release_name = '''', qe_release_id = '''', qe_image_id = ''''\<rparr>],
     uq_request_id = ''r1''\<rparr>"

definition ex_remote :: "string \<Rightarrow> update_request \<Rightarrow> remote_result" where
  "ex_remote i _ = RemoteOk \<lparr>ur_ecu = [response_ecu_of i NO_FAILURE]\<rparr>"

lemma ex_acked: "ecus_acked_update \<lparr>ur_ecu = [response_ecu_of i NO_FAILURE]\<rparr> = {i}"
  by (auto simp: ecus_acked_update_def response_ecu_of_def)

lemma ex_handled: "handle_update_request OTA_UPDATE True 100 ''r0'' (\<lambda>v. v) ex_remote (\<lambda>xs. xs) []
    ex_update_request ex_servicer = (\<lparr>ur_ecu = [response_ecu_of ''sub'' NO_FAILURE]\<rparr>,
      ex_servicer\<lparr>sv_storage := on_ecus_accept_update_request 100 {''sub''} ex_storage\<rparr>)"
  by (simp add: handle_update_request_def ex_update_request_def ex_servicer_def ex_remote_def
      if_contains_ecu_def find_ecu_def handle_remote_def merge_response_def ex_acked)

definition ex_abort_rq :: "string \<Rightarrow> ipc_request" where
  "ex_abort_rq i = RollbackRequestV2 ''r'' i"


end
