(* ===== verification/Py_Strings.thy ===== *)
theory Py_Strings
  imports Prelude
begin

text \<open>
  The string methods of the language that the parsers of the program use: \<^verbatim>\<open>str.split\<close> with a separator of one
  character, with and without \<^verbatim>\<open>maxsplit=1\<close>, \<^verbatim>\<open>str.join\<close>, \<^verbatim>\<open>str.strip\<close> with a character, and decimal numbers.
\<close>

section \<open>Splitting and joining\<close>

fun split_on :: "char \<Rightarrow> string \<Rightarrow> string list" where
  "split_on c [] = [[]]"
| "split_on c (x # xs) =
     (if x = c then [] # split_on c xs
      else case split_on c xs of [] \<Rightarrow> [[x]] | y # ys \<Rightarrow> (x # y) # ys)"

fun join_with :: "char \<Rightarrow> string list \<Rightarrow> string" where
  "join_with c [] = []"
| "join_with c [x] = x"
| "join_with c (x # y # ys) = x @ c # join_with c (y # ys)"

text \<open>\<^verbatim>\<open>k, *v = s.split(c, maxsplit=1)\<close>.\<close>

definition split_once :: "char \<Rightarrow> string \<Rightarrow> string \<times> string option" where
  "split_once c s = (takeWhile (\<lambda>x. x \<noteq> c) s,
     case dropWhile (\<lambda>x. x \<noteq> c) s of [] \<Rightarrow> None | _ # r \<Rightarrow> Some r)"

definition strip_char :: "char \<Rightarrow> string \<Rightarrow> string" where
  "strip_char c s = rev (dropWhile (\<lambda>x. x = c) (rev (dropWhile (\<lambda>x. x = c) s)))"

lemma split_on_ne [simp]: "split_on c s \<noteq> []"
  by (induction s) (auto split: list.splits)

lemma split_on_free [simp]: "c \<notin> set s \<Longrightarrow> split_on c s = [s]"
  by (induction s) auto

lemma split_on_append: "c \<notin> set s \<Longrightarrow> split_on c (s @ c # t) = s # split_on c t"
  by (induction s) auto

lemma split_join:
  "xs \<noteq> [] \<Longrightarrow> (\<And>x. x \<in> set xs \<Longrightarrow> c \<notin> set x) \<Longrightarrow> split_on c (join_with c xs) = xs"
  by (induction c xs rule: join_with.induct) (auto simp: split_on_append)

lemma join_split: "join_with c (split_on c s) = s"
proof (induction s)
  case (Cons x s)
  obtain y ys where y: "split_on c s = y # ys" by (metis split_on_ne neq_Nil_conv)
  show ?case using Cons y by (cases ys) auto
qed simp

lemma split_on_no_sep: "x \<in> set (split_on c s) \<Longrightarrow> c \<notin> set x"
proof (induction s arbitrary: x)
  case (Cons a s)
  obtain y ys where y: "split_on c s = y # ys" by (metis split_on_ne neq_Nil_conv)
  show ?case using Cons y by (auto split: if_splits)
qed simp

lemma split_once_pair: "c \<notin> set k \<Longrightarrow> split_once c (k @ c # v) = (k, Some v)"
  by (induction k) (auto simp: split_once_def)

lemma split_once_single: "c \<notin> set k \<Longrightarrow> split_once c k = (k, None)"
  by (induction k) (auto simp: split_once_def)

lemma strip_char_id:
  "s \<noteq> [] \<Longrightarrow> hd s \<noteq> c \<Longrightarrow> last s \<noteq> c \<Longrightarrow> strip_char c s = s"
  by (simp add: strip_char_def dropWhile_id_hd hd_rev)

lemma strip_char_snoc:
  assumes "s \<noteq> []" "hd s \<noteq> c" "last s \<noteq> c"
  shows "strip_char c (s @ [c]) = s"
proof -
  have "dropWhile (\<lambda>x. x = c) (s @ [c]) = s @ [c]"
    using assms(1,2) by (intro dropWhile_id_hd) simp
  then show ?thesis using assms by (simp add: strip_char_def dropWhile_id_hd hd_rev)
qed

lemma join_with_Cons: "xs \<noteq> [] \<Longrightarrow> join_with c (x # xs) = x @ c # join_with c xs"
  by (cases xs) auto

lemma join_with_hd: "xs \<noteq> [] \<Longrightarrow> hd xs \<noteq> [] \<Longrightarrow> join_with c xs \<noteq> [] \<and> hd (join_with c xs) = hd (hd xs)"
  by (cases xs rule: list.exhaust; cases "tl xs") (auto simp: join_with_Cons)

lemma join_with_last: "xs \<noteq> [] \<Longrightarrow> last xs \<noteq> [] \<Longrightarrow> last (join_with c xs) = last (last xs)"
proof (induction xs)
  case (Cons x xs)
  show ?case
  proof (cases xs)
    case (Cons y ys)
    then have ne: "join_with c xs \<noteq> []"
      using Cons.prems by (metis join_with.simps(2) join_with_Cons append_is_Nil_conv last.simps list.exhaust list.simps(3))
    then show ?thesis using Cons Cons.IH Cons.prems by (simp add: join_with_Cons)
  qed simp
qed simp

text \<open>A separator after every item is one item per separator and a trailing separator.\<close>

lemma concat_sep: "xs \<noteq> [] \<Longrightarrow> concat (map (\<lambda>x. x @ [c]) xs) = join_with c xs @ [c]"
proof (induction xs)
  case (Cons x xs)
  then show ?case by (cases "xs = []") (simp_all add: join_with_Cons)
qed simp

section \<open>Decimal numbers\<close>

definition is_digit :: "char \<Rightarrow> bool" where
  "is_digit c = (let n = of_char c :: nat in 48 \<le> n \<and> n \<le> 57)"

definition digit_val :: "char \<Rightarrow> nat" where
  "digit_val c = of_char c - 48"

text \<open>\<^verbatim>\<open>int(s)\<close> of a string of ASCII digits.\<close>

definition nat_of_digits :: "string \<Rightarrow> nat" where
  "nat_of_digits s = foldl (\<lambda>n c. 10 * n + digit_val c) 0 s"

lemma nat_of_digits_snoc: "nat_of_digits (s @ [c]) = 10 * nat_of_digits s + digit_val c"
  by (simp add: nat_of_digits_def)

lemma digit_of_digit_char: "is_digit (digit_char n) \<and> digit_val (digit_char n) = n mod 10"
proof -
  have "n mod 10 < 10" by simp
  then show ?thesis by (simp add: is_digit_def digit_val_def digit_char_def Let_def)
qed

text \<open>\<^verbatim>\<open>int(str(n)) == n\<close>.\<close>

lemma nat_str_digits: "nat_str n \<noteq> [] \<and> list_all is_digit (nat_str n)"
proof (induction n rule: nat_str.induct)
  case (1 n)
  then show ?case by (subst (1 2) nat_str.simps) (auto simp: digit_of_digit_char)
qed

lemma nat_of_nat_str: "nat_of_digits (nat_str n) = n"
proof (induction n rule: nat_str.induct)
  case (1 n)
  show ?case
  proof (cases "n < 10")
    case True
    then show ?thesis by (subst nat_str.simps) (simp add: nat_of_digits_def digit_of_digit_char)
  next
    case False
    then show ?thesis using 1 by (subst nat_str.simps) (simp add: nat_of_digits_snoc digit_of_digit_char)
  qed
qed

text \<open>Decimal digits are no white space and no sign.\<close>

lemma digit_plain: "is_digit c \<Longrightarrow> \<not> py_isspace c \<and> c \<noteq> CHR ''-''"
  by (auto simp: is_digit_def py_isspace_def Let_def)

end
