(* ===== verification/Cache_Control.thy ===== *)
theory Cache_Control
  imports Py_Strings
begin

text \<open>
  The \<^verbatim>\<open>ota-file-cache-control\<close> header of the OTA proxy (\<^verbatim>\<open>ota_proxy/cache_control_header.py\<close>): the two parsers
  of the header, the printer and the update of a header string. A directive without a value is parsed to
  \<^verbatim>\<open>True\<close>, one with a value to the string as it is, so a field of the parsed record holds a \<open>dir_val\<close>
  whatever type it is annotated with.
\<close>

section \<open>Data\<close>

datatype dir_val = V_True | V_False | V_None | V_Str string

text \<open>The truth value of a directive's value.\<close>

fun truthy :: "dir_val \<Rightarrow> bool" where
  "truthy V_True = True"
| "truthy V_False = False"
| "truthy V_None = False"
| "truthy (V_Str s) = (s \<noteq> [])"

record cache_control =
  no_cache :: dir_val
  retry_caching :: dir_val
  file_sha256 :: dir_val
  file_compression_alg :: dir_val

type_synonym directives = "(string \<times> dir_val) list"

definition OTAFileCacheControl_default :: cache_control where
  "OTAFileCacheControl_default = \<lparr> no_cache = V_False, retry_caching = V_False,
     file_sha256 = V_None, file_compression_alg = V_None \<rparr>"

definition VALID_DIRECTORIES :: "string list" where
  "VALID_DIRECTORIES = [''no_cache'', ''retry_caching'', ''file_sha256'', ''file_compression_alg'']"

definition HEADER_DIR_SEPARATOR :: char where
  "HEADER_DIR_SEPARATOR = CHR '',''"

section \<open>Parsing\<close>

text \<open>\<^verbatim>\<open>k, *v = c.strip().split("=", maxsplit=1)\<close> and \<^verbatim>\<open>v[0] if v else True\<close>.\<close>

definition parse_directive :: "string \<Rightarrow> string \<times> dir_val" where
  "parse_directive c = (case split_once (CHR ''='') (strip c) of (k, v) \<Rightarrow>
     (k, case v of None \<Rightarrow> V_True | Some x \<Rightarrow> V_Str x))"

definition setattr :: "cache_control \<Rightarrow> string \<Rightarrow> dir_val \<Rightarrow> cache_control" where
  "setattr r k v =
     (if k = ''no_cache'' then r\<lparr>no_cache := v\<rparr>
      else if k = ''retry_caching'' then r\<lparr>retry_caching := v\<rparr>
      else if k = ''file_sha256'' then r\<lparr>file_sha256 := v\<rparr>
      else if k = ''file_compression_alg'' then r\<lparr>file_compression_alg := v\<rparr>
      else r)"

fun parse_header_loop :: "string list \<Rightarrow> cache_control \<Rightarrow> cache_control" where
  "parse_header_loop [] r = r"
| "parse_header_loop (c # cs) r = (case parse_directive c of (k, v) \<Rightarrow>
     if k \<notin> set VALID_DIRECTORIES then parse_header_loop cs r
     else parse_header_loop cs (setattr r k v))"

definition parse_header :: "string \<Rightarrow> cache_control" where
  "parse_header inp =
     (if inp = [] then OTAFileCacheControl_default
      else parse_header_loop (split_on HEADER_DIR_SEPARATOR (strip inp)) OTAFileCacheControl_default)"

fun parse_asdict_loop :: "string list \<Rightarrow> directives \<Rightarrow> directives" where
  "parse_asdict_loop [] r = r"
| "parse_asdict_loop (c # cs) r = (case parse_directive c of (k, v) \<Rightarrow>
     if k \<notin> set VALID_DIRECTORIES then parse_asdict_loop cs r
     else parse_asdict_loop cs (AList.update k v r))"

definition parse_header_asdict :: "string \<Rightarrow> directives" where
  "parse_header_asdict inp =
     (if inp = [] then [] else parse_asdict_loop (split_on HEADER_DIR_SEPARATOR (strip inp)) [])"

section \<open>Printing\<close>

definition export_item :: "string \<times> dir_val \<Rightarrow> string" where
  "export_item kv = (case snd kv of V_Str s \<Rightarrow> fst kv @ ''='' @ s | _ \<Rightarrow> fst kv)"

fun export_loop :: "directives \<Rightarrow> string" where
  "export_loop [] = []"
| "export_loop ((k, v) # kvs) =
     (if k \<notin> set VALID_DIRECTORIES then export_loop kvs
      else if \<not> truthy v then export_loop kvs
      else export_item (k, v) @ [HEADER_DIR_SEPARATOR] @ export_loop kvs)"

definition export_kwargs_as_header_string :: "directives \<Rightarrow> string" where
  "export_kwargs_as_header_string kwargs =
     (if kwargs = [] then '''' else strip_char HEADER_DIR_SEPARATOR (export_loop kwargs))"

text \<open>\<^verbatim>\<open>dict.update\<close>.\<close>

definition dict_update :: "('k \<times> 'v) list \<Rightarrow> ('k \<times> 'v) list \<Rightarrow> ('k \<times> 'v) list" where
  "dict_update d kvs = foldl (\<lambda>m (k, v). AList.update k v m) d kvs"

definition update_header_str :: "string \<Rightarrow> directives \<Rightarrow> string" where
  "update_header_str inp kwargs =
     (if kwargs = [] then inp
      else export_kwargs_as_header_string (dict_update (parse_header_asdict inp) kwargs))"

section \<open>The two parsers agree\<close>

definition get_or :: "dir_val \<Rightarrow> directives \<Rightarrow> string \<Rightarrow> dir_val" where
  "get_or dflt d k = (case map_of d k of None \<Rightarrow> dflt | Some v \<Rightarrow> v)"

text \<open>The record with the defaults of \<open>r\<close> for the directives a dictionary does not have.\<close>

definition control_of :: "cache_control \<Rightarrow> directives \<Rightarrow> cache_control" where
  "control_of r d = \<lparr> no_cache = get_or (no_cache r) d ''no_cache'',
     retry_caching = get_or (retry_caching r) d ''retry_caching'',
     file_sha256 = get_or (file_sha256 r) d ''file_sha256'',
     file_compression_alg = get_or (file_compression_alg r) d ''file_compression_alg'' \<rparr>"

lemma control_of_update:
  "k \<in> set VALID_DIRECTORIES \<Longrightarrow> control_of r (AList.update k v d) = setattr (control_of r d) k v"
  by (auto simp: control_of_def setattr_def get_or_def VALID_DIRECTORIES_def update_conv)

lemma parse_loops_agree:
  "parse_header_loop cs (control_of r d) = control_of r (parse_asdict_loop cs d)"
  by (induction cs arbitrary: d) (auto simp: control_of_update [symmetric] split: prod.splits)

lemma control_of_Nil [simp]: "control_of r [] = r"
  by (simp add: control_of_def get_or_def)

lemma parse_header_control_of:
  "parse_header s = control_of OTAFileCacheControl_default (parse_header_asdict s)"
  using parse_loops_agree [of _ OTAFileCacheControl_default "[]"]
  by (simp add: parse_header_def parse_header_asdict_def)


section \<open>Printing and parsing\<close>

text \<open>What a value must be to survive the header: no separator in it, no white space at its end.\<close>

fun exportable :: "dir_val \<Rightarrow> bool" where
  "exportable (V_Str s) = (HEADER_DIR_SEPARATOR \<notin> set s \<and> (s \<noteq> [] \<longrightarrow> \<not> py_isspace (last s)))"
| "exportable _ = True"

abbreviation carried :: "string \<times> dir_val \<Rightarrow> bool" where
  "carried kv \<equiv> fst kv \<in> set VALID_DIRECTORIES \<and> truthy (snd kv)"

lemma valid_key:
  assumes "k \<in> set VALID_DIRECTORIES"
  shows "k \<noteq> []" "HEADER_DIR_SEPARATOR \<notin> set k" "CHR ''='' \<notin> set k" "\<not> py_isspace (hd k)"
    "\<not> py_isspace (last k)" "hd k \<noteq> HEADER_DIR_SEPARATOR" "last k \<noteq> HEADER_DIR_SEPARATOR"
  using assms by (auto simp: VALID_DIRECTORIES_def HEADER_DIR_SEPARATOR_def py_isspace_def)

lemma export_loop_items:
  "export_loop d = concat (map (\<lambda>x. x @ [HEADER_DIR_SEPARATOR]) (map export_item (filter carried d)))"
  by (induction d rule: export_loop.induct) auto

lemma export_item_facts:
  assumes "fst kv \<in> set VALID_DIRECTORIES" "truthy (snd kv)" "exportable (snd kv)"
  shows "export_item kv \<noteq> []" "hd (export_item kv) = hd (fst kv)"
    "\<not> py_isspace (last (export_item kv))" "HEADER_DIR_SEPARATOR \<notin> set (export_item kv)"
    "parse_directive (export_item kv) = kv"
proof -
  obtain k v where kv: "kv = (k, v)" by (cases kv)
  note k = valid_key [of k]
  have str: "stripped (export_item kv)"
    using assms k kv by (cases v) (auto simp: stripped_def export_item_def)
  show "export_item kv \<noteq> []" "hd (export_item kv) = hd (fst kv)"
    "\<not> py_isspace (last (export_item kv))" "HEADER_DIR_SEPARATOR \<notin> set (export_item kv)"
    using assms k kv
    by (cases v; auto simp: export_item_def HEADER_DIR_SEPARATOR_def)+
  show "parse_directive (export_item kv) = kv"
    using assms k kv strip_stripped [OF str]
    by (cases v) (auto simp: parse_directive_def export_item_def split_once_pair split_once_single)
qed

lemma parse_asdict_loop_items:
  assumes "\<forall>kv\<in>set d. carried kv \<and> exportable (snd kv)"
  shows "parse_asdict_loop (map export_item d) r = dict_update r d"
  using assms
proof (induction d arbitrary: r)
  case (Cons kv d)
  then show ?case using export_item_facts(5) [of kv]
    by (cases kv) (simp add: dict_update_def)
qed (simp add: dict_update_def)

lemma export_string:
  assumes "\<forall>kv\<in>set d. exportable (snd kv)" "filter carried d \<noteq> []"
  shows "export_kwargs_as_header_string d
    = join_with HEADER_DIR_SEPARATOR (map export_item (filter carried d))" (is "_ = join_with _ ?xs")
    and "stripped (join_with HEADER_DIR_SEPARATOR (map export_item (filter carried d)))"
proof -
  let ?c = HEADER_DIR_SEPARATOR
  have ne: "?xs \<noteq> []" using assms(2) by simp
  have all: "x \<noteq> [] \<and> \<not> py_isspace (hd x) \<and> \<not> py_isspace (last x) \<and> hd x \<noteq> ?c \<and> last x \<noteq> ?c"
    if "x \<in> set ?xs" for x
  proof -
    obtain kv where kv: "kv \<in> set d" "carried kv" "x = export_item kv" using \<open>x \<in> set ?xs\<close> by auto
    note f = export_item_facts [of kv] and k = valid_key [of "fst kv"]
    have e: "exportable (snd kv)" using assms(1) kv(1) by blast
    then have "last x \<in> set x" "?c \<notin> set x" using f kv(2,3) by simp_all
    then show ?thesis using f k kv(2,3) e by metis
  qed
  have h: "hd ?xs \<in> set ?xs" "last ?xs \<in> set ?xs" using ne by (simp_all only: hd_in_set last_in_set not_False_eq_True)
  have hd: "join_with ?c ?xs \<noteq> [] \<and> hd (join_with ?c ?xs) = hd (hd ?xs)"
    using ne all [OF h(1)] join_with_hd by blast
  have last: "last (join_with ?c ?xs) = last (last ?xs)"
    using ne all [OF h(2)] join_with_last by blast
  have "export_loop d = join_with ?c ?xs @ [?c]"
    unfolding export_loop_items by (rule concat_sep [OF ne])
  moreover have "strip_char ?c (join_with ?c ?xs @ [?c]) = join_with ?c ?xs"
    using hd last all [OF h(1)] all [OF h(2)] by (intro strip_char_snoc) auto
  ultimately show "export_kwargs_as_header_string d = join_with ?c ?xs"
    using assms(2) by (cases d) (simp_all add: export_kwargs_as_header_string_def del: export_loop.simps)
  show "stripped (join_with ?c ?xs)"
    using hd last all [OF h(1)] all [OF h(2)] by (simp add: stripped_def)
qed

lemma parse_export:
  assumes "\<forall>kv\<in>set d. exportable (snd kv)"
  shows "parse_header_asdict (export_kwargs_as_header_string d) = dict_update [] (filter carried d)"
proof (cases "filter carried d = []")
  case True
  then show ?thesis
    by (simp add: parse_header_asdict_def export_kwargs_as_header_string_def export_loop_items
        dict_update_def strip_char_def)
next
  case False
  let ?xs = "map export_item (filter carried d)"
  have "split_on HEADER_DIR_SEPARATOR (join_with HEADER_DIR_SEPARATOR ?xs) = ?xs"
    using False assms export_item_facts(4) by (intro split_join) auto
  moreover have "join_with HEADER_DIR_SEPARATOR ?xs \<noteq> []"
  proof -
    have "hd (filter carried d) \<in> set (filter carried d)" using False by (rule hd_in_set)
    then have "hd ?xs \<noteq> []"
      using False export_item_facts(1) [of "hd (filter carried d)"] assms
      by (simp add: list.map_sel(1))
    then show ?thesis using False join_with_hd [of ?xs HEADER_DIR_SEPARATOR] by simp
  qed
  ultimately show ?thesis
    using export_string [OF assms False] parse_asdict_loop_items [of "filter carried d" "[]"] assms
    by (simp add: parse_header_asdict_def strip_stripped)
qed

lemma dict_update_map_of: "map_of (dict_update d kvs) = map_of d ++ map_of (rev kvs)"
  by (induction kvs arbitrary: d) (auto simp: dict_update_def update_conv map_add_def split: option.splits)

lemma dict_update_distinct: "distinct (map fst d) \<Longrightarrow> distinct (map fst (dict_update d kvs))"
  by (induction kvs arbitrary: d) (auto simp: dict_update_def distinct_update)

lemma dict_update_mem: "kv \<in> set (dict_update d kvs) \<Longrightarrow> kv \<in> set d \<or> kv \<in> set kvs"
proof (induction kvs arbitrary: d)
  case (Cons kv' kvs)
  then show ?case by (cases kv; cases kv') (fastforce simp: dict_update_def dest: update_mem)
qed (simp add: dict_update_def)

text \<open>What the parser yields is a dictionary whose values survive the header again.\<close>

lemma parse_directive_exportable: "HEADER_DIR_SEPARATOR \<notin> set c \<Longrightarrow> exportable (snd (parse_directive c))"
proof -
  assume c: "HEADER_DIR_SEPARATOR \<notin> set c"
  have sub: "set (strip c) \<subseteq> set c"
    unfolding strip_def by (metis set_rev set_dropWhileD subsetI)
  show ?thesis
  proof (cases "snd (split_once (CHR ''='') (strip c))")
    case None
    then show ?thesis by (auto simp: parse_directive_def split: prod.splits)
  next
    case (Some r)
    then obtain x where dw: "dropWhile (\<lambda>x. x \<noteq> CHR ''='') (strip c) = x # r"
      by (auto simp: split_once_def split: list.splits)
    then obtain t where eq: "strip c = t @ x # r" by (metis takeWhile_dropWhile_id)
    then have "r \<noteq> [] \<Longrightarrow> last (strip c) = last r" by simp
    moreover have "stripped (strip c)" "strip c \<noteq> []" using stripped_strip dw by auto
    moreover have "HEADER_DIR_SEPARATOR \<notin> set r" using sub c eq by auto
    ultimately show ?thesis using Some
      by (auto simp: parse_directive_def stripped_def split: prod.splits)
  qed
qed

lemma parse_asdict_loop_inv:
  assumes "\<forall>kv\<in>set r. exportable (snd kv) \<and> fst kv \<in> set VALID_DIRECTORIES" "distinct (map fst r)"
    and "\<forall>c\<in>set cs. HEADER_DIR_SEPARATOR \<notin> set c"
  shows "(\<forall>kv\<in>set (parse_asdict_loop cs r). exportable (snd kv) \<and> fst kv \<in> set VALID_DIRECTORIES)
    \<and> distinct (map fst (parse_asdict_loop cs r))"
  using assms
proof (induction cs arbitrary: r)
  case (Cons c cs)
  obtain k v where p: "parse_directive c = (k, v)" by (cases "parse_directive c")
  have v: "exportable v" using parse_directive_exportable [of c] Cons.prems(3) p by simp
  show ?case
  proof (cases "k \<in> set VALID_DIRECTORIES")
    case True
    have "\<forall>kv\<in>set (AList.update k v r). exportable (snd kv) \<and> fst kv \<in> set VALID_DIRECTORIES"
    proof
      fix kv assume "kv \<in> set (AList.update k v r)"
      then have "kv = (k, v) \<or> kv \<in> set r" using update_mem [of "fst kv" "snd kv" k v r] by simp
      then show "exportable (snd kv) \<and> fst kv \<in> set VALID_DIRECTORIES" using Cons.prems(1) True v by auto
    qed
    moreover have "distinct (map fst (AList.update k v r))" using Cons.prems(2) by (rule distinct_update)
    moreover have "parse_asdict_loop (c # cs) r = parse_asdict_loop cs (AList.update k v r)" using p True by simp
    moreover have "\<forall>c\<in>set cs. HEADER_DIR_SEPARATOR \<notin> set c" using Cons.prems(3) by simp
    ultimately show ?thesis using Cons.IH [of "AList.update k v r"] by metis
  next
    case False
    then show ?thesis using Cons.IH [of r] Cons.prems p by simp
  qed
qed simp

lemma parse_header_asdict_inv:
  "\<forall>kv\<in>set (parse_header_asdict s). exportable (snd kv) \<and> fst kv \<in> set VALID_DIRECTORIES"
  "distinct (map fst (parse_header_asdict s))"
  using parse_asdict_loop_inv [of "[]" "split_on HEADER_DIR_SEPARATOR (strip s)"]
    split_on_no_sep [of _ HEADER_DIR_SEPARATOR "strip s"]
  by (simp_all add: parse_header_asdict_def)

lemma map_of_filter_distinct:
  "distinct (map fst d) \<Longrightarrow> map_of (filter P d) k
    = (case map_of d k of None \<Rightarrow> None | Some v \<Rightarrow> if P (k, v) then Some v else None)"
proof (induction d)
  case (Cons kv d)
  have "map_of d (fst kv) = None" using Cons.prems by (simp add: map_of_eq_None_iff)
  then show ?case using Cons by (cases kv) (auto split: option.splits)
qed simp

lemma map_of_rev_distinct: "distinct (map fst d) \<Longrightarrow> map_of (rev d) = map_of d"
  by (rule map_of_eqI) (auto simp: rev_map [symmetric] map_of_eq_Some_iff)

text \<open>What parsing an updated header yields for each directive.\<close>

lemma updated_header_lookup:
  assumes "kwargs \<noteq> []" and "\<forall>kv\<in>set kwargs. exportable (snd kv)"
  shows "map_of (parse_header_asdict (update_header_str s kwargs)) k =
    (if k \<notin> set VALID_DIRECTORIES then None
     else case map_of (dict_update (parse_header_asdict s) kwargs) k of
       None \<Rightarrow> None | Some v \<Rightarrow> if truthy v then Some v else None)"
proof -
  let ?d = "dict_update (parse_header_asdict s) kwargs"
  have d: "distinct (map fst ?d)" by (rule dict_update_distinct [OF parse_header_asdict_inv(2)])
  have "\<forall>kv\<in>set ?d. exportable (snd kv)"
    using parse_header_asdict_inv(1) assms(2) by (blast dest: dict_update_mem)
  then have "map_of (parse_header_asdict (update_header_str s kwargs)) k
      = map_of (dict_update [] (filter carried ?d)) k"
    using assms(1) by (simp add: update_header_str_def parse_export)
  also have "\<dots> = map_of (filter carried ?d) k"
    using d by (simp add: dict_update_map_of map_of_rev_distinct distinct_map_filter)
  also have "\<dots> = (case map_of ?d k of None \<Rightarrow> None | Some v \<Rightarrow> if carried (k, v) then Some v else None)"
    using d by (rule map_of_filter_distinct)
  finally show ?thesis by (simp split: option.splits)
qed

text \<open>
  C33: Updating a header with directives is visible to the next hop: whatever the header \<open>s\<close> was, parsing the
  updated string yields for every directive the new value, or the one \<open>s\<close> had when no new value is given, as
  long as that value is true; a false value (\<^verbatim>\<open>False\<close>, \<^verbatim>\<open>None\<close> or the empty string) removes the directive, and
  nothing but the four valid directives passes. The new values must have no comma and no white space at their
  end; this is all the header format asks of them.
\<close>

theorem updated_header_is_read_back:
  assumes "kwargs \<noteq> []" and "\<forall>kv\<in>set kwargs. exportable (snd kv)"
  shows "map_of (parse_header_asdict (update_header_str s kwargs)) k =
    (if k \<notin> set VALID_DIRECTORIES then None
     else case map_of (dict_update (parse_header_asdict s) kwargs) k of
       None \<Rightarrow> None | Some v \<Rightarrow> if truthy v then Some v else None)"
  by (rule updated_header_lookup [OF assms])

theorem updated_header_is_read_back_witness:
  "map_of (parse_header_asdict (update_header_str '' no_cache, file_sha256=aabb ,x=1''
       [(''retry_caching'', V_True), (''no_cache'', V_False), (''file_compression_alg'', V_Str ''zst'')])) ''file_sha256''
     = Some (V_Str ''aabb'')"
  using updated_header_is_read_back [of "[(''retry_caching'', V_True), (''no_cache'', V_False),
      (''file_compression_alg'', V_Str ''zst'')]" "'' no_cache, file_sha256=aabb ,x=1''" "''file_sha256''"]
  by (simp add: py_isspace_def HEADER_DIR_SEPARATOR_def VALID_DIRECTORIES_def dict_update_def
      parse_header_asdict_def strip_def parse_directive_def split_once_def)

text \<open>A value read from a header can be sent in one again, and is read back there.\<close>

lemma get_or_exportable:
  "exportable dflt \<Longrightarrow> exportable (get_or dflt (parse_header_asdict s) k)"
  using parse_header_asdict_inv(1) [of s] map_of_SomeD [of "parse_header_asdict s" k]
  by (fastforce simp: get_or_def split: option.splits)

lemma parsed_sha256_exportable: "exportable (file_sha256 (parse_header s))"
  by (simp add: parse_header_control_of control_of_def OTAFileCacheControl_default_def get_or_exportable)

lemma parse_header_export:
  assumes "\<forall>kv\<in>set d. carried kv \<and> exportable (snd kv)" and "distinct (map fst d)"
  shows "parse_header (export_kwargs_as_header_string d) = control_of OTAFileCacheControl_default d"
proof -
  have "map_of (parse_header_asdict (export_kwargs_as_header_string d)) = map_of d"
    using assms parse_export [of d] by (simp add: dict_update_map_of map_of_rev_distinct)
  then show ?thesis by (simp add: parse_header_control_of control_of_def get_or_def)
qed

end
