(* ===== verification/Cache_Index.thy ===== *)
theory Cache_Index
  imports Cache_Control
begin

text \<open>
  The in-memory index of the OTA proxy's cache and the thread that persists it (\<^verbatim>\<open>ota_proxy/cache_index.py\<close>,
  \<^verbatim>\<open>ota_proxy/db.py\<close> and the constants of \<^verbatim>\<open>ota_proxy/config.py\<close>). The index is a dictionary with a bound on its
  size; every change of it is queued for a writer thread that collects writes and deletions in two batches and
  applies them to an SQLite table. The table is a map from the primary key to the row, \<^verbatim>\<open>INSERT OR REPLACE\<close> and
  \<^verbatim>\<open>DELETE ... IN\<close> act on it as SQL says; whether a statement raises is a parameter of the flush.
\<close>

section \<open>Data\<close>

record cache_meta =
  cm_file_sha256 :: string
  cm_url :: string
  cm_bucket_idx :: int
  cm_last_access :: int
  cm_cache_size :: nat
  cm_file_compression_alg :: "string option"
  cm_content_encoding :: "string option"

type_synonym headers = "(string \<times> string) list"

record cache_index_entry =
  ie_cache_size :: nat
  ie_headers :: headers

type_synonym cache_db = "string \<Rightarrow> cache_meta option"

definition MAX_INDEX_ENTRIES :: nat where "MAX_INDEX_ENTRIES = 600000"
definition DB_FLUSH_BATCH_SIZE :: nat where "DB_FLUSH_BATCH_SIZE = 128"
definition PRELOAD_BATCH_REMOVE :: nat where "PRELOAD_BATCH_REMOVE = 128"
definition URL_BASED_HASH_PREFIX :: string where "URL_BASED_HASH_PREFIX = ''URL_''"
definition HEADER_CONTENT_ENCODING :: string where "HEADER_CONTENT_ENCODING = ''content-encoding''"
definition HEADER_OTA_FILE_CACHE_CONTROL :: string where
  "HEADER_OTA_FILE_CACHE_CONTROL = ''ota-file-cache-control''"

definition BUCKET_FILE_SIZE_LIST :: "nat list" where
  "BUCKET_FILE_SIZE_LIST = [0, 1 * 1024, 2 * 1024, 4 * 1024, 8 * 1024, 16 * 1024, 32 * 1024, 256 * 1024,
     1 * 1024 ^ 2, 8 * 1024 ^ 2, 16 * 1024 ^ 2, 32 * 1024 ^ 2]"

section \<open>Response headers\<close>

definition startswith :: "string \<Rightarrow> string \<Rightarrow> bool" where
  "startswith s p = (take (length p) s = p)"

definition build_index_entry_headers :: "string \<Rightarrow> string option \<Rightarrow> string option \<Rightarrow> headers" where
  "build_index_entry_headers sha256 encoding alg =
     (let res = (case encoding of Some e \<Rightarrow> if e \<noteq> [] then [(HEADER_CONTENT_ENCODING, e)] else [] | None \<Rightarrow> [])
      in if sha256 \<noteq> [] \<and> \<not> startswith sha256 URL_BASED_HASH_PREFIX
         then AList.update HEADER_OTA_FILE_CACHE_CONTROL
           (export_kwargs_as_header_string [(''file_sha256'', V_Str sha256),
             (''file_compression_alg'', V_Str (case alg of Some a \<Rightarrow> if a \<noteq> [] then a else [] | None \<Rightarrow> []))]) res
         else res)"

text \<open>\<^verbatim>\<open>CacheMeta.export_headers_to_client\<close>, the headers a subscriber of an ongoing caching gets.\<close>

definition export_headers_to_client :: "cache_meta \<Rightarrow> headers" where
  "export_headers_to_client m =
     (let res = (case cm_content_encoding m of Some e \<Rightarrow>
            if e \<noteq> [] then AList.update HEADER_CONTENT_ENCODING e [] else [] | None \<Rightarrow> [])
      in if cm_file_sha256 m \<noteq> [] \<and> \<not> startswith (cm_file_sha256 m) URL_BASED_HASH_PREFIX
         then AList.update HEADER_OTA_FILE_CACHE_CONTROL
           (export_kwargs_as_header_string [(''file_sha256'', V_Str (cm_file_sha256 m)),
             (''file_compression_alg'', V_Str (case cm_file_compression_alg m of Some a \<Rightarrow> a | None \<Rightarrow> []))]) res
         else res)"

definition entry_of :: "cache_meta \<Rightarrow> cache_index_entry" where
  "entry_of m = \<lparr> ie_cache_size = cm_cache_size m,
     ie_headers = build_index_entry_headers (cm_file_sha256 m) (cm_content_encoding m) (cm_file_compression_alg m) \<rparr>"

lemma same_headers: "ie_headers (entry_of m) = export_headers_to_client m"
  by (auto simp: entry_of_def build_index_entry_headers_def export_headers_to_client_def split: option.splits)

section \<open>The writer thread\<close>

datatype db_item = Item_Write cache_meta | Item_Delete string | Item_Stop

record db_writer =
  wr_queue :: "db_item list"
  wr_write_batch :: "cache_meta list"
  wr_delete_batch :: "string list"
  wr_db :: cache_db
  wr_stopped :: bool

text \<open>\<^verbatim>\<open>bisect.bisect_right\<close> on a sorted list.\<close>

definition bisect_right :: "nat list \<Rightarrow> nat \<Rightarrow> nat" where
  "bisect_right xs x = length (takeWhile (\<lambda>b. b \<le> x) xs)"

definition fill_bucket_idx :: "cache_meta \<Rightarrow> cache_meta" where
  "fill_bucket_idx m = m\<lparr>cm_bucket_idx := int (bisect_right BUCKET_FILE_SIZE_LIST (cm_cache_size m)) - 1\<rparr>"

definition insert_or_replace :: "cache_db \<Rightarrow> cache_meta \<Rightarrow> cache_db" where
  "insert_or_replace d m = d(cm_file_sha256 m := Some m)"

definition delete_in :: "string list \<Rightarrow> cache_db \<Rightarrow> cache_db" where
  "delete_in ks d = (\<lambda>k. if k \<in> set ks then None else d k)"

text \<open>
  The parameters say whether the statement succeeds; a failure is logged and the statement leaves the table as
  it was.
\<close>

definition flush_to_db :: "bool \<Rightarrow> bool \<Rightarrow> cache_meta list \<Rightarrow> string list \<Rightarrow> cache_db \<Rightarrow> cache_db" where
  "flush_to_db write_ok delete_ok write_batch delete_batch d =
     (let d1 = (if write_batch \<noteq> [] then
            (let filled = map fill_bucket_idx write_batch
             in if write_ok then foldl insert_or_replace d filled else d) else d)
      in if delete_batch \<noteq> [] then (if delete_ok then delete_in delete_batch d1 else d1) else d1)"

definition register_entry :: "cache_meta \<Rightarrow> db_writer \<Rightarrow> db_writer" where
  "register_entry m w = w\<lparr>wr_queue := wr_queue w @ [Item_Write m]\<rparr>"

definition writer_remove_entry :: "string \<Rightarrow> db_writer \<Rightarrow> db_writer" where
  "writer_remove_entry k w = w\<lparr>wr_queue := wr_queue w @ [Item_Delete k]\<rparr>"

definition close_writer :: "db_writer \<Rightarrow> db_writer" where
  "close_writer w = w\<lparr>wr_queue := wr_queue w @ [Item_Stop]\<rparr>"

text \<open>One turn of the loop: \<^verbatim>\<open>get\<close> times out on a queue that stays empty.\<close>

definition flush_if_due :: "bool \<Rightarrow> bool \<Rightarrow> bool \<Rightarrow> db_writer \<Rightarrow> db_writer" where
  "flush_if_due write_ok delete_ok wait_timeout w =
     (let total = length (wr_write_batch w) + length (wr_delete_batch w)
      in if total \<ge> DB_FLUSH_BATCH_SIZE \<or> (total > 0 \<and> wait_timeout)
         then w\<lparr>wr_db := flush_to_db write_ok delete_ok (wr_write_batch w) (wr_delete_batch w) (wr_db w),
                wr_write_batch := [], wr_delete_batch := []\<rparr>
         else w)"

definition writer_round :: "bool \<Rightarrow> bool \<Rightarrow> db_writer \<Rightarrow> db_writer" where
  "writer_round write_ok delete_ok w =
     (if wr_stopped w then w
      else case wr_queue w of
        [] \<Rightarrow> flush_if_due write_ok delete_ok True w
      | Item_Stop # q \<Rightarrow> w\<lparr>wr_queue := q, wr_stopped := True,
          wr_db := flush_to_db write_ok delete_ok (wr_write_batch w) (wr_delete_batch w) (wr_db w)\<rparr>
      | Item_Write m # q \<Rightarrow> flush_if_due write_ok delete_ok False
          (w\<lparr>wr_queue := q, wr_write_batch := wr_write_batch w @ [m]\<rparr>)
      | Item_Delete k # q \<Rightarrow> flush_if_due write_ok delete_ok False
          (w\<lparr>wr_queue := q, wr_delete_batch := wr_delete_batch w @ [k]\<rparr>))"

section \<open>The index\<close>

record cache_index =
  ci_index :: "(string \<times> cache_index_entry) list"
  ci_entries_exceeded_warned :: bool
  ci_db_writer :: "db_writer option"

definition lookup_entry :: "cache_index \<Rightarrow> string \<Rightarrow> cache_index_entry option" where
  "lookup_entry ci k = map_of (ci_index ci) k"

definition remove_entry :: "string \<Rightarrow> cache_index \<Rightarrow> cache_index" where
  "remove_entry k ci = ci\<lparr>ci_index := AList.delete k (ci_index ci),
     ci_db_writer := map_option (writer_remove_entry k) (ci_db_writer ci)\<rparr>"

definition commit_entry :: "int \<Rightarrow> cache_meta \<Rightarrow> cache_index \<Rightarrow> bool \<times> cache_index" where
  "commit_entry now m0 ci =
     (let m = m0\<lparr>cm_last_access := now\<rparr>; key = cm_file_sha256 m; index_entry = entry_of m
      in if length (ci_index ci) \<ge> MAX_INDEX_ENTRIES
         then (False, ci\<lparr>ci_entries_exceeded_warned := True\<rparr>)
         else (True, ci\<lparr>ci_index := AList.update key index_entry (ci_index ci),
                        ci_db_writer := map_option (register_entry m) (ci_db_writer ci)\<rparr>))"

definition close_index :: "cache_index \<Rightarrow> cache_index" where
  "close_index ci = ci\<lparr>ci_db_writer := map_option close_writer (ci_db_writer ci)\<rparr>"

section \<open>Loading the index at start\<close>

text \<open>The rows come in the order of the query; \<open>exists_file\<close> is \<^verbatim>\<open>os.path.exists\<close> of the file of a key.\<close>

fun preload_loop :: "(string \<Rightarrow> bool) \<Rightarrow> cache_meta list \<Rightarrow> nat \<Rightarrow> (string \<times> cache_index_entry) list
  \<Rightarrow> string list \<Rightarrow> (string \<times> cache_index_entry) list \<times> string list" where
  "preload_loop exists_file [] cnt res to_remove = (res, to_remove)"
| "preload_loop exists_file (row # rows) cnt res to_remove =
     (if cnt < MAX_INDEX_ENTRIES then
        (if cm_cache_size row \<noteq> 0 \<and> \<not> exists_file (cm_file_sha256 row)
         then preload_loop exists_file rows cnt res (to_remove @ [cm_file_sha256 row])
         else preload_loop exists_file rows (cnt + 1)
                (AList.update (cm_file_sha256 row) (entry_of row) res) to_remove)
      else preload_loop exists_file rows cnt res (to_remove @ [cm_file_sha256 row]))"

definition preload_from_db :: "(string \<Rightarrow> bool) \<Rightarrow> cache_meta list \<Rightarrow> (string \<times> cache_index_entry) list \<times> string list" where
  "preload_from_db exists_file rows = preload_loop exists_file rows 0 [] []"

text \<open>\<^verbatim>\<open>batched\<close> of \<^verbatim>\<open>ota_proxy/utils.py\<close>; the call with \<^verbatim>\<open>n < 1\<close> raises.\<close>

function batched :: "'a list \<Rightarrow> nat \<Rightarrow> 'a list list" where
  "batched xs n = (if n < 1 \<or> xs = [] then [] else take n xs # batched (drop n xs) n)"
  by auto

termination by (relation "measure (\<lambda>(xs, n). length xs)") auto

definition preload_cleanup_cache_db_entries :: "string list \<Rightarrow> cache_db \<Rightarrow> cache_db" where
  "preload_cleanup_cache_db_entries exceed d = foldl (\<lambda>d b. delete_in b d) d (batched exceed PRELOAD_BATCH_REMOVE)"

text \<open>
  \<^verbatim>\<open>FileNotFoundError\<close> is ignored; another error of the \<open>n\<close>-th \<^verbatim>\<open>unlink\<close> ends the loop (\<open>raise_at = Some n\<close>).
\<close>

fun preload_cleanup_cache_files :: "nat option \<Rightarrow> string list \<Rightarrow> (string \<Rightarrow> bool) \<Rightarrow> bool \<times> (string \<Rightarrow> bool)" where
  "preload_cleanup_cache_files raise_at [] files = (True, files)"
| "preload_cleanup_cache_files (Some 0) (h # exceed) files = (False, files)"
| "preload_cleanup_cache_files (Some (Suc n)) (h # exceed) files =
     preload_cleanup_cache_files (Some n) exceed (files(h := False))"
| "preload_cleanup_cache_files None (h # exceed) files = preload_cleanup_cache_files None exceed (files(h := False))"

text \<open>
  What can happen while the index starts: the check of the table raises, fails or passes; the query or the
  clean-up may raise; making the table anew may raise. \<open>st_rows\<close> is the answer of the query.
\<close>

record index_start =
  st_check_db :: "bool option"
  st_rows :: "cache_meta list option"
  st_unlink_raises :: "nat option"
  st_db_cleanup_ok :: bool
  st_init_db_ok :: bool

text \<open>The result: the index, the table, the files and whether the table is used.\<close>

type_synonym started = "(string \<times> cache_index_entry) list \<times> cache_db \<times> (string \<Rightarrow> bool) \<times> bool"

text \<open>A new table is empty; a failure disables it.\<close>

definition force_init_db :: "index_start \<Rightarrow> (string \<times> cache_index_entry) list \<Rightarrow> (string \<Rightarrow> bool) \<Rightarrow> started" where
  "force_init_db st idx files = (idx, Map.empty, files, st_init_db_ok st)"

definition ensure_db_and_load :: "index_start \<Rightarrow> cache_db \<Rightarrow> (string \<Rightarrow> bool) \<Rightarrow> started" where
  "ensure_db_and_load st d files =
     (case st_check_db st of
        None \<Rightarrow> force_init_db st [] files
      | Some False \<Rightarrow> force_init_db st [] files
      | Some True \<Rightarrow>
          (case st_rows st of
             None \<Rightarrow> force_init_db st [] files
           | Some rows \<Rightarrow>
               (case preload_from_db files rows of (res, exceed) \<Rightarrow>
                  if exceed = [] then (res, d, files, True)
                  else case preload_cleanup_cache_files (st_unlink_raises st) exceed files of (ok, files') \<Rightarrow>
                    if ok \<and> st_db_cleanup_ok st
                    then (res, preload_cleanup_cache_db_entries exceed d, files', True)
                    else force_init_db st [] files')))"

definition CacheIndex_init :: "bool \<Rightarrow> index_start \<Rightarrow> cache_db \<Rightarrow> (string \<Rightarrow> bool) \<Rightarrow> cache_index \<times> (string \<Rightarrow> bool)" where
  "CacheIndex_init force_init st d files =
     (case (if force_init then force_init_db st [] files else ensure_db_and_load st d files) of
        (idx, d', files', use_db) \<Rightarrow>
          (\<lparr> ci_index = idx, ci_entries_exceeded_warned = False,
             ci_db_writer = (if use_db then Some \<lparr> wr_queue = [], wr_write_batch = [], wr_delete_batch = [],
               wr_db = d', wr_stopped = False \<rparr> else None) \<rparr>, files'))"

section \<open>Order of the operations on the table\<close>

text \<open>The items of the queue applied one after the other, which is what a queue is for.\<close>

fun apply_item :: "cache_db \<Rightarrow> db_item \<Rightarrow> cache_db" where
  "apply_item d (Item_Write m) = insert_or_replace d (fill_bucket_idx m)"
| "apply_item d (Item_Delete k) = delete_in [k] d"
| "apply_item d Item_Stop = d"

fun writes :: "db_item list \<Rightarrow> cache_meta list" where
  "writes [] = []"
| "writes (Item_Write m # xs) = m # writes xs"
| "writes (_ # xs) = writes xs"

fun deletes :: "db_item list \<Rightarrow> string list" where
  "deletes [] = []"
| "deletes (Item_Delete k # xs) = k # deletes xs"
| "deletes (_ # xs) = deletes xs"

text \<open>No key is written after it was deleted.\<close>

fun no_rewrite :: "db_item list \<Rightarrow> bool" where
  "no_rewrite [] = True"
| "no_rewrite (Item_Delete k # xs) = (k \<notin> cm_file_sha256 ` set (writes xs) \<and> no_rewrite xs)"
| "no_rewrite (_ # xs) = no_rewrite xs"

lemma writes_append [simp]: "writes (xs @ ys) = writes xs @ writes ys"
  by (induction xs rule: writes.induct) auto

lemma deletes_append [simp]: "deletes (xs @ ys) = deletes xs @ deletes ys"
  by (induction xs rule: deletes.induct) auto

lemma no_rewrite_append: "no_rewrite (xs @ ys) \<Longrightarrow> no_rewrite xs \<and> no_rewrite ys"
  by (induction xs rule: no_rewrite.induct) auto

lemma flush_to_db_ok:
  "flush_to_db True True w ks d = delete_in ks (foldl insert_or_replace d (map fill_bucket_idx w))"
  by (auto simp: flush_to_db_def delete_in_def Let_def)

lemma key_fill [simp]: "cm_file_sha256 (fill_bucket_idx m) = cm_file_sha256 m"
  by (simp add: fill_bucket_idx_def)

lemma insert_all_other:
  "k \<notin> cm_file_sha256 ` set w \<Longrightarrow> foldl insert_or_replace d w k = d k"
  by (induction w arbitrary: d) (auto simp: insert_or_replace_def)

lemma insert_all_cong:
  "d k = d' k \<Longrightarrow> foldl insert_or_replace d w k = foldl insert_or_replace d' w k"
proof (induction w arbitrary: d d')
  case (Cons m w)
  then have "insert_or_replace d m k = insert_or_replace d' m k" by (simp add: insert_or_replace_def)
  then show ?case by (simp add: Cons.IH [of "insert_or_replace d m" "insert_or_replace d' m"])
qed simp

lemma flush_is_fifo:
  "no_rewrite xs \<Longrightarrow> flush_to_db True True (writes xs) (deletes xs) d = foldl apply_item d xs"
proof (induction xs arbitrary: d rule: no_rewrite.induct)
  case (2 k xs)
  have "flush_to_db True True (writes xs) (k # deletes xs) d = flush_to_db True True (writes xs) (deletes xs) (delete_in [k] d)"
  proof
    fix j
    have "k \<notin> cm_file_sha256 ` set (map fill_bucket_idx (writes xs))" using 2(2) by (simp add: image_image)
    then show "flush_to_db True True (writes xs) (k # deletes xs) d j
        = flush_to_db True True (writes xs) (deletes xs) (delete_in [k] d) j"
      using insert_all_other [of k "map fill_bucket_idx (writes xs)"]
      by (cases "j = k") (auto simp: flush_to_db_ok delete_in_def intro: insert_all_cong)
  qed
  then show ?case using 2 by simp
qed (simp_all add: flush_to_db_ok delete_in_def)

text \<open>
  The writer thread and its clients: items are put by other threads between its turns. \<open>Ev_Round\<close> is a turn whose
  statements succeed.
\<close>

datatype writer_event = Ev_Put db_item | Ev_Round

fun writer_event_step :: "db_writer \<Rightarrow> writer_event \<Rightarrow> db_writer" where
  "writer_event_step w (Ev_Put i) = w\<lparr>wr_queue := wr_queue w @ [i]\<rparr>"
| "writer_event_step w Ev_Round = writer_round True True w"

definition writer_run :: "db_writer \<Rightarrow> writer_event list \<Rightarrow> db_writer" where
  "writer_run w evs = foldl writer_event_step w evs"

fun puts :: "writer_event list \<Rightarrow> db_item list" where
  "puts [] = []"
| "puts (Ev_Put i # evs) = i # puts evs"
| "puts (Ev_Round # evs) = puts evs"

definition fresh_writer :: "cache_db \<Rightarrow> db_writer" where
  "fresh_writer d = \<lparr> wr_queue = [], wr_write_batch = [], wr_delete_batch = [], wr_db = d, wr_stopped = False \<rparr>"

lemma puts_append [simp]: "puts (xs @ ys) = puts xs @ puts ys"
  by (induction xs rule: puts.induct) auto

text \<open>
  What was put is split in what the table has, what the batches hold and what is queued; after the sentinel the
  batches count as applied.
\<close>

definition writer_inv :: "cache_db \<Rightarrow> db_item list \<Rightarrow> db_writer \<Rightarrow> bool" where
  "writer_inv d0 is w \<longleftrightarrow>
     (if wr_stopped w
      then \<exists>xs. is = xs @ Item_Stop # wr_queue w \<and> Item_Stop \<notin> set xs \<and> wr_db w = foldl apply_item d0 xs
      else \<exists>xs ps. is = xs @ ps @ wr_queue w \<and> Item_Stop \<notin> set xs \<union> set ps
        \<and> wr_db w = foldl apply_item d0 xs
        \<and> wr_write_batch w = writes ps \<and> wr_delete_batch w = deletes ps
        \<and> length ps < DB_FLUSH_BATCH_SIZE)"

lemma writer_inv_running:
  "\<not> wr_stopped w \<Longrightarrow> is = xs @ ps @ wr_queue w \<Longrightarrow> Item_Stop \<notin> set xs \<union> set ps
    \<Longrightarrow> wr_db w = foldl apply_item d0 xs \<Longrightarrow> wr_write_batch w = writes ps \<Longrightarrow> wr_delete_batch w = deletes ps
    \<Longrightarrow> length ps < DB_FLUSH_BATCH_SIZE \<Longrightarrow> writer_inv d0 is w"
  unfolding writer_inv_def by auto

lemma length_batches: "Item_Stop \<notin> set xs \<Longrightarrow> length (writes xs) + length (deletes xs) = length xs"
  by (induction xs rule: writes.induct) auto

lemma flush_if_due_inv:
  assumes "is = xs @ ps @ wr_queue w" "Item_Stop \<notin> set xs \<union> set ps" "wr_db w = foldl apply_item d0 xs"
    "wr_write_batch w = writes ps" "wr_delete_batch w = deletes ps" "\<not> wr_stopped w" "no_rewrite is"
    "length ps \<le> DB_FLUSH_BATCH_SIZE"
  shows "writer_inv d0 is (flush_if_due True True t w)"
proof (cases "length ps \<ge> DB_FLUSH_BATCH_SIZE \<or> (length ps > 0 \<and> t)")
  case True
  have ps: "no_rewrite ps" using assms(1,7) no_rewrite_append by blast
  have "flush_if_due True True t w = w\<lparr>wr_db := foldl apply_item d0 (xs @ ps), wr_write_batch := [], wr_delete_batch := []\<rparr>"
    using True assms(2-5) length_batches [of ps] flush_is_fifo [OF ps]
    by (auto simp: flush_if_due_def)
  moreover have "writer_inv d0 is (w\<lparr>wr_db := foldl apply_item d0 (xs @ ps), wr_write_batch := [], wr_delete_batch := []\<rparr>)"
    using assms by (intro writer_inv_running [of _ _ "xs @ ps" "[]"]) (auto simp: DB_FLUSH_BATCH_SIZE_def)
  ultimately show ?thesis by simp
next
  case False
  then have "flush_if_due True True t w = w"
    using assms(2,4,5) length_batches [of ps] by (auto simp: flush_if_due_def)
  then show ?thesis using False assms by (auto intro!: writer_inv_running [of _ _ xs ps])
qed

lemma writer_round_inv:
  assumes inv: "writer_inv d0 is w" and ord: "no_rewrite is"
  shows "writer_inv d0 is (writer_round True True w)"
proof (cases "wr_stopped w")
  case False
  then obtain xs ps where s: "is = xs @ ps @ wr_queue w" "Item_Stop \<notin> set xs \<union> set ps"
    "wr_db w = foldl apply_item d0 xs" "wr_write_batch w = writes ps" "wr_delete_batch w = deletes ps"
    "length ps < DB_FLUSH_BATCH_SIZE"
    using inv by (auto simp: writer_inv_def)
  show ?thesis
  proof (cases "wr_queue w")
    case Nil
    then show ?thesis
      using flush_if_due_inv [of "is" xs ps w d0 True] s False ord by (simp add: writer_round_def)
  next
    case (Cons i q)
    show ?thesis
    proof (cases i)
      case (Item_Write m)
      then show ?thesis using Cons False s ord
        by (auto simp: writer_round_def intro!: flush_if_due_inv [of _ xs "ps @ [i]"])
    next
      case (Item_Delete k)
      then show ?thesis using Cons False s ord
        by (auto simp: writer_round_def intro!: flush_if_due_inv [of _ xs "ps @ [i]"])
    next
      case Item_Stop
      have "no_rewrite ps" using ord s(1) no_rewrite_append by blast
      then have "wr_db (writer_round True True w) = foldl apply_item d0 (xs @ ps)"
        using Cons Item_Stop False s flush_is_fifo by (simp add: writer_round_def)
      moreover have "is = (xs @ ps) @ Item_Stop # wr_queue (writer_round True True w)"
        "wr_stopped (writer_round True True w)"
        using Cons Item_Stop False s(1) by (simp_all add: writer_round_def)
      ultimately show ?thesis using s(2) unfolding writer_inv_def by auto
    qed
  qed
qed (use inv in \<open>simp add: writer_round_def\<close>)

lemma writer_put_inv: "writer_inv d0 is w \<Longrightarrow> writer_inv d0 (is @ [i]) (w\<lparr>wr_queue := wr_queue w @ [i]\<rparr>)"
proof (cases "wr_stopped w")
  case False
  assume "writer_inv d0 is w"
  with False obtain xs ps where "is = xs @ ps @ wr_queue w" "Item_Stop \<notin> set xs \<union> set ps"
    "wr_db w = foldl apply_item d0 xs" "wr_write_batch w = writes ps" "wr_delete_batch w = deletes ps"
    "length ps < DB_FLUSH_BATCH_SIZE"
    by (auto simp: writer_inv_def)
  then show ?thesis using False by (intro writer_inv_running [of _ _ xs ps]) simp_all
qed (auto simp: writer_inv_def)

lemma writer_run_inv:
  "no_rewrite (puts evs) \<Longrightarrow> writer_inv d0 (puts evs) (writer_run (fresh_writer d0) evs)"
proof (induction evs rule: rev_induct)
  case Nil
  show ?case by (simp add: writer_run_def writer_inv_def fresh_writer_def DB_FLUSH_BATCH_SIZE_def)
next
  case (snoc ev evs)
  have ord: "no_rewrite (puts evs)" using no_rewrite_append [of "puts evs" "puts [ev]"] snoc.prems by simp
  show ?case
  proof (cases ev)
    case (Ev_Put i)
    then show ?thesis using writer_put_inv [OF snoc.IH [OF ord]] by (simp add: writer_run_def)
  next
    case Ev_Round
    then show ?thesis using writer_round_inv [OF snoc.IH [OF ord] ord] by (simp add: writer_run_def)
  qed
qed

text \<open>The batches stay below the size that makes the thread flush them, whatever is put and whatever fails.\<close>

lemma writer_round_batches:
  "length (wr_write_batch w) + length (wr_delete_batch w) < DB_FLUSH_BATCH_SIZE
   \<Longrightarrow> length (wr_write_batch (writer_round wok dok w)) + length (wr_delete_batch (writer_round wok dok w)) < DB_FLUSH_BATCH_SIZE"
  by (auto simp: writer_round_def flush_if_due_def Let_def DB_FLUSH_BATCH_SIZE_def split: list.splits db_item.splits)

text \<open>Every turn with a queue takes an item, so the sentinel is reached.\<close>

lemma flush_if_due_queue [simp]:
  "wr_queue (flush_if_due a b t w) = wr_queue w" "wr_stopped (flush_if_due a b t w) = wr_stopped w"
  by (simp_all add: flush_if_due_def Let_def)

lemma writer_round_progress:
  "\<not> wr_stopped w \<Longrightarrow> wr_queue w \<noteq> [] \<Longrightarrow> wr_queue (writer_round wok dok w) = tl (wr_queue w)
    \<and> (wr_stopped (writer_round wok dok w) \<longleftrightarrow> hd (wr_queue w) = Item_Stop)"
  by (auto simp: writer_round_def split: list.splits db_item.splits)

lemma writer_rounds_stop:
  "Item_Stop \<in> set (wr_queue w) \<Longrightarrow> n \<ge> length (wr_queue w)
   \<Longrightarrow> wr_stopped (writer_run w (replicate n Ev_Round))"
proof (induction n arbitrary: w)
  case (Suc n)
  let ?w = "writer_round True True w"
  have run: "writer_run w (replicate (Suc n) Ev_Round) = writer_run ?w (replicate n Ev_Round)"
    by (simp add: writer_run_def)
  have stays: "wr_stopped v \<Longrightarrow> writer_run v (replicate m Ev_Round) = v" for v m
    by (induction m) (simp_all add: writer_run_def writer_round_def)
  show ?case
  proof (cases "wr_stopped w \<or> wr_stopped ?w")
    case True
    then have "wr_stopped ?w" by (auto simp: writer_round_def)
    then show ?thesis using run stays by simp
  next
    case False
    then have "wr_queue ?w = tl (wr_queue w)" "hd (wr_queue w) \<noteq> Item_Stop"
      using writer_round_progress [of w True True] Suc.prems(1) by (cases "wr_queue w"; auto)+
    then have "Item_Stop \<in> set (wr_queue ?w)" "length (wr_queue ?w) \<le> n"
      using Suc.prems by (cases "wr_queue w"; auto)+
    then show ?thesis using Suc.IH [of ?w] run by simp
  qed
qed simp

text \<open>
  The table gets the operations in the order they were queued, as the class promises, whenever no key is
  written again after its deletion was queued: however the puts of other threads and the turns of the thread
  interleave, and so however the operations fall into batches, once the thread has taken the sentinel the table
  is what applying the queued operations one after the other gives.
\<close>

lemma writer_run_fifo:
  assumes "no_rewrite ops" and "Item_Stop \<notin> set ops"
    and "puts evs = ops @ [Item_Stop]" and "wr_stopped (writer_run (fresh_writer d) evs)"
  shows "wr_db (writer_run (fresh_writer d) evs) = foldl apply_item d ops"
proof -
  have "no_rewrite (ops @ [Item_Stop])" using assms(1)
  proof (induction ops rule: no_rewrite.induct)
    case (2 k xs) then show ?case by simp
  qed auto
  then obtain xs where xs: "puts evs = xs @ Item_Stop # wr_queue (writer_run (fresh_writer d) evs)"
    "Item_Stop \<notin> set xs" "wr_db (writer_run (fresh_writer d) evs) = foldl apply_item d xs"
    using writer_run_inv [of evs d] assms(3,4) by (auto simp: writer_inv_def)
  have "takeWhile (\<lambda>i. i \<noteq> Item_Stop) (ops @ [Item_Stop]) = ops"
    using assms(2) by (subst takeWhile_append2) auto
  moreover have "takeWhile (\<lambda>i. i \<noteq> Item_Stop) (xs @ Item_Stop # wr_queue (writer_run (fresh_writer d) evs)) = xs"
    using xs(2) by (subst takeWhile_append2) auto
  ultimately have "ops = xs" using xs(1) assms(3) by metis
  then show ?thesis using xs(3) by simp
qed

section \<open>The index and the table\<close>

datatype index_op = Op_Commit int cache_meta | Op_Remove string

fun index_step :: "cache_index \<Rightarrow> index_op \<Rightarrow> cache_index" where
  "index_step ci (Op_Commit now m) = snd (commit_entry now m ci)"
| "index_step ci (Op_Remove k) = remove_entry k ci"

lemma entry_of_fill [simp]: "entry_of (fill_bucket_idx m) = entry_of m"
  by (simp add: entry_of_def fill_bucket_idx_def)

lemma entry_of_access [simp]: "entry_of (m\<lparr>cm_last_access := now\<rparr>) = entry_of m"
  by (simp add: entry_of_def)

text \<open>The index and the table are stores of the same entries; the index refuses a commit when it is full.\<close>

definition table_lookup :: "cache_db \<Rightarrow> string \<Rightarrow> cache_index_entry option" where
  "table_lookup d k = map_option entry_of (d k)"

definition stamped :: "int \<times> cache_meta \<Rightarrow> cache_meta" where
  "stamped r = (snd r)\<lparr>cm_last_access := fst r\<rparr>"

interpretation stores: mirrored_stores
  lookup_entry remove_entry "\<lambda>r ci. snd (commit_entry (fst r) (snd r) ci)"
  "\<lambda>r. cm_file_sha256 (snd r)" "\<lambda>r. entry_of (snd r)" "\<lambda>ci. length (ci_index ci) < MAX_INDEX_ENTRIES"
  table_lookup "\<lambda>k d. apply_item d (Item_Delete k)" "\<lambda>r d. apply_item d (Item_Write (stamped r))"
  by unfold_locales
    (auto simp: lookup_entry_def remove_entry_def commit_entry_def table_lookup_def stamped_def delete_conv update_conv
      delete_in_def insert_or_replace_def Let_def)

definition agrees :: "(string \<times> cache_index_entry) list \<Rightarrow> cache_db \<Rightarrow> bool" where
  "agrees idx d \<longleftrightarrow> map_of idx = (\<lambda>k. map_option entry_of (d k))"

lemma agrees_lookup: "agrees (ci_index ci) d \<longleftrightarrow> lookup_entry ci = table_lookup d"
  by (simp add: agrees_def lookup_entry_def table_lookup_def fun_eq_iff)

lemma index_step_agrees:
  assumes "ci_db_writer ci = Some w" "agrees (ci_index ci) (foldl apply_item d (wr_queue w))" "Item_Stop \<notin> set (wr_queue w)"
  shows "\<exists>w'. ci_db_writer (index_step ci op) = Some w'
    \<and> agrees (ci_index (index_step ci op)) (foldl apply_item d (wr_queue w')) \<and> Item_Stop \<notin> set (wr_queue w')"
proof (cases op)
  case (Op_Commit now m)
  have "lookup_entry (snd (commit_entry now m ci)) = (if length (ci_index ci) < MAX_INDEX_ENTRIES
      then table_lookup (apply_item (foldl apply_item d (wr_queue w)) (Item_Write (stamped (now, m))))
      else table_lookup (foldl apply_item d (wr_queue w)))"
    using stores.mirror_put [of ci "foldl apply_item d (wr_queue w)" "(now, m)"] assms(2) by (simp add: agrees_lookup)
  moreover have "ci_db_writer (snd (commit_entry now m ci)) = (if length (ci_index ci) < MAX_INDEX_ENTRIES
      then Some (register_entry (stamped (now, m)) w) else Some w)"
    using assms(1) by (simp add: commit_entry_def Let_def stamped_def)
  ultimately show ?thesis using Op_Commit assms(3) by (simp add: agrees_lookup register_entry_def)
next
  case (Op_Remove k)
  have "lookup_entry (remove_entry k ci) = table_lookup (apply_item (foldl apply_item d (wr_queue w)) (Item_Delete k))"
    using stores.mirror_remove assms(2) by (simp add: agrees_lookup)
  moreover have "ci_db_writer (remove_entry k ci) = Some (writer_remove_entry k w)"
    using assms(1) by (simp add: remove_entry_def)
  ultimately show ?thesis using Op_Remove assms(3) by (simp add: agrees_lookup writer_remove_entry_def)
qed

lemma index_run_agrees:
  assumes "ci_db_writer ci = Some w" "agrees (ci_index ci) (foldl apply_item d (wr_queue w))" "Item_Stop \<notin> set (wr_queue w)"
  shows "\<exists>w'. ci_db_writer (foldl index_step ci ops) = Some w'
    \<and> agrees (ci_index (foldl index_step ci ops)) (foldl apply_item d (wr_queue w')) \<and> Item_Stop \<notin> set (wr_queue w')"
  using assms
proof (induction ops arbitrary: ci w)
  case (Cons op ops)
  obtain w' where "ci_db_writer (index_step ci op) = Some w'"
    "agrees (ci_index (index_step ci op)) (foldl apply_item d (wr_queue w'))" "Item_Stop \<notin> set (wr_queue w')"
    using index_step_agrees [OF Cons.prems] by blast
  from Cons.IH [OF this] show ?case by simp
qed auto

lemma table_agrees_with_index:
  assumes "ci_db_writer ci = Some (fresh_writer d)" and "agrees (ci_index ci) d"
    and "ci_db_writer (close_index (foldl index_step ci ops)) = Some w" and "no_rewrite (butlast (wr_queue w))"
    and "puts evs = wr_queue w" and "wr_stopped (writer_run (fresh_writer d) evs)"
  shows "agrees (ci_index (foldl index_step ci ops)) (wr_db (writer_run (fresh_writer d) evs))"
proof -
  obtain w' where w': "ci_db_writer (foldl index_step ci ops) = Some w'"
    "agrees (ci_index (foldl index_step ci ops)) (foldl apply_item d (wr_queue w'))" "Item_Stop \<notin> set (wr_queue w')"
    using index_run_agrees [OF assms(1), of d ops] assms(2) by (auto simp: fresh_writer_def)
  have q: "wr_queue w = wr_queue w' @ [Item_Stop]"
    using assms(3) w'(1) by (auto simp: close_index_def close_writer_def)
  have "wr_db (writer_run (fresh_writer d) evs) = foldl apply_item d (wr_queue w')"
    using assms(4-6) q w'(3) by (intro writer_run_fifo) simp_all
  then show ?thesis using w'(2) by simp
qed

definition sample_meta :: cache_meta where
  "sample_meta = \<lparr> cm_file_sha256 = ''aa'', cm_url = '''', cm_bucket_idx = 0, cm_last_access = 7, cm_cache_size = 5000,
     cm_file_compression_alg = None, cm_content_encoding = None \<rparr>"

text \<open>
  What the hypothesis on the order excludes does happen: when a client asks for a new copy of a cached file
  (\<^verbatim>\<open>retry_caching\<close>), the entry is removed and committed again; if both operations fall into one batch, deletions are
  applied after writes, and the table loses the entry that the index has. The docstring of \<^verbatim>\<open>CacheDBWriter\<close>
  promises the contrary for exactly this case.
\<close>

lemma retried_entry_lost_on_restart:
  assumes "ci_db_writer ci = Some (fresh_writer d)" and "length (ci_index ci) < MAX_INDEX_ENTRIES"
    and "ci' = snd (commit_entry now m (remove_entry (cm_file_sha256 m) ci))"
    and "ci_db_writer (close_index ci') = Some w"
  shows "lookup_entry ci' (cm_file_sha256 m) = Some (entry_of m)
    \<and> wr_stopped (writer_run w [Ev_Round, Ev_Round, Ev_Round])
    \<and> wr_db (writer_run w [Ev_Round, Ev_Round, Ev_Round]) (cm_file_sha256 m) = None"
proof -
  let ?m = "m\<lparr>cm_last_access := now\<rparr>" and ?k = "cm_file_sha256 m"
  have len: "\<not> MAX_INDEX_ENTRIES \<le> length (AList.delete ?k (ci_index ci))"
    using assms(2) length_delete_le [of ?k "ci_index ci"] by simp
  have look: "lookup_entry ci' ?k = Some (entry_of m)"
    using len assms(3) by (simp add: lookup_entry_def commit_entry_def remove_entry_def Let_def entry_of_def)
  have "w = close_writer (register_entry ?m (writer_remove_entry ?k (fresh_writer d)))"
    using assms(1,3,4) len by (simp add: close_index_def commit_entry_def remove_entry_def Let_def)
  then have "writer_run w [Ev_Round, Ev_Round, Ev_Round] = (fresh_writer d)\<lparr>wr_stopped := True,
      wr_write_batch := [?m], wr_delete_batch := [?k], wr_db := flush_to_db True True [?m] [?k] d\<rparr>"
    by (simp add: close_writer_def register_entry_def writer_remove_entry_def fresh_writer_def
        writer_run_def writer_round_def flush_if_due_def DB_FLUSH_BATCH_SIZE_def)
  then show ?thesis using look by (simp add: flush_to_db_ok delete_in_def)
qed

section \<open>The bound of the index\<close>

definition index_ok :: "cache_index \<Rightarrow> bool" where
  "index_ok ci \<longleftrightarrow> length (ci_index ci) \<le> MAX_INDEX_ENTRIES \<and> distinct (map fst (ci_index ci))"

lemma length_update_le: "length (AList.update k v d) \<le> Suc (length d)"
  by (induction d) auto

lemma index_step_ok: "index_ok ci \<Longrightarrow> index_ok (index_step ci op)"
proof (cases op)
  case (Op_Commit now m)
  assume "index_ok ci"
  then show ?thesis
    using Op_Commit length_update_le [of "cm_file_sha256 m" "entry_of (m\<lparr>cm_last_access := now\<rparr>)" "ci_index ci"]
    by (auto simp: index_ok_def commit_entry_def Let_def distinct_update not_le)
next
  case (Op_Remove k)
  assume "index_ok ci"
  then show ?thesis using Op_Remove length_delete_le [of k "ci_index ci"]
    by (auto simp: index_ok_def remove_entry_def distinct_delete intro: le_trans)
qed

text \<open>What the loop of the preload keeps, for rows with distinct keys, as the primary key makes them.\<close>

definition preload_inv :: "(string \<Rightarrow> bool) \<Rightarrow> cache_meta list \<Rightarrow> nat \<Rightarrow> (string \<times> cache_index_entry) list \<Rightarrow> string list \<Rightarrow> bool" where
  "preload_inv ex seen cnt res rem \<longleftrightarrow> cnt = length res \<and> cnt \<le> MAX_INDEX_ENTRIES \<and> distinct (map fst res)
     \<and> cm_file_sha256 ` set seen = fst ` set res \<union> set rem \<and> fst ` set res \<inter> set rem = {}
     \<and> (\<forall>r\<in>set seen. cm_file_sha256 r \<in> fst ` set res \<longrightarrow>
          map_of res (cm_file_sha256 r) = Some (entry_of r) \<and> (cm_cache_size r = 0 \<or> ex (cm_file_sha256 r)))
     \<and> (\<forall>r\<in>set seen. cm_file_sha256 r \<in> set rem \<longrightarrow>
          length res = MAX_INDEX_ENTRIES \<or> (cm_cache_size r \<noteq> 0 \<and> \<not> ex (cm_file_sha256 r)))"

lemma update_fresh: "k \<notin> fst ` set d \<Longrightarrow> AList.update k v d = d @ [(k, v)]"
  by (induction d) auto

lemma preload_skip_inv:
  assumes "preload_inv ex seen cnt res rem" "cm_file_sha256 row \<notin> cm_file_sha256 ` set seen"
    "cnt = MAX_INDEX_ENTRIES \<or> (cm_cache_size row \<noteq> 0 \<and> \<not> ex (cm_file_sha256 row))"
  shows "preload_inv ex (seen @ [row]) cnt res (rem @ [cm_file_sha256 row])"
proof -
  have "\<forall>r\<in>set seen. cm_file_sha256 r \<noteq> cm_file_sha256 row" using assms(2) by (metis imageI)
  moreover have "cm_file_sha256 row \<notin> fst ` set res" using assms(1,2) unfolding preload_inv_def by blast
  ultimately show ?thesis using assms unfolding preload_inv_def by auto
qed

lemma preload_take_inv:
  assumes "preload_inv ex seen cnt res rem" "cm_file_sha256 row \<notin> cm_file_sha256 ` set seen"
    "cnt < MAX_INDEX_ENTRIES" "cm_cache_size row = 0 \<or> ex (cm_file_sha256 row)"
  shows "preload_inv ex (seen @ [row]) (cnt + 1) (AList.update (cm_file_sha256 row) (entry_of row) res) rem"
proof -
  have k: "cm_file_sha256 row \<notin> fst ` set res" "cm_file_sha256 row \<notin> set rem"
    using assms(1,2) unfolding preload_inv_def by auto
  then have "map_of res (cm_file_sha256 row) = None" by (simp add: map_of_eq_None_iff)
  moreover have "\<forall>r\<in>set seen. cm_file_sha256 r \<noteq> cm_file_sha256 row" using assms(2) by (metis imageI)
  ultimately show ?thesis
    using assms k unfolding preload_inv_def
    by (auto simp: update_fresh map_add_def split: option.splits)
qed

lemma preload_loop_inv:
  assumes "preload_inv ex seen cnt res rem" "distinct (map cm_file_sha256 (seen @ rows))"
    "preload_loop ex rows cnt res rem = (res', rem')"
  shows "preload_inv ex (seen @ rows) (length res') res' rem'"
  using assms
proof (induction rows arbitrary: seen cnt res rem)
  case Nil
  then show ?case by (auto simp: preload_inv_def)
next
  case (Cons row rows)
  have new: "cm_file_sha256 row \<notin> cm_file_sha256 ` set seen" using Cons.prems(2) by auto
  have cnt: "cnt \<le> MAX_INDEX_ENTRIES" using Cons.prems(1) by (simp add: preload_inv_def)
  have dist: "distinct (map cm_file_sha256 ((seen @ [row]) @ rows))" using Cons.prems(2) by simp
  show ?case
  proof (cases "cnt < MAX_INDEX_ENTRIES \<and> (cm_cache_size row = 0 \<or> ex (cm_file_sha256 row))")
    case True
    then show ?thesis
      using Cons.IH [OF preload_take_inv [OF Cons.prems(1) new] dist] Cons.prems(3) by auto
  next
    case False
    then show ?thesis
      using Cons.IH [OF preload_skip_inv [OF Cons.prems(1) new] dist] Cons.prems(3) cnt by (auto split: if_splits)
  qed
qed

lemma preload_from_db_inv:
  "distinct (map cm_file_sha256 rows) \<Longrightarrow> preload_from_db ex rows = (res, rem) \<Longrightarrow> preload_inv ex rows (length res) res rem"
  using preload_loop_inv [of ex "[]" 0 "[]" "[]" rows res rem] by (simp add: preload_from_db_def preload_inv_def)

lemma batched_concat: "0 < n \<Longrightarrow> concat (batched xs n) = xs"
proof (induction xs n rule: batched.induct)
  case (1 xs n)
  then show ?case by (subst batched.simps) (auto simp del: batched.simps)
qed

lemma delete_in_batches: "foldl (\<lambda>d b. delete_in b d) d bs = delete_in (concat bs) d"
  by (induction bs arbitrary: d) (auto simp: delete_in_def)

lemma preload_cleanup_db: "preload_cleanup_cache_db_entries exceed d = delete_in exceed d"
  by (simp add: preload_cleanup_cache_db_entries_def delete_in_batches batched_concat PRELOAD_BATCH_REMOVE_def
      del: batched.simps)

text \<open>The rows of a table in the order a query returns them.\<close>

definition rows_of :: "cache_db \<Rightarrow> cache_meta list \<Rightarrow> bool" where
  "rows_of d rows \<longleftrightarrow> distinct (map cm_file_sha256 rows) \<and> (\<forall>k. d k = map_of (map (\<lambda>r. (cm_file_sha256 r, r)) rows) k)"

lemma rows_of_mem: "rows_of d rows \<Longrightarrow> d k = Some r \<longleftrightarrow> r \<in> set rows \<and> cm_file_sha256 r = k"
  by (auto simp: rows_of_def map_of_eq_Some_iff image_image comp_def)

lemma preload_invD:
  "preload_inv ex seen cnt res rem \<Longrightarrow> r \<in> set seen \<Longrightarrow> cm_file_sha256 r \<in> fst ` set res
    \<Longrightarrow> map_of res (cm_file_sha256 r) = Some (entry_of r)"
  unfolding preload_inv_def by blast

lemma preload_agrees:
  assumes "rows_of d rows" "preload_from_db ex rows = (res, rem)"
  shows "agrees res (delete_in rem d)"
proof -
  have inv: "preload_inv ex rows (length res) res rem"
    using assms preload_from_db_inv by (simp add: rows_of_def)
  show ?thesis unfolding agrees_def
  proof
    fix k
    show "map_of res k = map_option entry_of (delete_in rem d k)"
    proof (cases "d k")
      case None
      then have "k \<notin> cm_file_sha256 ` set rows" using rows_of_mem [OF assms(1), of k] by auto
      then have "k \<notin> fst ` set res" using inv by (auto simp: preload_inv_def)
      then show ?thesis using None by (simp add: delete_in_def map_of_eq_None_iff)
    next
      case (Some r)
      then have r: "r \<in> set rows" "cm_file_sha256 r = k" using rows_of_mem [OF assms(1)] by auto
      show ?thesis
      proof (cases "k \<in> set rem")
        case True
        then have "k \<notin> fst ` set res" using inv by (auto simp: preload_inv_def)
        then show ?thesis using True by (simp add: delete_in_def map_of_eq_None_iff)
      next
        case False
        then have "k \<in> fst ` set res" using inv r unfolding preload_inv_def by (metis UnE imageI)
        then have "map_of res k = Some (entry_of r)" using preload_invD [OF inv r(1)] r(2) by simp
        then show ?thesis using False Some by (simp add: delete_in_def)
      qed
    qed
  qed
qed

lemma force_init_agrees: "agrees [] Map.empty"
  by (simp add: agrees_def)

lemma ensure_db_and_load_ok:
  assumes "\<And>rows. st_rows st = Some rows \<Longrightarrow> rows_of d rows"
    and "ensure_db_and_load st d files = (idx, d', files', use_db)"
  shows "agrees idx d' \<and> length idx \<le> MAX_INDEX_ENTRIES \<and> distinct (map fst idx)"
proof (cases "st_check_db st = Some True \<and> st_rows st \<noteq> None")
  case False
  then have "idx = [] \<and> d' = Map.empty"
    using assms(2) by (auto simp: ensure_db_and_load_def force_init_db_def split: option.splits bool.splits)
  then show ?thesis by (simp add: force_init_agrees)
next
  case True
  then obtain rows where rows: "st_rows st = Some rows" by auto
  obtain res rem where pre: "preload_from_db files rows = (res, rem)" by (cases "preload_from_db files rows")
  obtain ok fs where fs: "preload_cleanup_cache_files (st_unlink_raises st) rem files = (ok, fs)"
    by (cases "preload_cleanup_cache_files (st_unlink_raises st) rem files")
  have "preload_inv files rows (length res) res rem"
    using preload_from_db_inv pre assms(1) rows by (simp add: rows_of_def)
  then have "length res \<le> MAX_INDEX_ENTRIES" "distinct (map fst res)" by (simp_all add: preload_inv_def)
  moreover have "agrees res (delete_in rem d)" using preload_agrees [OF assms(1) pre] rows by simp
  moreover have "(idx = res \<and> d' = delete_in rem d) \<or> (idx = [] \<and> d' = Map.empty)"
    using assms(2) True rows pre fs
    by (auto simp: ensure_db_and_load_def force_init_db_def preload_cleanup_db delete_in_def split: if_splits)
  ultimately show ?thesis by (auto simp: force_init_agrees)
qed

interpretation index_bound: step_invariant
  "\<lambda>ci. \<exists>fi st d files. (\<forall>rows. st_rows st = Some rows \<longrightarrow> rows_of d rows) \<and> ci = fst (CacheIndex_init fi st d files)"
  "\<lambda>ci ci'. \<exists>op. ci' = index_step ci op" index_ok
proof
  fix ci assume "\<exists>fi st d files. (\<forall>rows. st_rows st = Some rows \<longrightarrow> rows_of d rows) \<and> ci = fst (CacheIndex_init fi st d files)"
  then obtain fi st d files where init: "\<And>rows. st_rows st = Some rows \<Longrightarrow> rows_of d rows"
    "ci = fst (CacheIndex_init fi st d files)" by blast
  obtain idx d' files' u where e: "ensure_db_and_load st d files = (idx, d', files', u)"
    by (cases "ensure_db_and_load st d files") auto
  show "index_ok ci"
    using ensure_db_and_load_ok [OF init(1) e] init(2) e
    by (auto simp: CacheIndex_init_def force_init_db_def index_ok_def)
qed (auto intro: index_step_ok)

lemma preload_keeps_all:
  assumes "rows_of d rows" "agrees idx d" "distinct (map fst idx)" "length idx \<le> MAX_INDEX_ENTRIES"
    and files: "\<And>k e. map_of idx k = Some e \<Longrightarrow> ie_cache_size e \<noteq> 0 \<Longrightarrow> ex k"
    and pre: "preload_from_db ex rows = (res, rem)"
  shows "rem = []"
proof (rule ccontr)
  assume "rem \<noteq> []"
  then obtain k where k: "k \<in> set rem" by (cases rem) auto
  have inv: "preload_inv ex rows (length res) res rem"
    using assms(1) pre preload_from_db_inv by (simp add: rows_of_def)
  then have un: "cm_file_sha256 ` set rows = fst ` set res \<union> set rem" "fst ` set res \<inter> set rem = {}"
    "distinct (map fst res)" unfolding preload_inv_def by blast+
  obtain r where r: "r \<in> set rows" "cm_file_sha256 r = k" using un(1) k by (metis UnCI imageE)
  then have dk: "d k = Some r" using rows_of_mem [OF assms(1)] by simp
  then have "map_of idx k = Some (entry_of r)" using assms(2) by (simp add: agrees_def)
  then have "cm_cache_size r = 0 \<or> ex k" using files [of k "entry_of r"] by (auto simp: entry_of_def)
  then have full: "length res = MAX_INDEX_ENTRIES"
    using inv r k unfolding preload_inv_def by blast
  have "insert k (fst ` set res) \<subseteq> fst ` set idx"
  proof
    fix j assume "j \<in> insert k (fst ` set res)"
    then have "j \<in> cm_file_sha256 ` set rows" using un(1) k by blast
    then obtain r' where "r' \<in> set rows" "cm_file_sha256 r' = j" by auto
    then have "d j = Some r'" using rows_of_mem [OF assms(1)] by simp
    then have "map_of idx j \<noteq> None" using assms(2) by (simp add: agrees_def)
    then show "j \<in> fst ` set idx" by (simp add: map_of_eq_None_iff)
  qed
  then have "card (insert k (fst ` set res)) \<le> card (fst ` set idx)" by (intro card_mono) auto
  moreover have "k \<notin> fst ` set res" using un(2) k by blast
  moreover have "card (fst ` set res) = length res" "card (fst ` set idx) = length idx"
    using un(3) assms(3) distinct_card by fastforce+
  ultimately show False using full assms(4) by simp
qed





section \<open>Size buckets\<close>

lemma bisect_right_bounds:
  assumes "sorted xs"
  shows "bisect_right xs x \<le> length xs" "\<And>i. i < bisect_right xs x \<Longrightarrow> xs ! i \<le> x"
    "bisect_right xs x < length xs \<Longrightarrow> x < xs ! bisect_right xs x"
  unfolding bisect_right_def
  by (simp add: length_takeWhile_le)
    (metis nth_mem set_takeWhileD takeWhile_nth, metis linorder_not_le nth_length_takeWhile)

text \<open>Every size has a bucket of the table, the one whose range it is in.\<close>

lemma bucket_of_size:
  obtains i where "cm_bucket_idx (fill_bucket_idx m) = int i" "i < length BUCKET_FILE_SIZE_LIST"
    "BUCKET_FILE_SIZE_LIST ! i \<le> cm_cache_size m"
    "Suc i < length BUCKET_FILE_SIZE_LIST \<Longrightarrow> cm_cache_size m < BUCKET_FILE_SIZE_LIST ! Suc i"
proof -
  let ?n = "bisect_right BUCKET_FILE_SIZE_LIST (cm_cache_size m)"
  have s: "sorted BUCKET_FILE_SIZE_LIST" by (simp add: BUCKET_FILE_SIZE_LIST_def)
  have "0 < ?n" by (simp add: bisect_right_def BUCKET_FILE_SIZE_LIST_def)
  then obtain i where i: "?n = Suc i" using gr0_implies_Suc by blast
  show thesis
    using that [of i] bisect_right_bounds(1,3) [OF s, of "cm_cache_size m"]
      bisect_right_bounds(2) [OF s, of i "cm_cache_size m"] i by (simp add: fill_bucket_idx_def)
qed

end
