(* ===== verification/Cache_Streaming.thy ===== *)
theory Cache_Streaming
  imports Cache_Index "HOL-Library.Sublist"
begin

text \<open>
  How the OTA proxy caches a file while it relays it (\<^verbatim>\<open>ota_proxy/cache_streaming.py\<close>): the provider, an
  asynchronous generator that passes the remote's chunks to its client and tees them into a queue
  (\<^verbatim>\<open>CacheWriterPool.stream_writing_cache\<close>); the writer, a pool thread that writes them to a temporary file and
  commits it (\<^verbatim>\<open>CacheTracker.provider_write_file_in_thread\<close>, \<^verbatim>\<open>provider_write_once_in_thread\<close>,
  \<^verbatim>\<open>_finalize_cache\<close>); and the subscribers, which read the temporary file while it grows
  (\<^verbatim>\<open>subscriber_wait_for_provider\<close>, \<^verbatim>\<open>subscriber_stream_cache_in_thread\<close>). They share the tracker's one-way flags.
  Each actor is a function from a state and an event to the next state (\<open>None\<close>: the event cannot happen there), so
  that every interleaving is a sequence of events.

  A \<open>char\<close> stands for a byte. Whether a system call or the commit callback fails, whether the pool is busy and
  what the disk limits say are events, hence arbitrary.
\<close>

section \<open>State\<close>

type_synonym bytes = "char list"

datatype provider_pc =
    P_First                   \<comment> \<open>waits for the first chunk\<close>
  | P_Second bytes            \<comment> \<open>has yielded the first chunk\<close>
  | P_Dispatch bytes bytes    \<comment> \<open>has yielded the second chunk\<close>
  | P_Loop                    \<comment> \<open>the \<^verbatim>\<open>async for\<close>\<close>
  | P_Ended                   \<comment> \<open>returned after the remote's end\<close>
  | P_Raised                  \<comment> \<open>an \<^verbatim>\<open>Exception\<close> left the generator\<close>
  | P_Closed                  \<comment> \<open>closed or cancelled: \<^verbatim>\<open>GeneratorExit\<close>, \<^verbatim>\<open>CancelledError\<close>\<close>

datatype job = Job_File | Job_Once bytes

datatype writer_pc =
    W_None | W_Pending job | W_Loop
  | W_Finish bool             \<comment> \<open>before \<^verbatim>\<open>_finalize_cache\<close>; whether the failed flag is looked at\<close>
  | W_End

record stream =
  sm_started :: bool
  sm_finished :: bool
  sm_failed :: bool
  sm_written :: nat
  sm_cache_size :: nat
  sm_tmp :: "bytes option"       \<comment> \<open>the temporary file as a reader sees it\<close>
  sm_buf :: bytes                \<comment> \<open>written to the file object, not yet to the file\<close>
  sm_saved :: "bytes option"     \<comment> \<open>the file at the save path\<close>
  sm_committed :: "nat option"   \<comment> \<open>the size the entry was committed with\<close>
  sm_provider :: provider_pc
  sm_que :: "bytes option list"
  sm_writer :: writer_pc
  sm_below_soft :: bool
  sm_below_hard :: bool
  sm_pool_locked :: bool
  sm_commit_cb :: "bool option"  \<comment> \<open>what the commit callback answers; \<open>None\<close>: it raises\<close>
  sm_rcv :: "bytes list"         \<comment> \<open>the chunks the remote yielded\<close>
  sm_sent :: "bytes list"        \<comment> \<open>the chunks yielded to the client\<close>
  sm_remote_end :: bool

definition stream_init :: "bytes option \<Rightarrow> stream" where
  "stream_init old = \<lparr> sm_started = False, sm_finished = False, sm_failed = False, sm_written = 0, sm_cache_size = 0,
     sm_tmp = None, sm_buf = [], sm_saved = old, sm_committed = None, sm_provider = P_First, sm_que = [],
     sm_writer = W_None, sm_below_soft = False, sm_below_hard = False, sm_pool_locked = False,
     sm_commit_cb = Some True, sm_rcv = [], sm_sent = [], sm_remote_end = False \<rparr>"

subsection \<open>The tracker's flags\<close>

definition set_writer_failed :: "stream \<Rightarrow> stream" where
  "set_writer_failed s = s\<lparr>sm_started := True, sm_failed := True\<rparr>"

definition set_writer_started :: "stream \<Rightarrow> stream" where
  "set_writer_started s = s\<lparr>sm_started := True\<rparr>"

definition set_writer_finished :: "stream \<Rightarrow> stream" where
  "set_writer_finished s = s\<lparr>sm_started := True, sm_finished := True\<rparr>"

section \<open>Provider\<close>

datatype provider_ev = E_Chunk bytes | E_End | E_Raise | E_Close | E_Resume

definition commit_cache_cb :: "stream \<Rightarrow> stream" where
  "commit_cache_cb s = (if sm_commit_cb s = Some True then s\<lparr>sm_committed := Some (sm_cache_size s)\<rparr> else s)"

text \<open>An exception of the callback leaves the generator.\<close>

definition provider_handle_empty_file :: "stream \<Rightarrow> bool \<times> stream" where
  "provider_handle_empty_file s =
     (let s1 = set_writer_finished s
      in if sm_commit_cb s1 = None then (False, s1) else (True, commit_cache_cb s1))"

definition write_dispatcher :: "job \<Rightarrow> stream \<Rightarrow> stream" where
  "write_dispatcher j s = (if sm_pool_locked s then set_writer_failed s else s\<lparr>sm_writer := W_Pending j\<rparr>)"

fun stream_writing_cache :: "stream \<Rightarrow> provider_pc \<Rightarrow> provider_ev \<Rightarrow> stream option" where
  "stream_writing_cache s P_First (E_Chunk c) =
     (let s1 = s\<lparr>sm_rcv := sm_rcv s @ [c]\<rparr>
      in if length c = 0 then
           (case provider_handle_empty_file s1 of (ok, s2) \<Rightarrow>
              if ok then Some (s2\<lparr>sm_sent := sm_sent s2 @ [c], sm_provider := P_Ended\<rparr>)
              else Some (s2\<lparr>sm_provider := P_Raised\<rparr>))
         else Some (s1\<lparr>sm_sent := sm_sent s1 @ [c], sm_provider := P_Second c\<rparr>))"
| "stream_writing_cache s P_First E_End =
     (case provider_handle_empty_file (s\<lparr>sm_remote_end := True\<rparr>) of (ok, s1) \<Rightarrow>
        Some (s1\<lparr>sm_provider := (if ok then P_Ended else P_Raised)\<rparr>))"
| "stream_writing_cache s P_First E_Raise = Some (s\<lparr>sm_provider := P_Raised\<rparr>)"
| "stream_writing_cache s P_First E_Close = Some (s\<lparr>sm_provider := P_Closed\<rparr>)"
| "stream_writing_cache s (P_Second c1) (E_Chunk c) =
     Some (s\<lparr>sm_rcv := sm_rcv s @ [c], sm_sent := sm_sent s @ [c], sm_provider := P_Dispatch c1 c\<rparr>)"
| "stream_writing_cache s (P_Second c1) E_End =
     Some ((write_dispatcher (Job_Once c1) (s\<lparr>sm_remote_end := True\<rparr>))\<lparr>sm_provider := P_Ended\<rparr>)"
| "stream_writing_cache s (P_Second c1) E_Raise = Some (s\<lparr>sm_provider := P_Raised\<rparr>)"
| "stream_writing_cache s (P_Second c1) E_Close = Some (s\<lparr>sm_provider := P_Closed\<rparr>)"
| "stream_writing_cache s (P_Dispatch c1 c2) E_Resume =
     Some ((write_dispatcher Job_File (s\<lparr>sm_que := [Some c1, Some c2]\<rparr>))\<lparr>sm_provider := P_Loop\<rparr>)"
| "stream_writing_cache s (P_Dispatch c1 c2) E_Close = Some (s\<lparr>sm_provider := P_Closed\<rparr>)"
| "stream_writing_cache s P_Loop (E_Chunk c) =
     (let s1 = s\<lparr>sm_rcv := sm_rcv s @ [c]\<rparr>;
          s2 = (if \<not> sm_failed s1 then s1\<lparr>sm_que := sm_que s1 @ [Some c]\<rparr> else s1)
      in Some (s2\<lparr>sm_sent := sm_sent s2 @ [c]\<rparr>))"
| "stream_writing_cache s P_Loop E_End =
     Some (s\<lparr>sm_remote_end := True, sm_que := sm_que s @ [None], sm_provider := P_Ended\<rparr>)"
| "stream_writing_cache s P_Loop E_Raise =
     Some ((set_writer_failed s)\<lparr>sm_que := sm_que s @ [None], sm_provider := P_Raised\<rparr>)"
| "stream_writing_cache s P_Loop E_Close = Some (s\<lparr>sm_que := sm_que s @ [None], sm_provider := P_Closed\<rparr>)"
| "stream_writing_cache s _ _ = None"

section \<open>Writer\<close>

datatype writer_ev =
    T_Open bool               \<comment> \<open>\<^verbatim>\<open>open(self.fpath, "wb")\<close>, whether it succeeds\<close>
  | T_Get nat bool            \<comment> \<open>a turn of the loop: how much of the buffer reaches the file, whether the write or flush succeeds\<close>
  | T_Once "nat option"       \<comment> \<open>the one-shot write; \<open>Some n\<close>: it raises with \<open>n\<close> bytes in the file\<close>
  | T_Finish bool             \<comment> \<open>the finalization; whether \<^verbatim>\<open>os.link\<close> raises no error but \<^verbatim>\<open>FileExistsError\<close>\<close>
  | T_Drop                    \<comment> \<open>no thread in time\<close>

definition tmp_content :: "stream \<Rightarrow> bytes" where
  "tmp_content s = (case sm_tmp s of None \<Rightarrow> [] | Some d \<Rightarrow> d)"

text \<open>
  Leaving the \<^verbatim>\<open>with\<close> block on an exception flushes the buffer; a failing write or flush leaves a part of the bytes
  in the file.
\<close>

definition writer_fails :: "nat \<Rightarrow> bytes \<Rightarrow> stream \<Rightarrow> stream" where
  "writer_fails n pending s = (set_writer_failed s)\<lparr>sm_tmp := Some (tmp_content s @ take n pending), sm_buf := [], sm_writer := W_End\<rparr>"

definition finalize_cache :: "bool \<Rightarrow> stream \<Rightarrow> stream" where
  "finalize_cache link_ok s =
     (if \<not> sm_below_soft s then s
      else case sm_commit_cb s of
        None \<Rightarrow> s
      | Some False \<Rightarrow> s
      | Some True \<Rightarrow>
          (let s1 = commit_cache_cb s
           in if link_ok then s1\<lparr>sm_saved := (case sm_saved s1 of None \<Rightarrow> sm_tmp s1 | Some f \<Rightarrow> Some f)\<rparr>
              else set_writer_failed s1))"

definition provider_write_once_in_thread :: "bytes \<Rightarrow> nat option \<Rightarrow> stream \<Rightarrow> stream" where
  "provider_write_once_in_thread data r s =
     (if \<not> sm_below_hard s then (set_writer_failed s)\<lparr>sm_writer := W_End\<rparr>
      else case r of
        Some n \<Rightarrow> (set_writer_failed s)\<lparr>sm_tmp := Some (take n data), sm_writer := W_End\<rparr>
      | None \<Rightarrow> (set_writer_finished (s\<lparr>sm_tmp := Some data, sm_written := length data, sm_cache_size := length data\<rparr>))
          \<lparr>sm_writer := W_Finish False\<rparr>)"

definition provider_write_file_turn :: "nat \<Rightarrow> bool \<Rightarrow> stream \<Rightarrow> stream option" where
  "provider_write_file_turn n ok s =
     (case sm_que s of
        [] \<Rightarrow> None
      | item # q \<Rightarrow>
          let s = s\<lparr>sm_que := q\<rparr> in
          (case item of
             Some (b # bs) \<Rightarrow>
               let data = b # bs in
               if sm_failed s then Some (writer_fails n (sm_buf s) s)
               else if \<not> sm_below_hard s then Some (writer_fails n (sm_buf s) s)
               else if \<not> ok then Some (writer_fails n (sm_buf s @ data) s)
               else Some (s\<lparr>sm_tmp := Some (tmp_content s @ take n (sm_buf s @ data)),
                            sm_buf := drop n (sm_buf s @ data), sm_written := sm_written s + length data\<rparr>)
           | _ \<Rightarrow>
               if \<not> ok then Some (writer_fails n (sm_buf s) s)
               else Some ((set_writer_finished (s\<lparr>sm_tmp := Some (tmp_content s @ sm_buf s), sm_buf := [],
                      sm_cache_size := sm_written s\<rparr>))\<lparr>sm_writer := W_Finish True\<rparr>)))"

fun writer_step :: "stream \<Rightarrow> writer_pc \<Rightarrow> writer_ev \<Rightarrow> stream option" where
  "writer_step s (W_Pending Job_File) (T_Open ok) =
     (if ok then Some ((set_writer_started (s\<lparr>sm_tmp := Some []\<rparr>))\<lparr>sm_writer := W_Loop\<rparr>)
      else Some ((set_writer_failed s)\<lparr>sm_writer := W_End\<rparr>))"
| "writer_step s (W_Pending (Job_Once data)) (T_Open ok) =
     (if ok \<or> \<not> sm_below_hard s then None else Some ((set_writer_failed s)\<lparr>sm_writer := W_End\<rparr>))"
| "writer_step s (W_Pending (Job_Once data)) (T_Once r) = Some (provider_write_once_in_thread data r s)"
| "writer_step s (W_Pending j) T_Drop = Some ((set_writer_failed s)\<lparr>sm_writer := W_End\<rparr>)"
| "writer_step s W_Loop (T_Get n ok) = provider_write_file_turn n ok s"
| "writer_step s (W_Finish check) (T_Finish link_ok) =
     (if check \<and> sm_failed s then Some (s\<lparr>sm_writer := W_End\<rparr>)
      else Some ((finalize_cache link_ok s)\<lparr>sm_writer := W_End\<rparr>))"
| "writer_step s _ _ = None"

datatype stream_ev = Ev_Provider provider_ev | Ev_Writer writer_ev | Ev_Env bool bool bool "bool option"

text \<open>\<open>Ev_Env\<close>: the disk check, the load of the pool and the answer of the commit callback change.\<close>

fun stream_step :: "stream \<Rightarrow> stream_ev \<Rightarrow> stream option" where
  "stream_step s (Ev_Provider e) = stream_writing_cache s (sm_provider s) e"
| "stream_step s (Ev_Writer e) = writer_step s (sm_writer s) e"
| "stream_step s (Ev_Env soft hard locked cb) =
     Some (s\<lparr>sm_below_soft := soft, sm_below_hard := hard, sm_pool_locked := locked, sm_commit_cb := cb\<rparr>)"

section \<open>What the provider and the writer keep\<close>

definition body :: "stream \<Rightarrow> bytes" where
  "body s = concat (sm_rcv s)"

definition qdata :: "bytes option list \<Rightarrow> bytes" where
  "qdata q = concat (map (case_option [] id) q)"

lemma qdata_simps [simp]:
  "qdata [] = []" "qdata (Some d # q) = d @ qdata q" "qdata (None # q) = qdata q" "qdata (q @ q') = qdata q @ qdata q'"
  by (simp_all add: qdata_def)

definition provider_done :: "stream \<Rightarrow> bool" where
  "provider_done s \<longleftrightarrow> sm_provider s \<in> {P_Ended, P_Raised, P_Closed}"

text \<open>The queue between provider and writer: open while the provider loops, closed by one sentinel after it.\<close>

definition que_ok :: "stream \<Rightarrow> bool" where
  "que_ok s \<longleftrightarrow> (\<forall>c. Some c \<in> set (sm_que s) \<longrightarrow> c \<noteq> [])
     \<and> (sm_provider s = P_Loop \<and> None \<notin> set (sm_que s)
        \<or> provider_done s \<and> (\<exists>q. sm_que s = q @ [None] \<and> None \<notin> set q))"

definition provider_ok :: "stream \<Rightarrow> bool" where
  "provider_ok s \<longleftrightarrow> (case sm_provider s of
       P_First \<Rightarrow> sm_rcv s = [] \<and> sm_writer s = W_None \<and> \<not> sm_finished s \<and> \<not> sm_failed s
     | P_Second c \<Rightarrow> sm_rcv s = [c] \<and> c \<noteq> [] \<and> sm_writer s = W_None \<and> \<not> sm_finished s \<and> \<not> sm_failed s
     | P_Dispatch a b \<Rightarrow> sm_rcv s = [a, b] \<and> a \<noteq> [] \<and> b \<noteq> [] \<and> sm_writer s = W_None \<and> \<not> sm_finished s \<and> \<not> sm_failed s
     | P_Loop \<Rightarrow> \<not> sm_finished s \<and> (sm_failed s \<or> sm_writer s \<in> {W_Pending Job_File, W_Loop})
     | P_Ended \<Rightarrow> sm_remote_end s
     | P_Raised \<Rightarrow> sm_failed s \<or> sm_writer s = W_None \<and> (sm_finished s \<longrightarrow> sm_remote_end s)
     | P_Closed \<Rightarrow> True)"

definition flow_ok :: "stream \<Rightarrow> bool" where
  "flow_ok s \<longleftrightarrow> (case sm_writer s of
       W_None \<Rightarrow> sm_tmp s = None \<and> sm_buf s = [] \<and> sm_cache_size s = 0 \<and> (sm_finished s \<longrightarrow> provider_done s \<and> sm_rcv s = [])
     | W_Pending Job_File \<Rightarrow> sm_tmp s = None \<and> sm_buf s = [] \<and> \<not> sm_finished s \<and> que_ok s
         \<and> (\<not> sm_failed s \<longrightarrow> qdata (sm_que s) = body s)
     | W_Pending (Job_Once d) \<Rightarrow> sm_tmp s = None \<and> sm_buf s = [] \<and> \<not> sm_finished s \<and> \<not> sm_failed s
         \<and> sm_rcv s = [d] \<and> sm_provider s = P_Ended
     | W_Loop \<Rightarrow> sm_tmp s \<noteq> None \<and> \<not> sm_finished s \<and> que_ok s
         \<and> (\<not> sm_failed s \<longrightarrow> tmp_content s @ sm_buf s @ qdata (sm_que s) = body s)
     | W_Finish check \<Rightarrow> sm_finished s \<and> (\<not> check \<longrightarrow> \<not> sm_failed s) \<and> provider_done s
     | W_End \<Rightarrow> True)"

text \<open>A finished tracker that has not failed holds the whole of what the remote sent.\<close>

definition whole_ok :: "stream \<Rightarrow> bool" where
  "whole_ok s \<longleftrightarrow> prefix (tmp_content s @ sm_buf s) (body s)
     \<and> (\<not> sm_failed s \<longrightarrow> sm_written s = length (tmp_content s @ sm_buf s))
     \<and> (sm_finished s \<longrightarrow> sm_buf s = [] \<and> provider_done s)
     \<and> (sm_finished s \<and> \<not> sm_failed s \<longrightarrow> tmp_content s = body s \<and> sm_cache_size s = length (body s)
          \<and> (sm_remote_end s \<or> sm_provider s = P_Closed))"

definition commit_ok :: "bytes option \<Rightarrow> stream \<Rightarrow> bool" where
  "commit_ok old s \<longleftrightarrow> (case sm_committed s of
       None \<Rightarrow> sm_saved s = old
     | Some n \<Rightarrow> sm_writer s \<in> {W_None, W_End} \<and> provider_done s \<and> n = length (body s)
         \<and> (sm_remote_end s \<or> sm_provider s = P_Closed)
         \<and> (sm_saved s = old \<or> old = None \<and> sm_saved s = Some (body s)))"

definition stream_inv :: "bytes option \<Rightarrow> stream \<Rightarrow> bool" where
  "stream_inv old s \<longleftrightarrow> provider_ok s \<and> flow_ok s \<and> whole_ok s \<and> commit_ok old s"

lemmas stream_inv_defs = stream_inv_def provider_ok_def flow_ok_def whole_ok_def commit_ok_def que_ok_def
  provider_done_def body_def tmp_content_def

lemmas flag_defs = set_writer_failed_def set_writer_started_def set_writer_finished_def

lemma stream_inv_init: "stream_inv old (stream_init old)"
  by (simp add: stream_inv_defs stream_init_def)

text \<open>What the remote yields is not empty (\<^verbatim>\<open>_do_request\<close> stops at the first empty read).\<close>

fun remote_ev :: "stream_ev \<Rightarrow> bool" where
  "remote_ev (Ev_Provider (E_Chunk c)) = (c \<noteq> [])"
| "remote_ev _ = True"

lemma before_writing:
  assumes "stream_inv old s" "sm_provider s = P_First \<or> sm_provider s = P_Second c \<or> sm_provider s = P_Dispatch c d"
  shows "sm_writer s = W_None" "\<not> sm_finished s" "\<not> sm_failed s" "sm_tmp s = None" "sm_buf s = []" "sm_cache_size s = 0"
    "sm_written s = 0" "sm_committed s = None" "sm_saved s = old"
proof -
  show r: "sm_writer s = W_None" "\<not> sm_finished s" "\<not> sm_failed s"
    using assms by (auto simp: stream_inv_def provider_ok_def)
  show t: "sm_tmp s = None" "sm_buf s = []" "sm_cache_size s = 0"
    using assms(1) r by (simp_all add: stream_inv_def flow_ok_def)
  show "sm_written s = 0" using assms(1) r t by (simp add: stream_inv_def whole_ok_def tmp_content_def)
  show "sm_committed s = None" "sm_saved s = old"
    using assms by (auto simp: stream_inv_def commit_ok_def provider_done_def split: option.splits)
qed

text \<open>In the loop the provider only appends to the queue and, on an exception, sets the failed flag.\<close>

lemma loop_facts:
  assumes "stream_inv old s" "sm_provider s = P_Loop"
  shows "\<not> sm_finished s" "sm_committed s = None" "sm_saved s = old"
    "sm_failed s \<or> sm_writer s \<in> {W_Pending Job_File, W_Loop}"
    "sm_writer s \<in> {W_Pending Job_File, W_Loop} \<Longrightarrow> None \<notin> set (sm_que s) \<and> (\<forall>c. Some c \<in> set (sm_que s) \<longrightarrow> c \<noteq> [])"
    "\<And>d check. sm_writer s \<noteq> W_Pending (Job_Once d) \<and> sm_writer s \<noteq> W_Finish check"
proof -
  show "\<not> sm_finished s" "sm_failed s \<or> sm_writer s \<in> {W_Pending Job_File, W_Loop}"
    using assms by (simp_all add: stream_inv_def provider_ok_def)
  show "sm_committed s = None" "sm_saved s = old"
    using assms by (auto simp: stream_inv_def commit_ok_def provider_done_def split: option.splits)
  show "sm_writer s \<in> {W_Pending Job_File, W_Loop} \<Longrightarrow> None \<notin> set (sm_que s) \<and> (\<forall>c. Some c \<in> set (sm_que s) \<longrightarrow> c \<noteq> [])"
    using assms by (auto simp: stream_inv_def flow_ok_def que_ok_def provider_done_def)
  show "\<And>d check. sm_writer s \<noteq> W_Pending (Job_Once d) \<and> sm_writer s \<noteq> W_Finish check"
    using assms by (auto simp: stream_inv_def flow_ok_def provider_done_def)
qed

lemma loop_chunk_keeps:
  assumes inv: "stream_inv old s" and pc: "sm_provider s = P_Loop" and c: "c \<noteq> []"
    and s': "s' = s\<lparr>sm_rcv := sm_rcv s @ [c], sm_que := sm_que s @ (if sm_failed s then [] else [Some c]),
      sm_sent := sm_sent s @ [c]\<rparr>"
  shows "stream_inv old s'"
proof -
  note f = loop_facts [OF inv pc]
  have body: "body s' = body s @ c" and tmp: "tmp_content s' = tmp_content s"
    using s' by (simp_all add: body_def tmp_content_def)
  have "flow_ok s'"
  proof (cases "sm_writer s \<in> {W_Pending Job_File, W_Loop}")
    case True
    then have "que_ok s'" using f(5) s' pc c by (auto simp: que_ok_def)
    then show ?thesis using True inv s' body tmp
      by (auto simp: stream_inv_def flow_ok_def)
  next
    case False
    then have "sm_writer s = W_None \<or> sm_writer s = W_End" using f(4,6) by (cases "sm_writer s" rule: writer_pc.exhaust) (auto, metis job.exhaust)
    then show ?thesis using inv s' f(1) by (auto simp: stream_inv_def flow_ok_def)
  qed
  moreover have "whole_ok s'" using inv s' body tmp f(1) by (auto simp: stream_inv_def whole_ok_def)
  moreover have "provider_ok s'" using f(1,4) s' pc by (simp add: provider_ok_def)
  ultimately show ?thesis using f(2,3) s' by (simp add: stream_inv_def commit_ok_def)
qed

lemma loop_leave_keeps:
  assumes inv: "stream_inv old s" and pc: "sm_provider s = P_Loop"
    and s': "s' = s\<lparr>sm_remote_end := re, sm_failed := fl, sm_started := st, sm_que := sm_que s @ [None], sm_provider := pc'\<rparr>"
    and r: "pc' = P_Ended \<and> re \<or> pc' = P_Raised \<and> fl \<or> pc' = P_Closed" "sm_failed s \<Longrightarrow> fl"
  shows "stream_inv old s'"
proof -
  note f = loop_facts [OF inv pc]
  have body: "body s' = body s" and tmp: "tmp_content s' = tmp_content s"
    using s' by (simp_all add: body_def tmp_content_def)
  have "flow_ok s'"
  proof (cases "sm_writer s \<in> {W_Pending Job_File, W_Loop}")
    case True
    then have "que_ok s'" using f(5) s' r(1) by (auto simp: que_ok_def provider_done_def)
    then show ?thesis using True inv s' body tmp r(2)
      by (auto simp: stream_inv_def flow_ok_def)
  next
    case False
    then have "sm_writer s = W_None \<or> sm_writer s = W_End" using f(4,6) by (cases "sm_writer s" rule: writer_pc.exhaust) (auto, metis job.exhaust)
    then show ?thesis using inv s' f(1) by (auto simp: stream_inv_def flow_ok_def)
  qed
  moreover have "whole_ok s'" using inv s' body tmp f(1) r(2) by (auto simp: stream_inv_def whole_ok_def)
  moreover have "provider_ok s'" using r(1) s' by (auto simp: provider_ok_def)
  ultimately show ?thesis using f(2,3) s' by (simp add: stream_inv_def commit_ok_def)
qed

lemma loop_keeps:
  assumes "stream_inv old s" "sm_provider s = P_Loop" "stream_writing_cache s P_Loop e = Some s'" "e \<noteq> E_Chunk []"
  shows "stream_inv old s'"
proof (cases e)
  case (E_Chunk c)
  then show ?thesis using assms by (intro loop_chunk_keeps [OF assms(1,2), of c]) (auto simp: Let_def)
next
  case E_End
  then show ?thesis using assms
    by (intro loop_leave_keeps [OF assms(1,2), where re = True and fl = "sm_failed s" and st = "sm_started s" and pc' = P_Ended]) auto
next
  case E_Raise
  then show ?thesis using assms
    by (intro loop_leave_keeps [OF assms(1,2), where re = "sm_remote_end s" and fl = True and st = True and pc' = P_Raised]) (auto simp: flag_defs)
next
  case E_Close
  then show ?thesis using assms
    by (intro loop_leave_keeps [OF assms(1,2), where re = "sm_remote_end s" and fl = "sm_failed s" and st = "sm_started s" and pc' = P_Closed]) auto
qed (use assms in simp)

lemma provider_keeps:
  assumes "stream_inv old s" "stream_writing_cache s (sm_provider s) e = Some s'" "e \<noteq> E_Chunk []"
  shows "stream_inv old s'"
proof (cases "sm_provider s")
  case P_First
  have r: "sm_rcv s = []" using assms(1) P_First by (simp add: stream_inv_def provider_ok_def)
  note f = before_writing [OF assms(1) disjI1, OF P_First] r
  show ?thesis
    using assms(2,3) P_First f
    by (cases e) (auto simp: stream_inv_defs flag_defs provider_handle_empty_file_def commit_cache_cb_def Let_def
      split: if_splits)
next
  case (P_Second c)
  have r: "sm_rcv s = [c]" "c \<noteq> []" using assms(1) P_Second by (simp_all add: stream_inv_def provider_ok_def)
  note f = before_writing [OF assms(1) disjI2, OF disjI1, OF P_Second] r
  show ?thesis
    using assms(2,3) P_Second f by (cases e) (auto simp: stream_inv_defs flag_defs write_dispatcher_def split: if_splits)
next
  case (P_Dispatch a b)
  have r: "sm_rcv s = [a, b]" "a \<noteq> []" "b \<noteq> []"
    using assms(1) P_Dispatch by (simp_all add: stream_inv_def provider_ok_def)
  note f = before_writing [OF assms(1) disjI2, OF disjI2, OF P_Dispatch] r
  show ?thesis
    using assms(2,3) P_Dispatch f by (cases e) (auto simp: stream_inv_defs flag_defs write_dispatcher_def split: if_splits)
next
  case P_Loop
  then show ?thesis using loop_keeps assms by simp
qed (use assms(2) in \<open>cases e; simp\<close>)+

lemma que_closed:
  "que_ok s \<Longrightarrow> sm_que s = None # q \<Longrightarrow> q = [] \<and> provider_done s"
  by (auto simp: que_ok_def Cons_eq_append_conv)

lemma que_pop:
  "que_ok s \<Longrightarrow> sm_que s = Some d # q \<Longrightarrow> que_ok (s\<lparr>sm_que := q\<rparr>) \<and> d \<noteq> []"
  by (auto simp: que_ok_def provider_done_def Cons_eq_append_conv)

lemma writer_fails_keeps:
  assumes "stream_inv old s" "sm_writer s = W_Loop" "prefix (tmp_content s @ take n pending) (body s)"
  shows "stream_inv old (writer_fails n pending (s\<lparr>sm_que := q\<rparr>))"
proof -
  have "sm_committed s = None" "\<not> sm_finished s" "sm_provider s = P_Loop \<or> provider_done s"
    using assms(1,2) by (auto simp: stream_inv_def commit_ok_def flow_ok_def que_ok_def split: option.splits)
  then show ?thesis using assms
    by (auto simp: stream_inv_def writer_fails_def flag_defs provider_ok_def flow_ok_def whole_ok_def commit_ok_def
        provider_done_def tmp_content_def body_def split: provider_pc.splits)
qed

lemma file_turn_keeps:
  assumes inv: "stream_inv old s" and w: "sm_writer s = W_Loop" and run: "provider_write_file_turn n ok s = Some s'"
  shows "stream_inv old s'"
proof -
  have q: "que_ok s" and fin: "\<not> sm_finished s" and t: "sm_tmp s \<noteq> None"
    and fl: "\<not> sm_failed s \<Longrightarrow> tmp_content s @ sm_buf s @ qdata (sm_que s) = body s"
    using inv w by (simp_all add: stream_inv_def flow_ok_def)
  have pre: "prefix (tmp_content s @ sm_buf s) (body s)"
    and len: "\<not> sm_failed s \<Longrightarrow> sm_written s = length (tmp_content s @ sm_buf s)"
    using inv by (simp_all add: stream_inv_def whole_ok_def)
  have com: "sm_committed s = None" "sm_saved s = old"
    using inv w by (auto simp: stream_inv_def commit_ok_def split: option.splits)
  have pre_take: "prefix (tmp_content s @ take n (sm_buf s)) (body s)"
    using pre by (metis append_eq_appendI append_take_drop_id prefix_def prefix_order.trans)
  obtain item q' where que: "sm_que s = item # q'" using run
    by (cases "sm_que s") (auto simp: provider_write_file_turn_def)
  show ?thesis
  proof (cases item)
    case None
    then have nil: "q' = []" "provider_done s" using que_closed [OF q] que by auto
    show ?thesis
    proof (cases ok)
      case True
      have s': "s' = (set_writer_finished (s\<lparr>sm_que := q', sm_tmp := Some (tmp_content s @ sm_buf s), sm_buf := [],
          sm_cache_size := sm_written s\<rparr>))\<lparr>sm_writer := W_Finish True\<rparr>"
        using run que None True by (simp add: provider_write_file_turn_def tmp_content_def Let_def)
      have "\<not> sm_failed s \<Longrightarrow> tmp_content s @ sm_buf s = body s" using fl que None nil by simp
      moreover have "sm_provider s = P_Ended \<Longrightarrow> sm_remote_end s" "sm_provider s = P_Raised \<Longrightarrow> sm_failed s"
        using inv w by (auto simp: stream_inv_def provider_ok_def)
      ultimately show ?thesis
        using s' pre len com nil(2)
        by (auto simp: stream_inv_def flag_defs provider_ok_def flow_ok_def whole_ok_def commit_ok_def
            provider_done_def tmp_content_def body_def)
    next
      case False
      then have "s' = writer_fails n (sm_buf s) (s\<lparr>sm_que := q'\<rparr>)"
        using run que None by (simp add: provider_write_file_turn_def Let_def)
      then show ?thesis using writer_fails_keeps [OF inv w pre_take] by simp
    qed
  next
    case (Some d)
    then have d: "d \<noteq> []" and q2: "que_ok (s\<lparr>sm_que := q'\<rparr>)" using que_pop [OF q] que by auto
    then obtain b bs where db: "d = b # bs" by (cases d) auto
    have pre_d: "\<not> sm_failed s \<Longrightarrow> prefix (tmp_content s @ take n (sm_buf s @ d)) (body s)"
    proof -
      assume "\<not> sm_failed s"
      then have "body s = tmp_content s @ (sm_buf s @ d) @ qdata q'" using fl que Some by simp
      then show ?thesis by (metis append_assoc append_take_drop_id prefixI)
    qed
    show ?thesis
    proof (cases "sm_failed s \<or> \<not> sm_below_hard s \<or> \<not> ok")
      case True
      then have "s' = writer_fails n (sm_buf s) (s\<lparr>sm_que := q'\<rparr>) \<or>
          \<not> sm_failed s \<and> s' = writer_fails n (sm_buf s @ d) (s\<lparr>sm_que := q'\<rparr>)"
        using run que Some db by (auto simp: provider_write_file_turn_def Let_def split: if_splits)
      then show ?thesis using writer_fails_keeps [OF inv w] pre_take pre_d by blast
    next
      case False
      then have s': "s' = s\<lparr>sm_que := q', sm_tmp := Some (tmp_content s @ take n (sm_buf s @ d)),
          sm_buf := drop n (sm_buf s @ d), sm_written := sm_written s + length d\<rparr>"
        using run que Some db by (simp add: provider_write_file_turn_def Let_def tmp_content_def)
      have eq: "tmp_content s' @ sm_buf s' = tmp_content s @ sm_buf s @ d"
        using s' by (simp add: tmp_content_def del: take_append drop_append)
      have "tmp_content s' @ sm_buf s' @ qdata (sm_que s') = body s'"
      proof -
        have "(tmp_content s' @ sm_buf s') @ qdata q' = body s" unfolding eq using fl que Some False by simp
        moreover have "sm_que s' = q'" "body s' = body s" using s' by (simp_all add: body_def)
        ultimately show ?thesis by simp
      qed
      then have "flow_ok s'" using s' q2 fin w
        by (simp add: flow_ok_def que_ok_def provider_done_def del: take_append drop_append)
      moreover have "whole_ok s'"
      proof -
        have "body s' = (tmp_content s @ sm_buf s @ d) @ qdata q'" using fl que Some False s' by (simp add: body_def)
        then have "prefix (tmp_content s @ sm_buf s @ d) (body s')" by (rule prefixI)
        then show ?thesis unfolding whole_ok_def eq using s' len False fin by simp
      qed
      moreover have "provider_ok s'" using s' inv w
        by (auto simp: stream_inv_def provider_ok_def split: provider_pc.splits)
      ultimately show ?thesis using s' com by (simp add: stream_inv_def commit_ok_def)
    qed
  qed
qed

lemma pending_fails_keeps:
  assumes "stream_inv old s" "sm_writer s = W_Pending j" "tmp = None \<or> (\<exists>d n. j = Job_Once d \<and> tmp = Some (take n d))"
  shows "stream_inv old (s\<lparr>sm_started := True, sm_failed := True, sm_tmp := tmp, sm_writer := W_End\<rparr>)"
proof -
  have "sm_committed s = None" "sm_saved s = old"
    using assms(1,2) by (auto simp: stream_inv_def commit_ok_def split: option.splits)
  moreover have "sm_tmp s = None" "sm_buf s = []" "\<not> sm_finished s" using assms(1,2)
    by (cases j; simp add: stream_inv_def flow_ok_def)+
  moreover have "\<And>d. j = Job_Once d \<Longrightarrow> sm_rcv s = [d]" using assms(1,2) by (simp add: stream_inv_def flow_ok_def)
  ultimately show ?thesis
    using assms by (auto simp: stream_inv_def provider_ok_def flow_ok_def whole_ok_def commit_ok_def body_def
        tmp_content_def take_is_prefix split: provider_pc.splits)
qed

lemma pending_drop_keeps:
  assumes "stream_inv old s" "sm_writer s = W_Pending j"
  shows "stream_inv old ((set_writer_failed s)\<lparr>sm_writer := W_End\<rparr>)"
proof -
  have "sm_tmp s = None" using assms by (cases j) (simp_all add: stream_inv_def flow_ok_def)
  then have "s\<lparr>sm_tmp := None\<rparr> = s" by (cases s) simp
  then have "(set_writer_failed s)\<lparr>sm_writer := W_End\<rparr>
      = s\<lparr>sm_started := True, sm_failed := True, sm_tmp := None, sm_writer := W_End\<rparr>"
    by (cases s) (simp add: flag_defs)
  then show ?thesis using pending_fails_keeps [OF assms, of None] by simp
qed

lemma write_once_keeps:
  assumes "stream_inv old s" "sm_writer s = W_Pending (Job_Once d)"
  shows "stream_inv old (provider_write_once_in_thread d r s)"
proof -
  have f: "sm_tmp s = None" "sm_buf s = []" "\<not> sm_finished s" "\<not> sm_failed s" "sm_rcv s = [d]" "sm_provider s = P_Ended"
    using assms by (simp_all add: stream_inv_def flow_ok_def)
  have "sm_remote_end s" using assms(1) f(6) by (simp add: stream_inv_def provider_ok_def)
  moreover have "sm_committed s = None" "sm_saved s = old"
    using assms by (auto simp: stream_inv_def commit_ok_def split: option.splits)
  ultimately have ok: "stream_inv old ((set_writer_finished (s\<lparr>sm_tmp := Some d, sm_written := length d, sm_cache_size := length d\<rparr>))
      \<lparr>sm_writer := W_Finish False\<rparr>)"
    using f by (simp add: stream_inv_defs flag_defs)
  show ?thesis
  proof (cases r)
    case (Some n)
    then show ?thesis
      using pending_drop_keeps [OF assms] pending_fails_keeps [OF assms, of "Some (take n d)"]
      by (auto simp: provider_write_once_in_thread_def flag_defs)
  qed (use ok pending_drop_keeps [OF assms] in \<open>auto simp: provider_write_once_in_thread_def\<close>)
qed

lemma finish_keeps:
  assumes "stream_inv old s" "sm_writer s = W_Finish check" "\<not> (check \<and> sm_failed s)"
  shows "stream_inv old ((finalize_cache link_ok s)\<lparr>sm_writer := W_End\<rparr>)"
proof -
  have f: "sm_finished s" "\<not> sm_failed s" "provider_done s"
    using assms by (auto simp: stream_inv_def flow_ok_def)
  have w: "tmp_content s = body s" "sm_buf s = []" "sm_cache_size s = length (body s)"
      "sm_remote_end s \<or> sm_provider s = P_Closed" "sm_written s = length (body s)"
    using assms(1) f by (auto simp: stream_inv_def whole_ok_def)
  have c: "sm_committed s = None" "sm_saved s = old"
    using assms by (auto simp: stream_inv_def commit_ok_def split: option.splits)
  have p: "sm_provider s = P_Ended \<or> sm_provider s = P_Closed"
    using assms(1,2) f by (auto simp: stream_inv_def provider_ok_def provider_done_def)
  have tmp: "sm_tmp s = None \<or> sm_tmp s = Some (body s)" using w(1) by (auto simp: tmp_content_def split: option.splits)
  show ?thesis
    using f w c p tmp
    by (auto simp: finalize_cache_def commit_cache_cb_def flag_defs stream_inv_def provider_ok_def flow_ok_def
        whole_ok_def commit_ok_def provider_done_def tmp_content_def body_def Let_def split: option.splits bool.splits)
qed

lemma writer_keeps:
  assumes inv: "stream_inv old s" and run: "writer_step s (sm_writer s) e = Some s'"
  shows "stream_inv old s'"
proof (cases "sm_writer s")
  case (W_Pending j)
  note failed = pending_drop_keeps [OF inv W_Pending]
  show ?thesis
  proof (cases j)
    case Job_File
    have "stream_inv old ((set_writer_started (s\<lparr>sm_tmp := Some []\<rparr>))\<lparr>sm_writer := W_Loop\<rparr>)"
      using inv W_Pending Job_File
      by (auto simp: stream_inv_defs flag_defs split: provider_pc.splits option.splits)
    then show ?thesis using run W_Pending Job_File failed by (cases e) (auto split: if_splits)
  next
    case (Job_Once d)
    then show ?thesis using run W_Pending failed write_once_keeps [OF inv] by (cases e) (auto split: if_splits)
  qed
next
  case W_Loop
  then show ?thesis using run file_turn_keeps [OF inv W_Loop] by (cases e) auto
next
  case (W_Finish check)
  show ?thesis
  proof (cases e)
    case (T_Finish link_ok)
    show ?thesis
    proof (cases "check \<and> sm_failed s")
      case True
      then have "s' = s\<lparr>sm_writer := W_End\<rparr>" using run W_Finish T_Finish by simp
      then show ?thesis using inv W_Finish True
        by (auto simp: stream_inv_def provider_ok_def flow_ok_def whole_ok_def commit_ok_def provider_done_def
            body_def tmp_content_def split: provider_pc.splits option.splits)
    next
      case False
      then show ?thesis using run W_Finish T_Finish finish_keeps [OF inv W_Finish False] by auto
    qed
  qed (use run W_Finish in simp_all)
qed (use run in \<open>cases e; simp\<close>)+

lemma stream_step_keeps:
  assumes "stream_inv old s" "stream_step s e = Some s'" "remote_ev e"
  shows "stream_inv old s'"
proof (cases e)
  case (Ev_Provider x)
  then show ?thesis using assms provider_keeps [of old s x s'] by (cases x) auto
next
  case (Ev_Writer x)
  then show ?thesis using assms writer_keeps by auto
next
  case (Ev_Env a b c d)
  then have s': "s' = s\<lparr>sm_below_soft := a, sm_below_hard := b, sm_pool_locked := c, sm_commit_cb := d\<rparr>"
    using assms(2) by simp
  have "provider_ok s' = provider_ok s" "whole_ok s' = whole_ok s" "commit_ok old s' = commit_ok old s"
    "flow_ok s' = flow_ok s"
    unfolding s' by (simp_all add: provider_ok_def whole_ok_def commit_ok_def flow_ok_def que_ok_def body_def tmp_content_def
        provider_done_def cong: writer_pc.case_cong job.case_cong provider_pc.case_cong option.case_cong)
  then show ?thesis using assms(1) by (simp add: stream_inv_def)
qed

section \<open>Subscribers\<close>

definition REMOTE_READ_CHUNK_SIZE :: nat where "REMOTE_READ_CHUNK_SIZE = 512 * 1024"
definition LOCAL_READ_SIZE :: nat where "LOCAL_READ_SIZE = 2 * 1024 * 1024"

datatype sub_pc =
    S_Wait            \<comment> \<open>polls the started flag\<close>
  | S_Started         \<comment> \<open>has seen it, and no failed flag\<close>
  | S_Once            \<comment> \<open>reads a small finished file at once\<close>
  | S_Open            \<comment> \<open>opens the temporary file\<close>
  | S_Check           \<comment> \<open>at the head of the loop\<close>
  | S_Read            \<comment> \<open>in the loop\<close>
  | S_Complete        \<comment> \<open>has delivered what it takes for the whole file\<close>
  | S_Cut             \<comment> \<open>has stopped: interrupted, writer failed, or no data in time\<close>
  | S_Not_Ready       \<comment> \<open>\<^verbatim>\<open>CacheProviderNotReady\<close>\<close>
  | S_Busy            \<comment> \<open>\<^verbatim>\<open>ReaderPoolBusy\<close>\<close>
  | S_Reader_Failed   \<comment> \<open>the reader raised\<close>

record subscriber =
  sb_pc :: sub_pc
  sb_out :: bytes

definition sub_init :: subscriber where
  "sub_init = \<lparr> sb_pc = S_Wait, sb_out = [] \<rparr>"

datatype sub_ev = R_Step bool bool  \<comment> \<open>is the deadline over, is the reader interrupted or the pool busy\<close>

definition subscriber_wait_for_provider :: "bool \<Rightarrow> stream \<Rightarrow> subscriber \<Rightarrow> subscriber" where
  "subscriber_wait_for_provider timeout s sb =
     (if \<not> sm_started s then (if timeout then sb\<lparr>sb_pc := S_Not_Ready\<rparr> else sb)
      else if sm_failed s then sb\<lparr>sb_pc := S_Not_Ready\<rparr>
      else sb\<lparr>sb_pc := S_Started\<rparr>)"

definition subscribe_tracker_dispatch :: "stream \<Rightarrow> subscriber \<Rightarrow> subscriber" where
  "subscribe_tracker_dispatch s sb =
     (if sm_finished s then
        (if sm_cache_size s = 0 then sb\<lparr>sb_pc := S_Complete\<rparr>
         else if sm_cache_size s \<le> REMOTE_READ_CHUNK_SIZE then sb\<lparr>sb_pc := S_Once\<rparr>
         else sb\<lparr>sb_pc := S_Open\<rparr>)
      else sb\<lparr>sb_pc := S_Open\<rparr>)"

definition subscriber_loop_head :: "bool \<Rightarrow> stream \<Rightarrow> subscriber \<Rightarrow> subscriber" where
  "subscriber_loop_head interrupted s sb =
     (if \<not> sm_finished s \<or> length (sb_out sb) < sm_written s
      then (if interrupted \<or> sm_failed s then sb\<lparr>sb_pc := S_Cut\<rparr> else sb\<lparr>sb_pc := S_Read\<rparr>)
      else sb\<lparr>sb_pc := S_Complete\<rparr>)"

definition subscriber_read :: "bool \<Rightarrow> stream \<Rightarrow> subscriber \<Rightarrow> subscriber" where
  "subscriber_read timeout s sb =
     (let data = take LOCAL_READ_SIZE (drop (length (sb_out sb)) (tmp_content s))
      in if data \<noteq> [] then sb\<lparr>sb_out := sb_out sb @ data, sb_pc := S_Check\<rparr>
         else if \<not> timeout then sb\<lparr>sb_pc := S_Check\<rparr>
         else sb\<lparr>sb_pc := S_Cut\<rparr>)"

fun sub_step :: "stream \<Rightarrow> subscriber \<Rightarrow> sub_ev \<Rightarrow> subscriber" where
  "sub_step s sb (R_Step timeout intr) = (case sb_pc sb of
       S_Wait \<Rightarrow> subscriber_wait_for_provider timeout s sb
     | S_Started \<Rightarrow> subscribe_tracker_dispatch s sb
     | S_Once \<Rightarrow> (if intr then sb\<lparr>sb_pc := S_Busy\<rparr>
         else case sm_tmp s of None \<Rightarrow> sb\<lparr>sb_pc := S_Reader_Failed\<rparr> | Some d \<Rightarrow> sb\<lparr>sb_out := d, sb_pc := S_Complete\<rparr>)
     | S_Open \<Rightarrow> (if intr then sb\<lparr>sb_pc := S_Busy\<rparr>
         else case sm_tmp s of None \<Rightarrow> sb\<lparr>sb_pc := S_Reader_Failed\<rparr> | Some d \<Rightarrow> sb\<lparr>sb_pc := S_Check\<rparr>)
     | S_Check \<Rightarrow> subscriber_loop_head intr s sb
     | S_Read \<Rightarrow> subscriber_read timeout s sb
     | _ \<Rightarrow> sb)"

subsection \<open>The system of a provider, its writer and a subscriber\<close>

datatype sys_ev = Stream stream_ev | Sub sub_ev

fun sys_step :: "stream \<times> subscriber \<Rightarrow> sys_ev \<Rightarrow> (stream \<times> subscriber) option" where
  "sys_step (s, sb) (Stream e) = (if remote_ev e then map_option (\<lambda>s'. (s', sb)) (stream_step s e) else None)"
| "sys_step (s, sb) (Sub e) = Some (s, sub_step s sb e)"

fun sys_run :: "stream \<times> subscriber \<Rightarrow> sys_ev list \<Rightarrow> (stream \<times> subscriber) option" where
  "sys_run c [] = Some c"
| "sys_run c (e # es) = (case sys_step c e of None \<Rightarrow> None | Some c' \<Rightarrow> sys_run c' es)"

text \<open>The temporary file only grows, the flags only rise.\<close>

definition grows :: "stream \<Rightarrow> stream \<Rightarrow> bool" where
  "grows s s' \<longleftrightarrow> prefix (tmp_content s) (tmp_content s') \<and> prefix (sm_rcv s) (sm_rcv s')
     \<and> (sm_started s \<longrightarrow> sm_started s') \<and> (sm_finished s \<longrightarrow> sm_finished s') \<and> (sm_failed s \<longrightarrow> sm_failed s')"

lemma provider_grows: "stream_writing_cache s pc e = Some s' \<Longrightarrow> grows s s'"
  by (induction s pc e rule: stream_writing_cache.induct)
    (auto simp: grows_def tmp_content_def flag_defs provider_handle_empty_file_def commit_cache_cb_def
      write_dispatcher_def Let_def split: if_splits)

lemma writer_grows:
  assumes "flow_ok s" "writer_step s (sm_writer s) e = Some s'"
  shows "grows s s'"
proof (cases "sm_writer s")
  case (W_Pending j)
  then show ?thesis using assms
    by (cases j; cases e)
      (auto simp: grows_def tmp_content_def flag_defs flow_ok_def provider_write_once_in_thread_def split: if_splits option.splits)
next
  case W_Loop
  then show ?thesis using assms
    by (cases e) (auto simp: grows_def tmp_content_def flag_defs provider_write_file_turn_def writer_fails_def Let_def
        split: if_splits option.splits list.splits)
next
  case (W_Finish check)
  then show ?thesis using assms
    by (cases e) (auto simp: grows_def tmp_content_def flag_defs finalize_cache_def commit_cache_cb_def Let_def
        split: if_splits option.splits bool.splits)
qed (use assms(2) in \<open>cases e; simp\<close>)+

lemma stream_step_grows:
  assumes "stream_inv old s" "stream_step s e = Some s'"
  shows "grows s s'"
  using assms provider_grows writer_grows
  by (cases e) (auto simp: stream_inv_def grows_def tmp_content_def)

lemma finished_rcv_fixed:
  assumes "stream_inv old s" "sm_finished s" "stream_step s e = Some s'"
  shows "sm_rcv s' = sm_rcv s"
proof (cases e)
  case (Ev_Provider x)
  have "provider_done s" using assms(1,2) by (simp add: stream_inv_def whole_ok_def)
  then show ?thesis using assms(3) Ev_Provider by (cases x) (auto simp: provider_done_def)
next
  case (Ev_Writer x)
  then show ?thesis using assms(3)
    by (cases "sm_writer s"; cases x; cases "case sm_writer s of W_Pending j \<Rightarrow> j | _ \<Rightarrow> Job_File")
      (auto simp: flag_defs provider_write_once_in_thread_def provider_write_file_turn_def writer_fails_def
        finalize_cache_def commit_cache_cb_def Let_def split: if_splits option.splits list.splits bool.splits)
qed (use assms(3) in auto)

definition sub_inv :: "stream \<Rightarrow> subscriber \<Rightarrow> bool" where
  "sub_inv s sb \<longleftrightarrow> prefix (sb_out sb) (tmp_content s)
     \<and> (sb_pc sb \<in> {S_Wait, S_Started, S_Once, S_Open} \<longrightarrow> sb_out sb = [])
     \<and> (sb_pc sb = S_Once \<longrightarrow> sm_finished s)
     \<and> (sb_pc sb = S_Complete \<and> \<not> sm_failed s \<longrightarrow> sm_finished s \<and> sb_out sb = body s)"

lemma sub_inv_stream_step:
  assumes "stream_inv old s" "stream_step s e = Some s'" "remote_ev e" "sub_inv s sb"
  shows "sub_inv s' sb"
  using assms(4) stream_step_grows [OF assms(1,2)] finished_rcv_fixed [OF assms(1) _ assms(2)]
  by (auto simp: sub_inv_def grows_def body_def intro: prefix_order.trans)

lemma sub_inv_sub_step:
  assumes inv: "stream_inv old s" and sub: "sub_inv s sb"
  shows "sub_inv s (sub_step s sb e)"
proof (cases e)
  case (R_Step t i)
  have whole: "sm_finished s \<Longrightarrow> \<not> sm_failed s \<Longrightarrow> tmp_content s = body s \<and> sm_cache_size s = length (body s)
      \<and> sm_written s = length (tmp_content s)"
    using inv by (auto simp: stream_inv_def whole_ok_def)
  show ?thesis
  proof (cases "sb_pc sb")
    case S_Started
    then show ?thesis using R_Step sub whole
      by (cases "sm_failed s") (auto simp: sub_inv_def subscribe_tracker_dispatch_def)
  next
    case S_Once
    then show ?thesis using R_Step sub whole by (auto simp: sub_inv_def tmp_content_def split: option.splits)
  next
    case S_Check
    have "length (tmp_content s) \<le> length (sb_out sb) \<Longrightarrow> sb_out sb = tmp_content s"
      using sub by (auto simp: sub_inv_def prefix_def)
    then show ?thesis using R_Step sub whole S_Check
      by (cases "sm_failed s") (auto simp: sub_inv_def subscriber_loop_head_def not_less)
  next
    case S_Read
    obtain r where r: "tmp_content s = sb_out sb @ r" using sub by (auto simp: sub_inv_def prefix_def)
    have "prefix (sb_out sb @ take n r) (tmp_content s)" for n using r by (simp add: take_is_prefix)
    then show ?thesis using R_Step sub S_Read r
      by (auto simp: sub_inv_def subscriber_read_def Let_def)
  qed (use R_Step sub in \<open>auto simp: sub_inv_def subscriber_wait_for_provider_def split: option.splits\<close>)
qed

lemma sys_run_inv:
  "stream_inv old s \<Longrightarrow> sub_inv s sb \<Longrightarrow> sys_run (s, sb) evs = Some (s', sb')
   \<Longrightarrow> stream_inv old s' \<and> sub_inv s' sb'"
proof (induction evs arbitrary: s sb)
  case (Cons e evs)
  obtain s1 sb1 where step: "sys_step (s, sb) e = Some (s1, sb1)" and run: "sys_run (s1, sb1) evs = Some (s', sb')"
    using Cons.prems(3) by (auto split: option.splits)
  have "stream_inv old s1 \<and> sub_inv s1 sb1"
  proof (cases e)
    case (Stream x)
    then have "stream_step s x = Some s1" "remote_ev x" "sb1 = sb" using step by (auto split: if_splits)
    then show ?thesis using stream_step_keeps sub_inv_stream_step Cons.prems(1,2) by blast
  next
    case (Sub x)
    then show ?thesis using step sub_inv_sub_step [OF Cons.prems(1,2)] Cons.prems(1) by auto
  qed
  then show ?case using Cons.IH run by blast
qed simp

lemma sys_run_from_init:
  "sys_run (stream_init old, sub_init) evs = Some (s, sb) \<Longrightarrow> stream_inv old s \<and> sub_inv s sb"
  by (rule sys_run_inv [OF stream_inv_init]) (simp_all add: sub_inv_def sub_init_def tmp_content_def stream_init_def)

text \<open>
  C14: The cache is given whole files only, whatever the threads do. In every interleaving of the provider, the writer
  thread and the disk and pool events, with any system call or callback failing at any time: if an entry is
  committed, then the remote had been read to its end (or the provider was closed from outside, see the next
  property), the committed size is the length of what the remote sent, and the file linked at the save path, unless
  an old one was in its place, is exactly that, byte by byte.
\<close>

theorem committed_file_is_whole:
  assumes "sys_run (stream_init old, sub_init) evs = Some (s, sb)" and "sm_committed s = Some n"
    and "sm_provider s \<noteq> P_Closed"
  shows "sm_remote_end s \<and> n = length (concat (sm_rcv s))
    \<and> (sm_saved s = old \<or> old = None \<and> sm_saved s = Some (concat (sm_rcv s)))"
  using sys_run_from_init [OF assms(1)] assms(2,3) by (simp add: stream_inv_def commit_ok_def body_def)

definition sample_run :: "sys_ev list" where
  "sample_run = map Stream [Ev_Env True True False (Some True), Ev_Provider (E_Chunk ''ab''), Ev_Provider (E_Chunk ''cd''),
     Ev_Provider E_Resume, Ev_Writer (T_Open True), Ev_Writer (T_Get 1 True), Ev_Provider (E_Chunk ''e''), Ev_Writer (T_Get 0 True),
     Ev_Provider E_End, Ev_Writer (T_Get 9 True), Ev_Writer (T_Get 0 True), Ev_Writer (T_Finish True)]"

lemmas stream_run_simps = flag_defs commit_cache_cb_def write_dispatcher_def provider_write_file_turn_def
  finalize_cache_def tmp_content_def stream_init_def Let_def

theorem committed_file_is_whole_witness:
  "\<exists>s sb. sys_run (stream_init None, sub_init) sample_run = Some (s, sb) \<and> sm_committed s = Some 5
     \<and> sm_remote_end s \<and> 5 = length (concat (sm_rcv s))"
proof -
  obtain s sb where s: "sys_run (stream_init None, sub_init) sample_run = Some (s, sb)" "sm_committed s = Some 5"
      "sm_provider s \<noteq> P_Closed"
    by (simp add: sample_run_def stream_run_simps)
  show ?thesis using committed_file_is_whole [OF s] s by blast
qed

text \<open>
  A provider that is closed from outside while it relays a file (its task is cancelled, or the generator is
  dropped after the client's connection broke) commits a truncated file: \<^verbatim>\<open>GeneratorExit\<close> and \<^verbatim>\<open>CancelledError\<close>
  pass the \<^verbatim>\<open>except Exception\<close> that would set the failed flag, and the \<^verbatim>\<open>finally\<close> block sends the sentinel that
  tells the writer that the file is complete.
\<close>

lemma closed_provider_commits_truncated_file:
  assumes "a \<noteq> []" and "b \<noteq> []"
  shows "\<exists>s sb. sys_run (stream_init None, sub_init) (map Stream [Ev_Env True True False (Some True),
      Ev_Provider (E_Chunk a), Ev_Provider (E_Chunk b), Ev_Provider E_Resume, Ev_Writer (T_Open True),
      Ev_Provider E_Close, Ev_Writer (T_Get 0 True), Ev_Writer (T_Get 0 True), Ev_Writer (T_Get 0 True),
      Ev_Writer (T_Finish True)]) = Some (s, sb)
    \<and> sm_committed s = Some (length (a @ b)) \<and> sm_saved s = Some (a @ b) \<and> \<not> sm_remote_end s \<and> \<not> sm_failed s"
  using assms by (cases a; cases b) (simp_all add: stream_run_simps)

text \<open>
  C28: A subscriber never delivers a wrong byte: what it has read is a prefix of what the remote sent, at any time and
  whatever fails; and when it ends with the file complete, and the writer has not failed, it has delivered everything,
  with the remote read to its end or the provider closed.
\<close>

theorem subscriber_gets_the_remote_file:
  assumes "sys_run (stream_init old, sub_init) evs = Some (s, sb)"
  shows "prefix (sb_out sb) (concat (sm_rcv s))
    \<and> (sb_pc sb = S_Complete \<and> \<not> sm_failed s \<longrightarrow>
        sb_out sb = concat (sm_rcv s) \<and> (sm_remote_end s \<or> sm_provider s = P_Closed))"
proof -
  have inv: "stream_inv old s" "sub_inv s sb" using sys_run_from_init [OF assms] by auto
  have "prefix (tmp_content s) (body s)"
    using inv(1) by (auto simp: stream_inv_def whole_ok_def intro: append_prefixD)
  then have pre: "prefix (sb_out sb) (concat (sm_rcv s))"
    using inv(2) unfolding sub_inv_def body_def by (blast intro: prefix_order.trans)
  have "sb_out sb = concat (sm_rcv s) \<and> (sm_remote_end s \<or> sm_provider s = P_Closed)"
    if "sb_pc sb = S_Complete" "\<not> sm_failed s"
  proof -
    have "sm_finished s" "sb_out sb = body s" using inv(2) that by (simp_all add: sub_inv_def)
    then show ?thesis using inv(1) that(2) by (simp add: stream_inv_def whole_ok_def body_def)
  qed
  with pre show ?thesis by blast
qed

definition small_run :: "sys_ev list" where
  "small_run = [Stream (Ev_Env True True False (Some True)), Stream (Ev_Provider (E_Chunk ''ab'')), Stream (Ev_Provider E_End),
     Stream (Ev_Writer (T_Once None)), Sub (R_Step False False), Sub (R_Step False False), Sub (R_Step False False)]"

theorem subscriber_gets_the_remote_file_witness:
  "\<exists>s sb. sys_run (stream_init None, sub_init) small_run = Some (s, sb) \<and> sb_out sb = ''ab'' \<and> sb_out sb = concat (sm_rcv s)"
proof -
  let ?sb = "\<lparr> sb_pc = S_Complete, sb_out = ''ab'' \<rparr>"
  obtain s where s: "sys_run (stream_init None, sub_init) small_run = Some (s, ?sb)" "\<not> sm_failed s"
    by (simp add: small_run_def stream_run_simps sub_init_def subscriber_wait_for_provider_def
        provider_write_once_in_thread_def subscribe_tracker_dispatch_def REMOTE_READ_CHUNK_SIZE_def)
  show ?thesis using subscriber_gets_the_remote_file [OF s(1)] s by auto
qed

text \<open>
  A subscriber's loop ends: once the writer has finished and not failed, a subscriber that is not interrupted comes
  to its end, with the whole file, after at most two steps per byte that is missing and one more.
\<close>

lemma subscriber_loop_terminates:
  assumes "sys_run (stream_init old, sub_init) evs = Some (s, sb)" and "sm_finished s" and "\<not> sm_failed s"
    and "sb_pc sb = S_Check" and "n = length (concat (sm_rcv s)) - length (sb_out sb)"
  shows "\<exists>k \<le> 2 * n + 1. \<exists>sb'. ((\<lambda>x. sub_step s x (R_Step False False)) ^^ k) sb = sb'
    \<and> sb_pc sb' = S_Complete \<and> sb_out sb' = concat (sm_rcv s)"
proof -
  have inv: "stream_inv old s" "sub_inv s sb" using sys_run_from_init [OF assms(1)] by auto
  have w: "tmp_content s = concat (sm_rcv s)" "sm_written s = length (concat (sm_rcv s))"
    using inv(1) assms(2,3) by (auto simp: stream_inv_def whole_ok_def body_def)
  have "prefix (sb_out sb) (concat (sm_rcv s))" using inv(2) w by (simp add: sub_inv_def)
  then show ?thesis using assms(4,5)
  proof (induction n arbitrary: sb rule: less_induct)
    case (less n)
    let ?f = "\<lambda>x. sub_step s x (R_Step False False)" and ?b = "concat (sm_rcv s)"
    show ?case
    proof (cases n)
      case 0
      then have "sb_out sb = ?b" using less.prems by (auto simp: prefix_def)
      then have "(?f ^^ 1) sb = sb\<lparr>sb_pc := S_Complete\<rparr>"
        using less.prems(2) assms(2) w by (simp add: subscriber_loop_head_def)
      then show ?thesis using \<open>sb_out sb = ?b\<close> by (intro exI [of _ 1]) auto
    next
      case (Suc m)
      then have lt: "length (sb_out sb) < length ?b" using less.prems by simp
      let ?d = "take LOCAL_READ_SIZE (drop (length (sb_out sb)) ?b)"
      have d: "?d \<noteq> []" using lt by (simp add: LOCAL_READ_SIZE_def)
      have two: "(?f ^^ 2) sb = sb\<lparr>sb_out := sb_out sb @ ?d, sb_pc := S_Check\<rparr>" (is "_ = ?sb")
        using less.prems(2) assms(2,3) w lt d by (simp add: numeral_2_eq_2 subscriber_loop_head_def subscriber_read_def Let_def)
      have pre: "prefix (sb_out ?sb) ?b"
        using less.prems(1) by (auto simp: prefix_def) (metis append_take_drop_id)
      have "length (sb_out ?sb) > length (sb_out sb)" using d by simp
      then have less_n: "length ?b - length (sb_out ?sb) < n" using less.prems(3) lt by simp
      obtain k sb' where k: "k \<le> 2 * (length ?b - length (sb_out ?sb)) + 1" "(?f ^^ k) ?sb = sb'"
          "sb_pc sb' = S_Complete" "sb_out sb' = ?b"
        using less.IH [OF less_n pre _ refl] by auto
      have "(?f ^^ (k + 2)) sb = sb'" using two k(2) by (simp only: funpow_add comp_apply)
      moreover have "k + 2 \<le> 2 * n + 1" using k(1) less_n by simp
      ultimately show ?thesis using k(3,4) by blast
    qed
  qed
qed

definition overtaken_run :: "sys_ev list" where
  "overtaken_run = [Stream (Ev_Env True True False (Some True)), Stream (Ev_Provider (E_Chunk ''ab'')),
     Stream (Ev_Provider (E_Chunk ''cd'')), Stream (Ev_Provider E_Resume), Stream (Ev_Writer (T_Open True)),
     Sub (R_Step False False), Sub (R_Step False False), Sub (R_Step False False), Stream (Ev_Provider E_End),
     Stream (Ev_Writer (T_Get 9 True)), Stream (Ev_Writer (T_Get 9 True)), Stream (Ev_Writer (T_Get 9 True))]"

text \<open>
  When the remote fails before the second chunk has arrived, nobody tells the subscribers: whatever happens
  afterwards, the tracker is neither started nor failed, so a subscriber waits until its own deadline, although the
  comment on \<^verbatim>\<open>SUBSCRIBER_WAIT_TIMEOUT\<close> says that a provider that gives up ends the wait right away.
\<close>

lemma early_failure_leaves_subscribers_waiting:
  assumes "sys_run (stream_init old, sub_init) ([Stream (Ev_Provider (E_Chunk a)), Stream (Ev_Provider E_Raise)] @ evs) = Some (s, sb)"
    and "\<forall>b. Sub (R_Step True b) \<notin> set evs"
  shows "\<not> sm_failed s \<and> \<not> sm_started s \<and> sb_pc sb = S_Wait"
proof -
  let ?dead = "\<lambda>s. sm_provider s = P_Raised \<and> sm_writer s = W_None \<and> \<not> sm_started s \<and> \<not> sm_failed s"
  have keep: "sys_run (s0, sb0) evs = Some (s, sb) \<Longrightarrow> ?dead s0 \<Longrightarrow> sb_pc sb0 = S_Wait
      \<Longrightarrow> \<forall>b. Sub (R_Step True b) \<notin> set evs \<Longrightarrow> ?dead s \<and> sb_pc sb = S_Wait" for s0 sb0
  proof (induction evs arbitrary: s0 sb0)
    case (Cons e evs)
    obtain s1 sb1 where st: "sys_step (s0, sb0) e = Some (s1, sb1)" "sys_run (s1, sb1) evs = Some (s, sb)"
      using Cons.prems(1) by (auto split: option.splits)
    have "?dead s1 \<and> sb_pc sb1 = S_Wait"
    proof (cases e)
      case (Stream x)
      then have x: "stream_step s0 x = Some s1" "sb1 = sb0" using st(1) by (auto split: if_splits)
      then show ?thesis using Cons.prems(2,3) by (cases x) (auto split: if_splits)
    next
      case (Sub x)
      then obtain b where "x = R_Step False b" using Cons.prems(4) by (cases x) (metis (full_types) list.set_intros(1))
      then show ?thesis using st(1) Sub Cons.prems(2,3) by (simp add: subscriber_wait_for_provider_def)
    qed
    then show ?case using Cons.IH st(2) Cons.prems(4) by simp
  qed simp
  obtain s0 sb0 where "sys_run (s0, sb0) evs = Some (s, sb)" "?dead s0" "sb_pc sb0 = S_Wait"
    using assms(1) by (auto simp: stream_init_def sub_init_def Let_def split: if_splits)
  then show ?thesis using keep assms(2) by blast
qed

section \<open>The register of ongoing cachings\<close>

text \<open>A dictionary of trackers; here a tracker is the stream it tracks.\<close>

definition get_tracker :: "(string \<Rightarrow> stream option) \<Rightarrow> string \<Rightarrow> stream option" where
  "get_tracker reg cid = (case reg cid of None \<Rightarrow> None | Some t \<Rightarrow> if \<not> sm_failed t then Some t else None)"

definition register_tracker :: "string \<Rightarrow> stream \<Rightarrow> (string \<Rightarrow> stream option) \<Rightarrow> (string \<Rightarrow> stream option)" where
  "register_tracker cid t reg = reg(cid := Some t)"

end
