(* ===== verification/OTA_Cache.thy ===== *)
theory OTA_Cache
  imports Cache_Streaming
begin

text \<open>
  How the OTA proxy answers a request (\<^verbatim>\<open>ota_proxy/ota_cache.py\<close>): the choice between the external device cache, the
  local cache, the NFS cache, an ongoing or a new caching and the remote, for whole files and for ranges.

  The state \<open>ota_cache\<close> has the fields of \<^verbatim>\<open>OTACache\<close> that the handlers read and write, with the file system as a
  map from paths to nodes and a tracker as its failed flag and its \<^verbatim>\<open>CacheMeta\<close>. What a request meets outside the
  process is a record \<open>request_env\<close>: the remote's answer, the load of the read pool, what waiting for a provider
  ends with, a file that a concurrent finalization links while the lookup waits, the hash function, and what pydantic
  makes of \<^verbatim>\<open>True\<close> in a field of type \<^verbatim>\<open>str\<close>. A response body is described by where it comes from (\<open>fd\<close>).
\<close>

section \<open>Data\<close>

datatype fnode = F_Reg bytes | F_Other

datatype proxy_exc =
    X_ReaderPoolBusy | X_CacheProviderNotReady
  | X_ClientResponseError nat | X_ClientConnectionError | X_ClientError
  | X_BaseOTACacheError | X_StopAsyncIteration
  | X_Other string

datatype fd =
    Fd_Bytes bytes
  | Fd_File string nat
  | Fd_Remote string headers
  | Fd_Caching string
  | Fd_Subscribed string

record tracker =
  tk_failed :: bool
  tk_meta :: "cache_meta option"

record request_env =
  en_remote :: "string \<Rightarrow> headers \<Rightarrow> proxy_exc + headers"
  en_read_busy :: bool
  en_subscribe :: "string \<Rightarrow> proxy_exc + unit"
  en_late :: "string \<Rightarrow> (nat \<times> fnode) option"
  en_sha256 :: "string \<Rightarrow> string"
  en_str_of_True :: "string option"

record ota_cache =
  oc_closed :: bool
  oc_cache_enabled :: bool
  oc_upper_proxy :: string
  oc_base_dir :: string
  oc_external_dir :: "string option"
  oc_nfs_dir :: "string option"
  oc_below_soft :: bool
  oc_below_hard :: bool
  oc_fs :: "string \<Rightarrow> fnode option"
  oc_index :: cache_index
  oc_trackers :: "string \<Rightarrow> tracker option"
  oc_total_requests :: nat
  oc_external_hits :: nat
  oc_local_hits :: nat
  oc_nfs_hits :: nat
  oc_cdn_hits :: nat

type_synonym answer = "(fd \<times> headers) option"
type_synonym 'a handler = "(ota_cache, proxy_exc, 'a) io"

definition HEADER_RANGE :: string where "HEADER_RANGE = ''range''"
definition HEADER_CONTENT_RANGE :: string where "HEADER_CONTENT_RANGE = ''content-range''"
definition CDN_HEADER_CACHE_KEY :: string where "CDN_HEADER_CACHE_KEY = ''x-cache''"
definition EXTERNAL_CACHE_STORAGE_COMPRESS_ALG :: string where "EXTERNAL_CACHE_STORAGE_COMPRESS_ALG = ''zst''"

section \<open>Paths and helpers\<close>

text \<open>\<^verbatim>\<open>os.path.join\<close> (and the \<^verbatim>\<open>/\<close> of a path object): an absolute second part replaces the first.\<close>

definition os_path_join :: "string \<Rightarrow> string \<Rightarrow> string" where
  "os_path_join a b =
     (if startswith b ''/'' then b
      else if a = [] \<or> last a = CHR ''/'' then a @ b
      else a @ ''/'' @ b)"

text \<open>\<^verbatim>\<open>PurePath.with_suffix\<close>: a suffix of the last component, a dot neither first nor last in it, is replaced.\<close>

definition with_suffix :: "string \<Rightarrow> string \<Rightarrow> string" where
  "with_suffix p suf =
     (let name = rev (takeWhile (\<lambda>c. c \<noteq> CHR ''/'') (rev p));
          ext = rev (takeWhile (\<lambda>c. c \<noteq> CHR ''.'') (rev name))
      in if CHR ''.'' \<in> set name \<and> ext \<noteq> [] \<and> length ext + 1 < length name
         then take (length p - (length ext + 1)) p @ suf
         else p @ suf)"

definition lower_char :: "char \<Rightarrow> char" where
  "lower_char c = (let n = of_char c :: nat in if 65 \<le> n \<and> n \<le> 90 then char_of (n + 32) else c)"

definition is_file :: "ota_cache \<Rightarrow> string \<Rightarrow> bool" where
  "is_file oc p = (case oc_fs oc p of Some (F_Reg _) \<Rightarrow> True | _ \<Rightarrow> False)"

definition url_based_hash :: "request_env \<Rightarrow> string \<Rightarrow> string" where
  "url_based_hash e raw_url = URL_BASED_HASH_PREFIX @ en_sha256 e raw_url"

text \<open>
  \<^verbatim>\<open>sys.intern(cache_policy.file_sha256 or url_based_hash(raw_url))\<close>; a \<^verbatim>\<open>file_sha256\<close> directive without a value is
  \<^verbatim>\<open>True\<close>, which \<^verbatim>\<open>sys.intern\<close> refuses.
\<close>

definition cache_identifier_of :: "request_env \<Rightarrow> string \<Rightarrow> cache_control \<Rightarrow> string handler" where
  "cache_identifier_of e raw_url policy =
     (if truthy (file_sha256 policy)
      then (case file_sha256 policy of V_Str s \<Rightarrow> ret s | _ \<Rightarrow> throw (X_Other ''TypeError''))
      else ret (url_based_hash e raw_url))"

text \<open>A \<^verbatim>\<open>str\<close> field of \<^verbatim>\<open>CacheMeta\<close>.\<close>

definition str_field :: "request_env \<Rightarrow> dir_val \<Rightarrow> string handler" where
  "str_field e v = (case v of V_Str s \<Rightarrow> ret s
     | _ \<Rightarrow> (case en_str_of_True e of Some s \<Rightarrow> ret s | None \<Rightarrow> throw (X_Other ''ValidationError'')))"

definition opt_str_field :: "request_env \<Rightarrow> dir_val \<Rightarrow> string option handler" where
  "opt_str_field e v = (if truthy v then bind_io (str_field e v) (\<lambda>s. ret (Some s)) else ret None)"

definition create_cachemeta_for_request :: "request_env \<Rightarrow> string \<Rightarrow> dir_val \<Rightarrow> headers \<Rightarrow> cache_meta handler" where
  "create_cachemeta_for_request e cache_identifier compression_alg resp_headers =
     (let upper = parse_header (case map_of resp_headers HEADER_OTA_FILE_CACHE_CONTROL of Some h \<Rightarrow> h | None \<Rightarrow> '''');
          (sha, alg) = (if truthy (file_sha256 upper) then (file_sha256 upper, file_compression_alg upper)
                        else (V_Str cache_identifier, compression_alg))
      in bind_io (str_field e sha) (\<lambda>sha. bind_io (opt_str_field e alg) (\<lambda>alg.
           ret \<lparr> cm_file_sha256 = sha, cm_url = '''', cm_bucket_idx = 0, cm_last_access = 0, cm_cache_size = 0,
                 cm_file_compression_alg = alg, cm_content_encoding = map_of resp_headers HEADER_CONTENT_ENCODING \<rparr>)))"

text \<open>The regular expression \<^verbatim>\<open>\s*bytes=(\d+)-\s*\<close>, matched in full.\<close>

definition range_start :: "string \<Rightarrow> nat option" where
  "range_start h =
     (let t = strip h; digits = butlast (drop 6 t)
      in if startswith t ''bytes='' \<and> length t \<ge> 8 \<and> last t = CHR ''-'' \<and> list_all is_digit digits
         then Some (nat_of_digits digits) else None)"

definition content_range :: "nat \<Rightarrow> nat \<Rightarrow> string" where
  "content_range start sz = ''bytes '' @ nat_str start @ ''-'' @ nat_str (sz - 1) @ ''/'' @ nat_str sz"

definition oc_get_tracker :: "ota_cache \<Rightarrow> string \<Rightarrow> tracker option" where
  "oc_get_tracker oc cid = (case oc_trackers oc cid of None \<Rightarrow> None | Some t \<Rightarrow> if \<not> tk_failed t then Some t else None)"

definition set_tracker :: "string \<Rightarrow> tracker \<Rightarrow> ota_cache \<Rightarrow> ota_cache" where
  "set_tracker cid t oc = oc\<lparr>oc_trackers := (oc_trackers oc)(cid := Some t)\<rparr>"

definition unlink :: "string \<Rightarrow> ota_cache \<Rightarrow> ota_cache" where
  "unlink p oc = oc\<lparr>oc_fs := (oc_fs oc)(p := None)\<rparr>"

definition drop_index_entry :: "string \<Rightarrow> ota_cache \<Rightarrow> ota_cache" where
  "drop_index_entry cid oc = oc\<lparr>oc_index := remove_entry cid (oc_index oc)\<rparr>"

section \<open>Handlers\<close>

definition retrieve_file_by_downloading :: "request_env \<Rightarrow> string \<Rightarrow> headers \<Rightarrow> (fd \<times> headers) handler" where
  "retrieve_file_by_downloading e raw_url hdrs =
     (case en_remote e raw_url hdrs of
        Inl x \<Rightarrow> throw x
      | Inr resp_headers \<Rightarrow>
          (let x_cache = map lower_char (case map_of resp_headers CDN_HEADER_CACHE_KEY of Some v \<Rightarrow> v | None \<Rightarrow> '''')
           in then_io (if startswith x_cache ''hit'' then modify_io (\<lambda>oc. oc\<lparr>oc_cdn_hits := oc_cdn_hits oc + 1\<rparr>) else ret ())
                (ret (Fd_Remote raw_url hdrs, resp_headers))))"

text \<open>What the \<open>i\<close>-th look at a file of the local cache sees while the lookup waits.\<close>

definition look :: "request_env \<Rightarrow> ota_cache \<Rightarrow> string \<Rightarrow> nat \<Rightarrow> fnode option" where
  "look e oc p i = (case oc_fs oc p of Some f \<Rightarrow> Some f
     | None \<Rightarrow> (case en_late e p of Some (n, f) \<Rightarrow> if n \<le> i then Some f else None | None \<Rightarrow> None))"

text \<open>The loop over \<^verbatim>\<open>range(6)\<close>: the first look that finds a node.\<close>

fun wait_for_file :: "request_env \<Rightarrow> ota_cache \<Rightarrow> string \<Rightarrow> nat \<Rightarrow> nat \<Rightarrow> fnode option" where
  "wait_for_file e oc p i 0 = None"
| "wait_for_file e oc p i (Suc k) = (case look e oc p i of Some f \<Rightarrow> Some f | None \<Rightarrow> wait_for_file e oc p (i + 1) k)"

text \<open>\<^verbatim>\<open>read_file_once\<close> and \<^verbatim>\<open>stream_read_file\<close>: the pool may be busy.\<close>

definition read_dispatcher :: "request_env \<Rightarrow> 'a \<Rightarrow> 'a handler" where
  "read_dispatcher e a = (if en_read_busy e then throw X_ReaderPoolBusy else ret a)"

definition retrieve_file_by_cache_lookup :: "request_env \<Rightarrow> string \<Rightarrow> cache_control \<Rightarrow> answer handler" where
  "retrieve_file_by_cache_lookup e raw_url policy = (\<lambda>oc.
     if \<not> oc_cache_enabled oc \<or> truthy (no_cache policy) \<or> truthy (retry_caching policy) then ret None oc
     else bind_io (cache_identifier_of e raw_url policy) (\<lambda>cid oc.
       (case lookup_entry (oc_index oc) cid of
          None \<Rightarrow> ret None oc
        | Some entry \<Rightarrow>
            if ie_cache_size entry = 0 then ret (Some (Fd_Bytes [], ie_headers entry)) oc
            else let p = os_path_join (oc_base_dir oc) cid in
              (case wait_for_file e oc p 0 6 of
                 None \<Rightarrow> ret None oc
               | Some F_Other \<Rightarrow> (Inr None, drop_index_entry cid (unlink p oc))
               | Some (F_Reg content) \<Rightarrow>
                   if ie_cache_size entry \<le> REMOTE_READ_CHUNK_SIZE
                   then read_dispatcher e (Some (Fd_Bytes content, ie_headers entry)) oc
                   else read_dispatcher e (Some (Fd_File p 0, ie_headers entry)) oc))) oc)"

definition retrieve_file_by_external_cache :: "cache_control \<Rightarrow> string option \<Rightarrow> answer handler" where
  "retrieve_file_by_external_cache policy dir = (\<lambda>oc.
     (case dir of
        None \<Rightarrow> ret None oc
      | Some d \<Rightarrow>
          if truthy (no_cache policy) \<or> truthy (retry_caching policy) \<or> \<not> truthy (file_sha256 policy) then ret None oc
          else (case file_sha256 policy of
            V_Str cid \<Rightarrow>
              (let cache_file = os_path_join d cid; cache_file_zst = with_suffix cache_file ''.zst''
               in if is_file oc cache_file_zst
                  then ret (Some (Fd_File cache_file_zst 0, [(HEADER_OTA_FILE_CACHE_CONTROL,
                         export_kwargs_as_header_string [(''file_sha256'', V_Str cid),
                           (''file_compression_alg'', V_Str EXTERNAL_CACHE_STORAGE_COMPRESS_ALG)])])) oc
                  else if is_file oc cache_file
                  then ret (Some (Fd_File cache_file 0, [(HEADER_OTA_FILE_CACHE_CONTROL,
                         export_kwargs_as_header_string [(''file_sha256'', V_Str cid)])])) oc
                  else ret None oc)
          | _ \<Rightarrow> throw (X_Other ''TypeError'') oc)))"

definition retrieve_range_by_cache_lookup :: "request_env \<Rightarrow> string \<Rightarrow> cache_control \<Rightarrow> nat \<Rightarrow> answer handler" where
  "retrieve_range_by_cache_lookup e raw_url policy start = (\<lambda>oc.
     if \<not> oc_cache_enabled oc \<or> truthy (no_cache policy) then ret None oc
     else bind_io (cache_identifier_of e raw_url policy) (\<lambda>cid oc.
       (case lookup_entry (oc_index oc) cid of
          None \<Rightarrow> ret None oc
        | Some entry \<Rightarrow>
            if ie_cache_size entry = 0 then ret None oc
            else let p = os_path_join (oc_base_dir oc) cid in
              (case oc_fs oc p of
                 None \<Rightarrow> ret None oc
               | Some F_Other \<Rightarrow> ret None oc
               | Some (F_Reg content) \<Rightarrow>
                   (let sz = length content in
                    if sz \<noteq> ie_cache_size entry \<or> \<not> start < sz then ret None oc
                    else let hs = AList.update HEADER_CONTENT_RANGE (content_range start sz) (ie_headers entry) in
                      if sz \<le> REMOTE_READ_CHUNK_SIZE
                      then read_dispatcher e (Some (Fd_Bytes (drop start content), hs)) oc
                      else read_dispatcher e (Some (Fd_File p start, hs)) oc)))) oc)"

definition retrieve_range_by_external_cache :: "cache_control \<Rightarrow> string \<Rightarrow> nat \<Rightarrow> answer handler" where
  "retrieve_range_by_external_cache policy d start = (\<lambda>oc.
     if truthy (no_cache policy) \<or> truthy (retry_caching policy) \<or> \<not> truthy (file_sha256 policy) then ret None oc
     else (case file_sha256 policy of
       V_Str cid \<Rightarrow>
         (let cache_file = os_path_join d cid; cache_file_zst = with_suffix cache_file ''.zst''
          in if is_file oc cache_file_zst then retrieve_file_by_external_cache policy (Some d) oc
             else (case oc_fs oc cache_file of
               None \<Rightarrow> ret None oc
             | Some F_Other \<Rightarrow> ret None oc
             | Some (F_Reg content) \<Rightarrow>
                 if \<not> start < length content then ret None oc
                 else ret (Some (Fd_File cache_file start,
                   [(HEADER_OTA_FILE_CACHE_CONTROL, export_kwargs_as_header_string [(''file_sha256'', V_Str cid)]),
                    (HEADER_CONTENT_RANGE, content_range start (length content))])) oc))
     | _ \<Rightarrow> throw (X_Other ''TypeError'') oc))"

definition hit :: "(ota_cache \<Rightarrow> ota_cache) \<Rightarrow> (fd \<times> headers) \<Rightarrow> answer handler" where
  "hit count a = then_io (modify_io count) (ret (Some a))"

text \<open>\<open>or_else m n\<close>: \<^verbatim>\<open>if _res := m: return _res\<close>, then the rest.\<close>

definition or_else :: "answer handler \<Rightarrow> (ota_cache \<Rightarrow> ota_cache) \<Rightarrow> answer handler \<Rightarrow> answer handler" where
  "or_else m count n = bind_io m (\<lambda>r. case r of Some a \<Rightarrow> hit count a | None \<Rightarrow> n)"

definition count_external :: "ota_cache \<Rightarrow> ota_cache" where
  "count_external oc = oc\<lparr>oc_external_hits := oc_external_hits oc + 1\<rparr>"

definition count_local :: "ota_cache \<Rightarrow> ota_cache" where
  "count_local oc = oc\<lparr>oc_local_hits := oc_local_hits oc + 1\<rparr>"

definition count_nfs :: "ota_cache \<Rightarrow> ota_cache" where
  "count_nfs oc = oc\<lparr>oc_nfs_hits := oc_nfs_hits oc + 1\<rparr>"

definition retrieve_range_by_cache :: "request_env \<Rightarrow> string \<Rightarrow> cache_control \<Rightarrow> string \<Rightarrow> answer handler" where
  "retrieve_range_by_cache e raw_url policy range_header = (\<lambda>oc.
     (case range_start range_header of
        None \<Rightarrow> ret None oc
      | Some start \<Rightarrow>
          or_else (case oc_external_dir oc of Some d \<Rightarrow> retrieve_range_by_external_cache policy d start | None \<Rightarrow> ret None)
            count_external
            (or_else (retrieve_range_by_cache_lookup e raw_url policy start) count_local
              (or_else (case oc_nfs_dir oc of Some d \<Rightarrow> retrieve_range_by_external_cache policy d start | None \<Rightarrow> ret None)
                count_nfs (ret None))) oc))"

text \<open>
  The identifier is not interned here: with a valueless \<^verbatim>\<open>file_sha256\<close> the key is \<^verbatim>\<open>True\<close>, which is no key of the index
  and whose \<^verbatim>\<open>os.path.join\<close> raises inside the \<^verbatim>\<open>try\<close>.
\<close>

definition drop_cache_entry_reported_corrupted :: "request_env \<Rightarrow> string \<Rightarrow> cache_control \<Rightarrow> ota_cache \<Rightarrow> ota_cache" where
  "drop_cache_entry_reported_corrupted e raw_url policy oc =
     (let key = (if truthy (file_sha256 policy) then file_sha256 policy else V_Str (url_based_hash e raw_url))
      in case key of
           V_Str cid \<Rightarrow>
             (if \<not> oc_cache_enabled oc \<or> oc_get_tracker oc cid \<noteq> None then oc
              else unlink (os_path_join (oc_base_dir oc) cid) (drop_index_entry cid oc))
         | _ \<Rightarrow> oc)"

text \<open>The part of \<^verbatim>\<open>_retrieve_file_by_new_caching\<close> from the registration of the tracker on.\<close>

definition open_as_provider :: "request_env \<Rightarrow> string \<Rightarrow> cache_control \<Rightarrow> headers \<Rightarrow> dir_val \<Rightarrow> string \<Rightarrow> answer handler" where
  "open_as_provider e raw_url policy hdrs alg cid =
     then_io (modify_io (set_tracker cid \<lparr> tk_failed = False, tk_meta = None \<rparr>))
    (then_io (if truthy (retry_caching policy)
              then modify_io (\<lambda>oc. unlink (os_path_join (oc_base_dir oc) cid) (drop_index_entry cid oc)) else ret ())
    (bind_io (retrieve_file_by_downloading e raw_url hdrs) (\<lambda>(remote, resp_headers).
     bind_io (create_cachemeta_for_request e cid alg resp_headers) (\<lambda>m.
     then_io (modify_io (set_tracker cid \<lparr> tk_failed = False, tk_meta = Some m \<rparr>))
       (ret (Some (Fd_Caching cid, resp_headers)))))))"

definition fail_tracker :: "string \<Rightarrow> proxy_exc \<Rightarrow> answer handler" where
  "fail_tracker cid x = then_io (modify_io (\<lambda>oc. case oc_trackers oc cid of
     Some t \<Rightarrow> set_tracker cid (t\<lparr>tk_failed := True\<rparr>) oc | None \<Rightarrow> oc)) (throw x)"

definition retrieve_file_by_new_caching :: "request_env \<Rightarrow> string \<Rightarrow> cache_control \<Rightarrow> headers \<Rightarrow> answer handler" where
  "retrieve_file_by_new_caching e raw_url policy hdrs = (\<lambda>oc.
     if \<not> oc_cache_enabled oc \<or> truthy (no_cache policy) \<or> \<not> oc_below_hard oc then ret None oc
     else let alg = (if truthy (file_sha256 policy) then file_compression_alg policy else V_None) in
       bind_io (cache_identifier_of e raw_url policy) (\<lambda>cid oc.
       (case oc_get_tracker oc cid of
          Some t \<Rightarrow>
            (case en_subscribe e cid of
               Inl x \<Rightarrow> throw x oc
             | Inr _ \<Rightarrow> (case tk_meta t of
                   None \<Rightarrow> throw (X_Other ''AssertionError'') oc
                 | Some m \<Rightarrow> ret (Some (Fd_Subscribed cid, export_headers_to_client m)) oc))
        | None \<Rightarrow> catch_io (open_as_provider e raw_url policy hdrs alg cid) (fail_tracker cid) oc)) oc)"

definition download_answer :: "request_env \<Rightarrow> string \<Rightarrow> headers \<Rightarrow> answer handler" where
  "download_answer e raw_url hdrs = bind_io (retrieve_file_by_downloading e raw_url hdrs) (\<lambda>a. ret (Some a))"

definition retrieve_file :: "request_env \<Rightarrow> string \<Rightarrow> headers \<Rightarrow> answer handler" where
  "retrieve_file e raw_url headers_from_client = (\<lambda>oc.
     if oc_closed oc then throw X_BaseOTACacheError oc
     else let oc = oc\<lparr>oc_total_requests := oc_total_requests oc + 1\<rparr>;
              policy = parse_header (case map_of headers_from_client HEADER_OTA_FILE_CACHE_CONTROL of Some h \<Rightarrow> h | None \<Rightarrow> '''');
              hdrs = (if oc_upper_proxy oc = [] then AList.delete HEADER_OTA_FILE_CACHE_CONTROL headers_from_client
                      else headers_from_client)
       in (case map_of hdrs HEADER_RANGE of
             Some range_header \<Rightarrow>
               if truthy (retry_caching policy)
               then then_io (modify_io (drop_cache_entry_reported_corrupted e raw_url policy)) (download_answer e raw_url hdrs) oc
               else or_else (retrieve_range_by_cache e raw_url policy range_header) id (download_answer e raw_url hdrs) oc
           | None \<Rightarrow>
               if \<not> oc_cache_enabled oc \<or> truthy (no_cache policy) then download_answer e raw_url hdrs oc
               else or_else (retrieve_file_by_external_cache policy (oc_external_dir oc)) count_external
                 (or_else (if \<not> truthy (retry_caching policy) then retrieve_file_by_cache_lookup e raw_url policy else ret None)
                    count_local
                    (or_else (retrieve_file_by_external_cache policy (oc_nfs_dir oc)) count_nfs
                       (or_else (retrieve_file_by_new_caching e raw_url policy hdrs) id
                          (download_answer e raw_url hdrs)))) oc))"

section \<open>Free space\<close>

text \<open>
  One turn of \<^verbatim>\<open>_background_check_free_space\<close>, given the percentage of the disk that is used; \<open>None\<close>: the cache
  folder is gone, which ends the loop.
\<close>

definition check_free_space_round :: "nat option \<Rightarrow> ota_cache \<Rightarrow> bool \<times> ota_cache" where
  "check_free_space_round usage oc =
     (case usage of
        None \<Rightarrow> (False, oc\<lparr>oc_below_soft := False, oc_below_hard := False\<rparr>)
      | Some current_used_p \<Rightarrow> (True,
          if current_used_p \<le> 75 then oc\<lparr>oc_below_soft := True, oc_below_hard := True\<rparr>
          else if current_used_p \<le> 80 then oc\<lparr>oc_below_soft := False, oc_below_hard := True\<rparr>
          else oc\<lparr>oc_below_soft := False, oc_below_hard := False\<rparr>))"

section \<open>Start and close\<close>

text \<open>
  \<^verbatim>\<open>OTACache.start\<close>: a second start is ignored. With caching enabled the cache folder is purged on a forced
  initialization, otherwise what is left of temporary files is removed, and the index is loaded. \<open>files\<close> of
  \<^verbatim>\<open>CacheIndex\<close> is the content of the cache folder by name.
\<close>

definition in_dir :: "string \<Rightarrow> string \<Rightarrow> bool" where
  "in_dir d p = startswith p (d @ ''/'')"

definition cache_files :: "ota_cache \<Rightarrow> string \<Rightarrow> bool" where
  "cache_files oc k = (oc_fs oc (os_path_join (oc_base_dir oc) k) \<noteq> None)"

definition start_cache :: "bool \<Rightarrow> index_start \<Rightarrow> cache_db \<Rightarrow> ota_cache \<Rightarrow> ota_cache" where
  "start_cache init_cache st d oc =
     (if \<not> oc_closed oc then oc
      else let oc = oc\<lparr>oc_closed := False\<rparr> in
        if \<not> oc_cache_enabled oc then oc
        else let oc = (if init_cache then oc\<lparr>oc_fs := (\<lambda>p. if in_dir (oc_base_dir oc) p then None else oc_fs oc p)\<rparr>
                       else oc\<lparr>oc_fs := (\<lambda>p. if startswith p (oc_base_dir oc @ ''/tmp'') then None else oc_fs oc p)\<rparr>);
                 (ci, files') = CacheIndex_init init_cache st d (cache_files oc)
             in oc\<lparr>oc_index := ci, oc_trackers := Map.empty,
                  oc_fs := (\<lambda>p. if (\<exists>k\<in>set (case st_rows st of Some rows \<Rightarrow> map cm_file_sha256 rows | None \<Rightarrow> []).
                      p = os_path_join (oc_base_dir oc) k \<and> \<not> files' k) then None else oc_fs oc p)\<rparr>)"

definition close_cache :: "ota_cache \<Rightarrow> ota_cache" where
  "close_cache oc =
     (if oc_closed oc then oc
      else let oc = oc\<lparr>oc_closed := True\<rparr>
        in if oc_cache_enabled oc then oc\<lparr>oc_index := close_index (oc_index oc)\<rparr> else oc)"

section \<open>Ranges\<close>

lemma range_start_of_offset: "range_start (''bytes='' @ nat_str n @ ''-'') = Some n"
proof -
  have d: "nat_str n \<noteq> []" "list_all is_digit (nat_str n)" using nat_str_digits by auto
  have "stripped (''bytes='' @ nat_str n @ ''-'')" by (simp add: stripped_def py_isspace_def)
  moreover have "length (nat_str n) \<ge> 1" using d(1) by (cases "nat_str n") auto
  ultimately show ?thesis using d
    by (simp add: range_start_def strip_stripped startswith_def butlast_append nat_of_nat_str)
qed

text \<open>The bytes a body delivers.\<close>

definition fd_body :: "ota_cache \<Rightarrow> fd \<Rightarrow> bytes option" where
  "fd_body oc f = (case f of
       Fd_Bytes b \<Rightarrow> Some b
     | Fd_File p off \<Rightarrow> (case oc_fs oc p of Some (F_Reg c) \<Rightarrow> Some (drop off c) | _ \<Rightarrow> None)
     | _ \<Rightarrow> None)"

text \<open>
  What a cache may answer to a request for the file from \<open>start\<close> on: the rest of a whole copy, labelled as such, or a
  compressed copy from its beginning, labelled as compressed and not as a part.
\<close>

definition rest_of :: "ota_cache \<Rightarrow> nat \<Rightarrow> fd \<times> headers \<Rightarrow> bool" where
  "rest_of oc start a \<longleftrightarrow> (\<exists>p content. oc_fs oc p = Some (F_Reg content) \<and>
     (start < length content \<and> fd_body oc (fst a) = Some (drop start content)
        \<and> map_of (snd a) HEADER_CONTENT_RANGE = Some (content_range start (length content))
      \<or> fd_body oc (fst a) = Some content \<and> map_of (snd a) HEADER_CONTENT_RANGE = None
        \<and> (\<exists>h. map_of (snd a) HEADER_OTA_FILE_CACHE_CONTROL = Some h
             \<and> file_compression_alg (parse_header h) = V_Str EXTERNAL_CACHE_STORAGE_COMPRESS_ALG)))"

lemma rest_ofI:
  "oc_fs oc p = Some (F_Reg c) \<Longrightarrow> start < length c \<Longrightarrow> fd_body oc (fst a) = Some (drop start c)
    \<Longrightarrow> map_of (snd a) HEADER_CONTENT_RANGE = Some (content_range start (length c)) \<Longrightarrow> rest_of oc start a"
  "oc_fs oc p = Some (F_Reg c) \<Longrightarrow> fd_body oc (fst a) = Some c \<Longrightarrow> map_of (snd a) HEADER_CONTENT_RANGE = None
    \<Longrightarrow> map_of (snd a) HEADER_OTA_FILE_CACHE_CONTROL = Some h
    \<Longrightarrow> file_compression_alg (parse_header h) = V_Str EXTERNAL_CACHE_STORAGE_COMPRESS_ALG \<Longrightarrow> rest_of oc start a"
  unfolding rest_of_def by blast+

lemma header_names [simp]:
  "HEADER_CONTENT_RANGE \<noteq> HEADER_OTA_FILE_CACHE_CONTROL" "HEADER_OTA_FILE_CACHE_CONTROL \<noteq> HEADER_CONTENT_RANGE"
  by (simp_all add: HEADER_CONTENT_RANGE_def HEADER_OTA_FILE_CACHE_CONTROL_def)

lemma is_file_content: "is_file oc p \<longleftrightarrow> (\<exists>c. oc_fs oc p = Some (F_Reg c))"
  by (auto simp: is_file_def split: option.splits fnode.splits)

lemma zst_header:
  assumes "exportable (V_Str cid)" "cid \<noteq> []"
  shows "file_compression_alg (parse_header (export_kwargs_as_header_string [(''file_sha256'', V_Str cid),
     (''file_compression_alg'', V_Str EXTERNAL_CACHE_STORAGE_COMPRESS_ALG)])) = V_Str EXTERNAL_CACHE_STORAGE_COMPRESS_ALG"
proof -
  have "exportable (V_Str EXTERNAL_CACHE_STORAGE_COMPRESS_ALG)"
    by (simp add: EXTERNAL_CACHE_STORAGE_COMPRESS_ALG_def HEADER_DIR_SEPARATOR_def py_isspace_def)
  then show ?thesis using assms
    by (subst parse_header_export)
      (auto simp: VALID_DIRECTORIES_def EXTERNAL_CACHE_STORAGE_COMPRESS_ALG_def control_of_def get_or_def)
qed

lemma range_external_pure: "snd (retrieve_range_by_external_cache policy d start oc) = oc"
  by (auto simp: retrieve_range_by_external_cache_def retrieve_file_by_external_cache_def Let_def
      split: dir_val.splits option.splits fnode.splits)

lemma range_external_answer:
  assumes "retrieve_range_by_external_cache policy d start oc = (Inr (Some a), oc')" "exportable (file_sha256 policy)"
  shows "rest_of oc start a"
proof -
  obtain cid where cid: "file_sha256 policy = V_Str cid" "cid \<noteq> []"
    using assms(1) by (cases "file_sha256 policy") (auto simp: retrieve_range_by_external_cache_def split: if_splits)
  let ?f = "os_path_join d cid"
  have pol: "\<not> truthy (no_cache policy)" "\<not> truthy (retry_caching policy)"
    using assms(1) by (auto simp: retrieve_range_by_external_cache_def split: if_splits)
  show ?thesis
  proof (cases "is_file oc (with_suffix ?f ''.zst'')")
    case True
    then obtain c where c: "oc_fs oc (with_suffix ?f ''.zst'') = Some (F_Reg c)" by (auto simp: is_file_content)
    have "a = (Fd_File (with_suffix ?f ''.zst'') 0, [(HEADER_OTA_FILE_CACHE_CONTROL,
        export_kwargs_as_header_string [(''file_sha256'', V_Str cid),
          (''file_compression_alg'', V_Str EXTERNAL_CACHE_STORAGE_COMPRESS_ALG)])])"
      using assms(1) cid pol True
      by (simp add: retrieve_range_by_external_cache_def retrieve_file_by_external_cache_def Let_def)
    then show ?thesis using c zst_header [of cid] assms(2) cid
      by (intro rest_ofI(2) [of oc "with_suffix ?f ''.zst''" c]) (simp_all add: fd_body_def)
  next
    case False
    then obtain c where "oc_fs oc ?f = Some (F_Reg c)" "start < length c" "fst a = Fd_File ?f start"
        "map_of (snd a) HEADER_CONTENT_RANGE = Some (content_range start (length c))"
      using assms(1) cid pol
      by (auto simp: retrieve_range_by_external_cache_def Let_def split: option.splits fnode.splits if_splits)
    then show ?thesis by (intro rest_ofI(1) [of oc ?f c]) (simp_all add: fd_body_def)
  qed
qed

lemma cache_identifier_pure: "cache_identifier_of e u policy oc = (r, oc') \<Longrightarrow> oc' = oc"
  by (auto simp: cache_identifier_of_def split: if_splits dir_val.splits)

lemma read_dispatcher_Inr: "read_dispatcher e a oc = (Inr b, oc') \<Longrightarrow> b = a \<and> oc' = oc"
  by (auto simp: read_dispatcher_def split: if_splits)

lemma range_lookup_pure: "snd (retrieve_range_by_cache_lookup e u policy start oc) = oc"
proof (cases "cache_identifier_of e u policy oc")
  case (Pair r oc1)
  then have "oc1 = oc" by (rule cache_identifier_pure)
  then show ?thesis using Pair
    by (cases r) (auto simp: retrieve_range_by_cache_lookup_def bind_io_def read_dispatcher_def Let_def
        split: option.splits fnode.splits)
qed

lemma range_lookup_answer:
  assumes "retrieve_range_by_cache_lookup e u policy start oc = (Inr (Some a), oc')"
  shows "rest_of oc start a"
proof -
  obtain cid where cid: "cache_identifier_of e u policy oc = (Inr cid, oc)"
    using assms cache_identifier_pure [of e u policy oc]
    by (auto simp: retrieve_range_by_cache_lookup_def bind_io_def split: if_splits prod.splits sum.splits)
  let ?p = "os_path_join (oc_base_dir oc) cid"
  obtain entry where entry: "lookup_entry (oc_index oc) cid = Some entry"
    using assms cid by (auto simp: retrieve_range_by_cache_lookup_def split: if_splits option.splits)
  obtain c where c: "oc_fs oc ?p = Some (F_Reg c)"
    using assms cid entry
    by (auto simp: retrieve_range_by_cache_lookup_def Let_def split: if_splits option.splits fnode.splits)
  let ?hs = "AList.update HEADER_CONTENT_RANGE (content_range start (length c)) (ie_headers entry)"
  have "start < length c \<and> (a = (Fd_Bytes (drop start c), ?hs) \<or> a = (Fd_File ?p start, ?hs))"
    using assms cid entry c
    by (auto simp: retrieve_range_by_cache_lookup_def Let_def dest!: read_dispatcher_Inr split: if_splits)
  then show ?thesis using c by (intro rest_ofI(1) [of oc ?p c]) (auto simp: fd_body_def)
qed

section \<open>How requests are answered\<close>

lemma or_else_Some:
  assumes "or_else m count n oc = (Inr (Some a), oc')"
  obtains oc1 where "m oc = (Inr (Some a), oc1)" "oc' = count oc1"
    | oc1 where "m oc = (Inr None, oc1)" "n oc1 = (Inr (Some a), oc')"
  using assms by (cases "m oc") (auto simp: or_else_def hit_def bind_io_def then_io_def split: sum.splits option.splits)

lemma download_answer_remote:
  "download_answer e u hs oc = (Inr (Some (f, h)), oc') \<Longrightarrow> f = Fd_Remote u hs \<and> oc_index oc' = oc_index oc \<and> oc_fs oc' = oc_fs oc"
  by (auto simp: download_answer_def retrieve_file_by_downloading_def bind_io_def then_io_def Let_def
      split: sum.splits if_splits)

lemma range_by_cache_answer:
  assumes "retrieve_range_by_cache e u policy r oc = (Inr (Some a), oc')" "exportable (file_sha256 policy)"
  shows "\<exists>start. range_start r = Some start \<and> rest_of oc start a"
proof -
  obtain start where start: "range_start r = Some start"
    using assms(1) by (auto simp: retrieve_range_by_cache_def split: option.splits)
  define ext where "ext d = (case d of Some d \<Rightarrow> retrieve_range_by_external_cache policy d start | None \<Rightarrow> ret None)" for d
  have ext_pure: "ext d oc = (x, oc1) \<Longrightarrow> oc1 = oc" for d x oc1
    using range_external_pure [of policy _ start oc] by (auto simp: ext_def split: option.splits) (metis snd_conv)
  have ext_ok: "ext d oc = (Inr (Some a), oc1) \<Longrightarrow> rest_of oc start a" for d oc1
    using range_external_answer [OF _ assms(2)] by (auto simp: ext_def split: option.splits)
  have loc_pure: "retrieve_range_by_cache_lookup e u policy start oc = (x, oc1) \<Longrightarrow> oc1 = oc" for x oc1
    using range_lookup_pure by (metis snd_conv)
  have run: "or_else (ext (oc_external_dir oc)) count_external
      (or_else (retrieve_range_by_cache_lookup e u policy start) count_local
        (or_else (ext (oc_nfs_dir oc)) count_nfs (ret None))) oc = (Inr (Some a), oc')"
    using assms(1) start by (simp add: retrieve_range_by_cache_def ext_def)
  then have "rest_of oc start a"
  proof (cases rule: or_else_Some)
    case (2 oc1)
    then have oc1: "oc1 = oc" using ext_pure by blast
    from 2(2) show ?thesis unfolding oc1
    proof (cases rule: or_else_Some)
      case (2 oc2)
      then have oc2: "oc2 = oc" using loc_pure by blast
      from 2(2) show ?thesis unfolding oc2 by (cases rule: or_else_Some) (auto intro: ext_ok)
    qed (rule range_lookup_answer)
  qed (rule ext_ok)
  then show ?thesis using start by blast
qed

text \<open>
  A ranged request is answered correctly. Whenever a request with a \<^verbatim>\<open>Range\<close> header is not passed to the remote,
  the range is an offset \<open>bytes=start-\<close> and one of the caches holds a regular file such that the body is exactly the
  file from \<open>start\<close> on, with a \<^verbatim>\<open>content-range\<close> that states the offset and the size of that file; or the body is a
  whole compressed copy, with no \<^verbatim>\<open>content-range\<close> and labelled as compressed in the header the client parses.
\<close>

lemma ranged_answer:
  assumes "retrieve_file e raw_url hdrs oc = (Inr (Some (f, hs)), oc')" and "map_of hdrs HEADER_RANGE = Some r"
    and "\<nexists>u h. f = Fd_Remote u h"
  shows "\<exists>start. range_start r = Some start \<and> rest_of oc start (f, hs)"
proof -
  let ?oc = "oc\<lparr>oc_total_requests := oc_total_requests oc + 1\<rparr>"
  let ?policy = "parse_header (case map_of hdrs HEADER_OTA_FILE_CACHE_CONTROL of Some h \<Rightarrow> h | None \<Rightarrow> '''')"
  let ?hdrs = "if oc_upper_proxy oc = [] then AList.delete HEADER_OTA_FILE_CACHE_CONTROL hdrs else hdrs"
  have r: "map_of ?hdrs HEADER_RANGE = Some r"
    using assms(2) by (simp add: delete_conv HEADER_RANGE_def HEADER_OTA_FILE_CACHE_CONTROL_def)
  have no_dl: "download_answer e raw_url hs' oc1 \<noteq> (Inr (Some (f, hs)), oc2)" for hs' oc1 oc2
    using download_answer_remote assms(3) by blast
  have "\<not> truthy (retry_caching ?policy)"
    using assms(1) r no_dl by (auto simp: retrieve_file_def Let_def then_io_def split: if_splits)
  then have "or_else (retrieve_range_by_cache e raw_url ?policy r) id (download_answer e raw_url ?hdrs) ?oc = (Inr (Some (f, hs)), oc')"
    using assms(1) r by (simp add: retrieve_file_def Let_def split: if_splits)
  then obtain oc1 where "retrieve_range_by_cache e raw_url ?policy r ?oc = (Inr (Some (f, hs)), oc1)"
    using no_dl by (elim or_else_Some) auto
  then obtain start where "range_start r = Some start" "rest_of ?oc start (f, hs)"
    using range_by_cache_answer parsed_sha256_exportable by blast
  then show ?thesis by (auto simp: rest_of_def fd_body_def split: fd.splits)
qed

definition sample_oc :: ota_cache where
  "sample_oc = \<lparr> oc_closed = False, oc_cache_enabled = True, oc_upper_proxy = '''', oc_base_dir = ''/ota-cache'',
     oc_external_dir = None, oc_nfs_dir = None, oc_below_soft = True, oc_below_hard = True,
     oc_fs = [''/ota-cache/aa'' \<mapsto> F_Reg ''abcde''],
     oc_index = \<lparr> ci_index = [(''aa'', \<lparr> ie_cache_size = 5, ie_headers = [] \<rparr>)], ci_entries_exceeded_warned = False,
       ci_db_writer = None \<rparr>,
     oc_trackers = Map.empty, oc_total_requests = 0, oc_external_hits = 0, oc_local_hits = 0, oc_nfs_hits = 0, oc_cdn_hits = 0 \<rparr>"

definition sample_env :: request_env where
  "sample_env = \<lparr> en_remote = (\<lambda>u h. Inr []), en_read_busy = False, en_subscribe = (\<lambda>_. Inr ()), en_late = Map.empty,
     en_sha256 = (\<lambda>u. ''00''), en_str_of_True = None \<rparr>"

lemma parse_sha_aa: "parse_header ''file_sha256=aa'' = OTAFileCacheControl_default\<lparr>file_sha256 := V_Str ''aa''\<rparr>"
  by (simp add: parse_header_def HEADER_DIR_SEPARATOR_def strip_def py_isspace_def parse_directive_def split_once_def
      VALID_DIRECTORIES_def setattr_def OTAFileCacheControl_default_def)

lemma range_bytes_2: "range_start ''bytes=2-'' = Some 2"
  by (simp add: range_start_def strip_def py_isspace_def startswith_def is_digit_def nat_of_digits_def digit_val_def)

lemma external_retry: "truthy (retry_caching policy) \<Longrightarrow> retrieve_file_by_external_cache policy d oc = (Inr None, oc)"
  by (cases d) (auto simp: retrieve_file_by_external_cache_def)

definition entry_gone :: "ota_cache \<Rightarrow> string \<Rightarrow> bool" where
  "entry_gone oc cid \<longleftrightarrow> lookup_entry (oc_index oc) cid = None \<and> oc_fs oc (os_path_join (oc_base_dir oc) cid) = None"

lemma dropped_gone [simp]: "entry_gone (unlink (os_path_join (oc_base_dir oc) cid) (drop_index_entry cid oc)) cid"
  by (simp add: entry_gone_def unlink_def drop_index_entry_def stores.a.lookup_remove)

lemma catch_rethrow:
  assumes "catch_io m h s = (Inr r, s')" "\<And>x t. \<exists>y t'. h x t = (Inl y, t')"
  shows "m s = (Inr r, s')"
proof (cases "m s")
  case (Pair q t)
  show ?thesis
  proof (cases q)
    case (Inl x)
    then show ?thesis using assms Pair by (metis catch_io_Inl Inl_Inr_False prod.inject)
  qed (use assms(1) Pair in simp)
qed

text \<open>The parts of the state that opening the remote and describing its answer leave alone.\<close>

abbreviation same_cache :: "ota_cache \<Rightarrow> ota_cache \<Rightarrow> bool" where
  "same_cache oc oc' \<equiv> oc_index oc' = oc_index oc \<and> oc_fs oc' = oc_fs oc \<and> oc_base_dir oc' = oc_base_dir oc"

lemma downloading_same: "retrieve_file_by_downloading e u hs oc = (r, oc') \<Longrightarrow> same_cache oc oc'"
  by (auto simp: retrieve_file_by_downloading_def then_io_def bind_io_def Let_def split: sum.splits if_splits)

lemma str_field_pure: "str_field e v oc = (r, oc') \<Longrightarrow> oc' = oc"
  by (auto simp: str_field_def split: dir_val.splits option.splits)

lemma create_cachemeta_pure: "create_cachemeta_for_request e cid alg hs oc = (r, oc') \<Longrightarrow> oc' = oc"
  by (auto simp: create_cachemeta_for_request_def opt_str_field_def bind_io_def Let_def
      split: prod.splits sum.splits if_splits dest!: str_field_pure)

lemma provider_answer:
  assumes "open_as_provider e u policy hs alg cid oc = (Inr (Some (f, h)), oc')"
  shows "f = Fd_Caching cid \<and> (truthy (retry_caching policy) \<longrightarrow> entry_gone oc' cid)"
proof -
  let ?retry = "truthy (retry_caching policy)" and ?t = "\<lambda>m. \<lparr> tk_failed = False, tk_meta = Some m \<rparr>"
  define oc0 where "oc0 = set_tracker cid \<lparr> tk_failed = False, tk_meta = None \<rparr> oc"
  define oc1 where "oc1 = (if ?retry then unlink (os_path_join (oc_base_dir oc0) cid) (drop_index_entry cid oc0) else oc0)"
  obtain rem resp oc2 where dl: "retrieve_file_by_downloading e u hs oc1 = (Inr (rem, resp), oc2)"
    and rest: "bind_io (create_cachemeta_for_request e cid alg resp)
        (\<lambda>m. then_io (modify_io (set_tracker cid (?t m))) (ret (Some (Fd_Caching cid, resp)))) oc2 = (Inr (Some (f, h)), oc')"
    using assms by (auto simp: open_as_provider_def then_io_def bind_io_def oc0_def oc1_def split: prod.splits sum.splits if_splits)
  obtain m where m: "create_cachemeta_for_request e cid alg resp oc2 = (Inr m, oc2)"
    using rest create_cachemeta_pure [of e cid alg resp oc2] by (auto simp: bind_io_def split: prod.splits sum.splits)
  have "f = Fd_Caching cid" "oc' = set_tracker cid (?t m) oc2" using rest m by (auto simp: then_io_def bind_io_def)
  moreover have "?retry \<Longrightarrow> entry_gone oc1 cid" by (simp add: oc1_def)
  moreover have "same_cache oc1 oc2" using downloading_same [OF dl] .
  ultimately show ?thesis by (auto simp: entry_gone_def set_tracker_def)
qed

lemma new_caching_answer:
  assumes "retrieve_file_by_new_caching e u policy hs oc = (Inr (Some (f, h)), oc')"
  shows "(\<exists>cid. f = Fd_Subscribed cid) \<or> (\<exists>cid. f = Fd_Caching cid \<and> (truthy (retry_caching policy) \<longrightarrow> entry_gone oc' cid))"
proof -
  obtain cid where cid: "cache_identifier_of e u policy oc = (Inr cid, oc)"
    using assms cache_identifier_pure [of e u policy oc]
    by (auto simp: retrieve_file_by_new_caching_def bind_io_def Let_def split: if_splits prod.splits sum.splits)
  have en: "\<not> (\<not> oc_cache_enabled oc \<or> truthy (no_cache policy) \<or> \<not> oc_below_hard oc)"
    using assms by (auto simp: retrieve_file_by_new_caching_def split: if_splits)
  show ?thesis
  proof (cases "oc_get_tracker oc cid")
    case (Some t)
    then show ?thesis using assms cid en
      by (auto simp: retrieve_file_by_new_caching_def Let_def split: sum.splits option.splits)
  next
    case None
    let ?alg = "if truthy (file_sha256 policy) then file_compression_alg policy else V_None"
    have "catch_io (open_as_provider e u policy hs ?alg cid) (fail_tracker cid) oc = (Inr (Some (f, h)), oc')"
      using assms cid en None by (simp add: retrieve_file_by_new_caching_def Let_def)
    then have "open_as_provider e u policy hs ?alg cid oc = (Inr (Some (f, h)), oc')"
      by (rule catch_rethrow) (simp add: fail_tracker_def then_io_def bind_io_def)
    then show ?thesis using provider_answer by blast
  qed
qed


lemma parse_retry_aa: "parse_header ''retry_caching,file_sha256=aa''
    = OTAFileCacheControl_default\<lparr>retry_caching := V_True, file_sha256 := V_Str ''aa''\<rparr>"
  by (simp add: parse_header_def HEADER_DIR_SEPARATOR_def strip_def py_isspace_def parse_directive_def split_once_def
      VALID_DIRECTORIES_def setattr_def OTAFileCacheControl_default_def)

lemmas serve_simps = retrieve_file_def Let_def or_else_def hit_def bind_io_def then_io_def catch_io_def sample_oc_def sample_env_def
  OTAFileCacheControl_default_def cache_identifier_of_def external_retry download_answer_def retrieve_file_by_downloading_def


text \<open>
  The identifier a client sends is used as a path without any check: a ranged request with \<^verbatim>\<open>retry_caching\<close> whose
  \<^verbatim>\<open>file_sha256\<close> is an absolute path removes the file at that path, wherever the cache folder is.
\<close>

lemma reported_identifier_unlinks_any_path:
  assumes "\<not> oc_closed oc" and "oc_cache_enabled oc" and "map_of hdrs HEADER_RANGE = Some r"
    and "map_of hdrs HEADER_OTA_FILE_CACHE_CONTROL = Some h" and "truthy (retry_caching (parse_header h))"
    and "file_sha256 (parse_header h) = V_Str p" and "startswith p ''/''" and "oc_get_tracker oc p = None"
  shows "oc_fs (snd (retrieve_file e raw_url hdrs oc)) p = None"
proof -
  let ?oc = "oc\<lparr>oc_total_requests := oc_total_requests oc + 1\<rparr>" and ?policy = "parse_header h"
  let ?hdrs = "if oc_upper_proxy oc = [] then AList.delete HEADER_OTA_FILE_CACHE_CONTROL hdrs else hdrs"
  let ?oc1 = "drop_cache_entry_reported_corrupted e raw_url ?policy ?oc"
  have r: "map_of ?hdrs HEADER_RANGE = Some r"
    using assms(3) by (simp add: delete_conv HEADER_RANGE_def HEADER_OTA_FILE_CACHE_CONTROL_def)
  have "retrieve_file e raw_url hdrs oc = download_answer e raw_url ?hdrs ?oc1"
    using assms r by (simp add: retrieve_file_def Let_def then_io_def bind_io_def)
  moreover have "oc_fs (snd (download_answer e raw_url ?hdrs ?oc1)) = oc_fs ?oc1"
    by (auto simp: download_answer_def retrieve_file_by_downloading_def bind_io_def then_io_def Let_def split: sum.splits)
  moreover have "p \<noteq> []" using assms(7) by (auto simp: startswith_def)
  then have "oc_fs ?oc1 p = None"
    using assms(2,6-8) by (simp add: drop_cache_entry_reported_corrupted_def Let_def oc_get_tracker_def os_path_join_def unlink_def)
  ultimately show ?thesis by simp
qed

lemma parse_retry_path: "parse_header ''retry_caching,file_sha256=/etc/f''
    = OTAFileCacheControl_default\<lparr>retry_caching := V_True, file_sha256 := V_Str ''/etc/f''\<rparr>"
  by (simp add: parse_header_def HEADER_DIR_SEPARATOR_def strip_def py_isspace_def parse_directive_def split_once_def
      VALID_DIRECTORIES_def setattr_def OTAFileCacheControl_default_def)

text \<open>
  With caching disabled a whole file is always fetched from the remote, even when an external cache is mounted and
  holds it: the comment in \<^verbatim>\<open>retrieve_file\<close> that says the external cache is still tried is contradicted by the fast path
  above it. (A ranged request does try it.)
\<close>

lemma external_cache_unused_when_disabled:
  assumes "\<not> oc_closed oc" and "\<not> oc_cache_enabled oc" and "map_of hdrs HEADER_RANGE = None"
    and "retrieve_file e raw_url hdrs oc = (Inr (Some (f, hs)), oc')"
  shows "\<exists>h. f = Fd_Remote raw_url h"
proof -
  let ?hdrs = "if oc_upper_proxy oc = [] then AList.delete HEADER_OTA_FILE_CACHE_CONTROL hdrs else hdrs"
  have "map_of ?hdrs HEADER_RANGE = None"
    using assms(3) by (simp add: delete_conv HEADER_RANGE_def HEADER_OTA_FILE_CACHE_CONTROL_def)
  then have "download_answer e raw_url ?hdrs (oc\<lparr>oc_total_requests := oc_total_requests oc + 1\<rparr>) = (Inr (Some (f, hs)), oc')"
    using assms by (simp add: retrieve_file_def Let_def)
  then show ?thesis using download_answer_remote by blast
qed

end
