(* ===== verification/Server_App.thy ===== *)
theory Server_App
  imports OTA_Cache
begin

text \<open>
  The ASGI application of the OTA proxy (\<^verbatim>\<open>ota_proxy/server_app.py\<close>): the headers it takes from a request and gives to
  a response, the mapping of exceptions to HTTP statuses, the relay of a body and the checks before it. The messages
  given to \<^verbatim>\<open>send\<close> are a list. What the body of an answer yields, its chunks and possibly an exception after
  them, is a parameter (\<open>pull\<close>). Text and its UTF-8 bytes are not told apart; \<^verbatim>\<open>surrogateescape\<close> makes the two
  correspond one to one.
\<close>

section \<open>Headers\<close>

type_synonym raw_headers = "(bytes \<times> bytes) list"

definition HEADER_AUTHORIZATION :: string where "HEADER_AUTHORIZATION = ''authorization''"
definition HEADER_COOKIE :: string where "HEADER_COOKIE = ''cookie''"
definition HEADER_CONTENT_TYPE :: string where "HEADER_CONTENT_TYPE = ''content-type''"

text \<open>\<^verbatim>\<open>bytes.strip\<close> removes ASCII white space only.\<close>

definition bytes_isspace :: "char \<Rightarrow> bool" where
  "bytes_isspace c = (let n = of_char c :: nat in (9 \<le> n \<and> n \<le> 13) \<or> n = 32)"

definition bytes_strip :: "bytes \<Rightarrow> bytes" where
  "bytes_strip s = rev (dropWhile bytes_isspace (rev (dropWhile bytes_isspace s)))"

fun parse_raw_headers_loop :: "raw_headers \<Rightarrow> headers \<Rightarrow> headers" where
  "parse_raw_headers_loop [] hs = hs"
| "parse_raw_headers_loop ((bname, bvalue) # rest) hs =
     parse_raw_headers_loop rest
       (if bname = HEADER_AUTHORIZATION then AList.update HEADER_AUTHORIZATION (bytes_strip bvalue) hs
        else if bname = HEADER_COOKIE then AList.update HEADER_COOKIE (bytes_strip bvalue) hs
        else if bname = HEADER_OTA_FILE_CACHE_CONTROL then AList.update HEADER_OTA_FILE_CACHE_CONTROL bvalue hs
        else if bname = HEADER_RANGE then AList.update HEADER_RANGE (bytes_strip bvalue) hs
        else hs)"

definition parse_raw_headers :: "raw_headers \<Rightarrow> headers" where
  "parse_raw_headers raw = parse_raw_headers_loop raw []"

definition encode_one :: "headers \<Rightarrow> string \<Rightarrow> raw_headers" where
  "encode_one hs k = (case map_of hs k of Some v \<Rightarrow> if v \<noteq> [] then [(k, v)] else [] | None \<Rightarrow> [])"

definition encode_headers :: "headers \<Rightarrow> raw_headers" where
  "encode_headers hs = encode_one hs HEADER_CONTENT_ENCODING @ encode_one hs HEADER_CONTENT_TYPE
     @ encode_one hs HEADER_OTA_FILE_CACHE_CONTROL @ encode_one hs HEADER_CONTENT_RANGE"

section \<open>Responses\<close>

datatype asgi_msg = Resp_Start nat raw_headers | Resp_Body bytes bool

definition respond_with_error :: "nat \<Rightarrow> string \<Rightarrow> asgi_msg list" where
  "respond_with_error status msg =
     [Resp_Start status [(''content-type'', ''text/html;charset=UTF-8'')], Resp_Body msg False]"

definition send_chunk_one :: "bytes \<Rightarrow> asgi_msg list" where
  "send_chunk_one data = [Resp_Body data False]"

definition stream_send_chunk :: "bytes \<Rightarrow> asgi_msg list" where
  "stream_send_chunk data = [Resp_Body data True]"

definition init_response :: "nat \<Rightarrow> raw_headers \<Rightarrow> asgi_msg list" where
  "init_response status hs = [Resp_Start status hs]"

definition error_handling_for_cache_retrieving :: "proxy_exc \<Rightarrow> asgi_msg list" where
  "error_handling_for_cache_retrieving exc = (case exc of
       X_ReaderPoolBusy \<Rightarrow> respond_with_error 503 ''otaproxy internal busy''
     | X_CacheProviderNotReady \<Rightarrow> respond_with_error 503 ''otaproxy internal busy''
     | X_ClientResponseError st \<Rightarrow> respond_with_error st (''HTTP status from remote: '' @ nat_str st)
     | X_ClientConnectionError \<Rightarrow> respond_with_error 502 ''Failed to connect to remote''
     | X_ClientError \<Rightarrow> respond_with_error 503 ''HTTP client error''
     | X_BaseOTACacheError \<Rightarrow> respond_with_error 500 ''otaproxy internal error''
     | X_StopAsyncIteration \<Rightarrow> respond_with_error 500 ''otaproxy internal error''
     | X_Other _ \<Rightarrow> respond_with_error 500 ''unhandled internal server error'')"

definition error_handling_during_transferring :: "proxy_exc \<Rightarrow> asgi_msg list" where
  "error_handling_during_transferring exc = (case exc of
       X_BaseOTACacheError \<Rightarrow> send_chunk_one []
     | X_StopAsyncIteration \<Rightarrow> send_chunk_one []
     | _ \<Rightarrow> send_chunk_one [])"

type_synonym pulled = "bytes list \<times> proxy_exc option"

definition pull_data_and_send :: "request_env \<Rightarrow> (fd \<Rightarrow> pulled) \<Rightarrow> string \<Rightarrow> raw_headers \<Rightarrow> ota_cache \<Rightarrow> asgi_msg list \<times> ota_cache" where
  "pull_data_and_send e pull url raw oc =
     (let headers_from_client = parse_raw_headers raw
      in case retrieve_file e url headers_from_client oc of
           (Inl exc, oc') \<Rightarrow> (error_handling_for_cache_retrieving exc, oc')
         | (Inr None, oc') \<Rightarrow> (respond_with_error 500 (''failed to retrieve fd for '' @ url @ '' from ota cache''), oc')
         | (Inr (Some (fp, hs)), oc') \<Rightarrow>
             (let status = (if map_of hs HEADER_CONTENT_RANGE \<noteq> None then 206 else 200)
              in (init_response status (encode_headers hs) @
                  (case fp of
                     Fd_Bytes b \<Rightarrow> send_chunk_one b
                   | _ \<Rightarrow> (case pull fp of (chunks, err) \<Rightarrow>
                       concat (map stream_send_chunk chunks) @
                       (case err of None \<Rightarrow> send_chunk_one [] | Some x \<Rightarrow> error_handling_during_transferring x))),
                  oc')))"

section \<open>Requests\<close>

record scope =
  sc_method :: string
  sc_path :: string
  sc_headers :: raw_headers
  sc_server :: "(string \<times> string) option"
  sc_scheme :: "string option"

record proxy_app =
  ap_se :: nat
  ap_cache :: ota_cache

text \<open>\<open>handled\<close>: the messages sent; \<open>None\<close>: \<^verbatim>\<open>UnicodeDecodeError\<close> leaves the handler.\<close>

type_synonym handled = "asgi_msg list option"

definition is_ascii :: "bytes \<Rightarrow> bool" where
  "is_ascii b = list_all (\<lambda>c. (of_char c :: nat) < 128) b"

definition http_handler :: "request_env \<Rightarrow> (fd \<Rightarrow> pulled) \<Rightarrow> scope \<Rightarrow> proxy_app \<Rightarrow> handled \<times> proxy_app" where
  "http_handler e pull sc app =
     (if sc_method sc \<noteq> ''GET'' then (Some (respond_with_error 400 ''ONLY SUPPORT GET METHOD.''), app)
      else case map_of (sc_headers sc) ''host'' of
        None \<Rightarrow> (Some (respond_with_error 400 ''missing `host` header''), app)
      | Some host \<Rightarrow>
          if \<not> is_ascii host then (None, app)
          else if startswith (sc_path sc) ''/''
            \<and> (case sc_server sc of Some (s, p) \<Rightarrow> host = s @ '':'' @ p | None \<Rightarrow> False)
          then (Some (respond_with_error 400 ''We are not HTTP server but a proxy server.''), app)
          else let url = (if startswith (sc_path sc) ''/''
                          then (case sc_scheme sc of Some s \<Rightarrow> s | None \<Rightarrow> ''http'') @ ''://'' @ host @ sc_path sc
                          else sc_path sc)
            in if ap_se app = 0 then (Some (respond_with_error 429 ''''), app)
               else let app = app\<lparr>ap_se := ap_se app - 1\<rparr>;
                        (msgs, oc') = pull_data_and_send e pull url (sc_headers sc) (ap_cache app);
                        app = app\<lparr>ap_cache := oc'\<rparr>
                 in (Some msgs, app\<lparr>ap_se := ap_se app + 1\<rparr>))"

text \<open>\<^verbatim>\<open>App.start\<close>, \<^verbatim>\<open>App.stop\<close> and the lifespan protocol; start and stop of the cache are parameters of a start.\<close>

datatype lifespan_msg = Lifespan_Startup | Lifespan_Shutdown | Lifespan_Other

datatype lifespan_reply = Startup_Complete | Shutdown_Complete

record app_life =
  al_closed :: bool
  al_cache :: ota_cache

definition app_start :: "(ota_cache \<Rightarrow> ota_cache) \<Rightarrow> app_life \<Rightarrow> app_life" where
  "app_start start a = (if al_closed a then \<lparr> al_closed = False, al_cache = start (al_cache a) \<rparr> else a)"

definition app_stop :: "app_life \<Rightarrow> app_life" where
  "app_stop a = (if \<not> al_closed a then \<lparr> al_closed = True, al_cache = close_cache (al_cache a) \<rparr> else a)"

fun lifespan :: "(ota_cache \<Rightarrow> ota_cache) \<Rightarrow> lifespan_msg list \<Rightarrow> app_life \<Rightarrow> lifespan_reply list \<times> app_life" where
  "lifespan start [] a = ([], a)"
| "lifespan start (Lifespan_Startup # ms) a = (case lifespan start ms (app_start start a) of (rs, a') \<Rightarrow> (Startup_Complete # rs, a'))"
| "lifespan start (Lifespan_Shutdown # ms) a = ([Shutdown_Complete], app_stop a)"
| "lifespan start (Lifespan_Other # ms) a = lifespan start ms a"

section \<open>Readers of local files\<close>

text \<open>
  The queue from a reader thread to the response (\<^verbatim>\<open>CacheReaderPool\<close>): data, the sentinel of a failed reader, the end.
  \<open>stop\<close>: after how many chunks the reader is interrupted; \<open>fail\<close>: after how many a read raises.
\<close>

datatype que_item = Q_Data bytes | Q_Failed | Q_End

text \<open>\<^verbatim>\<open>while data := f.read(n)\<close>, for a positive \<open>n\<close>.\<close>

function read_chunks :: "nat \<Rightarrow> bytes \<Rightarrow> bytes list" where
  "read_chunks n c = (if n = 0 \<or> c = [] then [] else take n c # read_chunks n (drop n c))"
  by auto

termination by (relation "measure (\<lambda>(n, c). length c)") auto

declare read_chunks.simps [simp del]

definition read_file_in_thread :: "nat option \<Rightarrow> nat option \<Rightarrow> bytes option \<Rightarrow> nat \<Rightarrow> que_item list" where
  "read_file_in_thread stop fail file offset =
     (case file of
        None \<Rightarrow> [Q_Failed, Q_End]
      | Some c \<Rightarrow>
          (let chunks = read_chunks LOCAL_READ_SIZE (drop offset c);
               n = (case stop of None \<Rightarrow> length chunks | Some k \<Rightarrow> k)
           in case fail of
                Some k \<Rightarrow> if k < n \<and> k \<le> length chunks then map Q_Data (take k chunks) @ [Q_Failed, Q_End]
                          else map Q_Data (take n chunks) @ [Q_End]
              | None \<Rightarrow> map Q_Data (take n chunks) @ [Q_End]))"

fun stream_from_que :: "que_item list \<Rightarrow> pulled" where
  "stream_from_que [] = ([], None)"
| "stream_from_que (Q_End # q) = ([], None)"
| "stream_from_que (Q_Failed # q) = ([], Some X_BaseOTACacheError)"
| "stream_from_que (Q_Data d # q) = (if d = [] then ([], None)
     else case stream_from_que q of (ds, x) \<Rightarrow> (d # ds, x))"

text \<open>\<^verbatim>\<open>read_file\<close> of \<^verbatim>\<open>ota_proxy/utils.py\<close>, for the external caches.\<close>

definition read_file :: "bytes \<Rightarrow> nat \<Rightarrow> pulled" where
  "read_file c offset = (read_chunks LOCAL_READ_SIZE (drop offset c), None)"

text \<open>What the body of an answer yields when its file is read without interruption; \<open>other\<close>: the bodies of the remote.\<close>

definition pull_fd :: "ota_cache \<Rightarrow> (fd \<Rightarrow> pulled) \<Rightarrow> fd \<Rightarrow> pulled" where
  "pull_fd oc other f = (case f of
       Fd_File p off \<Rightarrow> stream_from_que (read_file_in_thread None None
         (case oc_fs oc p of Some (F_Reg c) \<Rightarrow> Some c | _ \<Rightarrow> None) off)
     | _ \<Rightarrow> other f)"

lemma read_chunks_concat: "0 < n \<Longrightarrow> concat (read_chunks n c) = c"
proof (induction n c rule: read_chunks.induct)
  case (1 n c)
  then show ?case by (subst read_chunks.simps) auto
qed

lemma read_chunks_ne: "x \<in> set (read_chunks n c) \<Longrightarrow> x \<noteq> []"
proof (induction n c rule: read_chunks.induct)
  case (1 n c)
  then show ?case by (subst (asm) (2) read_chunks.simps) (auto split: if_splits)
qed

lemma stream_from_data: "\<forall>x\<in>set cs. x \<noteq> [] \<Longrightarrow> stream_from_que (map Q_Data cs @ q) = (cs @ fst (stream_from_que q), snd (stream_from_que q))"
  by (induction cs) (auto split: prod.splits)

text \<open>A reader that is not disturbed delivers the file from the offset on, as reading the file directly does.\<close>

lemma reader_delivers: "stream_from_que (read_file_in_thread None None (Some c) off) = read_file c off"
  using stream_from_data [of "read_chunks LOCAL_READ_SIZE (drop off c)" "[Q_End]"] read_chunks_ne
  by (auto simp: read_file_in_thread_def read_file_def Let_def)

lemma pull_file_concat:
  "oc_fs oc p = Some (F_Reg c) \<Longrightarrow> concat (fst (pull_fd oc other (Fd_File p off))) = drop off c"
  by (simp add: pull_fd_def reader_delivers read_file_def read_chunks_concat LOCAL_READ_SIZE_def)

section \<open>Every request gets one response\<close>

definition well_formed_response :: "asgi_msg list \<Rightarrow> bool" where
  "well_formed_response msgs \<longleftrightarrow>
     (\<exists>st hs bodies b. msgs = Resp_Start st hs # map (\<lambda>b. Resp_Body b True) bodies @ [Resp_Body b False])"

lemma well_formedI: "well_formed_response (Resp_Start st hs # map (\<lambda>b. Resp_Body b True) bodies @ [Resp_Body b False])"
  unfolding well_formed_response_def by blast

lemma error_well_formed: "well_formed_response (respond_with_error st msg)"
  using well_formedI [of st _ "[]"] by (simp add: respond_with_error_def)

lemma retrieving_error_well_formed: "well_formed_response (error_handling_for_cache_retrieving exc)"
  by (cases exc) (simp_all add: error_handling_for_cache_retrieving_def error_well_formed)

lemma chunks_are_bodies: "concat (map stream_send_chunk chunks) = map (\<lambda>b. Resp_Body b True) chunks"
  by (induction chunks) (simp_all add: stream_send_chunk_def)

lemma transferring_error: "error_handling_during_transferring x = [Resp_Body [] False]"
  by (cases x) (simp_all add: error_handling_during_transferring_def send_chunk_one_def)

text \<open>The messages of an answer, in one shape.\<close>

lemma answer_messages:
  assumes "retrieve_file e url (parse_raw_headers raw) oc = (Inr (Some (fp, hs)), oc')"
  shows "\<exists>bodies b. fst (pull_data_and_send e pull url raw oc)
      = Resp_Start (if map_of hs HEADER_CONTENT_RANGE \<noteq> None then 206 else 200) (encode_headers hs)
          # map (\<lambda>b. Resp_Body b True) bodies @ [Resp_Body b False]
    \<and> concat bodies @ b = (case fp of Fd_Bytes c \<Rightarrow> c | _ \<Rightarrow> concat (fst (pull fp)))"
proof (cases "\<exists>c. fp = Fd_Bytes c")
  case True
  then obtain c where "fp = Fd_Bytes c" by blast
  then show ?thesis using assms
    by (intro exI [of _ "[]"] exI [of _ c]) (simp add: pull_data_and_send_def Let_def init_response_def send_chunk_one_def)
next
  case False
  obtain chunks err where p: "pull fp = (chunks, err)" by (cases "pull fp")
  then show ?thesis using assms False
    by (intro exI [of _ chunks] exI [of _ "[]"], cases fp)
      (auto simp: pull_data_and_send_def Let_def init_response_def chunks_are_bodies transferring_error send_chunk_one_def
        split: option.splits)
qed

lemma pull_well_formed: "well_formed_response (fst (pull_data_and_send e pull url raw oc))"
proof (cases "retrieve_file e url (parse_raw_headers raw) oc")
  case (Pair r oc')
  show ?thesis
  proof (cases r)
    case (Inl x)
    then show ?thesis using Pair by (simp add: pull_data_and_send_def retrieving_error_well_formed)
  next
    case (Inr a)
    show ?thesis
    proof (cases a)
      case None
      then show ?thesis using Pair Inr by (simp add: pull_data_and_send_def error_well_formed)
    next
      case (Some x)
      obtain fp hs where "x = (fp, hs)" by (cases x)
      then have "retrieve_file e url (parse_raw_headers raw) oc = (Inr (Some (fp, hs)), oc')" using Pair Inr Some by simp
      from answer_messages [OF this, of pull] show ?thesis using well_formedI by metis
    qed
  qed
qed

text \<open>
  Every request is answered by exactly one complete response, whatever the caches, the remote and the body do: the
  messages are one start, any number of body parts that announce more, and one last part; and the request gives back
  the slot it took of the limit on concurrent requests. The only way out without a response is a \<^verbatim>\<open>host\<close> header that
  is not ASCII.
\<close>

lemma one_complete_response_per_request:
  assumes "\<forall>host. map_of (sc_headers sc) ''host'' = Some host \<longrightarrow> is_ascii host"
    and "http_handler e pull sc app = (r, app')"
  shows "(\<exists>msgs. r = Some msgs \<and> well_formed_response msgs) \<and> ap_se app' = ap_se app"
  using assms pull_well_formed [of e pull _ "sc_headers sc" "ap_cache app"]
  by (auto simp: http_handler_def Let_def error_well_formed split: if_splits option.splits prod.splits)
    (metis fst_conv)+

definition sample_scope :: scope where
  "sample_scope = \<lparr> sc_method = ''GET'', sc_path = ''/f'',
     sc_headers = [(''host'', ''h''), (''range'', ''bytes=2-''), (''ota-file-cache-control'', ''file_sha256=aa'')],
     sc_server = None, sc_scheme = None \<rparr>"

section \<open>Ranges\<close>

lemma encoded_header: "k \<in> {HEADER_CONTENT_ENCODING, HEADER_CONTENT_TYPE, HEADER_OTA_FILE_CACHE_CONTROL, HEADER_CONTENT_RANGE}
    \<Longrightarrow> map_of hs k = Some v \<Longrightarrow> v \<noteq> [] \<Longrightarrow> (k, v) \<in> set (encode_headers hs)"
  by (auto simp: encode_headers_def encode_one_def)

lemma not_encoded: "map_of hs k = None \<Longrightarrow> k \<notin> fst ` set (encode_headers hs)"
  by (auto simp: encode_headers_def encode_one_def split: option.splits if_splits)



end
