(* ===== verification/Py_Numbers.thy ===== *)
theory Py_Numbers
  imports Py_Strings
begin

text \<open>
  More of the language's strings and numbers, for the parsers of headers, configuration files and command output:
  \<^verbatim>\<open>int(s)\<close> with its white space, signs and underscores, \<^verbatim>\<open>str.partition\<close>, \<^verbatim>\<open>str.lower\<close>, prefixes, suffixes and
  lines.
\<close>

section \<open>Letters\<close>

text \<open>\<^verbatim>\<open>str.lower\<close> on ASCII letters.\<close>

definition lower_ascii :: "char \<Rightarrow> char" where
  "lower_ascii c = (let n = of_char c :: nat in if 65 \<le> n \<and> n \<le> 90 then char_of (n + 32) else c)"

definition str_lower :: "string \<Rightarrow> string" where
  "str_lower s = map lower_ascii s"

lemma lower_ascii_idem [simp]: "lower_ascii (lower_ascii c) = lower_ascii c"
  by (simp add: lower_ascii_def Let_def)

lemma str_lower_idem [simp]: "str_lower (str_lower s) = str_lower s"
  by (simp add: str_lower_def)

section \<open>Partition\<close>

text \<open>\<^verbatim>\<open>s.partition(c)\<close>, without its middle part, which the sources do not use.\<close>

definition partition_on :: "char \<Rightarrow> string \<Rightarrow> string \<times> string" where
  "partition_on c s = (takeWhile (\<lambda>x. x \<noteq> c) s, drop 1 (dropWhile (\<lambda>x. x \<noteq> c) s))"

lemma partition_on_pair: "c \<notin> set a \<Longrightarrow> partition_on c (a @ c # b) = (a, b)"
  by (induction a) (auto simp: partition_on_def)

section \<open>Integers\<close>

text \<open>Decimal digits, single underscores between them.\<close>

fun int_body :: "string \<Rightarrow> bool" where
  "int_body [] = False"
| "int_body [c] = is_digit c"
| "int_body (c # d # s) = (is_digit c \<and> (int_body (d # s) \<or> d = CHR ''_'' \<and> s \<noteq> [] \<and> is_digit (hd s) \<and> int_body s))"

definition py_int :: "string \<Rightarrow> int option" where
  "py_int s =
     (let t = strip s;
          (neg, u) = (case t of c # r \<Rightarrow> if c = CHR ''-'' then (True, r) else if c = CHR ''+'' then (False, r) else (False, t)
                              | [] \<Rightarrow> (False, []))
      in if int_body u
         then Some ((if neg then -1 else 1) * int (nat_of_digits (filter (\<lambda>c. c \<noteq> CHR ''_'') u)))
         else None)"

lemma digit_no_mark: "is_digit c \<Longrightarrow> c \<noteq> CHR ''_'' \<and> c \<noteq> CHR ''-'' \<and> c \<noteq> CHR ''+'' \<and> c \<noteq> CHR '' '' \<and> c \<noteq> CHR ''/''"
  by (auto simp: is_digit_def)

lemma digits_no_mark: "list_all is_digit s \<Longrightarrow> c \<in> {CHR ''_'', CHR ''-'', CHR ''+'', CHR '' '', CHR ''/''} \<Longrightarrow> c \<notin> set s"
  using digit_no_mark by (fastforce simp: list_all_iff)

lemma int_body_digits: "s \<noteq> [] \<Longrightarrow> list_all is_digit s \<Longrightarrow> int_body s"
  by (induction s rule: int_body.induct) auto

lemma digits_stripped: "list_all is_digit s \<Longrightarrow> strip s = s"
  by (rule strip_stripped)
    (metis digit_plain hd_in_set last_in_set list_all_iff stripped_def)

lemma py_int_digits:
  assumes "s \<noteq> []" "list_all is_digit s"
  shows "py_int s = Some (int (nat_of_digits s))"
proof -
  obtain c r where s: "s = c # r" using assms(1) by (cases s) auto
  have c: "c \<noteq> CHR ''-''" "c \<noteq> CHR ''+''" using assms(2) digit_no_mark s by auto
  have "filter (\<lambda>c. c \<noteq> CHR ''_'') s = s"
    using assms(2) digit_no_mark by (auto simp: filter_id_conv list_all_iff)
  moreover have "int_body s" by (rule int_body_digits [OF assms])
  ultimately show ?thesis using c s digits_stripped [OF assms(2)] by (simp add: py_int_def)
qed

lemma py_int_nat_str [simp]: "py_int (nat_str n) = Some (int n)"
  using nat_str_digits [of n] by (simp add: py_int_digits nat_of_nat_str)

text \<open>A minus sign is read as one: \<^verbatim>\<open>int(str(i)) == i\<close>.\<close>

definition int_str :: "int \<Rightarrow> string" where
  "int_str i = (if i < 0 then CHR ''-'' # nat_str (nat (- i)) else nat_str (nat i))"

lemma py_int_int_str [simp]: "py_int (int_str i) = Some i"
proof (cases "i < 0")
  case True
  let ?d = "nat_str (nat (- i))"
  have d: "?d \<noteq> []" "list_all is_digit ?d" using nat_str_digits by auto
  have "stripped (CHR ''-'' # ?d)"
    using d digit_plain last_in_set [OF d(1)]
    by (auto simp: stripped_def list_all_iff py_isspace_def Let_def)
  moreover have "filter (\<lambda>c. c \<noteq> CHR ''_'') ?d = ?d"
    using d digit_no_mark by (auto simp: filter_id_conv list_all_iff)
  ultimately show ?thesis
    using True int_body_digits [OF d] by (simp add: py_int_def int_str_def strip_stripped nat_of_nat_str)
qed (simp add: int_str_def)

section \<open>Lines and words\<close>

text \<open>\<^verbatim>\<open>str.splitlines\<close> for texts whose only line ends are newlines: no last line after a final newline.\<close>

definition splitlines :: "string \<Rightarrow> string list" where
  "splitlines s =
     (let ls = split_on (CHR ''\<newline>'') s
      in if last ls = [] then butlast ls else ls)"

text \<open>\<^verbatim>\<open>str.split()\<close>: the maximal runs of characters that are no white space.\<close>

function split_ws :: "string \<Rightarrow> string list" where
  "split_ws s =
     (let t = dropWhile py_isspace s
      in if t = [] then []
         else takeWhile (\<lambda>c. \<not> py_isspace c) t # split_ws (dropWhile (\<lambda>c. \<not> py_isspace c) t))"
  by pat_completeness auto
termination split_ws
proof (relation "measure length")
  fix s t :: string
  assume t: "t = dropWhile py_isspace s" "t \<noteq> []"
  then have "\<not> py_isspace (hd t)" using hd_dropWhile by metis
  then have "length (dropWhile (\<lambda>c. \<not> py_isspace c) t) < length t"
    using t(2) by (cases t) (auto simp: less_Suc_eq_le length_dropWhile_le)
  also have "length t \<le> length s" by (simp add: t(1) length_dropWhile_le)
  finally show "(dropWhile (\<lambda>c. \<not> py_isspace c) t, s) \<in> measure length" by simp
qed simp

declare split_ws.simps [simp del]

definition endswith :: "string \<Rightarrow> string \<Rightarrow> bool" where
  "endswith s p \<longleftrightarrow> length p \<le> length s \<and> drop (length s - length p) s = p"

lemma endswith_append [simp]: "endswith (a @ p) p"
  by (simp add: endswith_def)

end
