(* ===== verification/Downloader.thy ===== *)
theory Downloader
  imports Server_App Py_Numbers
begin

text \<open>
  The downloader of the client (\<^verbatim>\<open>otaclient_common/downloader.py\<close>): the cache control headers it sends to and reads from
  an upper OTA proxy, \<^verbatim>\<open>Downloader.download\<close> with its resumption by a ranged request and its checks of size and digest,
  and the decorator that repeats a failed download once.

  The state \<open>dl_state\<close> is the file system as far as the downloader uses it, the bytes counted on the wire and the
  requests made so far. \<open>dl_env\<close> holds what is outside the sources: the HTTP client with its answers
  (\<open>de_get\<close>, the \<open>n\<close>-th request may be answered in any way), the zstd library, the hash function, and the file
  operations that may fail. A digest object is the list of bytes it was fed with.
\<close>

section \<open>Data\<close>

datatype dl_exc =
    PartialDownload | HashVerificationError | BrokenDecompressionError
  | DL_HTTPError nat | DL_RequestException string | DL_OSError

record download_result =
  retry_count :: nat
  download_size :: nat
  traffic_on_wire :: int

text \<open>
  A response: what \<^verbatim>\<open>iter_content\<close> yields and the exception it ends with, if any.
\<close>

record dl_response =
  status_code :: nat
  rs_headers :: headers
  rs_retries :: nat
  rs_chunks :: "bytes list"
  rs_end :: "dl_exc option"

datatype zstd_end = Z_End | Z_ZstdError | Z_Raise dl_exc

record dl_env =
  de_get :: "nat \<Rightarrow> string \<Rightarrow> headers \<Rightarrow> dl_exc + dl_response"
  de_zstd :: "dl_response \<Rightarrow> (bytes \<times> int) list \<times> zstd_end"
  de_sha :: "bytes \<Rightarrow> string"
  de_open_fails :: "string \<Rightarrow> bool"
  de_write_fails :: "string \<Rightarrow> nat \<Rightarrow> nat option"

record downloader_conf =
  chunk_size :: nat
  proxies :: "(string \<times> string) list"
  force_http :: bool

record dl_kwargs =
  kw_size :: "nat option"
  kw_digest :: "string option"
  kw_headers :: "headers option"
  kw_compression_alg :: "string option"
  kw_resume_from :: nat

record dl_state =
  ds_files :: "string \<Rightarrow> bytes option"
  ds_downloaded_bytes :: int
  ds_requests :: "(string \<times> headers) list"

type_synonym 'a dl_io = "(dl_state, dl_exc, 'a) io"

definition CACHE_CONTROL_HEADER :: string where "CACHE_CONTROL_HEADER = HEADER_OTA_FILE_CACHE_CONTROL"
definition DL_HEADER_RANGE :: string where "DL_HEADER_RANGE = ''Range''"
definition DL_HEADER_CONTENT_RANGE :: string where "DL_HEADER_CONTENT_RANGE = ''Content-Range''"

text \<open>\<^verbatim>\<open>Downloader.__init__\<close>, the settings the downloads use.\<close>

definition downloader_init :: "nat \<Rightarrow> bool \<Rightarrow> (string \<times> string) list option \<Rightarrow> downloader_conf" where
  "downloader_init csize use_http_if_http_proxy_set prox =
     (let parsed_proxies = (case prox of Some p \<Rightarrow> p | None \<Rightarrow> [])
      in \<lparr> chunk_size = csize, proxies = parsed_proxies,
           force_http = (use_http_if_http_proxy_set \<and> ''http'' \<in> fst ` set parsed_proxies) \<rparr>)"

section \<open>Headers without regard to case\<close>

text \<open>\<^verbatim>\<open>CaseInsensitiveDict\<close> of requests: the last spelling of a name is kept, at the place of its first one.\<close>

definition ci_get :: "headers \<Rightarrow> string \<Rightarrow> string option" where
  "ci_get hs k = map_of (map (\<lambda>(n, v). (str_lower n, v)) hs) (str_lower k)"

fun ci_set :: "string \<Rightarrow> string \<Rightarrow> headers \<Rightarrow> headers" where
  "ci_set k v [] = [(k, v)]"
| "ci_set k v ((n, w) # hs) = (if str_lower n = str_lower k then (k, v) # hs else (n, w) # ci_set k v hs)"

definition ci_del :: "string \<Rightarrow> headers \<Rightarrow> headers" where
  "ci_del k hs = filter (\<lambda>(n, v). str_lower n \<noteq> str_lower k) hs"

definition ci_dict :: "headers \<Rightarrow> headers" where
  "ci_dict hs = foldl (\<lambda>d (k, v). ci_set k v d) [] hs"

lemma ci_get_set [simp]: "ci_get (ci_set k v hs) j = (if str_lower j = str_lower k then Some v else ci_get hs j)"
  by (induction k v hs rule: ci_set.induct) (auto simp: ci_get_def)

section \<open>The cache control protocol\<close>

text \<open>The retry of a file whose check failed asks an upper OTA proxy to cache it again.\<close>

definition inject_cache_retry_directory :: "dl_kwargs \<Rightarrow> dl_kwargs" where
  "inject_cache_retry_directory kw =
     (let parsed_header = (case kw_headers kw of Some h \<Rightarrow> h | None \<Rightarrow> []);
          cache_policy = (case map_of parsed_header CACHE_CONTROL_HEADER of Some h \<Rightarrow> h | None \<Rightarrow> '''');
          parsed_header = AList.delete CACHE_CONTROL_HEADER parsed_header;
          cache_policy = update_header_str cache_policy [(''retry_caching'', V_True)]
      in kw\<lparr>kw_headers := Some (AList.update CACHE_CONTROL_HEADER cache_policy parsed_header)\<rparr>)"

definition opt_val :: "string option \<Rightarrow> dir_val" where
  "opt_val o' = (case o' of Some s \<Rightarrow> V_Str s | None \<Rightarrow> V_None)"

definition inject_cache_control_header_in_req :: "string \<Rightarrow> headers option \<Rightarrow> string option \<Rightarrow> headers" where
  "inject_cache_control_header_in_req digest input_header compression_alg =
     (let prepared = (case input_header of Some h \<Rightarrow> ci_dict h | None \<Rightarrow> []);
          cache_policy = (case ci_get prepared CACHE_CONTROL_HEADER of Some h \<Rightarrow> h | None \<Rightarrow> '''');
          prepared = ci_del CACHE_CONTROL_HEADER prepared;
          cache_policy = update_header_str cache_policy
            [(''file_sha256'', V_Str digest), (''file_compression_alg'', opt_val compression_alg)]
      in ci_set CACHE_CONTROL_HEADER cache_policy prepared)"

text \<open>
  The digest is always the one of the image metadata; a response that claims another one is refused. The compression
  algorithm is the one the response states; a directive without a value is \<^verbatim>\<open>True\<close>.
\<close>

definition check_cache_policy_in_resp ::
    "dir_val \<Rightarrow> string option \<Rightarrow> headers \<Rightarrow> dl_exc + (string option \<times> dir_val)" where
  "check_cache_policy_in_resp compression_alg digest resp_headers =
     (case ci_get resp_headers CACHE_CONTROL_HEADER of
        None \<Rightarrow> Inr (digest, compression_alg)
      | Some cache_policy_str \<Rightarrow>
          if cache_policy_str = [] then Inr (digest, compression_alg)
          else let cache_policy = parse_header cache_policy_str in
            if truthy (opt_val digest) \<and> truthy (file_sha256 cache_policy) \<and> opt_val digest \<noteq> file_sha256 cache_policy
            then Inl HashVerificationError
            else if truthy (file_compression_alg cache_policy) \<and> compression_alg \<noteq> file_compression_alg cache_policy
            then Inr (digest, file_compression_alg cache_policy)
            else Inr (digest, compression_alg))"

section \<open>Resumption\<close>

text \<open>\<^verbatim>\<open>os.stat\<close> raises for a file that is not there.\<close>

definition resumable_bytes :: "dl_state \<Rightarrow> string \<Rightarrow> nat \<Rightarrow> nat" where
  "resumable_bytes s path size' =
     (case ds_files s path of
        None \<Rightarrow> 0
      | Some content \<Rightarrow> if 0 < length content \<and> length content < size' then length content else 0)"

definition resumable_part :: "dl_state \<Rightarrow> string \<Rightarrow> dl_kwargs \<Rightarrow> nat" where
  "resumable_part s dst kw =
     (case kw_size kw of
        None \<Rightarrow> 0
      | Some size' \<Rightarrow>
          if dst = [] \<or> size' = 0 \<or> truthy (opt_val (kw_compression_alg kw)) then 0
          else resumable_bytes s dst size')"

definition range_honoured :: "dl_response \<Rightarrow> nat \<Rightarrow> bool" where
  "range_honoured resp resume_from =
     (if status_code resp \<noteq> 206 then False
      else let cr = (case ci_get (rs_headers resp) DL_HEADER_CONTENT_RANGE of Some h \<Rightarrow> h | None \<Rightarrow> '''');
               (unit', spec) = partition_on (CHR '' '') cr
           in case py_int (fst (split_once (CHR ''-'') spec)) of
                None \<Rightarrow> False
              | Some start \<Rightarrow> str_lower unit' = ''bytes'' \<and> start = int resume_from)"

text \<open>
  \<^verbatim>\<open>_hash_existing\<close>: the first \<open>up_to\<close> bytes of a file are read in chunks and fed to the digest. \<open>rest\<close> is what is behind
  the position of the file object.
\<close>

function hash_existing_loop :: "nat \<Rightarrow> bytes \<Rightarrow> nat \<Rightarrow> bytes \<Rightarrow> dl_exc + bytes" where
  "hash_existing_loop csize rest remaining fed =
     (if remaining = 0 then Inr fed
      else let chunk = take (min csize remaining) rest
           in if chunk = [] then Inl PartialDownload
              else hash_existing_loop csize (drop (length chunk) rest) (remaining - length chunk) (fed @ chunk))"
  by pat_completeness auto
termination hash_existing_loop
  by (relation "measure (\<lambda>(_, _, remaining, _). remaining)") auto

declare hash_existing_loop.simps [simp del]

definition hash_existing :: "bytes \<Rightarrow> nat \<Rightarrow> nat \<Rightarrow> dl_exc + bytes" where
  "hash_existing content up_to csize = hash_existing_loop csize content up_to []"

lemma hash_existing_loop_eq:
  "hash_existing_loop csize rest remaining fed =
     (if remaining \<le> length rest \<and> (remaining = 0 \<or> csize \<noteq> 0) then Inr (fed @ take remaining rest) else Inl PartialDownload)"
proof (induction csize rest remaining fed rule: hash_existing_loop.induct)
  case (1 csize rest remaining fed)
  let ?chunk = "take (min csize remaining) rest"
  show ?case
  proof (cases "remaining = 0 \<or> ?chunk = []")
    case True
    then show ?thesis by (subst hash_existing_loop.simps) auto
  next
    case False
    then have n: "length ?chunk \<le> remaining" "csize \<noteq> 0" by auto
    let ?k = "length ?chunk"
    have "take remaining rest = take ?k rest @ take (remaining - ?k) (drop ?k rest)"
      by (metis n(1) le_add_diff_inverse take_add)
    then have split: "take remaining rest = ?chunk @ take (remaining - ?k) (drop ?k rest)"
      by (metis append_eq_conv_conj append_take_drop_id)
    have len: "remaining - ?k \<le> length (drop ?k rest) \<longleftrightarrow> remaining \<le> length rest"
      using n(1) by (simp only: length_drop length_take) linarith
    have "hash_existing_loop csize rest remaining fed
        = hash_existing_loop csize (drop ?k rest) (remaining - ?k) (fed @ ?chunk)"
      using False by (subst hash_existing_loop.simps) (simp only: Let_def if_False de_Morgan_disj simp_thms)
    also have "\<dots> = (if remaining - ?k \<le> length (drop ?k rest) \<and> (remaining - ?k = 0 \<or> csize \<noteq> 0)
        then Inr ((fed @ ?chunk) @ take (remaining - ?k) (drop ?k rest)) else Inl PartialDownload)"
      by (rule 1 [OF _ refl]) (use False in simp_all)
    finally show ?thesis unfolding len append_assoc split [symmetric] using n(2) by simp
  qed
qed

text \<open>The loop ends, with exactly the part on disk or with the error for a file that is too short.\<close>

lemma hash_existing_eq:
  "hash_existing content up_to csize =
     (if up_to \<le> length content \<and> (up_to = 0 \<or> csize \<noteq> 0) then Inr (take up_to content) else Inl PartialDownload)"
  by (simp add: hash_existing_def hash_existing_loop_eq)

section \<open>The download\<close>

text \<open>
  \<^verbatim>\<open>urlsplit(url)._replace(scheme="http").geturl()\<close>, for URLs without brackets: leading blanks and control characters,
  tabs and line ends are dropped, and so are an empty query and an empty fragment.
\<close>

definition scheme_char :: "char \<Rightarrow> bool" where
  "scheme_char c = (let n = of_char (lower_ascii c) :: nat in (97 \<le> n \<and> n \<le> 122) \<or> is_digit c \<or> c \<in> set ''+-.'')"

definition after_scheme :: "string \<Rightarrow> string" where
  "after_scheme u = (case split_once (CHR '':'') u of
       (s, Some r) \<Rightarrow> if s \<noteq> [] \<and> lower_ascii (hd s) \<in> set ''abcdefghijklmnopqrstuvwxyz'' \<and> list_all scheme_char s then r else u
     | (_, None) \<Rightarrow> u)"

definition with_http_scheme :: "string \<Rightarrow> string" where
  "with_http_scheme url =
     (let u = filter (\<lambda>c. (of_char c :: nat) \<notin> {9, 10, 13}) (dropWhile (\<lambda>c. (of_char c :: nat) \<le> 32) url);
          r = after_scheme u;
          (netloc, p) = (if take 2 r = ''//''
                         then (takeWhile (\<lambda>c. c \<notin> set ''/?#'') (drop 2 r), dropWhile (\<lambda>c. c \<notin> set ''/?#'') (drop 2 r))
                         else ([], r));
          (p, fragment) = partition_on (CHR ''#'') p;
          (path, query) = partition_on (CHR ''?'') p;
          path = (if path \<noteq> [] \<and> hd path \<noteq> CHR ''/'' then CHR ''/'' # path else path)
      in ''http:'' @ (if netloc \<noteq> [] \<or> take 2 path \<noteq> ''//'' then ''//'' @ netloc @ path else path)
           @ (if query = [] then [] else CHR ''?'' # query) @ (if fragment = [] then [] else CHR ''#'' # fragment))"

text \<open>A digest object, the bytes of this file so far and the traffic of this download.\<close>

type_synonym progress = "bytes \<times> nat \<times> int"

definition put_file :: "string \<Rightarrow> bytes \<Rightarrow> dl_state \<Rightarrow> dl_state" where
  "put_file p c s = s\<lparr>ds_files := (ds_files s)(p \<mapsto> c)\<rparr>"

definition file_at :: "dl_state \<Rightarrow> string \<Rightarrow> bytes" where
  "file_at s p = (case ds_files s p of Some c \<Rightarrow> c | None \<Rightarrow> [])"

text \<open>\<^verbatim>\<open>dst_fp.write\<close>, at the end of the file. A write that fails may leave a part of the chunk behind.\<close>

definition write_chunk :: "dl_env \<Rightarrow> string \<Rightarrow> bytes \<Rightarrow> unit dl_io" where
  "write_chunk e dst chunk = (\<lambda>s. let c = file_at s dst in
     case de_write_fails e dst (length c) of
       None \<Rightarrow> (Inr (), put_file dst (c @ chunk) s)
     | Some k \<Rightarrow> (Inl DL_OSError, put_file dst (c @ take k chunk) s))"

definition count_bytes :: "int \<Rightarrow> unit dl_io" where
  "count_bytes n = modify_io (\<lambda>s. s\<lparr>ds_downloaded_bytes := ds_downloaded_bytes s + n\<rparr>)"

text \<open>The loop over \<^verbatim>\<open>resp.iter_content\<close>.\<close>

fun save_plain :: "dl_env \<Rightarrow> string \<Rightarrow> bytes list \<Rightarrow> dl_exc option \<Rightarrow> progress \<Rightarrow> progress dl_io" where
  "save_plain e dst [] fin pr = (case fin of None \<Rightarrow> ret pr | Some x \<Rightarrow> throw x)"
| "save_plain e dst (chunk # cs) fin (fed, sz, traffic) =
     then_io (write_chunk e dst chunk)
      (then_io (count_bytes (int (length chunk)))
        (save_plain e dst cs fin (fed @ chunk, sz + length chunk, traffic + int (length chunk))))"

text \<open>
  The loop over \<^verbatim>\<open>decompressor.iter_chunk\<close>; with a chunk comes the position in the compressed stream. An error of the
  zstd library becomes \<^verbatim>\<open>BrokenDecompressionError\<close>.
\<close>

definition zstd_exc :: "zstd_end \<Rightarrow> dl_exc option" where
  "zstd_exc z = (case z of Z_End \<Rightarrow> None | Z_ZstdError \<Rightarrow> Some BrokenDecompressionError | Z_Raise x \<Rightarrow> Some x)"

fun save_zstd :: "dl_env \<Rightarrow> string \<Rightarrow> (bytes \<times> int) list \<Rightarrow> zstd_end \<Rightarrow> progress \<Rightarrow> progress dl_io" where
  "save_zstd e dst [] fin pr = (case zstd_exc fin of None \<Rightarrow> ret pr | Some x \<Rightarrow> throw x)"
| "save_zstd e dst ((chunk, pos) # cs) fin (fed, sz, traffic) =
     then_io (write_chunk e dst chunk)
      (then_io (count_bytes (pos - traffic))
        (save_zstd e dst cs fin (fed @ chunk, sz + length chunk, pos)))"

definition get_decompressor :: "dir_val \<Rightarrow> bool" where
  "get_decompressor compression_alg \<longleftrightarrow> compression_alg \<in> {V_Str ''zst'', V_Str ''zstd''}"

definition save_body :: "dl_env \<Rightarrow> string \<Rightarrow> dir_val \<Rightarrow> dl_response \<Rightarrow> bytes \<Rightarrow> progress dl_io" where
  "save_body e dst compression_alg resp fed =
     (if get_decompressor compression_alg
      then save_zstd e dst (fst (de_zstd e resp)) (snd (de_zstd e resp)) (fed, 0, 0)
      else save_plain e dst (rs_chunks resp) (rs_end resp) (fed, 0, 0))"

definition session_get :: "dl_env \<Rightarrow> string \<Rightarrow> headers \<Rightarrow> dl_response dl_io" where
  "session_get e url hs = (\<lambda>s.
     (de_get e (length (ds_requests s)) url hs, s\<lparr>ds_requests := ds_requests s @ [(url, hs)]\<rparr>))"

definition raise_for_status :: "dl_response \<Rightarrow> unit dl_io" where
  "raise_for_status resp =
     (if 400 \<le> status_code resp \<and> status_code resp < 600 then throw (DL_HTTPError (status_code resp)) else ret ())"

text \<open>\<^verbatim>\<open>open(dst, "r+b")\<close> with the seek and the truncation, or \<^verbatim>\<open>open(dst, "wb")\<close>.\<close>

definition open_dst :: "dl_env \<Rightarrow> string \<Rightarrow> nat option \<Rightarrow> unit dl_io" where
  "open_dst e dst keep = (\<lambda>s.
     if de_open_fails e dst then (Inl DL_OSError, s)
     else case keep of
       None \<Rightarrow> (Inr (), put_file dst [] s)
     | Some n \<Rightarrow> (case ds_files s dst of
           None \<Rightarrow> (Inl DL_OSError, s)
         | Some c \<Rightarrow> (Inr (), put_file dst (take n c) s)))"

definition open_read :: "string \<Rightarrow> bytes dl_io" where
  "open_read p = (\<lambda>s. case ds_files s p of None \<Rightarrow> (Inl DL_OSError, s) | Some c \<Rightarrow> (Inr c, s))"

definition lift_sum :: "'e + 'a \<Rightarrow> ('s, 'e, 'a) io" where
  "lift_sum r = (case r of Inl x \<Rightarrow> throw x | Inr a \<Rightarrow> ret a)"

definition prepared_headers :: "downloader_conf \<Rightarrow> dl_kwargs \<Rightarrow> headers option" where
  "prepared_headers d kw =
     (if truthy (opt_val (kw_digest kw)) \<and> proxies d \<noteq> []
      then Some (inject_cache_control_header_in_req (the (kw_digest kw)) (kw_headers kw) (kw_compression_alg kw))
      else kw_headers kw)"

text \<open>The request of a download that continues after \<open>resume_from\<close> bytes, and the digest object it starts with.\<close>

definition prepare_resume :: "downloader_conf \<Rightarrow> string \<Rightarrow> nat \<Rightarrow> headers option \<Rightarrow> (bytes \<times> headers) dl_io" where
  "prepare_resume d dst resume_from hs =
     (if resume_from = 0 then ret ([], case hs of Some h \<Rightarrow> h | None \<Rightarrow> [])
      else bind_io (open_read dst) (\<lambda>content.
             bind_io (lift_sum (hash_existing content resume_from (chunk_size d))) (\<lambda>fed.
               ret (fed, ci_set DL_HEADER_RANGE (''bytes='' @ nat_str resume_from @ ''-'')
                           (ci_dict (case hs of Some h \<Rightarrow> h | None \<Rightarrow> []))))))"

definition check_file :: "dl_env \<Rightarrow> dl_kwargs \<Rightarrow> string option \<Rightarrow> bytes \<Rightarrow> nat \<Rightarrow> unit dl_io" where
  "check_file e kw digest fed file_size =
     (if kw_size kw \<noteq> None \<and> kw_size kw \<noteq> Some 0 \<and> kw_size kw \<noteq> Some file_size then throw PartialDownload
      else if truthy (opt_val digest) \<and> digest \<noteq> Some (de_sha e fed) then throw HashVerificationError
      else ret ())"

text \<open>The part of \<^verbatim>\<open>Downloader.download\<close> behind the check of the status, with the digest object of the existing part.\<close>

definition save_response ::
    "dl_env \<Rightarrow> string \<Rightarrow> dl_kwargs \<Rightarrow> nat \<Rightarrow> bytes \<Rightarrow> dl_response \<Rightarrow> download_result dl_io" where
  "save_response e dst kw resume_from fed resp =
     (let resumed = (resume_from > 0 \<and> range_honoured resp resume_from);
          fed = (if resumed then fed else [])
      in then_io (open_dst e dst (if resumed then Some resume_from else None))
         (bind_io (lift_sum (check_cache_policy_in_resp (opt_val (kw_compression_alg kw)) (kw_digest kw) (rs_headers resp)))
           (\<lambda>(digest, compression_alg).
             bind_io (save_body e dst compression_alg resp fed) (\<lambda>(fed, downloaded_file_size, traffic).
               let file_size = downloaded_file_size + (if resumed then resume_from else 0)
               in then_io (check_file e kw digest fed file_size)
                   (ret \<lparr> retry_count = rs_retries resp, download_size = file_size, traffic_on_wire = traffic \<rparr>)))))"

text \<open>\<^verbatim>\<open>Downloader.download\<close> without its decorator. What is decompressed as it arrives is not resumed.\<close>

definition download_once :: "dl_env \<Rightarrow> downloader_conf \<Rightarrow> string \<Rightarrow> string \<Rightarrow> dl_kwargs \<Rightarrow> download_result dl_io" where
  "download_once e d url dst kw =
     (let prepared_url = (if force_http d then with_http_scheme url else url);
          resume_from = (if truthy (opt_val (kw_compression_alg kw)) then 0 else kw_resume_from kw)
      in bind_io (prepare_resume d dst resume_from (prepared_headers d kw)) (\<lambda>(fed, hs).
         bind_io (session_get e prepared_url hs) (\<lambda>resp.
         then_io (raise_for_status resp) (save_response e dst kw resume_from fed resp))))"

text \<open>
  \<^verbatim>\<open>retry_on_digest_mismatch\<close>: one more time, asking the proxy to cache the file again; a download cut short is continued,
  bytes that hashed wrong are not built on.
\<close>

definition download :: "dl_env \<Rightarrow> downloader_conf \<Rightarrow> string \<Rightarrow> string \<Rightarrow> dl_kwargs \<Rightarrow> download_result dl_io" where
  "download e d url dst kw =
     catch_io (download_once e d url dst kw) (\<lambda>x.
       if x \<in> {PartialDownload, HashVerificationError, BrokenDecompressionError}
       then let kw' = inject_cache_retry_directory kw in
            (\<lambda>s. download_once e d url dst
                   (kw'\<lparr>kw_resume_from := (if x = PartialDownload then resumable_part s dst kw' else 0)\<rparr>) s)
       else throw x)"

section \<open>What a download leaves on disk\<close>

lemma file_at_put [simp]: "file_at (put_file p c s) q = (if q = p then c else file_at s q)"
  by (simp add: file_at_def put_file_def)

lemma put_file_simps [simp]:
  "ds_requests (put_file p c s) = ds_requests s" "ds_downloaded_bytes (put_file p c s) = ds_downloaded_bytes s"
  "ds_files (put_file p c s) = (ds_files s)(p \<mapsto> c)"
  by (simp_all add: put_file_def)

lemma write_chunk_returns [io_returns]:
  "write_chunk e dst c s = (Inr u, s') \<longleftrightarrow>
     de_write_fails e dst (length (file_at s dst)) = None \<and> s' = put_file dst (file_at s dst @ c) s"
  by (auto simp: write_chunk_def Let_def split: option.splits)

lemma count_bytes_returns [io_returns]:
  "count_bytes n s = (Inr u, s') \<longleftrightarrow> s' = s\<lparr>ds_downloaded_bytes := ds_downloaded_bytes s + n\<rparr>"
  by (auto simp: count_bytes_def)

lemma lift_sum_returns [io_returns]: "lift_sum r s = (Inr a, s') \<longleftrightarrow> r = Inr a \<and> s' = s"
  by (cases r) (auto simp: lift_sum_def)

text \<open>
  Both loops append the same bytes to the file and to the digest object, count them, and touch no other file.
\<close>

definition saved :: "string \<Rightarrow> progress \<Rightarrow> dl_state \<Rightarrow> progress \<Rightarrow> dl_state \<Rightarrow> bytes \<Rightarrow> bool" where
  "saved dst pr s pr' s' new \<longleftrightarrow>
     fst pr' = fst pr @ new \<and> fst (snd pr') = fst (snd pr) + length new \<and> file_at s' dst = file_at s dst @ new
   \<and> ds_downloaded_bytes s' - ds_downloaded_bytes s = snd (snd pr') - snd (snd pr)
   \<and> ds_requests s' = ds_requests s \<and> (\<forall>p. p \<noteq> dst \<longrightarrow> ds_files s' p = ds_files s p)
   \<and> (ds_files s dst \<noteq> None \<longrightarrow> ds_files s' dst \<noteq> None)"

lemma saved_Nil [simp]: "saved dst pr s pr s []"
  by (simp add: saved_def)

lemma saved_Cons:
  assumes "saved dst (fed @ c, sz + length c, t') (put_file dst (file_at s dst @ c) s\<lparr>ds_downloaded_bytes := ds_downloaded_bytes s + (t' - t)\<rparr>) pr' s' new"
  shows "saved dst (fed, sz, t) s pr' s' (c @ new)"
  using assms by (auto simp: saved_def file_at_def put_file_def)

lemma save_plain_saved:
  "save_plain e dst cs fin pr s = (Inr pr', s') \<Longrightarrow> saved dst pr s pr' s' (concat cs)"
proof (induction e dst cs fin pr arbitrary: s rule: save_plain.induct)
  case (1 e dst fin pr)
  then show ?case by (auto split: option.splits)
next
  case (2 e dst c cs fin fed sz t)
  from 2(2) have "save_plain e dst cs fin (fed @ c, sz + length c, t + int (length c))
      (put_file dst (file_at s dst @ c) s\<lparr>ds_downloaded_bytes := ds_downloaded_bytes s + int (length c)\<rparr>) = (Inr pr', s')"
    by (auto simp: io_returns)
  then have "saved dst (fed @ c, sz + length c, t + int (length c)) (put_file dst (file_at s dst @ c) s
      \<lparr>ds_downloaded_bytes := ds_downloaded_bytes s + (t + int (length c) - t)\<rparr>) pr' s' (concat cs)"
    using 2(1) by simp
  from saved_Cons [OF this] show ?case by simp
qed

lemma save_zstd_saved:
  "save_zstd e dst cs fin pr s = (Inr pr', s') \<Longrightarrow> saved dst pr s pr' s' (concat (map fst cs))"
proof (induction e dst cs fin pr arbitrary: s rule: save_zstd.induct)
  case (1 e dst fin pr)
  then show ?case by (auto split: option.splits)
next
  case (2 e dst c pos cs fin fed sz t)
  from 2(2) have "save_zstd e dst cs fin (fed @ c, sz + length c, pos)
      (put_file dst (file_at s dst @ c) s\<lparr>ds_downloaded_bytes := ds_downloaded_bytes s + (pos - t)\<rparr>) = (Inr pr', s')"
    by (auto simp: io_returns)
  from saved_Cons [OF 2(1) [OF this]] show ?case by simp
qed

lemma save_body_saved:
  "save_body e dst alg resp fed s = (Inr pr', s') \<Longrightarrow> \<exists>new. saved dst (fed, 0, 0) s pr' s' new"
  by (auto simp: save_body_def split: if_splits dest: save_plain_saved save_zstd_saved)

definition effective_resume :: "dl_kwargs \<Rightarrow> nat" where
  "effective_resume kw = (if truthy (opt_val (kw_compression_alg kw)) then 0 else kw_resume_from kw)"

lemma prepare_resume_returns:
  "prepare_resume d dst n hs s = (Inr (fed, h), s1) \<Longrightarrow>
     s1 = s \<and> fed = take n (file_at s dst) \<and> n \<le> length (file_at s dst) \<and> (n \<noteq> 0 \<longrightarrow> ds_files s dst \<noteq> None)"
  by (auto simp: prepare_resume_def open_read_def file_at_def hash_existing_eq io_returns
      split: if_splits option.splits)

lemma open_dst_returns:
  "open_dst e dst keep s = (Inr u, s') \<Longrightarrow>
     s' = put_file dst (case keep of None \<Rightarrow> [] | Some n \<Rightarrow> take n (file_at s dst)) s"
  by (auto simp: open_dst_def file_at_def split: if_splits option.splits)

lemma check_policy_digest:
  "check_cache_policy_in_resp alg digest hs = Inr (digest', alg') \<Longrightarrow> digest' = digest"
  by (auto simp: check_cache_policy_in_resp_def Let_def split: option.splits if_splits)

lemma session_get_returns [io_returns]:
  "session_get e url hs s = (Inr resp, s') \<longleftrightarrow>
     de_get e (length (ds_requests s)) url hs = Inr resp \<and> s' = s\<lparr>ds_requests := ds_requests s @ [(url, hs)]\<rparr>"
  by (auto simp: session_get_def)

lemma raise_for_status_returns [io_returns]:
  "raise_for_status resp s = (Inr u, s') \<longleftrightarrow> \<not> (400 \<le> status_code resp \<and> status_code resp < 600) \<and> s' = s"
  by (auto simp: raise_for_status_def)

lemma check_file_returns [io_returns]:
  "check_file e kw digest fed n s = (Inr u, s') \<longleftrightarrow> s' = s
     \<and> (kw_size kw \<in> {None, Some 0, Some n}) \<and> (truthy (opt_val digest) \<longrightarrow> digest = Some (de_sha e fed))"
  by (auto simp: check_file_def)

definition file_good :: "dl_env \<Rightarrow> dl_kwargs \<Rightarrow> bytes \<Rightarrow> bool" where
  "file_good e kw content \<longleftrightarrow> kw_size kw \<in> {None, Some 0, Some (length content)}
     \<and> kw_digest kw \<in> {None, Some [], Some (de_sha e content)}"

lemma truthy_opt_val: "truthy (opt_val x) \<longleftrightarrow> x \<noteq> None \<and> x \<noteq> Some []"
  by (cases x; cases "the x") (auto simp: opt_val_def)

definition sent_url :: "downloader_conf \<Rightarrow> string \<Rightarrow> string" where
  "sent_url d url = (if force_http d then with_http_scheme url else url)"

lemma download_once_alt:
  "download_once e d url dst kw =
     bind_io (prepare_resume d dst (effective_resume kw) (prepared_headers d kw)) (\<lambda>(fed, hs).
       bind_io (session_get e (sent_url d url) hs) (\<lambda>resp.
         then_io (raise_for_status resp) (save_response e dst kw (effective_resume kw) fed resp)))"
  unfolding download_once_def effective_resume_def sent_url_def Let_def by (rule refl)

lemma save_response_good:
  assumes "save_response e dst kw n fed resp s = (Inr r, s')"
    and "fed = take n (file_at s dst)" and "n \<le> length (file_at s dst)"
  shows "\<exists>content. ds_files s' dst = Some content \<and> download_size r = length content \<and> file_good e kw content
    \<and> (\<forall>p. p \<noteq> dst \<longrightarrow> ds_files s' p = ds_files s p) \<and> ds_requests s' = ds_requests s
    \<and> traffic_on_wire r = ds_downloaded_bytes s' - ds_downloaded_bytes s"
proof -
  define resumed where "resumed = (n > 0 \<and> range_honoured resp n)"
  define part where "part = (if resumed then take n (file_at s dst) else [])"
  have fed: "(if resumed then fed else []) = part" using assms(2) by (simp add: part_def)
  obtain s1 alg digest fed' sz t where o: "open_dst e dst (if resumed then Some n else None) s = (Inr (), s1)"
    and c: "check_cache_policy_in_resp (opt_val (kw_compression_alg kw)) (kw_digest kw) (rs_headers resp) = Inr (digest, alg)"
    and b: "save_body e dst alg resp part s1 = (Inr (fed', sz, t), s')"
    and f: "check_file e kw digest fed' (sz + (if resumed then n else 0)) s' = (Inr (), s')"
    and r: "r = \<lparr> retry_count = rs_retries resp, download_size = sz + (if resumed then n else 0), traffic_on_wire = t \<rparr>"
    using assms(1) unfolding save_response_def Let_def resumed_def [symmetric] fed then_returns bind_returns lift_sum_returns
    by (clarsimp simp: then_returns bind_returns lift_sum_returns check_file_returns)
  have s1: "s1 = put_file dst part s"
    using open_dst_returns [OF o] by (auto simp: part_def)
  obtain new where n: "saved dst (part, 0, 0) s1 (fed', sz, t) s' new" using save_body_saved [OF b] by auto
  have content: "ds_files s' dst = Some (part @ new)"
    using n by (auto simp: saved_def s1 file_at_def split: option.splits)
  have len: "sz + (if resumed then n else 0) = length (part @ new)" and fed': "fed' = part @ new"
    using n assms(3) by (auto simp: saved_def part_def)
  have "file_good e kw (part @ new)"
    using f check_policy_digest [OF c] unfolding len fed' by (auto simp: check_file_returns file_good_def truthy_opt_val)
  then show ?thesis
    using content n len r by (auto simp: saved_def s1)
qed

lemma download_once_good:
  assumes "download_once e d url dst kw s = (Inr r, s')"
  shows "\<exists>content. ds_files s' dst = Some content \<and> download_size r = length content \<and> file_good e kw content
    \<and> (\<forall>p. p \<noteq> dst \<longrightarrow> ds_files s' p = ds_files s p) \<and> length (ds_requests s') = Suc (length (ds_requests s))
    \<and> traffic_on_wire r = ds_downloaded_bytes s' - ds_downloaded_bytes s"
proof -
  obtain fed hs s1 resp s2 where p: "prepare_resume d dst (effective_resume kw) (prepared_headers d kw) s = (Inr (fed, hs), s1)"
    and s2: "s2 = s1\<lparr>ds_requests := ds_requests s1 @ [(sent_url d url, hs)]\<rparr>"
    and r: "save_response e dst kw (effective_resume kw) fed resp s2 = (Inr r, s')"
    using assms unfolding download_once_alt
    by (auto simp: bind_returns then_returns session_get_returns raise_for_status_returns split: prod.splits)
  note p = prepare_resume_returns [OF p]
  have "file_at s2 dst = file_at s dst" using p s2 by (simp add: file_at_def)
  with save_response_good [OF r] p s2 show ?thesis by auto
qed

text \<open>A download, also one that fails, writes to its destination only and makes at most one request.\<close>

definition only_dst :: "string \<Rightarrow> (string \<Rightarrow> bytes option) \<Rightarrow> (string \<times> headers) list \<Rightarrow> dl_state \<Rightarrow> bool" where
  "only_dst dst f rq s \<longleftrightarrow> (\<forall>p. p \<noteq> dst \<longrightarrow> ds_files s p = f p) \<and> ds_requests s = rq"

lemma only_dst_put [simp]: "only_dst dst f rq (put_file dst c s) = only_dst dst f rq s"
  by (auto simp: only_dst_def)

lemma keeps_write [keeps_intros]: "keeps (only_dst dst f rq) (write_chunk e dst c)"
  by (auto simp: keeps_def write_chunk_def Let_def split: option.splits)

lemma keeps_count [keeps_intros]: "keeps (only_dst dst f rq) (count_bytes n)"
  by (auto simp: keeps_def count_bytes_def only_dst_def)

lemma keeps_lift_sum [keeps_intros]: "keeps P (lift_sum r)"
  by (auto simp: keeps_def lift_sum_def split: sum.splits)

lemma keeps_save_plain [keeps_intros]: "keeps (only_dst dst f rq) (save_plain e dst cs fin pr)"
  by (induction e dst cs fin pr rule: save_plain.induct) (auto intro!: keeps_intros split: option.splits)

lemma keeps_save_zstd [keeps_intros]: "keeps (only_dst dst f rq) (save_zstd e dst cs fin pr)"
  by (induction e dst cs fin pr rule: save_zstd.induct) (auto intro!: keeps_intros split: option.splits)

lemma keeps_open_dst [keeps_intros]: "keeps (only_dst dst f rq) (open_dst e dst keep)"
  by (auto simp: keeps_def open_dst_def split: option.splits)

lemma keeps_check_file [keeps_intros]: "keeps P (check_file e kw digest fed n)"
  by (auto simp: check_file_def intro!: keeps_intros)

lemma keeps_save_response [keeps_intros]: "keeps (only_dst dst f rq) (save_response e dst kw n fed resp)"
  by (auto simp: save_response_def save_body_def Let_def intro!: keeps_intros split: prod.splits)

lemma prepare_resume_same: "snd (prepare_resume d dst n hs s) = s"
  by (simp add: prepare_resume_def bind_io_def open_read_def lift_sum_def split: option.splits sum.splits)

lemma download_once_frame:
  assumes "download_once e d url dst kw s = (r, s')"
  shows "(\<forall>p. p \<noteq> dst \<longrightarrow> ds_files s' p = ds_files s p) \<and> (\<exists>rq. ds_requests s' = ds_requests s @ rq \<and> length rq \<le> 1)"
proof (cases "prepare_resume d dst (effective_resume kw) (prepared_headers d kw) s")
  case (Pair x s1)
  then have s1: "s1 = s" using prepare_resume_same by (metis snd_conv)
  show ?thesis
  proof (cases x)
    case (Inl ex)
    then have "s' = s" using assms Pair s1 by (simp add: download_once_alt)
    then show ?thesis by simp
  next
    case (Inr y)
    obtain fed hs where y: "y = (fed, hs)" by (cases y)
    let ?s2 = "s\<lparr>ds_requests := ds_requests s @ [(sent_url d url, hs)]\<rparr>"
    let ?P = "only_dst dst (ds_files s) (ds_requests s @ [(sent_url d url, hs)])"
    have keep: "keeps ?P (then_io (raise_for_status resp) (save_response e dst kw (effective_resume kw) fed resp))" for resp
      by (auto simp: raise_for_status_def intro!: keeps_intros)
    have "?P ?s2" by (simp add: only_dst_def)
    have "?P s'"
    proof (cases "de_get e (length (ds_requests s)) (sent_url d url) hs")
      case (Inl ex)
      then have "s' = ?s2" using assms Pair s1 \<open>x = Inr y\<close> y by (simp add: download_once_alt session_get_def)
      then show ?thesis using \<open>?P ?s2\<close> by simp
    next
      case (Inr resp)
      then have "s' = snd (then_io (raise_for_status resp) (save_response e dst kw (effective_resume kw) fed resp) ?s2)"
        using assms Pair s1 \<open>x = Inr y\<close> y by (simp add: download_once_alt session_get_def)
      then show ?thesis using keepsD [OF keep \<open>?P ?s2\<close>] by simp
    qed
    then show ?thesis by (simp add: only_dst_def)
  qed
qed

lemma inject_retry_keeps [simp]:
  "kw_size (inject_cache_retry_directory kw) = kw_size kw" "kw_digest (inject_cache_retry_directory kw) = kw_digest kw"
  "kw_compression_alg (inject_cache_retry_directory kw) = kw_compression_alg kw"
  by (simp_all add: inject_cache_retry_directory_def Let_def)

text \<open>A download that returns did so at once or on its second try, after one of the three errors.\<close>

lemma download_returns:
  assumes "download e d url dst kw s = (Inr r, s')"
  obtains "download_once e d url dst kw s = (Inr r, s')"
  | x s1 n where "download_once e d url dst kw s = (Inl x, s1)"
      "download_once e d url dst ((inject_cache_retry_directory kw)\<lparr>kw_resume_from := n\<rparr>) s1 = (Inr r, s')"
  using assms by (auto simp: download_def catch_returns throw_returns Let_def split: if_splits)

text \<open>
  C17: Whatever the server, the proxy and the part on disk are like, a download that returns has left the file: its
  size is the expected one and its digest is the expected one, when they are given, and the reported size is the
  size on disk. Other files are untouched, and at most two requests were made.
\<close>

theorem returned_download_is_verified:
  assumes "download e d url dst kw s = (Inr r, s')"
  shows "\<exists>content. ds_files s' dst = Some content \<and> download_size r = length content
    \<and> kw_size kw \<in> {None, Some 0, Some (length content)} \<and> kw_digest kw \<in> {None, Some [], Some (de_sha e content)}
    \<and> (\<forall>p. p \<noteq> dst \<longrightarrow> ds_files s' p = ds_files s p) \<and> length (ds_requests s') \<le> length (ds_requests s) + 2"
  using assms
proof (cases rule: download_returns)
  case 1
  from download_once_good [OF this] show ?thesis by (auto simp: file_good_def)
next
  case (2 x s1 n)
  from download_once_good [OF 2(2)] download_once_frame [OF 2(1)] show ?thesis
    by (auto simp: file_good_def)
qed

section \<open>A download that is cut short\<close>

lemma put_file_same [simp]: "ds_files s p = Some c \<Longrightarrow> put_file p c s = s"
  by (simp add: put_file_def fun_upd_idem)

abbreviation writable :: "dl_env \<Rightarrow> string \<Rightarrow> bool" where
  "writable e dst \<equiv> \<not> de_open_fails e dst \<and> (\<forall>n. de_write_fails e dst n = None)"

lemma save_plain_ok:
  assumes "\<forall>n. de_write_fails e dst n = None" and "ds_files s dst = Some c"
  shows "save_plain e dst cs None (fed, sz, t) s =
    (Inr (fed @ concat cs, sz + length (concat cs), t + int (length (concat cs))),
     (put_file dst (c @ concat cs) s)\<lparr>ds_downloaded_bytes := ds_downloaded_bytes s + int (length (concat cs))\<rparr>)"
  using assms(2)
proof (induction cs arbitrary: c fed sz t s)
  case (Cons x cs)
  let ?s = "(put_file dst (c @ x) s)\<lparr>ds_downloaded_bytes := ds_downloaded_bytes s + int (length x)\<rparr>"
  have w: "write_chunk e dst x s = (Inr (), put_file dst (c @ x) s)"
    using assms(1) Cons.prems by (simp add: write_chunk_def file_at_def)
  have "save_plain e dst (x # cs) None (fed, sz, t) s
      = save_plain e dst cs None (fed @ x, sz + length x, t + int (length x)) ?s"
    by (simp add: w count_bytes_def then_io_def bind_io_def)
  also have "\<dots> = (Inr ((fed @ x) @ concat cs, sz + length x + length (concat cs), t + int (length x) + int (length (concat cs))),
     (put_file dst ((c @ x) @ concat cs) ?s)\<lparr>ds_downloaded_bytes := ds_downloaded_bytes ?s + int (length (concat cs))\<rparr>)"
    by (rule Cons.IH) simp
  finally show ?case by (simp add: put_file_def)
qed simp

text \<open>What the part behind the status check does with an uncompressed response on a disk that takes it.\<close>

lemma save_response_plain:
  assumes "writable e dst" and "rs_end resp = None"
    and "check_cache_policy_in_resp (opt_val (kw_compression_alg kw)) (kw_digest kw) (rs_headers resp) = Inr (kw_digest kw, alg)"
    and "\<not> get_decompressor alg"
    and "part = (if n > 0 \<and> range_honoured resp n then take n c else [])"
    and "n > 0 \<Longrightarrow> ds_files s dst = Some c \<and> n \<le> length c \<and> fed = take n c"
    and "content = part @ concat (rs_chunks resp)"
    and "s' = (put_file dst content s)\<lparr>ds_downloaded_bytes := ds_downloaded_bytes s + int (length (concat (rs_chunks resp)))\<rparr>"
  shows "save_response e dst kw n fed resp s =
    (if kw_size kw \<notin> {None, Some 0, Some (length content)} then (Inl PartialDownload, s')
     else if kw_digest kw \<notin> {None, Some [], Some (de_sha e content)} then (Inl HashVerificationError, s')
     else (Inr \<lparr> retry_count = rs_retries resp, download_size = length content,
                 traffic_on_wire = int (length (concat (rs_chunks resp))) \<rparr>, s'))"
proof -
  define resumed where "resumed = (n > 0 \<and> range_honoured resp n)"
  have part: "part = (if resumed then take n c else [])" "(if resumed then fed else []) = part"
    using assms(5,6) by (auto simp: resumed_def)
  obtain m keep where m: "m = (if resumed then n else 0)" and keep: "keep = (if resumed then Some n else None)" by blast
  have o: "open_dst e dst keep s = (Inr (), put_file dst part s)"
    using assms(1,5,6) part by (auto simp: open_dst_def resumed_def keep)
  have b: "save_body e dst alg resp part (put_file dst part s)
      = (Inr (content, length (concat (rs_chunks resp)), int (length (concat (rs_chunks resp)))), s')"
    using assms(1,2,4) by (simp add: save_body_def save_plain_ok [of e dst _ part] assms(7,8))
  have len: "length (concat (rs_chunks resp)) + m = length content"
    using assms(6,7) part by (auto simp: resumed_def m)
  have "save_response e dst kw n fed resp s = then_io (check_file e kw (kw_digest kw) content (length content))
      (ret \<lparr> retry_count = rs_retries resp, download_size = length content,
             traffic_on_wire = int (length (concat (rs_chunks resp))) \<rparr>) s'"
    unfolding save_response_def Let_def resumed_def [symmetric] part(2) m [symmetric] keep [symmetric]
    by (simp add: then_io_def bind_io_def o assms(3) lift_sum_def b len split: prod.split sum.split)
  then show ?thesis by (auto simp: check_file_def then_io_def bind_io_def truthy_opt_val)
qed

text \<open>The range the client asks for is the one the proxy reads, and the proxy's answer is the one the client accepts.\<close>

lemma range_start_sent: "range_start (''bytes='' @ nat_str n @ ''-'') = Some n"
proof -
  have d: "nat_str n \<noteq> []" "list_all is_digit (nat_str n)" using nat_str_digits by auto
  have "stripped (''bytes='' @ nat_str n @ ''-'')" by (simp add: stripped_def py_isspace_def)
  then show ?thesis using d nat_of_nat_str [of n] by (cases "nat_str n")
    (auto simp: range_start_def strip_stripped Let_def startswith_def butlast_append nat_of_nat_str simp flip: append.simps(2))
qed

lemma range_honoured_answer:
  assumes "status_code resp = 206" and "ci_get (rs_headers resp) DL_HEADER_CONTENT_RANGE = Some (content_range m n)"
  shows "range_honoured resp k \<longleftrightarrow> m = k"
proof -
  have d: "CHR ''-'' \<notin> set (nat_str m)" using nat_str_digits digits_no_mark by blast
  have "partition_on (CHR '' '') (content_range m n) = (''bytes'', nat_str m @ ''-'' @ nat_str (n - 1) @ ''/'' @ nat_str n)"
    using partition_on_pair [of "CHR '' ''" "''bytes''"] by (simp add: content_range_def)
  then show ?thesis using assms d
    by (simp add: range_honoured_def split_once_pair str_lower_def lower_ascii_def)
qed

lemma download_once_run:
  assumes "prepare_resume d dst (effective_resume kw) (prepared_headers d kw) s = (Inr (fed, hs), s)"
    and "de_get e (length (ds_requests s)) (sent_url d url) hs = Inr resp" and "status_code resp < 400"
  shows "download_once e d url dst kw s = save_response e dst kw (effective_resume kw) fed resp
    (s\<lparr>ds_requests := ds_requests s @ [(sent_url d url, hs)]\<rparr>)"
  using assms by (simp add: download_once_alt session_get_def raise_for_status_def)

text \<open>
  A response that is uncompressed, ends properly and does not contradict the expected digest; and a server that answers
  its \<open>i\<close>-th request for a range with the rest of the file, the way \<open>ranged_response_is_the_rest\<close> has it for the proxy.
\<close>

definition accepted :: "string option \<Rightarrow> dl_response \<Rightarrow> bool" where
  "accepted digest resp \<longleftrightarrow> rs_end resp = None \<and>
     (case check_cache_policy_in_resp V_None digest (rs_headers resp) of
        Inr (_, alg) \<Rightarrow> \<not> get_decompressor alg | Inl _ \<Rightarrow> False)"

definition serves_rest :: "dl_env \<Rightarrow> nat \<Rightarrow> string \<Rightarrow> string option \<Rightarrow> bytes \<Rightarrow> bool" where
  "serves_rest e i url digest content \<longleftrightarrow> (\<forall>hs rg n. ci_get hs DL_HEADER_RANGE = Some rg \<and> range_start rg = Some n \<and> n < length content
     \<longrightarrow> (\<exists>resp. de_get e i url hs = Inr resp \<and> status_code resp = 206 \<and> accepted digest resp
            \<and> ci_get (rs_headers resp) DL_HEADER_CONTENT_RANGE = Some (content_range n (length content))
            \<and> concat (rs_chunks resp) = drop n content))"

lemma acceptedD:
  assumes "accepted digest resp"
  obtains alg where "rs_end resp = None" "\<not> get_decompressor alg"
    "check_cache_policy_in_resp V_None digest (rs_headers resp) = Inr (digest, alg)"
  using assms check_policy_digest [of V_None digest "rs_headers resp"]
  by (fastforce simp: accepted_def split: sum.splits prod.splits)

lemma first_try_cut:
  assumes "writable e dst" and "kw_compression_alg kw = None" and "kw_resume_from kw = 0"
    and "kw_size kw = Some (length content)" and "concat (rs_chunks resp) = take k content" and "0 < k" "k < length content"
    and "\<And>hs. de_get e (length (ds_requests s)) (sent_url d url) hs = Inr resp"
    and "status_code resp < 400" and "accepted (kw_digest kw) resp"
  shows "\<exists>hs. download_once e d url dst kw s = (Inl PartialDownload,
    (put_file dst (take k content) s)\<lparr>ds_downloaded_bytes := ds_downloaded_bytes s + int k,
       ds_requests := ds_requests s @ [(sent_url d url, hs)]\<rparr>)"
proof -
  obtain alg where alg: "rs_end resp = None" "\<not> get_decompressor alg"
    "check_cache_policy_in_resp V_None (kw_digest kw) (rs_headers resp) = Inr (kw_digest kw, alg)"
    using acceptedD [OF assms(10)] .
  have eff: "effective_resume kw = 0" using assms(3) by (simp add: effective_resume_def)
  obtain hs where p: "prepare_resume d dst (effective_resume kw) (prepared_headers d kw) s = (Inr ([], hs), s)"
    by (simp add: eff prepare_resume_def)
  let ?s = "s\<lparr>ds_requests := ds_requests s @ [(sent_url d url, hs)]\<rparr>"
  have "download_once e d url dst kw s = save_response e dst kw 0 [] resp ?s"
    using download_once_run [OF p assms(8,9)] eff by simp
  also have "\<dots> = (Inl PartialDownload, (put_file dst (take k content) ?s)\<lparr>ds_downloaded_bytes := ds_downloaded_bytes ?s
      + int (length (concat (rs_chunks resp)))\<rparr>)"
    by (subst save_response_plain [OF assms(1) alg(1) _ alg(2) refl _ refl refl])
      (use assms alg(3) in \<open>auto simp: opt_val_def\<close>)
  finally show ?thesis using assms(5,7) by (intro exI [of _ hs]) (simp add: put_file_def)
qed

lemma second_try_continues:
  assumes "writable e dst" and "kw_compression_alg kw = None" and "kw_resume_from kw = k" and "chunk_size d \<noteq> 0"
    and "kw_size kw = Some (length content)" and "kw_digest kw \<in> {None, Some (de_sha e content)}" and "0 < k" "k < length content"
    and "ds_files s dst = Some (take k content)"
    and "serves_rest e (length (ds_requests s)) (sent_url d url) (kw_digest kw) content"
  shows "\<exists>r hs. download_once e d url dst kw s = (Inr r,
      (put_file dst content s)\<lparr>ds_downloaded_bytes := ds_downloaded_bytes s + int (length content - k),
         ds_requests := ds_requests s @ [(sent_url d url, hs)]\<rparr>)
    \<and> download_size r = length content \<and> ci_get hs DL_HEADER_RANGE = Some (''bytes='' @ nat_str k @ ''-'')"
proof -
  have eff: "effective_resume kw = k" using assms(2,3) by (simp add: effective_resume_def opt_val_def)
  define hs where "hs = ci_set DL_HEADER_RANGE (''bytes='' @ nat_str k @ ''-'')
    (ci_dict (case prepared_headers d kw of Some h \<Rightarrow> h | None \<Rightarrow> []))"
  have rg: "ci_get hs DL_HEADER_RANGE = Some (''bytes='' @ nat_str k @ ''-'')" by (simp add: hs_def)
  have p: "prepare_resume d dst (effective_resume kw) (prepared_headers d kw) s = (Inr (take k content, hs), s)"
    using assms(4,7,8,9) by (simp add: eff prepare_resume_def open_read_def hash_existing_eq lift_sum_def hs_def)
  obtain resp where resp: "de_get e (length (ds_requests s)) (sent_url d url) hs = Inr resp" "status_code resp = 206"
      "accepted (kw_digest kw) resp"
      "ci_get (rs_headers resp) DL_HEADER_CONTENT_RANGE = Some (content_range k (length content))"
      "concat (rs_chunks resp) = drop k content"
    using assms(8,10) rg range_start_sent unfolding serves_rest_def by blast
  obtain alg where alg: "rs_end resp = None" "\<not> get_decompressor alg"
    "check_cache_policy_in_resp V_None (kw_digest kw) (rs_headers resp) = Inr (kw_digest kw, alg)"
    using acceptedD [OF resp(3)] .
  have hon: "range_honoured resp k" using range_honoured_answer [OF resp(2,4)] by simp
  let ?s = "s\<lparr>ds_requests := ds_requests s @ [(sent_url d url, hs)]\<rparr>"
  have "download_once e d url dst kw s = save_response e dst kw k (take k content) resp ?s"
    using download_once_run [OF p resp(1)] eff resp(2) by simp
  also have "\<dots> = (Inr \<lparr> retry_count = rs_retries resp, download_size = length content,
       traffic_on_wire = int (length content - k) \<rparr>, (put_file dst content ?s)\<lparr>ds_downloaded_bytes := ds_downloaded_bytes ?s
      + int (length content - k)\<rparr>)"
    by (subst save_response_plain [OF assms(1) alg(1) _ alg(2) refl _ refl refl, where c = "take k content"])
      (use assms alg(3) hon resp(5) in \<open>auto simp: opt_val_def\<close>)
  finally show ?thesis using rg
    by (intro exI [of _ "\<lparr> retry_count = rs_retries resp, download_size = length content,
          traffic_on_wire = int (length content - k) \<rparr>"] exI [of _ hs]) (simp add: put_file_def)
qed

lemma cut_download_run:
  assumes "writable e dst" "dst \<noteq> []" "chunk_size d \<noteq> 0"
    and "kw_compression_alg kw = None" "kw_resume_from kw = 0" "kw_size kw = Some (length content)"
    and "kw_digest kw \<in> {None, Some (de_sha e content)}"
    and "\<And>hs. de_get e (length (ds_requests s)) (sent_url d url) hs = Inr resp" "status_code resp < 400"
    and "accepted (kw_digest kw) resp" "concat (rs_chunks resp) = take k content" "0 < k" "k < length content"
    and "serves_rest e (Suc (length (ds_requests s))) (sent_url d url) (kw_digest kw) content"
  shows "\<exists>r s' hs1 hs2. download e d url dst kw s = (Inr r, s') \<and> ds_files s' dst = Some content \<and> download_size r = length content
    \<and> ds_requests s' = ds_requests s @ [(sent_url d url, hs1), (sent_url d url, hs2)]
    \<and> ci_get hs2 DL_HEADER_RANGE = Some (''bytes='' @ nat_str k @ ''-'')
    \<and> ds_downloaded_bytes s' = ds_downloaded_bytes s + int (length content)"
proof -
  obtain hs1 where first: "download_once e d url dst kw s = (Inl PartialDownload,
    (put_file dst (take k content) s)\<lparr>ds_downloaded_bytes := ds_downloaded_bytes s + int k,
       ds_requests := ds_requests s @ [(sent_url d url, hs1)]\<rparr>)"
    using first_try_cut [OF assms(1,4,5,6,11,12,13,8,9,10)] by blast
  define s1 where "s1 = (put_file dst (take k content) s)\<lparr>ds_downloaded_bytes := ds_downloaded_bytes s + int k,
       ds_requests := ds_requests s @ [(sent_url d url, hs1)]\<rparr>"
  let ?kw = "(inject_cache_retry_directory kw)\<lparr>kw_resume_from := k\<rparr>"
  have "resumable_part s1 dst (inject_cache_retry_directory kw) = k"
    using assms(2,4,6,12,13) by (auto simp: resumable_part_def resumable_bytes_def s1_def put_file_def opt_val_def)
  then have again: "download e d url dst kw s = download_once e d url dst ?kw s1"
    using first by (simp add: download_def s1_def Let_def)
  have "\<exists>r hs. download_once e d url dst ?kw s1 = (Inr r,
      (put_file dst content s1)\<lparr>ds_downloaded_bytes := ds_downloaded_bytes s1 + int (length content - k),
         ds_requests := ds_requests s1 @ [(sent_url d url, hs)]\<rparr>)
    \<and> download_size r = length content \<and> ci_get hs DL_HEADER_RANGE = Some (''bytes='' @ nat_str k @ ''-'')"
    by (rule second_try_continues [OF assms(1) _ _ assms(3) _ _ assms(12,13)])
      (use assms in \<open>auto simp: s1_def put_file_def\<close>)
  then show ?thesis using again assms(13) by (fastforce simp: s1_def)
qed


text \<open>A server that cuts its first response and answers ranges: the sample runs of the two properties.\<close>

definition sample_dl_env :: dl_env where
  "sample_dl_env = \<lparr>
     de_get = (\<lambda>i url hs. if i = 0 then Inr \<lparr> status_code = 200, rs_headers = [], rs_retries = 0, rs_chunks = [''ab'', ''c''], rs_end = None \<rparr>
       else let n = (case ci_get hs DL_HEADER_RANGE of Some rg \<Rightarrow> the (range_start rg) | None \<Rightarrow> 0)
            in Inr \<lparr> status_code = 206, rs_headers = [(''content-range'', content_range n (length ''abcdef''))], rs_retries = 0,
                      rs_chunks = [drop n ''abcdef''], rs_end = None \<rparr>),
     de_zstd = (\<lambda>_. ([], Z_End)), de_sha = (\<lambda>b. b), de_open_fails = (\<lambda>_. False), de_write_fails = (\<lambda>_ _. None) \<rparr>"

definition sample_dl_conf :: downloader_conf where
  "sample_dl_conf = \<lparr> chunk_size = 2, proxies = [], force_http = False \<rparr>"

definition sample_dl_kwargs :: dl_kwargs where
  "sample_dl_kwargs = \<lparr> kw_size = Some 6, kw_digest = Some ''abcdef'', kw_headers = None, kw_compression_alg = None, kw_resume_from = 0 \<rparr>"

definition sample_dl_state :: dl_state where
  "sample_dl_state = \<lparr> ds_files = (\<lambda>_. None), ds_downloaded_bytes = 0, ds_requests = [] \<rparr>"

lemma sample_serves_rest: "serves_rest sample_dl_env (Suc 0) u dg ''abcdef''"
proof -
  have "str_lower ''content-range'' = str_lower DL_HEADER_CONTENT_RANGE"
    by code_simp
  moreover have "str_lower ''content-range'' \<noteq> str_lower CACHE_CONTROL_HEADER"
    by code_simp
  ultimately show ?thesis
    by (auto simp: serves_rest_def sample_dl_env_def ci_get_def accepted_def check_cache_policy_in_resp_def get_decompressor_def)
qed

lemma sample_cut:
  "\<And>hs. de_get sample_dl_env (length (ds_requests sample_dl_state)) (sent_url sample_dl_conf ''http://h/f'') hs
     = Inr \<lparr> status_code = 200, rs_headers = [], rs_retries = 0, rs_chunks = [''ab'', ''c''], rs_end = None \<rparr>"
  "accepted dg \<lparr> status_code = 200, rs_headers = [], rs_retries = 0, rs_chunks = [''ab'', ''c''], rs_end = None \<rparr>"
  "writable sample_dl_env ''/d/f''" "chunk_size sample_dl_conf \<noteq> 0" "kw_compression_alg sample_dl_kwargs = None"
  "kw_resume_from sample_dl_kwargs = 0" "kw_size sample_dl_kwargs = Some (length ''abcdef'')"
  "kw_digest sample_dl_kwargs \<in> {None, Some (de_sha sample_dl_env ''abcdef'')}"
  "serves_rest sample_dl_env (Suc (length (ds_requests sample_dl_state))) u dg ''abcdef''"
  using sample_serves_rest
  by (simp_all add: sample_dl_env_def sample_dl_state_def sample_dl_conf_def sample_dl_kwargs_def accepted_def
      check_cache_policy_in_resp_def ci_get_def get_decompressor_def)


theorem returned_download_is_verified_witness:
  "\<exists>content s'. ds_files s' ''/d/f'' = Some content \<and> kw_digest sample_dl_kwargs \<in> {None, Some [], Some (de_sha sample_dl_env content)}
    \<and> s' = snd (download sample_dl_env sample_dl_conf ''http://h/f'' ''/d/f'' sample_dl_kwargs sample_dl_state)"
proof -
  obtain r s' where r: "download sample_dl_env sample_dl_conf ''http://h/f'' ''/d/f'' sample_dl_kwargs sample_dl_state = (Inr r, s')"
    using cut_download_run [OF sample_cut(3) _ sample_cut(4-8,1) _ sample_cut(2) _ _ _ sample_cut(9), of 3] by auto
  from returned_download_is_verified [OF r] show ?thesis using r by auto
qed

section \<open>What the proxy is told\<close>

lemma update_delete: "AList.update k v (AList.delete k d) = AList.delete k d @ [(k, v)]"
proof -
  have "k \<notin> fst ` set d \<Longrightarrow> AList.update k v d = d @ [(k, v)]" for d :: "('a \<times> 'b) list"
    by (induction d) auto
  moreover have "k \<notin> set (map fst (AList.delete k d))" by (simp add: delete_keys)
  ultimately show ?thesis by simp
qed

lemma ci_dict_snoc [simp]: "ci_dict (hs @ [(k, v)]) = ci_set k v (ci_dict hs)"
  by (simp add: ci_dict_def)

text \<open>
  The second try of a download tells an OTA proxy that its copy of the file is bad. Whatever headers the caller
  gave, the cache control header of the repeated request parses, on the proxy's side, to one with \<^verbatim>\<open>retry_caching\<close> set
  and with the digest of the file, provided that the digest and the name of the compression algorithm have no comma
  and no white space at their ends.
\<close>

lemma retry_asks_to_cache_again:
  assumes "kw_digest kw = Some dg" "dg \<noteq> []" "proxies d \<noteq> []"
    and "exportable (V_Str dg)" "exportable (opt_val (kw_compression_alg kw))"
  shows "\<exists>hs h. prepared_headers d (inject_cache_retry_directory kw) = Some hs \<and> ci_get hs CACHE_CONTROL_HEADER = Some h
    \<and> retry_caching (parse_header h) = V_True \<and> file_sha256 (parse_header h) = V_Str dg"
proof -
  let ?K = CACHE_CONTROL_HEADER
  obtain h0 p0 where kw': "kw_headers (inject_cache_retry_directory kw)
      = Some (AList.delete ?K h0 @ [(?K, update_header_str p0 [(''retry_caching'', V_True)])])"
    by (simp add: inject_cache_retry_directory_def Let_def update_delete)
  define p1 where "p1 = update_header_str p0 [(''retry_caching'', V_True)]"
  define kvs where "kvs = [(''file_sha256'', V_Str dg), (''file_compression_alg'', opt_val (kw_compression_alg kw))]"
  have r1: "map_of (parse_header_asdict p1) ''retry_caching'' = Some V_True"
    unfolding p1_def by (subst updated_header_lookup) (auto simp: dict_update_def VALID_DIRECTORIES_def)
  have look: "map_of (parse_header_asdict (update_header_str p1 kvs)) k =
    (if k \<notin> set VALID_DIRECTORIES then None
     else case map_of (dict_update (parse_header_asdict p1) kvs) k of
       None \<Rightarrow> None | Some v \<Rightarrow> if truthy v then Some v else None)" for k
    by (rule updated_header_lookup) (use assms(4,5) in \<open>auto simp: kvs_def\<close>)
  have "retry_caching (parse_header (update_header_str p1 kvs)) = V_True"
    "file_sha256 (parse_header (update_header_str p1 kvs)) = V_Str dg"
    using r1 assms(2) unfolding parse_header_control_of
    by (simp_all add: control_of_def get_or_def look VALID_DIRECTORIES_def) (simp_all add: kvs_def dict_update_def update_conv)
  moreover have "prepared_headers d (inject_cache_retry_directory kw) = Some (ci_set ?K (update_header_str p1 kvs)
      (ci_del ?K (ci_set ?K p1 (ci_dict (AList.delete ?K h0)))))"
    using assms(1-3) kw' by (simp add: prepared_headers_def truthy_opt_val inject_cache_control_header_in_req_def kvs_def p1_def)
  ultimately show ?thesis by simp
qed

end
