(* ===== verification/Downloader_Pool.thy ===== *)
theory Downloader_Pool
  imports Downloader
begin

text \<open>
  \<^verbatim>\<open>DownloaderPool\<close> (\<^verbatim>\<open>otaclient_common/downloader.py\<close>): the downloader instances of the worker threads, the total of their
  traffic and the watchdog over it. An instance is represented by its index and its \<^verbatim>\<open>downloaded_bytes\<close>; the calling
  thread is an argument, its native id. Every operation runs under the pool's lock, so a run of the pool is a sequence
  of operations; \<open>pool_op\<close> lists them and \<open>pool_step\<close> is one of them by some thread.
\<close>

section \<open>Operations\<close>

record downloader_pool =
  dp_instances :: "int list"
  dp_idx_thread_mapping :: "nat list"
  dp_thread_idx_mapping :: "(nat \<times> nat) list"
  dp_total_downloaded_bytes :: int

datatype pool_exc = PE_ValueError | PE_IndexError | PE_DownloadInactiveTimeout

type_synonym 'a pool_io = "(downloader_pool, pool_exc, 'a) io"

definition INSTANCE_AVAILABLE_ID :: nat where "INSTANCE_AVAILABLE_ID = 0"

definition pool_init :: "nat \<Rightarrow> downloader_pool" where
  "pool_init instance_num = \<lparr> dp_instances = replicate instance_num 0,
     dp_idx_thread_mapping = replicate instance_num INSTANCE_AVAILABLE_ID,
     dp_thread_idx_mapping = [], dp_total_downloaded_bytes = 0 \<rparr>"

text \<open>The property \<^verbatim>\<open>total_downloaded_bytes\<close>, which remembers the last sum that was not 0.\<close>

definition total_downloaded_bytes :: "int pool_io" where
  "total_downloaded_bytes = (\<lambda>p.
     let res = sum_list (dp_instances p);
         p = (if res \<noteq> 0 then p\<lparr>dp_total_downloaded_bytes := res\<rparr> else p)
     in (Inr (dp_total_downloaded_bytes p), p))"

record watchdog_ctx =
  wc_downloaded_bytes :: int
  wc_previous_active_timestamp :: int

text \<open>The watchdog, called with the time; it updates the context that its caller keeps.\<close>

definition downloading_watchdog :: "int \<Rightarrow> int \<Rightarrow> watchdog_ctx \<Rightarrow> watchdog_ctx pool_io" where
  "downloading_watchdog current_timestamp max_idle_timeout ctx =
     bind_io total_downloaded_bytes (\<lambda>downloaded_bytes.
       if downloaded_bytes > wc_downloaded_bytes ctx
       then ret \<lparr> wc_downloaded_bytes = downloaded_bytes, wc_previous_active_timestamp = current_timestamp \<rparr>
       else if current_timestamp - wc_previous_active_timestamp ctx > max_idle_timeout
       then throw PE_DownloadInactiveTimeout
       else ret ctx)"

fun first_available :: "nat \<Rightarrow> nat list \<Rightarrow> nat option" where
  "first_available idx [] = None"
| "first_available idx (t # ts) = (if t = INSTANCE_AVAILABLE_ID then Some idx else first_available (Suc idx) ts)"

text \<open>\<^verbatim>\<open>self._instances[idx]\<close>, the instance as its index.\<close>

definition instance_at :: "nat \<Rightarrow> nat pool_io" where
  "instance_at idx = (\<lambda>p. if idx < length (dp_instances p) then (Inr idx, p) else (Inl PE_IndexError, p))"

definition get_instance :: "nat \<Rightarrow> nat pool_io" where
  "get_instance native_thread_id = (\<lambda>p.
     case map_of (dp_thread_idx_mapping p) native_thread_id of
       Some idx \<Rightarrow> instance_at idx p
     | None \<Rightarrow> (case first_available 0 (dp_idx_thread_mapping p) of
           None \<Rightarrow> (Inl PE_ValueError, p)
         | Some idx \<Rightarrow> instance_at idx
             (p\<lparr>dp_idx_thread_mapping := (dp_idx_thread_mapping p)[idx := native_thread_id],
                dp_thread_idx_mapping := AList.update native_thread_id idx (dp_thread_idx_mapping p)\<rparr>)))"

definition release_instance :: "nat \<Rightarrow> unit pool_io" where
  "release_instance native_thread_id = (\<lambda>p.
     case map_of (dp_thread_idx_mapping p) native_thread_id of
       None \<Rightarrow> (Inr (), p)
     | Some idx \<Rightarrow> (Inr (), p\<lparr>dp_thread_idx_mapping := AList.delete native_thread_id (dp_thread_idx_mapping p),
           dp_idx_thread_mapping := (dp_idx_thread_mapping p)[idx := INSTANCE_AVAILABLE_ID]\<rparr>))"

definition release_all_instances :: "unit pool_io" where
  "release_all_instances = modify_io (\<lambda>p.
     p\<lparr>dp_idx_thread_mapping := replicate (length (dp_idx_thread_mapping p)) INSTANCE_AVAILABLE_ID,
       dp_thread_idx_mapping := []\<rparr>)"

definition pool_shutdown :: "unit pool_io" where
  "pool_shutdown = then_io total_downloaded_bytes (modify_io (\<lambda>p. p\<lparr>dp_instances := []\<rparr>))"

text \<open>A download by the instance \<open>idx\<close> adds to its traffic.\<close>

definition instance_downloads :: "nat \<Rightarrow> int \<Rightarrow> unit pool_io" where
  "instance_downloads idx n = modify_io (\<lambda>p. p\<lparr>dp_instances := (dp_instances p)[idx := dp_instances p ! idx + n]\<rparr>)"

section \<open>No instance is shared\<close>

text \<open>The two mappings are inverse to each other; this is what keeps the threads apart.\<close>

definition inverse_mappings :: "nat list \<Rightarrow> (nat \<Rightarrow> nat option) \<Rightarrow> bool" where
  "inverse_mappings ts m \<longleftrightarrow> (\<forall>t i. m t = Some i \<longleftrightarrow> t \<noteq> INSTANCE_AVAILABLE_ID \<and> i < length ts \<and> ts ! i = t)"

definition pool_inv :: "downloader_pool \<Rightarrow> bool" where
  "pool_inv p \<longleftrightarrow> inverse_mappings (dp_idx_thread_mapping p) (map_of (dp_thread_idx_mapping p))"

lemma inverse_mappingsD:
  "inverse_mappings ts m \<Longrightarrow> m t = Some i \<longleftrightarrow> t \<noteq> INSTANCE_AVAILABLE_ID \<and> i < length ts \<and> ts ! i = t"
  by (simp add: inverse_mappings_def)

lemma inverse_assign:
  assumes "inverse_mappings ts m" "m t = None" "t \<noteq> INSTANCE_AVAILABLE_ID" "i < length ts" "ts ! i = INSTANCE_AVAILABLE_ID"
  shows "inverse_mappings (ts[i := t]) (m(t \<mapsto> i))"
  unfolding inverse_mappings_def
proof (intro allI)
  fix t' j
  have "j < length ts \<Longrightarrow> ts ! j \<noteq> t"
    using inverse_mappingsD [OF assms(1), of t j] assms(2,3) by auto
  then show "(m(t \<mapsto> i)) t' = Some j \<longleftrightarrow> t' \<noteq> INSTANCE_AVAILABLE_ID \<and> j < length (ts[i := t]) \<and> ts[i := t] ! j = t'"
    using assms(3-5) by (auto simp: inverse_mappingsD [OF assms(1)] nth_list_update)
qed

lemma inverse_release:
  assumes "inverse_mappings ts m" "m t = Some i"
  shows "inverse_mappings (ts[i := INSTANCE_AVAILABLE_ID]) (m(t := None))"
  unfolding inverse_mappings_def
proof (intro allI)
  fix t' j
  have i: "t \<noteq> INSTANCE_AVAILABLE_ID" "i < length ts" "ts ! i = t" using inverse_mappingsD [OF assms(1)] assms(2) by auto
  have "j < length ts \<Longrightarrow> ts ! j = t \<Longrightarrow> j = i"
    using inverse_mappingsD [OF assms(1), of t j] assms(2) i(1) by auto
  then show "(m(t := None)) t' = Some j \<longleftrightarrow>
      t' \<noteq> INSTANCE_AVAILABLE_ID \<and> j < length (ts[i := INSTANCE_AVAILABLE_ID]) \<and> ts[i := INSTANCE_AVAILABLE_ID] ! j = t'"
    using i by (auto simp: inverse_mappingsD [OF assms(1)] nth_list_update)
qed

lemma first_available_Some:
  "first_available k ts = Some i \<Longrightarrow> k \<le> i \<and> i - k < length ts \<and> ts ! (i - k) = INSTANCE_AVAILABLE_ID"
  by (induction k ts rule: first_available.induct) (auto simp: nth_Cons' Suc_diff_le split: if_splits)

lemma first_available_None:
  "first_available k ts = None \<longleftrightarrow> INSTANCE_AVAILABLE_ID \<notin> set ts"
  by (induction k ts rule: first_available.induct) auto

lemma pool_inv_init: "pool_inv (pool_init n)"
  by (auto simp: pool_inv_def inverse_mappings_def pool_init_def)

lemma instance_at_same [simp]: "snd (instance_at i p) = p"
  by (simp add: instance_at_def)

lemma get_instance_inv:
  assumes "pool_inv p" "t \<noteq> INSTANCE_AVAILABLE_ID"
  shows "pool_inv (snd (get_instance t p))"
proof (cases "map_of (dp_thread_idx_mapping p) t")
  case None
  show ?thesis
  proof (cases "first_available 0 (dp_idx_thread_mapping p)")
    case (Some i)
    then have i: "i < length (dp_idx_thread_mapping p)" "dp_idx_thread_mapping p ! i = INSTANCE_AVAILABLE_ID"
      using first_available_Some by fastforce+
    show ?thesis
      using inverse_assign [where ts = "dp_idx_thread_mapping p" and m = "map_of (dp_thread_idx_mapping p)", OF _ None assms(2) i] assms None Some
      by (simp add: pool_inv_def get_instance_def update_conv')
  qed (use assms None in \<open>simp add: get_instance_def\<close>)
qed (use assms in \<open>simp add: get_instance_def\<close>)

lemma release_instance_inv: "pool_inv p \<Longrightarrow> pool_inv (snd (release_instance t p))"
  using inverse_release [of "dp_idx_thread_mapping p" "map_of (dp_thread_idx_mapping p)" t]
  by (auto simp: pool_inv_def release_instance_def delete_conv' split: option.splits)

lemma release_all_inv: "pool_inv (snd (release_all_instances p))"
  by (auto simp: pool_inv_def inverse_mappings_def release_all_instances_def)

lemma total_inv: "pool_inv p \<Longrightarrow> pool_inv (snd (total_downloaded_bytes p))"
  by (simp add: pool_inv_def total_downloaded_bytes_def Let_def)

lemma shutdown_inv: "pool_inv p \<Longrightarrow> pool_inv (snd (pool_shutdown p))"
  by (simp add: pool_shutdown_def then_io_def bind_io_def total_downloaded_bytes_def Let_def pool_inv_def)

lemma downloads_inv: "pool_inv p \<Longrightarrow> pool_inv (snd (instance_downloads i n p))"
  by (simp add: instance_downloads_def pool_inv_def)

text \<open>A run of the pool. Native thread ids are positive.\<close>

inductive pool_step :: "downloader_pool \<Rightarrow> downloader_pool \<Rightarrow> bool" where
  step_get: "t \<noteq> INSTANCE_AVAILABLE_ID \<Longrightarrow> pool_step p (snd (get_instance t p))"
| step_release: "pool_step p (snd (release_instance t p))"
| step_release_all: "pool_step p (snd (release_all_instances p))"
| step_total: "pool_step p (snd (total_downloaded_bytes p))"
| step_download: "i < length (dp_instances p) \<Longrightarrow> 0 \<le> n \<Longrightarrow> pool_step p (snd (instance_downloads i n p))"
| step_shutdown: "pool_step p (snd (pool_shutdown p))"

interpretation pool: step_invariant "\<lambda>p. \<exists>n. p = pool_init n" pool_step pool_inv
proof
  fix p p' assume "pool_inv p" "pool_step p p'"
  from this(2,1) show "pool_inv p'"
    by cases (simp_all add: get_instance_inv release_instance_inv release_all_inv total_inv downloads_inv shutdown_inv)
qed (auto simp: pool_inv_init)

text \<open>The instance a thread works with after it asked for one.\<close>

definition held :: "downloader_pool \<Rightarrow> nat \<Rightarrow> nat option" where
  "held p t = map_of (dp_thread_idx_mapping p) t"

lemma get_instance_held:
  assumes "get_instance t p = (Inr i, p')"
  shows "held p' t = Some i" "t' \<noteq> t \<Longrightarrow> held p' t' = held p t'"
  using assms by (auto simp: get_instance_def instance_at_def held_def update_conv split: option.splits if_splits)

lemma get_instance_fails:
  assumes "pool_inv p" "t \<noteq> INSTANCE_AVAILABLE_ID"
  shows "fst (get_instance t p) = Inl PE_ValueError \<longleftrightarrow>
     held p t = None \<and> (\<forall>i<length (dp_idx_thread_mapping p). \<exists>t'. t' \<noteq> t \<and> held p t' = Some i)"
proof -
  have "held p t = None \<Longrightarrow> INSTANCE_AVAILABLE_ID \<notin> set (dp_idx_thread_mapping p) \<longleftrightarrow>
      (\<forall>i<length (dp_idx_thread_mapping p). \<exists>t'. t' \<noteq> t \<and> held p t' = Some i)"
    unfolding held_def inverse_mappingsD [OF assms(1) [unfolded pool_inv_def]]
    by (metis assms(1) held_def in_set_conv_nth inverse_mappingsD option.distinct(1) pool_inv_def)
  then show ?thesis
    by (auto simp: get_instance_def held_def instance_at_def first_available_None [of 0, symmetric] split: option.splits if_splits)
qed

text \<open>
  The pool hands out no downloader twice. In every reachable state of the pool, whatever the threads did before, two
  threads never hold the same instance; a thread that asks gets the one it has, or one that nobody has, and keeps it
  while the others keep theirs; and it is refused only if the other threads hold all of them.
\<close>

lemma instances_never_shared:
  assumes "reachable (\<lambda>p. \<exists>n. p = pool_init n) pool_step p" and "t \<noteq> INSTANCE_AVAILABLE_ID"
  shows "(\<forall>t1 t2 i. held p t1 = Some i \<and> held p t2 = Some i \<longrightarrow> t1 = t2)
    \<and> (\<forall>i p'. get_instance t p = (Inr i, p') \<longrightarrow> held p' t = Some i \<and> (\<forall>t'. t' \<noteq> t \<longrightarrow> held p' t' = held p t' \<and> held p t' \<noteq> Some i))
    \<and> (fst (get_instance t p) = Inl PE_ValueError \<longleftrightarrow>
         held p t = None \<and> (\<forall>i<length (dp_idx_thread_mapping p). \<exists>t'. t' \<noteq> t \<and> held p t' = Some i))"
proof -
  have inv: "pool_inv p" by (rule pool.inv_reachable [OF assms(1)])
  have inj: "held q t1 = Some i \<Longrightarrow> held q t2 = Some i \<Longrightarrow> t1 = t2" if "pool_inv q" for q t1 t2 i
    using inverse_mappingsD [OF that [unfolded pool_inv_def]] by (simp add: held_def)
  have "held p t' \<noteq> Some i" if "get_instance t p = (Inr i, p')" "t' \<noteq> t" for i p' t'
    using inj [of p' t' i t] get_instance_inv [OF inv assms(2)] get_instance_held [OF that(1)] that by auto
  then show ?thesis using inj [OF inv] get_instance_held get_instance_fails [OF inv assms(2)] by blast
qed

section \<open>Traffic\<close>

text \<open>The total is still there when the instances are gone.\<close>

lemma total_after_shutdown:
  "fst (total_downloaded_bytes (snd (pool_shutdown p))) = fst (total_downloaded_bytes p)"
  by (simp add: pool_shutdown_def then_io_def bind_io_def total_downloaded_bytes_def Let_def)

text \<open>The watchdog raises exactly when nothing was downloaded since its last progress for longer than it allows.\<close>

lemma watchdog_raises:
  "fst (downloading_watchdog now idle ctx p) = Inl PE_DownloadInactiveTimeout \<longleftrightarrow>
     (\<exists>n. fst (total_downloaded_bytes p) = Inr n \<and> n \<le> wc_downloaded_bytes ctx)
     \<and> now - wc_previous_active_timestamp ctx > idle"
  by (auto simp: downloading_watchdog_def bind_io_def total_downloaded_bytes_def Let_def)

end
