(* ===== verification/Retry_Task_Map.thy ===== *)
theory Retry_Task_Map
  imports Prelude "HOL-Library.Multiset"
begin

text \<open>
  The thread pool that runs a task for every item of an iterable until it succeeds
  (\<^verbatim>\<open>otaclient_common/retry_task_map.py\<close>, \<^verbatim>\<open>_ThreadPoolExecutorWithRetry\<close>): dispatcher thread, workers with their
  done-callbacks, watchdog thread, and the generator over the done futures that the caller consumes.

  An item is its identity (\<^verbatim>\<open>id(entry)\<close>). The state \<open>rtm\<close> has the fields of the executor; the tasks that are submitted are
  in the pool's work queue (\<open>rt_queued\<close>), at a worker (\<open>rt_running\<close>), in the failure handling of their callback
  (\<open>rt_failing\<close>) or in its wait before the next try (\<open>rt_backoff\<close>). \<open>rt_succeeded\<close> records the items whose success was put into
  the queue of done futures. Each thread advances in steps that end where it may block or where another thread's change
  of the shared fields can be seen (\<open>rtm_step\<close>).
\<close>

section \<open>Retries on an entry\<close>

text \<open>\<^verbatim>\<open>_RetryOnEntryTracker.register\<close>: an \<^verbatim>\<open>OrderedDict\<close> of limited size, least recently failed entries first.\<close>

definition register :: "nat \<Rightarrow> nat \<Rightarrow> (nat \<times> nat) list \<Rightarrow> nat \<times> (nat \<times> nat) list" where
  "register max_entries entry_id reg =
     (let retries = (case map_of reg entry_id of Some n \<Rightarrow> n | None \<Rightarrow> 0) + 1;
          reg = AList.delete entry_id reg @ [(entry_id, retries)]
      in (retries, if length reg > max_entries then tl reg else reg))"

section \<open>State\<close>

datatype rtm_exc = TasksEnsureFailed | WatchdogFailed | Interrupted

datatype dispatcher = D_Fetch | D_Acquire nat | D_Submit nat | D_Finished | D_Exited

datatype generator = G_Run | G_Done | G_Raised rtm_exc

record rtm_conf =
  max_concurrent :: nat
  max_total_retry :: "nat option"
  max_retry_on_entry :: "nat option"

record rtm =
  rt_todo :: "nat list"
  rt_disp :: dispatcher
  rt_tasks_count :: int
  rt_total_task_num :: int
  rt_semaphore :: nat
  rt_shutdown :: bool
  rt_queued :: "nat multiset"
  rt_running :: "nat multiset"
  rt_failing :: "nat multiset"
  rt_backoff :: "nat multiset"
  rt_succeeded :: "nat multiset"
  rt_fut_queue :: "bool list"
  rt_exc :: "rtm_exc option"
  rt_total_retry :: nat
  rt_tracker :: "(nat \<times> nat) list"
  rt_gen :: generator
  rt_finished :: nat

text \<open>After \<^verbatim>\<open>ensure_tasks\<close> was called once on a new executor.\<close>

definition rtm_init :: "rtm_conf \<Rightarrow> nat list \<Rightarrow> rtm" where
  "rtm_init cf items = \<lparr> rt_todo = items, rt_disp = D_Fetch, rt_tasks_count = -1, rt_total_task_num = 0,
     rt_semaphore = max_concurrent cf, rt_shutdown = False, rt_queued = {#}, rt_running = {#}, rt_failing = {#},
     rt_backoff = {#}, rt_succeeded = {#}, rt_fut_queue = [], rt_exc = None, rt_total_retry = 0, rt_tracker = [],
     rt_gen = G_Run, rt_finished = 0 \<rparr>"

text \<open>\<^verbatim>\<open>ensure_tasks\<close> refuses a second call and a pool that is shut down.\<close>

definition ensure_tasks :: "rtm_conf \<Rightarrow> bool \<Rightarrow> bool \<Rightarrow> nat list \<Rightarrow> rtm_exc + rtm" where
  "ensure_tasks cf started lower_pool_shutdown items =
     (if started \<or> lower_pool_shutdown then Inl TasksEnsureFailed else Inr (rtm_init cf items))"

section \<open>Steps\<close>

text \<open>\<^verbatim>\<open>_rtm_shutdown\<close>: the work queue is drained, tasks at the workers go on.\<close>

definition rtm_shutdown :: "rtm \<Rightarrow> rtm" where
  "rtm_shutdown s = (if rt_shutdown s then s else s\<lparr>rt_shutdown := True, rt_queued := {#}\<rparr>)"

definition fail_with :: "rtm_exc \<Rightarrow> rtm \<Rightarrow> rtm" where
  "fail_with x s = rtm_shutdown (s\<lparr>rt_exc := Some x\<rparr>)"

text \<open>The dispatcher: the next item of the iterable, or the end of it.\<close>

definition dispatcher_fetch :: "rtm \<Rightarrow> rtm" where
  "dispatcher_fetch s = (case rt_todo s of
       [] \<Rightarrow> s\<lparr>rt_total_task_num := rt_tasks_count s, rt_disp := D_Finished\<rparr>
     | item # items \<Rightarrow>
         let s = s\<lparr>rt_todo := items, rt_tasks_count := (if rt_tasks_count s = -1 then 1 else rt_tasks_count s + 1)\<rparr>
         in if rt_shutdown s then s\<lparr>rt_disp := D_Exited\<rparr> else s\<lparr>rt_disp := D_Acquire item\<rparr>)"

definition dispatcher_iterable_raises :: "rtm \<Rightarrow> rtm" where
  "dispatcher_iterable_raises s = fail_with TasksEnsureFailed (s\<lparr>rt_disp := D_Exited\<rparr>)"

definition dispatcher_acquire :: "nat \<Rightarrow> rtm \<Rightarrow> rtm" where
  "dispatcher_acquire item s = s\<lparr>rt_semaphore := rt_semaphore s - 1, rt_disp := D_Submit item\<rparr>"

text \<open>\<^verbatim>\<open>submit\<close> raises when the pool is shut down.\<close>

definition dispatcher_submit :: "nat \<Rightarrow> rtm \<Rightarrow> rtm" where
  "dispatcher_submit item s =
     (if rt_shutdown s then rtm_shutdown (s\<lparr>rt_disp := D_Exited\<rparr>)
      else s\<lparr>rt_queued := add_mset item (rt_queued s), rt_disp := D_Fetch\<rparr>)"

definition worker_start :: "nat \<Rightarrow> rtm \<Rightarrow> rtm" where
  "worker_start item s = s\<lparr>rt_queued := rt_queued s - {#item#}, rt_running := add_mset item (rt_running s)\<rparr>"

text \<open>\<^verbatim>\<open>_task_done_cb_at_thread\<close>, up to the handling of a failed work item.\<close>

definition task_done :: "nat \<Rightarrow> bool \<Rightarrow> rtm \<Rightarrow> rtm" where
  "task_done item ok s =
     (let s = s\<lparr>rt_running := rt_running s - {#item#}\<rparr> in
      if rt_shutdown s then s\<lparr>rt_semaphore := rt_semaphore s + 1\<rparr>
      else let s = s\<lparr>rt_fut_queue := rt_fut_queue s @ [ok]\<rparr> in
        if ok then s\<lparr>rt_semaphore := rt_semaphore s + 1, rt_succeeded := add_mset item (rt_succeeded s)\<rparr>
        else s\<lparr>rt_failing := add_mset item (rt_failing s)\<rparr>)"

definition exceeds :: "nat \<Rightarrow> nat option \<Rightarrow> bool" where
  "exceeds n limit = (case limit of Some m \<Rightarrow> n > m | None \<Rightarrow> False)"

text \<open>The handling of a failed work item up to its wait, and its new submission, or the release when there is none.\<close>

definition handle_failed :: "rtm_conf \<Rightarrow> nat \<Rightarrow> rtm \<Rightarrow> rtm" where
  "handle_failed cf item s =
     (let s = s\<lparr>rt_failing := rt_failing s - {#item#}, rt_total_retry := rt_total_retry s + 1\<rparr> in
      if exceeds (rt_total_retry s) (max_total_retry cf) then fail_with TasksEnsureFailed s
      else let (retry_on_entry, tracker) = register (max_concurrent cf) item (rt_tracker s);
               s = s\<lparr>rt_tracker := tracker\<rparr>
           in if exceeds retry_on_entry (max_retry_on_entry cf) then fail_with TasksEnsureFailed s
              else s\<lparr>rt_backoff := add_mset item (rt_backoff s)\<rparr>)"

definition resubmit :: "nat \<Rightarrow> rtm \<Rightarrow> rtm" where
  "resubmit item s =
     (let s = s\<lparr>rt_backoff := rt_backoff s - {#item#}\<rparr> in
      if rt_shutdown s then s\<lparr>rt_semaphore := rt_semaphore s + 1\<rparr>
      else s\<lparr>rt_queued := add_mset item (rt_queued s)\<rparr>)"

definition watchdog_failed :: "rtm \<Rightarrow> rtm" where
  "watchdog_failed s = fail_with WatchdogFailed s"

text \<open>The pool is shut down from outside, by its context manager or at the end of the interpreter.\<close>

definition outer_shutdown :: "rtm \<Rightarrow> rtm" where
  "outer_shutdown s = s\<lparr>rt_shutdown := True\<rparr>"

text \<open>One round of the loop of \<^verbatim>\<open>_fut_gen\<close>.\<close>

definition fut_gen :: "rtm \<Rightarrow> rtm" where
  "fut_gen s =
     (if \<not> (rt_finished s = 0 \<or> int (rt_finished s) \<noteq> rt_total_task_num s) then s\<lparr>rt_gen := G_Done\<rparr>
      else if rt_total_task_num s < 0 then s\<lparr>rt_gen := G_Done\<rparr>
      else if rt_shutdown s
      then s\<lparr>rt_fut_queue := [], rt_exc := None, rt_gen := G_Raised (case rt_exc s of Some x \<Rightarrow> x | None \<Rightarrow> Interrupted)\<rparr>
      else case rt_fut_queue s of
          [] \<Rightarrow> s
        | ok # futs \<Rightarrow> s\<lparr>rt_fut_queue := futs, rt_finished := (if ok then rt_finished s + 1 else rt_finished s)\<rparr>)"

inductive rtm_step :: "rtm_conf \<Rightarrow> rtm \<Rightarrow> rtm \<Rightarrow> bool" for cf where
  st_fetch: "rt_disp s = D_Fetch \<Longrightarrow> rtm_step cf s (dispatcher_fetch s)"
| st_raise: "rt_disp s = D_Fetch \<Longrightarrow> rtm_step cf s (dispatcher_iterable_raises s)"
| st_acquire: "rt_disp s = D_Acquire x \<Longrightarrow> rt_semaphore s > 0 \<Longrightarrow> rtm_step cf s (dispatcher_acquire x s)"
| st_submit: "rt_disp s = D_Submit x \<Longrightarrow> rtm_step cf s (dispatcher_submit x s)"
| st_start: "x \<in># rt_queued s \<Longrightarrow> rtm_step cf s (worker_start x s)"
| st_done: "x \<in># rt_running s \<Longrightarrow> rtm_step cf s (task_done x ok s)"
| st_failed: "x \<in># rt_failing s \<Longrightarrow> rtm_step cf s (handle_failed cf x s)"
| st_resubmit: "x \<in># rt_backoff s \<Longrightarrow> rtm_step cf s (resubmit x s)"
| st_watchdog: "rtm_step cf s (watchdog_failed s)"
| st_outer: "rtm_step cf s (outer_shutdown s)"
| st_gen: "rt_gen s = G_Run \<Longrightarrow> rtm_step cf s (fut_gen s)"

section \<open>Invariants\<close>

text \<open>The items that were dispatched and are not yet done, the one in the dispatcher's hands included.\<close>

definition in_hand :: "rtm \<Rightarrow> nat multiset" where
  "in_hand s = (case rt_disp s of D_Acquire x \<Rightarrow> {#x#} | D_Submit x \<Rightarrow> {#x#} | _ \<Rightarrow> {#})"

definition pending :: "rtm \<Rightarrow> nat multiset" where
  "pending s = rt_queued s + rt_running s + rt_failing s + rt_backoff s"

definition holds_slot :: "rtm \<Rightarrow> nat" where
  "holds_slot s = (case rt_disp s of D_Submit _ \<Rightarrow> 1 | _ \<Rightarrow> 0)"

text \<open>Until the shutdown no item is lost and no slot is; what succeeded are items of the iterable at any time.\<close>

definition items_inv :: "nat list \<Rightarrow> rtm \<Rightarrow> bool" where
  "items_inv items s \<longleftrightarrow>
     mset (rt_todo s) + in_hand s + pending s + rt_succeeded s \<subseteq># mset items
   \<and> (\<not> rt_shutdown s \<longrightarrow> mset (rt_todo s) + in_hand s + pending s + rt_succeeded s = mset items)"

definition slots_inv :: "rtm_conf \<Rightarrow> rtm \<Rightarrow> bool" where
  "slots_inv cf s \<longleftrightarrow> rt_semaphore s + holds_slot s + size (pending s) \<le> max_concurrent cf
     \<and> (\<not> rt_shutdown s \<longrightarrow> rt_semaphore s + holds_slot s + size (pending s) = max_concurrent cf)"

definition count_inv :: "nat list \<Rightarrow> rtm \<Rightarrow> bool" where
  "count_inv items s \<longleftrightarrow>
     rt_tasks_count s = (if length (rt_todo s) = length items then -1 else int (length items) - int (length (rt_todo s)))
   \<and> length (rt_todo s) \<le> length items
   \<and> (rt_disp s = D_Finished \<longrightarrow> rt_todo s = [] \<and> rt_total_task_num s = rt_tasks_count s)
   \<and> (rt_disp s \<noteq> D_Finished \<longrightarrow> rt_total_task_num s = 0)
   \<and> (rt_disp s = D_Exited \<longrightarrow> rt_shutdown s)"

definition gen_inv :: "rtm \<Rightarrow> bool" where
  "gen_inv s \<longleftrightarrow> rt_finished s + length (filter id (rt_fut_queue s)) \<le> size (rt_succeeded s)
   \<and> (rt_gen s = G_Run \<longrightarrow> rt_finished s + length (filter id (rt_fut_queue s)) = size (rt_succeeded s))
   \<and> (rt_gen s = G_Done \<longrightarrow> rt_total_task_num s \<noteq> 0 \<and>
        (rt_total_task_num s < 0 \<or> int (rt_finished s) = rt_total_task_num s))"

definition retry_inv :: "rtm_conf \<Rightarrow> rtm \<Rightarrow> bool" where
  "retry_inv cf s \<longleftrightarrow> (\<not> rt_shutdown s \<longrightarrow> \<not> exceeds (rt_total_retry s) (max_total_retry cf))
     \<and> length (rt_tracker s) \<le> max_concurrent cf"

lemmas rtm_ops = dispatcher_fetch_def dispatcher_iterable_raises_def dispatcher_acquire_def dispatcher_submit_def
  worker_start_def task_done_def handle_failed_def resubmit_def watchdog_failed_def outer_shutdown_def
  fail_with_def rtm_shutdown_def

lemma add_subD: "add_mset x A \<subseteq># B \<Longrightarrow> A \<subseteq># B"
  by (metis mset_subset_eq_insertD subset_mset.less_imp_le)

lemma queue_subD: "T + (Q + R) + S \<subseteq># B \<Longrightarrow> T + R + S \<subseteq># B" for T :: "'b multiset"
  by (rule subset_mset.order_trans) (simp_all add: ac_simps)

lemmas items_defs = items_inv_def in_hand_def pending_def Let_def

text \<open>Draining the work queue only takes pending items away.\<close>

lemma items_shutdown: "items_inv items s \<Longrightarrow> items_inv items (rtm_shutdown s)"
  using queue_subD [of "mset (rt_todo s) + in_hand s" "rt_queued s" "rt_running s + rt_failing s + rt_backoff s" "rt_succeeded s" "mset items"]
  by (auto simp: items_inv_def rtm_shutdown_def in_hand_def pending_def add.assoc)

lemma items_fail:
  assumes "items_inv items s" shows "items_inv items (fail_with x s)"
proof -
  have "items_inv items (s\<lparr>rt_exc := Some x\<rparr>)" using assms by (simp add: items_defs)
  then show ?thesis by (simp add: fail_with_def items_shutdown)
qed

text \<open>A pending item that is given up together with the shutdown.\<close>

lemma items_fail_drop:
  assumes "items_inv items s" "x \<in># rt_failing s"
  shows "items_inv items (fail_with e (s\<lparr>rt_failing := rt_failing s - {#x#}, rt_total_retry := n\<rparr>))"
proof -
  obtain M where M: "rt_failing s = add_mset x M" using assms(2) by (metis mset_add)
  have all: "mset (rt_todo s) + in_hand s + (rt_queued s + (rt_running s + M + rt_backoff s)) + rt_succeeded s \<subseteq># mset items"
    using assms(1) M by (auto simp: items_inv_def pending_def add.assoc dest: add_subD)
  then have "mset (rt_todo s) + in_hand s + (rt_running s + M + rt_backoff s) + rt_succeeded s \<subseteq># mset items"
    by (rule queue_subD)
  with all show ?thesis using M
    by (auto simp: fail_with_def rtm_shutdown_def items_inv_def in_hand_def pending_def add.assoc)
qed

lemma items_step:
  assumes "items_inv items s" "rtm_step cf s s'"
  shows "items_inv items s'"
  using assms(2,1)
proof cases
  case st_fetch
  then show ?thesis using assms(1)
    by (cases "rt_todo s") (auto simp: items_defs dispatcher_fetch_def dest: add_subD)
next
  case st_raise
  have "items_inv items (s\<lparr>rt_disp := D_Exited\<rparr>)" using assms(1) st_raise by (simp add: items_defs)
  then show ?thesis using st_raise by (simp add: dispatcher_iterable_raises_def items_fail)
next
  case (st_acquire x)
  then show ?thesis using assms(1) by (simp add: items_defs dispatcher_acquire_def)
next
  case (st_submit x)
  then show ?thesis using assms(1) by (auto simp: items_defs dispatcher_submit_def rtm_shutdown_def dest: add_subD)
next
  case (st_start x)
  then obtain M where "rt_queued s = add_mset x M" by (metis mset_add)
  then show ?thesis using assms(1) st_start by (simp add: items_defs worker_start_def)
next
  case (st_done x ok)
  then obtain M where "rt_running s = add_mset x M" by (metis mset_add)
  then show ?thesis using assms(1) st_done by (auto simp: items_defs task_done_def dest: add_subD)
next
  case (st_failed x)
  then obtain M where "rt_failing s = add_mset x M" by (metis mset_add)
  have "items_inv items (s\<lparr>rt_tracker := t\<rparr>)" for t using assms(1) by (simp add: items_defs)
  then have "items_inv items (fail_with e (s\<lparr>rt_failing := rt_failing s - {#x#}, rt_total_retry := n, rt_tracker := t\<rparr>))" for e n t
  proof -
    have eq: "s\<lparr>rt_failing := rt_failing s - {#x#}, rt_total_retry := n, rt_tracker := t\<rparr>
        = (s\<lparr>rt_tracker := t\<rparr>)\<lparr>rt_failing := rt_failing (s\<lparr>rt_tracker := t\<rparr>) - {#x#}, rt_total_retry := n\<rparr>" by simp
    show ?thesis unfolding eq
      by (rule items_fail_drop) (use \<open>\<And>t. items_inv items (s\<lparr>rt_tracker := t\<rparr>)\<close> st_failed(2) in simp_all)
  qed
  then show ?thesis using \<open>rt_failing s = add_mset x M\<close> assms(1) st_failed items_fail_drop [OF assms(1) st_failed(2)]
    by (auto simp: handle_failed_def Let_def split: prod.splits) (simp_all add: items_defs)
next
  case (st_resubmit x)
  then obtain M where "rt_backoff s = add_mset x M" by (metis mset_add)
  then show ?thesis using assms(1) st_resubmit by (auto simp: items_defs resubmit_def dest: add_subD)
next
  case st_watchdog
  then show ?thesis using assms(1) by (simp add: watchdog_failed_def items_fail)
next
  case st_outer
  then show ?thesis using assms(1) by (simp add: items_defs outer_shutdown_def)
next
  case st_gen
  then show ?thesis using assms(1) by (auto simp: items_defs fut_gen_def split: list.splits)
qed

lemmas slots_defs = slots_inv_def holds_slot_def pending_def

lemma slots_step:
  assumes "slots_inv cf s" "rtm_step cf s s'"
  shows "slots_inv cf s'"
  using assms(2,1)
proof cases
  case st_fetch
  then show ?thesis using assms(1)
    by (cases "rt_todo s") (auto simp: slots_defs dispatcher_fetch_def Let_def)
next
  case (st_start x)
  then obtain M where "rt_queued s = add_mset x M" by (metis mset_add)
  then show ?thesis using assms(1) st_start by (simp add: slots_defs worker_start_def)
next
  case (st_done x ok)
  then obtain M where "rt_running s = add_mset x M" by (metis mset_add)
  then show ?thesis using assms(1) st_done by (auto simp: slots_defs task_done_def Let_def)
next
  case (st_failed x)
  then obtain M where "rt_failing s = add_mset x M" by (metis mset_add)
  then show ?thesis using assms(1) st_failed
    by (auto simp: slots_defs handle_failed_def fail_with_def rtm_shutdown_def Let_def split: prod.splits)
next
  case (st_resubmit x)
  then obtain M where "rt_backoff s = add_mset x M" by (metis mset_add)
  then show ?thesis using assms(1) st_resubmit by (auto simp: slots_defs resubmit_def Let_def)
next
  case st_gen
  then show ?thesis using assms(1) by (auto simp: slots_defs fut_gen_def split: list.splits)
qed (auto simp: slots_defs rtm_ops)

lemma count_step:
  assumes "count_inv items s" "rtm_step cf s s'"
  shows "count_inv items s'"
  using assms(2,1)
proof cases
  case st_fetch
  then show ?thesis using assms(1)
    by (cases "rt_todo s") (auto simp: count_inv_def dispatcher_fetch_def Let_def split: if_splits)
next
  case (st_failed x)
  then show ?thesis using assms(1)
    by (auto simp: count_inv_def handle_failed_def fail_with_def rtm_shutdown_def Let_def split: prod.splits)
next
  case st_gen
  then show ?thesis using assms(1) by (auto simp: count_inv_def fut_gen_def split: list.splits)
qed (auto simp: count_inv_def rtm_ops Let_def)

lemma register_length: "length reg \<le> m \<Longrightarrow> length (snd (register m x reg)) \<le> m"
proof -
  assume "length reg \<le> m"
  moreover have "length (AList.delete x reg) \<le> length reg" by (rule length_delete_le)
  ultimately show ?thesis by (simp add: register_def Let_def)
qed

lemma retry_step:
  assumes "retry_inv cf s" "rtm_step cf s s'"
  shows "retry_inv cf s'"
  using assms(2,1)
proof cases
  case st_fetch
  then show ?thesis using assms(1)
    by (cases "rt_todo s") (auto simp: retry_inv_def dispatcher_fetch_def Let_def)
next
  case (st_failed x)
  then show ?thesis using assms(1) register_length [of "rt_tracker s" "max_concurrent cf" x]
    by (auto simp: retry_inv_def handle_failed_def fail_with_def rtm_shutdown_def Let_def split: prod.splits)
next
  case st_gen
  then show ?thesis using assms(1) by (auto simp: retry_inv_def fut_gen_def split: list.splits)
qed (auto simp: retry_inv_def rtm_ops Let_def)

lemma gen_step:
  assumes "gen_inv s" "count_inv items s" "rtm_step cf s s'"
  shows "gen_inv s'"
  using assms(3,1)
proof cases
  case st_fetch
  then have "rt_total_task_num s = 0" using assms(2) by (auto simp: count_inv_def)
  then show ?thesis using assms(1) st_fetch
    by (cases "rt_todo s") (auto simp: gen_inv_def dispatcher_fetch_def Let_def)
next
  case (st_failed x)
  then show ?thesis using assms(1)
    by (auto simp: gen_inv_def handle_failed_def fail_with_def rtm_shutdown_def Let_def split: prod.splits)
next
  case st_gen
  then show ?thesis using assms(1) by (auto simp: gen_inv_def fut_gen_def split: list.splits)
qed (auto simp: gen_inv_def rtm_ops Let_def)

definition rtm_inv :: "rtm_conf \<Rightarrow> nat list \<Rightarrow> rtm \<Rightarrow> bool" where
  "rtm_inv cf items s \<longleftrightarrow> items_inv items s \<and> slots_inv cf s \<and> count_inv items s \<and> gen_inv s \<and> retry_inv cf s"

interpretation rtm: step_invariant "\<lambda>s. s = rtm_init cf items" "rtm_step cf" "rtm_inv cf items" for cf items
proof
  show "s = rtm_init cf items \<Longrightarrow> rtm_inv cf items s" for s
    by (simp add: rtm_inv_def rtm_init_def items_defs slots_defs count_inv_def gen_inv_def retry_inv_def exceeds_def split: option.splits)
  show "rtm_inv cf items s \<Longrightarrow> rtm_step cf s s' \<Longrightarrow> rtm_inv cf items s'" for s s'
    unfolding rtm_inv_def using items_step slots_step count_step gen_step retry_step by metis
qed

abbreviation rtm_reachable :: "rtm_conf \<Rightarrow> nat list \<Rightarrow> rtm \<Rightarrow> bool" where
  "rtm_reachable cf items \<equiv> reachable (\<lambda>s. s = rtm_init cf items) (rtm_step cf)"

lemma subset_size_eq: "A \<subseteq># B \<Longrightarrow> size B \<le> size A \<Longrightarrow> A = B"
  by (metis leD mset_subset_size subset_mset.le_neq_trans)

text \<open>
  C21: When the generator over the futures ends, every item of the iterable was processed successfully, each as often as
  the iterable has it. This holds in every interleaving of the dispatcher, the workers with their callbacks, the watchdog
  and a shutdown of the pool.
\<close>

theorem finished_means_all_succeeded:
  assumes "rtm_reachable cf items s" and "rt_gen s = G_Done"
  shows "rt_succeeded s = mset items"
proof -
  have inv: "items_inv items s" "count_inv items s" "gen_inv s"
    using rtm.inv_reachable [OF assms(1)] by (simp_all add: rtm_inv_def)
  have sub: "rt_succeeded s \<subseteq># mset items"
    using inv(1) unfolding items_inv_def by (meson mset_subset_eq_add_right subset_mset.order_trans)
  have total: "rt_total_task_num s \<noteq> 0" "rt_total_task_num s < 0 \<or> int (rt_finished s) = rt_total_task_num s"
    "rt_finished s \<le> size (rt_succeeded s)" using inv(3) assms(2) by (auto simp: gen_inv_def)
  then have n: "rt_total_task_num s = (if items = [] then -1 else int (length items))"
    using inv(2) by (auto simp: count_inv_def)
  show ?thesis
    by (rule subset_size_eq [OF sub]) (use total n in \<open>auto split: if_splits\<close>)
qed

text \<open>
  The pool keeps its bounds: at no time are more tasks pending than the semaphore allows, the table of retries has no
  more entries than that, and as long as the pool is not shut down the number of failed tasks is within the limit on
  retries. Until then every item is in exactly one place, none is lost.
\<close>

lemma pool_keeps_its_bounds:
  assumes "rtm_reachable cf items s"
  shows "size (pending s) \<le> max_concurrent cf \<and> length (rt_tracker s) \<le> max_concurrent cf
    \<and> (\<not> rt_shutdown s \<longrightarrow> mset (rt_todo s) + in_hand s + pending s + rt_succeeded s = mset items
          \<and> (\<forall>m. max_total_retry cf = Some m \<longrightarrow> rt_total_retry s \<le> m))"
  using rtm.inv_reachable [OF assms]
  by (auto simp: rtm_inv_def slots_inv_def retry_inv_def items_inv_def exceeds_def)

text \<open>The steps of the dispatcher and of the workers that can be taken.\<close>

definition can_advance :: "rtm \<Rightarrow> bool" where
  "can_advance s \<longleftrightarrow> rt_disp s = D_Fetch \<or> (\<exists>x. rt_disp s = D_Acquire x \<and> rt_semaphore s > 0) \<or> (\<exists>x. rt_disp s = D_Submit x)
     \<or> pending s \<noteq> {#}"

text \<open>
  C31: A caller that iterates over the futures is never left waiting for nothing: at any time before the generator ended,
  the next round of its loop makes progress (a future is yielded, the generator ends or raises), or the dispatcher or a
  worker can go on. After a shutdown of the pool the next round ends the generator, with the recorded error unless all
  tasks were finished.
\<close>

theorem ensure_tasks_never_stuck:
  assumes "rtm_reachable cf items s" and "rt_gen s = G_Run" and "0 < max_concurrent cf"
  shows "(fut_gen s \<noteq> s \<or> can_advance s)
    \<and> (rt_shutdown s \<longrightarrow> rt_gen (fut_gen s) \<in> {G_Done, G_Raised (case rt_exc s of Some x \<Rightarrow> x | None \<Rightarrow> Interrupted)})"
proof -
  have inv: "items_inv items s" "slots_inv cf s" "count_inv items s" "gen_inv s"
    using rtm.inv_reachable [OF assms(1)] by (simp_all add: rtm_inv_def)
  have down: "rt_gen (fut_gen s) \<in> {G_Done, G_Raised (case rt_exc s of Some x \<Rightarrow> x | None \<Rightarrow> Interrupted)}" if "rt_shutdown s"
    using that by (simp add: fut_gen_def)
  have "fut_gen s \<noteq> s \<or> can_advance s"
  proof (rule disjCI)
    assume no: "\<not> can_advance s"
    show "fut_gen s \<noteq> s"
    proof (cases "rt_shutdown s \<or> rt_fut_queue s \<noteq> []")
      case True
      have "rt_gen (fut_gen s) \<noteq> G_Run \<or> length (rt_fut_queue (fut_gen s)) < length (rt_fut_queue s)"
        using True by (auto simp: fut_gen_def neq_Nil_conv)
      then show ?thesis using assms(2) by (metis less_irrefl)
    next
      case False
      then have d: "rt_disp s = D_Finished"
        using no inv(2,3) assms(3)
        by (cases "rt_disp s") (auto simp: can_advance_def slots_inv_def holds_slot_def count_inv_def)
      then have "rt_succeeded s = mset items" "rt_finished s = size (rt_succeeded s)"
        using no False inv assms(2) by (auto simp: can_advance_def items_inv_def in_hand_def count_inv_def gen_inv_def)
      then have "rt_gen (fut_gen s) = G_Done"
        using d inv(3) by (auto simp: fut_gen_def count_inv_def)
      then show ?thesis using assms(2) by auto
    qed
  qed
  with down show ?thesis by blast
qed

section \<open>A dispatcher that is left behind\<close>

text \<open>
  The task whose failure shuts the pool down does not give its slot back, and the tasks drained from the work queue never
  run. If no other task is at a worker, the dispatcher waits for a slot for ever.
\<close>

definition blocked :: "nat \<Rightarrow> rtm \<Rightarrow> bool" where
  "blocked x s \<longleftrightarrow> rt_shutdown s \<and> rt_disp s = D_Acquire x \<and> rt_semaphore s = 0 \<and> pending s = {#}"

lemma blocked_step: "rtm_step cf s s' \<Longrightarrow> blocked x s \<Longrightarrow> blocked x s'"
  by (cases rule: rtm_step.cases, assumption)
    (auto simp: blocked_def pending_def rtm_ops fut_gen_def split: list.splits)

definition one_slot :: rtm_conf where
  "one_slot = \<lparr> max_concurrent = 1, max_total_retry = Some 0, max_retry_on_entry = None \<rparr>"

text \<open>The state before the failing task ends, and the one after its failure was handled.\<close>

definition before_failure :: rtm where
  "before_failure = worker_start 1 (dispatcher_fetch (dispatcher_submit 1 (dispatcher_acquire 1 (dispatcher_fetch (rtm_init one_slot [1, 2])))))"

definition after_failure :: rtm where
  "after_failure = handle_failed one_slot 1 (task_done 1 False before_failure)"

lemmas run_defs = rtm_init_def one_slot_def dispatcher_fetch_def dispatcher_acquire_def dispatcher_submit_def worker_start_def
  task_done_def handle_failed_def exceeds_def fail_with_def rtm_shutdown_def

lemma before_failure_eq: "before_failure = (rtm_init one_slot [1, 2])\<lparr>rt_todo := [], rt_disp := D_Acquire 2, rt_tasks_count := 2,
    rt_semaphore := 0, rt_running := {#1#}\<rparr>"
  by (simp add: before_failure_def run_defs)

lemma after_failure_eq: "after_failure = before_failure\<lparr>rt_shutdown := True, rt_running := {#}, rt_fut_queue := [False],
    rt_exc := Some TasksEnsureFailed, rt_total_retry := 1\<rparr>"
  by (simp add: after_failure_def before_failure_eq run_defs)

lemma after_failure_reachable: "rtm_reachable one_slot [1, 2] after_failure"
proof -
  let ?s0 = "rtm_init one_slot [1, 2]"
  let ?s1 = "dispatcher_fetch ?s0" let ?s2 = "dispatcher_acquire 1 ?s1" let ?s3 = "dispatcher_submit 1 ?s2"
  let ?s4 = "dispatcher_fetch ?s3"
  have r0: "rtm_reachable one_slot [1, 2] ?s0" by (rule reach_init) simp
  have r1: "rtm_reachable one_slot [1, 2] ?s1" by (rule reach_step [OF r0], rule st_fetch) (simp add: run_defs)
  have r2: "rtm_reachable one_slot [1, 2] ?s2" by (rule reach_step [OF r1], rule st_acquire) (simp_all add: run_defs)
  have r3: "rtm_reachable one_slot [1, 2] ?s3" by (rule reach_step [OF r2], rule st_submit) (simp add: run_defs)
  have r4: "rtm_reachable one_slot [1, 2] ?s4" by (rule reach_step [OF r3], rule st_fetch) (simp add: run_defs)
  have r5: "rtm_reachable one_slot [1, 2] before_failure"
    unfolding before_failure_def by (rule reach_step [OF r4], rule st_start) (simp add: run_defs)
  have r6: "rtm_reachable one_slot [1, 2] (task_done 1 False before_failure)"
    by (rule reach_step [OF r5], rule st_done) (simp add: before_failure_eq)
  show ?thesis
    unfolding after_failure_def by (rule reach_step [OF r6], rule st_failed) (simp add: before_failure_eq run_defs)
qed

text \<open>
  The dispatcher thread can be left waiting for ever: there is a run, with one slot and a failure beyond the retry
  limit, after which the pool is shut down and, whatever happens next, the dispatcher still waits for the semaphore,
  holding the iterable of tasks.
\<close>

lemma dispatcher_can_be_left_behind:
  "\<exists>cf items s x. rtm_reachable cf items s \<and> rt_shutdown s
     \<and> (\<forall>s'. (rtm_step cf)\<^sup>*\<^sup>* s s' \<longrightarrow> rt_disp s' = D_Acquire x \<and> rt_semaphore s' = 0)"
proof -
  have b: "blocked 2 after_failure"
    by (simp add: blocked_def after_failure_eq before_failure_eq pending_def rtm_init_def)
  have "blocked 2 s'" if "(rtm_step one_slot)\<^sup>*\<^sup>* after_failure s'" for s'
    using that b by (induction rule: rtranclp_induct) (auto intro: blocked_step)
  then show ?thesis using after_failure_reachable b unfolding blocked_def by blast
qed

section \<open>Sample runs\<close>

text \<open>One item that succeeds at once, up to the end of the generator.\<close>

definition after_success :: rtm where
  "after_success = dispatcher_fetch (task_done 5 True (worker_start 5 (dispatcher_submit 5 (dispatcher_acquire 5
     (dispatcher_fetch (rtm_init one_slot [5]))))))"

lemma after_success_eq: "after_success = (rtm_init one_slot [5])\<lparr>rt_todo := [], rt_disp := D_Finished, rt_tasks_count := 1,
    rt_total_task_num := 1, rt_succeeded := {#5#}, rt_fut_queue := [True]\<rparr>"
  by (simp add: after_success_def run_defs)

lemma after_success_reachable: "rtm_reachable one_slot [5] after_success"
proof -
  let ?s0 = "rtm_init one_slot [5]"
  let ?s1 = "dispatcher_fetch ?s0" let ?s2 = "dispatcher_acquire 5 ?s1" let ?s3 = "dispatcher_submit 5 ?s2"
  let ?s4 = "worker_start 5 ?s3" let ?s5 = "task_done 5 True ?s4"
  have r0: "rtm_reachable one_slot [5] ?s0" by (rule reach_init) simp
  have r1: "rtm_reachable one_slot [5] ?s1" by (rule reach_step [OF r0], rule st_fetch) (simp add: run_defs)
  have r2: "rtm_reachable one_slot [5] ?s2" by (rule reach_step [OF r1], rule st_acquire) (simp_all add: run_defs)
  have r3: "rtm_reachable one_slot [5] ?s3" by (rule reach_step [OF r2], rule st_submit) (simp add: run_defs)
  have r4: "rtm_reachable one_slot [5] ?s4" by (rule reach_step [OF r3], rule st_start) (simp add: run_defs)
  have r5: "rtm_reachable one_slot [5] ?s5" by (rule reach_step [OF r4], rule st_done) (simp add: run_defs)
  show ?thesis unfolding after_success_def by (rule reach_step [OF r5], rule st_fetch) (simp add: run_defs)
qed

theorem finished_means_all_succeeded_witness: "rt_succeeded (fut_gen (fut_gen after_success)) = mset [5]"
proof (rule finished_means_all_succeeded)
  show "rtm_reachable one_slot [5] (fut_gen (fut_gen after_success))"
    by (rule reach_step [OF reach_step [OF after_success_reachable st_gen] st_gen])
      (simp_all add: after_success_eq fut_gen_def rtm_init_def)
  show "rt_gen (fut_gen (fut_gen after_success)) = G_Done"
    by (simp add: after_success_eq fut_gen_def rtm_init_def)
qed

theorem ensure_tasks_never_stuck_witness: "\<not> (fut_gen after_success = after_success \<and> \<not> can_advance after_success)"
  using ensure_tasks_never_stuck [OF after_success_reachable]
  by (simp add: after_success_eq rtm_init_def one_slot_def)

end
