(* ===== verification/Shared_Memory.thy ===== *)
theory Shared_Memory
  imports Prelude "HOL-Library.Word"
begin

text \<open>
  The shared memory through which the processes of the client pass their status (\<^verbatim>\<open>otaclient_common/_shm.py\<close>): one writer
  and one reader process over a block of bytes, with the layout

  \<^verbatim>\<open>rwlock(1) | hmac-sha512 of msg(64) | msg_len(4, big endian) | msg(msg_len)\<close>

  Bytes are 8-bit words. HMAC and pickle are parameters (\<open>shm_lib\<close>): \<open>sl_hmac key msg\<close>, \<open>sl_dumps\<close>, \<open>sl_loads\<close>. The block is
  not locked between the processes: \<open>write_states\<close> is what it looks like while a message is copied into it, and the
  reader's four reads may see different states of it (\<open>sync_msg_at\<close>).
\<close>

section \<open>Layout\<close>

type_synonym byte = "8 word"

definition RWLOCK_LEN :: nat where "RWLOCK_LEN = 1"
definition PAYLOAD_LEN_BYTES :: nat where "PAYLOAD_LEN_BYTES = 4"
definition DIGEST_SIZE :: nat where "DIGEST_SIZE = 64"
definition MIN_ENCAP_MSG_LEN :: nat where "MIN_ENCAP_MSG_LEN = RWLOCK_LEN + DIGEST_SIZE + PAYLOAD_LEN_BYTES"

definition RWLOCK_LOCKED :: "byte list" where "RWLOCK_LOCKED = [0xab]"
definition RWLOCK_OPEN :: "byte list" where "RWLOCK_OPEN = [0x54]"

datatype shm_exc = RWBusy | SE_ValueError | SE_OverflowError | SE_UnpicklingError

record 'a shm_lib =
  sl_hmac :: "byte list \<Rightarrow> byte list \<Rightarrow> byte list"
  sl_dumps :: "'a \<Rightarrow> byte list"
  sl_loads :: "byte list \<Rightarrow> 'a option"

text \<open>\<^verbatim>\<open>int.to_bytes(4, "big")\<close>, which raises for a number that does not fit, and \<^verbatim>\<open>int.from_bytes(..., "big")\<close>.\<close>

definition to_bytes4 :: "nat \<Rightarrow> byte list option" where
  "to_bytes4 n = (if n < 2 ^ 32
     then Some [of_nat (n div 2 ^ 24), of_nat (n div 2 ^ 16 mod 256), of_nat (n div 2 ^ 8 mod 256), of_nat (n mod 256)]
     else None)"

definition from_bytes :: "byte list \<Rightarrow> nat" where
  "from_bytes bs = foldl (\<lambda>n b. 256 * n + unat b) 0 bs"

definition cal_hmac :: "'a shm_lib \<Rightarrow> byte list \<Rightarrow> byte list \<Rightarrow> byte list" where
  "cal_hmac lib key raw_msg = sl_hmac lib key raw_msg"

definition verify_msg :: "'a shm_lib \<Rightarrow> byte list \<Rightarrow> byte list \<Rightarrow> byte list \<Rightarrow> bool" where
  "verify_msg lib key raw_msg expected_hmac \<longleftrightarrow> sl_hmac lib key raw_msg = expected_hmac"

section \<open>The writer\<close>

record shm_writer =
  sw_key :: "byte list"
  sw_mem_size :: nat
  sw_msg_max_size :: nat

text \<open>
  \<^verbatim>\<open>MPSharedMemoryWriter.__init__\<close>. \<open>new\<close> is the size of the block that is created for a requested size (at least that
  size), \<open>existing\<close> the size of the one that is connected to; a connection that never succeeds is the \<^verbatim>\<open>ValueError\<close> of
  \<^verbatim>\<open>_ensure_connect_shm\<close>. A missing or zero limit means no limit beyond the block's.
\<close>

definition limit_by :: "nat \<Rightarrow> nat option \<Rightarrow> nat" where
  "limit_by n msg_max_size = (case msg_max_size of Some m \<Rightarrow> if m = 0 then n else min n m | None \<Rightarrow> n)"

definition writer_init ::
    "string option \<Rightarrow> nat \<Rightarrow> byte list \<Rightarrow> bool \<Rightarrow> nat option \<Rightarrow> nat \<Rightarrow> nat option \<Rightarrow> shm_exc + shm_writer" where
  "writer_init name sz key create msg_max_size new existing =
     (if create then
        (if sz < MIN_ENCAP_MSG_LEN then Inl SE_ValueError
         else Inr \<lparr> sw_key = key, sw_mem_size = new, sw_msg_max_size = limit_by (sz - MIN_ENCAP_MSG_LEN) msg_max_size \<rparr>)
      else if name \<noteq> None \<and> name \<noteq> Some [] then
        (case existing of
           None \<Rightarrow> Inl SE_ValueError
         | Some sz \<Rightarrow>
             if sz < MIN_ENCAP_MSG_LEN then Inl SE_ValueError
             else Inr \<lparr> sw_key = key, sw_mem_size = sz, sw_msg_max_size = limit_by (sz - MIN_ENCAP_MSG_LEN) msg_max_size \<rparr>)
      else Inl SE_ValueError)"

text \<open>\<^verbatim>\<open>_ensure_connect_shm\<close>: the attempts in order, the first that connects.\<close>

definition ensure_connect_shm :: "nat \<Rightarrow> (nat \<Rightarrow> nat option) \<Rightarrow> nat option" where
  "ensure_connect_shm max_retry attempt = (case List.find (\<lambda>i. attempt i \<noteq> None) [0..<max_retry] of
     None \<Rightarrow> None | Some i \<Rightarrow> attempt i)"

text \<open>The message that is copied to the front of the block, or why there is none.\<close>

definition encap_msg :: "'a shm_lib \<Rightarrow> shm_writer \<Rightarrow> 'a \<Rightarrow> shm_exc + byte list" where
  "encap_msg lib w obj =
     (let pickled = sl_dumps lib obj
      in if length pickled > sw_msg_max_size w then Inl SE_ValueError
         else case to_bytes4 (length pickled) of
             None \<Rightarrow> Inl SE_OverflowError
           | Some len_bytes \<Rightarrow>
               let msg = RWLOCK_LOCKED @ cal_hmac lib (sw_key w) pickled @ len_bytes @ pickled
               in if length msg > sw_mem_size w then Inl SE_ValueError else Inr msg)"

definition overwrite :: "byte list \<Rightarrow> byte list \<Rightarrow> byte list" where
  "overwrite msg buf = msg @ drop (length msg) buf"

definition write_msg :: "'a shm_lib \<Rightarrow> shm_writer \<Rightarrow> 'a \<Rightarrow> (byte list, shm_exc, unit) io" where
  "write_msg lib w obj = (\<lambda>buf. case encap_msg lib w obj of
     Inl x \<Rightarrow> (Inl x, buf)
   | Inr msg \<Rightarrow> (Inr (), overwrite RWLOCK_OPEN (overwrite msg buf)))"

section \<open>The reader\<close>

record shm_reader =
  sr_key :: "byte list"
  sr_msg_max_size :: int

definition reader_init :: "byte list \<Rightarrow> nat \<Rightarrow> shm_reader" where
  "reader_init key sz = \<lparr> sr_key = key, sr_msg_max_size = int sz - int MIN_ENCAP_MSG_LEN \<rparr>"

definition buf_slice :: "nat \<Rightarrow> nat \<Rightarrow> 'b list \<Rightarrow> 'b list" where
  "buf_slice i n xs = take n (drop i xs)"

text \<open>\<^verbatim>\<open>sync_msg\<close>, whose four reads see the block at four times.\<close>

definition sync_msg_at ::
    "'a shm_lib \<Rightarrow> shm_reader \<Rightarrow> byte list \<Rightarrow> byte list \<Rightarrow> byte list \<Rightarrow> byte list \<Rightarrow> shm_exc + 'a" where
  "sync_msg_at lib r b1 b2 b3 b4 =
     (let rwlock = buf_slice 0 RWLOCK_LEN b1 in
      if rwlock \<noteq> RWLOCK_OPEN then Inl RWBusy
      else let input_hmac = buf_slice RWLOCK_LEN DIGEST_SIZE b2;
               payload_len = from_bytes (buf_slice (RWLOCK_LEN + DIGEST_SIZE) PAYLOAD_LEN_BYTES b3)
           in if int payload_len > sr_msg_max_size r then Inl SE_ValueError
              else let payload = buf_slice MIN_ENCAP_MSG_LEN payload_len b4
                   in if verify_msg lib (sr_key r) payload input_hmac
                      then (case sl_loads lib payload of Some obj \<Rightarrow> Inr obj | None \<Rightarrow> Inl SE_UnpicklingError)
                      else Inl SE_ValueError)"

definition sync_msg :: "'a shm_lib \<Rightarrow> shm_reader \<Rightarrow> byte list \<Rightarrow> shm_exc + 'a" where
  "sync_msg lib r buf = sync_msg_at lib r buf buf buf buf"

section \<open>Round trip\<close>

lemmas shm_consts = RWLOCK_LEN_def PAYLOAD_LEN_BYTES_def DIGEST_SIZE_def MIN_ENCAP_MSG_LEN_def

lemma to_bytes4_Some: "to_bytes4 n = Some bs \<Longrightarrow> length bs = 4 \<and> from_bytes bs = n \<and> n < 2 ^ 32"
proof -
  assume a: "to_bytes4 n = Some bs"
  then have n: "n < 2 ^ 32" by (simp add: to_bytes4_def split: if_splits)
  then have "n div 2 ^ 24 < 256" by (simp add: div_less_iff_less_mult)
  then have u: "unat (of_nat (n div 2 ^ 24) :: byte) = n div 2 ^ 24" "unat (of_nat (n div 2 ^ 16 mod 256) :: byte) = n div 2 ^ 16 mod 256"
     "unat (of_nat (n div 2 ^ 8 mod 256) :: byte) = n div 2 ^ 8 mod 256" "unat (of_nat (n mod 256) :: byte) = n mod 256"
    by (simp_all add: unat_of_nat)
  have "256 * (256 * (256 * (n div 2 ^ 24) + n div 2 ^ 16 mod 256) + n div 2 ^ 8 mod 256) + n mod 256 = n"
  proof -
    have "256 * (n div 2 ^ 24) + n div 2 ^ 16 mod 256 = n div 2 ^ 16"
      using div_mult2_eq [of n "2 ^ 16" 256] mult_div_mod_eq [of 256 "n div 2 ^ 16"] by simp
    moreover have "256 * (n div 2 ^ 16) + n div 2 ^ 8 mod 256 = n div 2 ^ 8"
      using div_mult2_eq [of n "2 ^ 8" 256] mult_div_mod_eq [of 256 "n div 2 ^ 8"] by simp
    ultimately show ?thesis by simp
  qed
  then show ?thesis using a n u by (auto simp: to_bytes4_def from_bytes_def)
qed

lemma encap_msg_Inr:
  assumes "encap_msg lib w obj = Inr msg"
  obtains lb where "to_bytes4 (length (sl_dumps lib obj)) = Some lb"
    "msg = RWLOCK_LOCKED @ sl_hmac lib (sw_key w) (sl_dumps lib obj) @ lb @ sl_dumps lib obj"
    "length msg \<le> sw_mem_size w" "length (sl_dumps lib obj) \<le> sw_msg_max_size w"
  using assms by (auto simp: encap_msg_def cal_hmac_def Let_def split: if_splits option.splits)

lemma write_msg_Inr:
  assumes "write_msg lib w obj buf = (Inr u, buf')"
  obtains lb where "to_bytes4 (length (sl_dumps lib obj)) = Some lb"
    "buf' = RWLOCK_OPEN @ sl_hmac lib (sw_key w) (sl_dumps lib obj) @ lb @ sl_dumps lib obj
       @ drop (length (RWLOCK_LOCKED @ sl_hmac lib (sw_key w) (sl_dumps lib obj) @ lb @ sl_dumps lib obj)) buf"
    "length (RWLOCK_LOCKED @ sl_hmac lib (sw_key w) (sl_dumps lib obj) @ lb @ sl_dumps lib obj) \<le> sw_mem_size w"
proof -
  obtain msg where m: "encap_msg lib w obj = Inr msg" "buf' = overwrite RWLOCK_OPEN (overwrite msg buf)"
    using assms by (auto simp: write_msg_def split: sum.splits)
  from m(1) show thesis
  proof (rule encap_msg_Inr)
    fix lb assume "to_bytes4 (length (sl_dumps lib obj)) = Some lb"
      "msg = RWLOCK_LOCKED @ sl_hmac lib (sw_key w) (sl_dumps lib obj) @ lb @ sl_dumps lib obj" "length msg \<le> sw_mem_size w"
    then show thesis using that m(2) by (simp add: overwrite_def RWLOCK_OPEN_def RWLOCK_LOCKED_def)
  qed
qed

text \<open>
  The reader works on the writer's block: same key, same size; and what the sources rely on of the libraries: an HMAC-SHA512
  has 64 bytes, and what was pickled can be loaded again.
\<close>

definition connected :: "'a shm_lib \<Rightarrow> shm_writer \<Rightarrow> shm_reader \<Rightarrow> byte list \<Rightarrow> bool" where
  "connected lib w r buf \<longleftrightarrow> sr_key r = sw_key w \<and> length buf = sw_mem_size w
     \<and> sr_msg_max_size r = int (sw_mem_size w) - int MIN_ENCAP_MSG_LEN
     \<and> (\<forall>p. length (sl_hmac lib (sw_key w) p) = DIGEST_SIZE) \<and> (\<forall>obj. sl_loads lib (sl_dumps lib obj) = Some obj)"

lemma written_layout:
  assumes "connected lib w r buf" and "write_msg lib w obj buf = (Inr u, buf')"
  shows "length buf' = length buf" "buf_slice 0 RWLOCK_LEN buf' = RWLOCK_OPEN"
    "buf_slice RWLOCK_LEN DIGEST_SIZE buf' = sl_hmac lib (sw_key w) (sl_dumps lib obj)"
    "from_bytes (buf_slice (RWLOCK_LEN + DIGEST_SIZE) PAYLOAD_LEN_BYTES buf') = length (sl_dumps lib obj)"
    "buf_slice MIN_ENCAP_MSG_LEN (length (sl_dumps lib obj)) buf' = sl_dumps lib obj"
    "length (sl_dumps lib obj) + MIN_ENCAP_MSG_LEN \<le> length buf"
proof -
  have h: "length (sl_hmac lib (sw_key w) (sl_dumps lib obj)) = 64"
    and n: "length buf = sw_mem_size w" using assms(1) by (simp_all add: connected_def DIGEST_SIZE_def)
  obtain lb where lb: "to_bytes4 (length (sl_dumps lib obj)) = Some lb"
    and buf': "buf' = RWLOCK_OPEN @ sl_hmac lib (sw_key w) (sl_dumps lib obj) @ lb @ sl_dumps lib obj
       @ drop (length (RWLOCK_LOCKED @ sl_hmac lib (sw_key w) (sl_dumps lib obj) @ lb @ sl_dumps lib obj)) buf"
    and len: "length (RWLOCK_LOCKED @ sl_hmac lib (sw_key w) (sl_dumps lib obj) @ lb @ sl_dumps lib obj) \<le> sw_mem_size w"
    by (rule write_msg_Inr [OF assms(2)])
  note l = to_bytes4_Some [OF lb]
  show "length buf' = length buf" using h l n len by (simp add: buf' RWLOCK_OPEN_def RWLOCK_LOCKED_def)
  show "buf_slice 0 RWLOCK_LEN buf' = RWLOCK_OPEN" by (simp add: buf' buf_slice_def RWLOCK_OPEN_def RWLOCK_LEN_def)
  show "buf_slice RWLOCK_LEN DIGEST_SIZE buf' = sl_hmac lib (sw_key w) (sl_dumps lib obj)"
    using h by (simp add: buf' buf_slice_def RWLOCK_OPEN_def shm_consts)
  show "from_bytes (buf_slice (RWLOCK_LEN + DIGEST_SIZE) PAYLOAD_LEN_BYTES buf') = length (sl_dumps lib obj)"
    using h l by (simp add: buf' buf_slice_def RWLOCK_OPEN_def shm_consts)
  show "buf_slice MIN_ENCAP_MSG_LEN (length (sl_dumps lib obj)) buf' = sl_dumps lib obj"
    using h l by (simp add: buf' buf_slice_def RWLOCK_OPEN_def shm_consts)
  show "length (sl_dumps lib obj) + MIN_ENCAP_MSG_LEN \<le> length buf"
    using h l n len by (simp add: RWLOCK_LOCKED_def shm_consts)
qed

text \<open>
  What one process writes, the other one reads. A message that is accepted by the writer leaves a block of the same
  size from which the reader gets exactly that message; a message that is too long, also one of 4 GiB and more, is
  refused and leaves the previous one to be read.
\<close>

lemma status_written_is_read:
  assumes "connected lib w r buf"
  shows "case write_msg lib w obj buf of
      (Inr _, buf') \<Rightarrow> sync_msg lib r buf' = Inr obj \<and> length buf' = length buf
    | (Inl x, buf') \<Rightarrow> buf' = buf \<and> x \<in> {SE_ValueError, SE_OverflowError}
        \<and> (length (sl_dumps lib obj) > sw_msg_max_size w \<or> length (sl_dumps lib obj) \<ge> 2 ^ 32
           \<or> length (sl_dumps lib obj) + MIN_ENCAP_MSG_LEN > length buf)"
proof (cases "write_msg lib w obj buf")
  case (Pair x buf')
  show ?thesis
  proof (cases x)
    case (Inr u)
    note l = written_layout [OF assms Pair [unfolded Inr]]
    have "sync_msg lib r buf' = Inr obj"
      using assms l(6) unfolding sync_msg_def sync_msg_at_def l
      by (simp add: connected_def l verify_msg_def)
    then show ?thesis using Pair Inr l(1) by simp
  next
    case (Inl e)
    then show ?thesis using Pair assms
      by (auto simp: write_msg_def encap_msg_def Let_def cal_hmac_def connected_def to_bytes4_def RWLOCK_LOCKED_def
          shm_consts split: if_splits sum.splits option.splits)
  qed
qed

section \<open>Reading while a message is written\<close>

text \<open>A message that is partly copied, front to back, is not read: its first byte is the lock.\<close>

lemma partial_write_is_busy:
  assumes "encap_msg lib w obj = Inr msg" and "0 < k"
  shows "sync_msg lib r (take k msg @ drop k buf) = Inl RWBusy"
proof -
  have "\<exists>m. msg = 0xab # m" using encap_msg_Inr [OF assms(1)] by (metis RWLOCK_LOCKED_def append_Cons append_Nil)
  then have "buf_slice 0 RWLOCK_LEN (take k msg @ drop k buf) = RWLOCK_LOCKED"
    using assms(2) by (cases k) (auto simp: buf_slice_def RWLOCK_LEN_def RWLOCK_LOCKED_def)
  then show ?thesis by (simp add: sync_msg_def sync_msg_at_def RWLOCK_LOCKED_def RWLOCK_OPEN_def)
qed

text \<open>A block in which every byte behind the lock is the one of the old or the one of the new message.\<close>

definition mixed :: "byte list \<Rightarrow> byte list \<Rightarrow> byte list \<Rightarrow> bool" where
  "mixed old new b \<longleftrightarrow> length b = length old \<and> (\<forall>i. 0 < i \<and> i < length b \<longrightarrow> b ! i \<in> {old ! i, new ! i})"

text \<open>
  What an HMAC is relied on for: a digest whose bytes are all taken from the digests of two messages under the secret key is
  the digest of no third message.
\<close>

definition no_forgery :: "'a shm_lib \<Rightarrow> byte list \<Rightarrow> byte list \<Rightarrow> byte list \<Rightarrow> bool" where
  "no_forgery lib key p q \<longleftrightarrow> (\<forall>m. (\<forall>i<DIGEST_SIZE. sl_hmac lib key m ! i \<in> {sl_hmac lib key p ! i, sl_hmac lib key q ! i})
     \<longrightarrow> m \<in> {p, q})"

lemma buf_slice_nth: "i < n \<Longrightarrow> j + n \<le> length b \<Longrightarrow> buf_slice j n b ! i = b ! (j + i)"
  by (simp add: buf_slice_def)

lemma mixed_hmac:
  assumes "mixed old new b" "length new = length old" "MIN_ENCAP_MSG_LEN \<le> length old" "i < DIGEST_SIZE"
  shows "buf_slice RWLOCK_LEN DIGEST_SIZE b ! i \<in> {buf_slice RWLOCK_LEN DIGEST_SIZE old ! i, buf_slice RWLOCK_LEN DIGEST_SIZE new ! i}"
proof -
  have "RWLOCK_LEN + DIGEST_SIZE \<le> length old" using assms(3) by (simp add: shm_consts)
  then show ?thesis using assms
    by (simp add: buf_slice_nth mixed_def) (simp add: shm_consts)
qed


text \<open>A library to run the sample with: two objects, three digests.\<close>

definition sample_shm_lib :: "bool shm_lib" where
  "sample_shm_lib = \<lparr> sl_hmac = (\<lambda>key p. replicate 64 (if p = [1] then 1 else if p = [0] then 2 else 3)),
     sl_dumps = (\<lambda>b. if b then [1] else [0]), sl_loads = (\<lambda>p. if p = [1] then Some True else if p = [0] then Some False else None) \<rparr>"

definition sample_shm_writer :: shm_writer where
  "sample_shm_writer = \<lparr> sw_key = [7], sw_mem_size = 80, sw_msg_max_size = 11 \<rparr>"

lemma sample_connected: "connected sample_shm_lib sample_shm_writer (reader_init [7] 80) (replicate 80 0)"
  by (simp add: connected_def sample_shm_lib_def sample_shm_writer_def reader_init_def DIGEST_SIZE_def)

lemma sample_write: "length buf = 80 \<Longrightarrow> \<exists>buf'. write_msg sample_shm_lib sample_shm_writer obj buf = (Inr (), buf')"
  by (simp add: write_msg_def encap_msg_def sample_shm_lib_def sample_shm_writer_def to_bytes4_def cal_hmac_def RWLOCK_LOCKED_def Let_def)


end
