(* ===== verification/Tree_Copy.thy ===== *)
theory Tree_Copy
  imports Prelude
begin

text \<open>
  \<^verbatim>\<open>copytree_identical\<close> (\<^verbatim>\<open>otaclient_common/common.py\<close>), with which the boot controllers carry a directory of the running
  slot over to the other one: the destination is updated in place and made identical to the source.

  A file system tree is a \<open>node\<close>: regular files, symbolic links and directories, the latter with their entries by name;
  \<open>meta\<close> stands for permission bits and owner. Whether a link resolves to a directory is not in the tree:
  \<open>sd\<close> and \<open>dd\<close> say it for the links of the source and of the destination, by their paths. \<^verbatim>\<open>os.walk\<close> visits a directory
  before its subdirectories and the loops touch nothing outside the directory they are in, so the walk is a recursion
  over the tree. Removal of a subtree is taken to succeed.
\<close>

section \<open>Trees\<close>

type_synonym meta = nat
type_synonym path = "string list"

datatype node = File meta string | Link string | Dir meta "(string \<times> node) list"

type_synonym entries = "(string \<times> node) list"

datatype copy_exc = CE_ValueError | CE_FileNotFound | CE_Through_Link

definition and_then :: "'e + 'a \<Rightarrow> ('a \<Rightarrow> 'e + 'b) \<Rightarrow> 'e + 'b" where
  "and_then m k = (case m of Inl e \<Rightarrow> Inl e | Inr a \<Rightarrow> k a)"

lemma and_then_Inr: "and_then m k = Inr b \<longleftrightarrow> (\<exists>a. m = Inr a \<and> k a = Inr b)"
  by (simp add: and_then_def split: sum.splits)

fun is_link :: "node option \<Rightarrow> bool" where
  "is_link (Some (Link _)) = True"
| "is_link _ = False"

fun is_directory :: "node option \<Rightarrow> bool" where
  "is_directory (Some (Dir _ _)) = True"
| "is_directory _ = False"

fun is_file_or_symlink :: "node option \<Rightarrow> bool" where
  "is_file_or_symlink (Some (File _ _)) = True"
| "is_file_or_symlink (Some (Link _)) = True"
| "is_file_or_symlink _ = False"

section \<open>The copy\<close>

text \<open>A link to a directory is listed among the directories by \<^verbatim>\<open>os.walk\<close>, any other link among the files.\<close>

definition dir_link :: "(path \<Rightarrow> bool) \<Rightarrow> path \<Rightarrow> string \<times> node \<Rightarrow> bool" where
  "dir_link sd p e \<longleftrightarrow> is_link (Some (snd e)) \<and> sd (p @ [fst e])"

text \<open>
  Phase 1, the loop over the directories: links to directories are made anew. What is there is removed first, and it is an
  error when nothing is there.
\<close>

fun relink :: "(path \<Rightarrow> bool) \<Rightarrow> path \<Rightarrow> entries \<Rightarrow> entries \<Rightarrow> copy_exc + entries" where
  "relink sd p [] D = Inr D"
| "relink sd p ((n, s) # S) D =
     (if dir_link sd p (n, s)
      then (case map_of D n of None \<Rightarrow> Inl CE_FileNotFound | Some _ \<Rightarrow> relink sd p S (AList.update n s D))
      else relink sd p S D)"

text \<open>Phase 1, the loop over the files: what is there is replaced by a copy of the file or of the link.\<close>

fun populate :: "(path \<Rightarrow> bool) \<Rightarrow> path \<Rightarrow> entries \<Rightarrow> entries \<Rightarrow> entries" where
  "populate sd p [] D = D"
| "populate sd p ((n, s) # S) D =
     (if is_directory (Some s) \<or> dir_link sd p (n, s) then populate sd p S D
      else populate sd p S (AList.update n s D))"

text \<open>
  Where there is no directory yet, one is made, after the loop over the links to directories, which then finds nothing.
  If a link is in the place of the directory, that loop goes through it (\<open>CE_Through_Link\<close>; what it does there is
  outside of the tree).
\<close>

definition enter_dir :: "(path \<Rightarrow> bool) \<Rightarrow> path \<Rightarrow> meta \<Rightarrow> entries \<Rightarrow> node option \<Rightarrow> copy_exc + (meta \<times> entries)" where
  "enter_dir sd p m S d = (case d of
       Some (Dir dm D) \<Rightarrow> and_then (relink sd p S D) (\<lambda>D. Inr (dm, D))
     | _ \<Rightarrow> if list_ex (dir_link sd p) S
            then Inl (if is_link d then CE_Through_Link else CE_FileNotFound)
            else Inr (m, []))"

fun copy_node :: "(path \<Rightarrow> bool) \<Rightarrow> path \<Rightarrow> node \<Rightarrow> node option \<Rightarrow> copy_exc + node"
and copy_subs :: "(path \<Rightarrow> bool) \<Rightarrow> path \<Rightarrow> entries \<Rightarrow> entries \<Rightarrow> copy_exc + entries" where
  "copy_node sd p (Dir m S) d =
     and_then (enter_dir sd p m S d) (\<lambda>(dm, D).
       and_then (copy_subs sd p S (populate sd p S D)) (\<lambda>D. Inr (Dir dm D)))"
| "copy_node sd p s d = Inr s"
| "copy_subs sd p [] D = Inr D"
| "copy_subs sd p ((n, s) # S) D =
     (if is_directory (Some s)
      then and_then (copy_node sd (p @ [n]) s (map_of D n)) (\<lambda>d. copy_subs sd p S (AList.update n d D))
      else copy_subs sd p S D)"

text \<open>Phase 2: what is not in the source is removed, by its kind in the destination.\<close>

definition src_child :: "node option \<Rightarrow> string \<Rightarrow> node option" where
  "src_child s n = (case s of Some (Dir _ S) \<Rightarrow> map_of S n | _ \<Rightarrow> None)"

definition is_dir_on_src :: "(path \<Rightarrow> bool) \<Rightarrow> path \<Rightarrow> node option \<Rightarrow> bool" where
  "is_dir_on_src sd p s \<longleftrightarrow> is_directory s \<or> is_link s \<and> sd p"

fun prune :: "(path \<Rightarrow> bool) \<Rightarrow> (path \<Rightarrow> bool) \<Rightarrow> path \<Rightarrow> node option \<Rightarrow> node \<Rightarrow> node option"
and prune_entries :: "(path \<Rightarrow> bool) \<Rightarrow> (path \<Rightarrow> bool) \<Rightarrow> path \<Rightarrow> node option \<Rightarrow> entries \<Rightarrow> entries" where
  "prune sd dd p s (Dir m D) = (if is_dir_on_src sd p s then Some (Dir m (prune_entries sd dd p s D)) else None)"
| "prune sd dd p s (Link t) =
     (if dd p then (if is_link s then Some (Link t) else None)
      else (if is_file_or_symlink s then Some (Link t) else None))"
| "prune sd dd p s (File m c) = (if is_file_or_symlink s then Some (File m c) else None)"
| "prune_entries sd dd p s [] = []"
| "prune_entries sd dd p s ((n, d) # D) =
     (case prune sd dd (p @ [n]) (src_child s n) d of
        None \<Rightarrow> prune_entries sd dd p s D
      | Some d' \<Rightarrow> (n, d') # prune_entries sd dd p s D)"

text \<open>
  The whole function. \<open>made\<close> is the metadata of a directory that is made with the mode of the source. Phase 2 looks at the
  links of the destination as they are after phase 1.
\<close>

definition copytree_identical ::
    "(path \<Rightarrow> bool) \<Rightarrow> (path \<Rightarrow> bool) \<Rightarrow> (meta \<Rightarrow> meta) \<Rightarrow> node option \<Rightarrow> node option \<Rightarrow> copy_exc + node option" where
  "copytree_identical sd dd made src dst =
     (case src of
        Some (Dir m S) \<Rightarrow>
          let dst = (if is_directory dst then dst else Some (Dir (made m) []))
          in and_then (copy_node sd [] (Dir m S) dst) (\<lambda>d. Inr (prune sd dd [] src d))
      | _ \<Rightarrow> Inl CE_ValueError)"

section \<open>Identical trees\<close>

text \<open>What is at a path: a file with its content and metadata, a link with its target, a directory.\<close>

datatype kind = K_File meta string | K_Link string | K_Dir

fun kind_of :: "node \<Rightarrow> kind" where
  "kind_of (File m c) = K_File m c"
| "kind_of (Link t) = K_Link t"
| "kind_of (Dir _ _) = K_Dir"

fun node_at :: "node \<Rightarrow> path \<Rightarrow> node option" where
  "node_at d [] = Some d"
| "node_at (Dir m D) (n # p) = (case map_of D n of None \<Rightarrow> None | Some d \<Rightarrow> node_at d p)"
| "node_at _ (n # p) = None"

definition same_tree :: "node \<Rightarrow> node \<Rightarrow> bool" where
  "same_tree s d \<longleftrightarrow> (\<forall>p. map_option kind_of (node_at s p) = map_option kind_of (node_at d p))"

text \<open>The entries of a directory have different names.\<close>

fun wf_node :: "node \<Rightarrow> bool" where
  "wf_node (Dir _ D) = (distinct (map fst D) \<and> (\<forall>e\<in>set D. wf_node (snd e)))"
| "wf_node _ = True"

text \<open>After phase 1 the destination has everything the source has, and maybe more.\<close>

fun covers :: "node \<Rightarrow> node \<Rightarrow> bool" where
  "covers (Dir m S) d = (case d of Dir dm D \<Rightarrow>
      (\<forall>e\<in>set S. case map_of D (fst e) of Some d' \<Rightarrow> covers (snd e) d' | None \<Rightarrow> False) | _ \<Rightarrow> False)"
| "covers s d = (d = s)"

section \<open>Phase 1\<close>

lemma relink_map_of:
  "relink sd p S D = Inr D' \<Longrightarrow> distinct (map fst S) \<Longrightarrow>
     map_of D' n = (case map_of S n of Some s \<Rightarrow> if dir_link sd p (n, s) then Some s else map_of D n | None \<Rightarrow> map_of D n)"
proof (induction sd p S D rule: relink.induct)
  case (2 sd p k s S D)
  have "map_of S k = None" using 2(4) by (auto simp: map_of_eq_None_iff)
  then show ?case using 2
    by (auto simp: update_conv split: if_splits option.splits)
qed simp

lemma populate_map_of:
  "distinct (map fst S) \<Longrightarrow>
     map_of (populate sd p S D) n = (case map_of S n of
       Some s \<Rightarrow> if is_directory (Some s) \<or> dir_link sd p (n, s) then map_of D n else Some s | None \<Rightarrow> map_of D n)"
proof (induction sd p S D rule: populate.induct)
  case (2 sd p k s S D)
  have "map_of S k = None" using 2(3) by (auto simp: map_of_eq_None_iff)
  then show ?case using 2 by (auto simp: update_conv split: if_splits option.splits)
qed simp

lemma copy_subs_map_of:
  "copy_subs sd p S D = Inr D' \<Longrightarrow> distinct (map fst S) \<Longrightarrow>
     (case map_of S n of
        Some s \<Rightarrow> if is_directory (Some s) then \<exists>d. copy_node sd (p @ [n]) s (map_of D n) = Inr d \<and> map_of D' n = Some d
                else map_of D' n = map_of D n
      | None \<Rightarrow> map_of D' n = map_of D n)"
proof (induction S arbitrary: D)
  case (Cons e S)
  obtain k s where e: "e = (k, s)" by (cases e)
  have k: "map_of S k = None" using Cons.prems(2) e by (auto simp: map_of_eq_None_iff)
  show ?case
  proof (cases "is_directory (Some s)")
    case True
    then obtain d where d: "copy_node sd (p @ [k]) s (map_of D k) = Inr d" "copy_subs sd p S (AList.update k d D) = Inr D'"
      using Cons.prems(1) e by (auto simp: and_then_Inr)
    have ih: "case map_of S n of
        Some s \<Rightarrow> if is_directory (Some s) then \<exists>d'. copy_node sd (p @ [n]) s (map_of (AList.update k d D) n) = Inr d' \<and> map_of D' n = Some d'
                else map_of D' n = map_of (AList.update k d D) n
      | None \<Rightarrow> map_of D' n = map_of (AList.update k d D) n"
      using Cons.IH [OF d(2)] Cons.prems(2) e by simp
    show ?thesis using ih d(1) k True e by (cases "n = k"; cases "map_of S n") (auto simp: update_conv)
  next
    case False
    then have "copy_subs sd p S D = Inr D'" using Cons.prems(1) e by simp
    from Cons.IH [OF this] Cons.prems(2) k False e show ?thesis by (cases "n = k") auto
  qed
qed simp

lemma enter_dir_map_of:
  assumes "enter_dir sd p m S d = Inr (dm, D)" "distinct (map fst S)" "map_of S n = Some s" "dir_link sd p (n, s)"
  shows "map_of D n = Some s"
proof -
  have "list_ex (dir_link sd p) S" using assms(3,4) by (auto simp: list_ex_iff dest!: map_of_SomeD)
  then obtain dm' D0 where "d = Some (Dir dm' D0)" "relink sd p S D0 = Inr D"
    using assms(1) by (auto simp: enter_dir_def and_then_Inr split: option.splits node.splits if_splits)
  from relink_map_of [OF this(2) assms(2)] show ?thesis using assms(3,4) by simp
qed

lemma copy_node_covers: "copy_node sd p s d = Inr d' \<Longrightarrow> wf_node s \<Longrightarrow> covers s d'"
proof (induction s arbitrary: p d d')
  case (Dir m S)
  obtain dm D D' where e: "enter_dir sd p m S d = Inr (dm, D)" and c: "copy_subs sd p S (populate sd p S D) = Inr D'"
    and d': "d' = Dir dm D'"
    using Dir.prems(1) by (auto simp: and_then_Inr)
  have dist: "distinct (map fst S)" using Dir.prems(2) by simp
  have "case map_of D' n of Some d \<Rightarrow> covers s d | None \<Rightarrow> False" if s: "(n, s) \<in> set S" for n s
  proof -
    have m: "map_of S n = Some s" using s dist by simp
    note sub = copy_subs_map_of [OF c dist, of n]
    show ?thesis
    proof (cases "is_directory (Some s)")
      case True
      then obtain d1 where d1: "copy_node sd (p @ [n]) s (map_of (populate sd p S D) n) = Inr d1" "map_of D' n = Some d1"
        using sub m by auto
      have "covers s d1" by (rule Dir.IH [OF s _ d1(1)]) (use Dir.prems(2) s in \<open>auto simp: snds.simps\<close>)
      then show ?thesis using d1(2) by simp
    next
      case False
      then have "map_of D' n = map_of (populate sd p S D) n" using sub m by simp
      also have "\<dots> = Some s"
        using populate_map_of [OF dist, of sd p D n] enter_dir_map_of [OF e dist m] m False by auto
      finally show ?thesis using False by (cases s) auto
    qed
  qed
  then show ?case using d' by auto
qed auto

text \<open>Names stay distinct.\<close>

definition wf_entries :: "entries \<Rightarrow> bool" where
  "wf_entries D \<longleftrightarrow> distinct (map fst D) \<and> (\<forall>e\<in>set D. wf_node (snd e))"

lemma wf_Dir: "wf_node (Dir m D) = wf_entries D"
  by (simp add: wf_entries_def)

lemma wf_update: "wf_entries D \<Longrightarrow> wf_node d \<Longrightarrow> wf_entries (AList.update n d D)"
  unfolding wf_entries_def using update_mem [of _ _ n d D] by (fastforce simp: distinct_update)

lemma wf_relink: "relink sd p S D = Inr D' \<Longrightarrow> \<forall>e\<in>set S. wf_node (snd e) \<Longrightarrow> wf_entries D \<Longrightarrow> wf_entries D'"
  by (induction sd p S D rule: relink.induct) (auto simp: wf_update split: if_splits option.splits)

lemma wf_populate: "\<forall>e\<in>set S. wf_node (snd e) \<Longrightarrow> wf_entries D \<Longrightarrow> wf_entries (populate sd p S D)"
  by (induction sd p S D rule: populate.induct) (auto simp: wf_update split: if_splits)

lemma wf_enter_dir:
  assumes "enter_dir sd p m S d = Inr (dm, D)" "\<forall>e\<in>set S. wf_node (snd e)" "\<forall>x. d = Some x \<longrightarrow> wf_node x"
  shows "wf_entries D"
proof (cases "is_directory d")
  case True
  then obtain m0 D0 where d: "d = Some (Dir m0 D0)" by (cases d rule: is_directory.cases) auto
  then have "relink sd p S D0 = Inr D" using assms(1) by (auto simp: enter_dir_def and_then_Inr)
  then show ?thesis using wf_relink assms(2,3) d wf_Dir by blast
next
  case False
  then have "D = []" using assms(1) by (auto simp: enter_dir_def split: option.splits node.splits if_splits)
  then show ?thesis by (simp add: wf_entries_def)
qed

lemma wf_entry: "wf_entries D \<Longrightarrow> map_of D n = Some d \<Longrightarrow> wf_node d"
  by (auto simp: wf_entries_def dest!: map_of_SomeD)

lemma wf_copy:
  "copy_node sd p s d = Inr d' \<Longrightarrow> wf_node s \<Longrightarrow> \<forall>x. d = Some x \<longrightarrow> wf_node x \<Longrightarrow> wf_node d'"
  "copy_subs sd p S D = Inr D' \<Longrightarrow> \<forall>e\<in>set S. wf_node (snd e) \<Longrightarrow> wf_entries D \<Longrightarrow> wf_entries D'"
proof (induction sd p s d and sd p S D arbitrary: d' and D' rule: copy_node_copy_subs.induct)
  case (1 sd p m S d)
  obtain dm D D' where e: "enter_dir sd p m S d = Inr (dm, D)" and c: "copy_subs sd p S (populate sd p S D) = Inr D'"
    and d': "d' = Dir dm D'" using 1(2) by (auto simp: and_then_Inr)
  have S: "\<forall>e\<in>set S. wf_node (snd e)" using 1(3) by simp
  have "wf_entries (populate sd p S D)" using wf_populate [OF S wf_enter_dir [OF e S 1(4)]] .
  then have "wf_entries D'" using 1(1) [OF c S] e by blast
  then show ?case using d' wf_Dir by simp
next
  case (4 sd p n s S D)
  show ?case
  proof (cases "is_directory (Some s)")
    case True
    then obtain d where d: "copy_node sd (p @ [n]) s (map_of D n) = Inr d" "copy_subs sd p S (AList.update n d D) = Inr D'"
      using 4(4) by (auto simp: and_then_Inr)
    have "wf_node d" using 4(1) [OF True d(1)] 4(5,6) wf_entry by auto
    then show ?thesis using 4(2) [OF True d(2)] 4(5,6) wf_update by auto
  next
    case False
    then show ?thesis using 4 by auto
  qed
qed auto

section \<open>Phase 2\<close>

lemma prune_entries_map_of:
  "distinct (map fst D) \<Longrightarrow> map_of (prune_entries sd dd p s D) n =
     (case map_of D n of None \<Rightarrow> None | Some d \<Rightarrow> prune sd dd (p @ [n]) (src_child s n) d)"
proof (induction D)
  case (Cons e D)
  obtain k d where e: "e = (k, d)" by (cases e)
  have "map_of D k = None" using Cons.prems e by (auto simp: map_of_eq_None_iff)
  then show ?case using Cons e by (auto split: option.splits)
qed simp

text \<open>What the source does not have is removed.\<close>

lemma prune_None: "prune sd dd p None d = None"
  by (cases d) (auto simp: is_dir_on_src_def)

lemma prune_covered:
  "covers s d \<Longrightarrow> wf_node s \<Longrightarrow> wf_node d \<Longrightarrow>
     \<exists>d'. prune sd dd p (Some s) d = Some d' \<and> (\<forall>q. map_option kind_of (node_at s q) = map_option kind_of (node_at d' q))"
proof (induction s arbitrary: d p)
  case (Dir m S)
  obtain dm D where d: "d = Dir dm D" and cov: "\<And>n s. (n, s) \<in> set S \<Longrightarrow> \<exists>d'. map_of D n = Some d' \<and> covers s d'"
    using Dir.prems(1) by (fastforce split: node.splits option.splits)
  let ?E = "prune_entries sd dd p (Some (Dir m S)) D"
  have dist: "distinct (map fst D)" "distinct (map fst S)" using Dir.prems d by auto
  have p: "prune sd dd p (Some (Dir m S)) d = Some (Dir dm ?E)" by (simp add: d is_dir_on_src_def)
  have child: "map_option kind_of (case map_of S n of None \<Rightarrow> None | Some x \<Rightarrow> node_at x q)
      = map_option kind_of (case map_of ?E n of None \<Rightarrow> None | Some x \<Rightarrow> node_at x q)" for n q
  proof (cases "map_of S n")
    case None
    then show ?thesis using dist by (simp add: prune_entries_map_of src_child_def prune_None split: option.splits)
  next
    case (Some s)
    then have s: "(n, s) \<in> set S" by (rule map_of_SomeD)
    obtain d1 where d1: "map_of D n = Some d1" "covers s d1" using cov [OF s] by blast
    have "wf_node s" "wf_node d1" using Dir.prems(2,3) s d d1(1) by (auto dest!: map_of_SomeD)
    then obtain d2 where "prune sd dd (p @ [n]) (Some s) d1 = Some d2"
        "map_option kind_of (node_at s q) = map_option kind_of (node_at d2 q)"
      using Dir.IH [OF s _ d1(2)] by (auto simp: snds.simps)
    then show ?thesis using Some d1(1) dist by (simp add: prune_entries_map_of src_child_def)
  qed
  have "map_option kind_of (node_at (Dir m S) q) = map_option kind_of (node_at (Dir dm ?E) q)" for q
    using child by (cases q) auto
  then show ?case using p by blast
qed (auto simp: is_dir_on_src_def)

section \<open>The whole copy\<close>

text \<open>A source without links to directories.\<close>

fun no_dir_links :: "(path \<Rightarrow> bool) \<Rightarrow> path \<Rightarrow> node \<Rightarrow> bool" where
  "no_dir_links sd p (Dir m S) = (\<forall>e\<in>set S. \<not> dir_link sd p e \<and> no_dir_links sd (p @ [fst e]) (snd e))"
| "no_dir_links sd p s = True"

lemma relink_none: "\<forall>e\<in>set S. \<not> dir_link sd p e \<Longrightarrow> relink sd p S D = Inr D"
  by (induction sd p S D rule: relink.induct) auto

lemma copy_returns:
  "no_dir_links sd p s \<Longrightarrow> \<exists>d'. copy_node sd p s d = Inr d'"
  "\<forall>e\<in>set S. no_dir_links sd (p @ [fst e]) (snd e) \<Longrightarrow> \<exists>D'. copy_subs sd p S D = Inr D'"
proof (induction sd p s d and sd p S D rule: copy_node_copy_subs.induct)
  case (1 sd p m S d)
  have "\<exists>dm D. enter_dir sd p m S d = Inr (dm, D)"
    using 1(2) relink_none [of S sd p] by (auto simp: enter_dir_def list_ex_iff and_then_def split: option.split node.split)
  then obtain dm D where e: "enter_dir sd p m S d = Inr (dm, D)" by blast
  then obtain D' where "copy_subs sd p S (populate sd p S D) = Inr D'" using 1 by fastforce
  then show ?case using e by (simp add: and_then_def)
next
  case (4 sd p n s S D)
  then show ?case by (fastforce simp: and_then_def)
qed auto

lemma copied_tree:
  assumes r: "copytree_identical sd dd made (Some src) dst = Inr r"
    and wf: "wf_node src" "\<forall>x. dst = Some x \<longrightarrow> wf_node x"
  shows "\<exists>d. r = Some d \<and> same_tree src d"
proof -
  obtain m S where src: "src = Dir m S" using r by (cases src) (auto simp: copytree_identical_def)
  let ?dst = "if is_directory dst then dst else Some (Dir (made m) [])"
  obtain d where d: "copy_node sd [] src ?dst = Inr d" "r = prune sd dd [] (Some src) d"
    using r src by (auto simp: copytree_identical_def Let_def and_then_Inr)
  have "wf_node d" by (rule wf_copy(1) [OF d(1) wf(1)]) (use wf(2) in auto)
  with copy_node_covers [OF d(1) wf(1)] show ?thesis
    using prune_covered [of src d sd dd "[]"] wf(1) d(2) by (auto simp: same_tree_def)
qed



text \<open>
  A link to a directory makes the copy fail where the destination does not have that name yet: the link is made after
  an unconditional removal of what is in its place, which raises \<^verbatim>\<open>FileNotFoundError\<close>. So a directory with such a link is
  never carried over to a slot that does not have it already.
\<close>

lemma link_to_directory_breaks_copy:
  assumes "(n, Link t) \<in> set S" and "sd [n]" and "\<not> is_directory dst"
  shows "copytree_identical sd dd made (Some (Dir m S)) dst = Inl CE_FileNotFound"
proof -
  have "relink sd [] S [] = Inl CE_FileNotFound" using assms(1)
  proof (induction S)
    case (Cons e S)
    obtain k s where e: "e = (k, s)" by (cases e)
    show ?case using Cons e assms(2) by (cases "dir_link sd [] (k, s)") (auto simp: dir_link_def)
  qed simp
  then show ?thesis using assms(3) by (simp add: copytree_identical_def enter_dir_def and_then_def)
qed

end
