(* ===== verification/OTA_Config_Files.thy ===== *)
theory OTA_Config_Files
  imports Tree_Copy Py_Numbers
begin

text \<open>
  The OTA config files of the next boot (\<^verbatim>\<open>otaclient/boot_control/_ota_config_files.py\<close>): which of \<^verbatim>\<open>ecu_info.yaml\<close> and
  \<^verbatim>\<open>proxy_info.yaml\<close> are taken from the OTA image, and how they and the rest of \<^verbatim>\<open>/boot/ota\<close> reach the standby slot.

  The folder \<^verbatim>\<open>/boot/ota\<close> of the image, of the active and of the standby slot are trees (\<open>Tree_Copy\<close>). The YAML parser with
  the pydantic models is a parameter (\<open>config_env\<close>): the ECU id of a valid \<^verbatim>\<open>ecu_info.yaml\<close>, whether a text is a valid
  \<^verbatim>\<open>proxy_info.yaml\<close>, and whether bytes are UTF-8.
\<close>

section \<open>Paths\<close>

text \<open>
  \<^verbatim>\<open>PurePosixPath(os.path.normpath(s))\<close>: the number of slashes at the root (exactly two stay two) and the components.
\<close>

fun norm_comps :: "bool \<Rightarrow> string list \<Rightarrow> string list \<Rightarrow> string list" where
  "norm_comps absolute acc [] = rev acc"
| "norm_comps absolute acc (c # cs) =
     (if c = '''' \<or> c = ''.'' then norm_comps absolute acc cs
      else if c \<noteq> ''..'' \<or> (\<not> absolute \<and> acc = []) \<or> (acc \<noteq> [] \<and> hd acc = ''..'') then norm_comps absolute (c # acc) cs
      else norm_comps absolute (drop 1 acc) cs)"

definition pure_path :: "string \<Rightarrow> nat \<times> string list" where
  "pure_path s =
     (let slashes = (if take 1 s \<noteq> ''/'' then 0 else if take 2 s = ''//'' \<and> take 3 s \<noteq> ''///'' then 2 else 1)
      in (slashes, norm_comps (slashes \<noteq> 0) [] (split_on (CHR ''/'') s)))"

definition ECU_INFO_FNAME :: string where "ECU_INFO_FNAME = ''ecu_info.yaml''"
definition PROXY_INFO_FNAME :: string where "PROXY_INFO_FNAME = ''proxy_info.yaml''"
definition OTA_DPATH :: "string list" where "OTA_DPATH = [''boot'', ''ota'']"

text \<open>Listed in the persist files, by itself or by one of its parents.\<close>

definition is_persisted :: "string list \<Rightarrow> string list \<Rightarrow> bool" where
  "is_persisted fpath persist_entries \<longleftrightarrow>
     (\<exists>entry\<in>set persist_entries. fst (pure_path entry) = 1 \<and> take (length (snd (pure_path entry))) fpath = snd (pure_path entry)
        \<and> length (snd (pure_path entry)) \<le> length fpath)"

section \<open>Loading from the image\<close>

record ota_config_files =
  cf_ecu_info :: "string option"
  cf_proxy_info :: "string option"

definition no_config_files :: ota_config_files where
  "no_config_files = \<lparr> cf_ecu_info = None, cf_proxy_info = None \<rparr>"

definition iter_files :: "ota_config_files \<Rightarrow> (string \<times> string) list" where
  "iter_files cf = (case cf_ecu_info cf of Some c \<Rightarrow> [(ECU_INFO_FNAME, c)] | None \<Rightarrow> [])
     @ (case cf_proxy_info cf of Some c \<Rightarrow> [(PROXY_INFO_FNAME, c)] | None \<Rightarrow> [])"

record config_env =
  ce_load_ecu_id :: "string \<Rightarrow> string option"
  ce_proxy_info_valid :: "string \<Rightarrow> bool"
  ce_utf8 :: "string \<Rightarrow> bool"

text \<open>Links are not followed, they would be resolved against the running system.\<close>

definition read_image_file :: "config_env \<Rightarrow> node option \<Rightarrow> string \<Rightarrow> string option" where
  "read_image_file env img fname = (case src_child img fname of
     Some (File _ content) \<Rightarrow> if ce_utf8 env content then Some content else None
   | _ \<Rightarrow> None)"

definition load_ota_config_files_from_image ::
    "config_env \<Rightarrow> node option \<Rightarrow> string list \<Rightarrow> string \<Rightarrow> ota_config_files" where
  "load_ota_config_files_from_image env img persist_entries current_ecu_id =
     (if is_link img then no_config_files
      else let load = (\<lambda>fname. if is_persisted (OTA_DPATH @ [fname]) persist_entries then None else read_image_file env img fname);
               ecu_info = load ECU_INFO_FNAME;
               proxy_info = load PROXY_INFO_FNAME;
               proxy_info = (case proxy_info of Some c \<Rightarrow> if ce_proxy_info_valid env c then Some c else None | None \<Rightarrow> None)
           in case ecu_info of
                None \<Rightarrow> \<lparr> cf_ecu_info = None, cf_proxy_info = proxy_info \<rparr>
              | Some c \<Rightarrow> (case ce_load_ecu_id env c of
                    None \<Rightarrow> \<lparr> cf_ecu_info = None, cf_proxy_info = proxy_info \<rparr>
                  | Some ecu_id \<Rightarrow>
                      if ecu_id \<noteq> current_ecu_id then no_config_files
                      else \<lparr> cf_ecu_info = Some c, cf_proxy_info = proxy_info \<rparr>))"

section \<open>Installing\<close>

text \<open>\<^verbatim>\<open>write_str_to_file_atomic\<close> without following links; a directory in the place is an error. New files have the metadata \<open>nm\<close>.\<close>

fun install_loop :: "meta \<Rightarrow> (string \<times> string) list \<Rightarrow> entries \<Rightarrow> entries option" where
  "install_loop nm [] D = Some D"
| "install_loop nm ((n, c) # fs) D =
     (if is_directory (map_of D n) then None else install_loop nm fs (AList.update n (File nm c) D))"

text \<open>The result is None for an exception. The folder is made when it is missing.\<close>

definition install_ota_config_files :: "meta \<Rightarrow> ota_config_files \<Rightarrow> node option \<Rightarrow> node option option" where
  "install_ota_config_files nm cf dst =
     (if iter_files cf = [] then Some dst
      else case dst of
          None \<Rightarrow> map_option (\<lambda>D. Some (Dir nm D)) (install_loop nm (iter_files cf) [])
        | Some (Dir m D) \<Rightarrow> map_option (\<lambda>D. Some (Dir m D)) (install_loop nm (iter_files cf) D)
        | _ \<Rightarrow> None)"

text \<open>
  \<^verbatim>\<open>/boot/ota\<close> of the standby slot becomes the one of the active slot, with the files of the image over it. Without one on
  the active slot nothing is done.
\<close>

definition preserve_ota_dir_and_install_config_files ::
    "(path \<Rightarrow> bool) \<Rightarrow> (path \<Rightarrow> bool) \<Rightarrow> (meta \<Rightarrow> meta) \<Rightarrow> meta \<Rightarrow> node option \<Rightarrow> node option \<Rightarrow> ota_config_files \<Rightarrow> node option option" where
  "preserve_ota_dir_and_install_config_files sd dd made nm active standby cf =
     (if \<not> is_dir_on_src sd [] active then Some standby
      else case copytree_identical sd dd made active standby of
          Inl _ \<Rightarrow> None
        | Inr d \<Rightarrow> install_ota_config_files nm cf d)"

section \<open>Backup and restore\<close>

text \<open>\<^verbatim>\<open>is_file\<close> and \<^verbatim>\<open>read_bytes\<close> follow links; \<open>through\<close> is the content of the file a link resolves to.\<close>

definition backup_ota_config_files ::
    "(string \<Rightarrow> string option) \<Rightarrow> entries \<Rightarrow> ota_config_files \<Rightarrow> (string \<times> string option) list" where
  "backup_ota_config_files through D cf = map (\<lambda>(n, _).
     (n, case map_of D n of Some (File _ c) \<Rightarrow> Some c | Some (Link _) \<Rightarrow> through n | _ \<Rightarrow> None)) (iter_files cf)"

text \<open>The names in \<open>fails\<close> are those whose restoration raises, which is only logged.\<close>

fun restore_ota_config_files :: "(string \<Rightarrow> bool) \<Rightarrow> meta \<Rightarrow> (string \<times> string option) list \<Rightarrow> entries \<Rightarrow> entries" where
  "restore_ota_config_files fails nm [] D = D"
| "restore_ota_config_files fails nm ((n, c) # b) D =
     restore_ota_config_files fails nm b
       (if fails n \<or> is_directory (map_of D n) then D
        else case c of None \<Rightarrow> AList.delete n D | Some x \<Rightarrow> AList.update n (File nm x) D)"

section \<open>What reaches the standby slot\<close>

text \<open>
  What is installed from an image was checked. An \<^verbatim>\<open>ecu_info.yaml\<close> that is loaded is a regular UTF-8 file of the
  image, valid, with the ECU id of this ECU, and not under the persist files; a \<^verbatim>\<open>proxy_info.yaml\<close> that is loaded is a
  valid regular file of the image, not under the persist files, and the image, as far as its \<^verbatim>\<open>ecu_info.yaml\<close> is looked
  at, is not for another ECU. Nothing is loaded through a link.
\<close>

lemma loaded_config_is_checked:
  assumes "load_ota_config_files_from_image env img persist ecu = cf"
  shows "(\<forall>c. cf_ecu_info cf = Some c \<longrightarrow> (\<exists>m. src_child img ECU_INFO_FNAME = Some (File m c)) \<and> ce_utf8 env c
            \<and> ce_load_ecu_id env c = Some ecu \<and> \<not> is_persisted (OTA_DPATH @ [ECU_INFO_FNAME]) persist \<and> \<not> is_link img)
    \<and> (\<forall>c. cf_proxy_info cf = Some c \<longrightarrow> (\<exists>m. src_child img PROXY_INFO_FNAME = Some (File m c)) \<and> ce_utf8 env c
            \<and> ce_proxy_info_valid env c \<and> \<not> is_persisted (OTA_DPATH @ [PROXY_INFO_FNAME]) persist \<and> \<not> is_link img
            \<and> (\<forall>x other. read_image_file env img ECU_INFO_FNAME = Some x \<and> ce_load_ecu_id env x = Some other
                 \<and> \<not> is_persisted (OTA_DPATH @ [ECU_INFO_FNAME]) persist \<longrightarrow> other = ecu))"
  unfolding assms [symmetric]
  by (auto simp: load_ota_config_files_from_image_def read_image_file_def no_config_files_def Let_def
      split: if_splits option.splits node.splits)

lemma install_loop_map_of:
  "install_loop nm fs D = Some D' \<Longrightarrow> distinct (map fst fs) \<Longrightarrow>
     map_of D' n = (case map_of fs n of Some c \<Rightarrow> Some (File nm c) | None \<Rightarrow> map_of D n)"
proof (induction nm fs D rule: install_loop.induct)
  case (2 nm k c fs D)
  have "map_of fs k = None" using 2(3) by (auto simp: map_of_eq_None_iff)
  then show ?case using 2 by (auto simp: update_conv split: if_splits option.splits)
qed simp

lemma iter_files_distinct: "distinct (map fst (iter_files cf))"
  by (simp add: iter_files_def ECU_INFO_FNAME_def PROXY_INFO_FNAME_def split: option.splits)



section \<open>Restoring\<close>

lemma restore_map_of:
  "distinct (map fst b) \<Longrightarrow> (\<And>k. k \<in> fst ` set b \<Longrightarrow> \<not> fails k \<and> \<not> is_directory (map_of D k)) \<Longrightarrow>
     map_of (restore_ota_config_files fails nm b D) n
       = (case map_of b n of Some (Some x) \<Rightarrow> Some (File nm x) | Some None \<Rightarrow> None | None \<Rightarrow> map_of D n)"
proof (induction fails nm b D rule: restore_ota_config_files.induct)
  case (2 fails nm k c b D)
  let ?D = "case c of None \<Rightarrow> AList.delete k D | Some x \<Rightarrow> AList.update k (File nm x) D"
  have k: "map_of b k = None" using 2(2) by (auto simp: map_of_eq_None_iff)
  have ok: "\<not> (fails k \<or> is_directory (map_of D k))" using 2(3) by auto
  have "\<not> fails j \<and> \<not> is_directory (map_of ?D j)" if "j \<in> fst ` set b" for j
    using 2(3) [of j] that k by (cases "j = k") (auto simp: update_conv delete_conv map_of_eq_None_iff split: option.splits)
  then show ?case using 2(1) 2(2) ok k
    by (auto simp: update_conv delete_conv split: option.splits)
qed simp

text \<open>
  Restoring after an installation that was done as far as it got: the config files have their former content again, those
  that were not there are gone and all others are untouched, provided that they were regular files and no step of the
  restoration fails.
\<close>

definition content_of :: "node option \<Rightarrow> string option" where
  "content_of d = (case d of Some (File _ c) \<Rightarrow> Some c | _ \<Rightarrow> None)"

lemma restore_undoes_install:
  assumes "\<And>n. n \<in> {ECU_INFO_FNAME, PROXY_INFO_FNAME} \<Longrightarrow> \<not> is_directory (map_of D n) \<and> \<not> is_link (map_of D n)"
    and "\<And>n. n \<notin> fst ` set (iter_files cf) \<Longrightarrow> map_of D' n = map_of D n"
    and "\<And>n. n \<in> fst ` set (iter_files cf) \<Longrightarrow> \<not> is_directory (map_of D' n)"
  shows "content_of (map_of (restore_ota_config_files (\<lambda>_. False) nm (backup_ota_config_files through D cf) D') n)
    = content_of (map_of D n)"
proof -
  let ?b = "backup_ota_config_files through D cf"
  have keys: "map fst ?b = map fst (iter_files cf)" by (simp add: backup_ota_config_files_def case_prod_unfold)
  have names: "fst ` set (iter_files cf) \<subseteq> {ECU_INFO_FNAME, PROXY_INFO_FNAME}"
    by (auto simp: iter_files_def split: option.splits)
  have r: "map_of (restore_ota_config_files (\<lambda>_. False) nm ?b D') n
      = (case map_of ?b n of Some (Some x) \<Rightarrow> Some (File nm x) | Some None \<Rightarrow> None | None \<Rightarrow> map_of D' n)"
    by (rule restore_map_of) (use keys iter_files_distinct [of cf] assms(3) in \<open>auto simp flip: set_map\<close>)
  have b: "map_of ?b n = (case map_of (iter_files cf) n of None \<Rightarrow> None
      | Some _ \<Rightarrow> Some (case map_of D n of Some (File _ c) \<Rightarrow> Some c | Some (Link _) \<Rightarrow> through n | _ \<Rightarrow> None))"
    by (auto simp: backup_ota_config_files_def iter_files_def ECU_INFO_FNAME_def PROXY_INFO_FNAME_def split: option.splits)
  show ?thesis
  proof (cases "map_of (iter_files cf) n")
    case None
    then have "n \<notin> fst ` set (iter_files cf)" by (simp add: map_of_eq_None_iff)
    then show ?thesis using r b None assms(2) by simp
  next
    case (Some c)
    then have "n \<in> fst ` set (iter_files cf)" by (metis fst_conv imageI map_of_SomeD)
    then have "\<not> is_directory (map_of D n) \<and> \<not> is_link (map_of D n)" using assms(1) names by blast
    then show ?thesis using r b Some by (auto simp: content_of_def split: option.splits node.splits)
  qed
qed

end
