(* ===== verification/Commands.thy ===== *)
theory Commands
  imports Py_Numbers
begin

text \<open>
  The helpers over command line tools (\<^verbatim>\<open>otaclient_common/cmdhelper.py\<close> with \<^verbatim>\<open>subprocess_call\<close> and
  \<^verbatim>\<open>subprocess_check_output\<close> of \<^verbatim>\<open>otaclient_common/common.py\<close>): the command lines they build, how they treat failures, and
  the retry loops of mounting and unmounting.

  The programs themselves are a parameter: \<open>run opts cmd\<close> is what running a command does to the world \<open>'w\<close>, its standard
  output, a non-zero exit status (\<^verbatim>\<open>CalledProcessError\<close>) or another exception of \<^verbatim>\<open>subprocess.run\<close>. What is assumed of
  \<^verbatim>\<open>findmnt\<close> and \<^verbatim>\<open>umount\<close> is stated as \<open>mount_tools\<close>.
\<close>

section \<open>Running commands\<close>

text \<open>\<open>Cmd_Exit\<close> is \<^verbatim>\<open>SystemExit\<close>, which \<^verbatim>\<open>except Exception\<close> does not catch; no command raises it.\<close>

datatype cmd_exc = CalledProcessError | Cmd_Other string | Cmd_Exit nat

datatype cmd_result = R_Ok string | R_Failed | R_Raise string

record cmd_opts =
  co_chroot :: "string option"
  co_host_mnt_ns :: bool

type_synonym 'w runner = "cmd_opts \<Rightarrow> string list \<Rightarrow> 'w \<Rightarrow> cmd_result \<times> 'w"
type_synonym ('w, 'a) cmd_io = "('w, cmd_exc, 'a) io"

definition here :: cmd_opts where "here = \<lparr> co_chroot = None, co_host_mnt_ns = False \<rparr>"
definition in_chroot :: "string option \<Rightarrow> cmd_opts" where "in_chroot c = \<lparr> co_chroot = c, co_host_mnt_ns = False \<rparr>"
definition on_host :: cmd_opts where "on_host = \<lparr> co_chroot = None, co_host_mnt_ns = True \<rparr>"

definition subprocess_run_wrapper :: "'w runner \<Rightarrow> cmd_opts \<Rightarrow> string list \<Rightarrow> ('w, string) cmd_io" where
  "subprocess_run_wrapper run opts cmd = (\<lambda>w. case run opts cmd w of
     (R_Ok out, w') \<Rightarrow> (Inr out, w')
   | (R_Failed, w') \<Rightarrow> (Inl CalledProcessError, w')
   | (R_Raise x, w') \<Rightarrow> (Inl (Cmd_Other x), w'))"

definition subprocess_check_output :: "'w runner \<Rightarrow> cmd_opts \<Rightarrow> string list \<Rightarrow> bool \<Rightarrow> string \<Rightarrow> ('w, string) cmd_io" where
  "subprocess_check_output run opts cmd raise_exception dflt =
     catch_io (bind_io (subprocess_run_wrapper run opts cmd) (\<lambda>out. ret (strip out)))
       (\<lambda>e. if e = CalledProcessError \<and> \<not> raise_exception then ret dflt else throw e)"

definition subprocess_call :: "'w runner \<Rightarrow> cmd_opts \<Rightarrow> string list \<Rightarrow> bool \<Rightarrow> ('w, unit) cmd_io" where
  "subprocess_call run opts cmd raise_exception =
     catch_io (then_io (subprocess_run_wrapper run opts cmd) (ret ()))
       (\<lambda>e. if e = CalledProcessError \<and> \<not> raise_exception then ret () else throw e)"

section \<open>Devices\<close>

definition get_attrs_by_dev :: "'w runner \<Rightarrow> string \<Rightarrow> string \<Rightarrow> bool \<Rightarrow> ('w, string) cmd_io" where
  "get_attrs_by_dev run attr dev raise_exception =
     subprocess_check_output run here [''lsblk'', ''-ino'', attr, dev] raise_exception ''''"

text \<open>An empty output is no device at all.\<close>

definition get_dev_by_token :: "'w runner \<Rightarrow> string \<Rightarrow> string \<Rightarrow> bool \<Rightarrow> ('w, string list option) cmd_io" where
  "get_dev_by_token run token v raise_exception =
     bind_io (subprocess_check_output run here [''blkid'', ''-o'', ''device'', ''-t'', token @ ''='' @ v] raise_exception '''')
       (\<lambda>res. ret (if res = [] then None else Some (splitlines res)))"

definition get_current_rootfs_dev :: "'w runner \<Rightarrow> string \<Rightarrow> bool \<Rightarrow> string option \<Rightarrow> ('w, string) cmd_io" where
  "get_current_rootfs_dev run active_root raise_exception chroot =
     subprocess_check_output run (in_chroot chroot) [''findmnt'', ''-nfco'', ''SOURCE'', active_root] raise_exception ''''"

definition get_mount_point_by_dev :: "'w runner \<Rightarrow> string \<Rightarrow> bool \<Rightarrow> ('w, string) cmd_io" where
  "get_mount_point_by_dev run dev raise_exception =
     subprocess_check_output run here [''findmnt'', ''-nfo'', ''TARGET'', dev] raise_exception ''''"

definition get_dev_by_mount_point :: "'w runner \<Rightarrow> string \<Rightarrow> bool \<Rightarrow> ('w, string) cmd_io" where
  "get_dev_by_mount_point run mount_point raise_exception =
     subprocess_check_output run here [''findmnt'', ''-no'', ''SOURCE'', mount_point] raise_exception ''''"

definition is_target_mounted :: "'w runner \<Rightarrow> string \<Rightarrow> bool \<Rightarrow> ('w, bool) cmd_io" where
  "is_target_mounted run tgt raise_exception =
     (if tgt = [] then ret False
      else catch_io (then_io (subprocess_call run here [''findmnt'', tgt] True) (ret True))
        (\<lambda>e. if e = CalledProcessError \<and> \<not> raise_exception then ret False else throw e))"

definition get_parent_dev :: "'w runner \<Rightarrow> string \<Rightarrow> bool \<Rightarrow> ('w, string) cmd_io" where
  "get_parent_dev run child_device raise_exception =
     subprocess_check_output run here [''lsblk'', ''-idpno'', ''PKNAME'', child_device] raise_exception ''''"

definition get_device_tree :: "'w runner \<Rightarrow> string \<Rightarrow> bool \<Rightarrow> ('w, string list) cmd_io" where
  "get_device_tree run parent_dev raise_exception =
     bind_io (subprocess_check_output run here [''lsblk'', ''-lnpo'', ''NAME'', parent_dev] raise_exception '''')
       (\<lambda>out. ret (splitlines out))"

definition set_ext4_fslabel :: "'w runner \<Rightarrow> string \<Rightarrow> string \<Rightarrow> bool \<Rightarrow> ('w, unit) cmd_io" where
  "set_ext4_fslabel run dev fslabel raise_exception = subprocess_call run here [''e2label'', dev, fslabel] raise_exception"

text \<open>The given value, or the one the device has; any failure to get it is ignored.\<close>

definition given_or_previous :: "'w runner \<Rightarrow> string \<Rightarrow> string option \<Rightarrow> string \<Rightarrow> ('w, string option) cmd_io" where
  "given_or_previous run attr given dev =
     (if given \<noteq> None \<and> given \<noteq> Some [] then ret given
      else catch_io (bind_io (get_attrs_by_dev run attr dev True) (\<lambda>v. ret (if v = [] then None else Some v)))
        (\<lambda>_. ret None))"

definition mkfs_ext4 :: "'w runner \<Rightarrow> string \<Rightarrow> string option \<Rightarrow> string option \<Rightarrow> bool \<Rightarrow> ('w, unit) cmd_io" where
  "mkfs_ext4 run dev fslabel fsuuid raise_exception =
     bind_io (given_or_previous run ''UUID'' fsuuid dev) (\<lambda>fsuuid.
     bind_io (given_or_previous run ''LABEL'' fslabel dev) (\<lambda>fslabel.
       subprocess_call run here
         ([''mkfs.ext4'', ''-F''] @ (case fsuuid of Some u \<Rightarrow> [''-U'', u] | None \<Rightarrow> [])
            @ (case fslabel of Some l \<Rightarrow> [''-L'', l] | None \<Rightarrow> []) @ [dev]) raise_exception))"

text \<open>The tier of a storage device; \<open>rotational\<close> is the content of the sysfs attribute of a device, if it can be read.\<close>

definition detect_storage_device_type :: "'w runner \<Rightarrow> (string \<Rightarrow> string option) \<Rightarrow> string \<Rightarrow> ('w, string) cmd_io" where
  "detect_storage_device_type run rotational rootfs_devpath =
     catch_io (bind_io (get_parent_dev run rootfs_devpath True) (\<lambda>parent_devpath.
       let name = rev (takeWhile (\<lambda>c. c \<noteq> CHR ''/'') (rev (strip parent_devpath)))
       in if take 4 name = ''nvme'' then ret ''L1''
          else if take 6 name = ''mmcblk'' then ret ''L3''
          else if take 2 name = ''sd''
          then ret (case rotational name of None \<Rightarrow> ''L3'' | Some t \<Rightarrow> if strip t = ''1'' then ''L3'' else ''L2'')
          else ret ''L3''))
       (\<lambda>_. ret ''L3'')"

section \<open>Mounting\<close>

definition MAX_RETRY_COUNT :: nat where "MAX_RETRY_COUNT = 6"

definition unbindable :: "bool \<Rightarrow> string list" where
  "unbindable b = (if b then [''--make-unbindable''] else [])"

definition mount :: "'w runner \<Rightarrow> string \<Rightarrow> string \<Rightarrow> string list \<Rightarrow> string list \<Rightarrow> bool \<Rightarrow> ('w, unit) cmd_io" where
  "mount run tgt mount_point options params raise_exception =
     subprocess_call run here ([''mount''] @ (if options = [] then [] else [''-o'', join_with (CHR '','') options]) @ params
       @ [tgt, mount_point]) raise_exception"

text \<open>The variants, all made private; \<open>mount_func\<close> is what \<open>ensure_mount\<close> is given.\<close>

type_synonym 'w mount_func = "string \<Rightarrow> string \<Rightarrow> bool \<Rightarrow> ('w, unit) cmd_io"

definition bind_mount_rw :: "'w runner \<Rightarrow> bool \<Rightarrow> 'w mount_func" where
  "bind_mount_rw run raise_exception tgt mp b =
     subprocess_call run here ([''mount'', ''-o'', ''bind,rw'', ''--make-private''] @ unbindable b @ [tgt, mp]) raise_exception"

definition mount_rw :: "'w runner \<Rightarrow> bool \<Rightarrow> bool \<Rightarrow> 'w mount_func" where
  "mount_rw run enable_optimization raise_exception tgt mp b =
     (let mount_options = [''rw''] @ (if enable_optimization
            then [''noatime'', ''commit=20'', ''data=writeback,journal_async_commit''] else [])
      in subprocess_call run here ([''mount'', ''-o'', join_with (CHR '','') mount_options, ''--make-private'']
           @ unbindable b @ [tgt, mp]) raise_exception)"

definition bind_mount_ro :: "'w runner \<Rightarrow> bool \<Rightarrow> 'w mount_func" where
  "bind_mount_ro run raise_exception tgt mp b =
     subprocess_call run here ([''mount'', ''-o'', ''bind,ro,noatime'', ''--make-private''] @ unbindable b @ [tgt, mp]) raise_exception"

definition rbind_mount_ro :: "'w runner \<Rightarrow> bool \<Rightarrow> 'w mount_func" where
  "rbind_mount_ro run raise_exception tgt mp b =
     subprocess_call run here ([''mount'', ''--rbind'', ''--make-private''] @ unbindable b @ [tgt, mp]) raise_exception"

definition mount_ro :: "'w runner \<Rightarrow> bool \<Rightarrow> 'w mount_func" where
  "mount_ro run raise_exception tgt mp b = bind_io (get_mount_point_by_dev run tgt False) (\<lambda>active.
     if active \<noteq> [] then bind_mount_ro run raise_exception active mp b
     else subprocess_call run here ([''mount'', ''-o'', ''ro,noatime'', ''--make-private''] @ unbindable b @ [tgt, mp]) raise_exception)"

definition mount_squashfs :: "'w runner \<Rightarrow> bool \<Rightarrow> 'w mount_func" where
  "mount_squashfs run raise_exception tgt mp b =
     subprocess_call run here ([''mount'', ''-o'', ''ro'', ''-t'', ''squashfs'', ''--make-private''] @ unbindable b @ [tgt, mp])
       raise_exception"

definition mount_tmpfs :: "'w runner \<Rightarrow> string \<Rightarrow> nat \<Rightarrow> bool \<Rightarrow> ('w, unit) cmd_io" where
  "mount_tmpfs run mount_point size_in_mb raise_exception =
     catch_io (subprocess_call run here
         [''mount'', ''-t'', ''tmpfs'', ''-o'', ''size='' @ nat_str size_in_mb @ ''M'', ''tmpfs'', mount_point] True)
       (\<lambda>e. if e = CalledProcessError \<and> \<not> raise_exception then ret () else throw e)"

definition umount :: "'w runner \<Rightarrow> string \<Rightarrow> bool \<Rightarrow> ('w, unit) cmd_io" where
  "umount run tgt raise_exception = bind_io (is_target_mounted run tgt False) (\<lambda>m.
     if \<not> m then ret () else subprocess_call run here [''umount'', tgt] raise_exception)"

text \<open>The loops; \<open>k\<close> is the number of retries that are left.\<close>

fun ensure_mount :: "'w runner \<Rightarrow> string \<Rightarrow> string \<Rightarrow> 'w mount_func \<Rightarrow> bool \<Rightarrow> bool \<Rightarrow> nat \<Rightarrow> ('w, unit) cmd_io" where
  "ensure_mount run tgt mp f raise_exception b k =
     catch_io (then_io (f tgt mp b) (then_io (is_target_mounted run mp True) (ret ())))
       (\<lambda>e. if e = CalledProcessError
            then (case k of
                0 \<Rightarrow> if raise_exception then throw e else ret ()
              | Suc k' \<Rightarrow> ensure_mount run tgt mp f raise_exception b k')
            else throw e)"

declare ensure_mount.simps [simp del]

text \<open>An unexpected exception is logged only, and a round that unmounted goes on to the next check.\<close>

fun ensure_umount :: "'w runner \<Rightarrow> string \<Rightarrow> bool \<Rightarrow> nat \<Rightarrow> ('w, unit) cmd_io" where
  "ensure_umount run mp ignore_error k = bind_io (is_target_mounted run mp False) (\<lambda>m.
     if \<not> m then ret ()
     else bind_io (catch_io (then_io (umount run mp True) (ret None)) (\<lambda>e. ret (Some e))) (\<lambda>r.
       case (r, k) of
         (Some CalledProcessError, 0) \<Rightarrow> if ignore_error then ret () else throw CalledProcessError
       | (_, 0) \<Rightarrow> ret ()
       | (_, Suc k') \<Rightarrow> ensure_umount run mp ignore_error k'))"

declare ensure_umount.simps [simp del]

text \<open>The same from the mount namespace of the host; here other exceptions are passed on.\<close>

definition is_mounted_on_host :: "'w runner \<Rightarrow> string \<Rightarrow> ('w, bool) cmd_io" where
  "is_mounted_on_host run mp =
     catch_io (then_io (subprocess_run_wrapper run on_host [''findmnt'', mp]) (ret True))
       (\<lambda>e. if e = CalledProcessError then ret False else throw e)"

fun ensure_umount_from_host :: "'w runner \<Rightarrow> string \<Rightarrow> bool \<Rightarrow> nat \<Rightarrow> ('w, unit) cmd_io" where
  "ensure_umount_from_host run mp ignore_error k = bind_io (is_mounted_on_host run mp) (\<lambda>m.
     if \<not> m then ret ()
     else bind_io (catch_io (then_io (subprocess_run_wrapper run on_host [''umount'', mp]) (ret True))
            (\<lambda>e. if e = CalledProcessError then ret False else throw e)) (\<lambda>ok.
       case k of
         0 \<Rightarrow> if ok \<or> ignore_error then ret () else throw CalledProcessError
       | Suc k' \<Rightarrow> ensure_umount_from_host run mp ignore_error k'))"

declare ensure_umount_from_host.simps [simp del]

text \<open>\<open>dir\<close>: the mount point is a directory; otherwise it is made, and nothing can be mounted on it.\<close>

definition ensure_mount_point :: "'w runner \<Rightarrow> bool \<Rightarrow> string \<Rightarrow> bool \<Rightarrow> ('w, unit) cmd_io" where
  "ensure_mount_point run dir mp ignore_error =
     (if \<not> dir then ret ()
      else catch_io (ensure_umount run mp False MAX_RETRY_COUNT) (\<lambda>e. if ignore_error then ret () else throw e))"

text \<open>
  \<^verbatim>\<open>reboot\<close> never returns: the init system terminates the process while it waits, or the process exits with status 1 (the
  request raised, or \<^verbatim>\<open>WAIT_FOR_REBOOT_TIMEOUT\<close> has passed).
\<close>

definition wait_for_reboot :: "('w, unit) cmd_io" where
  "wait_for_reboot = throw (Cmd_Exit 1)"

definition reboot :: "'w runner \<Rightarrow> string list \<Rightarrow> string option \<Rightarrow> ('w, unit) cmd_io" where
  "reboot run args chroot =
     then_io (catch_io (subprocess_call run (in_chroot chroot) (''reboot'' # args) False) (\<lambda>_. throw (Cmd_Exit 1)))
       wait_for_reboot"

definition get_kernel_version_via_uname :: "'w runner \<Rightarrow> ('w, string option) cmd_io" where
  "get_kernel_version_via_uname run =
     catch_io (bind_io (subprocess_check_output run here [''uname'', ''-r''] True '''') (\<lambda>v. ret (Some (strip v))))
       (\<lambda>_. ret None)"

section \<open>Unmounting\<close>

text \<open>
  What is documented of \<^verbatim>\<open>findmnt\<close> and \<^verbatim>\<open>umount\<close> for a target: \<open>mounts w\<close> is the number of file systems that are mounted on
  top of each other there. \<^verbatim>\<open>findmnt\<close> changes nothing and succeeds exactly when there is one, \<^verbatim>\<open>umount\<close> takes the top one
  away when it succeeds and changes nothing when it fails (for example because the target is busy).
\<close>

definition mount_tools :: "'w runner \<Rightarrow> string \<Rightarrow> ('w \<Rightarrow> nat) \<Rightarrow> bool" where
  "mount_tools run t mounts \<longleftrightarrow>
     (\<forall>w. snd (run here [''findmnt'', t] w) = w \<and>
        (if mounts w = 0 then fst (run here [''findmnt'', t] w) = R_Failed
         else \<exists>out. fst (run here [''findmnt'', t] w) = R_Ok out)) \<and>
     (\<forall>w. case run here [''umount'', t] w of
        (R_Ok _, w') \<Rightarrow> mounts w' = mounts w - 1
      | (R_Failed, w') \<Rightarrow> mounts w' = mounts w
      | (R_Raise _, w') \<Rightarrow> False)"

definition never_busy :: "'w runner \<Rightarrow> string \<Rightarrow> ('w \<Rightarrow> nat) \<Rightarrow> bool" where
  "never_busy run t mounts \<longleftrightarrow> (\<forall>w. mounts w > 0 \<longrightarrow> (\<exists>out. fst (run here [''umount'', t] w) = R_Ok out))"

lemma is_target_mounted_spec:
  assumes "mount_tools run t mounts" "t \<noteq> []"
  shows "is_target_mounted run t False w = (Inr (mounts w > 0), w)"
proof (cases "run here [''findmnt'', t] w")
  case (Pair r w')
  have "snd (run here [''findmnt'', t] w) = w"
    and r: "if mounts w = 0 then fst (run here [''findmnt'', t] w) = R_Failed
            else \<exists>out. fst (run here [''findmnt'', t] w) = R_Ok out"
    using assms(1) unfolding mount_tools_def by blast+
  with Pair have "w' = w" by simp
  with Pair r assms(2) show ?thesis
    by (auto simp: is_target_mounted_def subprocess_call_def subprocess_run_wrapper_def io_defs split: if_splits)
qed

text \<open>A round unmounts the top file system, or fails and changes nothing.\<close>

lemma umount_spec:
  assumes "mount_tools run t mounts" "t \<noteq> []" "mounts w > 0"
  obtains (ok) w' where "umount run t True w = (Inr (), w')" "mounts w' = mounts w - 1"
  | (busy) w' where "umount run t True w = (Inl CalledProcessError, w')" "mounts w' = mounts w" "\<not> never_busy run t mounts"
proof (cases "run here [''umount'', t] w")
  case (Pair r w')
  have c: "case run here [''umount'', t] w of
        (R_Ok _, w') \<Rightarrow> mounts w' = mounts w - 1 | (R_Failed, w') \<Rightarrow> mounts w' = mounts w | (R_Raise _, w') \<Rightarrow> False"
    by (rule spec [OF conjunct2 [OF assms(1) [unfolded mount_tools_def]], of w])
  note defs = umount_def subprocess_call_def subprocess_run_wrapper_def io_defs is_target_mounted_spec [OF assms(1,2)]
  show thesis
  proof (cases r)
    case (R_Ok out)
    then show thesis using ok [of w'] Pair c assms(3) by (simp add: defs)
  next
    case R_Failed
    then have "\<not> never_busy run t mounts" using Pair assms(3) by (auto simp: never_busy_def intro!: exI [of _ w])
    then show thesis using R_Failed busy [of w'] Pair c assms(3) by (simp add: defs)
  next
    case (R_Raise x)
    then show thesis using Pair c by simp
  qed
qed

lemma ensure_umount_done:
  assumes "mount_tools run t mounts" "t \<noteq> []" "mounts w = 0"
  shows "ensure_umount run t ig k w = (Inr (), w)"
  by (subst ensure_umount.simps) (simp add: is_target_mounted_spec [OF assms(1,2)] assms(3) bind_io_def)

lemma ensure_umount_ok:
  assumes "mount_tools run t mounts" "t \<noteq> []" "mounts w > 0" "umount run t True w = (Inr (), w')"
  shows "ensure_umount run t ig k w = (case k of 0 \<Rightarrow> (Inr (), w') | Suc k' \<Rightarrow> ensure_umount run t ig k' w')"
  using assms(3)
  by (subst ensure_umount.simps) (simp add: is_target_mounted_spec [OF assms(1,2)] assms(4) io_defs split: nat.split)

lemma ensure_umount_busy:
  assumes "mount_tools run t mounts" "t \<noteq> []" "mounts w > 0" "umount run t True w = (Inl CalledProcessError, w')"
  shows "ensure_umount run t ig k w =
    (case k of 0 \<Rightarrow> (if ig then (Inr (), w') else (Inl CalledProcessError, w')) | Suc k' \<Rightarrow> ensure_umount run t ig k' w')"
  using assms(3)
  by (subst ensure_umount.simps) (simp add: is_target_mounted_spec [OF assms(1,2)] assms(4) io_defs split: nat.split)

text \<open>With tools that never fail, a call takes exactly one file system away per round.\<close>

lemma ensure_umount_rounds:
  assumes tools: "mount_tools run t mounts" "t \<noteq> []" and nb: "never_busy run t mounts"
  shows "\<exists>w'. ensure_umount run t ig k w = (Inr (), w') \<and> mounts w' = mounts w - Suc k"
proof (induction k arbitrary: w)
  case 0
  show ?case
  proof (cases "mounts w > 0")
    case True
    from umount_spec [OF tools True] nb show ?thesis by (metis One_nat_def ensure_umount_ok [OF tools True] nat.case(1))
  qed (simp add: ensure_umount_done [OF tools])
next
  case (Suc k)
  show ?case
  proof (cases "mounts w > 0")
    case True
    from umount_spec [OF tools True] nb obtain w' where u: "umount run t True w = (Inr (), w')" "mounts w' = mounts w - 1"
      by metis
    from Suc.IH [of w'] u(2) show ?thesis by (simp add: ensure_umount_ok [OF tools True u(1)])
  qed (simp add: ensure_umount_done [OF tools])
qed

text \<open>One mounted file system is gone when the call returns, whatever the failed rounds before.\<close>

lemma ensure_umount_single:
  assumes tools: "mount_tools run t mounts" "t \<noteq> []"
  shows "mounts w \<le> 1 \<Longrightarrow> ensure_umount run t False k w = (Inr u, w') \<Longrightarrow> mounts w' = 0"
proof (induction k arbitrary: w)
  case 0
  show ?case
  proof (cases "mounts w > 0")
    case True
    show ?thesis
    proof (cases rule: umount_spec [OF tools True, case_names ok busy])
      case (ok w1) with 0 show ?thesis by (simp add: ensure_umount_ok [OF tools True])
    next
      case (busy w1) with 0 show ?thesis by (simp add: ensure_umount_busy [OF tools True])
    qed
  next
    case False with 0 show ?thesis by (simp add: ensure_umount_done [OF tools])
  qed
next
  case (Suc k)
  show ?case
  proof (cases "mounts w > 0")
    case True
    show ?thesis
    proof (cases rule: umount_spec [OF tools True, case_names ok busy])
      case (ok w1)
      with Suc.prems have "ensure_umount run t False k w1 = (Inr u, w')" by (simp add: ensure_umount_ok [OF tools True])
      with Suc.IH [of w1] ok Suc.prems show ?thesis by simp
    next
      case (busy w1)
      with Suc.prems have "ensure_umount run t False k w1 = (Inr u, w')" by (simp add: ensure_umount_busy [OF tools True])
      with Suc.IH [of w1] busy Suc.prems show ?thesis by simp
    qed
  next
    case False with Suc show ?thesis by (simp add: ensure_umount_done [OF tools])
  qed
qed

text \<open>
  C40: Assume \<^verbatim>\<open>findmnt\<close> and \<^verbatim>\<open>umount\<close> behave as documented on a target. If at most one file system is mounted there, then
  \<^verbatim>\<open>ensure_umount\<close> without \<^verbatim>\<open>ignore_error\<close> returns only with the target unmounted, whatever attempts failed before. If unmounting
  never fails, it always returns, and exactly \<^verbatim>\<open>max_retry + 1\<close> stacked file systems are taken away at most: with more of them
  the call returns normally although the target is still mounted.
\<close>

theorem ensure_umount_exact:
  assumes "mount_tools run t mounts" and "t \<noteq> []"
  shows "(\<forall>k w w'. mounts w \<le> 1 \<longrightarrow> ensure_umount run t False k w = (Inr (), w') \<longrightarrow> mounts w' = 0)
    \<and> (never_busy run t mounts \<longrightarrow>
        (\<forall>k ig w. \<exists>w'. ensure_umount run t ig k w = (Inr (), w') \<and> mounts w' = mounts w - Suc k))"
  using ensure_umount_single [OF assms] ensure_umount_rounds [OF assms] by blast

definition example_run :: "nat runner" where
  "example_run opts cmd w =
     (if cmd = [''findmnt'', ''/mnt''] then (if w = 0 then R_Failed else R_Ok '''', w)
      else if cmd = [''umount'', ''/mnt''] then (R_Ok '''', w - 1) else (R_Ok '''', w))"

theorem ensure_umount_exact_witness:
  "(\<exists>w'. ensure_umount example_run ''/mnt'' False MAX_RETRY_COUNT 10 = (Inr (), w') \<and> w' = 3)
    \<and> ensure_umount example_run ''/mnt'' False 0 1 = (Inr (), 0)"
proof -
  have tools: "mount_tools example_run ''/mnt'' (\<lambda>w. w)" and nb: "never_busy example_run ''/mnt'' (\<lambda>w. w)"
    by (auto simp: mount_tools_def never_busy_def example_run_def)
  have "\<exists>w'. ensure_umount example_run ''/mnt'' False k w = (Inr (), w') \<and> w' = w - Suc k" for k w
    using ensure_umount_exact [OF tools] nb by simp
  from this [of MAX_RETRY_COUNT 10] this [of 0 1] show ?thesis by (simp add: MAX_RETRY_COUNT_def)
qed

text \<open>A call that returns, and had to raise otherwise, has seen the file system mounted.\<close>

lemma ensure_mount_seen:
  assumes "ensure_mount run tgt mp f True b k w = (Inr (), w')"
  shows "\<exists>w1. is_target_mounted run mp True w1 = (Inr (mp \<noteq> []), w')"
  using assms
proof (induction k arbitrary: w)
  case 0
  then show ?case
    by (subst (asm) ensure_mount.simps)
       (auto simp: io_returns is_target_mounted_def split: if_splits, (metis (no_types) list.simps)?)
next
  case (Suc k)
  then show ?case
    by (subst (asm) (2) ensure_mount.simps) (auto simp: io_returns is_target_mounted_def split: if_splits)
qed

text \<open>Reformatting without a given UUID or label keeps those the device has.\<close>

lemma mkfs_ext4_keeps_identity:
  assumes "\<And>attr w. run here [''lsblk'', ''-ino'', attr, dev] w = (R_Ok (attrs attr), w)"
    and "strip (attrs ''UUID'') = u" "strip (attrs ''LABEL'') = l" "u \<noteq> []" "l \<noteq> []"
  shows "mkfs_ext4 run dev None None raise_exception =
    subprocess_call run here [''mkfs.ext4'', ''-F'', ''-U'', u, ''-L'', l, dev] raise_exception"
proof -
  have "given_or_previous run ''UUID'' None dev w = (Inr (Some u), w)" for w
    using assms by (simp add: given_or_previous_def get_attrs_by_dev_def subprocess_check_output_def
      subprocess_run_wrapper_def io_defs)
  moreover have "given_or_previous run ''LABEL'' None dev w = (Inr (Some l), w)" for w
    using assms by (simp add: given_or_previous_def get_attrs_by_dev_def subprocess_check_output_def
      subprocess_run_wrapper_def io_defs)
  ultimately show ?thesis by (intro ext) (simp add: mkfs_ext4_def bind_io_def)
qed

end
