(* ===== verification/Slot_Mounts.thy ===== *)
theory Slot_Mounts
  imports Commands
begin

text \<open>
  Mounting the two slots during an update (\<^verbatim>\<open>otaclient/boot_control/_slot_mnt_helper.py\<close>, class \<^verbatim>\<open>SlotMountHelper\<close>) over the
  commands of \<open>Commands\<close>. \<open>sm_dynamic\<close> is \<^verbatim>\<open>_env.is_dynamic_client_running()\<close>: the active slot is mounted already, before the
  process is put into its own root; \<open>sm_is_dir\<close> says of a mount point that it is a directory.
\<close>

section \<open>The helper\<close>

record slot_mounts =
  sm_standby_slot_dev :: string
  sm_standby_mp :: string
  sm_active_rootfs :: string
  sm_active_mp :: string
  sm_dynamic :: bool
  sm_is_dir :: "string \<Rightarrow> bool"

definition mount_standby :: "'w runner \<Rightarrow> slot_mounts \<Rightarrow> ('w, unit) cmd_io" where
  "mount_standby run sm = seq_io
     [ensure_mount_point run (sm_is_dir sm (sm_standby_mp sm)) (sm_standby_mp sm) True,
      ensure_umount run (sm_standby_slot_dev sm) False MAX_RETRY_COUNT,
      ensure_mount run (sm_standby_slot_dev sm) (sm_standby_mp sm) (mount_rw run True True) True True MAX_RETRY_COUNT]"

definition mount_active :: "'w runner \<Rightarrow> slot_mounts \<Rightarrow> ('w, unit) cmd_io" where
  "mount_active run sm =
     (if sm_dynamic sm then ret ()
      else seq_io
        [ensure_mount_point run (sm_is_dir sm (sm_active_mp sm)) (sm_active_mp sm) True,
         ensure_mount run (sm_active_rootfs sm) (sm_active_mp sm) (bind_mount_ro run True) True True MAX_RETRY_COUNT])"

definition prepare_standby_dev :: "'w runner \<Rightarrow> slot_mounts \<Rightarrow> bool \<Rightarrow> string option \<Rightarrow> string option \<Rightarrow> ('w, unit) cmd_io" where
  "prepare_standby_dev run sm erase_standby fslabel fsuuid = seq_io
     [ensure_umount run (sm_standby_slot_dev sm) True MAX_RETRY_COUNT,
      (if sm_dynamic sm then ensure_umount_from_host run (sm_standby_slot_dev sm) False MAX_RETRY_COUNT else ret ()),
      (if erase_standby then mkfs_ext4 run (sm_standby_slot_dev sm) fslabel fsuuid True
       else case fslabel of
           Some l \<Rightarrow> if l = [] then ret () else set_ext4_fslabel run (sm_standby_slot_dev sm) l True
         | None \<Rightarrow> ret ())]"

definition umount_all :: "'w runner \<Rightarrow> slot_mounts \<Rightarrow> bool \<Rightarrow> ('w, unit) cmd_io" where
  "umount_all run sm ignore_error = seq_io
     [(if sm_dynamic sm then ret () else ensure_umount run (sm_active_mp sm) ignore_error MAX_RETRY_COUNT),
      ensure_umount run (sm_standby_mp sm) ignore_error MAX_RETRY_COUNT]"

text \<open>What the constructor registers to be called at exit, in the order of the registration.\<close>

definition at_exit :: "'w runner \<Rightarrow> slot_mounts \<Rightarrow> ('w, unit) cmd_io list" where
  "at_exit run sm = (if sm_dynamic sm then [] else [ensure_umount run (sm_active_mp sm) True MAX_RETRY_COUNT])
     @ [ensure_umount run (sm_standby_mp sm) True 3]"

section \<open>The check for the in-place mode\<close>

text \<open>\<^verbatim>\<open>can_use_in_place_mode\<close> of \<^verbatim>\<open>create_standby/utils.py\<close>; \<open>used_size\<close> is what \<^verbatim>\<open>statvfs\<close> says of the mounted file system.\<close>

definition check_if_ext4 :: "'w runner \<Rightarrow> string \<Rightarrow> ('w, bool) cmd_io" where
  "check_if_ext4 run dev = bind_io (get_attrs_by_dev run ''FSTYPE'' dev True) (\<lambda>t. ret (t = ''ext4''))"

definition check_if_fs_healthy :: "'w runner \<Rightarrow> string \<Rightarrow> ('w, bool) cmd_io" where
  "check_if_fs_healthy run dev = catch_io (then_io (subprocess_run_wrapper run here [''e2fsck'', ''-n'', dev]) (ret True))
     (\<lambda>e. if e = CalledProcessError then ret False else throw e)"

definition check_fs_used_size_reach_threshold :: "'w runner \<Rightarrow> ('w \<Rightarrow> nat) \<Rightarrow> string \<Rightarrow> string \<Rightarrow> nat \<Rightarrow> ('w, bool) cmd_io" where
  "check_fs_used_size_reach_threshold run used_size dev mp threshold = finally_io
     (catch_io (then_io (ensure_mount run dev mp (mount_ro run True) True True MAX_RETRY_COUNT) (gets_io (\<lambda>w. used_size w \<ge> threshold)))
        (\<lambda>_. ret False))
     (ensure_umount run mp True MAX_RETRY_COUNT)"

definition can_use_in_place_mode :: "'w runner \<Rightarrow> ('w \<Rightarrow> nat) \<Rightarrow> string \<Rightarrow> string \<Rightarrow> nat option \<Rightarrow> ('w, bool) cmd_io" where
  "can_use_in_place_mode run used_size dev mp threshold = bind_io (check_if_ext4 run dev) (\<lambda>ext4.
     bind_io (if ext4 then check_if_fs_healthy run dev else ret False) (\<lambda>ok.
       if \<not> ok then ret False
       else case threshold of Some n \<Rightarrow> check_fs_used_size_reach_threshold run used_size dev mp n | None \<Rightarrow> ret True))"

section \<open>What the commands can change\<close>

text \<open>
  \<open>runs_keep allowed P run\<close>: running a command that satisfies \<open>allowed\<close> keeps \<open>P\<close>, whatever the command does. Every helper
  keeps \<open>P\<close> if all the command lines it builds are allowed.
\<close>

definition runs_keep :: "(string list \<Rightarrow> bool) \<Rightarrow> ('w \<Rightarrow> bool) \<Rightarrow> 'w runner \<Rightarrow> bool" where
  "runs_keep allowed P run \<longleftrightarrow> (\<forall>opts cmd w. allowed cmd \<longrightarrow> P w \<longrightarrow> P (snd (run opts cmd w)))"

named_theorems cmd_keeps \<open>invariants of the command helpers\<close>

lemma keeps_run [cmd_keeps]:
  "runs_keep allowed P run \<Longrightarrow> allowed cmd \<Longrightarrow> keeps P (subprocess_run_wrapper run opts cmd)"
proof (rule keepsI)
  fix w assume "runs_keep allowed P run" "allowed cmd" "P w"
  then have "P (snd (run opts cmd w))" by (simp add: runs_keep_def)
  then show "P (snd (subprocess_run_wrapper run opts cmd w))"
    by (auto simp: subprocess_run_wrapper_def split: prod.splits cmd_result.splits)
qed

lemma keeps_call [cmd_keeps]:
  "runs_keep allowed P run \<Longrightarrow> allowed cmd \<Longrightarrow> keeps P (subprocess_call run opts cmd r)"
  unfolding subprocess_call_def by (auto intro!: keeps_intros cmd_keeps)

lemma keeps_check_output [cmd_keeps]:
  "runs_keep allowed P run \<Longrightarrow> allowed cmd \<Longrightarrow> keeps P (subprocess_check_output run opts cmd r d)"
  unfolding subprocess_check_output_def by (auto intro!: keeps_intros cmd_keeps)

lemma keeps_is_target_mounted [cmd_keeps]:
  "runs_keep allowed P run \<Longrightarrow> allowed [''findmnt'', t] \<Longrightarrow> keeps P (is_target_mounted run t r)"
  unfolding is_target_mounted_def by (auto intro!: keeps_intros cmd_keeps)

lemma keeps_umount [cmd_keeps]:
  "runs_keep allowed P run \<Longrightarrow> allowed [''findmnt'', t] \<Longrightarrow> allowed [''umount'', t] \<Longrightarrow> keeps P (umount run t r)"
  unfolding umount_def by (auto intro!: keeps_intros cmd_keeps)

lemma keeps_ensure_umount [cmd_keeps]:
  assumes "runs_keep allowed P run" "allowed [''findmnt'', t]" "allowed [''umount'', t]"
  shows "keeps P (ensure_umount run t ig k)"
proof (induction k)
  case 0
  show ?case by (subst ensure_umount.simps) (use assms in \<open>auto intro!: keeps_intros cmd_keeps split: option.split cmd_exc.split\<close>)
next
  case (Suc k)
  show ?case by (subst ensure_umount.simps) (use assms Suc in \<open>auto intro!: keeps_intros cmd_keeps split: option.split cmd_exc.split\<close>)
qed

lemma keeps_ensure_umount_from_host [cmd_keeps]:
  assumes "runs_keep allowed P run" "allowed [''findmnt'', t]" "allowed [''umount'', t]"
  shows "keeps P (ensure_umount_from_host run t ig k)"
proof (induction k)
  case 0
  show ?case by (subst ensure_umount_from_host.simps)
      (use assms in \<open>auto simp: is_mounted_on_host_def intro!: keeps_intros cmd_keeps\<close>)
next
  case (Suc k)
  show ?case by (subst ensure_umount_from_host.simps)
      (use assms Suc in \<open>auto simp: is_mounted_on_host_def intro!: keeps_intros cmd_keeps\<close>)
qed

lemma keeps_ensure_mount_point [cmd_keeps]:
  "runs_keep allowed P run \<Longrightarrow> allowed [''findmnt'', t] \<Longrightarrow> allowed [''umount'', t] \<Longrightarrow> keeps P (ensure_mount_point run d t ig)"
  unfolding ensure_mount_point_def by (auto intro!: keeps_intros cmd_keeps)

lemma keeps_ensure_mount [cmd_keeps]:
  assumes "runs_keep allowed P run" "allowed [''findmnt'', mp]" "keeps P (f tgt mp b)"
  shows "keeps P (ensure_mount run tgt mp f r b k)"
proof (induction k)
  case 0
  show ?case by (subst ensure_mount.simps) (use assms in \<open>auto intro!: keeps_intros cmd_keeps\<close>)
next
  case (Suc k)
  show ?case by (subst ensure_mount.simps) (use assms Suc in \<open>auto intro!: keeps_intros cmd_keeps\<close>)
qed

text \<open>
  Preparing the standby slot formats or relabels no other device: the command lines are those that look at devices and
  unmount, and \<^verbatim>\<open>mkfs.ext4\<close> and \<^verbatim>\<open>e2label\<close> of the standby device.
\<close>

definition prepares_only :: "string \<Rightarrow> string list \<Rightarrow> bool" where
  "prepares_only dev cmd \<longleftrightarrow>
     hd cmd \<in> {''findmnt'', ''lsblk'', ''umount''}
     \<or> hd cmd = ''mkfs.ext4'' \<and> last cmd = dev \<or> (\<exists>l. cmd = [''e2label'', dev, l])"

lemma prepares_only_simps [simp]:
  "prepares_only dev [''findmnt'', t]" "prepares_only dev [''umount'', t]" "prepares_only dev (''lsblk'' # r)"
  "prepares_only dev (''mkfs.ext4'' # r @ [dev])" "prepares_only dev [''e2label'', dev, l]"
  by (simp_all add: prepares_only_def)

lemma keeps_given_or_previous [cmd_keeps]:
  "runs_keep allowed P run \<Longrightarrow> (\<And>r. allowed (''lsblk'' # r)) \<Longrightarrow> keeps P (given_or_previous run a g dev)"
  unfolding given_or_previous_def get_attrs_by_dev_def by (auto intro!: keeps_intros cmd_keeps)

lemma keeps_mkfs_ext4 [cmd_keeps]:
  assumes "runs_keep allowed P run" "\<And>r. allowed (''lsblk'' # r)" "\<And>r. allowed (''mkfs.ext4'' # r @ [dev])"
  shows "keeps P (mkfs_ext4 run dev l u b)"
proof -
  have "allowed ([''mkfs.ext4'', ''-F''] @ x @ y @ [dev])" for x y
    using assms(3) [of "''-F'' # x @ y"] by simp
  then have "keeps P (subprocess_call run here ([''mkfs.ext4'', ''-F''] @ x @ y @ [dev]) b)" for x y
    by (rule keeps_call [OF assms(1)])
  then show ?thesis unfolding mkfs_ext4_def
    by (intro keeps_bind keeps_given_or_previous [OF assms(1,2)])
qed

lemma keeps_prepare_standby_dev:
  "runs_keep (prepares_only (sm_standby_slot_dev sm)) P run \<Longrightarrow> keeps P (prepare_standby_dev run sm e l u)"
  unfolding prepare_standby_dev_def set_ext4_fslabel_def
  by (auto intro!: keeps_intros cmd_keeps split: option.split)

end
