(* ===== verification/Boot_Commands.thy ===== *)
theory Boot_Commands
  imports Boot_Control OTA_Config_Files Slot_Mounts
begin

text \<open>
  What the boot controllers of the platforms share: commands inside the methods of the templates, with the exceptions of a command as
  exceptions of the method, and what the commands that mount the slots keep.
\<close>

section \<open>Exceptions\<close>

definition os_error :: exc where "os_error = PyExc ''OSError'' [K_OSError None]"

fun as_exc :: "cmd_exc \<Rightarrow> exc" where
  "as_exc CalledProcessError = PyExc ''CalledProcessError'' [K_Other]"
| "as_exc (Cmd_Other x) = PyExc x [K_Other]"
| "as_exc (Cmd_Exit n) = SysExit"

definition lift_cmd :: "('s, 'a) cmd_io \<Rightarrow> ('s, exc, 'a) io" where
  "lift_cmd m = (\<lambda>s. case m s of (Inl e, s') \<Rightarrow> (Inl (as_exc e), s') | (Inr a, s') \<Rightarrow> (Inr a, s'))"

section \<open>What mounting keeps\<close>

lemma keeps_lift_cmd [keeps_intros]: "keeps P m \<Longrightarrow> keeps P (lift_cmd m)"
  by (auto simp: keeps_def lift_cmd_def split: prod.splits sum.splits)

lemma keeps_mount_any [cmd_keeps]: "runs_keep (\<lambda>_. True) P run \<Longrightarrow> keeps P (mount run t m o' p r)"
  unfolding mount_def by (rule keeps_call) simp_all

text \<open>The slot mounts run commands only.\<close>

lemma keeps_slot_mounts:
  assumes "runs_keep (\<lambda>_. True) P run"
  shows "keeps P (mount_standby run sm)" "keeps P (mount_active run sm)" "keeps P (umount_all run sm ig)"
    "keeps P (prepare_standby_dev run sm e l u)"
proof -
  have m: "keeps P (mount_rw run True True t mp b)" "keeps P (bind_mount_ro run True t mp b)" for t mp b
    using assms by (auto simp: mount_rw_def bind_mount_ro_def intro!: cmd_keeps)
  note c = keeps_ensure_mount_point [OF assms] keeps_ensure_umount [OF assms] keeps_ensure_mount [OF assms]
    keeps_ensure_umount_from_host [OF assms] keeps_mkfs_ext4 [OF assms] keeps_call [OF assms]
  show "keeps P (mount_standby run sm)" "keeps P (mount_active run sm)" "keeps P (umount_all run sm ig)"
    unfolding mount_standby_def mount_active_def umount_all_def by (auto intro!: keeps_intros c m)
  show "keeps P (prepare_standby_dev run sm e l u)"
    unfolding prepare_standby_dev_def set_ext4_fslabel_def by (auto intro!: keeps_intros c split: option.split)
qed

end
