(* ===== verification/RPi_Boot.thy ===== *)
theory RPi_Boot
  imports Boot_Commands
begin

text \<open>
  The boot controller of the Raspberry Pi (\<^verbatim>\<open>otaclient/boot_control/_rpi_boot.py\<close>). The firmware of the device boots with
  \<^verbatim>\<open>config.txt\<close>, and once with \<^verbatim>\<open>tryboot.txt\<close> after a reboot with the argument \<^verbatim>\<open>0 tryboot\<close>; each slot has its own
  \<^verbatim>\<open>config.txt_<slot>\<close>, which the controller copies to these two names.

  The state is the one of the templates (\<open>Boot_Control\<close>) with the files of \<^verbatim>\<open>/boot/firmware\<close> by name, \<^verbatim>\<open>/boot/ota\<close> of the two
  slots and the \<^verbatim>\<open>fstab\<close> of the standby slot. The programs that are run (\<open>re_run\<close>, over the whole state) and which writes
  fail (\<open>re_write_fails\<close>) are parameters. The text of an internal exception is its class name.
\<close>

section \<open>Names and state\<close>

definition CONFIG_TXT :: string where "CONFIG_TXT = ''config.txt''"
definition TRYBOOT_TXT :: string where "TRYBOOT_TXT = ''tryboot.txt''"
definition VMLINUZ :: string where "VMLINUZ = ''vmlinuz''"
definition INITRD_IMG :: string where "INITRD_IMG = ''initrd.img''"
definition CMDLINE_TXT :: string where "CMDLINE_TXT = ''cmdline.txt''"
definition SLOT_A :: string where "SLOT_A = ''slot_a''"
definition SLOT_B :: string where "SLOT_B = ''slot_b''"
definition SYSTEM_BOOT_MOUNT_POINT :: string where "SYSTEM_BOOT_MOUNT_POINT = ''/boot/firmware''"
definition SWITCH_BOOT_FLAG_FILE :: string where "SWITCH_BOOT_FLAG_FILE = ''._ota_switch_boot_finalized''"

lemmas boot_names = CONFIG_TXT_def TRYBOOT_TXT_def VMLINUZ_def INITRD_IMG_def CMDLINE_TXT_def SLOT_A_def SLOT_B_def
  SWITCH_BOOT_FLAG_FILE_def

text \<open>\<^verbatim>\<open>SlotID\<close>: only the two names are accepted.\<close>

definition slot_id :: "string \<Rightarrow> string option" where
  "slot_id s = (if s \<in> {SLOT_A, SLOT_B} then Some s else None)"

definition get_sysboot_files_fpath :: "string \<Rightarrow> string \<Rightarrow> string" where
  "get_sysboot_files_fpath boot_fname slot = boot_fname @ ''_'' @ slot"

record 'x rpi_state =
  rb_model :: "string option"
  rb_files :: "string \<rightharpoonup> string"
  rb_active_ota :: "node option"
  rb_standby_ota :: "node option"
  rb_standby_fstab :: "string option"
  rb_rest :: 'x

type_synonym 'x rpi = "'x rpi_state boot_state"
type_synonym ('x, 'a) rpi_io = "('x rpi, exc, 'a) io"

record 'x rpi_env =
  re_run :: "'x rpi runner"
  re_write_fails :: "'x rpi \<Rightarrow> string \<Rightarrow> bool"
  re_listing :: "(string \<rightharpoonup> string) \<Rightarrow> string list"
  re_chroot :: "string option"
  re_active_root :: string
  re_standby_mp :: string
  re_active_mp :: string
  re_dynamic :: bool
  re_is_dir :: "string \<Rightarrow> bool"
  re_src_dir_link :: "path \<Rightarrow> bool"
  re_dst_dir_link :: "path \<Rightarrow> bool"
  re_made :: "meta \<Rightarrow> meta"
  re_new_meta :: meta

record rpi_control =
  rc_active_slot :: string
  rc_standby_slot :: string
  rc_active_slot_dev :: string
  rc_standby_slot_dev :: string

definition files_of :: "'x rpi \<Rightarrow> string \<rightharpoonup> string" where
  "files_of s = rb_files (bs_plat s)"

definition set_files :: "(string \<rightharpoonup> string) \<Rightarrow> 'x rpi \<Rightarrow> 'x rpi" where
  "set_files f s = s\<lparr>bs_plat := (bs_plat s)\<lparr>rb_files := f\<rparr>\<rparr>"

section \<open>Exceptions\<close>

definition rpi_error :: exc where "rpi_error = PyExc ''_RPIBootControllerError'' [K_Other]"
text \<open>\<^verbatim>\<open>except CalledProcessError\<close> and \<^verbatim>\<open>except Exception\<close>, both with \<^verbatim>\<open>raise _RPIBootControllerError\<close>.\<close>

definition on_failed_cmd :: "('s, 'a) cmd_io \<Rightarrow> ('s, exc, 'a) io" where
  "on_failed_cmd m = (\<lambda>s. case m s of
     (Inl CalledProcessError, s') \<Rightarrow> (Inl rpi_error, s') | (Inl e, s') \<Rightarrow> (Inl (as_exc e), s') | (Inr a, s') \<Rightarrow> (Inr a, s'))"

definition as_rpi_error :: "('s, exc, 'a) io \<Rightarrow> ('s, exc, 'a) io" where
  "as_rpi_error m = catch_io m (\<lambda>e. if e = SysExit then throw SysExit else throw rpi_error)"

section \<open>Files of the boot partition\<close>

text \<open>
  \<^verbatim>\<open>copyfile_atomic\<close> and \<^verbatim>\<open>os.replace\<close>: the target changes in one step. The temporary copy is gone in the end, when the call
  fails too.
\<close>

definition copyfile_atomic :: "'x rpi_env \<Rightarrow> string \<Rightarrow> string \<Rightarrow> ('x, unit) rpi_io" where
  "copyfile_atomic env src dst = (\<lambda>s. case files_of s src of
     None \<Rightarrow> (Inl not_found_error, s)
   | Some content \<Rightarrow> if re_write_fails env s dst then (Inl os_error, s)
       else (Inr (), set_files ((files_of s)(dst \<mapsto> content)) s))"

definition os_replace :: "'x rpi_env \<Rightarrow> string \<Rightarrow> string \<Rightarrow> ('x, unit) rpi_io" where
  "os_replace env src dst = (\<lambda>s. case files_of s src of
     None \<Rightarrow> (Inl not_found_error, s)
   | Some content \<Rightarrow> if re_write_fails env s dst then (Inl os_error, s)
       else (Inr (), set_files ((files_of s)(src := None, dst \<mapsto> content)) s))"

definition is_file :: "string \<Rightarrow> 'x rpi \<Rightarrow> bool" where
  "is_file name s \<longleftrightarrow> files_of s name \<noteq> None"

definition replace_if_file :: "'x rpi_env \<Rightarrow> string \<Rightarrow> string \<Rightarrow> ('x, unit) rpi_io" where
  "replace_if_file env src dst = (\<lambda>s. if is_file src s then os_replace env src dst s else (Inr (), s))"

definition write_text :: "'x rpi_env \<Rightarrow> string \<Rightarrow> string \<Rightarrow> ('x, unit) rpi_io" where
  "write_text env name content = (\<lambda>s. if re_write_fails env s name then (Inl os_error, s)
     else (Inr (), set_files ((files_of s)(name \<mapsto> content)) s))"

definition unlink_missing_ok :: "string \<Rightarrow> ('x, unit) rpi_io" where
  "unlink_missing_ok name = modify_io (\<lambda>s. set_files ((files_of s)(name := None)) s)"

text \<open>
  \<^verbatim>\<open>glob\<close> with \<^verbatim>\<open>**/*.bak\<close> finds the files whose name ends with \<^verbatim>\<open>.bak\<close>, in the order of the listing of the partition. The
  first one that cannot be removed ends the loop.
\<close>

definition unlink_bak :: "'x rpi_env \<Rightarrow> string \<Rightarrow> ('x, unit) rpi_io" where
  "unlink_bak env name = (\<lambda>s. if re_write_fails env s name then (Inl os_error, s)
     else (Inr (), set_files ((files_of s)(name := None)) s))"

definition unlink_bak_files :: "'x rpi_env \<Rightarrow> ('x, unit) rpi_io" where
  "unlink_bak_files env = (\<lambda>s.
     seq_io (map (unlink_bak env) (filter (\<lambda>n. endswith n ''.bak'') (re_listing env (files_of s)))) s)"

section \<open>Starting\<close>

definition contains :: "string \<Rightarrow> string \<Rightarrow> bool" where
  "contains sub s \<longleftrightarrow> (\<exists>i\<in>set [0..<Suc (length s)]. take (length sub) (drop i s) = sub)"

definition check_model :: "('x, unit) rpi_io" where
  "check_model = (\<lambda>s. case rb_model (bs_plat s) of
     None \<Rightarrow> (Inl rpi_error, s)
   | Some m \<Rightarrow> if contains ''Pi'' m then (Inr (), s) else (Inl rpi_error, s))"

definition detect_active_dev :: "'x rpi_env \<Rightarrow> ('x, string) rpi_io" where
  "detect_active_dev env = as_rpi_error
     (bind_io (lift_cmd (get_current_rootfs_dev (re_run env) (re_active_root env) True (re_chroot env))) (\<lambda>dev.
        if dev = [] then throw (PyExc ''AssertionError'' [K_Other]) else ret dev))"

definition detect_partitions :: "'x rpi_env \<Rightarrow> string \<Rightarrow> ('x, string list) rpi_io" where
  "detect_partitions env dev = as_rpi_error
     (bind_io (lift_cmd (get_parent_dev (re_run env) dev True)) (\<lambda>parent_dev.
      bind_io (lift_cmd (get_device_tree (re_run env) parent_dev True)) (\<lambda>device_tree.
        if length device_tree < 4 then throw (PyExc ''AssertionError'' [K_Other]) else ret device_tree)))"

definition mount_system_boot :: "'x rpi_env \<Rightarrow> string \<Rightarrow> ('x, unit) rpi_io" where
  "mount_system_boot env part = bind_io (lift_cmd (is_target_mounted (re_run env) SYSTEM_BOOT_MOUNT_POINT False)) (\<lambda>m.
     if m then ret ()
     else on_failed_cmd (mount (re_run env) part SYSTEM_BOOT_MOUNT_POINT [''defaults''] [] True))"

text \<open>The slots by the position of the active device among the second and the third partition.\<close>

definition select_slots :: "string list \<Rightarrow> string \<Rightarrow> rpi_control option" where
  "select_slots device_tree dev = (case take 2 (drop 2 device_tree) of
     [a, b] \<Rightarrow>
       if dev = a then Some \<lparr> rc_active_slot = SLOT_A, rc_standby_slot = SLOT_B,
                              rc_active_slot_dev = dev, rc_standby_slot_dev = b \<rparr>
       else if dev = b then Some \<lparr> rc_active_slot = SLOT_B, rc_standby_slot = SLOT_A,
                              rc_active_slot_dev = dev, rc_standby_slot_dev = a \<rparr>
       else None
   | _ \<Rightarrow> None)"

definition require_file :: "string \<Rightarrow> ('x, unit) rpi_io" where
  "require_file name = (\<lambda>s. if is_file name s then (Inr (), s) else (Inl rpi_error, s))"

definition check_boot_files :: "rpi_control \<Rightarrow> ('x, unit) rpi_io" where
  "check_boot_files ctl = seq_io
     [require_file (get_sysboot_files_fpath CONFIG_TXT (rc_active_slot ctl)),
      require_file (get_sysboot_files_fpath CMDLINE_TXT (rc_active_slot ctl)),
      require_file (get_sysboot_files_fpath CONFIG_TXT (rc_standby_slot ctl)),
      require_file (get_sysboot_files_fpath CMDLINE_TXT (rc_standby_slot ctl))]"

text \<open>A label of the active slot that is not its id is corrected; a failure of that is only logged.\<close>

definition check_active_slot_id :: "'x rpi_env \<Rightarrow> rpi_control \<Rightarrow> ('x, unit) rpi_io" where
  "check_active_slot_id env ctl =
     bind_io (lift_cmd (get_attrs_by_dev (re_run env) ''LABEL'' (rc_active_slot_dev ctl) False)) (\<lambda>actual_fslabel.
       if actual_fslabel = rc_active_slot ctl then ret ()
       else lift_cmd (catch_io (set_ext4_fslabel (re_run env) (rc_active_slot_dev ctl) (rc_active_slot ctl) True)
         (\<lambda>e. if e = CalledProcessError then ret () else throw e)))"

definition rpi_control_init :: "'x rpi_env \<Rightarrow> ('x, rpi_control) rpi_io" where
  "rpi_control_init env = then_io check_model
     (bind_io (detect_active_dev env) (\<lambda>dev.
      bind_io (detect_partitions env dev) (\<lambda>device_tree.
      then_io (mount_system_boot env (device_tree ! 1))
        (case select_slots device_tree dev of
           None \<Rightarrow> throw rpi_error
         | Some ctl \<Rightarrow> then_io (check_boot_files ctl)
             (then_io (check_active_slot_id env ctl)
             (then_io (unlink_missing_ok SWITCH_BOOT_FLAG_FILE) (ret ctl)))))))"

section \<open>Updating the firmware\<close>

definition flash_kernel_mounts :: "string \<Rightarrow> (string \<times> string) list" where
  "flash_kernel_mounts mp = [(mp @ ''/boot/firmware'', SYSTEM_BOOT_MOUNT_POINT), (mp @ ''/proc'', ''/proc''), (mp @ ''/sys'', ''/sys'')]"

definition prepare_flash_kernel :: "'x rpi_env \<Rightarrow> string \<Rightarrow> ('x rpi, unit) cmd_io \<Rightarrow> ('x rpi, unit) cmd_io" where
  "prepare_flash_kernel env mp body = finally_io
     (then_io (seq_io (map (\<lambda>(m, src). mount (re_run env) src m [''bind''] [''--make-unbindable''] True) (flash_kernel_mounts mp)))
        body)
     (seq_io (map (\<lambda>(m, _). umount (re_run env) m False) (flash_kernel_mounts mp)))"

definition update_firmware :: "'x rpi_env \<Rightarrow> string \<Rightarrow> string \<Rightarrow> ('x, unit) rpi_io" where
  "update_firmware env target_slot mp = then_io
     (on_failed_cmd (prepare_flash_kernel env mp
        (then_io (subprocess_run_wrapper (re_run env) (in_chroot (Some mp)) [''/usr/sbin/flash-kernel'']) (ret ()))))
     (as_rpi_error (seq_io
        [replace_if_file env VMLINUZ (get_sysboot_files_fpath VMLINUZ target_slot),
         replace_if_file env INITRD_IMG (get_sysboot_files_fpath INITRD_IMG target_slot),
         write_text env SWITCH_BOOT_FLAG_FILE '''']))"

section \<open>Switching\<close>

definition finalize_switching_boot :: "'x rpi_env \<Rightarrow> rpi_control \<Rightarrow> ('x, bool) rpi_io" where
  "finalize_switching_boot env ctl = catch_io
     (then_io (seq_io
        [copyfile_atomic env (get_sysboot_files_fpath CONFIG_TXT (rc_active_slot ctl)) CONFIG_TXT,
         copyfile_atomic env (get_sysboot_files_fpath CONFIG_TXT (rc_standby_slot ctl)) TRYBOOT_TXT,
         unlink_bak_files env]) (ret True))
     (\<lambda>_. ret False)"

definition prepare_tryboot_txt :: "'x rpi_env \<Rightarrow> rpi_control \<Rightarrow> ('x, unit) rpi_io" where
  "prepare_tryboot_txt env ctl =
     as_rpi_error (copyfile_atomic env (get_sysboot_files_fpath CONFIG_TXT (rc_standby_slot ctl)) TRYBOOT_TXT)"

definition reboot_tryboot :: "'x rpi_env \<Rightarrow> string option \<Rightarrow> ('x, unit) rpi_io" where
  "reboot_tryboot env chroot = lift_cmd (reboot (re_run env) [''0 tryboot''] chroot)"

section \<open>The controller\<close>

definition rpi_mounts :: "'x rpi_env \<Rightarrow> rpi_control \<Rightarrow> slot_mounts" where
  "rpi_mounts env ctl = \<lparr> sm_standby_slot_dev = rc_standby_slot_dev ctl, sm_standby_mp = re_standby_mp env,
     sm_active_rootfs = re_active_root env, sm_active_mp = re_active_mp env, sm_dynamic = re_dynamic env,
     sm_is_dir = re_is_dir env \<rparr>"

definition fstab_str :: "string \<Rightarrow> string" where
  "fstab_str rootfs_fslabel = ''LABEL='' @ rootfs_fslabel @ [CHR 9] @ ''/'' @ [CHR 9] @ ''ext4'' @ [CHR 9]
     @ ''discard,x-systemd.growfs'' @ [CHR 9] @ ''0'' @ [CHR 9] @ ''1'' @ [CHR 10]
     @ ''LABEL=system-boot'' @ [CHR 9] @ ''/boot/firmware'' @ [CHR 9] @ ''vfat'' @ [CHR 9] @ ''defaults'' @ [CHR 9]
     @ ''0'' @ [CHR 9] @ ''1'' @ [CHR 10]"

definition write_standby_fstab :: "'x rpi_env \<Rightarrow> rpi_control \<Rightarrow> ('x, unit) rpi_io" where
  "write_standby_fstab env ctl = as_rpi_error (\<lambda>s.
     if re_write_fails env s ''/etc/fstab'' then (Inl os_error, s)
     else (Inr (), s\<lparr>bs_plat := (bs_plat s)\<lparr>rb_standby_fstab := Some (fstab_str (rc_standby_slot ctl))\<rparr>\<rparr>))"

definition preserve_ota_dir :: "'x rpi_env \<Rightarrow> ota_config_files \<Rightarrow> ('x, unit) rpi_io" where
  "preserve_ota_dir env cf = (\<lambda>s.
     case preserve_ota_dir_and_install_config_files (re_src_dir_link env) (re_dst_dir_link env) (re_made env) (re_new_meta env)
            (rb_active_ota (bs_plat s)) (rb_standby_ota (bs_plat s)) cf of
       None \<Rightarrow> (Inl os_error, s)
     | Some d \<Rightarrow> (Inr (), s\<lparr>bs_plat := (bs_plat s)\<lparr>rb_standby_ota := d\<rparr>\<rparr>))"

definition rpi_module :: string where "rpi_module = ''otaclient.boot_control._rpi_boot''"

definition rpi_post_update_platform_specific ::
    "'x rpi_env \<Rightarrow> rpi_control \<Rightarrow> string \<Rightarrow> ota_config_files \<Rightarrow> ('x, unit) rpi_io" where
  "rpi_post_update_platform_specific env ctl update_version cf = seq_io
     [preserve_ota_dir env cf,
      raise_as_ota_error BootControlBootConfigUpdateFailed ''failed to update fstab for standby slot'' rpi_module
        (write_standby_fstab env ctl),
      raise_as_ota_error BootControlFirmwareUpdateFailed ''failed to update firmware for standby slot'' rpi_module
        (update_firmware env (rc_standby_slot ctl) (re_standby_mp env)),
      raise_as_ota_error BootControlSwitchBootFailed ''failed to prepare tryboot.txt for switching boot to standby slot'' rpi_module
        (prepare_tryboot_txt env ctl)]"

definition rpi_platform :: "'x rpi_env \<Rightarrow> rpi_control \<Rightarrow> ('x rpi_state, ota_config_files) platform" where
  "rpi_platform env ctl = \<lparr>
     bootloader_type = ''rpi_boot'', plat_module = rpi_module, default_config_files = no_config_files,
     pre_update_prepare_standby = (\<lambda>erase_standby.
       lift_cmd (prepare_standby_dev (re_run env) (rpi_mounts env ctl) erase_standby (Some (rc_standby_slot ctl)) None)),
     mp_mount_standby = lift_cmd (mount_standby (re_run env) (rpi_mounts env ctl)),
     mp_mount_active = lift_cmd (mount_active (re_run env) (rpi_mounts env ctl)),
     mp_umount_all = lift_cmd (umount_all (re_run env) (rpi_mounts env ctl) True),
     pre_update_platform_specific = (\<lambda>_ _. ret ()),
     post_update_platform_specific = rpi_post_update_platform_specific env ctl \<rparr>"

text \<open>The constructor of the controller; every exception becomes \<^verbatim>\<open>BootControlStartupFailed\<close>.\<close>

definition rpi_boot_controller_init :: "'x rpi_env \<Rightarrow> (rpi_control \<Rightarrow> ('x, status_control) rpi_io) \<Rightarrow> ('x, status_control) rpi_io" where
  "rpi_boot_controller_init env ota_status_control = catch_io (bind_io (rpi_control_init env) ota_status_control)
     (\<lambda>e. case e of
        SysExit \<Rightarrow> throw SysExit
      | PyExc r _ \<Rightarrow> throw (OTAExc BootControlStartupFailed [''failed to start rpi boot controller: '' @ r] rpi_module)
      | OTAExc _ _ _ \<Rightarrow> throw (OTAExc BootControlStartupFailed [''failed to start rpi boot controller: ''] rpi_module))"

section \<open>What the commands may do\<close>

text \<open>
  The boot configuration files. \<open>boot_tools\<close> is what is documented of the programs that are run during an update: none of
  them, \<^verbatim>\<open>flash-kernel\<close> included (it installs kernels, initrds and device trees), writes one of these files, and none touches the OTA
  status directory of the current slot.
\<close>

definition boot_config_names :: "string set" where
  "boot_config_names = {CONFIG_TXT, TRYBOOT_TXT, get_sysboot_files_fpath CONFIG_TXT SLOT_A, get_sysboot_files_fpath CONFIG_TXT SLOT_B}"

definition boot_tools :: "'x rpi_env \<Rightarrow> status_control \<Rightarrow> bool" where
  "boot_tools env c \<longleftrightarrow> (\<forall>opts cmd s. current_dir c (snd (re_run env opts cmd s)) = current_dir c s \<and>
     (\<forall>n\<in>boot_config_names. files_of (snd (re_run env opts cmd s)) n = files_of s n))"

lemma boot_tools_runs:
  assumes "boot_tools env c" and "\<And>s s'. current_dir c s' = current_dir c s \<Longrightarrow>
    (\<And>n. n \<in> boot_config_names \<Longrightarrow> files_of s' n = files_of s n) \<Longrightarrow> P s \<Longrightarrow> P s'"
  shows "runs_keep (\<lambda>_. True) P (re_run env)"
  using assms unfolding runs_keep_def boot_tools_def by blast

lemma keeps_on_failed_cmd [keeps_intros]: "keeps P m \<Longrightarrow> keeps P (on_failed_cmd m)"
  by (auto simp: keeps_def on_failed_cmd_def split: prod.splits sum.splits cmd_exc.splits)

lemma keeps_as_rpi_error [keeps_intros]: "keeps P m \<Longrightarrow> keeps P (as_rpi_error m)"
  unfolding as_rpi_error_def by (auto intro!: keeps_intros)

lemma keeps_prepare_flash_kernel:
  assumes "runs_keep (\<lambda>_. True) P (re_run env)" "keeps P body"
  shows "keeps P (prepare_flash_kernel env mp body)"
  unfolding prepare_flash_kernel_def flash_kernel_mounts_def
  using assms by (auto intro!: keeps_intros keeps_mount_any keeps_umount [OF assms(1)])

section \<open>Writing boot files\<close>

lemma files_of_set [simp]: "files_of (set_files f s) = f"
  by (simp add: files_of_def set_files_def)

lemma current_dir_set [simp]: "current_dir c (set_files f s) = current_dir c s"
  by (simp add: current_dir_def set_files_def)

lemma current_dir_plat [simp]: "current_dir c (s\<lparr>bs_plat := p\<rparr>) = current_dir c s"
  by (simp add: current_dir_def)

lemma keeps_current_dir [keeps_intros]:
  "keeps (\<lambda>s. current_dir c s = d) (copyfile_atomic env a b)" "keeps (\<lambda>s. current_dir c s = d) (replace_if_file env a b)"
  "keeps (\<lambda>s. current_dir c s = d) (write_text env a t)" "keeps (\<lambda>s. current_dir c s = d) (preserve_ota_dir env cf)"
  "keeps (\<lambda>s. current_dir c s = d) (write_standby_fstab env ctl)"
  by (auto simp: keeps_def copyfile_atomic_def replace_if_file_def os_replace_def write_text_def preserve_ota_dir_def
      write_standby_fstab_def as_rpi_error_def catch_io_def split: option.splits)

text \<open>The templates can rely on the controller.\<close>

lemma rpi_hooks_keep:
  assumes "boot_tools env c"
  shows "hooks_keep (rpi_platform env ctl) c"
proof -
  have r: "runs_keep (\<lambda>_. True) (\<lambda>s. current_dir c s = d) (re_run env)" for d
    by (rule boot_tools_runs [OF assms]) simp
  have "keeps (\<lambda>s. current_dir c s = d) (update_firmware env slot mp)" for d slot mp
    unfolding update_firmware_def
    by (auto intro!: keeps_intros keeps_prepare_flash_kernel [OF r] keeps_run [OF r])
  then have "keeps (\<lambda>s. current_dir c s = d) (rpi_post_update_platform_specific env ctl v f)" for d v f
    unfolding rpi_post_update_platform_specific_def prepare_tryboot_txt_def by (auto intro!: keeps_intros)
  then show ?thesis
    using keeps_slot_mounts [OF r] by (auto simp: hooks_keep_def rpi_platform_def intro!: keeps_intros)
qed

section \<open>A failed update cannot change what is booted\<close>

text \<open>The files that decide the next ordinary boot: \<^verbatim>\<open>config.txt\<close> and the configurations of the two slots.\<close>

definition lasting_names :: "string set" where
  "lasting_names = {CONFIG_TXT, get_sysboot_files_fpath CONFIG_TXT SLOT_A, get_sysboot_files_fpath CONFIG_TXT SLOT_B}"

definition lasting :: "(string \<rightharpoonup> string) \<Rightarrow> 'x rpi \<Rightarrow> bool" where
  "lasting f s \<longleftrightarrow> (\<forall>n\<in>lasting_names. files_of s n = f n)"

lemma lasting_runs: "boot_tools env c \<Longrightarrow> runs_keep (\<lambda>_. True) (lasting f) (re_run env)"
  by (rule boot_tools_runs) (auto simp: lasting_def lasting_names_def boot_config_names_def)

lemma lasting_set: "lasting f s \<Longrightarrow> (\<And>n. n \<in> lasting_names \<Longrightarrow> g n = files_of s n) \<Longrightarrow> lasting f (set_files g s)"
  by (simp add: lasting_def)

lemma lasting_other:
  "slot \<in> {SLOT_A, SLOT_B} \<Longrightarrow> VMLINUZ \<notin> lasting_names \<and> INITRD_IMG \<notin> lasting_names \<and> TRYBOOT_TXT \<notin> lasting_names
     \<and> SWITCH_BOOT_FLAG_FILE \<notin> lasting_names \<and> get_sysboot_files_fpath VMLINUZ slot \<notin> lasting_names
     \<and> get_sysboot_files_fpath INITRD_IMG slot \<notin> lasting_names"
  by (auto simp: lasting_names_def get_sysboot_files_fpath_def boot_names)

lemma keeps_lasting_writes:
  "b \<notin> lasting_names \<Longrightarrow> keeps (lasting f) (copyfile_atomic env a b)"
  "a \<notin> lasting_names \<Longrightarrow> b \<notin> lasting_names \<Longrightarrow> keeps (lasting f) (replace_if_file env a b)"
  "a \<notin> lasting_names \<Longrightarrow> keeps (lasting f) (write_text env a t)"
  "keeps (lasting f) (preserve_ota_dir env cf)" "keeps (lasting f) (write_standby_fstab env ctl)" "keeps (lasting f) (on_fs m)"
  by (auto simp: keeps_def copyfile_atomic_def replace_if_file_def os_replace_def write_text_def preserve_ota_dir_def
      write_standby_fstab_def as_rpi_error_def catch_io_def on_fs_def lasting_def files_of_def set_files_def
      split: option.splits prod.splits)

lemma keeps_lasting_update_firmware:
  assumes "boot_tools env c" "slot \<in> {SLOT_A, SLOT_B}"
  shows "keeps (lasting f) (update_firmware env slot mp)"
proof -
  note r = lasting_runs [OF assms(1), of f]
  show ?thesis
    unfolding update_firmware_def using lasting_other [OF assms(2)]
    by (auto intro!: keeps_intros keeps_lasting_writes keeps_prepare_flash_kernel [OF r] keeps_run [OF r])
qed

lemma keeps_lasting_post_update:
  assumes "boot_tools env c" "rc_standby_slot ctl \<in> {SLOT_A, SLOT_B}"
  shows "keeps (lasting f) (bc_post_update (rpi_platform env ctl) c v vd cf)"
proof -
  note r = lasting_runs [OF assms(1), of f]
  have "keeps (lasting f) (rpi_post_update_platform_specific env ctl v cf')" for cf'
    unfolding rpi_post_update_platform_specific_def prepare_tryboot_txt_def
    using lasting_other [OF assms(2)]
    by (auto intro!: keeps_intros keeps_lasting_writes keeps_lasting_update_firmware [OF assms])
  then show ?thesis
    unfolding bc_post_update_def using keeps_slot_mounts [OF r]
    by (auto simp: rpi_platform_def intro!: keeps_intros keeps_lasting_writes)
qed

text \<open>A post-update that returns has made \<^verbatim>\<open>tryboot.txt\<close>.\<close>

lemma as_rpi_error_returns [io_returns]: "as_rpi_error m s = (Inr a, s') \<longleftrightarrow> m s = (Inr a, s')"
  by (cases "m s") (auto simp: as_rpi_error_def catch_io_def split: sum.splits)

lemma copyfile_atomic_returns:
  "copyfile_atomic env a b s = (Inr u, s') \<longleftrightarrow>
     (\<exists>x. files_of s a = Some x \<and> \<not> re_write_fails env s b \<and> s' = set_files ((files_of s)(b \<mapsto> x)) s)"
  by (auto simp: copyfile_atomic_def split: option.splits)

lemma prepare_tryboot_txt_returns:
  assumes "prepare_tryboot_txt env ctl s = (Inr (), s')"
  shows "files_of s' TRYBOOT_TXT = files_of s' (get_sysboot_files_fpath CONFIG_TXT (rc_standby_slot ctl))"
proof -
  have "get_sysboot_files_fpath CONFIG_TXT (rc_standby_slot ctl) \<noteq> TRYBOOT_TXT"
    by (simp add: get_sysboot_files_fpath_def boot_names)
  with assms show ?thesis by (auto simp: prepare_tryboot_txt_def as_rpi_error_returns copyfile_atomic_returns)
qed

lemma rpi_post_update_last:
  assumes "rpi_post_update_platform_specific env ctl v cf s = (Inr (), s')"
  shows "\<exists>s1. prepare_tryboot_txt env ctl s1 = (Inr (), s')"
  using assms by (auto simp: rpi_post_update_platform_specific_def then_returns ret_returns raise_as_returns)

lemma rpi_post_update_hook:
  assumes "bc_post_update (rpi_platform env ctl) c v vd cf s = (Inr (), s')"
  shows "\<exists>s1 s2 cf'. rpi_post_update_platform_specific env ctl v cf' s1 = (Inr (), s2)
    \<and> lift_cmd (umount_all (re_run env) (rpi_mounts env ctl) True) s2 = (Inr (), s')"
proof -
  let ?p = "rpi_platform env ctl"
  obtain s1 s2 where "post_update_platform_specific ?p v (case cf of Some f \<Rightarrow> f | None \<Rightarrow> default_config_files ?p) s1 = (Inr (), s2)"
    and "mp_umount_all ?p s2 = (Inr (), s')"
    using assms unfolding bc_post_update_def raise_as_returns seq_io.simps then_returns ret_returns by auto
  moreover have "post_update_platform_specific ?p = rpi_post_update_platform_specific env ctl"
    and "mp_umount_all ?p = lift_cmd (umount_all (re_run env) (rpi_mounts env ctl) True)"
    by (simp_all add: rpi_platform_def)
  ultimately show ?thesis by metis
qed

text \<open>
  C8: On the Raspberry Pi a post-update, wherever it fails, leaves \<^verbatim>\<open>config.txt\<close> and the configurations of both slots as they
  were, so that a plain reboot starts the slot it started before. When it returns, \<^verbatim>\<open>tryboot.txt\<close>, which the one trial boot
  uses, is the configuration of the standby slot. The programs it runs are assumed not to write these files.
\<close>

theorem rpi_post_update_keeps_boot:
  assumes "boot_tools env c" and "rc_standby_slot ctl \<in> {SLOT_A, SLOT_B}"
    and "bc_post_update (rpi_platform env ctl) c v vd cf s = (r, s')"
  shows "files_of s' CONFIG_TXT = files_of s CONFIG_TXT
    \<and> (\<forall>slot\<in>{SLOT_A, SLOT_B}. files_of s' (get_sysboot_files_fpath CONFIG_TXT slot) = files_of s (get_sysboot_files_fpath CONFIG_TXT slot))
    \<and> (r = Inr () \<longrightarrow> files_of s' TRYBOOT_TXT = files_of s (get_sysboot_files_fpath CONFIG_TXT (rc_standby_slot ctl)))"
proof -
  let ?f = "files_of s" and ?cfg = "get_sysboot_files_fpath CONFIG_TXT (rc_standby_slot ctl)"
  have kept: "lasting ?f s'"
    using keepsD_eq [OF keeps_lasting_post_update [OF assms(1,2)] assms(3)] by (simp add: lasting_def)
  have "files_of s' TRYBOOT_TXT = ?f ?cfg" if ok: "r = Inr ()"
  proof -
    obtain s1 s2 cf' where post: "rpi_post_update_platform_specific env ctl v cf' s1 = (Inr (), s2)"
      and um: "lift_cmd (umount_all (re_run env) (rpi_mounts env ctl) True) s2 = (Inr (), s')"
      using rpi_post_update_hook [OF assms(3) [unfolded ok]] by blast
    obtain s0 where "prepare_tryboot_txt env ctl s0 = (Inr (), s2)" using rpi_post_update_last [OF post] by blast
    then have trb: "files_of s2 TRYBOOT_TXT = files_of s2 ?cfg" by (rule prepare_tryboot_txt_returns)
    have "runs_keep (\<lambda>_. True) (\<lambda>t. files_of t TRYBOOT_TXT = files_of t ?cfg) (re_run env)"
    proof (rule boot_tools_runs [OF assms(1)])
      fix t t' :: "'a rpi"
      assume same: "\<And>n. n \<in> boot_config_names \<Longrightarrow> files_of t' n = files_of t n" and eq: "files_of t TRYBOOT_TXT = files_of t ?cfg"
      have "TRYBOOT_TXT \<in> boot_config_names" "?cfg \<in> boot_config_names" using assms(2) by (auto simp: boot_config_names_def)
      with same eq show "files_of t' TRYBOOT_TXT = files_of t' ?cfg" by metis
    qed
    then have "keeps (\<lambda>t. files_of t TRYBOOT_TXT = files_of t ?cfg) (lift_cmd (umount_all (re_run env) (rpi_mounts env ctl) True))"
      by (intro keeps_intros keeps_slot_mounts)
    from keepsD_eq [OF this um trb] have "files_of s' TRYBOOT_TXT = files_of s' ?cfg" .
    then show ?thesis using kept assms(2) by (auto simp: lasting_def lasting_names_def)
  qed
  then show ?thesis using kept by (simp add: lasting_def lasting_names_def)
qed

lemma unlink_bak_loop:
  "seq_io (map (unlink_bak env) ns) s = (r, s') \<Longrightarrow>
     (\<forall>n. n \<notin> set ns \<longrightarrow> files_of s' n = files_of s n) \<and> (r = Inr () \<longrightarrow> (\<forall>n\<in>set ns. files_of s' n = None))"
proof (induction ns arbitrary: s)
  case (Cons n ns)
  show ?case
  proof (cases "re_write_fails env s n")
    case True
    then have "unlink_bak env n s = (Inl os_error, s)" by (simp add: unlink_bak_def)
    with Cons.prems have "r = Inl os_error" "s' = s" by auto
    then show ?thesis by simp
  next
    case False
    let ?t = "set_files ((files_of s)(n := None)) s"
    have "unlink_bak env n s = (Inr (), ?t)" using False by (simp add: unlink_bak_def)
    with Cons.prems have "seq_io (map (unlink_bak env) ns) ?t = (r, s')" by simp
    from Cons.IH [OF this] show ?thesis by (cases "n \<in> set ns") auto
  qed
qed auto

lemma unlink_bak_files_spec:
  assumes "unlink_bak_files env s = (r, s')"
  shows "(\<forall>n. \<not> endswith n ''.bak'' \<longrightarrow> files_of s' n = files_of s n) \<and>
    (dom (files_of s) \<subseteq> set (re_listing env (files_of s)) \<longrightarrow> r = Inr () \<longrightarrow> (\<forall>n. endswith n ''.bak'' \<longrightarrow> files_of s' n = None))"
proof -
  note l = unlink_bak_loop [OF assms [unfolded unlink_bak_files_def]]
  show ?thesis
  proof (intro conjI allI impI)
    fix n assume c: "dom (files_of s) \<subseteq> set (re_listing env (files_of s))" and r: "r = Inr ()" and n: "endswith n ''.bak''"
    show "files_of s' n = None"
    proof (cases "n \<in> set (re_listing env (files_of s))")
      case True with l r n show ?thesis by simp
    next
      case False
      with l have "files_of s' n = files_of s n" by simp
      with False c show ?thesis by (auto simp: dom_def)
    qed
  qed (use l in auto)
qed

text \<open>
  Finalizing the switch, if the listing of the boot partition lists its files. \<^verbatim>\<open>finalize_switching_boot\<close> never raises. When it answers True, ordinary boots use the
  configuration of the slot that is running, the next trial boot would use the other slot's, and no backup file of
  \<^verbatim>\<open>flash-kernel\<close> is left; when it answers False, \<^verbatim>\<open>config.txt\<close> is either unchanged or the one of the running slot.
\<close>

lemma rpi_finalize_switches:
  assumes "rc_active_slot ctl \<in> {SLOT_A, SLOT_B}" and "rc_standby_slot ctl \<in> {SLOT_A, SLOT_B}"
    and "\<And>f. dom f \<subseteq> dom (files_of s) \<union> {CONFIG_TXT, TRYBOOT_TXT} \<Longrightarrow> dom f \<subseteq> set (re_listing env f)"
  shows "\<exists>ok s'. finalize_switching_boot env ctl s = (Inr ok, s')
    \<and> files_of s' CONFIG_TXT \<in> {files_of s CONFIG_TXT, files_of s (get_sysboot_files_fpath CONFIG_TXT (rc_active_slot ctl))}
    \<and> (ok \<longrightarrow> files_of s' CONFIG_TXT = files_of s (get_sysboot_files_fpath CONFIG_TXT (rc_active_slot ctl))
          \<and> files_of s' TRYBOOT_TXT = files_of s (get_sysboot_files_fpath CONFIG_TXT (rc_standby_slot ctl))
          \<and> (\<forall>n. endswith n ''.bak'' \<longrightarrow> files_of s' n = None))"
proof -
  let ?a = "get_sysboot_files_fpath CONFIG_TXT (rc_active_slot ctl)" and ?b = "get_sysboot_files_fpath CONFIG_TXT (rc_standby_slot ctl)"
  have ne: "?a \<noteq> CONFIG_TXT" "?b \<noteq> CONFIG_TXT" "\<not> endswith CONFIG_TXT ''.bak''" "\<not> endswith TRYBOOT_TXT ''.bak''" "TRYBOOT_TXT \<noteq> CONFIG_TXT"
    by (auto simp: get_sysboot_files_fpath_def boot_names endswith_def)
  note defs = finalize_switching_boot_def io_defs seq_io.simps
  show ?thesis
  proof (cases "\<exists>x. files_of s ?a = Some x \<and> \<not> re_write_fails env s CONFIG_TXT")
    case False
    then show ?thesis by (auto simp: defs copyfile_atomic_def split: option.splits)
  next
    case True
    then obtain x where x: "files_of s ?a = Some x" "\<not> re_write_fails env s CONFIG_TXT" by blast
    obtain s1 where s1: "copyfile_atomic env ?a CONFIG_TXT s = (Inr (), s1)" "files_of s1 = (files_of s)(CONFIG_TXT \<mapsto> x)"
      using x by (simp add: copyfile_atomic_def)
    show ?thesis
    proof (cases "\<exists>y. files_of s ?b = Some y \<and> \<not> re_write_fails env s1 TRYBOOT_TXT")
      case False
      then have "\<exists>e. copyfile_atomic env ?b TRYBOOT_TXT s1 = (Inl e, s1)"
        using ne s1(2) by (auto simp: copyfile_atomic_def split: option.splits)
      then show ?thesis using s1 x by (auto simp: defs)
    next
      case True
      then obtain y where y: "files_of s ?b = Some y" "\<not> re_write_fails env s1 TRYBOOT_TXT" by blast
      obtain s2 where s2: "copyfile_atomic env ?b TRYBOOT_TXT s1 = (Inr (), s2)" "files_of s2 = (files_of s1)(TRYBOOT_TXT \<mapsto> y)"
        using y s1(2) ne by (simp add: copyfile_atomic_def)
      obtain r s3 where s3: "unlink_bak_files env s2 = (r, s3)" by (cases "unlink_bak_files env s2")
      note u = unlink_bak_files_spec [OF s3]
      have "files_of s3 CONFIG_TXT = Some x" "files_of s3 TRYBOOT_TXT = Some y" using u ne s1(2) s2(2) by simp_all
      moreover have "dom (files_of s2) \<subseteq> set (re_listing env (files_of s2))"
        by (rule assms(3)) (auto simp: s1(2) s2(2) split: if_splits)
      moreover have "finalize_switching_boot env ctl s = (Inr (r = Inr ()), s3)"
        using s1(1) s2(1) s3 by (cases r) (simp_all add: defs)
      ultimately show ?thesis using x y u by (intro exI [of _ "r = Inr ()"] exI [of _ s3]) simp
    qed
  qed
qed

section \<open>The slots\<close>

lemma select_slots_ok:
  "select_slots tree dev = Some ctl \<Longrightarrow> distinct tree \<Longrightarrow>
     rc_active_slot_dev ctl = dev \<and> rc_standby_slot_dev ctl \<in> set tree \<and> rc_standby_slot_dev ctl \<noteq> dev
     \<and> {rc_active_slot ctl, rc_standby_slot ctl} = {SLOT_A, SLOT_B} \<and> rc_active_slot ctl \<noteq> rc_standby_slot ctl"
proof -
  assume sel: "select_slots tree dev = Some ctl" and d: "distinct tree"
  obtain a b where ab: "take 2 (drop 2 tree) = [a, b]"
    using sel by (auto simp: select_slots_def split: list.splits)
  have "distinct (take 2 (drop 2 tree))" using d by simp
  then have "a \<noteq> b" unfolding ab by simp
  moreover have "set (take 2 (drop 2 tree)) \<subseteq> set tree" by (meson order_trans set_drop_subset set_take_subset)
  then have "a \<in> set tree" "b \<in> set tree" unfolding ab by auto
  ultimately show ?thesis using sel unfolding select_slots_def ab by (auto simp: SLOT_A_def SLOT_B_def split: if_splits)
qed

text \<open>The check passes only with the boot configuration and the kernel command line of both slots in place.\<close>

lemma check_boot_files_returns:
  "check_boot_files ctl s = (Inr (), s') \<Longrightarrow> s' = s \<and> (\<forall>slot\<in>{rc_active_slot ctl, rc_standby_slot ctl}.
     is_file (get_sysboot_files_fpath CONFIG_TXT slot) s \<and> is_file (get_sysboot_files_fpath CMDLINE_TXT slot) s)"
  by (auto simp: check_boot_files_def require_file_def then_returns ret_returns split: if_splits)

text \<open>
  A started controller of the Raspberry Pi knows two different slots, the running one with the device it was detected on
  and the other with a different device (if the listing of the disk has no duplicates). Preparing the standby slot then runs
  nothing that can format or relabel another device: what every command line of \<open>prepares_only\<close> the standby device keeps is kept.
\<close>

lemma rpi_slots_told_apart:
  assumes "rpi_control_init env s = (Inr ctl, s')"
    and "\<And>dev t t1 tree. detect_partitions env dev t = (Inr tree, t1) \<Longrightarrow> distinct tree"
  shows "{rc_active_slot ctl, rc_standby_slot ctl} = {SLOT_A, SLOT_B} \<and> rc_active_slot ctl \<noteq> rc_standby_slot ctl
    \<and> rc_standby_slot_dev ctl \<noteq> rc_active_slot_dev ctl
    \<and> (\<forall>P e. runs_keep (prepares_only (rc_standby_slot_dev ctl)) P (re_run env) \<longrightarrow>
          keeps P (pre_update_prepare_standby (rpi_platform env ctl) e))"
proof -
  obtain dev t1 t2 tree where
    tree: "detect_partitions env dev t1 = (Inr tree, t2)" and sel: "select_slots tree dev = Some ctl"
    using assms(1) by (auto simp: rpi_control_init_def bind_returns then_returns ret_returns throw_returns split: option.splits)
  have "keeps P (pre_update_prepare_standby (rpi_platform env ctl) e)"
    if "runs_keep (prepares_only (rc_standby_slot_dev ctl)) P (re_run env)" for P e
    using that by (auto simp: rpi_platform_def rpi_mounts_def intro!: keeps_lift_cmd keeps_prepare_standby_dev)
  with select_slots_ok [OF sel assms(2) [OF tree]] show ?thesis by blast
qed

section \<open>Examples\<close>

text \<open>Every command succeeds and changes nothing; \<^verbatim>\<open>findmnt\<close> and \<^verbatim>\<open>lsblk\<close> answer for a disk with three partitions.\<close>

definition ex_lsblk :: string where
  "ex_lsblk = join_with (CHR 10) [''sda'', ''sda1'', ''sda2'', ''sda3'']"

definition ex_rpi_run :: "unit rpi runner" where
  "ex_rpi_run opts cmd s =
     ((if cmd = [''findmnt'', ''-nfco'', ''SOURCE'', ''/''] then R_Ok ''sda2''
       else if hd cmd = ''findmnt'' then R_Failed
       else if cmd = [''lsblk'', ''-lnpo'', ''NAME'', ''sda''] then R_Ok ex_lsblk
       else if hd cmd = ''lsblk'' then R_Ok ''sda'' else R_Ok ''''), s)"

definition ex_rpi_env :: "(unit rpi \<Rightarrow> string \<Rightarrow> bool) \<Rightarrow> (string list) \<Rightarrow> unit rpi_env" where
  "ex_rpi_env fails names = \<lparr> re_run = ex_rpi_run, re_write_fails = fails, re_listing = (\<lambda>f. names), re_chroot = None,
     re_active_root = ''/'', re_standby_mp = ''/mnt/standby'', re_active_mp = ''/mnt/active'', re_dynamic = False,
     re_is_dir = (\<lambda>_. True), re_src_dir_link = (\<lambda>_. False), re_dst_dir_link = (\<lambda>_. False), re_made = (\<lambda>m. m), re_new_meta = 0 \<rparr>"

definition ex_rpi_ctl :: rpi_control where
  "ex_rpi_ctl = \<lparr> rc_active_slot = SLOT_A, rc_standby_slot = SLOT_B, rc_active_slot_dev = ''sda2'', rc_standby_slot_dev = ''sda3'' \<rparr>"

definition ex_rpi :: "unit rpi" where
  "ex_rpi = \<lparr> bs_fs = ex_fs, bs_plat = \<lparr> rb_model = Some ''Raspberry Pi 4'',
     rb_files = [''config.txt'' \<mapsto> ''A'', ''config.txt_slot_a'' \<mapsto> ''A'', ''config.txt_slot_b'' \<mapsto> ''B''],
     rb_active_ota = None, rb_standby_ota = None, rb_standby_fstab = None, rb_rest = () \<rparr> \<rparr>"

lemma ex_boot_tools: "boot_tools (ex_rpi_env fails names) c"
  by (simp add: boot_tools_def ex_rpi_env_def ex_rpi_run_def)

theorem rpi_post_update_keeps_boot_witness:
  "files_of (snd (bc_post_update (rpi_platform (ex_rpi_env (\<lambda>_ _. False) []) ex_rpi_ctl) ex_ctl ''v1'' None None ex_rpi)) CONFIG_TXT = Some ''A''"
  using rpi_post_update_keeps_boot [OF ex_boot_tools, where ctl = ex_rpi_ctl, OF _ prod.collapse [symmetric],
      of "\<lambda>_ _. False" "[]" ex_ctl "''v1''" None None ex_rpi]
  by (simp add: ex_rpi_ctl_def ex_rpi_def files_of_def CONFIG_TXT_def SLOT_A_def)

definition ex_rpi_switched :: "unit rpi" where
  "ex_rpi_switched = set_files ((files_of ex_rpi)(TRYBOOT_TXT \<mapsto> ''B'', ''vmlinuz.bak'' \<mapsto> ''old'')) ex_rpi"

definition ex_rpi_ctl_b :: rpi_control where
  "ex_rpi_ctl_b = \<lparr> rc_active_slot = SLOT_B, rc_standby_slot = SLOT_A, rc_active_slot_dev = ''sda3'', rc_standby_slot_dev = ''sda2'' \<rparr>"

text \<open>
  The order of the two copies: if \<^verbatim>\<open>tryboot.txt\<close> cannot be written, the switch is reported as failed, and it is recorded as a
  failed update, although \<^verbatim>\<open>config.txt\<close> makes the new slot the one of every later boot. The documentation of the method has the
  copies in the other order, in which such a failure would keep the old slot.
\<close>

lemma rpi_finalize_false_but_switched:
  "case finalize_switching_boot (ex_rpi_env (\<lambda>_ n. n = TRYBOOT_TXT) []) ex_rpi_ctl_b ex_rpi_switched of
     (r, s') \<Rightarrow> r = Inr False \<and> files_of s' CONFIG_TXT = Some ''B''"
  by (simp add: finalize_switching_boot_def copyfile_atomic_def ex_rpi_env_def ex_rpi_ctl_b_def ex_rpi_switched_def ex_rpi_def
      files_of_def set_files_def get_sysboot_files_fpath_def boot_names io_defs)

definition ex_rpi_full :: "unit rpi" where
  "ex_rpi_full = set_files ((files_of ex_rpi)(''cmdline.txt_slot_a'' \<mapsto> ''a'', ''cmdline.txt_slot_b'' \<mapsto> ''b'')) ex_rpi"

lemma ex_rpi_started: "fst (rpi_control_init (ex_rpi_env (\<lambda>_ _. False) []) ex_rpi_full) = Inr ex_rpi_ctl"
  by code_simp

end
