(* ===== verification/Delta_Scan.thy ===== *)
theory Delta_Scan
  imports Tree_Copy Py_Strings
begin

text \<open>
  Which files of a slot are looked at when the delta is generated, and what is left of the standby slot afterwards
  (\<^verbatim>\<open>otaclient/create_standby/delta_gen.py\<close>, the scans and clean-ups, and \<^verbatim>\<open>TopDownCommonShortestPath\<close> of \<^verbatim>\<open>utils.py\<close>). What the
  worker threads do with the files is in \<open>Delta_Workers\<close>.

  The slot is a tree of \<open>Tree_Copy\<close>; a canonical path is the list of its components, so the root is the empty list. \<open>sd p\<close> says
  whether the link at \<open>p\<close> leads to a directory. The table of the directories of the new image is the parameter
  \<open>dir_in_image\<close> (\<^verbatim>\<open>orm_check_entry_exist\<close> of the file table).
\<close>

section \<open>Paths to remove\<close>

text \<open>\<^verbatim>\<open>Path.parents\<close>, from the nearest one up to the root.\<close>

definition parents :: "path \<Rightarrow> path list" where
  "parents p = map (\<lambda>i. take i p) (rev [0..<length p])"

definition add_path :: "path \<Rightarrow> path set \<Rightarrow> path set" where
  "add_path p store = (if \<exists>q\<in>set (parents p). q \<in> store then store else insert p store)"

definition add_paths :: "path list \<Rightarrow> path set \<Rightarrow> path set" where
  "add_paths ps store = fold add_path ps store"

text \<open>\<open>is_under q p\<close>: \<open>p\<close> is \<open>q\<close> or below it.\<close>

definition is_under :: "path \<Rightarrow> path \<Rightarrow> bool" where
  "is_under q p \<longleftrightarrow> take (length q) p = q"

lemma set_parents: "set (parents p) = {q. is_under q p \<and> q \<noteq> p}"
proof (intro set_eqI iffI)
  fix q assume "q \<in> set (parents p)"
  then obtain i where "i < length p" "q = take i p" by (auto simp: parents_def)
  then show "q \<in> {q. is_under q p \<and> q \<noteq> p}" by (auto simp: is_under_def min_def dest: arg_cong [of _ _ length])
next
  fix q assume "q \<in> {q. is_under q p \<and> q \<noteq> p}"
  then have q: "take (length q) p = q" "q \<noteq> p" by (auto simp: is_under_def)
  then have "length q < length p" by (metis le_less_linear take_all)
  then show "q \<in> set (parents p)" using q(1) by (auto simp: parents_def intro!: image_eqI [of _ _ "length q"])
qed

lemma is_under_refl [simp]: "is_under p p"
  by (simp add: is_under_def)

lemma is_under_trans: "is_under a b \<Longrightarrow> is_under b c \<Longrightarrow> is_under a c"
  unfolding is_under_def by (metis append_take_drop_id length_take min.absorb_iff2 min_def take_append take_take)

lemma is_under_append [simp]: "is_under p (p @ q)"
  by (simp add: is_under_def)

lemma add_path_covers: "\<exists>q\<in>add_path p store. is_under q p"
  by (auto simp: add_path_def set_parents)

lemma add_path_mono: "store \<subseteq> add_path p store"
  by (auto simp: add_path_def)

lemma add_path_sub: "add_path p store \<subseteq> insert p store"
  by (auto simp: add_path_def)

lemma add_paths_mono: "store \<subseteq> add_paths ps store"
  by (induction ps arbitrary: store) (auto simp: add_paths_def dest: subsetD [OF add_path_mono])

lemma add_paths_sub: "add_paths ps store \<subseteq> set ps \<union> store"
proof (induction ps arbitrary: store)
  case (Cons p ps)
  have "add_paths (p # ps) store = add_paths ps (add_path p store)" by (simp add: add_paths_def)
  with Cons [of "add_path p store"] add_path_sub [of p store] show ?case by auto
qed (simp add: add_paths_def)

lemma add_paths_covers: "p \<in> set ps \<union> store \<Longrightarrow> \<exists>q\<in>add_paths ps store. is_under q p"
proof (induction ps arbitrary: store)
  case (Cons r ps)
  have eq: "add_paths (r # ps) store = add_paths ps (add_path r store)" by (simp add: add_paths_def)
  show ?case
  proof (cases "p = r")
    case True
    then obtain q where "q \<in> add_path r store" "is_under q p" using add_path_covers by blast
    then show ?thesis unfolding eq using add_paths_mono by blast
  next
    case False
    then have "p \<in> set ps \<union> add_path r store" using Cons.prems add_path_mono by auto
    then show ?thesis unfolding eq by (rule Cons.IH)
  qed
qed (auto simp: add_paths_def intro: bexI [of _ p])

section \<open>Which folders are looked at\<close>

definition MAX_FOLDER_DEEPTH :: nat where "MAX_FOLDER_DEEPTH = 35"
definition MAX_FILENUM_PER_FOLDER :: nat where "MAX_FILENUM_PER_FOLDER = 8192"

definition CLEANUP_ENTRY :: "path list" where
  "CLEANUP_ENTRY = [[''lost+found''], [''tmp''], [''run'']]"

definition FULL_SCAN_PATHS :: "path list" where
  "FULL_SCAN_PATHS = [[''lib''], [''var'', ''lib''], [''usr''], [''opt'', ''nvidia''], [''home'', ''autoware'', ''autoware.proj'']]"

definition EXCLUDE_PATHS :: "path list" where
  "EXCLUDE_PATHS = [[''tmp''], [''dev''], [''proc''], [''sys''], [''lost+found''], [''media''], [''mnt''], [''run''], [''srv'']]"

definition OTA_WORKING_DIRS :: "string list" where
  "OTA_WORKING_DIRS = [''/.ota-resources'', ''/.ota-meta'']"

definition str_path :: "path \<Rightarrow> string" where
  "str_path p = ''/'' @ join_with (CHR ''/'') p"

definition startswith :: "string \<Rightarrow> string \<Rightarrow> bool" where
  "startswith s pre \<longleftrightarrow> take (length pre) s = pre"

definition is_ota_working_dir :: "path \<Rightarrow> bool" where
  "is_ota_working_dir p \<longleftrightarrow> list_ex (startswith (str_path p)) OTA_WORKING_DIRS"

record check_dir_result =
  dir_should_be_removed :: bool
  dir_should_be_fully_scan :: bool

definition dir_should_be_process :: "check_dir_result \<Rightarrow> bool" where
  "dir_should_be_process r \<longleftrightarrow> dir_should_be_fully_scan r \<or> \<not> dir_should_be_removed r"

text \<open>The loop over the parents from the root down: the first one that is listed decides. None: the folder is excluded.\<close>

fun full_scan_of :: "path list \<Rightarrow> bool option" where
  "full_scan_of [] = Some False"
| "full_scan_of (q # qs) =
     (if q \<in> set FULL_SCAN_PATHS then Some True
      else if q \<in> set EXCLUDE_PATHS then None
      else full_scan_of qs)"

definition check_if_need_to_process_dir :: "(path \<Rightarrow> bool) \<Rightarrow> path \<Rightarrow> check_dir_result" where
  "check_if_need_to_process_dir dir_in_image p =
     (if p = [] then \<lparr> dir_should_be_removed = False, dir_should_be_fully_scan = False \<rparr>
      else if length (parents p) > MAX_FOLDER_DEEPTH
      then \<lparr> dir_should_be_removed = True, dir_should_be_fully_scan = False \<rparr>
      else case full_scan_of (rev (parents p)) of
          None \<Rightarrow> \<lparr> dir_should_be_removed = True, dir_should_be_fully_scan = False \<rparr>
        | Some full \<Rightarrow> \<lparr> dir_should_be_removed = \<not> dir_in_image p, dir_should_be_fully_scan = full \<rparr>)"

section \<open>The scan of the whole disk\<close>

record scan_out =
  so_tasks :: "(path \<times> bool) list"
  so_unlinked :: "path list"
  so_removed :: "path list"

definition no_out :: scan_out where
  "no_out = \<lparr> so_tasks = [], so_unlinked = [], so_removed = [] \<rparr>"

definition out_append :: "scan_out \<Rightarrow> scan_out \<Rightarrow> scan_out" where
  "out_append a b = \<lparr> so_tasks = so_tasks a @ so_tasks b, so_unlinked = so_unlinked a @ so_unlinked b,
     so_removed = so_removed a @ so_removed b \<rparr>"

text \<open>What \<^verbatim>\<open>os.walk\<close> lists: links to directories among the directories, every other link among the files.\<close>

definition walk_files :: "(path \<Rightarrow> bool) \<Rightarrow> path \<Rightarrow> entries \<Rightarrow> entries" where
  "walk_files sd p E = filter (\<lambda>e. \<not> is_directory (Some (snd e)) \<and> \<not> dir_link sd p e) E"

definition is_non_empty_regular_file :: "node \<Rightarrow> bool" where
  "is_non_empty_regular_file n \<longleftrightarrow> (case n of File _ c \<Rightarrow> c \<noteq> [] | _ \<Rightarrow> False)"

text \<open>One folder in the in-place mode: what is handed to the workers and what is unlinked at once.\<close>

definition scan_files :: "(path \<Rightarrow> bool) \<Rightarrow> path \<Rightarrow> entries \<Rightarrow> bool \<Rightarrow> scan_out" where
  "scan_files sd p E full =
     (let filenames = walk_files sd p E;
          scanned = take MAX_FILENUM_PER_FOLDER filenames
      in \<lparr> so_tasks = map (\<lambda>e. (p @ [fst e], full)) (filter (is_non_empty_regular_file \<circ> snd) scanned),
           so_unlinked = map (\<lambda>e. p @ [fst e]) (filter (dir_link sd p) E @ drop MAX_FILENUM_PER_FOLDER filenames
             @ filter (\<lambda>e. \<not> is_non_empty_regular_file (snd e)) scanned),
           so_removed = [] \<rparr>)"

fun inplace_scan :: "(path \<Rightarrow> bool) \<Rightarrow> (path \<Rightarrow> bool) \<Rightarrow> path \<Rightarrow> node \<Rightarrow> scan_out"
and inplace_scan_subs :: "(path \<Rightarrow> bool) \<Rightarrow> (path \<Rightarrow> bool) \<Rightarrow> path \<Rightarrow> entries \<Rightarrow> scan_out" where
  "inplace_scan di sd p (Dir m E) =
     (if is_ota_working_dir p then inplace_scan_subs di sd p E
      else let r = check_if_need_to_process_dir di p;
               removed = no_out\<lparr> so_removed := if dir_should_be_removed r then [p] else [] \<rparr>
           in if \<not> dir_should_be_process r then removed
              else out_append removed (out_append (scan_files sd p E (dir_should_be_fully_scan r)) (inplace_scan_subs di sd p E)))"
| "inplace_scan di sd p n = no_out"
| "inplace_scan_subs di sd p [] = no_out"
| "inplace_scan_subs di sd p ((n, s) # E) = out_append (inplace_scan di sd (p @ [n]) s) (inplace_scan_subs di sd p E)"

text \<open>The folders that \<^verbatim>\<open>_cleanup_base\<close> removes.\<close>

definition dirs_to_remove :: "scan_out \<Rightarrow> path set" where
  "dirs_to_remove out = {q \<in> add_paths (so_removed out) (add_paths CLEANUP_ENTRY {}). \<not> is_ota_working_dir q}"

text \<open>What is still at a path after the scan, the workers (each removes the file of its task in the end) and the clean-up.\<close>

definition left_in_place :: "(path \<Rightarrow> bool) \<Rightarrow> (path \<Rightarrow> bool) \<Rightarrow> node \<Rightarrow> path \<Rightarrow> node option" where
  "left_in_place di sd root p =
     (let out = inplace_scan di sd [] root
      in if p \<in> set (so_unlinked out) \<or> p \<in> fst ` set (so_tasks out) \<or> (\<exists>q\<in>dirs_to_remove out. is_under q p)
         then None else node_at root p)"

section \<open>The scan for rebuilding\<close>

fun rebuild_scan :: "(path \<Rightarrow> bool) \<Rightarrow> (path \<Rightarrow> bool) \<Rightarrow> path \<Rightarrow> node \<Rightarrow> (path \<times> bool) list"
and rebuild_scan_subs :: "(path \<Rightarrow> bool) \<Rightarrow> (path \<Rightarrow> bool) \<Rightarrow> path \<Rightarrow> entries \<Rightarrow> (path \<times> bool) list" where
  "rebuild_scan di sd p (Dir m E) =
     (if is_ota_working_dir p then rebuild_scan_subs di sd p E
      else let r = check_if_need_to_process_dir di p
           in if \<not> dir_should_be_process r then []
              else map (\<lambda>e. (p @ [fst e], dir_should_be_fully_scan r))
                     (filter (is_non_empty_regular_file \<circ> snd) (take MAX_FILENUM_PER_FOLDER (walk_files sd p E)))
                   @ rebuild_scan_subs di sd p E)"
| "rebuild_scan di sd p n = []"
| "rebuild_scan_subs di sd p [] = []"
| "rebuild_scan_subs di sd p ((n, s) # E) = rebuild_scan di sd (p @ [n]) s @ rebuild_scan_subs di sd p E"

section \<open>The clean-up with a base file table\<close>

fun table_cleanup :: "(path \<Rightarrow> bool) \<Rightarrow> path \<Rightarrow> node \<Rightarrow> node option"
and table_cleanup_subs :: "(path \<Rightarrow> bool) \<Rightarrow> path \<Rightarrow> bool \<Rightarrow> entries \<Rightarrow> entries" where
  "table_cleanup di p (Dir m E) =
     (if is_ota_working_dir p then Some (Dir m (table_cleanup_subs di p True E))
      else if p = [] then Some (Dir m (table_cleanup_subs di p False E))
      else if length (parents p) > MAX_FOLDER_DEEPTH then None
      else if di p then Some (Dir m (table_cleanup_subs di p False E))
      else None)"
| "table_cleanup di p n = Some n"
| "table_cleanup_subs di p keep [] = []"
| "table_cleanup_subs di p keep ((n, s) # E) =
     (if \<not> is_directory (Some s) \<and> \<not> keep then table_cleanup_subs di p keep E
      else case table_cleanup di (p @ [n]) s of
          None \<Rightarrow> table_cleanup_subs di p keep E
        | Some s' \<Rightarrow> (n, s') # table_cleanup_subs di p keep E)"

section \<open>What is left of the standby slot\<close>

lemma join_with_prefix: "\<exists>r. join_with c (p @ q) = join_with c p @ r"
proof (induction c p rule: join_with.induct)
  case (2 c x)
  then show ?case by (cases q) simp_all
next
  case (3 c x y ys)
  then show ?case by simp
qed simp

lemma working_dir_under: "is_ota_working_dir p \<Longrightarrow> is_ota_working_dir (p @ q)"
proof -
  assume "is_ota_working_dir p"
  then obtain w where w: "w \<in> set OTA_WORKING_DIRS" "startswith (str_path p) w"
    by (auto simp: is_ota_working_dir_def list_ex_iff)
  obtain r where "str_path (p @ q) = str_path p @ r" using join_with_prefix by (metis append.assoc str_path_def)
  moreover have "length w \<le> length (str_path p)" using w(2) unfolding startswith_def by (metis length_take min.cobounded1)
  ultimately have "startswith (str_path (p @ q)) w" using w(2) by (simp add: startswith_def)
  then show ?thesis using w(1) by (auto simp: is_ota_working_dir_def list_ex_iff)
qed

lemma not_removed: "\<not> dir_should_be_removed (check_if_need_to_process_dir di p) \<Longrightarrow> p = [] \<or> di p"
  by (auto simp: check_if_need_to_process_dir_def split: if_splits option.splits)

lemma not_processed: "\<not> dir_should_be_process r \<Longrightarrow> dir_should_be_removed r"
  by (simp add: dir_should_be_process_def)

text \<open>A path is accounted for: unlinked, handed to a worker, under a folder to remove, or a folder that stays.\<close>

definition accounted :: "(path \<Rightarrow> bool) \<Rightarrow> scan_out \<Rightarrow> path \<Rightarrow> node \<Rightarrow> bool" where
  "accounted di out p n \<longleftrightarrow> p \<in> set (so_unlinked out) \<or> p \<in> fst ` set (so_tasks out) \<or> (\<exists>r\<in>set (so_removed out). is_under r p)
     \<or> is_ota_working_dir p \<or> is_directory (Some n) \<and> (p = [] \<or> di p)"

lemma accounted_append: "accounted di a p n \<or> accounted di b p n \<Longrightarrow> accounted di (out_append a b) p n"
  by (auto simp: accounted_def out_append_def)

lemma scan_files_accounted:
  assumes "(k, s) \<in> set E" "\<not> is_directory (Some s)"
  shows "accounted di (scan_files sd p E full) (p @ [k]) s"
proof -
  let ?fs = "walk_files sd p E" and ?out = "scan_files sd p E full"
  have un: "e \<in> set (filter (dir_link sd p) E) \<union> set (drop MAX_FILENUM_PER_FOLDER ?fs)
      \<union> set (filter (\<lambda>e. \<not> is_non_empty_regular_file (snd e)) (take MAX_FILENUM_PER_FOLDER ?fs)) \<Longrightarrow> p @ [fst e] \<in> set (so_unlinked ?out)" for e
    unfolding scan_files_def Let_def by auto
  have ta: "e \<in> set (filter (is_non_empty_regular_file \<circ> snd) (take MAX_FILENUM_PER_FOLDER ?fs)) \<Longrightarrow> p @ [fst e] \<in> fst ` set (so_tasks ?out)" for e
    unfolding scan_files_def Let_def by (auto simp: image_image)
  have "p @ [k] \<in> set (so_unlinked ?out) \<or> p @ [k] \<in> fst ` set (so_tasks ?out)"
  proof (cases "dir_link sd p (k, s)")
    case True
    then show ?thesis using assms(1) un [of "(k, s)"] by simp
  next
    case False
    then have "(k, s) \<in> set ?fs" using assms by (simp add: walk_files_def)
    then have "(k, s) \<in> set (take MAX_FILENUM_PER_FOLDER ?fs) \<or> (k, s) \<in> set (drop MAX_FILENUM_PER_FOLDER ?fs)"
      by (metis Un_iff append_take_drop_id set_append)
    then show ?thesis using un [of "(k, s)"] ta [of "(k, s)"] by (cases "is_non_empty_regular_file s") auto
  qed
  then show ?thesis unfolding accounted_def by blast
qed

lemma inplace_scan_accounted:
  "node_at s q = Some n \<Longrightarrow> is_directory (Some s) \<Longrightarrow> accounted di (inplace_scan di sd p s) (p @ q) n"
  "map_of E k = Some s' \<Longrightarrow> node_at s' q = Some n \<Longrightarrow> is_directory (Some s') \<Longrightarrow>
     accounted di (inplace_scan_subs di sd p E) (p @ k # q) n"
proof (induction di sd p s and di sd p E arbitrary: q n and k q n s' rule: inplace_scan_inplace_scan_subs.induct)
  case (1 di sd p m E)
  show ?case
  proof (cases "is_ota_working_dir p")
    case True
    then have "is_ota_working_dir (p @ q)" by (rule working_dir_under)
    then show ?thesis by (simp add: accounted_def)
  next
    case wd: False
    let ?r = "check_if_need_to_process_dir di p"
    show ?thesis
    proof (cases "dir_should_be_removed ?r")
      case True
      then have "p \<in> set (so_removed (inplace_scan di sd p (Dir m E)))"
        using wd by (simp add: Let_def no_out_def out_append_def)
      then show ?thesis unfolding accounted_def using is_under_append [of p q] by blast
    next
      case kept: False
      then have pr: "dir_should_be_process ?r" using not_processed by blast
      note scan = inplace_scan.simps(1) [of di sd p m E] Let_def
      show ?thesis
      proof (cases q)
        case Nil
        then show ?thesis using 1(3) not_removed [OF kept] by (auto simp: accounted_def)
      next
        case (Cons k q')
        then obtain s where s: "map_of E k = Some s" "node_at s q' = Some n" using 1(3) by (auto split: option.splits)
        show ?thesis
        proof (cases "is_directory (Some s)")
          case True
          then have "accounted di (inplace_scan_subs di sd p E) (p @ k # q') n"
            using 1(2) wd pr s by simp
          then show ?thesis using wd pr Cons by (simp add: scan accounted_append)
        next
          case False
          then have "q' = []" "n = s" using s(2) by (cases s; cases q'; simp)+
          with scan_files_accounted [OF map_of_SomeD [OF s(1)] False] show ?thesis
            using wd pr Cons by (simp add: scan accounted_append)
        qed
      qed
    qed
  qed
next
  case (4 di sd p x s E)
  then show ?case by (cases "k = x") (auto intro: accounted_append)
qed auto


definition ex_slot :: node where
  "ex_slot = Dir 0 [(''etc'', Dir 1 [(''hosts'', File 2 ''x''), (''rc'', Link ''hosts'')]), (''opt'', Dir 3 [(''old'', File 4 ''y'')]),
     (''tmp'', Dir 5 [(''t'', File 6 ''z'')])]"


text \<open>The clean-up with a base file table leaves the same.\<close>

lemma table_cleanup_dirs:
  "table_cleanup di p s = Some s' \<Longrightarrow> is_directory (Some s) \<Longrightarrow> node_at s' q = Some n \<Longrightarrow>
     is_ota_working_dir (p @ q) \<or> is_directory (Some n) \<and> (p @ q = [] \<or> di (p @ q))"
  "map_of (table_cleanup_subs di p keep E) k = Some s' \<Longrightarrow> node_at s' q = Some n \<Longrightarrow> keep \<longrightarrow> is_ota_working_dir p \<Longrightarrow>
     is_ota_working_dir (p @ k # q) \<or> is_directory (Some n) \<and> di (p @ k # q)"
proof (induction di p s and di p keep E arbitrary: s' q n and k s' q n rule: table_cleanup_table_cleanup_subs.induct)
  case (1 di p m E)
  show ?case
  proof (cases "is_ota_working_dir p")
    case True
    then show ?thesis using working_dir_under by blast
  next
    case False
    then have s': "s' = Dir m (table_cleanup_subs di p False E)" and p: "p = [] \<or> di p"
      using "1.prems"(1) by (auto split: if_splits)
    show ?thesis
    proof (cases q)
      case Nil then show ?thesis using s' p "1.prems"(3) by auto
    next
      case (Cons k q')
      then have "\<exists>x. map_of (table_cleanup_subs di p False E) k = Some x \<and> node_at x q' = Some n"
        using "1.prems"(3) unfolding s' by (auto split: option.splits)
      with "1.IH" "1.prems"(1) False Cons show ?thesis by (auto split: if_splits)
    qed
  qed
next
  case (4 di p keep x s E)
  show ?case
  proof (cases "\<not> is_directory (Some s) \<and> \<not> keep")
    case True then show ?thesis using 4 by simp
  next
    case False
    show ?thesis
    proof (cases "table_cleanup di (p @ [x]) s")
      case None then show ?thesis using 4 False by simp
    next
      case (Some t)
      show ?thesis
      proof (cases "k = x")
        case True
        then have t: "s' = t" using "4.prems"(1) False Some by simp
        show ?thesis
        proof (cases "is_directory (Some s)")
          case True then show ?thesis using "4.IH"(2) [OF False Some True] "4.prems"(2) \<open>k = x\<close> t by simp
        next
          case nd: False
          then have "is_ota_working_dir p" using "4.prems"(3) False by simp
          then show ?thesis using working_dir_under by blast
        qed
      next
        case kx: False then show ?thesis using 4 False Some by simp
      qed
    qed
  qed
qed auto

section \<open>What the workers are given\<close>

text \<open>Every task is a regular file with content, and no two tasks are for the same file.\<close>

lemma scan_files_tasks:
  assumes "distinct (map fst E)"
  shows "distinct (map fst (so_tasks (scan_files sd p E full)))"
    and "x \<in> fst ` set (so_tasks (scan_files sd p E full)) \<Longrightarrow> \<exists>k m c. x = p @ [k] \<and> map_of E k = Some (File m c) \<and> c \<noteq> []"
proof -
  let ?l = "filter (is_non_empty_regular_file \<circ> snd) (take MAX_FILENUM_PER_FOLDER (walk_files sd p E))"
  have t: "map fst (so_tasks (scan_files sd p E full)) = map (\<lambda>k. p @ [k]) (map fst ?l)"
    by (simp add: scan_files_def Let_def)
  have "distinct (map fst (walk_files sd p E))" unfolding walk_files_def by (rule distinct_map_filter [OF assms])
  then have "distinct (map fst (take MAX_FILENUM_PER_FOLDER (walk_files sd p E)))" by (simp add: take_map [symmetric])
  then have "distinct (map fst ?l)" by (rule distinct_map_filter)
  then show "distinct (map fst (so_tasks (scan_files sd p E full)))" unfolding t
    by (subst distinct_map) (simp add: inj_on_def del: map_map)
  assume "x \<in> fst ` set (so_tasks (scan_files sd p E full))"
  then have "x \<in> set (map (\<lambda>k. p @ [k]) (map fst ?l))" using t by (metis set_map)
  then obtain k s where ks: "(k, s) \<in> set ?l" "x = p @ [k]" by auto
  then have "(k, s) \<in> set E" "is_non_empty_regular_file s" by (auto simp: walk_files_def dest!: in_set_takeD)
  then have "map_of E k = Some s" using assms by simp
  with \<open>is_non_empty_regular_file s\<close> ks(2) show "\<exists>k m c. x = p @ [k] \<and> map_of E k = Some (File m c) \<and> c \<noteq> []"
    by (auto simp: is_non_empty_regular_file_def split: node.splits)
qed

lemma inplace_scan_tasks:
  "x \<in> fst ` set (so_tasks (inplace_scan di sd p s)) \<Longrightarrow> wf_node s \<Longrightarrow>
     \<exists>q m c. x = p @ q \<and> node_at s q = Some (File m c) \<and> c \<noteq> []"
  "x \<in> fst ` set (so_tasks (inplace_scan_subs di sd p E)) \<Longrightarrow> distinct (map fst E) \<Longrightarrow> \<forall>e\<in>set E. wf_node (snd e) \<Longrightarrow>
     \<exists>k s q m c. x = p @ k # q \<and> map_of E k = Some s \<and> is_directory (Some s) \<and> node_at s q = Some (File m c) \<and> c \<noteq> []"
proof (induction di sd p s and di sd p E rule: inplace_scan_inplace_scan_subs.induct)
  case (1 di sd p m E)
  have wf: "distinct (map fst E)" "\<forall>e\<in>set E. wf_node (snd e)" using "1.prems"(2) by auto
  have sub: "\<exists>q m' c. x = p @ q \<and> node_at (Dir m E) q = Some (File m' c) \<and> c \<noteq> []"
    if "x \<in> fst ` set (so_tasks (inplace_scan_subs di sd p E))
          \<longrightarrow> (\<exists>k s q m c. x = p @ k # q \<and> map_of E k = Some s \<and> is_directory (Some s) \<and> node_at s q = Some (File m c) \<and> c \<noteq> [])"
       "x \<in> fst ` set (so_tasks (inplace_scan_subs di sd p E))"
    using that by (metis (no_types, lifting) node_at.simps(2) option.simps(5))
  show ?case
  proof (cases "is_ota_working_dir p")
    case True
    then show ?thesis using sub "1.IH"(1) [OF True] wf "1.prems"(1) by simp
  next
    case False
    let ?r = "check_if_need_to_process_dir di p"
    have pr: "dir_should_be_process ?r" using "1.prems"(1) False by (auto simp: Let_def no_out_def split: if_splits)
    have "x \<in> fst ` set (so_tasks (scan_files sd p E (dir_should_be_fully_scan ?r))) \<or> x \<in> fst ` set (so_tasks (inplace_scan_subs di sd p E))"
      using "1.prems"(1) False pr by (auto simp: Let_def no_out_def out_append_def image_Un)
    then show ?thesis
    proof
      assume "x \<in> fst ` set (so_tasks (scan_files sd p E (dir_should_be_fully_scan ?r)))"
      from scan_files_tasks(2) [OF wf(1) this] show ?thesis by (metis node_at.simps(1,2) option.simps(5))
    next
      assume "x \<in> fst ` set (so_tasks (inplace_scan_subs di sd p E))"
      then show ?thesis using sub "1.IH"(2) False pr wf by (simp add: Let_def)
    qed
  qed
next
  case (4 di sd p n s E)
  have "x \<in> fst ` set (so_tasks (inplace_scan di sd (p @ [n]) s)) \<or> x \<in> fst ` set (so_tasks (inplace_scan_subs di sd p E))"
    using "4.prems"(1) by (auto simp: out_append_def image_Un)
  then show ?case
  proof
    assume x: "x \<in> fst ` set (so_tasks (inplace_scan di sd (p @ [n]) s))"
    then have d: "is_directory (Some s)" by (cases s) (auto simp: no_out_def)
    obtain q m c where "x = (p @ [n]) @ q" "node_at s q = Some (File m c)" "c \<noteq> []"
      using "4.IH"(1) [OF x] "4.prems"(3) by auto
    then show ?thesis using d by (intro exI [of _ n] exI [of _ s] exI [of _ q]) auto
  next
    assume x: "x \<in> fst ` set (so_tasks (inplace_scan_subs di sd p E))"
    then obtain k s' q m c where k: "x = p @ k # q" "map_of E k = Some s'" "is_directory (Some s')" "node_at s' q = Some (File m c)" "c \<noteq> []"
      using "4.IH"(2) "4.prems" by auto
    then have "k \<noteq> n" using "4.prems"(2) by (metis distinct.simps(2) fst_conv image_eqI list.map(2) list.set_map map_of_SomeD)
    then show ?thesis using k by (intro exI [of _ k] exI [of _ s'] exI [of _ q]) auto
  qed
qed (auto simp: no_out_def)

lemma inplace_scan_distinct:
  "wf_node s \<Longrightarrow> distinct (map fst (so_tasks (inplace_scan di sd p s)))"
  "distinct (map fst E) \<Longrightarrow> \<forall>e\<in>set E. wf_node (snd e) \<Longrightarrow> distinct (map fst (so_tasks (inplace_scan_subs di sd p E)))"
proof (induction di sd p s and di sd p E rule: inplace_scan_inplace_scan_subs.induct)
  case (1 di sd p m E)
  have wf: "distinct (map fst E)" "\<forall>e\<in>set E. wf_node (snd e)" using "1.prems" by auto
  show ?case
  proof (cases "is_ota_working_dir p")
    case True
    then show ?thesis using "1.IH"(1) wf by simp
  next
    case False
    let ?r = "check_if_need_to_process_dir di p" let ?f = "scan_files sd p E (dir_should_be_fully_scan ?r)"
    show ?thesis
    proof (cases "dir_should_be_process ?r")
      case True
      then have eq: "map fst (so_tasks (inplace_scan di sd p (Dir m E))) = map fst (so_tasks ?f) @ map fst (so_tasks (inplace_scan_subs di sd p E))"
        using False by (simp add: Let_def out_append_def no_out_def)
      have "distinct (map fst (so_tasks (inplace_scan_subs di sd p E)))" using "1.IH"(2) False True wf by (simp add: Let_def)
      moreover have "x \<notin> fst ` set (so_tasks (inplace_scan_subs di sd p E))" if "x \<in> fst ` set (so_tasks ?f)" for x
        using scan_files_tasks(2) [OF wf(1) that] inplace_scan_tasks(2) [OF _ wf, of x di sd p] by fastforce
      ultimately show ?thesis unfolding eq using scan_files_tasks(1) [OF wf(1)] by (auto simp: disjoint_iff)
    next
      case np: False
      then show ?thesis using False by (simp add: Let_def no_out_def)
    qed
  qed
next
  case (4 di sd p n s E)
  have eq: "map fst (so_tasks (inplace_scan_subs di sd p ((n, s) # E)))
      = map fst (so_tasks (inplace_scan di sd (p @ [n]) s)) @ map fst (so_tasks (inplace_scan_subs di sd p E))"
    by (simp add: out_append_def)
  have wf: "wf_node s" "distinct (map fst E)" "\<forall>e\<in>set E. wf_node (snd e)" "n \<notin> fst ` set E" using "4.prems" by auto
  have "x \<notin> fst ` set (so_tasks (inplace_scan_subs di sd p E))" if x: "x \<in> fst ` set (so_tasks (inplace_scan di sd (p @ [n]) s))" for x
  proof
    assume "x \<in> fst ` set (so_tasks (inplace_scan_subs di sd p E))"
    from inplace_scan_tasks(2) [OF this wf(2,3)] obtain k q s' where "x = p @ k # q" "map_of E k = Some s'" by blast
    moreover obtain q' where "x = p @ n # q'" using inplace_scan_tasks(1) [OF x wf(1)] by auto
    ultimately show False using wf(4) by (auto dest!: map_of_SomeD simp: image_iff)
  qed
  then show ?case unfolding eq using "4.IH" wf by (auto simp: disjoint_iff)
qed (auto simp: no_out_def)

section \<open>The lists of folders\<close>

text \<open>
  The lists are applied to the proper parents of a folder only. A folder that is itself listed is not covered by its own
  entry: the files right under \<^verbatim>\<open>/usr\<close> or \<^verbatim>\<open>/lib\<close> are not scanned unless the image has a file of that name, although the comment
  promises that entries under these folders are scanned anyway, and the files right under \<^verbatim>\<open>/tmp\<close> or \<^verbatim>\<open>/mnt\<close> are looked
  at, although entries there are to be ignored.
\<close>

lemma listed_folders_not_covered:
  assumes "p \<in> set FULL_SCAN_PATHS \<union> set EXCLUDE_PATHS" and "di p"
  shows "check_if_need_to_process_dir di p = \<lparr> dir_should_be_removed = False, dir_should_be_fully_scan = False \<rparr>"
proof -
  have "list_all (\<lambda>p. p \<noteq> [] \<and> \<not> length (parents p) > MAX_FOLDER_DEEPTH \<and> full_scan_of (rev (parents p)) = Some False)
      (FULL_SCAN_PATHS @ EXCLUDE_PATHS)" by code_simp
  then have "p \<noteq> [] \<and> \<not> length (parents p) > MAX_FOLDER_DEEPTH \<and> full_scan_of (rev (parents p)) = Some False"
    using assms(1) unfolding list_all_iff set_append by blast
  then show ?thesis using assms(2) by (simp add: check_if_need_to_process_dir_def)
qed

lemma below_listed_folders:
  "check_if_need_to_process_dir di [''usr'', ''tmp''] = \<lparr> dir_should_be_removed = \<not> di [''usr'', ''tmp''], dir_should_be_fully_scan = True \<rparr>"
  "check_if_need_to_process_dir di [''mnt'', ''usr''] = \<lparr> dir_should_be_removed = True, dir_should_be_fully_scan = False \<rparr>"
  by (simp_all add: check_if_need_to_process_dir_def FULL_SCAN_PATHS_def EXCLUDE_PATHS_def parents_def MAX_FOLDER_DEEPTH_def upt_rec)

end
