(* ===== verification/Delta_Workers.thy ===== *)
theory Delta_Workers
  imports Prelude Delta_Scan
begin

text \<open>
  Collecting resources while the delta is generated (\<^verbatim>\<open>otaclient/create_standby/delta_gen.py\<close>): the thread that finds the
  files, the queue with its semaphore, and the worker threads of the four classes, as a step relation. Each access to the shared
  dictionary of the resources that are still needed and each file operation is a step of its own, so the workers
  interleave in every order.

  Files are their contents: \<open>d_src\<close> those of the slot that is scanned, by path, \<open>d_dst\<close> those of the resource folder on the
  standby slot, by digest, \<open>d_tmp\<close> the temporary copy of a worker. The hash function is the parameter \<open>sha\<close>. Reading a file and
  moving it into the resource folder may fail.
\<close>

section \<open>State\<close>

datatype delta_mode = InPlaceScan | RebuildScan | InPlaceTable | RebuildTable

definition in_place :: "delta_mode \<Rightarrow> bool" where
  "in_place md \<longleftrightarrow> md = InPlaceScan \<or> md = InPlaceTable"

text \<open>
  An entry of the queue: the files that may have the resource, the digest that is expected (with a base file table), and whether
  the file is skipped (a scan that is not full, and the image has no such file).
\<close>

record task =
  t_expected :: "string option"
  t_paths :: "path list"
  t_skip :: bool

datatype wstate =
    W_Idle
  | W_Try task "path list"         \<comment> \<open>the candidates that are left\<close>
  | W_Verified task path string    \<comment> \<open>the file is read and has this digest\<close>
  | W_Popped task path string      \<comment> \<open>the resource is taken out of the dictionary\<close>
  | W_Finish task                  \<comment> \<open>the \<^verbatim>\<open>finally\<close> block\<close>
  | W_Exit

record delta =
  d_src :: "path \<rightharpoonup> string"
  d_dst :: "string \<rightharpoonup> string"
  d_tmp :: "nat \<Rightarrow> string option"
  d_check :: "string set"
  d_pending :: "task list"
  d_que :: "task list"
  d_stop :: bool
  d_slots :: nat
  d_work :: "nat \<Rightarrow> wstate"
  d_lost :: "string set"
  d_reported :: "string list"

text \<open>
  \<open>d_pending\<close> are the entries \<^verbatim>\<open>_calculate_delta\<close> will still find, \<open>d_stop\<close> that the closing \<^verbatim>\<open>None\<close> is in the queue, \<open>d_slots\<close> the
  semaphore, \<open>d_lost\<close> the resources taken out of the dictionary whose move has failed, \<open>d_reported\<close> those reported as processed.
\<close>

definition set_work :: "nat \<Rightarrow> wstate \<Rightarrow> delta \<Rightarrow> delta" where
  "set_work w x s = s\<lparr>d_work := (d_work s)(w := x)\<rparr>"

definition delta_init :: "nat \<Rightarrow> (path \<rightharpoonup> string) \<Rightarrow> (string \<rightharpoonup> string) \<Rightarrow> string set \<Rightarrow> task list \<Rightarrow> delta" where
  "delta_init slots src dst check tasks = \<lparr> d_src = src, d_dst = dst, d_tmp = (\<lambda>_. None), d_check = check, d_pending = tasks,
     d_que = [], d_stop = False, d_slots = slots, d_work = (\<lambda>_. W_Idle), d_lost = {}, d_reported = [] \<rparr>"

section \<open>Steps\<close>

definition produce :: "delta \<Rightarrow> delta option" where
  "produce s = (case d_pending s of
     [] \<Rightarrow> if d_stop s then None else Some (s\<lparr>d_stop := True\<rparr>)
   | t # ts \<Rightarrow> if d_slots s = 0 then None
       else Some (s\<lparr>d_pending := ts, d_que := d_que s @ [t], d_slots := d_slots s - 1\<rparr>))"

text \<open>A worker that gets the closing \<^verbatim>\<open>None\<close> puts it back for the others.\<close>

definition get_task :: "nat \<Rightarrow> delta \<Rightarrow> delta option" where
  "get_task w s = (case d_que s of
     [] \<Rightarrow> if d_stop s then Some (set_work w W_Exit s) else None
   | t # ts \<Rightarrow> Some (set_work w (if t_skip t then W_Finish t else W_Try t (t_paths t)) (s\<lparr>d_que := ts\<rparr>)))"

text \<open>
  The next candidate. With a base file table, a file that does not have the expected digest, or is no regular file with
  content in the in-place mode, is passed over; the rebuild modes copy while they read.
\<close>

definition try_candidate :: "delta_mode \<Rightarrow> (string \<Rightarrow> string) \<Rightarrow> nat \<Rightarrow> task \<Rightarrow> path list \<Rightarrow> delta \<Rightarrow> delta" where
  "try_candidate md sha w t ps s = (case ps of
     [] \<Rightarrow> set_work w (W_Finish t) s
   | p # ps' \<Rightarrow> (case d_src s p of
         None \<Rightarrow> set_work w (W_Try t ps') (s\<lparr>d_tmp := (d_tmp s)(w := None)\<rparr>)
       | Some c \<Rightarrow>
           let s1 = (if in_place md then s else s\<lparr>d_tmp := (d_tmp s)(w := Some c)\<rparr>)
           in if md = InPlaceTable \<and> c = [] then set_work w (W_Try t ps') s1
              else if t_expected t \<noteq> None \<and> t_expected t \<noteq> Some (sha c) then set_work w (W_Try t ps') s1
              else set_work w (W_Verified t p (sha c)) s1))"

text \<open>Opening or reading the candidate raises.\<close>

definition try_fails :: "nat \<Rightarrow> task \<Rightarrow> path list \<Rightarrow> delta \<Rightarrow> delta" where
  "try_fails w t ps s = set_work w (W_Try t (tl ps)) (s\<lparr>d_tmp := (d_tmp s)(w := None)\<rparr>)"

text \<open>\<^verbatim>\<open>_resources_to_check.pop\<close>; the \<^verbatim>\<open>KeyError\<close> is suppressed.\<close>

definition pop_resource :: "nat \<Rightarrow> task \<Rightarrow> path \<Rightarrow> string \<Rightarrow> delta \<Rightarrow> delta" where
  "pop_resource w t p d s =
     (if d \<in> d_check s then set_work w (W_Popped t p d) (s\<lparr>d_check := d_check s - {d}\<rparr>)
      else set_work w (W_Finish t) s)"

definition saved :: "nat \<Rightarrow> task \<Rightarrow> string \<Rightarrow> string \<Rightarrow> delta \<Rightarrow> delta" where
  "saved w t d c s = set_work w (W_Finish t) (s\<lparr>d_dst := (d_dst s)(d \<mapsto> c), d_reported := d_reported s @ [d]\<rparr>)"

definition replace_failed :: "nat \<Rightarrow> task \<Rightarrow> string \<Rightarrow> delta \<Rightarrow> delta" where
  "replace_failed w t d s = set_work w (W_Finish t) (s\<lparr>d_lost := insert d (d_lost s)\<rparr>)"

definition save_resource :: "delta_mode \<Rightarrow> nat \<Rightarrow> task \<Rightarrow> path \<Rightarrow> string \<Rightarrow> delta \<Rightarrow> delta" where
  "save_resource md w t p d s =
     (if in_place md
      then (case d_src s p of None \<Rightarrow> replace_failed w t d s | Some c \<Rightarrow> saved w t d c (s\<lparr>d_src := (d_src s)(p := None)\<rparr>))
      else if md = RebuildScan \<and> d_dst s d \<noteq> None then set_work w (W_Finish t) s
      else (case d_tmp s w of None \<Rightarrow> replace_failed w t d s
            | Some c \<Rightarrow> saved w t d c (s\<lparr>d_tmp := (d_tmp s)(w := None)\<rparr>)))"

text \<open>The \<^verbatim>\<open>finally\<close> block: the semaphore is released, and the files of the task or the temporary copy are removed.\<close>

definition finish_task :: "delta_mode \<Rightarrow> nat \<Rightarrow> task \<Rightarrow> delta \<Rightarrow> delta" where
  "finish_task md w t s = set_work w W_Idle (s\<lparr>d_slots := Suc (d_slots s),
     d_src := (if in_place md then (\<lambda>p. if p \<in> set (t_paths t) then None else d_src s p) else d_src s),
     d_tmp := (d_tmp s)(w := None)\<rparr>)"

inductive delta_step :: "delta_mode \<Rightarrow> (string \<Rightarrow> string) \<Rightarrow> nat \<Rightarrow> delta \<Rightarrow> delta \<Rightarrow> bool" for md sha n where
  ds_produce: "produce s = Some s' \<Longrightarrow> delta_step md sha n s s'"
| ds_get: "w < n \<Longrightarrow> d_work s w = W_Idle \<Longrightarrow> get_task w s = Some s' \<Longrightarrow> delta_step md sha n s s'"
| ds_try: "w < n \<Longrightarrow> d_work s w = W_Try t ps \<Longrightarrow> delta_step md sha n s (try_candidate md sha w t ps s)"
| ds_try_fails: "w < n \<Longrightarrow> d_work s w = W_Try t ps \<Longrightarrow> ps \<noteq> [] \<Longrightarrow> delta_step md sha n s (try_fails w t ps s)"
| ds_pop: "w < n \<Longrightarrow> d_work s w = W_Verified t p d \<Longrightarrow> delta_step md sha n s (pop_resource w t p d s)"
| ds_save: "w < n \<Longrightarrow> d_work s w = W_Popped t p d \<Longrightarrow> delta_step md sha n s (save_resource md w t p d s)"
| ds_save_fails: "w < n \<Longrightarrow> d_work s w = W_Popped t p d \<Longrightarrow> delta_step md sha n s (replace_failed w t d s)"
| ds_finish: "w < n \<Longrightarrow> d_work s w = W_Finish t \<Longrightarrow> delta_step md sha n s (finish_task md w t s)"

text \<open>The worker threads of the four classes, with the thread that feeds them.\<close>

definition InPlaceDeltaGenFullDiskScan :: "(string \<Rightarrow> string) \<Rightarrow> nat \<Rightarrow> delta \<Rightarrow> delta \<Rightarrow> bool" where
  "InPlaceDeltaGenFullDiskScan = delta_step InPlaceScan"

definition RebuildDeltaGenFullDiskScan :: "(string \<Rightarrow> string) \<Rightarrow> nat \<Rightarrow> delta \<Rightarrow> delta \<Rightarrow> bool" where
  "RebuildDeltaGenFullDiskScan = delta_step RebuildScan"

definition InPlaceDeltaWithBaseFileTable :: "(string \<Rightarrow> string) \<Rightarrow> nat \<Rightarrow> delta \<Rightarrow> delta \<Rightarrow> bool" where
  "InPlaceDeltaWithBaseFileTable = delta_step InPlaceTable"

definition RebuildDeltaWithBaseFileTable :: "(string \<Rightarrow> string) \<Rightarrow> nat \<Rightarrow> delta \<Rightarrow> delta \<Rightarrow> bool" where
  "RebuildDeltaWithBaseFileTable = delta_step RebuildTable"

text \<open>All workers have left, so \<^verbatim>\<open>process_slot\<close> goes on.\<close>

definition delta_done :: "nat \<Rightarrow> delta \<Rightarrow> bool" where
  "delta_done n s \<longleftrightarrow> d_pending s = [] \<and> (\<forall>w<n. d_work s w = W_Exit)"

section \<open>The invariant\<close>

fun task_of :: "wstate \<Rightarrow> task option" where
  "task_of (W_Try t _) = Some t"
| "task_of (W_Verified t _ _) = Some t"
| "task_of (W_Popped t _ _) = Some t"
| "task_of (W_Finish t) = Some t"
| "task_of _ = None"

definition held :: "wstate \<Rightarrow> path set" where
  "held x = (case task_of x of Some t \<Rightarrow> set (t_paths t) | None \<Rightarrow> {})"

definition apart :: "task \<Rightarrow> task \<Rightarrow> bool" where
  "apart t t' \<longleftrightarrow> set (t_paths t) \<inter> set (t_paths t') = {}"

text \<open>No two entries, waiting or with a worker, have a file in common.\<close>

definition owned :: "delta \<Rightarrow> bool" where
  "owned s \<longleftrightarrow> sorted_wrt apart (d_que s @ d_pending s)
     \<and> (\<forall>w. \<forall>t\<in>set (d_que s @ d_pending s). held (d_work s w) \<inter> set (t_paths t) = {})
     \<and> (\<forall>w w'. w \<noteq> w' \<longrightarrow> held (d_work s w) \<inter> held (d_work s w') = {})"

text \<open>What a worker has verified it still has.\<close>

fun worker_ok :: "delta_mode \<Rightarrow> (string \<Rightarrow> string) \<Rightarrow> delta \<Rightarrow> nat \<Rightarrow> wstate \<Rightarrow> bool" where
  "worker_ok md sha s w (W_Try t ps) = (set ps \<subseteq> set (t_paths t))"
| "worker_ok md sha s w (W_Verified t p d) =
     (p \<in> set (t_paths t) \<and> (\<exists>c. (if in_place md then d_src s p else d_tmp s w) = Some c \<and> sha c = d))"
| "worker_ok md sha s w (W_Popped t p d) =
     (p \<in> set (t_paths t) \<and> (\<exists>c. (if in_place md then d_src s p else d_tmp s w) = Some c \<and> sha c = d))"
| "worker_ok md sha s w _ = True"

definition dst_ok :: "(string \<Rightarrow> string) \<Rightarrow> delta \<Rightarrow> bool" where
  "dst_ok sha s \<longleftrightarrow> (\<forall>d c. d_dst s d = Some c \<longrightarrow> sha c = d)"

definition nothing_missed :: "string set \<Rightarrow> delta \<Rightarrow> bool" where
  "nothing_missed D s \<longleftrightarrow> (\<forall>d\<in>D. d \<in> d_check s \<or> d \<in> dom (d_dst s) \<or> d \<in> d_lost s \<or> (\<exists>w t p. d_work s w = W_Popped t p d))"

definition delta_inv :: "delta_mode \<Rightarrow> (string \<Rightarrow> string) \<Rightarrow> string set \<Rightarrow> nat \<Rightarrow> delta \<Rightarrow> bool" where
  "delta_inv md sha D n s \<longleftrightarrow> owned s \<and> (\<forall>w. worker_ok md sha s w (d_work s w)) \<and> dst_ok sha s \<and> nothing_missed D s
     \<and> (\<forall>w\<ge>n. d_work s w = W_Idle)"

lemmas step_defs = set_work_def saved_def replace_failed_def

lemma held_simps [simp]:
  "held W_Idle = {}" "held W_Exit = {}" "held (W_Try t ps) = set (t_paths t)" "held (W_Verified t p d) = set (t_paths t)"
  "held (W_Popped t p d) = set (t_paths t)" "held (W_Finish t) = set (t_paths t)"
  by (simp_all add: held_def)

lemma worker_ok_cong:
  assumes "worker_ok md sha s w x" "\<And>p. p \<in> held x \<Longrightarrow> d_src s' p = d_src s p" "d_tmp s' w = d_tmp s w"
  shows "worker_ok md sha s' w x"
  using assms by (cases x) (auto split: if_splits)

text \<open>A step of one worker that touches only what the worker holds.\<close>

lemma worker_step:
  assumes inv: "owned s" "\<And>v. worker_ok md sha s v (d_work s v)"
    and s': "d_work s' = (d_work s)(w := x)" "d_que s' = d_que s" "d_pending s' = d_pending s"
    and h: "held x \<subseteq> held (d_work s w)" and src: "\<And>p. p \<notin> held (d_work s w) \<Longrightarrow> d_src s' p = d_src s p"
    and tmp: "\<And>v. v \<noteq> w \<Longrightarrow> d_tmp s' v = d_tmp s v" and x: "worker_ok md sha s' w x"
  shows "owned s' \<and> (\<forall>v. worker_ok md sha s' v (d_work s' v))"
proof
  show "owned s'" using inv(1) h unfolding owned_def s' by (auto simp: disjoint_iff)
  show "\<forall>v. worker_ok md sha s' v (d_work s' v)"
  proof
    fix v
    show "worker_ok md sha s' v (d_work s' v)"
    proof (cases "v = w")
      case True then show ?thesis using x s'(1) by simp
    next
      case False
      then have "held (d_work s v) \<inter> held (d_work s w) = {}" using inv(1) by (auto simp: owned_def)
      then have "worker_ok md sha s' v (d_work s v)" using src tmp False
        by (intro worker_ok_cong [OF inv(2)]) (auto simp: disjoint_iff)
      then show ?thesis using False s'(1) by simp
    qed
  qed
qed

lemma nothing_missed_step:
  assumes "nothing_missed D s" "d_work s' = (d_work s)(w := x)"
    and "\<And>d. d \<in> d_check s \<Longrightarrow> d \<in> d_check s' \<or> (\<exists>t p. x = W_Popped t p d)"
    and "dom (d_dst s) \<subseteq> dom (d_dst s')" and "d_lost s \<subseteq> d_lost s'"
    and "\<And>t p d. d_work s w = W_Popped t p d \<Longrightarrow> d \<in> dom (d_dst s') \<or> d \<in> d_lost s' \<or> x = W_Popped t p d"
  shows "nothing_missed D s'"
  unfolding nothing_missed_def
proof
  fix d assume "d \<in> D"
  then consider "d \<in> d_check s" | "d \<in> dom (d_dst s)" | "d \<in> d_lost s" | v t p where "d_work s v = W_Popped t p d"
    using bspec [OF assms(1) [unfolded nothing_missed_def]] by blast
  then show "d \<in> d_check s' \<or> d \<in> dom (d_dst s') \<or> d \<in> d_lost s' \<or> (\<exists>w t p. d_work s' w = W_Popped t p d)"
  proof cases
    case 1 then show ?thesis using assms(2,3) by (metis fun_upd_same)
  next
    case 4 then show ?thesis using assms(2,6) by (cases "v = w") (metis fun_upd_same, metis fun_upd_other)
  qed (use assms(4,5) in auto)
qed

lemma delta_inv_init:
  assumes "sorted_wrt apart tasks" "\<And>d c. dst d = Some c \<Longrightarrow> sha c = d"
  shows "delta_inv md sha check n (delta_init slots src dst check tasks)"
  using assms by (auto simp: delta_inv_def delta_init_def owned_def held_def dst_ok_def nothing_missed_def)

lemma delta_inv_worker:
  assumes inv: "delta_inv md sha D n s" and w: "w < n"
    and s': "d_work s' = (d_work s)(w := x)" "d_que s' = d_que s" "d_pending s' = d_pending s"
    and h: "held x \<subseteq> held (d_work s w)" and src: "\<And>p. p \<notin> held (d_work s w) \<Longrightarrow> d_src s' p = d_src s p"
    and tmp: "\<And>v. v \<noteq> w \<Longrightarrow> d_tmp s' v = d_tmp s v" and x: "worker_ok md sha s' w x"
    and dst: "dst_ok sha s'" "nothing_missed D s'"
  shows "delta_inv md sha D n s'"
proof -
  have "owned s' \<and> (\<forall>v. worker_ok md sha s' v (d_work s' v))"
    using inv by (intro worker_step [OF _ _ s' h src tmp x]) (auto simp: delta_inv_def)
  with dst inv w s'(1) show ?thesis by (auto simp: delta_inv_def)
qed

lemma delta_inv_produce:
  assumes "delta_inv md sha D n s" "produce s = Some s'"
  shows "delta_inv md sha D n s'"
proof (cases "d_pending s")
  case Nil
  then have "s' = s\<lparr>d_stop := True\<rparr>" using assms(2) by (auto simp: produce_def split: if_splits)
  then show ?thesis using assms(1) worker_ok_cong [of md sha s _ _ s']
    by (auto simp: delta_inv_def owned_def dst_ok_def nothing_missed_def)
next
  case (Cons t ts)
  then have s': "s' = s\<lparr>d_pending := ts, d_que := d_que s @ [t], d_slots := d_slots s - 1\<rparr>"
    using assms(2) by (auto simp: produce_def split: if_splits)
  then have "d_que s' @ d_pending s' = d_que s @ d_pending s" using Cons by simp
  then show ?thesis using assms(1) s' worker_ok_cong [of md sha s _ _ s']
    by (auto simp: delta_inv_def owned_def dst_ok_def nothing_missed_def)
qed

lemma delta_inv_get:
  assumes inv: "delta_inv md sha D n s" and w: "w < n" and idle: "d_work s w = W_Idle" and g: "get_task w s = Some s'"
  shows "delta_inv md sha D n s'"
proof (cases "d_que s")
  case Nil
  then have s': "s' = set_work w W_Exit s" using g by (auto simp: get_task_def split: if_splits)
  have "dst_ok sha s'" using inv s' by (auto simp: delta_inv_def dst_ok_def step_defs)
  moreover have "nothing_missed D s'"
    using inv idle s' by (intro nothing_missed_step [of D s s' w W_Exit]) (auto simp: delta_inv_def step_defs)
  ultimately show ?thesis using s' by (intro delta_inv_worker [OF inv w]) (auto simp: step_defs)
next
  case (Cons t ts)
  let ?x = "if t_skip t then W_Finish t else W_Try t (t_paths t)"
  have s': "d_work s' = (d_work s)(w := ?x)" "d_que s' = ts" "d_pending s' = d_pending s" "d_src s' = d_src s" "d_tmp s' = d_tmp s"
      "d_dst s' = d_dst s" "d_check s' = d_check s" "d_lost s' = d_lost s"
    using g Cons by (auto simp: get_task_def step_defs)

  have o: "owned s" and ok: "\<And>v. worker_ok md sha s v (d_work s v)" using inv by (auto simp: delta_inv_def)
  have "owned s'" using o unfolding owned_def s' Cons
    by (auto simp: apart_def disjoint_iff)
  moreover have "\<forall>v. worker_ok md sha s' v (d_work s' v)"
  proof
    fix v show "worker_ok md sha s' v (d_work s' v)"
      using worker_ok_cong [OF ok, of v s'] s' by (cases "v = w") auto
  qed
  moreover have "nothing_missed D s'"
    using inv idle s' by (intro nothing_missed_step [of D s s' w ?x]) (auto simp: delta_inv_def)
  ultimately show ?thesis using inv w s' by (auto simp: delta_inv_def dst_ok_def)
qed

lemma try_candidate_spec:
  assumes "worker_ok md sha s w (W_Try t ps)"
  obtains x where "d_work (try_candidate md sha w t ps s) = (d_work s)(w := x)" "held x = set (t_paths t)"
    "worker_ok md sha (try_candidate md sha w t ps s) w x" "\<And>t p d. x \<noteq> W_Popped t p d"
proof (cases ps)
  case Nil
  then show ?thesis using that [of "W_Finish t"] by (simp add: try_candidate_def step_defs)
next
  case (Cons p ps')
  then have sub: "p \<in> set (t_paths t)" "set ps' \<subseteq> set (t_paths t)" using assms by auto
  show ?thesis
  proof (cases "d_src s p")
    case None
    then show ?thesis using that [of "W_Try t ps'"] sub Cons by (simp add: try_candidate_def step_defs)
  next
    case (Some c)
    let ?s1 = "if in_place md then s else s\<lparr>d_tmp := (d_tmp s)(w := Some c)\<rparr>"
    show ?thesis
    proof (cases "md = InPlaceTable \<and> c = [] \<or> t_expected t \<noteq> None \<and> t_expected t \<noteq> Some (sha c)")
      case True
      then have "try_candidate md sha w t ps s = set_work w (W_Try t ps') ?s1"
        using Some Cons by (auto simp: try_candidate_def Let_def)
      then show ?thesis using that [of "W_Try t ps'"] sub by (auto simp: set_work_def)
    next
      case False
      then have "try_candidate md sha w t ps s = set_work w (W_Verified t p (sha c)) ?s1"
        using Some Cons by (auto simp: try_candidate_def Let_def)
      then show ?thesis using that [of "W_Verified t p (sha c)"] sub Some by (auto simp: set_work_def)
    qed
  qed
qed

lemma try_candidate_frame:
  "d_que (try_candidate md sha w t ps s) = d_que s" "d_pending (try_candidate md sha w t ps s) = d_pending s"
  "d_src (try_candidate md sha w t ps s) = d_src s" "d_dst (try_candidate md sha w t ps s) = d_dst s"
  "d_check (try_candidate md sha w t ps s) = d_check s" "d_lost (try_candidate md sha w t ps s) = d_lost s"
  "d_slots (try_candidate md sha w t ps s) = d_slots s" "d_stop (try_candidate md sha w t ps s) = d_stop s"
  "v \<noteq> w \<Longrightarrow> d_tmp (try_candidate md sha w t ps s) v = d_tmp s v"
  by (simp_all add: try_candidate_def step_defs Let_def split: list.split option.split)

lemma delta_inv_parts:
  assumes "delta_inv md sha D n s"
  shows "worker_ok md sha s w (d_work s w)" "dst_ok sha s" "nothing_missed D s"
  using assms by (auto simp: delta_inv_def)

lemma delta_inv_try:
  assumes inv: "delta_inv md sha D n s" and w: "w < n" and wt: "d_work s w = W_Try t ps"
  shows "delta_inv md sha D n (try_candidate md sha w t ps s)"
proof -
  let ?s' = "try_candidate md sha w t ps s"
  have ok: "worker_ok md sha s w (W_Try t ps)" using delta_inv_parts(1) [OF inv, of w] wt by simp
  from try_candidate_spec [OF ok] obtain x where x: "d_work ?s' = (d_work s)(w := x)" "held x = set (t_paths t)"
    "worker_ok md sha ?s' w x" "\<And>t p d. x \<noteq> W_Popped t p d" by blast
  have "dst_ok sha ?s'" using delta_inv_parts(2) [OF inv] by (simp add: dst_ok_def try_candidate_frame)
  moreover have "nothing_missed D ?s'"
    using wt by (intro nothing_missed_step [OF delta_inv_parts(3) [OF inv] x(1)]) (auto simp: try_candidate_frame)
  ultimately show ?thesis
    using wt x(2) by (intro delta_inv_worker [OF inv w x(1)]) (auto simp: try_candidate_frame x(3))
qed

lemma delta_inv_try_fails:
  assumes inv: "delta_inv md sha D n s" and w: "w < n" and wt: "d_work s w = W_Try t ps"
  shows "delta_inv md sha D n (try_fails w t ps s)"
proof -
  let ?s' = "try_fails w t ps s"
  have x: "d_work ?s' = (d_work s)(w := W_Try t (tl ps))" by (simp add: try_fails_def step_defs)
  have "set ps \<subseteq> set (t_paths t)" using delta_inv_parts(1) [OF inv, of w] wt by simp
  then have "worker_ok md sha ?s' w (W_Try t (tl ps))" by (cases ps) auto
  moreover have "dst_ok sha ?s'" using delta_inv_parts(2) [OF inv] by (simp add: dst_ok_def try_fails_def step_defs)
  moreover have "nothing_missed D ?s'"
    using wt by (intro nothing_missed_step [OF delta_inv_parts(3) [OF inv] x]) (auto simp: try_fails_def step_defs)
  ultimately show ?thesis using wt by (intro delta_inv_worker [OF inv w x]) (auto simp: try_fails_def step_defs)
qed

lemma delta_inv_pop:
  assumes inv: "delta_inv md sha D n s" and w: "w < n" and wt: "d_work s w = W_Verified t p d"
  shows "delta_inv md sha D n (pop_resource w t p d s)"
proof -
  let ?s' = "pop_resource w t p d s" let ?x = "if d \<in> d_check s then W_Popped t p d else W_Finish t"
  have x: "d_work ?s' = (d_work s)(w := ?x)" by (simp add: pop_resource_def step_defs)
  have f: "d_que ?s' = d_que s" "d_pending ?s' = d_pending s" "d_src ?s' = d_src s" "d_tmp ?s' = d_tmp s" "d_dst ?s' = d_dst s"
    "d_lost ?s' = d_lost s" "d_check ?s' = d_check s - {d}"
    by (auto simp: pop_resource_def step_defs)
  have "worker_ok md sha ?s' w ?x" using delta_inv_parts(1) [OF inv, of w] wt f by (cases "in_place md") auto
  moreover have "dst_ok sha ?s'" using delta_inv_parts(2) [OF inv] by (simp add: dst_ok_def f)
  moreover have "nothing_missed D ?s'"
    using wt by (intro nothing_missed_step [OF delta_inv_parts(3) [OF inv] x]) (auto simp: f)
  ultimately show ?thesis using wt by (intro delta_inv_worker [OF inv w x]) (auto simp: f)
qed

lemma delta_inv_failed:
  assumes inv: "delta_inv md sha D n s" and w: "w < n" and wt: "d_work s w = W_Popped t p d"
  shows "delta_inv md sha D n (replace_failed w t d s)"
proof -
  let ?s' = "replace_failed w t d s"
  have x: "d_work ?s' = (d_work s)(w := W_Finish t)" by (simp add: step_defs)
  have "dst_ok sha ?s'" using delta_inv_parts(2) [OF inv] by (simp add: dst_ok_def step_defs)
  moreover have "nothing_missed D ?s'"
    using wt by (intro nothing_missed_step [OF delta_inv_parts(3) [OF inv] x]) (auto simp: step_defs)
  ultimately show ?thesis using wt by (intro delta_inv_worker [OF inv w x]) (auto simp: step_defs)
qed

lemma delta_inv_save:
  assumes inv: "delta_inv md sha D n s" and w: "w < n" and wt: "d_work s w = W_Popped t p d"
  shows "delta_inv md sha D n (save_resource md w t p d s)"
proof -
  let ?s' = "save_resource md w t p d s"
  obtain c where p: "p \<in> set (t_paths t)" and c: "(if in_place md then d_src s p else d_tmp s w) = Some c" "sha c = d"
    using delta_inv_parts(1) [OF inv, of w] wt by auto
  have x: "d_work ?s' = (d_work s)(w := W_Finish t)"
    using c(1) by (auto simp: save_resource_def step_defs split: if_splits)
  have f: "d_que ?s' = d_que s" "d_pending ?s' = d_pending s" "d_lost ?s' = d_lost s" "d_check ?s' = d_check s"
    "d_dst ?s' = d_dst s \<and> d_dst s d \<noteq> None \<or> d_dst ?s' = (d_dst s)(d \<mapsto> c)"
    "\<And>q. q \<noteq> p \<Longrightarrow> d_src ?s' q = d_src s q" "\<And>v. v \<noteq> w \<Longrightarrow> d_tmp ?s' v = d_tmp s v"
    using c(1) by (auto simp: save_resource_def step_defs split: if_splits)
  have "dst_ok sha ?s'" using delta_inv_parts(2) [OF inv] f(5) c(2) by (auto simp: dst_ok_def split: if_splits)
  moreover have "nothing_missed D ?s'"
    using wt f by (intro nothing_missed_step [OF delta_inv_parts(3) [OF inv] x]) auto
  moreover have "d_src ?s' q = d_src s q" if "q \<notin> held (d_work s w)" for q
    using that p wt by (intro f(6)) auto
  ultimately show ?thesis using wt f(1,2,7) by (intro delta_inv_worker [OF inv w x]) auto
qed

lemma delta_inv_finish:
  assumes inv: "delta_inv md sha D n s" and w: "w < n" and wt: "d_work s w = W_Finish t"
  shows "delta_inv md sha D n (finish_task md w t s)"
proof -
  let ?s' = "finish_task md w t s"
  have x: "d_work ?s' = (d_work s)(w := W_Idle)" by (simp add: finish_task_def step_defs)
  have "dst_ok sha ?s'" using delta_inv_parts(2) [OF inv] by (simp add: dst_ok_def finish_task_def step_defs)
  moreover have "nothing_missed D ?s'"
    using wt by (intro nothing_missed_step [OF delta_inv_parts(3) [OF inv] x]) (auto simp: finish_task_def step_defs)
  ultimately show ?thesis using wt by (intro delta_inv_worker [OF inv w x]) (auto simp: finish_task_def step_defs)
qed

lemma delta_inv_step: "delta_inv md sha D n s \<Longrightarrow> delta_step md sha n s s' \<Longrightarrow> delta_inv md sha D n s'"
  by (erule delta_step.cases)
    (auto intro: delta_inv_produce delta_inv_get delta_inv_try delta_inv_try_fails delta_inv_pop delta_inv_save delta_inv_failed delta_inv_finish)

definition delta_start :: "(string \<Rightarrow> string) \<Rightarrow> string set \<Rightarrow> delta \<Rightarrow> bool" where
  "delta_start sha check s \<longleftrightarrow> (\<exists>slots src dst tasks. s = delta_init slots src dst check tasks
     \<and> sorted_wrt apart tasks \<and> (\<forall>d c. dst d = Some c \<longrightarrow> sha c = d))"

interpretation delta: step_invariant "delta_start sha D" "delta_step md sha n" "delta_inv md sha D n" for md sha D n
  by unfold_locales (auto simp: delta_start_def intro: delta_inv_init delta_inv_step)

section \<open>No resource is missed\<close>

text \<open>
  C5: Whatever the interleaving of the workers, in each of the four modes: when the delta generation is over, every resource of the
  new image that was needed is either still in the list of what has to be downloaded, or lies in the resource folder under
  its digest with a content of that digest, or the move into the folder has failed after it was taken off the list. At every
  moment the resource folder holds only files with the content their names promise.
\<close>

theorem delta_resources_accounted:
  assumes "reachable (delta_start sha D) (delta_step md sha n) s"
  shows "(\<forall>d c. d_dst s d = Some c \<longrightarrow> sha c = d)
    \<and> (delta_done n s \<longrightarrow> (\<forall>d\<in>D. d \<in> d_check s \<or> (\<exists>c. d_dst s d = Some c \<and> sha c = d) \<or> d \<in> d_lost s))"
proof -
  have inv: "delta_inv md sha D n s" by (rule delta.inv_reachable [OF assms])
  have dst: "\<forall>d c. d_dst s d = Some c \<longrightarrow> sha c = d" using delta_inv_parts(2) [OF inv] by (simp add: dst_ok_def)
  have "d \<in> d_check s \<or> (\<exists>c. d_dst s d = Some c \<and> sha c = d) \<or> d \<in> d_lost s" if "delta_done n s" "d \<in> D" for d
  proof -
    have "d_work s w = W_Exit \<or> d_work s w = W_Idle" for w using inv that(1) by (cases "w < n") (auto simp: delta_inv_def delta_done_def)
    then have "d_work s w \<noteq> W_Popped t p d" for w t p by (metis wstate.distinct(5,27))
    then show ?thesis using delta_inv_parts(3) [OF inv] that(2) dst by (auto simp: nothing_missed_def)
  qed
  with dst show ?thesis by blast
qed

section \<open>The delta generation ends\<close>

definition busy :: "nat \<Rightarrow> delta \<Rightarrow> nat set" where
  "busy n s = {w. w < n \<and> task_of (d_work s w) \<noteq> None}"

text \<open>The semaphore counts the entries on their way; a worker leaves only after the closing \<^verbatim>\<open>None\<close>.\<close>

definition sem_inv :: "nat \<Rightarrow> nat \<Rightarrow> delta \<Rightarrow> bool" where
  "sem_inv m n s \<longleftrightarrow> d_slots s + length (d_que s) + card (busy n s) = m
     \<and> (d_stop s \<longrightarrow> d_pending s = []) \<and> (\<forall>w. d_work s w = W_Exit \<longrightarrow> d_stop s \<and> d_que s = [])"

lemma finite_busy [simp]: "finite (busy n s)"
  by (simp add: busy_def)

lemma busy_stays:
  assumes "w < n" "task_of (d_work s w) \<noteq> None" "task_of x \<noteq> None" "d_work s' = (d_work s)(w := x)"
  shows "busy n s' = busy n s"
  using assms by (auto simp: busy_def)

lemma busy_starts:
  assumes "w < n" "task_of (d_work s w) = None" "task_of x \<noteq> None" "d_work s' = (d_work s)(w := x)"
  shows "card (busy n s') = Suc (card (busy n s))"
proof -
  have "busy n s' = insert w (busy n s)" "w \<notin> busy n s" using assms by (auto simp: busy_def)
  then show ?thesis by simp
qed

lemma busy_ends:
  assumes "w < n" "task_of (d_work s w) \<noteq> None" "task_of x = None" "d_work s' = (d_work s)(w := x)"
  shows "card (busy n s) = Suc (card (busy n s'))"
proof -
  have "busy n s = insert w (busy n s')" "w \<notin> busy n s'" using assms by (auto simp: busy_def)
  then show ?thesis by simp
qed

text \<open>A step of a worker inside its task changes neither the queue nor the semaphore.\<close>

lemma sem_inv_inside:
  assumes "sem_inv m n s" "w < n" "task_of (d_work s w) \<noteq> None" "d_work s' = (d_work s)(w := x)" "task_of x \<noteq> None"
    and "d_slots s' = d_slots s" "d_que s' = d_que s" "d_pending s' = d_pending s" "d_stop s' = d_stop s"
  shows "sem_inv m n s'"
  using assms busy_stays [OF assms(2,3,5,4)] by (auto simp: sem_inv_def)

lemma try_candidate_task:
  "\<exists>x. d_work (try_candidate md sha w t ps s) = (d_work s)(w := x) \<and> task_of x = Some t"
  by (auto simp: try_candidate_def step_defs Let_def split: list.split option.split)

lemma save_resource_frame:
  "d_work (save_resource md w t p d s) = (d_work s)(w := W_Finish t)" "d_slots (save_resource md w t p d s) = d_slots s"
  "d_que (save_resource md w t p d s) = d_que s" "d_pending (save_resource md w t p d s) = d_pending s"
  "d_stop (save_resource md w t p d s) = d_stop s"
  by (auto simp: save_resource_def step_defs split: option.split)

lemma sem_inv_step:
  assumes "sem_inv m n s" "delta_step md sha n s s'"
  shows "sem_inv m n s'"
  using assms(2)
proof cases
  case ds_produce
  then show ?thesis using assms(1) by (auto simp: produce_def sem_inv_def busy_def split: list.splits if_splits)
next
  case (ds_get w)
  show ?thesis
  proof (cases "d_que s")
    case Nil
    then have s': "s' = set_work w W_Exit s" "d_stop s" using ds_get by (auto simp: get_task_def split: if_splits)
    have "busy n s' = busy n s" using s'(1) ds_get(2) by (auto simp: busy_def set_work_def)
    then show ?thesis using assms(1) s' Nil by (auto simp: sem_inv_def set_work_def)
  next
    case (Cons t ts)
    let ?x = "if t_skip t then W_Finish t else W_Try t (t_paths t)"
    have s': "s' = set_work w ?x (s\<lparr>d_que := ts\<rparr>)" using ds_get Cons by (simp add: get_task_def)
    have "card (busy n s') = Suc (card (busy n s))"
      using ds_get s' by (intro busy_starts [of w n s ?x]) (auto simp: set_work_def)
    then show ?thesis using assms(1) s' Cons by (auto simp: sem_inv_def set_work_def)
  qed
next
  case (ds_try w t ps)
  obtain x where "d_work s' = (d_work s)(w := x)" "task_of x = Some t" using try_candidate_task ds_try(1) by blast
  then show ?thesis using ds_try by (intro sem_inv_inside [OF assms(1) ds_try(2)]) (auto simp: try_candidate_frame)
next
  case (ds_try_fails w t ps)
  then show ?thesis by (intro sem_inv_inside [OF assms(1), of w _ "W_Try t (tl ps)"]) (auto simp: try_fails_def step_defs)
next
  case (ds_pop w t p d)
  then show ?thesis
    by (intro sem_inv_inside [OF assms(1), of w _ "if d \<in> d_check s then W_Popped t p d else W_Finish t"]) (auto simp: pop_resource_def step_defs)
next
  case (ds_save w t p d)
  then show ?thesis by (intro sem_inv_inside [OF assms(1), of w _ "W_Finish t"]) (auto simp: save_resource_frame)
next
  case (ds_save_fails w t p d)
  then show ?thesis by (intro sem_inv_inside [OF assms(1), of w _ "W_Finish t"]) (auto simp: step_defs)
next
  case (ds_finish w t)
  have "card (busy n s) = Suc (card (busy n s'))"
    using ds_finish by (intro busy_ends [of w n s W_Idle]) (auto simp: finish_task_def step_defs)
  then show ?thesis using assms(1) ds_finish by (auto simp: sem_inv_def finish_task_def step_defs)
qed

text \<open>How much is left to do.\<close>

fun worker_weight :: "wstate \<Rightarrow> nat" where
  "worker_weight W_Exit = 0"
| "worker_weight W_Idle = 1"
| "worker_weight (W_Finish t) = 2"
| "worker_weight (W_Popped t p d) = 3"
| "worker_weight (W_Verified t p d) = 4"
| "worker_weight (W_Try t ps) = 5 + length ps"

definition task_weight :: "nat \<Rightarrow> task \<Rightarrow> nat" where
  "task_weight k t = k + length (t_paths t)"

definition work_left :: "nat \<Rightarrow> delta \<Rightarrow> nat" where
  "work_left n s = sum_list (map (task_weight 7) (d_pending s)) + sum_list (map (task_weight 6) (d_que s))
     + (if d_stop s then 0 else 1) + (\<Sum>w<n. worker_weight (d_work s w))"

lemma sum_worker:
  assumes "w < n"
  shows "(\<Sum>v<n. worker_weight (((d_work s)(w := x)) v)) + worker_weight (d_work s w) = (\<Sum>v<n. worker_weight (d_work s v)) + worker_weight x"
proof -
  have 1: "(\<Sum>v<n. f v) = f w + (\<Sum>v\<in>{..<n} - {w}. f v)" for f :: "nat \<Rightarrow> nat"
    using assms by (intro sum.remove) auto
  have "(\<Sum>v\<in>{..<n} - {w}. worker_weight (((d_work s)(w := x)) v)) = (\<Sum>v\<in>{..<n} - {w}. worker_weight (d_work s v))"
    by (rule sum.cong) auto
  then show ?thesis using 1 [of "\<lambda>v. worker_weight (((d_work s)(w := x)) v)"] 1 [of "\<lambda>v. worker_weight (d_work s v)"] by simp
qed

lemma work_left_inside:
  assumes "w < n" "d_work s' = (d_work s)(w := x)" "worker_weight x < worker_weight (d_work s w)"
    and "d_que s' = d_que s" "d_pending s' = d_pending s" "d_stop s' = d_stop s"
  shows "work_left n s' < work_left n s"
  using assms sum_worker [OF assms(1), of s x] by (simp add: work_left_def)

lemma try_candidate_weight:
  "\<exists>x. d_work (try_candidate md sha w t ps s) = (d_work s)(w := x) \<and> worker_weight x < worker_weight (W_Try t ps)"
  by (auto simp: try_candidate_def step_defs Let_def split: list.split option.split)

lemma work_left_decreases:
  assumes "delta_step md sha n s s'"
  shows "work_left n s' < work_left n s"
  using assms
proof cases
  case ds_produce
  then show ?thesis by (auto simp: produce_def work_left_def task_weight_def split: list.splits if_splits)
next
  case (ds_get w)
  show ?thesis
  proof (cases "d_que s")
    case Nil
    then have "s' = set_work w W_Exit s" using ds_get by (auto simp: get_task_def split: if_splits)
    then show ?thesis using ds_get by (intro work_left_inside [of w n s' s W_Exit]) (auto simp: set_work_def)
  next
    case (Cons t ts)
    let ?x = "if t_skip t then W_Finish t else W_Try t (t_paths t)"
    have s': "s' = set_work w ?x (s\<lparr>d_que := ts\<rparr>)" using ds_get Cons by (simp add: get_task_def)
    then show ?thesis using sum_worker [OF ds_get(1), of s ?x] ds_get Cons
      by (cases "t_skip t") (simp_all add: work_left_def set_work_def task_weight_def)
  qed
next
  case (ds_try w t ps)
  then obtain x where "d_work s' = (d_work s)(w := x)" "worker_weight x < worker_weight (W_Try t ps)" using try_candidate_weight by blast
  then show ?thesis using ds_try by (intro work_left_inside [OF ds_try(2)]) (auto simp: try_candidate_frame)
next
  case (ds_try_fails w t ps)
  then show ?thesis by (intro work_left_inside [of w n s' s "W_Try t (tl ps)"]) (auto simp: try_fails_def step_defs)
next
  case (ds_pop w t p d)
  then show ?thesis
    by (intro work_left_inside [of w n s' s "if d \<in> d_check s then W_Popped t p d else W_Finish t"]) (auto simp: pop_resource_def step_defs)
next
  case (ds_save w t p d)
  then show ?thesis by (intro work_left_inside [of w n s' s "W_Finish t"]) (auto simp: save_resource_frame)
next
  case (ds_save_fails w t p d)
  then show ?thesis by (intro work_left_inside [of w n s' s "W_Finish t"]) (auto simp: step_defs)
next
  case (ds_finish w t)
  then show ?thesis by (intro work_left_inside [of w n s' s W_Idle]) (auto simp: finish_task_def step_defs)
qed

lemma worker_not_stuck: "w < n \<Longrightarrow> task_of (d_work s w) \<noteq> None \<Longrightarrow> \<exists>s'. delta_step md sha n s s'"
  by (cases "d_work s w") (auto intro: delta_step.intros)

lemma delta_not_stuck:
  assumes "sem_inv m n s" "m > 0" "n > 0" "\<not> delta_done n s"
  shows "\<exists>s'. delta_step md sha n s s'"
proof (cases "busy n s = {}")
  case False
  then show ?thesis using worker_not_stuck by (auto simp: busy_def)
next
  case idle: True
  show ?thesis
  proof (cases "d_pending s = [] \<and> d_stop s")
    case False
    show ?thesis
    proof (cases "produce s")
      case (Some s')
      then show ?thesis using ds_produce by blast
    next
      case None
      then have "d_slots s = 0" using False by (auto simp: produce_def split: list.splits if_splits)
      then have q: "d_que s \<noteq> []" using assms(1,2) idle by (auto simp: sem_inv_def)
      then have "d_work s 0 \<noteq> W_Exit" using assms(1) by (auto simp: sem_inv_def)
      then have "d_work s 0 = W_Idle" using idle assms(3) by (cases "d_work s 0") (auto simp: busy_def)
      moreover obtain s' where "get_task 0 s = Some s'" using q by (cases "d_que s") (auto simp: get_task_def)
      ultimately show ?thesis using ds_get [OF assms(3)] by blast
    qed
  next
    case True
    then obtain w where w: "w < n" "d_work s w \<noteq> W_Exit" using assms(4) by (auto simp: delta_done_def)
    then have "d_work s w = W_Idle" using idle by (cases "d_work s w") (auto simp: busy_def)
    moreover obtain s' where "get_task w s = Some s'" using True by (cases "d_que s") (auto simp: get_task_def)
    ultimately show ?thesis using ds_get [OF w(1)] by blast
  qed
qed


section \<open>Examples\<close>

text \<open>One file with a needed content, and the digest of a content is the content itself.\<close>

definition ex_task :: task where
  "ex_task = \<lparr> t_expected = None, t_paths = [[''f'']], t_skip = False \<rparr>"

definition ex_delta :: delta where
  "ex_delta = delta_init 1 [[''f''] \<mapsto> ''x''] Map.empty {''x''} [ex_task]"

lemma ex_delta_start: "delta_start (\<lambda>c. c) {''x''} ex_delta"
  unfolding delta_start_def ex_delta_def by (intro exI conjI) (auto simp: apart_def)

text \<open>The run up to the moment in which the resource is taken off the list.\<close>

definition ex_popped :: delta where
  "ex_popped = ex_delta\<lparr>d_pending := [], d_slots := 0, d_check := {}, d_work := (\<lambda>_. W_Idle)(0 := W_Popped ex_task [''f''] ''x'')\<rparr>"

lemma ex_popped_reachable:
  assumes "init ex_delta"
  shows "reachable init (delta_step InPlaceScan (\<lambda>c. c) 1) ex_popped"
proof -
  note simps = ex_delta_def delta_init_def ex_task_def set_work_def
  let ?s1 = "ex_delta\<lparr>d_pending := [], d_slots := 0, d_que := [ex_task]\<rparr>"
  let ?s2 = "ex_delta\<lparr>d_pending := [], d_slots := 0, d_work := (\<lambda>_. W_Idle)(0 := W_Try ex_task [[''f'']])\<rparr>"
  let ?s3 = "ex_delta\<lparr>d_pending := [], d_slots := 0, d_work := (\<lambda>_. W_Idle)(0 := W_Verified ex_task [''f''] ''x'')\<rparr>"
  let ?step = "delta_step InPlaceScan (\<lambda>c. c) 1"
  have 1: "?step ex_delta ?s1" by (rule ds_produce) (simp add: produce_def simps)
  have 2: "?step ?s1 ?s2" by (rule ds_get [of 0]) (simp_all add: get_task_def simps)
  have 3: "?step ?s2 (try_candidate InPlaceScan (\<lambda>c. c) 0 ex_task [[''f'']] ?s2)" by (rule ds_try) simp_all
  have 3: "?step ?s2 ?s3" using 3 by (simp add: try_candidate_def in_place_def simps)
  have 4: "?step ?s3 (pop_resource 0 ex_task [''f''] ''x'' ?s3)" by (rule ds_pop) simp_all
  have 4: "?step ?s3 ex_popped" using 4 by (simp add: pop_resource_def ex_popped_def simps)
  have "reachable init ?step ex_delta" using assms by (rule reach_init)
  then have "reachable init ?step ?s1" using 1 by (rule reach_step)
  then have "reachable init ?step ?s2" using 2 by (rule reach_step)
  then have "reachable init ?step ?s3" using 3 by (rule reach_step)
  then show ?thesis using 4 by (rule reach_step)
qed

text \<open>The rest of the run, once the worker is in its \<^verbatim>\<open>finally\<close> block.\<close>

definition ex_end :: "delta \<Rightarrow> delta" where
  "ex_end s = s\<lparr>d_slots := 1, d_src := (\<lambda>p. if p \<in> {[''f'']} then None else d_src s p), d_tmp := (d_tmp s)(0 := None),
     d_stop := True, d_work := (\<lambda>_. W_Idle)(0 := W_Exit)\<rparr>"

lemma ex_end_reachable:
  assumes r: "reachable init (delta_step InPlaceScan (\<lambda>c. c) 1) s"
    and s: "d_work s = (\<lambda>_. W_Idle)(0 := W_Finish ex_task)" "d_que s = []" "d_pending s = []" "d_slots s = 0" "\<not> d_stop s"
  shows "reachable init (delta_step InPlaceScan (\<lambda>c. c) 1) (ex_end s)"
proof -
  let ?step = "delta_step InPlaceScan (\<lambda>c. c) 1"
  let ?s1 = "finish_task InPlaceScan 0 ex_task s" let ?s2 = "?s1\<lparr>d_stop := True\<rparr>"
  note simps = finish_task_def set_work_def in_place_def ex_task_def
  have 1: "?step s ?s1" by (rule ds_finish) (simp_all add: s)
  have 2: "?step ?s1 ?s2" by (rule ds_produce) (simp add: produce_def s simps)
  have 3: "?step ?s2 (ex_end s)" by (rule ds_get [of 0]) (auto simp: get_task_def s simps ex_end_def)
  have "reachable init ?step ?s1" using r 1 by (rule reach_step)
  then have "reachable init ?step ?s2" using 2 by (rule reach_step)
  then show ?thesis using 3 by (rule reach_step)
qed

lemma ex_end_done: "d_pending s = [] \<Longrightarrow> delta_done 1 (ex_end s)"
  by (simp add: delta_done_def ex_end_def)

theorem delta_resources_accounted_witness:
  "\<exists>s. reachable (delta_start (\<lambda>c. c) {''x''}) (delta_step InPlaceScan (\<lambda>c. c) 1) s \<and> delta_done 1 s
    \<and> d_lost s = {} \<and> d_dst s ''x'' = Some ''x'' \<and> (\<forall>d\<in>{''x''}. d \<in> d_check s \<or> (\<exists>c. d_dst s d = Some c \<and> c = d) \<or> d \<in> d_lost s)"
proof -
  let ?s = "save_resource InPlaceScan 0 ex_task [''f''] ''x'' ex_popped"
  have step: "delta_step InPlaceScan (\<lambda>c. c) 1 ex_popped ?s" by (rule ds_save) (simp_all add: ex_popped_def)
  have s: "d_work ?s = (\<lambda>_. W_Idle)(0 := W_Finish ex_task)" "d_que ?s = []" "d_pending ?s = []" "d_slots ?s = 0" "\<not> d_stop ?s"
    and d: "d_lost ?s = {}" "d_dst ?s ''x'' = Some ''x''"
    by (simp_all add: save_resource_def saved_def in_place_def ex_popped_def ex_delta_def delta_init_def set_work_def)
  have r: "reachable (delta_start (\<lambda>c. c) {''x''}) (delta_step InPlaceScan (\<lambda>c. c) 1) (ex_end ?s)"
    by (rule ex_end_reachable [OF reach_step [OF ex_popped_reachable [of "delta_start (\<lambda>c. c) {''x''}", OF ex_delta_start] step] s])
  have e: "d_lost (ex_end ?s) = {}" "d_dst (ex_end ?s) ''x'' = Some ''x''" by (simp_all add: ex_end_def d)
  show ?thesis using delta_resources_accounted [OF r] ex_end_done [OF s(3)] r e by blast
qed


text \<open>
  The resource is taken off the list before it is moved. If the move fails, the exception is swallowed, and the resource is
  neither in the folder nor on the list: it is not downloaded, and applying the update fails later for the missing file.
\<close>

lemma delta_can_lose_resource:
  "\<exists>s. reachable (delta_start (\<lambda>c. c) {''x''}) (delta_step InPlaceScan (\<lambda>c. c) 1) s \<and> delta_done 1 s
    \<and> ''x'' \<notin> d_check s \<and> d_dst s ''x'' = None"
proof -
  let ?s = "replace_failed 0 ex_task ''x'' ex_popped"
  have step: "delta_step InPlaceScan (\<lambda>c. c) 1 ex_popped ?s" by (rule ds_save_fails) (simp_all add: ex_popped_def)
  have s: "d_work ?s = (\<lambda>_. W_Idle)(0 := W_Finish ex_task)" "d_que ?s = []" "d_pending ?s = []" "d_slots ?s = 0" "\<not> d_stop ?s"
    and d: "d_check ?s = {}" "d_dst ?s = Map.empty"
    by (simp_all add: replace_failed_def ex_popped_def ex_delta_def delta_init_def set_work_def)
  have r: "reachable (delta_start (\<lambda>c. c) {''x''}) (delta_step InPlaceScan (\<lambda>c. c) 1) (ex_end ?s)"
    by (rule ex_end_reachable [OF reach_step [OF ex_popped_reachable [of "delta_start (\<lambda>c. c) {''x''}", OF ex_delta_start] step] s])
  then show ?thesis using ex_end_done [OF s(3)] d by (intro exI [of _ "ex_end ?s"]) (simp add: ex_end_def)
qed

end
