(* ===== verification/Update_Slot.thy ===== *)
theory Update_Slot
  imports Prelude Tree_Copy "HOL-Library.Multiset"
begin

text \<open>
  Applying the new image to the standby slot (\<^verbatim>\<open>otaclient/create_standby/update_slot.py\<close> with the preparation of entries in
  \<^verbatim>\<open>ota_metadata/file_table/utils.py\<close>): directories and special files one after the other, then the regular files by a pool of
  threads, each from its inlined contents, by a hard link to the resource of its digest (the first entry with that digest) or
  by a copy of it, with the entries of one inode of the image linked together.

  Names refer to inodes: two names are hard links when they have the same inode. The tasks of the pool are taken in any order,
  each as one step: the tasks of hard linked entries run under a lock, and the others touch their own name, a new inode or, for
  the one task that links a resource, the owner and mode of that resource, which nobody else reads.
\<close>

section \<open>File table and slot\<close>

type_synonym fmeta = "nat \<times> nat \<times> nat \<times> string"  \<comment> \<open>mode, uid, gid, extended attributes\<close>

record regular_row =
  rr_path :: path
  rr_digest :: string
  rr_size :: nat
  rr_contents :: string          \<comment> \<open>empty: not inlined\<close>
  rr_inode_id :: nat
  rr_links_count :: "nat option"
  rr_mode :: nat
  rr_uid :: nat
  rr_gid :: nat
  rr_xattrs :: string

record inode =
  in_content :: string
  in_meta :: fmeta

datatype special = Symlink string | Char_Device

record slot =
  us_names :: "path \<rightharpoonup> nat"
  us_inodes :: "nat \<rightharpoonup> inode"
  us_next :: nat
  us_rs :: "string \<rightharpoonup> nat"
  us_dirs :: "path \<rightharpoonup> fmeta"
  us_special :: "path \<rightharpoonup> special \<times> fmeta"
  us_group :: "nat \<rightharpoonup> path"
  us_pending :: "(regular_row \<times> bool) multiset"
  us_interrupted :: bool
  us_reported :: "nat list"

definition row_meta :: "regular_row \<Rightarrow> fmeta" where
  "row_meta e = (rr_mode e, rr_uid e, rr_gid e, rr_xattrs e)"

section \<open>Preparing an entry\<close>

text \<open>
  A failure removes the target again and raises \<^verbatim>\<open>PrepareEntryFailed\<close>, here None. What the operation had done to the file
  before it failed is not followed: the slot update ends with an error then.
\<close>

definition prepare_failed :: "regular_row \<Rightarrow> slot \<Rightarrow> path option \<times> slot" where
  "prepare_failed e s = (None, s\<lparr>us_names := (us_names s)(rr_path e := None)\<rparr>)"

text \<open>
  \<^verbatim>\<open>touch\<close>, writing the content, \<^verbatim>\<open>chown\<close> unless root owns the entry, \<^verbatim>\<open>chmod\<close>. A new file belongs to root; a file that is there keeps
  its inode, and its content if nothing is written.
\<close>

definition put_file :: "regular_row \<Rightarrow> string option \<Rightarrow> slot \<Rightarrow> path option \<times> slot" where
  "put_file e content s =
     (let i = (case us_names s (rr_path e) of Some i \<Rightarrow> i | None \<Rightarrow> us_next s);
          old = (case us_names s (rr_path e) of
              Some j \<Rightarrow> (case us_inodes s j of Some nd \<Rightarrow> nd | None \<Rightarrow> \<lparr> in_content = [], in_meta = (0, 0, 0, []) \<rparr>)
            | None \<Rightarrow> \<lparr> in_content = [], in_meta = (0, 0, 0, []) \<rparr>);
          owner = (if rr_uid e = 0 \<and> rr_gid e = 0 then (fst (snd (in_meta old)), fst (snd (snd (in_meta old)))) else (rr_uid e, rr_gid e));
          xattrs = (if rr_xattrs e = [] then snd (snd (snd (in_meta old))) else rr_xattrs e)
      in (Some (rr_path e), s\<lparr> us_names := (us_names s)(rr_path e \<mapsto> i),
            us_inodes := (us_inodes s)(i \<mapsto> \<lparr> in_content = (case content of Some c \<Rightarrow> c | None \<Rightarrow> in_content old),
              in_meta = (rr_mode e, fst owner, snd owner, xattrs) \<rparr>),
            us_next := (if us_names s (rr_path e) = None then Suc (us_next s) else us_next s) \<rparr>))"

definition prepare_regular_inlined :: "(regular_row \<Rightarrow> bool) \<Rightarrow> regular_row \<Rightarrow> slot \<Rightarrow> path option \<times> slot" where
  "prepare_regular_inlined fails e s =
     (if fails e \<or> (rr_contents e = [] \<and> rr_size e \<noteq> 0) then prepare_failed e s
      else put_file e (if rr_contents e = [] then None else Some (rr_contents e)) s)"

definition prepare_regular_copy :: "(regular_row \<Rightarrow> bool) \<Rightarrow> regular_row \<Rightarrow> nat option \<Rightarrow> slot \<Rightarrow> path option \<times> slot" where
  "prepare_regular_copy fails e rs s = (case rs of
     None \<Rightarrow> prepare_failed e s
   | Some i \<Rightarrow> (case us_inodes s i of
         None \<Rightarrow> prepare_failed e s
       | Some nd \<Rightarrow> if fails e then prepare_failed e s else put_file e (Some (in_content nd)) s))"

definition prepare_regular_hardlink :: "(regular_row \<Rightarrow> bool) \<Rightarrow> regular_row \<Rightarrow> nat option \<Rightarrow> bool \<Rightarrow> slot \<Rightarrow> path option \<times> slot" where
  "prepare_regular_hardlink fails e rs skip_permission s = (case rs of
     None \<Rightarrow> prepare_failed e s
   | Some i \<Rightarrow> (case us_inodes s i of
         None \<Rightarrow> prepare_failed e s
       | Some nd \<Rightarrow>
           if fails e \<or> us_names s (rr_path e) \<noteq> None then prepare_failed e s
           else (Some (rr_path e), s\<lparr> us_names := (us_names s)(rr_path e \<mapsto> i),
             us_inodes := (us_inodes s)(i \<mapsto> (if skip_permission then nd
               else nd\<lparr>in_meta := (rr_mode e, rr_uid e, rr_gid e, if rr_xattrs e = [] then snd (snd (snd (in_meta nd))) else rr_xattrs e)\<rparr>)) \<rparr>)))"

section \<open>The tasks of the pool\<close>

definition inlined :: "regular_row \<Rightarrow> bool" where
  "inlined e \<longleftrightarrow> rr_contents e \<noteq> [] \<or> rr_size e = 0"

definition report :: "nat \<Rightarrow> slot \<Rightarrow> slot" where
  "report n s = s\<lparr>us_reported := us_reported s @ [n]\<rparr>"

definition set_head :: "nat \<Rightarrow> path option \<times> slot \<Rightarrow> path option \<times> slot" where
  "set_head g r = (case r of (None, s) \<Rightarrow> (None, s) | (Some p, s) \<Rightarrow> (Some p, s\<lparr>us_group := (us_group s)(g \<mapsto> p)\<rparr>))"

definition then_report :: "bool \<Rightarrow> nat \<Rightarrow> path option \<times> slot \<Rightarrow> path option \<times> slot" where
  "then_report b n r = (case r of (None, s) \<Rightarrow> (None, s) | (Some p, s) \<Rightarrow> (Some p, if b then report n s else s))"

definition process_hardlinked_file :: "(regular_row \<Rightarrow> bool) \<Rightarrow> regular_row \<Rightarrow> bool \<Rightarrow> slot \<Rightarrow> path option \<times> slot" where
  "process_hardlinked_file fails e first_to_prepare s = (case us_group s (rr_inode_id e) of
     Some head \<Rightarrow> then_report (\<not> first_to_prepare) (rr_size e) (prepare_regular_hardlink fails e (us_names s head) True s)
   | None \<Rightarrow>
       if inlined e then then_report True (rr_size e) (set_head (rr_inode_id e) (prepare_regular_inlined fails e s))
       else if first_to_prepare
       then set_head (rr_inode_id e) (prepare_regular_hardlink fails e (us_rs s (rr_digest e)) False s)
       else then_report True (rr_size e) (set_head (rr_inode_id e) (prepare_regular_copy fails e (us_rs s (rr_digest e)) s)))"

definition process_normal_file :: "(regular_row \<Rightarrow> bool) \<Rightarrow> regular_row \<Rightarrow> bool \<Rightarrow> slot \<Rightarrow> path option \<times> slot" where
  "process_normal_file fails e first_to_prepare s =
     (if inlined e then then_report True (rr_size e) (prepare_regular_inlined fails e s)
      else if first_to_prepare then prepare_regular_hardlink fails e (us_rs s (rr_digest e)) False s
      else then_report True (rr_size e) (prepare_regular_copy fails e (us_rs s (rr_digest e)) s))"

definition is_linked :: "regular_row \<Rightarrow> bool" where
  "is_linked e \<longleftrightarrow> (case rr_links_count e of Some n \<Rightarrow> n > 1 | None \<Rightarrow> False)"

definition process_file :: "(regular_row \<Rightarrow> bool) \<Rightarrow> regular_row \<times> bool \<Rightarrow> slot \<Rightarrow> path option \<times> slot" where
  "process_file fails t = (if is_linked (fst t) then process_hardlinked_file fails (fst t) (snd t)
     else process_normal_file fails (fst t) (snd t))"

text \<open>The order in which the entries are read decides which one is the first with its digest.\<close>

fun mark_first :: "string set \<Rightarrow> regular_row list \<Rightarrow> (regular_row \<times> bool) list" where
  "mark_first seen [] = []"
| "mark_first seen (e # es) = (e, rr_digest e \<notin> seen) # mark_first (insert (rr_digest e) seen) es"

text \<open>
  A task is done: \<^verbatim>\<open>_task_done_cb\<close> records a failure, after which no more entries are submitted. \<open>us_give_up\<close> leaves the rest out.
\<close>

definition task_done :: "path option \<times> slot \<Rightarrow> slot" where
  "task_done r = (case r of (None, s) \<Rightarrow> s\<lparr>us_interrupted := True\<rparr> | (Some _, s) \<Rightarrow> s)"

inductive us_step :: "(regular_row \<Rightarrow> bool) \<Rightarrow> slot \<Rightarrow> slot \<Rightarrow> bool" for fails where
  us_task: "t \<in># us_pending s \<Longrightarrow> us_step fails s (task_done (process_file fails t (s\<lparr>us_pending := us_pending s - {#t#}\<rparr>)))"
| us_give_up: "us_interrupted s \<Longrightarrow> p \<subseteq># us_pending s \<Longrightarrow> us_step fails s (s\<lparr>us_pending := p\<rparr>)"

text \<open>
  \<^verbatim>\<open>_report_uploader_thread\<close> adds up number and size of the entries that come through its queue, with the time at which each is
  taken, and pushes what has come together once the interval is over, and at the end.
\<close>

fun report_uploader :: "nat \<Rightarrow> nat \<times> nat \<Rightarrow> nat \<Rightarrow> (nat \<times> nat) list \<Rightarrow> (nat \<times> nat) list" where
  "report_uploader interval merged next_push [] = [merged]"
| "report_uploader interval merged next_push ((entry, now) # es) =
     (let m = (fst merged + 1, snd merged + entry)
      in if now > next_push then m # report_uploader interval (0, 0) (now + interval) es
         else report_uploader interval m next_push es)"

section \<open>Directories and special files\<close>

text \<open>Missing parents are made with a default mode, here \<open>dm\<close>.\<close>

definition prepare_dir :: "fmeta \<Rightarrow> (path \<Rightarrow> bool) \<Rightarrow> path \<times> fmeta \<Rightarrow> slot \<Rightarrow> slot option" where
  "prepare_dir dm fails d s =
     (if fails (fst d) then None
      else Some (s\<lparr>us_dirs := (\<lambda>q. if q = fst d then Some (snd d)
        else if us_dirs s q = None \<and> take (length q) (fst d) = q then Some dm else us_dirs s q)\<rparr>))"

datatype non_regular = NR_Symlink "string option" | NR_Char | NR_Unknown

definition prepare_non_regular :: "(path \<Rightarrow> bool) \<Rightarrow> path \<times> non_regular \<times> fmeta \<Rightarrow> slot \<Rightarrow> slot option" where
  "prepare_non_regular fails e s = (case fst (snd e) of
     NR_Unknown \<Rightarrow> Some s
   | NR_Symlink None \<Rightarrow> None
   | NR_Symlink (Some t) \<Rightarrow> if t = [] \<or> fails (fst e) \<or> us_special s (fst e) \<noteq> None then None
       else Some (s\<lparr>us_special := (us_special s)(fst e \<mapsto> (Symlink t, snd (snd e)))\<rparr>)
   | NR_Char \<Rightarrow> if fails (fst e) \<or> us_special s (fst e) \<noteq> None then None
       else Some (s\<lparr>us_special := (us_special s)(fst e \<mapsto> (Char_Device, snd (snd e)))\<rparr>))"

text \<open>The first entry that fails ends the loop with \<^verbatim>\<open>UpdateStandbySlotFailed\<close>, here None.\<close>

fun process_entries :: "('e \<Rightarrow> slot \<Rightarrow> slot option) \<Rightarrow> 'e list \<Rightarrow> slot \<Rightarrow> slot option" where
  "process_entries f [] s = Some s"
| "process_entries f (e # es) s = (case f e s of None \<Rightarrow> None | Some s' \<Rightarrow> process_entries f es s')"

text \<open>\<^verbatim>\<open>update_slot\<close> up to the pool, and how it ends.\<close>

definition update_slot_start ::
    "fmeta \<Rightarrow> (path \<Rightarrow> bool) \<Rightarrow> (path \<times> fmeta) list \<Rightarrow> (path \<times> non_regular \<times> fmeta) list \<Rightarrow> regular_row list \<Rightarrow> slot \<Rightarrow> slot option" where
  "update_slot_start dm fails dirs others rows s =
     (case process_entries (prepare_dir dm fails) dirs s of
        None \<Rightarrow> None
      | Some s1 \<Rightarrow> map_option (\<lambda>s2. s2\<lparr>us_pending := mset (mark_first {} rows), us_group := Map.empty, us_interrupted := False\<rparr>)
          (process_entries (prepare_non_regular fails) others s1))"

definition update_slot_ok :: "slot \<Rightarrow> bool" where
  "update_slot_ok s \<longleftrightarrow> us_pending s = {#} \<and> \<not> us_interrupted s"

text \<open>Every entry is reported once.\<close>

lemma reports_add_up:
  "sum_list (map fst (report_uploader interval m n es)) = fst m + length es
   \<and> sum_list (map snd (report_uploader interval m n es)) = snd m + sum_list (map fst es)"
  by (induction interval m n es rule: report_uploader.induct) (auto simp: Let_def)

section \<open>What a task does\<close>


lemma put_new_file:
  assumes "us_names s (rr_path e) = None"
  shows "put_file e c s = (Some (rr_path e), s\<lparr> us_names := (us_names s)(rr_path e \<mapsto> us_next s),
    us_inodes := (us_inodes s)(us_next s \<mapsto> \<lparr> in_content = (case c of Some x \<Rightarrow> x | None \<Rightarrow> []), in_meta = row_meta e \<rparr>),
    us_next := Suc (us_next s) \<rparr>)"
  using assms by (cases c) (auto simp: put_file_def Let_def row_meta_def)

text \<open>The parts of the slot a task never touches, whatever happens.\<close>

definition same_frame :: "slot \<Rightarrow> slot \<Rightarrow> bool" where
  "same_frame s s' \<longleftrightarrow> us_rs s' = us_rs s \<and> us_dirs s' = us_dirs s \<and> us_special s' = us_special s
     \<and> us_pending s' = us_pending s \<and> us_interrupted s' = us_interrupted s"

lemma same_frame_refl [simp]: "same_frame s s"
  by (simp add: same_frame_def)

lemma same_frame_updates [simp]:
  "same_frame s (s'\<lparr>us_names := a\<rparr>) = same_frame s s'"
  "same_frame s (s'\<lparr>us_inodes := b\<rparr>) = same_frame s s'"
  "same_frame s (s'\<lparr>us_next := c\<rparr>) = same_frame s s'"
  "same_frame s (s'\<lparr>us_group := d\<rparr>) = same_frame s s'"
  "same_frame s (s'\<lparr>us_reported := f\<rparr>) = same_frame s s'"
  by (simp_all add: same_frame_def)

lemma frame_put_file: "same_frame s (snd (put_file e c s))"
  by (simp add: put_file_def Let_def)

lemma frame_failed: "same_frame s (snd (prepare_failed e s))"
  by (simp add: prepare_failed_def)

lemma frame_inlined: "same_frame s (snd (prepare_regular_inlined fails e s))"
  by (simp add: prepare_regular_inlined_def frame_put_file frame_failed)

lemma frame_copy: "same_frame s (snd (prepare_regular_copy fails e rs s))"
  by (simp add: prepare_regular_copy_def frame_put_file frame_failed split: option.split)

lemma frame_hardlink: "same_frame s (snd (prepare_regular_hardlink fails e rs b s))"
  by (simp add: prepare_regular_hardlink_def frame_failed split: option.split)

lemma frame_set_head: "same_frame s (snd (set_head g r)) = same_frame s (snd r)"
  by (simp add: set_head_def split: prod.split option.split)

lemma frame_then_report: "same_frame s (snd (then_report b n r)) = same_frame s (snd r)"
  by (simp add: then_report_def report_def split: prod.split option.split)

lemmas frame_rules = frame_inlined frame_copy frame_hardlink frame_set_head frame_then_report

lemma frame_process_file: "same_frame s (snd (process_file fails t s))"
  by (simp add: process_file_def process_hardlinked_file_def process_normal_file_def frame_rules split: option.split)

text \<open>
  A task that succeeds on a free name links the name to the head of its group, makes a file of its own, or links the name
  to the resource. In the last two cases a hard linked entry becomes the head of its group.
\<close>

definition links_head :: "regular_row \<Rightarrow> slot \<Rightarrow> slot \<Rightarrow> bool" where
  "links_head e s s' \<longleftrightarrow> is_linked e \<and> (\<exists>h i. us_group s (rr_inode_id e) = Some h \<and> us_names s h = Some i
     \<and> us_names s' = (us_names s)(rr_path e \<mapsto> i) \<and> us_inodes s' = us_inodes s \<and> us_next s' = us_next s
     \<and> us_group s' = us_group s)"

definition heads_group :: "regular_row \<Rightarrow> slot \<Rightarrow> slot \<Rightarrow> bool" where
  "heads_group e s s' \<longleftrightarrow> (if is_linked e
     then us_group s (rr_inode_id e) = None \<and> us_group s' = (us_group s)(rr_inode_id e \<mapsto> rr_path e)
     else us_group s' = us_group s)"

definition makes_file :: "regular_row \<Rightarrow> slot \<Rightarrow> slot \<Rightarrow> bool" where
  "makes_file e s s' \<longleftrightarrow> heads_group e s s' \<and> (\<exists>c. us_names s' = (us_names s)(rr_path e \<mapsto> us_next s)
     \<and> us_inodes s' = (us_inodes s)(us_next s \<mapsto> \<lparr> in_content = c, in_meta = row_meta e \<rparr>) \<and> us_next s' = Suc (us_next s)
     \<and> (if inlined e then c = rr_contents e
        else \<exists>i nd. us_rs s (rr_digest e) = Some i \<and> us_inodes s i = Some nd \<and> c = in_content nd))"

definition links_resource :: "regular_row \<Rightarrow> slot \<Rightarrow> slot \<Rightarrow> bool" where
  "links_resource e s s' \<longleftrightarrow> heads_group e s s' \<and> \<not> inlined e \<and> (\<exists>i nd. us_rs s (rr_digest e) = Some i
     \<and> us_inodes s i = Some nd \<and> us_names s' = (us_names s)(rr_path e \<mapsto> i)
     \<and> us_inodes s' = (us_inodes s)(i \<mapsto> nd\<lparr>in_meta := (rr_mode e, rr_uid e, rr_gid e,
         if rr_xattrs e = [] then snd (snd (snd (in_meta nd))) else rr_xattrs e)\<rparr>)
     \<and> us_next s' = us_next s)"

text \<open>The last two without the group, which the caller sets.\<close>

lemma inlined_makes:
  assumes "us_names s (rr_path e) = None" and "prepare_regular_inlined fails e s = (Some p, s')"
  shows "p = rr_path e \<and> inlined e \<and> us_group s' = us_group s \<and> us_names s' = (us_names s)(rr_path e \<mapsto> us_next s)
     \<and> us_inodes s' = (us_inodes s)(us_next s \<mapsto> \<lparr> in_content = rr_contents e, in_meta = row_meta e \<rparr>) \<and> us_next s' = Suc (us_next s)"
  using assms by (auto simp: prepare_regular_inlined_def inlined_def prepare_failed_def put_new_file split: if_splits)

lemma copy_makes:
  assumes "us_names s (rr_path e) = None" and "prepare_regular_copy fails e (us_rs s (rr_digest e)) s = (Some p, s')"
  shows "p = rr_path e \<and> us_group s' = us_group s \<and> (\<exists>i nd. us_rs s (rr_digest e) = Some i \<and> us_inodes s i = Some nd
     \<and> us_names s' = (us_names s)(rr_path e \<mapsto> us_next s)
     \<and> us_inodes s' = (us_inodes s)(us_next s \<mapsto> \<lparr> in_content = in_content nd, in_meta = row_meta e \<rparr>) \<and> us_next s' = Suc (us_next s))"
  using assms by (auto simp: prepare_regular_copy_def prepare_failed_def put_new_file split: if_splits option.splits)

lemma hardlink_links:
  assumes "prepare_regular_hardlink fails e rs b s = (Some p, s')"
  shows "p = rr_path e \<and> us_group s' = us_group s \<and> us_next s' = us_next s \<and> (\<exists>i nd. rs = Some i \<and> us_inodes s i = Some nd
     \<and> us_names s' = (us_names s)(rr_path e \<mapsto> i)
     \<and> us_inodes s' = (us_inodes s)(i \<mapsto> (if b then nd else nd\<lparr>in_meta := (rr_mode e, rr_uid e, rr_gid e,
         if rr_xattrs e = [] then snd (snd (snd (in_meta nd))) else rr_xattrs e)\<rparr>)))"
  using assms by (auto simp: prepare_regular_hardlink_def prepare_failed_def split: if_splits option.splits)

lemma then_report_Some:
  assumes "then_report b n r = (Some p, s')"
  obtains s1 where "r = (Some p, s1)" and "us_names s' = us_names s1" and "us_inodes s' = us_inodes s1"
    and "us_next s' = us_next s1" and "us_group s' = us_group s1"
  using assms by (auto simp: then_report_def report_def split: prod.splits option.splits if_splits)

lemma set_head_Some:
  assumes "set_head g r = (Some p, s')"
  obtains s1 where "r = (Some p, s1)" and "us_names s' = us_names s1" and "us_inodes s' = us_inodes s1"
    and "us_next s' = us_next s1" and "us_group s' = (us_group s1)(g \<mapsto> p)"
  using assms by (auto simp: set_head_def split: prod.splits option.splits)

lemma normal_file_does:
  assumes free: "us_names s (rr_path e) = None" and l: "\<not> is_linked e"
    and r: "process_normal_file fails e b s = (Some p, s')"
  shows "makes_file e s s' \<or> (b \<and> links_resource e s s')"
proof (cases "inlined e")
  case True
  then have "then_report True (rr_size e) (prepare_regular_inlined fails e s) = (Some p, s')"
    using r by (simp add: process_normal_file_def)
  then obtain s1 where s1: "prepare_regular_inlined fails e s = (Some p, s1)" "us_names s' = us_names s1"
      "us_inodes s' = us_inodes s1" "us_next s' = us_next s1" "us_group s' = us_group s1"
    by (rule then_report_Some)
  then show ?thesis
    using inlined_makes [OF free s1(1)] l by (simp add: makes_file_def heads_group_def)
next
  case False
  show ?thesis
  proof (cases b)
    case True
    then show ?thesis
      using r False l hardlink_links [of fails e "us_rs s (rr_digest e)" False s p s']
      by (auto simp: process_normal_file_def links_resource_def heads_group_def)
  next
    case n: False
    then have "then_report True (rr_size e) (prepare_regular_copy fails e (us_rs s (rr_digest e)) s) = (Some p, s')"
      using r False by (simp add: process_normal_file_def)
    then obtain s1 where s1: "prepare_regular_copy fails e (us_rs s (rr_digest e)) s = (Some p, s1)" "us_names s' = us_names s1"
        "us_inodes s' = us_inodes s1" "us_next s' = us_next s1" "us_group s' = us_group s1"
      by (rule then_report_Some)
    then show ?thesis
      using copy_makes [OF free s1(1)] False l by (auto simp: makes_file_def heads_group_def)
  qed
qed

lemma hardlinked_file_does:
  assumes free: "us_names s (rr_path e) = None" and l: "is_linked e"
    and r: "process_hardlinked_file fails e b s = (Some p, s')"
  shows "links_head e s s' \<or> makes_file e s s' \<or> (b \<and> links_resource e s s')"
proof (cases "us_group s (rr_inode_id e)")
  case (Some h)
  then have "then_report (\<not> b) (rr_size e) (prepare_regular_hardlink fails e (us_names s h) True s) = (Some p, s')"
    using r by (simp add: process_hardlinked_file_def)
  then obtain s1 where s1: "prepare_regular_hardlink fails e (us_names s h) True s = (Some p, s1)" "us_names s' = us_names s1"
      "us_inodes s' = us_inodes s1" "us_next s' = us_next s1" "us_group s' = us_group s1"
    by (rule then_report_Some)
  then show ?thesis
    using hardlink_links [OF s1(1)] l Some by (auto simp: links_head_def fun_upd_idem)
next
  case g: None
  show ?thesis
  proof (cases "inlined e")
    case True
    then have "then_report True (rr_size e) (set_head (rr_inode_id e) (prepare_regular_inlined fails e s)) = (Some p, s')"
      using r g by (simp add: process_hardlinked_file_def)
    then obtain s1 where s1: "set_head (rr_inode_id e) (prepare_regular_inlined fails e s) = (Some p, s1)"
        "us_names s' = us_names s1" "us_inodes s' = us_inodes s1" "us_next s' = us_next s1" "us_group s' = us_group s1"
      by (rule then_report_Some)
    obtain s2 where s2: "prepare_regular_inlined fails e s = (Some p, s2)" "us_names s1 = us_names s2"
        "us_inodes s1 = us_inodes s2" "us_next s1 = us_next s2" "us_group s1 = (us_group s2)(rr_inode_id e \<mapsto> p)"
      using s1(1) by (rule set_head_Some)
    show ?thesis
      using inlined_makes [OF free s2(1)] l g s1 s2 by (simp add: makes_file_def heads_group_def)
  next
    case ni: False
    show ?thesis
    proof (cases b)
      case True
      then have "set_head (rr_inode_id e) (prepare_regular_hardlink fails e (us_rs s (rr_digest e)) False s) = (Some p, s')"
        using r g ni by (simp add: process_hardlinked_file_def)
      then obtain s1 where s1: "prepare_regular_hardlink fails e (us_rs s (rr_digest e)) False s = (Some p, s1)"
          "us_names s' = us_names s1" "us_inodes s' = us_inodes s1" "us_next s' = us_next s1"
          "us_group s' = (us_group s1)(rr_inode_id e \<mapsto> p)"
        by (rule set_head_Some)
      then show ?thesis
        using hardlink_links [OF s1(1)] l g ni True by (auto simp: links_resource_def heads_group_def)
    next
      case False
      then have "then_report True (rr_size e) (set_head (rr_inode_id e) (prepare_regular_copy fails e (us_rs s (rr_digest e)) s))
          = (Some p, s')"
        using r g ni by (simp add: process_hardlinked_file_def)
      then obtain s1 where s1: "set_head (rr_inode_id e) (prepare_regular_copy fails e (us_rs s (rr_digest e)) s) = (Some p, s1)"
          "us_names s' = us_names s1" "us_inodes s' = us_inodes s1" "us_next s' = us_next s1" "us_group s' = us_group s1"
        by (rule then_report_Some)
      obtain s2 where s2: "prepare_regular_copy fails e (us_rs s (rr_digest e)) s = (Some p, s2)" "us_names s1 = us_names s2"
          "us_inodes s1 = us_inodes s2" "us_next s1 = us_next s2" "us_group s1 = (us_group s2)(rr_inode_id e \<mapsto> p)"
        using s1(1) by (rule set_head_Some)
      show ?thesis
        using copy_makes [OF free s2(1)] l g ni s1 s2 by (auto simp: makes_file_def heads_group_def)
    qed
  qed
qed

lemma process_file_does:
  assumes "us_names s (rr_path (fst t)) = None" and "process_file fails t s = (Some p, s')"
  shows "links_head (fst t) s s' \<or> makes_file (fst t) s s' \<or> (snd t \<and> links_resource (fst t) s s')"
  using assms normal_file_does [of s "fst t" fails "snd t" p s'] hardlinked_file_does [of s "fst t" fails "snd t" p s']
  by (auto simp: process_file_def split: if_splits)

section \<open>The invariant of the pool\<close>

text \<open>The content an entry asks for, when \<open>res\<close> gives the content of the resources.\<close>

definition wanted :: "(string \<Rightarrow> string) \<Rightarrow> regular_row \<Rightarrow> string" where
  "wanted res e = (if inlined e then rr_contents e else res (rr_digest e))"

definition same_file :: "regular_row \<Rightarrow> regular_row \<Rightarrow> bool" where
  "same_file e e' \<longleftrightarrow> is_linked e \<and> is_linked e' \<and> rr_inode_id e = rr_inode_id e'"

text \<open>A file table: one row per path, and the rows of one inode agree on what the inode holds.\<close>

definition file_table :: "regular_row list \<Rightarrow> bool" where
  "file_table rows \<longleftrightarrow> distinct (map rr_path rows) \<and> (\<forall>e \<in> set rows. \<forall>e' \<in> set rows. same_file e e' \<longrightarrow>
     rr_digest e = rr_digest e' \<and> rr_contents e = rr_contents e' \<and> rr_size e = rr_size e' \<and> row_meta e = row_meta e')"

text \<open>What the earlier steps leave: the resources are files of their own without extended attributes, no path of the table is taken.\<close>

definition prepared_slot :: "(string \<Rightarrow> string) \<Rightarrow> regular_row list \<Rightarrow> slot \<Rightarrow> bool" where
  "prepared_slot res rows s \<longleftrightarrow> (\<forall>e \<in> set rows. us_names s (rr_path e) = None)
     \<and> (\<forall>i \<in> dom (us_inodes s). i < us_next s) \<and> inj_on (us_rs s) (dom (us_rs s))
     \<and> (\<forall>d \<in> dom (us_rs s). \<exists>nd. us_inodes s (the (us_rs s d)) = Some nd \<and> in_content nd = res d \<and> snd (snd (snd (in_meta nd))) = [])"

definition us_init :: "(string \<Rightarrow> string) \<Rightarrow> regular_row list \<Rightarrow> slot \<Rightarrow> bool" where
  "us_init res rows s \<longleftrightarrow> prepared_slot res rows s \<and> us_pending s = mset (mark_first {} rows) \<and> us_group s = Map.empty
     \<and> \<not> us_interrupted s"

definition written :: "(string \<Rightarrow> string) \<Rightarrow> slot \<Rightarrow> regular_row \<Rightarrow> bool" where
  "written res s e \<longleftrightarrow> (\<exists>i nd. us_names s (rr_path e) = Some i \<and> us_inodes s i = Some nd
     \<and> in_content nd = wanted res e \<and> in_meta nd = row_meta e)"

text \<open>The tasks of a table: one per path, those of one inode agree, and one is the first of its digest.\<close>

definition us_tasks :: "(regular_row \<times> bool) set \<Rightarrow> bool" where
  "us_tasks T \<longleftrightarrow> inj_on (rr_path \<circ> fst) T
     \<and> (\<forall>t \<in> T. \<forall>u \<in> T. same_file (fst t) (fst u) \<longrightarrow> rr_digest (fst t) = rr_digest (fst u)
          \<and> rr_contents (fst t) = rr_contents (fst u) \<and> rr_size (fst t) = rr_size (fst u) \<and> row_meta (fst t) = row_meta (fst u))
     \<and> (\<forall>t \<in> T. \<forall>u \<in> T. snd t \<longrightarrow> snd u \<longrightarrow> rr_digest (fst t) = rr_digest (fst u) \<longrightarrow> t = u)"

text \<open>
  The invariant, for the tasks \<open>P\<close> that are still to do and the tasks \<open>F\<close> that are done. A resource is linked by a task only
  when the first task of its digest is done, so that this one task may set its owner.
\<close>

definition first_of :: "string \<Rightarrow> (regular_row \<times> bool) set \<Rightarrow> bool" where
  "first_of d P \<longleftrightarrow> (\<exists>u \<in> P. snd u \<and> rr_digest (fst u) = d)"

definition us_names_ok :: "(string \<Rightarrow> string) \<Rightarrow> (regular_row \<times> bool) set \<Rightarrow> (regular_row \<times> bool) set \<Rightarrow> slot \<Rightarrow> bool" where
  "us_names_ok res P F s \<longleftrightarrow> (\<forall>t \<in> P. us_names s (rr_path (fst t)) = None) \<and> (\<forall>t \<in> F. written res s (fst t))
     \<and> (\<forall>t \<in> F. \<forall>u \<in> F. t \<noteq> u \<longrightarrow> (us_names s (rr_path (fst t)) = us_names s (rr_path (fst u))) = same_file (fst t) (fst u))"

definition us_resources_ok :: "(string \<Rightarrow> string) \<Rightarrow> (regular_row \<times> bool) set \<Rightarrow> (regular_row \<times> bool) set \<Rightarrow> slot \<Rightarrow> bool" where
  "us_resources_ok res P F s \<longleftrightarrow> (\<forall>i \<in> dom (us_inodes s). i < us_next s) \<and> inj_on (us_rs s) (dom (us_rs s))
     \<and> (\<forall>d i. us_rs s d = Some i \<longrightarrow> (\<exists>nd. us_inodes s i = Some nd \<and> in_content nd = res d
          \<and> (first_of d P \<longrightarrow> snd (snd (snd (in_meta nd))) = [] \<and> (\<forall>t \<in> F. us_names s (rr_path (fst t)) \<noteq> Some i))))"

definition us_groups_ok :: "(regular_row \<times> bool) set \<Rightarrow> slot \<Rightarrow> bool" where
  "us_groups_ok F s \<longleftrightarrow> (\<forall>g p. us_group s g = Some p \<longrightarrow> (\<exists>t \<in> F. is_linked (fst t) \<and> rr_inode_id (fst t) = g \<and> rr_path (fst t) = p))
     \<and> (\<forall>t \<in> F. is_linked (fst t) \<longrightarrow> us_group s (rr_inode_id (fst t)) \<noteq> None)"

definition us_core :: "(string \<Rightarrow> string) \<Rightarrow> (regular_row \<times> bool) set \<Rightarrow> (regular_row \<times> bool) set \<Rightarrow> slot \<Rightarrow> bool" where
  "us_core res P F s \<longleftrightarrow> us_names_ok res P F s \<and> us_resources_ok res P F s \<and> us_groups_ok F s"

lemma us_coreE:
  assumes "us_core res P F s"
  shows "t \<in> P \<Longrightarrow> us_names s (rr_path (fst t)) = None"
    and "t \<in> F \<Longrightarrow> written res s (fst t)"
    and "t \<in> F \<Longrightarrow> u \<in> F \<Longrightarrow> t \<noteq> u \<Longrightarrow> (us_names s (rr_path (fst t)) = us_names s (rr_path (fst u))) = same_file (fst t) (fst u)"
    and "us_inodes s i = Some nd \<Longrightarrow> i < us_next s"
    and "inj_on (us_rs s) (dom (us_rs s))"
    and "us_rs s d = Some i \<Longrightarrow> \<exists>nd. us_inodes s i = Some nd \<and> in_content nd = res d
          \<and> (first_of d P \<longrightarrow> snd (snd (snd (in_meta nd))) = [] \<and> (\<forall>t \<in> F. us_names s (rr_path (fst t)) \<noteq> Some i))"
    and "us_group s g = Some p \<Longrightarrow> \<exists>t \<in> F. is_linked (fst t) \<and> rr_inode_id (fst t) = g \<and> rr_path (fst t) = p"
    and "t \<in> F \<Longrightarrow> is_linked (fst t) \<Longrightarrow> us_group s (rr_inode_id (fst t)) \<noteq> None"
  using assms by (auto simp: us_core_def us_names_ok_def us_resources_ok_def us_groups_ok_def)

lemma tasks_agree:
  assumes T: "us_tasks T" and "t \<in> T" and "u \<in> T" and sf: "same_file (fst t) (fst u)"
  shows "wanted res (fst t) = wanted res (fst u) \<and> row_meta (fst t) = row_meta (fst u)"
proof -
  have "rr_digest (fst t) = rr_digest (fst u) \<and> rr_contents (fst t) = rr_contents (fst u) \<and> rr_size (fst t) = rr_size (fst u)
      \<and> row_meta (fst t) = row_meta (fst u)"
    using assms unfolding us_tasks_def by blast
  then show ?thesis
    by (simp add: wanted_def inlined_def)
qed

text \<open>A name that is given to the task's entry leaves the other names alone.\<close>

lemma other_path:
  assumes "us_tasks (P \<union> F)" and "P \<inter> F = {}" and "t \<in> P" and "u \<in> P - {t} \<or> u \<in> F"
  shows "rr_path (fst u) \<noteq> rr_path (fst t)"
  using assms inj_onD [of "rr_path \<circ> fst" "P \<union> F" u t] by (auto simp: us_tasks_def)

lemma us_step_names:
  assumes core: "us_core res P F s" and T: "us_tasks (P \<union> F)" and disj: "P \<inter> F = {}" and t: "t \<in> P"
    and names: "us_names s' = (us_names s)(rr_path (fst t) \<mapsto> i)"
    and old: "\<And>u. u \<in> F \<Longrightarrow> written res s' (fst u)" and new: "written res s' (fst t)"
    and shared: "\<And>u. u \<in> F \<Longrightarrow> (us_names s (rr_path (fst u)) = Some i) = same_file (fst t) (fst u)"
  shows "us_names_ok res (P - {t}) (insert t F) s'"
proof -
  have other: "us_names s' (rr_path (fst u)) = us_names s (rr_path (fst u))" if "u \<in> P - {t} \<or> u \<in> F" for u
    using other_path [OF T disj t that] by (simp add: names)
  have own: "us_names s' (rr_path (fst t)) = Some i"
    by (simp add: names)
  have sym: "same_file a b = same_file b a" for a b
    by (auto simp: same_file_def)
  have "(us_names s' (rr_path (fst u)) = us_names s' (rr_path (fst v))) = same_file (fst u) (fst v)"
    if "u \<in> insert t F" "v \<in> insert t F" "u \<noteq> v" for u v
  proof (cases "u = t")
    case True
    with that have "v \<in> F"
      by simp
    then show ?thesis
      using True own other [of v] shared [of v] by auto
  next
    case u: False
    then have "u \<in> F"
      using that by simp
    then show ?thesis
      using own other [of u] other [of v] shared [of u] that us_coreE(3) [OF core, of u v] sym [of "fst t" "fst u"]
      by (cases "v = t") auto
  qed
  then show ?thesis
    using us_coreE(1) [OF core] other old new by (auto simp: us_names_ok_def)
qed

lemma us_step_groups:
  assumes core: "us_core res P F s" and h: "heads_group (fst t) s s'"
  shows "us_groups_ok (insert t F) s'"
proof -
  have g: "\<exists>u \<in> insert t F. is_linked (fst u) \<and> rr_inode_id (fst u) = x \<and> rr_path (fst u) = p" if "us_group s' x = Some p" for x p
    using h that us_coreE(7) [OF core, of x p] by (auto simp: heads_group_def split: if_splits)
  have f: "us_group s' (rr_inode_id (fst u)) \<noteq> None" if "u \<in> insert t F" "is_linked (fst u)" for u
    using h that us_coreE(8) [OF core, of u] by (auto simp: heads_group_def split: if_splits)
  show ?thesis
    using g f by (simp add: us_groups_ok_def)
qed

text \<open>A new head has a file that no other entry of its group has.\<close>

lemma new_head_alone:
  assumes core: "us_core res P F s" and h: "heads_group (fst t) s s'" and u: "u \<in> F"
  shows "\<not> same_file (fst t) (fst u)"
  using us_coreE(8) [OF core u] h by (auto simp: same_file_def heads_group_def split: if_splits)

lemma first_of_less: "first_of d (P - {t}) \<Longrightarrow> first_of d P"
  by (auto simp: first_of_def)

lemma links_head_core:
  assumes core: "us_core res P F s" and T: "us_tasks (P \<union> F)" and disj: "P \<inter> F = {}" and t: "t \<in> P"
    and eff: "links_head (fst t) s s'" and rs: "us_rs s' = us_rs s"
  shows "us_core res (P - {t}) (insert t F) s'"
proof -
  obtain h i where l: "is_linked (fst t)" and h: "us_group s (rr_inode_id (fst t)) = Some h" "us_names s h = Some i"
    and eq: "us_names s' = (us_names s)(rr_path (fst t) \<mapsto> i)" "us_inodes s' = us_inodes s" "us_next s' = us_next s"
      "us_group s' = us_group s"
    using eff by (auto simp: links_head_def)
  obtain v where v: "v \<in> F" "is_linked (fst v)" "rr_inode_id (fst v) = rr_inode_id (fst t)" "rr_path (fst v) = h"
    using us_coreE(7) [OF core h(1)] by auto
  have tv: "same_file (fst t) (fst v)"
    using v l by (simp add: same_file_def)
  have same: "wanted res (fst t) = wanted res (fst v) \<and> row_meta (fst t) = row_meta (fst v)"
    using tasks_agree [OF T _ _ tv] t v(1) by simp
  have vt: "rr_path (fst u) \<noteq> rr_path (fst t)" if "u \<in> F" for u
    using other_path [OF T disj t] that by simp
  have old: "written res s' (fst u)" if "u \<in> F" for u
    using us_coreE(2) [OF core that] vt [OF that] by (simp add: written_def eq)
  have new: "written res s' (fst t)"
    using us_coreE(2) [OF core v(1)] same h(2) v(4) by (auto simp: written_def eq)
  have shared: "(us_names s (rr_path (fst u)) = Some i) = same_file (fst t) (fst u)" if "u \<in> F" for u
    using us_coreE(3) [OF core that v(1)] tv h(2) v(4) by (cases "u = v") (auto simp: same_file_def)
  have "us_names_ok res (P - {t}) (insert t F) s'"
    by (rule us_step_names [OF core T disj t eq(1) old new shared])
  moreover have "us_resources_ok res (P - {t}) (insert t F) s'"
  proof -
    have "\<exists>nd. us_inodes s' j = Some nd \<and> in_content nd = res d
          \<and> (first_of d (P - {t}) \<longrightarrow> snd (snd (snd (in_meta nd))) = [] \<and> (\<forall>u \<in> insert t F. us_names s' (rr_path (fst u)) \<noteq> Some j))"
      if r: "us_rs s' d = Some j" for d j
    proof -
      obtain nd where nd: "us_inodes s j = Some nd" "in_content nd = res d"
        "first_of d P \<longrightarrow> snd (snd (snd (in_meta nd))) = [] \<and> (\<forall>u \<in> F. us_names s (rr_path (fst u)) \<noteq> Some j)"
        using us_coreE(6) [OF core, of d j] r rs by auto
      then show ?thesis
        using first_of_less [of d P t] v h(2) vt by (auto simp: eq)
    qed
    then show ?thesis
      using us_coreE(4) [OF core] us_coreE(5) [OF core] by (auto simp: us_resources_ok_def eq rs)
  qed
  moreover have "us_groups_ok (insert t F) s'"
    using us_coreE(7,8) [OF core] h(1) by (auto simp: us_groups_ok_def eq)
  ultimately show ?thesis
    by (simp add: us_core_def)
qed

lemma makes_file_core:
  assumes core: "us_core res P F s" and T: "us_tasks (P \<union> F)" and disj: "P \<inter> F = {}" and t: "t \<in> P"
    and eff: "makes_file (fst t) s s'" and rs: "us_rs s' = us_rs s"
  shows "us_core res (P - {t}) (insert t F) s'"
proof -
  let ?n = "us_next s"
  obtain c where hg: "heads_group (fst t) s s'" and eq: "us_names s' = (us_names s)(rr_path (fst t) \<mapsto> ?n)"
      "us_inodes s' = (us_inodes s)(?n \<mapsto> \<lparr> in_content = c, in_meta = row_meta (fst t) \<rparr>)" "us_next s' = Suc ?n"
    and c: "if inlined (fst t) then c = rr_contents (fst t)
        else \<exists>i nd. us_rs s (rr_digest (fst t)) = Some i \<and> us_inodes s i = Some nd \<and> c = in_content nd"
    using eff by (auto simp: makes_file_def)
  have want: "c = wanted res (fst t)"
    using c us_coreE(6) [OF core] by (fastforce simp: wanted_def split: if_splits)
  have vt: "rr_path (fst u) \<noteq> rr_path (fst t)" if "u \<in> F" for u
    using other_path [OF T disj t] that by simp
  have fresh: "us_inodes s ?n = None"
    using us_coreE(4) [OF core, of ?n] by (cases "us_inodes s ?n") auto
  have unused: "us_names s (rr_path (fst u)) \<noteq> Some ?n" if "u \<in> F" for u
    using us_coreE(2) [OF core that] fresh by (auto simp: written_def)
  have old: "written res s' (fst u)" if "u \<in> F" for u
    using us_coreE(2) [OF core that] vt [OF that] unused [OF that] by (auto simp: written_def eq)
  have new: "written res s' (fst t)"
    by (simp add: written_def eq want)
  have shared: "(us_names s (rr_path (fst u)) = Some ?n) = same_file (fst t) (fst u)" if "u \<in> F" for u
    using unused [OF that] new_head_alone [OF core hg that] by simp
  have "us_names_ok res (P - {t}) (insert t F) s'"
    by (rule us_step_names [OF core T disj t eq(1) old new shared])
  moreover have "us_resources_ok res (P - {t}) (insert t F) s'"
  proof -
    have "\<exists>nd. us_inodes s' j = Some nd \<and> in_content nd = res d
          \<and> (first_of d (P - {t}) \<longrightarrow> snd (snd (snd (in_meta nd))) = [] \<and> (\<forall>u \<in> insert t F. us_names s' (rr_path (fst u)) \<noteq> Some j))"
      if r: "us_rs s' d = Some j" for d j
    proof -
      obtain nd where nd: "us_inodes s j = Some nd" "in_content nd = res d"
        "first_of d P \<longrightarrow> snd (snd (snd (in_meta nd))) = [] \<and> (\<forall>u \<in> F. us_names s (rr_path (fst u)) \<noteq> Some j)"
        using us_coreE(6) [OF core, of d j] r rs by auto
      moreover have "j \<noteq> ?n"
        using nd(1) fresh by auto
      ultimately show ?thesis
        using first_of_less [of d P t] vt by (auto simp: eq)
    qed
    then show ?thesis
      using us_coreE(4) [OF core] us_coreE(5) [OF core] by (fastforce simp: us_resources_ok_def eq rs dom_def)
  qed
  ultimately show ?thesis
    using us_step_groups [OF core hg] by (simp add: us_core_def)
qed

lemma links_resource_core:
  assumes core: "us_core res P F s" and T: "us_tasks (P \<union> F)" and disj: "P \<inter> F = {}" and t: "t \<in> P" and first: "snd t"
    and eff: "links_resource (fst t) s s'" and rs: "us_rs s' = us_rs s"
  shows "us_core res (P - {t}) (insert t F) s'"
proof -
  let ?d = "rr_digest (fst t)"
  obtain i nd where hg: "heads_group (fst t) s s'" and ni: "\<not> inlined (fst t)" and i: "us_rs s ?d = Some i" "us_inodes s i = Some nd"
    and eq: "us_names s' = (us_names s)(rr_path (fst t) \<mapsto> i)"
      "us_inodes s' = (us_inodes s)(i \<mapsto> nd\<lparr>in_meta := (rr_mode (fst t), rr_uid (fst t), rr_gid (fst t),
         if rr_xattrs (fst t) = [] then snd (snd (snd (in_meta nd))) else rr_xattrs (fst t))\<rparr>)" "us_next s' = us_next s"
    using eff by (auto simp: links_resource_def)
  have fp: "first_of ?d P"
    using t first by (auto simp: first_of_def)
  have nd: "in_content nd = res ?d" "snd (snd (snd (in_meta nd))) = []"
    and unused: "\<And>u. u \<in> F \<Longrightarrow> us_names s (rr_path (fst u)) \<noteq> Some i"
    using us_coreE(6) [OF core i(1)] i(2) fp by auto
  have vt: "rr_path (fst u) \<noteq> rr_path (fst t)" if "u \<in> F" for u
    using other_path [OF T disj t] that by simp
  have last: "\<not> first_of ?d (P - {t})"
    using T t first by (auto simp: first_of_def us_tasks_def)
  have old: "written res s' (fst u)" if "u \<in> F" for u
    using us_coreE(2) [OF core that] vt [OF that] unused [OF that] by (auto simp: written_def eq)
  have new: "written res s' (fst t)"
    using nd ni by (auto simp: written_def eq wanted_def row_meta_def)
  have shared: "(us_names s (rr_path (fst u)) = Some i) = same_file (fst t) (fst u)" if "u \<in> F" for u
    using unused [OF that] new_head_alone [OF core hg that] by simp
  have "us_names_ok res (P - {t}) (insert t F) s'"
    by (rule us_step_names [OF core T disj t eq(1) old new shared])
  moreover have "us_resources_ok res (P - {t}) (insert t F) s'"
  proof -
    have "\<exists>nd. us_inodes s' j = Some nd \<and> in_content nd = res d
          \<and> (first_of d (P - {t}) \<longrightarrow> snd (snd (snd (in_meta nd))) = [] \<and> (\<forall>u \<in> insert t F. us_names s' (rr_path (fst u)) \<noteq> Some j))"
      if r: "us_rs s' d = Some j" for d j
    proof (cases "d = ?d")
      case True
      then show ?thesis
        using r rs i nd last by (simp add: eq)
    next
      case False
      obtain nd' where nd': "us_inodes s j = Some nd'" "in_content nd' = res d"
        "first_of d P \<longrightarrow> snd (snd (snd (in_meta nd'))) = [] \<and> (\<forall>u \<in> F. us_names s (rr_path (fst u)) \<noteq> Some j)"
        using us_coreE(6) [OF core, of d j] r rs by auto
      moreover have "j \<noteq> i"
        using inj_onD [OF us_coreE(5) [OF core], of d ?d] False r rs i(1) by auto
      ultimately show ?thesis
        using first_of_less [of d P t] vt by (auto simp: eq)
    qed
    then show ?thesis
      using us_coreE(4) [OF core] us_coreE(5) [OF core] i(2) by (auto simp: us_resources_ok_def eq rs)
  qed
  ultimately show ?thesis
    using us_step_groups [OF core hg] by (simp add: us_core_def)
qed

definition us_inv :: "(string \<Rightarrow> string) \<Rightarrow> regular_row list \<Rightarrow> slot \<Rightarrow> bool" where
  "us_inv res rows s \<longleftrightarrow> us_pending s \<subseteq># mset (mark_first {} rows)
     \<and> (us_interrupted s \<or> us_core res (set_mset (us_pending s)) (set (mark_first {} rows) - set_mset (us_pending s)) s)"

lemma mark_first_rows [simp]: "map fst (mark_first seen rows) = rows"
  by (induction seen rows rule: mark_first.induct) simp_all

lemma mark_first_new: "t \<in> set (mark_first seen rows) \<Longrightarrow> snd t \<Longrightarrow> rr_digest (fst t) \<notin> seen"
  by (induction seen rows rule: mark_first.induct) auto

lemma mark_first_once:
  assumes "t \<in> set (mark_first seen rows)" and "u \<in> set (mark_first seen rows)" and "snd t" and "snd u"
    and "rr_digest (fst t) = rr_digest (fst u)"
  shows "t = u"
  using assms
proof (induction seen rows rule: mark_first.induct)
  case (2 seen e es)
  let ?rest = "set (mark_first (insert (rr_digest e) seen) es)"
  have n: "rr_digest (fst v) \<noteq> rr_digest e" if "v \<in> ?rest" "snd v" for v
    using mark_first_new [OF that] by simp
  have "t = (e, rr_digest e \<notin> seen) \<or> t \<in> ?rest" and "u = (e, rr_digest e \<notin> seen) \<or> u \<in> ?rest"
    using "2.prems"(1,2) by simp_all
  then consider "t = u" | "t \<in> ?rest" "u \<in> ?rest" | "t \<in> ?rest" "fst u = e" | "u \<in> ?rest" "fst t = e"
    by fastforce
  then show ?case
  proof cases
    case 2
    then show ?thesis
      using "2.IH" "2.prems"(3,4,5) by simp
  next
    case 3
    then show ?thesis
      using n [of t] "2.prems"(3,5) by simp
  next
    case 4
    then show ?thesis
      using n [of u] "2.prems"(4,5) by simp
  qed simp
qed simp

lemma mark_first_set: "t \<in> set (mark_first seen rows) \<Longrightarrow> fst t \<in> set rows"
  using mark_first_rows [of seen rows] by (metis imageI image_set)

lemma mark_first_tasks:
  assumes ft: "file_table rows"
  shows "us_tasks (set (mark_first {} rows))" and "distinct (mark_first {} rows)"
proof -
  have "distinct (map (rr_path \<circ> fst) (mark_first {} rows))"
    using ft by (simp add: file_table_def flip: map_map)
  then have d: "inj_on (rr_path \<circ> fst) (set (mark_first {} rows))" "distinct (mark_first {} rows)"
    by (simp_all add: distinct_map)
  then show "distinct (mark_first {} rows)"
    by simp
  show "us_tasks (set (mark_first {} rows))"
    unfolding us_tasks_def
  proof (intro conjI ballI impI)
    fix t u
    assume tu: "t \<in> set (mark_first {} rows)" "u \<in> set (mark_first {} rows)"
    show "t = u" if "snd t" "snd u" "rr_digest (fst t) = rr_digest (fst u)"
      by (rule mark_first_once [OF tu that])
    assume "same_file (fst t) (fst u)"
    then have "rr_digest (fst t) = rr_digest (fst u) \<and> rr_contents (fst t) = rr_contents (fst u)
        \<and> rr_size (fst t) = rr_size (fst u) \<and> row_meta (fst t) = row_meta (fst u)"
      using ft mark_first_set [OF tu(1)] mark_first_set [OF tu(2)] unfolding file_table_def by blast
    then show "rr_digest (fst t) = rr_digest (fst u)" "rr_contents (fst t) = rr_contents (fst u)"
        "rr_size (fst t) = rr_size (fst u)" "row_meta (fst t) = row_meta (fst u)"
      by simp_all
  qed (rule d(1))
qed

lemma us_init_inv:
  assumes "us_init res rows s"
  shows "us_inv res rows s"
proof -
  have "us_core res (set (mark_first {} rows)) {} s"
    using assms mark_first_set
    by (fastforce simp: us_init_def prepared_slot_def us_core_def us_names_ok_def us_resources_ok_def us_groups_ok_def)
  then show ?thesis
    using assms by (simp add: us_inv_def us_init_def)
qed

lemma us_core_frame:
  "us_core res P F (s\<lparr>us_pending := p\<rparr>) = us_core res P F s"
  by (simp add: us_core_def us_names_ok_def us_resources_ok_def us_groups_ok_def written_def)

lemma us_task_core:
  assumes core: "us_core res P F s" and T: "us_tasks (P \<union> F)" and disj: "P \<inter> F = {}" and t: "t \<in> P"
    and r: "process_file fails t s = (Some p, s')"
  shows "us_core res (P - {t}) (insert t F) s'"
proof -
  have rs: "us_rs s' = us_rs s"
    using frame_process_file [of s fails t] r by (simp add: same_frame_def)
  have "links_head (fst t) s s' \<or> makes_file (fst t) s s' \<or> (snd t \<and> links_resource (fst t) s s')"
    by (rule process_file_does [OF us_coreE(1) [OF core t] r])
  then show ?thesis
    using links_head_core [OF core T disj t _ rs] makes_file_core [OF core T disj t _ rs]
      links_resource_core [OF core T disj t _ _ rs] by auto
qed

lemma us_step_inv:
  assumes ft: "file_table rows" and inv: "us_inv res rows s" and step: "us_step fails s s'"
  shows "us_inv res rows s'"
  using step
proof cases
  case (us_task t)
  let ?ts = "mark_first {} rows"
  let ?P = "set_mset (us_pending s)"
  let ?s = "s\<lparr>us_pending := us_pending s - {#t#}\<rparr>"
  obtain r s1 where rs1: "process_file fails t ?s = (r, s1)"
    by fastforce
  have frame: "us_pending s1 = us_pending s - {#t#}" "us_interrupted s1 = us_interrupted s"
    using frame_process_file [of ?s fails t] rs1 by (simp_all add: same_frame_def)
  have sub: "us_pending s \<subseteq># mset ?ts"
    using inv by (simp add: us_inv_def)
  have sub': "us_pending s - {#t#} \<subseteq># mset ?ts"
    using sub by (meson diff_subset_eq_self subset_mset.trans)
  show ?thesis
  proof (cases r)
    case None
    then show ?thesis
      using us_task rs1 frame sub' by (simp add: us_inv_def task_done_def)
  next
    case (Some p)
    have "count (us_pending s) t \<le> 1"
      using mset_subset_eq_count [OF sub, of t] iffD1 [OF distinct_count_atmost_1 mark_first_tasks(2) [OF ft], THEN spec, of t]
      by (simp split: if_splits)
    then have "(v \<in># us_pending s - {#t#}) = (v \<in> ?P - {t})" for v
      by (cases "v = t") (simp_all add: in_diff_count)
    then have P': "set_mset (us_pending s - {#t#}) = ?P - {t}"
      by blast
    have sP: "?P \<subseteq> set ?ts"
      using sub set_mset_mono by fastforce
    then have T: "us_tasks (?P \<union> (set ?ts - ?P))"
      using mark_first_tasks(1) [OF ft] by (simp add: Un_absorb1)
    have F': "set ?ts - (?P - {t}) = insert t (set ?ts - ?P)"
      using us_task(2) sP by auto
    have "us_core res (?P - {t}) (insert t (set ?ts - ?P)) s1" if "\<not> us_interrupted s"
    proof (rule us_task_core [OF _ T _ us_task(2)])
      show "us_core res ?P (set ?ts - ?P) ?s"
        using inv that by (simp add: us_inv_def us_core_frame)
      show "process_file fails t ?s = (Some p, s1)"
        using rs1 Some by simp
    qed auto
    then show ?thesis
      using us_task(1) rs1 Some frame sub' F' P' by (auto simp: us_inv_def task_done_def)
  qed
next
  case (us_give_up p)
  then show ?thesis
    using inv by (auto simp: us_inv_def intro: subset_mset.trans)
qed

interpretation us: step_invariant "\<lambda>s. file_table rows \<and> us_init res rows s" "us_step fails" "\<lambda>s. file_table rows \<and> us_inv res rows s"
  by unfold_locales (auto intro: us_init_inv us_step_inv)

lemma us_finished_rows:
  assumes ft: "file_table rows" and inv: "us_inv res rows s" and ok: "update_slot_ok s"
  shows "e \<in> set rows \<Longrightarrow> written res s e"
    and "e \<in> set rows \<Longrightarrow> e' \<in> set rows \<Longrightarrow> e \<noteq> e' \<Longrightarrow> (us_names s (rr_path e) = us_names s (rr_path e')) = same_file e e'"
proof -
  let ?ts = "mark_first {} rows"
  have core: "us_core res {} (set ?ts) s"
    using inv ok by (auto simp: us_inv_def update_slot_ok_def)
  have task: "\<exists>b. (e, b) \<in> set ?ts" if "e \<in> set rows" for e
    using that mark_first_rows [of "{}" rows] by (metis imageE list.set_map prod.collapse)
  show "written res s e" if "e \<in> set rows"
    using task [OF that] us_coreE(2) [OF core] by fastforce
  show "(us_names s (rr_path e) = us_names s (rr_path e')) = same_file e e'" if "e \<in> set rows" "e' \<in> set rows" "e \<noteq> e'"
    using task [OF that(1)] task [OF that(2)] us_coreE(3) [OF core] that(3) by (metis fst_conv)
qed

section \<open>Directories and special files are applied in order\<close>

lemma process_entries_append:
  "process_entries f (es @ es') s = (case process_entries f es s of None \<Rightarrow> None | Some s' \<Rightarrow> process_entries f es' s')"
  by (induction es arbitrary: s) (simp_all split: option.split)

lemma process_dirs_result:
  assumes "process_entries (prepare_dir dm fails) dirs s = Some s'" and "distinct (map fst dirs)" and "(p, m) \<in> set dirs"
  shows "us_dirs s' p = Some m"
proof -
  obtain xs ys where dirs: "dirs = xs @ (p, m) # ys"
    using assms(3) by (meson split_list)
  have keep: "us_dirs s' p = us_dirs s1 p" if "process_entries (prepare_dir dm fails) ys s1 = Some s'" "us_dirs s1 p \<noteq> None"
      "p \<notin> fst ` set ys" for s1
    using that
  proof (induction ys arbitrary: s1)
    case (Cons y ys)
    obtain s2 where s2: "prepare_dir dm fails y s1 = Some s2" "process_entries (prepare_dir dm fails) ys s2 = Some s'"
      using Cons.prems(1) by (auto split: option.splits)
    have "us_dirs s2 p = us_dirs s1 p"
      using s2(1) Cons.prems(2,3) by (auto simp: prepare_dir_def split: if_splits)
    then show ?case
      using Cons.IH [OF s2(2)] Cons.prems(2,3) by simp
  qed simp
  obtain s0 s1 where "prepare_dir dm fails (p, m) s0 = Some s1" "process_entries (prepare_dir dm fails) ys s1 = Some s'"
    using assms(1) dirs by (auto simp: process_entries_append split: option.splits)
  moreover have "us_dirs s1 p = Some m"
    using calculation(1) by (auto simp: prepare_dir_def split: if_splits)
  ultimately show ?thesis
    using keep [of s1] assms(2) dirs by simp
qed

definition same_files :: "slot \<Rightarrow> slot \<Rightarrow> bool" where
  "same_files a b \<longleftrightarrow> us_names b = us_names a \<and> us_inodes b = us_inodes a \<and> us_next b = us_next a \<and> us_rs b = us_rs a"

lemma process_entries_files:
  assumes "process_entries f es a = Some b" and "\<And>e a b. f e a = Some b \<Longrightarrow> same_files a b"
  shows "same_files a b"
  using assms(1)
proof (induction es arbitrary: a)
  case (Cons e es)
  then obtain c where "f e a = Some c" "process_entries f es c = Some b"
    by (auto split: option.splits)
  then show ?case
    using Cons.IH [of c] assms(2) [of e a c] by (simp add: same_files_def)
qed (simp add: same_files_def)

lemma prepare_dir_files: "prepare_dir dm fails e a = Some b \<Longrightarrow> same_files a b"
  by (auto simp: prepare_dir_def same_files_def split: if_splits)

lemma prepare_non_regular_files: "prepare_non_regular fails e a = Some b \<Longrightarrow> same_files a b"
  by (auto simp: prepare_non_regular_def same_files_def split: if_splits option.splits non_regular.splits)

lemma update_slot_start_init:
  assumes r: "update_slot_start dm fails dirs others rows s = Some s'" and p: "prepared_slot res rows s"
  shows "us_init res rows s'"
proof -
  obtain s1 s2 where s: "process_entries (prepare_dir dm fails) dirs s = Some s1"
      "process_entries (prepare_non_regular fails) others s1 = Some s2"
      "s' = s2\<lparr>us_pending := mset (mark_first {} rows), us_group := Map.empty, us_interrupted := False\<rparr>"
    using r by (auto simp: update_slot_start_def split: option.splits)
  have "same_files s s1" "same_files s1 s2"
    using prepare_dir_files prepare_non_regular_files by (blast intro: process_entries_files [OF s(1)] process_entries_files [OF s(2)])+
  then show ?thesis
    using p by (simp add: us_init_def prepared_slot_def s(3) same_files_def)
qed

lemma us_step_dirs: "us_step fails s s' \<Longrightarrow> us_dirs s' = us_dirs s"
proof (induction rule: us_step.induct)
  case (us_task t s)
  then show ?case
    using frame_process_file [of "s\<lparr>us_pending := us_pending s - {#t#}\<rparr>" fails t]
    by (auto simp: task_done_def same_frame_def split: prod.split option.split)
qed simp

lemma us_steps_dirs: "(us_step fails)\<^sup>*\<^sup>* s s' \<Longrightarrow> us_dirs s' = us_dirs s"
  by (induction rule: rtranclp_induct) (simp_all add: us_step_dirs)

lemma start_dirs:
  assumes r: "update_slot_start dm fails dirs others rows s = Some s'" and "distinct (map fst dirs)" and "(p, m) \<in> set dirs"
  shows "us_dirs s' p = Some m"
proof -
  obtain s1 s2 where s: "process_entries (prepare_dir dm fails) dirs s = Some s1"
      "process_entries (prepare_non_regular fails) others s1 = Some s2" "us_dirs s' = us_dirs s2"
    using r by (auto simp: update_slot_start_def split: option.splits)
  have "us_dirs s2 = us_dirs s1"
    using s(2)
  proof (induction others arbitrary: s1)
    case (Cons e es)
    then show ?case
      by (auto simp: prepare_non_regular_def split: option.splits if_splits non_regular.splits)
  qed simp
  then show ?thesis
    using process_dirs_result [OF s(1) assms(2,3)] s(3) by simp
qed


section \<open>The pool finishes\<close>

text \<open>No operation of the kernel fails, and every resource that is needed is in the resource directory.\<close>

definition resources_complete :: "(regular_row \<Rightarrow> bool) \<Rightarrow> regular_row list \<Rightarrow> slot \<Rightarrow> bool" where
  "resources_complete fails rows s \<longleftrightarrow> (\<forall>e \<in> set rows. \<not> fails e \<and> (inlined e \<or> us_rs s (rr_digest e) \<noteq> None))"

lemma hardlink_succeeds:
  assumes "us_names s (rr_path e) = None" and "\<not> fails e" and "rs = Some i" and "us_inodes s i \<noteq> None"
  shows "fst (prepare_regular_hardlink fails e rs b s) \<noteq> None"
  using assms by (auto simp: prepare_regular_hardlink_def)

lemma inlined_succeeds: "\<not> fails e \<Longrightarrow> inlined e \<Longrightarrow> fst (prepare_regular_inlined fails e s) \<noteq> None"
  by (auto simp: prepare_regular_inlined_def inlined_def put_file_def Let_def)

lemma copy_succeeds: "\<not> fails e \<Longrightarrow> rs = Some i \<Longrightarrow> us_inodes s i \<noteq> None \<Longrightarrow> fst (prepare_regular_copy fails e rs s) \<noteq> None"
  by (auto simp: prepare_regular_copy_def put_file_def Let_def)

lemma fst_set_head [simp]: "fst (set_head g r) = fst r"
  by (simp add: set_head_def split: prod.split option.split)

lemma fst_then_report [simp]: "fst (then_report b n r) = fst r"
  by (simp add: then_report_def split: prod.split option.split)

lemma task_succeeds:
  assumes core: "us_core res P F s" and t: "t \<in> P" and ok: "\<not> fails (fst t)"
    and rs: "inlined (fst t) \<or> us_rs s (rr_digest (fst t)) \<noteq> None"
  shows "fst (process_file fails t s) \<noteq> None"
proof -
  have free: "us_names s (rr_path (fst t)) = None"
    by (rule us_coreE(1) [OF core t])
  have r: "\<exists>i. us_rs s (rr_digest (fst t)) = Some i \<and> us_inodes s i \<noteq> None" if "\<not> inlined (fst t)"
    using rs that us_coreE(6) [OF core, of "rr_digest (fst t)"] by fastforce
  have h: "\<exists>i. us_names s h = Some i \<and> us_inodes s i \<noteq> None" if "us_group s g = Some h" for g h
    using us_coreE(7) [OF core that] us_coreE(2) [OF core] by (force simp: written_def)
  have normal: "fst (process_normal_file fails (fst t) b s) \<noteq> None" for b
    using r ok free hardlink_succeeds [of s "fst t" fails] inlined_succeeds [of fails "fst t" s] copy_succeeds [of fails "fst t" _ _ s]
    by (auto simp: process_normal_file_def)
  have linked: "fst (process_hardlinked_file fails (fst t) b s) \<noteq> None" for b
  proof (cases "us_group s (rr_inode_id (fst t))")
    case None
    then show ?thesis
      using r ok free hardlink_succeeds [of s "fst t" fails] inlined_succeeds [of fails "fst t" s] copy_succeeds [of fails "fst t" _ _ s]
      by (auto simp: process_hardlinked_file_def)
  next
    case (Some x)
    then obtain i where "us_names s x = Some i" "us_inodes s i \<noteq> None"
      using h by blast
    then show ?thesis
      using Some hardlink_succeeds [of s "fst t" fails, OF free ok] by (simp add: process_hardlinked_file_def)
  qed
  show ?thesis
    using normal linked by (simp add: process_file_def)
qed

definition us_running :: "(regular_row \<Rightarrow> bool) \<Rightarrow> (string \<Rightarrow> string) \<Rightarrow> regular_row list \<Rightarrow> slot \<Rightarrow> bool" where
  "us_running fails res rows s \<longleftrightarrow> file_table rows \<and> us_inv res rows s \<and> resources_complete fails rows s \<and> \<not> us_interrupted s"

lemma us_running_step:
  assumes run: "us_running fails res rows s" and step: "us_step fails s s'"
  shows "us_running fails res rows s' \<and> size (us_pending s') < size (us_pending s)"
  using step
proof cases
  case (us_task t)
  let ?s = "s\<lparr>us_pending := us_pending s - {#t#}\<rparr>"
  let ?P = "set_mset (us_pending s)"
  have core: "us_core res ?P (set (mark_first {} rows) - ?P) ?s"
    using run by (auto simp: us_running_def us_inv_def us_core_frame)
  have "set_mset (us_pending s) \<subseteq> set (mark_first {} rows)"
    using run set_mset_mono [of "us_pending s" "mset (mark_first {} rows)"] by (simp add: us_running_def us_inv_def)
  then have "fst t \<in> set rows"
    using us_task(2) mark_first_set by blast
  then have "\<not> fails (fst t)" and "inlined (fst t) \<or> us_rs ?s (rr_digest (fst t)) \<noteq> None"
    using run by (auto simp: us_running_def resources_complete_def)
  then have "fst (process_file fails t ?s) \<noteq> None"
    using task_succeeds [OF core us_task(2)] by simp
  then obtain p s1 where s1: "process_file fails t ?s = (Some p, s1)"
    by (cases "process_file fails t ?s") auto
  have "us_rs s1 = us_rs s" "us_pending s1 = us_pending s - {#t#}" "us_interrupted s1 = us_interrupted s"
    using frame_process_file [of ?s fails t] s1 by (simp_all add: same_frame_def)
  moreover have "s' = s1"
    using us_task(1) s1 by (simp add: task_done_def)
  moreover have "size (us_pending s - {#t#}) < size (us_pending s)"
    using us_task(2) by (rule size_Diff1_less)
  ultimately show ?thesis
    using run us_step_inv [OF _ _ step, of rows res] by (simp add: us_running_def resources_complete_def)
next
  case us_give_up
  then show ?thesis
    using run by (simp add: us_running_def)
qed

interpretation usr: step_invariant "us_running fails res rows" "us_step fails" "us_running fails res rows"
  by unfold_locales (auto dest: us_running_step)

text \<open>
  C16: When the kernel refuses nothing and the resource directory has every resource the table needs, the slot update succeeds in
  every order of the workers: no task fails, every step is one task done, and as long as tasks are left one of them can be taken,
  so that the pool ends with all entries written after as many steps as there are entries.
\<close>

theorem slot_update_completes:
  assumes ft: "file_table rows" and init: "us_init res rows s0" and rs: "resources_complete fails rows s0"
    and steps: "(us_step fails)\<^sup>*\<^sup>* s0 s"
  shows "\<not> us_interrupted s \<and> (\<forall>s'. us_step fails s s' \<longrightarrow> size (us_pending s') < size (us_pending s))
    \<and> (update_slot_ok s \<or> (\<exists>s'. us_step fails s s'))"
proof -
  have "us_running fails res rows s0"
    using ft init rs us_init_inv [OF init] by (simp add: us_running_def us_init_def)
  then have run: "us_running fails res rows s"
    by (rule usr.inv_steps [OF steps])
  moreover have "update_slot_ok s \<or> (\<exists>s'. us_step fails s s')"
  proof (cases "us_pending s = {#}")
    case True
    then show ?thesis
      using run by (simp add: update_slot_ok_def us_running_def)
  next
    case False
    then obtain t where "t \<in># us_pending s"
      by (rule multiset_nonemptyE)
    then show ?thesis
      using us_task [of t s fails] by blast
  qed
  ultimately show ?thesis
    using us_running_step [OF run] by (simp add: us_running_def)
qed

text \<open>The tasks taken in a given order.\<close>

fun us_run :: "(regular_row \<Rightarrow> bool) \<Rightarrow> (regular_row \<times> bool) list \<Rightarrow> slot \<Rightarrow> slot" where
  "us_run fails [] s = s"
| "us_run fails (t # ts) s = (if t \<in># us_pending s
     then us_run fails ts (task_done (process_file fails t (s\<lparr>us_pending := us_pending s - {#t#}\<rparr>))) else s)"

lemma us_run_steps: "(us_step fails)\<^sup>*\<^sup>* s (us_run fails ts s)"
  by (induction fails ts s rule: us_run.induct) (auto intro: converse_rtranclp_into_rtranclp us_task)

definition wit_row :: "string \<Rightarrow> string \<Rightarrow> nat option \<Rightarrow> regular_row" where
  "wit_row p c l = \<lparr> rr_path = [p], rr_digest = ''d1'', rr_size = 5, rr_contents = c, rr_inode_id = 7, rr_links_count = l,
     rr_mode = 420, rr_uid = 1, rr_gid = 1, rr_xattrs = [] \<rparr>"

definition wit_rows :: "regular_row list" where
  "wit_rows = [wit_row ''a'' [] (Some 2), wit_row ''b'' [] (Some 2), wit_row ''c'' [] None, wit_row ''d'' ''hello'' (Some 1)]"

definition wit_slot :: slot where
  "wit_slot = \<lparr> us_names = Map.empty, us_inodes = [0 \<mapsto> \<lparr> in_content = ''hello'', in_meta = (384, 0, 0, []) \<rparr>], us_next = 1,
     us_rs = [''d1'' \<mapsto> 0], us_dirs = Map.empty, us_special = Map.empty, us_group = Map.empty,
     us_pending = mset (mark_first {} wit_rows), us_interrupted = False, us_reported = [] \<rparr>"

definition wit_order :: "(regular_row \<times> bool) list" where
  "wit_order = [(wit_row ''c'' [] None, False), (wit_row ''b'' [] (Some 2), False), (wit_row ''d'' ''hello'' (Some 1), False),
     (wit_row ''a'' [] (Some 2), True)]"

lemma wit_file_table: "file_table wit_rows"
  by (simp add: file_table_def wit_rows_def wit_row_def same_file_def is_linked_def row_meta_def)

lemma wit_us_init: "us_init (\<lambda>_. ''hello'') wit_rows wit_slot"
  by (simp add: us_init_def prepared_slot_def wit_slot_def)

definition wit_started :: slot where
  "wit_started = wit_slot\<lparr>us_dirs := (\<lambda>q. if q = [''etc''] then Some (493, 0, 0, []) else if q = [] then Some (448, 0, 0, []) else None)\<rparr>"

lemma wit_start:
  "update_slot_start (448, 0, 0, []) (\<lambda>_. False) [([''etc''], (493, 0, 0, []))] [] wit_rows wit_slot = Some wit_started"
  by (auto simp: update_slot_start_def prepare_dir_def wit_started_def wit_slot_def fun_eq_iff take_Cons' split: if_splits)


theorem slot_update_completes_witness:
  "\<not> us_interrupted (us_run (\<lambda>_. False) [(wit_row ''c'' [] None, False)] wit_slot)"
proof -
  have "resources_complete (\<lambda>_. False) wit_rows wit_slot"
    by (simp add: resources_complete_def wit_rows_def wit_row_def wit_slot_def)
  then show ?thesis
    using slot_update_completes [OF wit_file_table wit_us_init _ us_run_steps] by blast
qed

text \<open>
  A resource that is linked keeps the extended attributes it had when the row has none: \<^verbatim>\<open>os.setxattr\<close> only adds. The in-place
  update moves files of the old image into the resource directory as they are.
\<close>

lemma resource_xattrs_survive:
  assumes "us_rs s (rr_digest e) = Some i" and "us_inodes s i = Some nd" and "rr_xattrs e = []" and "\<not> inlined e"
    and "us_names s (rr_path e) = None" and "\<not> fails e" and "\<not> is_linked e"
  shows "\<exists>s'. process_file fails (e, True) s = (Some (rr_path e), s')
    \<and> us_inodes s' i = Some (nd\<lparr>in_meta := (rr_mode e, rr_uid e, rr_gid e, snd (snd (snd (in_meta nd))))\<rparr>)"
  using assms by (simp add: process_file_def process_normal_file_def prepare_regular_hardlink_def)

end
