(* ===== verification/Resume_OTA.thy ===== *)
theory Resume_OTA
  imports Prelude "HOL-Library.Multiset"
begin

text \<open>
  Re-using the resources that an interrupted update left behind (\<^verbatim>\<open>otaclient/create_standby/resume_ota.py\<close>): the scanner checks the
  files of the resource folder, the streamer copies those of the other slot and checks them on the way. What is found is taken out of
  the list of resources that are still needed.

  A digest stands for its hex string in lower case. The loop over the folder and the tasks of the pool are the steps of one relation.
  A task only touches the file it is for, its own temporary file and, by one operation of a dictionary, the list, and is one step.
  The hash function, what the kernel refuses and the names of temporary files are parameters.
\<close>

section \<open>Names\<close>

text \<open>\<^verbatim>\<open>bytes.fromhex\<close>: pairs of hex digits of either case, with blanks between them.\<close>

definition lower_hex :: "char \<Rightarrow> char option" where
  "lower_hex c = (if c \<in> set ''0123456789abcdef'' then Some c
     else if c = CHR ''A'' then Some (CHR ''a'') else if c = CHR ''B'' then Some (CHR ''b'') else if c = CHR ''C'' then Some (CHR ''c'')
     else if c = CHR ''D'' then Some (CHR ''d'') else if c = CHR ''E'' then Some (CHR ''e'') else if c = CHR ''F'' then Some (CHR ''f'')
     else None)"

definition ascii_space :: "char \<Rightarrow> bool" where
  "ascii_space c \<longleftrightarrow> (of_char c :: nat) \<in> {9, 10, 11, 12, 13, 32}"

fun fromhex :: "string \<Rightarrow> string option" where
  "fromhex [] = Some []"
| "fromhex (a # cs) =
     (if ascii_space a then fromhex cs
      else case cs of
        [] \<Rightarrow> None
      | b # ds \<Rightarrow> (case (lower_hex a, lower_hex b) of
            (Some x, Some y) \<Rightarrow> map_option (\<lambda>r. x # y # r) (fromhex ds)
          | _ \<Rightarrow> None))"

definition EMPTY_FILE_SHA256 :: string where
  "EMPTY_FILE_SHA256 = ''e3b0c44298fc1c149afbf4c8996fb92427ae41e4649b934ca495991b7852b855''"

text \<open>A digest in lower case is read as itself.\<close>

lemma lower_hex_lower: "c \<in> set ''0123456789abcdef'' \<Longrightarrow> lower_hex c = Some c \<and> \<not> ascii_space c"
  by (auto simp: lower_hex_def ascii_space_def)

lemma fromhex_digest: "set d \<subseteq> set ''0123456789abcdef'' \<Longrightarrow> even (length d) \<Longrightarrow> fromhex d = Some d"
proof (induction d rule: fromhex.induct)
  case (2 a cs)
  obtain b ds where cs: "cs = b # ds"
    using "2.prems"(2) by (cases cs) auto
  have "lower_hex a = Some a" "\<not> ascii_space a" "lower_hex b = Some b"
    using lower_hex_lower "2.prems"(1) cs by auto
  then show ?case
    using "2.IH"(2) "2.prems" cs by simp
qed simp

section \<open>The scanner\<close>

record rs_env =
  rs_sha :: "string \<Rightarrow> string"
  rs_read_fails :: "string \<Rightarrow> bool"
  rs_unlink_fails :: "string \<Rightarrow> bool"
  rs_write_fails :: "string \<Rightarrow> nat option"     \<comment> \<open>the bytes written before the failure\<close>
  rs_replace_fails :: "string \<Rightarrow> bool"

record scan =
  sc_files :: "string \<rightharpoonup> string"                \<comment> \<open>the resource folder\<close>
  sc_needed :: "string set"
  sc_todo :: "string list"                      \<comment> \<open>the entries \<^verbatim>\<open>os.scandir\<close> still has\<close>
  sc_tasks :: "(string \<times> string) multiset"      \<comment> \<open>expected digest and name\<close>
  sc_reported :: "nat list"

definition remove_entry :: "rs_env \<Rightarrow> string \<Rightarrow> (string \<rightharpoonup> string) \<Rightarrow> (string \<rightharpoonup> string)" where
  "remove_entry env nm fs = (if rs_unlink_fails env nm then fs else fs(nm := None))"

definition scan_entry :: "rs_env \<Rightarrow> string \<Rightarrow> scan \<Rightarrow> scan" where
  "scan_entry env nm s =
     (if nm = EMPTY_FILE_SHA256 then s
      else case fromhex nm of
        None \<Rightarrow> s\<lparr>sc_files := remove_entry env nm (sc_files s)\<rparr>
      | Some d \<Rightarrow> if d \<notin> sc_needed s then s\<lparr>sc_files := remove_entry env nm (sc_files s)\<rparr>
          else s\<lparr>sc_tasks := add_mset (d, nm) (sc_tasks s)\<rparr>)"

text \<open>An exception of a task stays in its future, which nobody asks.\<close>

definition scan_task :: "rs_env \<Rightarrow> string \<Rightarrow> string \<Rightarrow> scan \<Rightarrow> scan" where
  "scan_task env expected nm s = (case sc_files s nm of
     None \<Rightarrow> s
   | Some c \<Rightarrow>
       if rs_read_fails env nm then s
       else if rs_sha env c \<noteq> expected then s\<lparr>sc_files := remove_entry env nm (sc_files s)\<rparr>
       else if rs_sha env c \<in> sc_needed s
         then s\<lparr>sc_needed := sc_needed s - {rs_sha env c}, sc_reported := sc_reported s @ [length c]\<rparr>
         else s)"

inductive scan_step :: "rs_env \<Rightarrow> scan \<Rightarrow> scan \<Rightarrow> bool" for env where
  sc_next: "sc_todo s = nm # nms \<Longrightarrow> scan_step env s (scan_entry env nm (s\<lparr>sc_todo := nms\<rparr>))"
| sc_run: "(d, nm) \<in># sc_tasks s \<Longrightarrow> scan_step env s (scan_task env d nm (s\<lparr>sc_tasks := sc_tasks s - {#(d, nm)#}\<rparr>))"

definition scan_init :: "string set \<Rightarrow> scan \<Rightarrow> bool" where
  "scan_init needed s \<longleftrightarrow> sc_needed s = needed \<and> distinct (sc_todo s) \<and> set (sc_todo s) = dom (sc_files s) \<and> sc_tasks s = {#}"

text \<open>A file that is a resource of the image, with the content its name promises.\<close>

definition resource_file :: "rs_env \<Rightarrow> (string \<rightharpoonup> string) \<Rightarrow> string \<Rightarrow> string \<Rightarrow> bool" where
  "resource_file env fs nm d \<longleftrightarrow> fromhex nm = Some d \<and> (\<exists>c. fs nm = Some c \<and> rs_sha env c = d)"

text \<open>Nothing the kernel refuses for a name.\<close>

definition no_fault :: "rs_env \<Rightarrow> string \<Rightarrow> bool" where
  "no_fault env nm \<longleftrightarrow> \<not> rs_read_fails env nm \<and> \<not> rs_unlink_fails env nm"

definition scan_inv :: "rs_env \<Rightarrow> string set \<Rightarrow> scan \<Rightarrow> bool" where
  "scan_inv env needed s \<longleftrightarrow> sc_needed s \<subseteq> needed
     \<and> (\<forall>d \<in> needed - sc_needed s. \<exists>nm. resource_file env (sc_files s) nm d \<and> nm \<notin> set (sc_todo s) \<and> nm \<notin> snd ` set_mset (sc_tasks s))
     \<and> (\<forall>(d, nm) \<in> set_mset (sc_tasks s). fromhex nm = Some d \<and> d \<in> needed \<and> nm \<notin> set (sc_todo s))
     \<and> (\<forall>d nm. count (sc_tasks s) (d, nm) \<le> 1) \<and> distinct (sc_todo s)
     \<and> (\<forall>nm \<in> dom (sc_files s). nm \<in> set (sc_todo s) \<or> nm \<in> snd ` set_mset (sc_tasks s) \<or> nm = EMPTY_FILE_SHA256
          \<or> \<not> no_fault env nm \<or> (\<exists>d. resource_file env (sc_files s) nm d \<and> d \<in> needed - sc_needed s))"

lemma remove_entry_other [simp]: "x \<noteq> nm \<Longrightarrow> remove_entry env nm fs x = fs x"
  by (simp add: remove_entry_def)

lemma remove_entry_own: "remove_entry env nm fs nm \<noteq> None \<Longrightarrow> rs_unlink_fails env nm"
  by (auto simp: remove_entry_def split: if_splits)

lemma resource_file_remove: "x \<noteq> nm \<Longrightarrow> resource_file env (remove_entry env nm fs) x d = resource_file env fs x d"
  by (simp add: resource_file_def)

lemma scan_invD:
  assumes "scan_inv env needed s"
  shows "sc_needed s \<subseteq> needed"
    and "d \<in> needed \<Longrightarrow> d \<notin> sc_needed s
      \<Longrightarrow> \<exists>nm. resource_file env (sc_files s) nm d \<and> nm \<notin> set (sc_todo s) \<and> nm \<notin> snd ` set_mset (sc_tasks s)"
    and "(d, nm) \<in># sc_tasks s \<Longrightarrow> fromhex nm = Some d \<and> d \<in> needed \<and> nm \<notin> set (sc_todo s)"
    and "count (sc_tasks s) (d, nm) \<le> 1" and "distinct (sc_todo s)"
    and "sc_files s nm \<noteq> None \<Longrightarrow> nm \<in> set (sc_todo s) \<or> nm \<in> snd ` set_mset (sc_tasks s) \<or> nm = EMPTY_FILE_SHA256
          \<or> \<not> no_fault env nm \<or> (\<exists>d. resource_file env (sc_files s) nm d \<and> d \<in> needed - sc_needed s)"
  using assms unfolding scan_inv_def by (simp_all add: case_prod_unfold dom_def Ball_def)

lemma scan_invI:
  assumes "sc_needed s \<subseteq> needed"
    and "\<And>d. d \<in> needed \<Longrightarrow> d \<notin> sc_needed s
      \<Longrightarrow> \<exists>nm. resource_file env (sc_files s) nm d \<and> nm \<notin> set (sc_todo s) \<and> nm \<notin> snd ` set_mset (sc_tasks s)"
    and "\<And>d nm. (d, nm) \<in># sc_tasks s \<Longrightarrow> fromhex nm = Some d \<and> d \<in> needed \<and> nm \<notin> set (sc_todo s)"
    and "\<And>d nm. count (sc_tasks s) (d, nm) \<le> 1" and "distinct (sc_todo s)"
    and "\<And>nm. sc_files s nm \<noteq> None \<Longrightarrow> nm \<in> set (sc_todo s) \<or> nm \<in> snd ` set_mset (sc_tasks s) \<or> nm = EMPTY_FILE_SHA256
          \<or> \<not> no_fault env nm \<or> (\<exists>d. resource_file env (sc_files s) nm d \<and> d \<in> needed - sc_needed s)"
  shows "scan_inv env needed s"
  using assms unfolding scan_inv_def by (auto simp: dom_def)

text \<open>A name that is no longer to be looked at, and a file of which is dropped or kept.\<close>

lemma scan_drop_inv:
  assumes inv: "scan_inv env needed s" and todo: "distinct nms" "set nms \<subseteq> set (sc_todo s)" "nm \<notin> set nms"
    and tasks: "T \<subseteq># sc_tasks s" "nm \<notin> snd ` set_mset T"
    and gone: "\<And>x. x \<noteq> nm \<Longrightarrow> x \<in> set (sc_todo s) \<or> x \<in> snd ` set_mset (sc_tasks s) \<Longrightarrow> x \<in> set nms \<or> x \<in> snd ` set_mset T"
    and was: "nm \<in> set (sc_todo s) \<or> nm \<in> snd ` set_mset (sc_tasks s)"
  shows "scan_inv env needed (s\<lparr>sc_todo := nms, sc_tasks := T, sc_files := remove_entry env nm (sc_files s)\<rparr>)"
proof (rule scan_invI, goal_cases)
  case 1
  then show ?case
    using scan_invD(1) [OF inv] by simp
next
  case (2 d)
  then obtain x where x: "resource_file env (sc_files s) x d" "x \<notin> set (sc_todo s)" "x \<notin> snd ` set_mset (sc_tasks s)"
    using scan_invD(2) [OF inv, of d] by auto
  moreover have "x \<noteq> nm"
    using x was by auto
  moreover have "x \<notin> snd ` set_mset T"
    using x(3) set_mset_mono [OF tasks(1)] by auto
  ultimately show ?case
    using todo(2) by (intro exI [of _ x]) (auto simp: resource_file_remove)
next
  case (3 d x)
  then have "(d, x) \<in># sc_tasks s"
    using set_mset_mono [OF tasks(1)] by auto
  then show ?case
    using scan_invD(3) [OF inv] todo(2) by auto
next
  case (4 d x)
  then show ?case
    using scan_invD(4) [OF inv, of d x] mset_subset_eq_count [OF tasks(1), of "(d, x)"] by simp
next
  case 5
  then show ?case
    using todo(1) by simp
next
  case (6 x)
  show ?case
  proof (cases "x = nm")
    case True
    then show ?thesis
      using 6 remove_entry_own [of env nm] by (simp add: no_fault_def)
  next
    case False
    then show ?thesis
      using 6 scan_invD(6) [OF inv, of x] gone [of x] resource_file_remove [of x nm] by auto
  qed
qed

lemma scan_entry_inv:
  assumes inv: "scan_inv env needed s" and todo: "sc_todo s = nm # nms"
  shows "scan_inv env needed (scan_entry env nm (s\<lparr>sc_todo := nms\<rparr>))"
proof -
  have dist: "distinct nms" "nm \<notin> set nms"
    using scan_invD(5) [OF inv] todo by auto
  have nt: "nm \<notin> snd ` set_mset (sc_tasks s)"
    using scan_invD(3) [OF inv] todo by fastforce
  have drop: "scan_inv env needed (s\<lparr>sc_todo := nms, sc_files := remove_entry env nm (sc_files s)\<rparr>)"
    using scan_drop_inv [OF inv dist(1) _ dist(2), of "sc_tasks s"] nt todo by (simp add: subset_insertI)
  show ?thesis
  proof (cases "nm = EMPTY_FILE_SHA256")
    case True
    have "scan_inv env needed (s\<lparr>sc_todo := nms\<rparr>)"
    proof (rule scan_invI, goal_cases)
      case (2 x)
      then show ?case
        using scan_invD(2) [OF inv, of x] todo by auto
    next
      case (6 x)
      then show ?case
        using scan_invD(6) [OF inv, of x] todo True by auto
    qed (use scan_invD(1,3,4) [OF inv] todo dist in auto)
    then show ?thesis
      using True by (simp add: scan_entry_def)
  next
    case False
    show ?thesis
    proof (cases "fromhex nm")
      case None
      then show ?thesis
        using False drop by (simp add: scan_entry_def)
    next
      case (Some d)
      show ?thesis
      proof (cases "d \<in> sc_needed s")
        case True
        have new: "(x, nm) \<notin># sc_tasks s" for x
          using nt by force
        have "scan_inv env needed (s\<lparr>sc_todo := nms, sc_tasks := add_mset (d, nm) (sc_tasks s)\<rparr>)"
        proof (rule scan_invI, goal_cases)
          case (2 x)
          then obtain y where "resource_file env (sc_files s) y x" "y \<notin> set (sc_todo s)" "y \<notin> snd ` set_mset (sc_tasks s)"
            using scan_invD(2) [OF inv, of x] by auto
          then show ?case
            using todo by (intro exI [of _ y]) auto
        next
          case (4 x y)
          then show ?case
            using scan_invD(4) [OF inv, of x y] new [of d] by (auto simp: not_in_iff)
        next
          case (6 x)
          then show ?case
            using scan_invD(6) [OF inv, of x] todo by auto
        qed (use scan_invD(1,3,5) [OF inv] todo dist Some True in auto)
        then show ?thesis
          using False Some True by (simp add: scan_entry_def)
      next
        case n: False
        then show ?thesis
          using False Some drop by (simp add: scan_entry_def)
      qed
    qed
  qed
qed

lemma scan_task_inv:
  assumes inv: "scan_inv env needed s" and t: "(d, nm) \<in># sc_tasks s"
  shows "scan_inv env needed (scan_task env d nm (s\<lparr>sc_tasks := sc_tasks s - {#(d, nm)#}\<rparr>))"
proof -
  let ?T = "sc_tasks s - {#(d, nm)#}"
  have hex: "fromhex nm = Some d" "d \<in> needed" "nm \<notin> set (sc_todo s)"
    using scan_invD(3) [OF inv t] by auto
  have sub: "?T \<subseteq># sc_tasks s"
    by simp
  have nt: "nm \<notin> snd ` set_mset ?T"
  proof
    assume "nm \<in> snd ` set_mset ?T"
    then obtain x where x: "(x, nm) \<in># ?T"
      by auto
    then have "(x, nm) \<in># sc_tasks s"
      by (meson in_diffD)
    then have "x = d"
      using scan_invD(3) [OF inv] hex(1) by fastforce
    then show False
      using x scan_invD(4) [OF inv, of d nm] by (simp add: in_diff_count)
  qed
  have left: "x \<in> snd ` set_mset ?T" if "x \<noteq> nm" "x \<in> snd ` set_mset (sc_tasks s)" for x
    using that by (force simp: in_diff_count)
  have T: "(a, x) \<in># sc_tasks s" if "(a, x) \<in># ?T" for a x
    using that by (meson in_diffD)
  have keep: "scan_inv env needed (s\<lparr>sc_tasks := ?T, sc_needed := n', sc_reported := r\<rparr>)"
    if "n' \<subseteq> sc_needed s" and "sc_needed s \<subseteq> insert d n'" and "d \<notin> n' \<Longrightarrow> d \<in> sc_needed s \<Longrightarrow> resource_file env (sc_files s) nm d"
      and "sc_files s nm \<noteq> None \<Longrightarrow> \<not> no_fault env nm \<or> (resource_file env (sc_files s) nm d \<and> d \<notin> n')" for n' r
  proof (rule scan_invI, goal_cases)
    case 1
    then show ?case
      using that(1) scan_invD(1) [OF inv] by auto
  next
    case (2 x)
    show ?case
    proof (cases "x \<in> sc_needed s")
      case True
      then have "x = d"
        using 2 that(2) by auto
      then show ?thesis
        using that(3) True 2 hex(3) nt by (intro exI [of _ nm]) simp
    next
      case False
      then obtain y where "resource_file env (sc_files s) y x" "y \<notin> set (sc_todo s)" "y \<notin> snd ` set_mset (sc_tasks s)"
        using scan_invD(2) [OF inv, of x] 2 by auto
      then show ?thesis
        using T by (intro exI [of _ y]) force
    qed
  next
    case (3 a x)
    then show ?case
      using scan_invD(3) [OF inv, of a x] T by simp
  next
    case (4 a x)
    then show ?case
      using scan_invD(4) [OF inv, of a x] mset_subset_eq_count [OF sub, of "(a, x)"] by simp
  next
    case 5
    then show ?case
      using scan_invD(5) [OF inv] by simp
  next
    case (6 x)
    show ?case
    proof (cases "x = nm")
      case True
      then show ?thesis
        using 6 that(4) hex(2) by auto
    next
      case False
      then show ?thesis
        using 6 scan_invD(6) [OF inv, of x] left [OF False] that(1) by auto
    qed
  qed
  show ?thesis
  proof (cases "sc_files s nm")
    case None
    then show ?thesis
      using keep [of "sc_needed s" "sc_reported s"] by (auto simp: scan_task_def)
  next
    case (Some c)
    consider "rs_read_fails env nm" | "\<not> rs_read_fails env nm" "rs_sha env c \<noteq> d"
      | "\<not> rs_read_fails env nm" "rs_sha env c = d"
      by blast
    then show ?thesis
    proof cases
      case 1
      then show ?thesis
        using keep [of "sc_needed s" "sc_reported s"] Some by (auto simp: scan_task_def no_fault_def)
    next
      case 2
      have "scan_inv env needed (s\<lparr>sc_todo := sc_todo s, sc_tasks := ?T, sc_files := remove_entry env nm (sc_files s)\<rparr>)"
      proof (rule scan_drop_inv [OF inv scan_invD(5) [OF inv] _ hex(3) sub nt])
        show "nm \<in> set (sc_todo s) \<or> nm \<in> snd ` set_mset (sc_tasks s)"
          using image_eqI [of nm snd "(d, nm)"] t by simp
      qed (use left in blast)+
      then show ?thesis
        using 2 Some by (simp add: scan_task_def)
    next
      case 3
      then have "resource_file env (sc_files s) nm d"
        using hex Some by (simp add: resource_file_def)
      then have k: "scan_inv env needed (s\<lparr>sc_tasks := ?T, sc_needed := sc_needed s - {d}, sc_reported := r\<rparr>)" for r
        by (intro keep) auto
      show ?thesis
      proof (cases "d \<in> sc_needed s")
        case True
        then show ?thesis
          using k [of "sc_reported s @ [length c]"] 3 Some by (simp add: scan_task_def)
      next
        case False
        then show ?thesis
          using k [of "sc_reported s"] 3 Some by (simp add: scan_task_def)
      qed
    qed
  qed
qed

interpretation sc: step_invariant "scan_init needed" "scan_step env" "scan_inv env needed"
proof unfold_locales
  show "scan_inv env needed s" if "scan_init needed s" for s
    using that by (intro scan_invI) (auto simp: scan_init_def)
  show "scan_inv env needed s'" if "scan_inv env needed s" "scan_step env s s'" for s s'
    using that(2) scan_entry_inv [OF that(1)] scan_task_inv [OF that(1)] by (auto elim: scan_step.cases)
qed

text \<open>
  C6: Scanning the resource folder of an interrupted update: whatever the order of the tasks, a resource is taken out of the list of
  needed ones only if the folder has a file named after its digest with exactly this digest, and when the scan is over, the folder
  holds nothing but such files of needed resources, all of them taken out of the list (besides the empty file and files the kernel
  refused to read or to remove).
\<close>

theorem resumed_resources_verified:
  assumes "reachable (scan_init needed) (scan_step env) s"
  shows "sc_needed s \<subseteq> needed
    \<and> (\<forall>d \<in> needed - sc_needed s. \<exists>nm c. fromhex nm = Some d \<and> sc_files s nm = Some c \<and> rs_sha env c = d)
    \<and> (sc_todo s = [] \<and> sc_tasks s = {#} \<longrightarrow> (\<forall>nm \<in> dom (sc_files s). nm \<noteq> EMPTY_FILE_SHA256 \<longrightarrow> no_fault env nm \<longrightarrow>
         (\<exists>d c. fromhex nm = Some d \<and> sc_files s nm = Some c \<and> rs_sha env c = d \<and> d \<in> needed - sc_needed s)))"
proof -
  have inv: "scan_inv env needed s"
    by (rule sc.inv_reachable [OF assms])
  have "\<exists>nm c. fromhex nm = Some d \<and> sc_files s nm = Some c \<and> rs_sha env c = d" if "d \<in> needed - sc_needed s" for d
    using scan_invD(2) [OF inv, of d] that by (auto simp: resource_file_def)
  moreover have "\<exists>d c. fromhex nm = Some d \<and> sc_files s nm = Some c \<and> rs_sha env c = d \<and> d \<in> needed - sc_needed s"
    if "sc_todo s = [] \<and> sc_tasks s = {#}" "nm \<in> dom (sc_files s)" "nm \<noteq> EMPTY_FILE_SHA256" "no_fault env nm" for nm
    using scan_invD(6) [OF inv, of nm] that by (auto simp: resource_file_def)
  ultimately show ?thesis
    using scan_invD(1) [OF inv] by blast
qed

definition wit_rs_env :: rs_env where
  "wit_rs_env = \<lparr> rs_sha = (\<lambda>c. c), rs_read_fails = (\<lambda>_. False), rs_unlink_fails = (\<lambda>_. False), rs_write_fails = (\<lambda>_. None), rs_replace_fails = (\<lambda>_. False) \<rparr>"

definition wit_scan :: scan where
  "wit_scan = \<lparr> sc_files = [''ab'' \<mapsto> ''ab''], sc_needed = {''ab'', ''cd''}, sc_todo = [''ab''], sc_tasks = {#}, sc_reported = [] \<rparr>"

definition wit_scan1 :: scan where "wit_scan1 = scan_entry wit_rs_env ''ab'' (wit_scan\<lparr>sc_todo := []\<rparr>)"
definition wit_scan2 :: scan where "wit_scan2 = scan_task wit_rs_env ''ab'' ''ab'' (wit_scan1\<lparr>sc_tasks := sc_tasks wit_scan1 - {#(''ab'', ''ab'')#}\<rparr>)"

lemma wit_fromhex: "fromhex ''ab'' = Some ''ab''"
  by (rule fromhex_digest) auto

lemma wit_scan1_eq: "wit_scan1 = wit_scan\<lparr>sc_todo := [], sc_tasks := {#(''ab'', ''ab'')#}\<rparr>"
  using wit_fromhex by (simp add: wit_scan1_def scan_entry_def EMPTY_FILE_SHA256_def wit_scan_def)

theorem resumed_resources_verified_witness:
  "sc_needed wit_scan2 = {''cd''} \<and> (\<exists>nm c. fromhex nm = Some ''ab'' \<and> sc_files wit_scan2 nm = Some c \<and> rs_sha wit_rs_env c = ''ab'')"
proof -
  have "reachable (scan_init {''ab'', ''cd''}) (scan_step wit_rs_env) wit_scan"
    by (rule reach_init) (simp add: scan_init_def wit_scan_def)
  moreover have "scan_step wit_rs_env wit_scan wit_scan1"
    unfolding wit_scan1_def by (rule sc_next) (simp add: wit_scan_def)
  ultimately have "reachable (scan_init {''ab'', ''cd''}) (scan_step wit_rs_env) wit_scan1"
    by (rule reach_step)
  moreover have "scan_step wit_rs_env wit_scan1 wit_scan2"
    unfolding wit_scan2_def by (rule sc_run) (simp add: wit_scan1_eq)
  ultimately have r: "reachable (scan_init {''ab'', ''cd''}) (scan_step wit_rs_env) wit_scan2"
    by (rule reach_step)
  have n: "sc_needed wit_scan2 = {''cd''}"
    by (auto simp: wit_scan2_def scan_task_def wit_scan1_eq wit_scan_def wit_rs_env_def)
  show ?thesis
    using resumed_resources_verified [OF r] n by simp
qed

section \<open>The streamer\<close>

record streamer =
  st_src :: "string \<rightharpoonup> string"
  st_dst :: "string \<rightharpoonup> string"
  st_needed :: "string set"
  st_all :: "string set"                        \<comment> \<open>the copy of the list that the loop looks at\<close>
  st_todo :: "string list"
  st_tasks :: "(string \<times> string) multiset"
  st_reported :: "nat list"

definition stream_entry :: "string \<Rightarrow> streamer \<Rightarrow> streamer" where
  "stream_entry nm s =
     (if nm = EMPTY_FILE_SHA256 then s
      else case fromhex nm of
        None \<Rightarrow> s
      | Some d \<Rightarrow> if d \<notin> st_all s then s else s\<lparr>st_tasks := add_mset (d, nm) (st_tasks s)\<rparr>)"

text \<open>\<open>tmp\<close> is the name of the temporary file; it is removed at the end, however the task ends.\<close>

definition stream_task :: "rs_env \<Rightarrow> string \<Rightarrow> string \<Rightarrow> string \<Rightarrow> streamer \<Rightarrow> streamer" where
  "stream_task env tmp expected nm s = (case st_src s nm of
     None \<Rightarrow> s
   | Some c \<Rightarrow>
       if rs_read_fails env nm then s
       else case rs_write_fails env nm of
         Some k \<Rightarrow> s\<lparr>st_dst := remove_entry env tmp ((st_dst s)(tmp \<mapsto> take k c))\<rparr>
       | None \<Rightarrow>
           let copied = (st_dst s)(tmp \<mapsto> c) in
           if rs_sha env c \<noteq> expected then s\<lparr>st_dst := remove_entry env tmp copied\<rparr>
           else if rs_sha env c \<notin> st_needed s then s\<lparr>st_dst := remove_entry env tmp copied\<rparr>
           else if rs_replace_fails env nm
             then s\<lparr>st_needed := st_needed s - {rs_sha env c}, st_dst := remove_entry env tmp copied\<rparr>
             else s\<lparr>st_needed := st_needed s - {rs_sha env c}, st_dst := (copied(tmp := None))(nm \<mapsto> c),
                    st_reported := st_reported s @ [length c]\<rparr>)"

inductive stream_step :: "rs_env \<Rightarrow> streamer \<Rightarrow> streamer \<Rightarrow> bool" for env where
  st_next: "st_todo s = nm # nms \<Longrightarrow> stream_step env s (stream_entry nm (s\<lparr>st_todo := nms\<rparr>))"
| st_run: "(d, nm) \<in># st_tasks s \<Longrightarrow> st_dst s tmp = None \<Longrightarrow> fromhex tmp = None
    \<Longrightarrow> stream_step env s (stream_task env tmp d nm (s\<lparr>st_tasks := st_tasks s - {#(d, nm)#}\<rparr>))"

definition stream_init :: "string set \<Rightarrow> streamer \<Rightarrow> bool" where
  "stream_init needed s \<longleftrightarrow> st_needed s = needed \<and> st_all s = needed \<and> st_tasks s = {#}"

text \<open>
  A resource that is taken out of the list is in the destination, verified, or was lost because the last step, giving the file its
  name, was refused.
\<close>

definition stream_inv :: "rs_env \<Rightarrow> string set \<Rightarrow> streamer \<Rightarrow> bool" where
  "stream_inv env needed s \<longleftrightarrow> st_needed s \<subseteq> needed
     \<and> (\<forall>d \<in> needed - st_needed s. \<exists>nm. resource_file env (st_dst s) nm d \<or> (fromhex nm = Some d \<and> rs_replace_fails env nm))
     \<and> (\<forall>(d, nm) \<in> set_mset (st_tasks s). fromhex nm = Some d)"

lemma stream_inv_dst:
  assumes inv: "stream_inv env needed s" and t: "(d, nm) \<in># st_tasks s" and tmp: "fromhex tmp = None"
    and n: "n' \<subseteq> st_needed s" "st_needed s - n' \<subseteq> {d}"
    and d: "d \<in> st_needed s \<Longrightarrow> d \<notin> n' \<Longrightarrow> resource_file env fs nm d \<or> rs_replace_fails env nm"
    and keep: "\<And>x c. fromhex x \<noteq> None \<Longrightarrow> st_dst s x = Some c \<Longrightarrow> fs x = Some c \<or> (x = nm \<and> resource_file env fs nm d)"
  shows "stream_inv env needed (s\<lparr>st_tasks := st_tasks s - {#(d, nm)#}, st_needed := n', st_dst := fs, st_reported := r\<rparr>)"
proof -
  have hex: "fromhex nm = Some d"
    using inv t by (auto simp: stream_inv_def)
  have "\<exists>x. resource_file env fs x e \<or> (fromhex x = Some e \<and> rs_replace_fails env x)" if e: "e \<in> needed" "e \<notin> n'" for e
  proof (cases "e \<in> st_needed s")
    case True
    then have "e = d"
      using e(2) n(2) by auto
    then show ?thesis
      using d True e(2) hex by blast
  next
    case False
    then obtain x where "resource_file env (st_dst s) x e \<or> (fromhex x = Some e \<and> rs_replace_fails env x)"
      using inv e(1) unfolding stream_inv_def by blast
    then show ?thesis
    proof
      assume x: "resource_file env (st_dst s) x e"
      then obtain c where c: "st_dst s x = Some c" "rs_sha env c = e" "fromhex x = Some e"
        by (auto simp: resource_file_def)
      have "fs x = Some c \<or> (x = nm \<and> resource_file env fs nm d)"
        by (rule keep [OF _ c(1)]) (simp add: c(3))
      then have "resource_file env fs x e"
        using c hex by (auto simp: resource_file_def)
      then show ?thesis
        by blast
    qed blast
  qed
  then show ?thesis
    using inv n(1) by (auto simp: stream_inv_def dest: in_diffD)
qed

lemma stream_task_inv:
  assumes inv: "stream_inv env needed s" and t: "(d, nm) \<in># st_tasks s" and tmp: "st_dst s tmp = None" "fromhex tmp = None"
  shows "stream_inv env needed (stream_task env tmp d nm (s\<lparr>st_tasks := st_tasks s - {#(d, nm)#}\<rparr>))"
proof -
  let ?T = "st_tasks s - {#(d, nm)#}"
  have hex: "fromhex nm = Some d"
    using inv t by (auto simp: stream_inv_def)
  have same: "stream_inv env needed (s\<lparr>st_tasks := ?T, st_dst := fs\<rparr>)" if fs: "\<And>x. x \<noteq> tmp \<Longrightarrow> fs x = st_dst s x" for fs
  proof -
    have "stream_inv env needed (s\<lparr>st_tasks := ?T, st_needed := st_needed s, st_dst := fs, st_reported := st_reported s\<rparr>)"
    proof (rule stream_inv_dst [OF inv t tmp(2)])
      show "fs x = Some c \<or> x = nm \<and> resource_file env fs nm d" if "fromhex x \<noteq> None" "st_dst s x = Some c" for x c
        using that fs [of x] tmp by (cases "x = tmp") auto
    qed simp_all
    then show ?thesis
      by simp
  qed
  show ?thesis
  proof (cases "st_src s nm")
    case None
    then show ?thesis
      using same [of "st_dst s"] by (simp add: stream_task_def)
  next
    case (Some c)
    consider "rs_read_fails env nm" | k where "\<not> rs_read_fails env nm" "rs_write_fails env nm = Some k"
      | "\<not> rs_read_fails env nm" "rs_write_fails env nm = None" "rs_sha env c \<noteq> d \<or> rs_sha env c \<notin> st_needed s"
      | "\<not> rs_read_fails env nm" "rs_write_fails env nm = None" "rs_sha env c = d" "d \<in> st_needed s" "rs_replace_fails env nm"
      | "\<not> rs_read_fails env nm" "rs_write_fails env nm = None" "rs_sha env c = d" "d \<in> st_needed s" "\<not> rs_replace_fails env nm"
      by (cases "rs_write_fails env nm") auto
    then show ?thesis
    proof cases
      case 1
      then show ?thesis
        using same [of "st_dst s"] Some by (simp add: stream_task_def)
    next
      case (2 k)
      then show ?thesis
        using same [of "remove_entry env tmp ((st_dst s)(tmp \<mapsto> take k c))"] Some by (simp add: stream_task_def)
    next
      case 3
      then show ?thesis
        using same [of "remove_entry env tmp ((st_dst s)(tmp \<mapsto> c))"] Some by (auto simp: stream_task_def Let_def)
    next
      case 4
      let ?fs = "remove_entry env tmp ((st_dst s)(tmp \<mapsto> c))"
      have "stream_inv env needed (s\<lparr>st_tasks := ?T, st_needed := st_needed s - {d}, st_dst := ?fs, st_reported := st_reported s\<rparr>)"
      proof (rule stream_inv_dst [OF inv t tmp(2)])
        show "?fs x = Some c' \<or> x = nm \<and> resource_file env ?fs nm d" if "fromhex x \<noteq> None" "st_dst s x = Some c'" for x c'
          using that tmp by (cases "x = tmp") auto
      qed (use 4 in auto)
      then show ?thesis
        using 4 Some by (simp add: stream_task_def Let_def)
    next
      case 5
      let ?fs = "((st_dst s)(tmp \<mapsto> c, tmp := None))(nm \<mapsto> c)"
      have nm: "resource_file env ?fs nm d"
        using 5 hex by (simp add: resource_file_def)
      have "stream_inv env needed (s\<lparr>st_tasks := ?T, st_needed := st_needed s - {d}, st_dst := ?fs, st_reported := st_reported s @ [length c]\<rparr>)"
      proof (rule stream_inv_dst [OF inv t tmp(2)])
        show "?fs x = Some c' \<or> x = nm \<and> resource_file env ?fs nm d" if "fromhex x \<noteq> None" "st_dst s x = Some c'" for x c'
          using that tmp nm by (cases "x = tmp"; cases "x = nm") auto
      qed (use nm in auto)
      then show ?thesis
        using 5 Some by (simp add: stream_task_def Let_def)
    qed
  qed
qed

interpretation st: step_invariant "stream_init needed" "stream_step env" "stream_inv env needed"
proof unfold_locales
  show "stream_inv env needed s" if "stream_init needed s" for s
    using that by (auto simp: stream_init_def stream_inv_def)
  show "stream_inv env needed s'" if inv: "stream_inv env needed s" and step: "stream_step env s s'" for s s'
    using step
  proof cases
    case (st_next nm nms)
    then show ?thesis
      using inv by (auto simp: stream_inv_def stream_entry_def split: option.split)
  next
    case (st_run d nm tmp)
    then show ?thesis
      using stream_task_inv [OF inv] by simp
  qed
qed

text \<open>Every resource that the streamer takes out of the list is in the destination, as long as the kernel renames files.\<close>

lemma streamed_resources_verified:
  assumes "reachable (stream_init needed) (stream_step env) s" and "\<And>nm. \<not> rs_replace_fails env nm" and "d \<in> needed - st_needed s"
  shows "\<exists>nm c. fromhex nm = Some d \<and> st_dst s nm = Some c \<and> rs_sha env c = d"
  using st.inv_reachable [OF assms(1)] assms(2,3) by (auto simp: stream_inv_def resource_file_def)

end
