(* ===== verification/Download_Resources.thy ===== *)
theory Download_Resources
  imports Downloader Resume_OTA
begin

text \<open>
  The download helpers (\<^verbatim>\<open>otaclient/ota_core/_download_resources.py\<close>): downloads through \<^verbatim>\<open>.part\<close> files, the batches of
  metadata files, the shuffled order, and for images of version 1 the slices of large resources as tasks of their own with the
  dispatcher that waits for them.

  A digest stands for its hex string. The state \<open>dr_state\<close> is the downloader's view of the file system, the \<^verbatim>\<open>.part\<close> files in
  use, and the groups of slices. The preparation of a resource by the library of the image format, its tables and its names of
  temporary files are parameters; so is what the kernel refuses.
\<close>

section \<open>Data\<close>

datatype dr_exc = DR_Dl dl_exc | DR_Assertion | DR_OSError | DR_Library string

record dr_state =
  dr_dl :: dl_state
  dr_in_use :: "string set"                       \<comment> \<open>\<^verbatim>\<open>_PartialDownloads._in_use\<close>\<close>
  dr_not_tried :: "string \<Rightarrow> string set"          \<comment> \<open>\<^verbatim>\<open>_SlicesGroup._not_tried\<close>, by resource\<close>
  dr_ready :: "string list"

type_synonym 'a dr_io = "(dr_state, dr_exc, 'a) io"

record dr_env =
  dr_net :: dl_env
  dr_replace_fails :: "string \<Rightarrow> string \<Rightarrow> bool"
  dr_tmp_fname :: "string \<Rightarrow> string"

definition RESUMABLE_BLOB_MIN_SIZE :: nat where "RESUMABLE_BLOB_MIN_SIZE = 1024 ^ 2"
definition PARTIAL_SUFFIX :: string where "PARTIAL_SUFFIX = ''.part''"
definition DEFAULT_SHUFFLE_BATCH_SIZE :: nat where "DEFAULT_SHUFFLE_BATCH_SIZE = 256"

definition on_dl :: "'a dl_io \<Rightarrow> 'a dr_io" where
  "on_dl m = (\<lambda>s. case m (dr_dl s) of
     (Inl x, d) \<Rightarrow> (Inl (DR_Dl x), s\<lparr>dr_dl := d\<rparr>)
   | (Inr a, d) \<Rightarrow> (Inr a, s\<lparr>dr_dl := d\<rparr>))"

definition unlink_missing_ok :: "string \<Rightarrow> unit dl_io" where
  "unlink_missing_ok p = modify_io (\<lambda>s. s\<lparr>ds_files := (ds_files s)(p := None)\<rparr>)"

text \<open>\<^verbatim>\<open>os.replace\<close>: the file gets another name, at once or not at all.\<close>

definition replace_file :: "dr_env \<Rightarrow> string \<Rightarrow> string \<Rightarrow> unit dr_io" where
  "replace_file env src dst = (\<lambda>s. case ds_files (dr_dl s) src of
     None \<Rightarrow> (Inl DR_OSError, s)
   | Some c \<Rightarrow> if dr_replace_fails env src dst then (Inl DR_OSError, s)
       else (Inr (), s\<lparr>dr_dl := (dr_dl s)\<lparr>ds_files := (if src = dst then ds_files (dr_dl s)
               else (ds_files (dr_dl s))(src := None, dst \<mapsto> c))\<rparr>\<rparr>))"

section \<open>One file\<close>

definition plain_kwargs :: "string \<Rightarrow> nat \<Rightarrow> nat \<Rightarrow> dl_kwargs" where
  "plain_kwargs digest sz from = \<lparr> kw_size = Some sz, kw_digest = Some digest, kw_headers = None, kw_compression_alg = None, kw_resume_from = from \<rparr>"

definition download_resumable :: "dl_env \<Rightarrow> downloader_conf \<Rightarrow> string \<Rightarrow> string \<Rightarrow> string \<Rightarrow> nat \<Rightarrow> download_result dl_io" where
  "download_resumable e d url part digest sz = (\<lambda>s.
     let have_bytes = resumable_bytes s part sz in
     then_io (if have_bytes > 0 then ret () else unlink_missing_ok part)
       (catch_io (download e d url part (plain_kwargs digest sz have_bytes))
         (\<lambda>x. if x = HashVerificationError then then_io (unlink_missing_ok part) (throw x) else throw x)) s)"

record download_info =
  di_url :: string
  di_dst :: string
  di_original_size :: nat
  di_digest :: "string option"
  di_compression_alg :: "string option"
  di_resume :: bool

definition download_one :: "dr_env \<Rightarrow> downloader_conf \<Rightarrow> download_info \<Rightarrow> download_result dr_io" where
  "download_one env d i =
     (if di_resume i then
        if di_digest i \<in> {None, Some []} \<or> di_original_size i = 0 then throw DR_Assertion
        else on_dl (download_resumable (dr_net env) d (di_url i) (di_dst i) (the (di_digest i)) (di_original_size i))
      else on_dl (download (dr_net env) d (di_url i) (di_dst i)
        \<lparr> kw_size = Some (di_original_size i), kw_digest = di_digest i, kw_headers = None,
          kw_compression_alg = di_compression_alg i, kw_resume_from = 0 \<rparr>))"

text \<open>
  \<^verbatim>\<open>_download_with_condition_at_thread\<close>: the files of a batch. The first is downloaded by the worker, each of the others by a
  thread of its own if the pool has a spare instance (\<open>spare\<close>), or by the worker afterwards. The threads write different files;
  here they run one after the other.
\<close>

fun traverse_io :: "('a \<Rightarrow> ('s, 'e, 'b) io) \<Rightarrow> 'a list \<Rightarrow> ('s, 'e, 'b list) io" where
  "traverse_io f [] = ret []"
| "traverse_io f (x # xs) = bind_io (f x) (\<lambda>y. bind_io (traverse_io f xs) (\<lambda>ys. ret (y # ys)))"

definition download_one_at_batch_thread ::
    "dr_env \<Rightarrow> downloader_conf \<Rightarrow> (download_info \<Rightarrow> bool) \<Rightarrow> download_info \<Rightarrow> download_result option dr_io" where
  "download_one_at_batch_thread env d spare i = (if spare i then bind_io (download_one env d i) (\<lambda>r. ret (Some r)) else ret None)"

definition download_with_condition_at_thread ::
    "dr_env \<Rightarrow> downloader_conf \<Rightarrow> (download_info \<Rightarrow> bool) \<Rightarrow> download_info list \<Rightarrow> download_result list dr_io" where
  "download_with_condition_at_thread env d spare to_download =
     (if length to_download < 2 then traverse_io (download_one env d) to_download
      else bind_io (download_one env d (hd to_download)) (\<lambda>first.
        bind_io (traverse_io (download_one_at_batch_thread env d spare) (tl to_download)) (\<lambda>others.
          traverse_io (\<lambda>(r, i). case r of Some x \<Rightarrow> ret x | None \<Rightarrow> download_one env d i) (zip (Some first # others) to_download))))"

section \<open>The order\<close>

text \<open>
  \<^verbatim>\<open>_iter_digests_with_shuffle\<close>: batches of at least \<open>n\<close> digests (one, when \<open>n\<close> is 0), each put into the order that
  \<^verbatim>\<open>random.shuffle\<close>, here \<open>shuf\<close>, gives it.
\<close>

fun iter_digests_with_shuffle :: "('a list \<Rightarrow> 'a list) \<Rightarrow> nat \<Rightarrow> 'a list \<Rightarrow> 'a list \<Rightarrow> 'a list" where
  "iter_digests_with_shuffle shuf n cur_batch [] = (if cur_batch = [] then [] else shuf cur_batch)"
| "iter_digests_with_shuffle shuf n cur_batch (d # ds) =
     (let b = cur_batch @ [d]
      in if length b \<ge> n then shuf b @ iter_digests_with_shuffle shuf n [] ds else iter_digests_with_shuffle shuf n b ds)"

lemma shuffle_keeps_all:
  assumes "\<And>xs. mset (shuf xs) = mset xs"
  shows "mset (iter_digests_with_shuffle shuf n b ds) = mset b + mset ds"
  using assms by (induction shuf n b ds rule: iter_digests_with_shuffle.induct) (auto simp: Let_def)

section \<open>Blobs of an image of version 1\<close>

text \<open>\<^verbatim>\<open>_PartialDownloads.use\<close>, a context manager, around \<open>act\<close>.\<close>

definition part_name :: "string \<Rightarrow> string \<Rightarrow> string" where
  "part_name download_tmp_dir digest = download_tmp_dir @ ''/'' @ digest @ PARTIAL_SUFFIX"

definition use_part :: "string \<Rightarrow> string \<Rightarrow> nat \<Rightarrow> (string option \<Rightarrow> 'a dr_io) \<Rightarrow> 'a dr_io" where
  "use_part download_tmp_dir digest sz act = (\<lambda>s.
     if sz < RESUMABLE_BLOB_MIN_SIZE then act None s
     else if digest \<in> dr_in_use s then act None s
     else finally_io (act (Some (part_name download_tmp_dir digest)))
            (modify_io (\<lambda>s. s\<lparr>dr_in_use := dr_in_use s - {digest}\<rparr>)) (s\<lparr>dr_in_use := insert digest (dr_in_use s)\<rparr>))"

definition download_blob :: "dr_env \<Rightarrow> downloader_conf \<Rightarrow> string \<Rightarrow> string \<Rightarrow> string \<Rightarrow> nat \<Rightarrow> string \<Rightarrow> download_result dr_io" where
  "download_blob env d download_tmp_dir url digest sz save_dst =
     use_part download_tmp_dir digest sz (\<lambda>part. case part of
       None \<Rightarrow> on_dl (download (dr_net env) d url save_dst (plain_kwargs digest sz 0))
     | Some p \<Rightarrow> bind_io (on_dl (download_resumable (dr_net env) d url p digest sz)) (\<lambda>res.
         then_io (replace_file env p save_dst) (ret res)))"

text \<open>The groups: a resource is put on the queue when the last of its slices has been tried.\<close>

definition group_tried :: "dr_state \<Rightarrow> string \<Rightarrow> string \<Rightarrow> bool" where
  "group_tried s g save_dst \<longleftrightarrow> save_dst \<notin> dr_not_tried s g"

definition slice_tried :: "string \<Rightarrow> string \<Rightarrow> dr_state \<Rightarrow> dr_state" where
  "slice_tried g save_dst s =
     (if save_dst \<notin> dr_not_tried s g then s
      else let s1 = s\<lparr>dr_not_tried := (dr_not_tried s)(g := dr_not_tried s g - {save_dst})\<rparr>
           in if dr_not_tried s1 g \<noteq> {} then s1 else s1\<lparr>dr_ready := dr_ready s1 @ [g]\<rparr>)"

record slice_to_download =
  sl_digest :: string
  sl_size :: nat
  sl_save_dst :: string
  sl_group :: string

datatype task_result = Whole_Result download_result | Slice_Result nat int

text \<open>\<^verbatim>\<open>urljoin\<close> of a base that ends with a slash and a digest.\<close>

definition blob_base_url :: "string \<Rightarrow> string" where
  "blob_base_url blob_storage_base_url = rev (dropWhile (\<lambda>c. c = CHR ''/'') (rev blob_storage_base_url)) @ ''/''"

definition blob_url :: "string \<Rightarrow> string \<Rightarrow> string" where
  "blob_url base_url digest = base_url @ digest"

definition dir_of :: "string \<Rightarrow> string" where
  "dir_of p = rev (dropWhile (\<lambda>c. c \<noteq> CHR ''/'') (rev p))"

definition base_of :: "string \<Rightarrow> string" where
  "base_of p = rev (takeWhile (\<lambda>c. c \<noteq> CHR ''/'') (rev p))"

definition download_slice_at_thread :: "dr_env \<Rightarrow> downloader_conf \<Rightarrow> string \<Rightarrow> string \<Rightarrow> slice_to_download \<Rightarrow> task_result dr_io" where
  "download_slice_at_thread env d base_url download_tmp_dir sl = (\<lambda>s.
     if group_tried s (sl_group sl) (sl_save_dst sl) then (Inr (Slice_Result 0 0), s)
     else let tmp_dst = dir_of (sl_save_dst sl) @ dr_tmp_fname env (base_of (sl_save_dst sl))
       in bind_io (finally_io
            (bind_io (download_blob env d download_tmp_dir (blob_url base_url (sl_digest sl)) (sl_digest sl) (sl_size sl) tmp_dst)
              (\<lambda>res. then_io (replace_file env tmp_dst (sl_save_dst sl)) (ret res)))
            (then_io (on_dl (unlink_missing_ok tmp_dst)) (modify_io (slice_tried (sl_group sl) (sl_save_dst sl)))))
          (\<lambda>res. ret (Slice_Result (retry_count res) (traffic_on_wire res))) s)"

text \<open>
  The library prepares a resource in a generator: each step works on the files and yields a blob to download, the last one joins
  the blobs.
\<close>

record resource_dl_info =
  ri_digest :: string
  ri_size :: nat
  ri_save_dst :: string
  ri_compression_alg :: "string option"
  ri_origin_digest :: "string option"
  ri_origin_size :: "nat option"

record prepare_gen =
  pg_size :: nat
  pg_steps :: "resource_dl_info dr_io list"
  pg_end :: "unit dr_io"

definition download_resource_blob ::
    "dr_env \<Rightarrow> downloader_conf \<Rightarrow> string \<Rightarrow> string \<Rightarrow> resource_dl_info \<Rightarrow> download_result dr_io" where
  "download_resource_blob env d base_url download_tmp_dir i =
     (if ri_compression_alg i \<notin> {None, Some []} then
        if ri_origin_digest i \<in> {None, Some []} then throw DR_Assertion
        else on_dl (download (dr_net env) d (blob_url base_url (ri_digest i)) (ri_save_dst i)
          \<lparr> kw_size = ri_origin_size i, kw_digest = ri_origin_digest i, kw_headers = None,
            kw_compression_alg = ri_compression_alg i, kw_resume_from = 0 \<rparr>)
      else download_blob env d download_tmp_dir (blob_url base_url (ri_digest i)) (ri_digest i) (ri_size i) (ri_save_dst i))"

fun download_blobs ::
    "dr_env \<Rightarrow> downloader_conf \<Rightarrow> string \<Rightarrow> string \<Rightarrow> resource_dl_info dr_io list \<Rightarrow> download_result \<Rightarrow> download_result dr_io" where
  "download_blobs env d base_url tmp [] res = ret res"
| "download_blobs env d base_url tmp (step # steps) res =
     bind_io step (\<lambda>i. bind_io (download_resource_blob env d base_url tmp i) (\<lambda>r.
       download_blobs env d base_url tmp steps (res\<lparr>retry_count := retry_count res + retry_count r,
         traffic_on_wire := traffic_on_wire res + traffic_on_wire r\<rparr>)))"

definition download_single_resource_at_thread ::
    "dr_env \<Rightarrow> downloader_conf \<Rightarrow> string \<Rightarrow> string \<Rightarrow> (string \<Rightarrow> dr_exc + prepare_gen) \<Rightarrow> string \<Rightarrow> task_result dr_io" where
  "download_single_resource_at_thread env d base_url download_tmp_dir prepare_resource digest =
     (case prepare_resource digest of
        Inl x \<Rightarrow> throw x
      | Inr g \<Rightarrow> bind_io (download_blobs env d base_url download_tmp_dir (pg_steps g)
            \<lparr> retry_count = 0, download_size = pg_size g, traffic_on_wire = 0 \<rparr>)
          (\<lambda>res. then_io (pg_end g) (ret (Whole_Result res))))"

datatype dl_task = T_Resource string | T_Slice slice_to_download

definition download_task_at_thread ::
    "dr_env \<Rightarrow> downloader_conf \<Rightarrow> string \<Rightarrow> string \<Rightarrow> (string \<Rightarrow> dr_exc + prepare_gen) \<Rightarrow> dl_task \<Rightarrow> task_result dr_io" where
  "download_task_at_thread env d base_url download_tmp_dir prepare_resource t = (case t of
     T_Slice sl \<Rightarrow> download_slice_at_thread env d base_url download_tmp_dir sl
   | T_Resource digest \<Rightarrow> download_single_resource_at_thread env d base_url download_tmp_dir prepare_resource digest)"

text \<open>
  The legacy image: \<^verbatim>\<open>get_download_info\<close> of the metadata is a parameter. The empty file is not downloaded.
\<close>



definition download_single_resource_legacy ::
    "dr_env \<Rightarrow> downloader_conf \<Rightarrow> (string \<Rightarrow> dr_exc + download_info) \<Rightarrow> string \<Rightarrow> download_result dr_io" where
  "download_single_resource_legacy env d get_download_info digest =
     (if digest = EMPTY_FILE_SHA256 then ret \<lparr> retry_count = 0, download_size = 0, traffic_on_wire = 0 \<rparr>
      else case get_download_info digest of
        Inl x \<Rightarrow> throw x
      | Inr i \<Rightarrow> on_dl (download (dr_net env) d (di_url i) (di_dst i)
          \<lparr> kw_size = Some (di_original_size i), kw_digest = Some digest, kw_headers = None,
            kw_compression_alg = di_compression_alg i, kw_resume_from = 0 \<rparr>))"

section \<open>What a download leaves behind\<close>

lemma on_dl_returns: "on_dl m s = (Inr a, s') \<longleftrightarrow> (\<exists>d. m (dr_dl s) = (Inr a, d) \<and> s' = s\<lparr>dr_dl := d\<rparr>)"
  by (auto simp: on_dl_def split: prod.splits sum.splits)

lemma on_dl_raises: "on_dl m s = (Inl x, s') \<longleftrightarrow> (\<exists>y d. m (dr_dl s) = (Inl y, d) \<and> x = DR_Dl y \<and> s' = s\<lparr>dr_dl := d\<rparr>)"
  by (auto simp: on_dl_def split: prod.splits sum.splits)

text \<open>A download touches its destination only, however it ends.\<close>

lemma download_frame:
  assumes "download e d url dst kw s = (r, s')" and "p \<noteq> dst"
  shows "ds_files s' p = ds_files s p"
proof (cases "download_once e d url dst kw s")
  case (Pair x s1)
  have f1: "ds_files s1 p = ds_files s p"
    using download_once_frame [OF Pair] assms(2) by blast
  show ?thesis
  proof (cases x)
    case (Inr a)
    then show ?thesis
      using assms(1) Pair f1 by (simp add: download_def)
  next
    case (Inl ex)
    show ?thesis
    proof (cases "ex \<in> {PartialDownload, HashVerificationError, BrokenDecompressionError}")
      case True
      then have "\<exists>kw'. download_once e d url dst kw' s1 = (r, s')"
        using assms(1) Pair Inl by (auto simp: download_def Let_def)
      then obtain kw' where "download_once e d url dst kw' s1 = (r, s')"
        by blast
      then show ?thesis
        using download_once_frame [of e d url dst kw' s1 r s'] assms(2) f1 by auto
    next
      case False
      then show ?thesis
        using assms(1) Pair Inl f1 by (simp add: download_def)
    qed
  qed
qed

lemma download_good:
  assumes "download e d url dst kw s = (Inr r, s')"
  shows "\<exists>content. ds_files s' dst = Some content \<and> download_size r = length content \<and> file_good e kw content"
  using assms
proof (cases rule: download_returns)
  case 1
  from download_once_good [OF this] show ?thesis
    by auto
next
  case (2 x s1 n)
  from download_once_good [OF 2(2)] show ?thesis
    by (auto simp: file_good_def)
qed

lemma download_resumable_returns:
  assumes "download_resumable e d url part digest sz s = (Inr r, s')" and "digest \<noteq> []" and "sz \<noteq> 0"
  shows "\<exists>content. ds_files s' part = Some content \<and> download_size r = length content \<and> length content = sz \<and> de_sha e content = digest"
proof -
  obtain s1 where "download e d url part (plain_kwargs digest sz (resumable_bytes s part sz)) s1 = (Inr r, s')"
    using assms(1) by (auto simp: download_resumable_def Let_def io_returns split: if_splits)
  from download_good [OF this] show ?thesis
    using assms(2,3) by (auto simp: file_good_def plain_kwargs_def)
qed

lemma download_resumable_frame:
  assumes "download_resumable e d url part digest sz s = (r, s')" and "p \<noteq> part"
  shows "ds_files s' p = ds_files s p"
proof -
  let ?dl = "download e d url part (plain_kwargs digest sz (resumable_bytes s part sz))"
  let ?s1 = "if resumable_bytes s part sz > 0 then s else s\<lparr>ds_files := (ds_files s)(part := None)\<rparr>"
  obtain x s2 where x: "?dl ?s1 = (x, s2)"
    by fastforce
  have "ds_files s' p = ds_files s2 p"
    using assms x by (cases x) (auto simp: download_resumable_def Let_def unlink_missing_ok_def then_io_def bind_io_def catch_io_def
        split: if_splits)
  then show ?thesis
    using download_frame [OF x assms(2)] assms(2) by (simp split: if_splits)
qed

text \<open>Bytes that hashed wrong are not kept for a later download to continue.\<close>

lemma download_resumable_wrong_hash:
  assumes "download_resumable e d url part digest sz s = (Inl HashVerificationError, s')"
  shows "ds_files s' part = None"
proof -
  have "\<exists>s1. s' = s1\<lparr>ds_files := (ds_files s1)(part := None)\<rparr>"
    using assms by (auto simp: download_resumable_def Let_def unlink_missing_ok_def then_raises catch_raises split: if_splits)
  then show ?thesis
    by auto
qed

lemma on_dl_frame: "on_dl m s = (r, s') \<Longrightarrow> dr_in_use s' = dr_in_use s \<and> dr_not_tried s' = dr_not_tried s \<and> dr_ready s' = dr_ready s"
  by (auto simp: on_dl_def split: prod.splits sum.splits)

lemma replace_frame: "replace_file env p q s = (r, s') \<Longrightarrow> dr_in_use s' = dr_in_use s \<and> dr_not_tried s' = dr_not_tried s \<and> dr_ready s' = dr_ready s"
  by (auto simp: replace_file_def split: option.splits if_splits)

lemma replace_returns:
  assumes "replace_file env p q s = (Inr u, s')"
  shows "\<exists>c. ds_files (dr_dl s) p = Some c \<and> ds_files (dr_dl s') q = Some c \<and> (p \<noteq> q \<longrightarrow> ds_files (dr_dl s') p = None)
    \<and> (\<forall>f. f \<noteq> p \<longrightarrow> f \<noteq> q \<longrightarrow> ds_files (dr_dl s') f = ds_files (dr_dl s) f)"
  using assms by (auto simp: replace_file_def split: option.splits if_splits)

lemma replace_other:
  assumes "replace_file env p q s = (r, s')" and "f \<noteq> p" and "f \<noteq> q"
  shows "ds_files (dr_dl s') f = ds_files (dr_dl s) f"
  using assms by (auto simp: replace_file_def split: option.splits if_splits)

text \<open>The body of \<^verbatim>\<open>_download_blob\<close>, with or without a \<^verbatim>\<open>.part\<close> file.\<close>

definition blob_body :: "dr_env \<Rightarrow> downloader_conf \<Rightarrow> string \<Rightarrow> string \<Rightarrow> nat \<Rightarrow> string \<Rightarrow> string option \<Rightarrow> download_result dr_io" where
  "blob_body env d url digest sz save_dst part = (case part of
       None \<Rightarrow> on_dl (download (dr_net env) d url save_dst (plain_kwargs digest sz 0))
     | Some p \<Rightarrow> bind_io (on_dl (download_resumable (dr_net env) d url p digest sz)) (\<lambda>res.
         then_io (replace_file env p save_dst) (ret res)))"

lemma blob_body_frame:
  assumes "blob_body env d url digest sz save_dst part s = (r, s')"
  shows "dr_in_use s' = dr_in_use s \<and> dr_not_tried s' = dr_not_tried s \<and> dr_ready s' = dr_ready s"
proof (cases part)
  case None
  then show ?thesis
    using assms on_dl_frame by (simp add: blob_body_def)
next
  case (Some p)
  obtain x s1 where x: "on_dl (download_resumable (dr_net env) d url p digest sz) s = (x, s1)"
    by fastforce
  obtain y s2 where y: "replace_file env p save_dst s1 = (y, s2)"
    by fastforce
  have "s' = s1 \<or> s' = s2"
    using assms Some x y by (cases x; cases y) (auto simp: blob_body_def)
  then show ?thesis
    using on_dl_frame [OF x] replace_frame [OF y] by auto
qed

lemma blob_body_files:
  assumes "blob_body env d url digest sz save_dst part s = (r, s')" and "f \<noteq> save_dst" and "Some f \<noteq> part"
  shows "ds_files (dr_dl s') f = ds_files (dr_dl s) f"
proof (cases part)
  case None
  then have "on_dl (download (dr_net env) d url save_dst (plain_kwargs digest sz 0)) s = (r, s')"
    using assms(1) by (simp add: blob_body_def)
  then obtain x s1 where "download (dr_net env) d url save_dst (plain_kwargs digest sz 0) (dr_dl s) = (x, s1)" "s' = s\<lparr>dr_dl := s1\<rparr>"
    by (auto simp: on_dl_def split: prod.splits sum.splits)
  then show ?thesis
    using download_frame [of _ d url save_dst _ "dr_dl s" x s1 f] assms(2) by simp
next
  case (Some p)
  obtain x s1 where x: "on_dl (download_resumable (dr_net env) d url p digest sz) s = (x, s1)"
    by fastforce
  obtain y s2 where y: "replace_file env p save_dst s1 = (y, s2)"
    by fastforce
  have s': "s' = s1 \<or> s' = s2"
    using assms Some x y by (cases x; cases y) (auto simp: blob_body_def)
  obtain x' d1 where "download_resumable (dr_net env) d url p digest sz (dr_dl s) = (x', d1)" "s1 = s\<lparr>dr_dl := d1\<rparr>"
    using x by (auto simp: on_dl_def split: prod.splits sum.splits)
  then have "ds_files (dr_dl s1) f = ds_files (dr_dl s) f"
    using download_resumable_frame [of _ d url p digest sz "dr_dl s" x' d1 f] assms(3) Some by auto
  then show ?thesis
    using s' replace_other [OF y, of f] assms(2,3) Some by auto
qed

lemma blob_body_verified:
  assumes "blob_body env d url digest sz save_dst part s = (Inr r, s')" and "digest \<noteq> []" and "sz \<noteq> 0" and "part \<noteq> Some save_dst"
  shows "\<exists>content. ds_files (dr_dl s') save_dst = Some content \<and> length content = sz \<and> de_sha (dr_net env) content = digest
    \<and> download_size r = sz \<and> (\<forall>p. part = Some p \<longrightarrow> ds_files (dr_dl s') p = None)"
proof (cases part)
  case None
  then obtain s1 where s1: "download (dr_net env) d url save_dst (plain_kwargs digest sz 0) (dr_dl s) = (Inr r, s1)" "s' = s\<lparr>dr_dl := s1\<rparr>"
    using assms(1) by (auto simp: blob_body_def on_dl_returns)
  show ?thesis
    using download_good [OF s1(1)] s1(2) assms(2,3) None by (auto simp: file_good_def plain_kwargs_def)
next
  case (Some p)
  then obtain d1 where d1: "download_resumable (dr_net env) d url p digest sz (dr_dl s) = (Inr r, d1)"
      and rp: "replace_file env p save_dst (s\<lparr>dr_dl := d1\<rparr>) = (Inr (), s')"
    using assms(1) by (auto simp: blob_body_def bind_returns then_returns on_dl_returns)
  show ?thesis
    using download_resumable_returns [OF d1 assms(2,3)] replace_returns [OF rp] assms(4) Some by auto
qed

text \<open>
  C18: However large a blob is and whatever an interrupted download left of it: when its download returns, the destination holds a
  file of the expected size with the expected digest and the \<^verbatim>\<open>.part\<close> file it came through is gone; however the download ends, the
  \<^verbatim>\<open>.part\<close> file is no longer in use by it, and no file but these two was touched.
\<close>

theorem downloaded_blob_is_verified:
  assumes run: "download_blob env d tmp url digest sz save_dst s = (r, s')" and args: "digest \<noteq> []" "sz \<noteq> 0" "save_dst \<noteq> part_name tmp digest"
  shows "(\<forall>res. r = Inr res \<longrightarrow> download_size res = sz \<and> (\<exists>content. ds_files (dr_dl s') save_dst = Some content \<and> length content = sz
        \<and> de_sha (dr_net env) content = digest)
        \<and> (RESUMABLE_BLOB_MIN_SIZE \<le> sz \<and> digest \<notin> dr_in_use s \<longrightarrow> ds_files (dr_dl s') (part_name tmp digest) = None))
    \<and> dr_in_use s' = dr_in_use s
    \<and> (\<forall>f. f \<noteq> save_dst \<longrightarrow> f \<noteq> part_name tmp digest \<longrightarrow> ds_files (dr_dl s') f = ds_files (dr_dl s) f)"
proof (cases "RESUMABLE_BLOB_MIN_SIZE \<le> sz \<and> digest \<notin> dr_in_use s")
  case False
  then have b: "blob_body env d url digest sz save_dst None s = (r, s')"
    using run unfolding download_blob_def use_part_def blob_body_def [symmetric] by (auto split: if_splits)
  show ?thesis
    using blob_body_frame [OF b] blob_body_files [OF b] blob_body_verified [of env d url digest sz save_dst None s _ s'] b args False
    by auto
next
  case True
  let ?s = "s\<lparr>dr_in_use := insert digest (dr_in_use s)\<rparr>"
  obtain s1 where b: "blob_body env d url digest sz save_dst (Some (part_name tmp digest)) ?s = (r, s1)"
      and s': "s' = s1\<lparr>dr_in_use := dr_in_use s1 - {digest}\<rparr>"
    using run True unfolding download_blob_def use_part_def blob_body_def [symmetric]
    by (auto simp: finally_io_def split: if_splits prod.splits)
  have "dr_in_use s' = dr_in_use s"
    using blob_body_frame [OF b] s' True by auto
  moreover have "ds_files (dr_dl s') f = ds_files (dr_dl s) f" if "f \<noteq> save_dst" "f \<noteq> part_name tmp digest" for f
    using blob_body_files [OF b that(1)] that(2) s' by simp
  moreover have "download_size res = sz \<and> (\<exists>content. ds_files (dr_dl s') save_dst = Some content \<and> length content = sz
        \<and> de_sha (dr_net env) content = digest) \<and> ds_files (dr_dl s') (part_name tmp digest) = None" if "r = Inr res" for res
    using blob_body_verified [of env d url digest sz save_dst "Some (part_name tmp digest)" ?s res s1] b that args s' by auto
  ultimately show ?thesis
    by simp
qed

definition wit_dr_env :: dr_env where
  "wit_dr_env = \<lparr> dr_net = sample_dl_env, dr_replace_fails = (\<lambda>_ _. False), dr_tmp_fname = (\<lambda>f. ''.tmp_'' @ f) \<rparr>"

definition wit_dr_state :: dr_state where
  "wit_dr_state = \<lparr> dr_dl = sample_dl_state, dr_in_use = {}, dr_not_tried = (\<lambda>_. {}), dr_ready = [] \<rparr>"

theorem downloaded_blob_is_verified_witness:
  "ds_files (dr_dl (snd (download_blob wit_dr_env sample_dl_conf ''/t'' ''http://h/f'' ''abcdef'' 6 ''/d/f'' wit_dr_state))) ''/d/f''
     = Some ''abcdef''"
proof -
  let ?run = "download_blob wit_dr_env sample_dl_conf ''/t'' ''http://h/f'' ''abcdef'' 6 ''/d/f'' wit_dr_state"
  obtain r s' where "download sample_dl_env sample_dl_conf ''http://h/f'' ''/d/f'' sample_dl_kwargs sample_dl_state = (Inr r, s')"
    using cut_download_run [OF sample_cut(3) _ sample_cut(4-8,1) _ sample_cut(2) _ _ _ sample_cut(9), of 3] by auto
  then have run: "?run = (Inr r, snd ?run)"
    by (simp add: download_blob_def use_part_def RESUMABLE_BLOB_MIN_SIZE_def on_dl_def wit_dr_env_def wit_dr_state_def
        plain_kwargs_def sample_dl_kwargs_def)
  have sha: "de_sha (dr_net wit_dr_env) c = c" for c
    by (simp add: wit_dr_env_def sample_dl_env_def)
  show ?thesis
    using downloaded_blob_is_verified [OF run] sha by (auto simp: part_name_def)
qed

text \<open>However the download of a slice ends, the slice counts as tried, and its temporary file is gone.\<close>

lemma slice_tried_effect:
  "dr_not_tried (slice_tried g f s) = (dr_not_tried s)(g := dr_not_tried s g - {f})"
  "dr_ready (slice_tried g f s) = dr_ready s @ (if dr_not_tried s g = {f} then [g] else [])"
  "dr_dl (slice_tried g f s) = dr_dl s" "dr_in_use (slice_tried g f s) = dr_in_use s"
  by (auto simp: slice_tried_def Let_def fun_eq_iff)

lemma blob_groups:
  assumes "download_blob env d tmp url digest sz save_dst s = (r, s')"
  shows "dr_not_tried s' = dr_not_tried s \<and> dr_ready s' = dr_ready s"
proof -
  obtain part s1 s2 where "blob_body env d url digest sz save_dst part s1 = (r, s2)"
      "dr_not_tried s1 = dr_not_tried s" "dr_ready s1 = dr_ready s" "dr_not_tried s' = dr_not_tried s2" "dr_ready s' = dr_ready s2"
    using assms unfolding download_blob_def use_part_def blob_body_def [symmetric]
    by (fastforce simp: finally_io_def split: if_splits prod.splits)
  then show ?thesis
    using blob_body_frame [of env d url digest sz save_dst part s1 r s2] by simp
qed

lemma slice_task_ends:
  assumes run: "download_slice_at_thread env d base tmp sl s = (r, s')" and new: "sl_save_dst sl \<in> dr_not_tried s (sl_group sl)"
  shows "dr_not_tried s' = (dr_not_tried s)(sl_group sl := dr_not_tried s (sl_group sl) - {sl_save_dst sl})
    \<and> dr_ready s' = dr_ready s @ (if dr_not_tried s (sl_group sl) = {sl_save_dst sl} then [sl_group sl] else [])
    \<and> ds_files (dr_dl s') (dir_of (sl_save_dst sl) @ dr_tmp_fname env (base_of (sl_save_dst sl))) = None"
proof -
  let ?t = "dir_of (sl_save_dst sl) @ dr_tmp_fname env (base_of (sl_save_dst sl))"
  let ?m = "bind_io (download_blob env d tmp (blob_url base (sl_digest sl)) (sl_digest sl) (sl_size sl) ?t)
              (\<lambda>res. then_io (replace_file env ?t (sl_save_dst sl)) (ret res))"
  obtain x s1 where x: "?m s = (x, s1)"
    by fastforce
  obtain y s0 where y: "download_blob env d tmp (blob_url base (sl_digest sl)) (sl_digest sl) (sl_size sl) ?t s = (y, s0)"
    by fastforce
  have "dr_not_tried s1 = dr_not_tried s \<and> dr_ready s1 = dr_ready s"
  proof (cases y)
    case (Inl e)
    then show ?thesis
      using x y blob_groups [OF y] by simp
  next
    case (Inr a)
    obtain z s2 where "replace_file env ?t (sl_save_dst sl) s0 = (z, s2)"
      by fastforce
    then show ?thesis
      using x y Inr blob_groups [OF y] replace_frame [of env ?t _ s0 z s2] by (cases z) auto
  qed
  moreover have "s' = slice_tried (sl_group sl) (sl_save_dst sl) (s1\<lparr>dr_dl := (dr_dl s1)\<lparr>ds_files := (ds_files (dr_dl s1))(?t := None)\<rparr>\<rparr>)"
  proof -
    have "finally_io ?m (then_io (on_dl (unlink_missing_ok ?t)) (modify_io (slice_tried (sl_group sl) (sl_save_dst sl)))) s
        = (x, slice_tried (sl_group sl) (sl_save_dst sl) (s1\<lparr>dr_dl := (dr_dl s1)\<lparr>ds_files := (ds_files (dr_dl s1))(?t := None)\<rparr>\<rparr>))"
      unfolding finally_io_def x by (simp add: on_dl_def unlink_missing_ok_def then_io_def bind_io_def)
    then show ?thesis
      using run new by (cases x) (auto simp: download_slice_at_thread_def group_tried_def Let_def)
  qed
  ultimately show ?thesis
    by (simp add: slice_tried_effect)
qed

section \<open>The slices of a resource\<close>

text \<open>The tables of the image, and the files in the download directory at the moment of the look-up.\<close>

datatype rs_filter = No_Filter | Compress_Filter nat | Slice_Filter "nat list" | Other_Filter

record rs_entry =
  re_id :: nat
  re_digest :: string
  re_size :: nat
  re_filter :: rs_filter

record rs_table =
  rt_by_digest :: "string \<Rightarrow> unit + rs_entry option"
  rt_by_id :: "nat \<Rightarrow> unit + rs_entry option"

definition slice_dst :: "string \<Rightarrow> rs_entry \<Rightarrow> rs_entry \<Rightarrow> string" where
  "slice_dst download_tmp_dir entry sl = download_tmp_dir @ ''/'' @ re_digest sl @ ''_'' @ nat_str (re_id entry)"

fun collect_slices :: "rs_table \<Rightarrow> string set \<Rightarrow> string \<Rightarrow> rs_entry \<Rightarrow> nat list \<Rightarrow> (string \<times> nat \<times> string) list \<Rightarrow> unit + (string \<times> nat \<times> string) list" where
  "collect_slices rt files tmp entry [] acc = Inr acc"
| "collect_slices rt files tmp entry (i # is) acc = (case rt_by_id rt i of
     Inl u \<Rightarrow> Inl u
   | Inr None \<Rightarrow> Inr []
   | Inr (Some sl) \<Rightarrow>
       let dst = slice_dst tmp entry sl
       in if dst \<notin> (\<lambda>(_, _, f). f) ` set acc \<and> dst \<notin> files
          then collect_slices rt files tmp entry is (acc @ [(re_digest sl, re_size sl, dst)])
          else collect_slices rt files tmp entry is acc)"

definition slices_of_entry :: "rs_table \<Rightarrow> string set \<Rightarrow> string \<Rightarrow> rs_entry option \<Rightarrow> unit + (string \<times> nat \<times> string) list" where
  "slices_of_entry rt files tmp entry = (case entry of
     None \<Rightarrow> Inr []
   | Some en \<Rightarrow> (case re_filter en of Slice_Filter is \<Rightarrow> collect_slices rt files tmp en is [] | _ \<Rightarrow> Inr []))"

definition slices_to_download :: "rs_table \<Rightarrow> string set \<Rightarrow> string \<Rightarrow> string \<Rightarrow> unit + (string \<times> nat \<times> string) list" where
  "slices_to_download rt files tmp digest = (case rt_by_digest rt digest of
     Inl u \<Rightarrow> Inl u
   | Inr None \<Rightarrow> slices_of_entry rt files tmp None
   | Inr (Some en) \<Rightarrow> (case re_filter en of
         Compress_Filter i \<Rightarrow> (case rt_by_id rt i of
             Inl u \<Rightarrow> Inl u
           | Inr (Some blob) \<Rightarrow> if tmp @ ''/'' @ re_digest blob \<in> files then Inr [] else slices_of_entry rt files tmp (Some blob)
           | Inr None \<Rightarrow> slices_of_entry rt files tmp None)
       | _ \<Rightarrow> slices_of_entry rt files tmp (Some en)))"

text \<open>No slice of one resource is downloaded twice, and none that is there.\<close>

definition dsts :: "(string \<times> nat \<times> string) list \<Rightarrow> string list" where
  "dsts = map (\<lambda>(_, _, f). f)"

lemma collect_slices_distinct:
  assumes "collect_slices rt files tmp en is acc = Inr sls" and "distinct (dsts acc)" and "set (dsts acc) \<inter> files = {}"
  shows "distinct (dsts sls) \<and> set (dsts sls) \<inter> files = {}"
  using assms
proof (induction rt files tmp en "is" acc rule: collect_slices.induct)
  case (2 rt files tmp entry i "is" acc)
  obtain o1 where o1: "rt_by_id rt i = Inr o1"
    using "2.prems"(1) by (auto split: sum.splits)
  show ?case
  proof (cases o1)
    case None
    then show ?thesis
      using "2.prems"(1) o1 by (simp add: dsts_def)
  next
    case (Some sl)
    let ?dst = "slice_dst tmp entry sl"
    show ?thesis
    proof (cases "?dst \<notin> (\<lambda>(_, _, f). f) ` set acc \<and> ?dst \<notin> files")
      case True
      then show ?thesis
        using "2.IH"(1) [OF o1 Some refl True] "2.prems" o1 Some by (auto simp: dsts_def Let_def)
    next
      case False
      then show ?thesis
        using "2.IH"(2) [OF o1 Some refl False] "2.prems"
        unfolding collect_slices.simps o1 Some Let_def sum.case option.case if_not_P [OF False] by blast
    qed
  qed
qed simp

lemma slices_distinct:
  assumes "slices_to_download rt files tmp digest = Inr sls"
  shows "distinct (dsts sls) \<and> set (dsts sls) \<inter> files = {}"
proof -
  have e: "distinct (dsts sls) \<and> set (dsts sls) \<inter> files = {}" if "slices_of_entry rt files tmp en = Inr sls" for en
    using that collect_slices_distinct [of rt files tmp _ _ "[]" sls]
    by (auto simp: slices_of_entry_def dsts_def split: option.splits rs_filter.splits)
  show ?thesis
    using assms e by (auto simp: slices_to_download_def dsts_def split: sum.splits option.splits rs_filter.splits if_splits)
qed

section \<open>The dispatcher\<close>

text \<open>
  \<^verbatim>\<open>_iter_download_tasks\<close> is a generator that runs in the thread of the dispatcher, one task at a time, while the workers try
  slices. Its places: the head of the loop over the digests, the loop that yields the slices of one resource, the loop that yields
  what has become ready, the wait at the end, and the end. \<open>dp_emitted\<close> are the tasks it has yielded.
\<close>

datatype dp_place = DP_Loop | DP_Slices "slice_to_download list" | DP_Drain | DP_Wait | DP_End bool | DP_KeyError

record dispatcher =
  dp_place :: dp_place
  dp_todo :: "string list"
  dp_waiting :: "string set"
  dp_not_tried :: "string \<Rightarrow> string set"
  dp_ready :: "string list"
  dp_emitted :: "dl_task list"
  dp_stop :: bool

definition dp_emit :: "dl_task \<Rightarrow> dispatcher \<Rightarrow> dispatcher" where
  "dp_emit t s = s\<lparr>dp_emitted := dp_emitted s @ [t]\<rparr>"

definition slice_tasks :: "string \<Rightarrow> (string \<times> nat \<times> string) list \<Rightarrow> slice_to_download list" where
  "slice_tasks digest sls = map (\<lambda>(sd, n, f). \<lparr> sl_digest = sd, sl_size = n, sl_save_dst = f, sl_group = digest \<rparr>) sls"

text \<open>One round of the loop up to the first yield. A failed look-up means no slices.\<close>

definition dp_next :: "(unit + (string \<times> nat \<times> string) list) \<Rightarrow> dispatcher \<Rightarrow> dispatcher" where
  "dp_next looked_up s = (case dp_todo s of
     [] \<Rightarrow> s\<lparr>dp_place := DP_Wait\<rparr>
   | digest # ds \<Rightarrow>
       let slices = (case looked_up of Inl _ \<Rightarrow> [] | Inr sls \<Rightarrow> sls)
       in if slices \<noteq> []
          then s\<lparr>dp_todo := ds, dp_waiting := insert digest (dp_waiting s),
                 dp_not_tried := (dp_not_tried s)(digest := set (dsts slices)), dp_place := DP_Slices (slice_tasks digest slices)\<rparr>
          else dp_emit (T_Resource digest) (s\<lparr>dp_todo := ds, dp_place := DP_Drain\<rparr>))"

text \<open>A digest from the queue of resources whose slices have all been tried; \<^verbatim>\<open>del\<close> raises for one nobody waits for.\<close>

definition dp_take_ready :: "dispatcher \<Rightarrow> dispatcher" where
  "dp_take_ready s = (case dp_ready s of
     [] \<Rightarrow> s
   | r # rs \<Rightarrow> if r \<in> dp_waiting s
       then dp_emit (T_Resource r) (s\<lparr>dp_ready := rs, dp_waiting := dp_waiting s - {r}\<rparr>)
       else s\<lparr>dp_place := DP_KeyError\<rparr>)"

definition dp_slice_tried :: "string \<Rightarrow> string \<Rightarrow> dispatcher \<Rightarrow> dispatcher" where
  "dp_slice_tried g f s =
     (if f \<notin> dp_not_tried s g then s
      else s\<lparr>dp_not_tried := (dp_not_tried s)(g := dp_not_tried s g - {f}),
             dp_ready := (if dp_not_tried s g - {f} \<noteq> {} then dp_ready s else dp_ready s @ [g])\<rparr>)"

inductive dp_step :: "rs_table \<Rightarrow> string \<Rightarrow> dispatcher \<Rightarrow> dispatcher \<Rightarrow> bool" for rt tmp where
  dp_next: "dp_place s = DP_Loop \<Longrightarrow> dp_step rt tmp s (dp_next (slices_to_download rt files tmp (hd (dp_todo s))) s)"
| dp_yield_slice: "dp_place s = DP_Slices (sl # sls) \<Longrightarrow> dp_step rt tmp s (dp_emit (T_Slice sl) (s\<lparr>dp_place := DP_Slices sls\<rparr>))"
| dp_slices_done: "dp_place s = DP_Slices [] \<Longrightarrow> dp_step rt tmp s (s\<lparr>dp_place := DP_Drain\<rparr>)"
| dp_drain: "dp_place s = DP_Drain \<Longrightarrow> dp_ready s \<noteq> [] \<Longrightarrow> dp_step rt tmp s (dp_take_ready s)"
| dp_drained: "dp_place s = DP_Drain \<Longrightarrow> dp_ready s = [] \<Longrightarrow> dp_step rt tmp s (s\<lparr>dp_place := DP_Loop\<rparr>)"
| dp_done: "dp_place s = DP_Wait \<Longrightarrow> dp_waiting s = {} \<Longrightarrow> dp_step rt tmp s (s\<lparr>dp_place := DP_End True\<rparr>)"
| dp_wait_ready: "dp_place s = DP_Wait \<Longrightarrow> dp_waiting s \<noteq> {} \<Longrightarrow> dp_ready s \<noteq> [] \<Longrightarrow> dp_step rt tmp s (dp_take_ready s)"
| dp_wait_stop: "dp_place s = DP_Wait \<Longrightarrow> dp_waiting s \<noteq> {} \<Longrightarrow> dp_ready s = [] \<Longrightarrow> dp_stop s \<Longrightarrow> dp_step rt tmp s (s\<lparr>dp_place := DP_End False\<rparr>)"
| dp_worker: "T_Slice sl \<in> set (dp_emitted s) \<Longrightarrow> dp_step rt tmp s (dp_slice_tried (sl_group sl) (sl_save_dst sl) s)"
| dp_set_stop: "dp_step rt tmp s (s\<lparr>dp_stop := True\<rparr>)"

inductive_cases dp_stepE: "dp_step rt tmp s s'"

definition dp_init :: "string list \<Rightarrow> dispatcher \<Rightarrow> bool" where
  "dp_init resources s \<longleftrightarrow> distinct resources \<and> s = \<lparr> dp_place = DP_Loop, dp_todo = resources, dp_waiting = {}, dp_not_tried = (\<lambda>_. {}),
     dp_ready = [], dp_emitted = [], dp_stop = False \<rparr>"

text \<open>The worker's step is what the task does to the group.\<close>

lemma dp_slice_tried_group:
  assumes "dr_not_tried d = dp_not_tried s" and "dr_ready d = dp_ready s"
  shows "dr_not_tried (slice_tried g f d) = dp_not_tried (dp_slice_tried g f s) \<and> dr_ready (slice_tried g f d) = dp_ready (dp_slice_tried g f s)"
  using assms by (simp add: slice_tried_def dp_slice_tried_def Let_def)

definition emitted_resources :: "dispatcher \<Rightarrow> string list" where
  "emitted_resources s = List.map_filter (\<lambda>t. case t of T_Resource d \<Rightarrow> Some d | T_Slice _ \<Rightarrow> None) (dp_emitted s)"

definition to_yield :: "dispatcher \<Rightarrow> slice_to_download list" where
  "to_yield s = (case dp_place s of DP_Slices sls \<Rightarrow> sls | _ \<Rightarrow> [])"

definition emitted_slices :: "dispatcher \<Rightarrow> slice_to_download list" where
  "emitted_slices s = List.map_filter (\<lambda>t. case t of T_Resource _ \<Rightarrow> None | T_Slice sl \<Rightarrow> Some sl) (dp_emitted s)"

definition slice_key :: "slice_to_download \<Rightarrow> string \<times> string" where
  "slice_key sl = (sl_group sl, sl_save_dst sl)"

text \<open>
  The invariant: every resource is dispatched, waits or is still to come, and only once; a resource waits until its last slice has
  been tried, when it is put on the queue; the slices that were not tried have been yielded or are being yielded, each once.
\<close>

definition dp_inv :: "string list \<Rightarrow> dispatcher \<Rightarrow> bool" where
  "dp_inv resources s \<longleftrightarrow> dp_place s \<noteq> DP_KeyError
     \<and> mset resources = mset (emitted_resources s) + mset_set (dp_waiting s) + mset (dp_todo s) \<and> finite (dp_waiting s)
     \<and> distinct (dp_ready s) \<and> set (dp_ready s) = {d \<in> dp_waiting s. dp_not_tried s d = {}}
     \<and> (\<forall>d. d \<notin> dp_waiting s \<longrightarrow> dp_not_tried s d = {})
     \<and> (\<forall>d f. f \<in> dp_not_tried s d \<longrightarrow> (d, f) \<in> slice_key ` set (emitted_slices s @ to_yield s))
     \<and> (dp_place s \<in> {DP_Wait, DP_End True, DP_End False} \<longrightarrow> dp_todo s = [])
     \<and> (dp_place s = DP_End True \<longrightarrow> dp_waiting s = {})
     \<and> distinct (map slice_key (emitted_slices s @ to_yield s))
     \<and> sl_group ` set (emitted_slices s @ to_yield s) \<subseteq> set (emitted_resources s) \<union> dp_waiting s"

lemma emit_simps [simp]:
  "dp_place (dp_emit t s) = dp_place s" "dp_todo (dp_emit t s) = dp_todo s" "dp_waiting (dp_emit t s) = dp_waiting s"
  "dp_not_tried (dp_emit t s) = dp_not_tried s" "dp_ready (dp_emit t s) = dp_ready s" "dp_stop (dp_emit t s) = dp_stop s"
  "dp_emitted (dp_emit t s) = dp_emitted s @ [t]" "to_yield (dp_emit t s) = to_yield s"
  by (simp_all add: dp_emit_def to_yield_def)

lemma emitted_emit [simp]:
  "emitted_resources (dp_emit (T_Resource d) s) = emitted_resources s @ [d]"
  "emitted_resources (dp_emit (T_Slice sl) s) = emitted_resources s"
  "emitted_slices (dp_emit (T_Resource d) s) = emitted_slices s"
  "emitted_slices (dp_emit (T_Slice sl) s) = emitted_slices s @ [sl]"
  by (simp_all add: emitted_resources_def emitted_slices_def List.map_filter_def)

lemma emitted_updates [simp]:
  "emitted_resources (s\<lparr>dp_place := a\<rparr>) = emitted_resources s" "emitted_resources (s\<lparr>dp_todo := b\<rparr>) = emitted_resources s"
  "emitted_resources (s\<lparr>dp_waiting := c\<rparr>) = emitted_resources s" "emitted_resources (s\<lparr>dp_not_tried := d\<rparr>) = emitted_resources s"
  "emitted_resources (s\<lparr>dp_ready := e\<rparr>) = emitted_resources s" "emitted_resources (s\<lparr>dp_stop := f\<rparr>) = emitted_resources s"
  "emitted_slices (s\<lparr>dp_place := a\<rparr>) = emitted_slices s" "emitted_slices (s\<lparr>dp_todo := b\<rparr>) = emitted_slices s"
  "emitted_slices (s\<lparr>dp_waiting := c\<rparr>) = emitted_slices s" "emitted_slices (s\<lparr>dp_not_tried := d\<rparr>) = emitted_slices s"
  "emitted_slices (s\<lparr>dp_ready := e\<rparr>) = emitted_slices s" "emitted_slices (s\<lparr>dp_stop := f\<rparr>) = emitted_slices s"
  "to_yield (s\<lparr>dp_todo := b\<rparr>) = to_yield s" "to_yield (s\<lparr>dp_waiting := c\<rparr>) = to_yield s" "to_yield (s\<lparr>dp_not_tried := d\<rparr>) = to_yield s"
  "to_yield (s\<lparr>dp_ready := e\<rparr>) = to_yield s" "to_yield (s\<lparr>dp_stop := f\<rparr>) = to_yield s"
  "to_yield (s\<lparr>dp_place := a\<rparr>) = (case a of DP_Slices sls \<Rightarrow> sls | _ \<Rightarrow> [])"
  by (simp_all add: emitted_resources_def emitted_slices_def to_yield_def)

lemma emitted_slices_iff: "sl \<in> set (emitted_slices s) \<longleftrightarrow> T_Slice sl \<in> set (dp_emitted s)"
  by (force simp: emitted_slices_def List.map_filter_def split: dl_task.splits)

lemma dp_invD:
  assumes "dp_inv resources s"
  shows "dp_place s \<noteq> DP_KeyError"
    and "mset resources = mset (emitted_resources s) + mset_set (dp_waiting s) + mset (dp_todo s)" and "finite (dp_waiting s)"
    and "distinct (dp_ready s)" and "set (dp_ready s) = {d \<in> dp_waiting s. dp_not_tried s d = {}}"
    and "d \<notin> dp_waiting s \<Longrightarrow> dp_not_tried s d = {}"
    and "f \<in> dp_not_tried s d \<Longrightarrow> (d, f) \<in> slice_key ` set (emitted_slices s @ to_yield s)"
    and "dp_place s \<in> {DP_Wait, DP_End True, DP_End False} \<Longrightarrow> dp_todo s = []" and "dp_place s = DP_End True \<Longrightarrow> dp_waiting s = {}"
    and "distinct (map slice_key (emitted_slices s @ to_yield s))"
    and "sl_group ` set (emitted_slices s @ to_yield s) \<subseteq> set (emitted_resources s) \<union> dp_waiting s"
  using assms unfolding dp_inv_def by simp_all

lemma count_distinct_le: "distinct xs \<Longrightarrow> count (mset xs) a \<le> 1"
  using iffD1 [OF distinct_count_atmost_1, of xs, THEN spec, of a] by (simp split: if_splits)

lemma distinct_sub_mset:
  assumes "mset xs \<subseteq># mset ys" and "distinct ys"
  shows "distinct xs"
proof -
  have "count (mset xs) a \<le> 1" for a
    using mset_subset_eq_count [OF assms(1), of a] count_distinct_le [OF assms(2), of a] by linarith
  moreover have "count (mset xs) a \<ge> 1" if "a \<in> set xs" for a
    using that by (simp add: Suc_le_eq)
  ultimately have "count (mset xs) a = (if a \<in> set xs then 1 else 0)" for a
    by (auto simp: le_antisym count_eq_zero_iff)
  then show ?thesis
    by (simp add: distinct_count_atmost_1)
qed

lemma todo_not_waiting:
  assumes "distinct resources" and inv: "dp_inv resources s" and "dp_todo s = d # ds"
  shows "d \<notin> dp_waiting s" and "d \<notin> set (emitted_resources s)"
proof -
  have "count (mset resources) d \<le> 1"
    by (rule count_distinct_le [OF assms(1)])
  then have "count (mset (emitted_resources s)) d + count (mset_set (dp_waiting s)) d + 1 \<le> 1"
    using dp_invD(2) [OF inv] assms(3) by simp
  then have *: "count (mset (emitted_resources s)) d = 0" "count (mset_set (dp_waiting s)) d = 0"
    by simp_all
  show "d \<notin> set (emitted_resources s)"
    using *(1) by (simp add: count_eq_zero_iff)
  show "d \<notin> dp_waiting s"
    using *(2) dp_invD(3) [OF inv] by (metis count_mset_set(1) zero_neq_one)
qed

lemma slice_tasks_keys: "map slice_key (slice_tasks d sls) = map (Pair d) (dsts sls)"
  by (auto simp: slice_tasks_def slice_key_def dsts_def)

lemma dp_next_inv:
  assumes dist: "distinct resources" and inv: "dp_inv resources s" and pl: "dp_place s = DP_Loop"
    and sl: "\<And>sls. lu = Inr sls \<Longrightarrow> distinct (dsts sls)"
  shows "dp_inv resources (dp_next lu s)"
proof (cases "dp_todo s")
  case Nil
  then show ?thesis
    using inv pl by (simp add: dp_next_def dp_inv_def to_yield_def)
next
  case (Cons d ds)
  define sls where "sls = (case lu of Inl _ \<Rightarrow> [] | Inr sls \<Rightarrow> sls)"
  note new = todo_not_waiting [OF dist inv Cons]
  have yield: "to_yield s = []"
    using pl by (simp add: to_yield_def)
  show ?thesis
  proof (cases "sls = []")
    case True
    then have eq: "dp_next lu s = dp_emit (T_Resource d) (s\<lparr>dp_todo := ds, dp_place := DP_Drain\<rparr>)"
      using Cons by (simp add: dp_next_def Let_def sls_def)
    show ?thesis
      using inv Cons yield unfolding dp_inv_def eq by auto
  next
    case False
    then have eq: "dp_next lu s = s\<lparr>dp_todo := ds, dp_waiting := insert d (dp_waiting s),
        dp_not_tried := (dp_not_tried s)(d := set (dsts sls)), dp_place := DP_Slices (slice_tasks d sls)\<rparr>"
      using Cons by (simp add: dp_next_def Let_def sls_def)
    have ne: "set (dsts sls) \<noteq> {}"
      using False by (cases sls) (auto simp: dsts_def)
    have dd: "distinct (dsts sls)"
      using sl by (cases lu) (auto simp: sls_def dsts_def)
    let ?nt = "(dp_not_tried s)(d := set (dsts sls))"
    have keys: "slice_key ` set (slice_tasks d sls) = Pair d ` set (dsts sls)"
      using slice_tasks_keys [of d sls] by (metis list.set_map)
    have "(g, f) \<in> slice_key ` set (emitted_slices s @ slice_tasks d sls)" if "f \<in> ?nt g" for f g
      using that keys dp_invD(7) [OF inv, of f g] yield by (auto simp: image_Un split: if_splits)
    moreover have "mset resources = mset (emitted_resources s) + mset_set (insert d (dp_waiting s)) + mset ds"
      using dp_invD(2,3) [OF inv] Cons new(1) by simp
    moreover have "set (dp_ready s) = {x \<in> insert d (dp_waiting s). ?nt x = {}}"
      using dp_invD(5) [OF inv] new(1) ne by auto
    moreover have "distinct (map slice_key (emitted_slices s @ slice_tasks d sls))"
      using dp_invD(10,11) [OF inv] yield dd new slice_tasks_keys [of d sls]
      by (auto simp: distinct_map inj_on_def slice_key_def keys [unfolded slice_key_def])
    moreover have "sl_group ` set (emitted_slices s @ slice_tasks d sls) \<subseteq> set (emitted_resources s) \<union> insert d (dp_waiting s)"
      using dp_invD(11) [OF inv] by (auto simp: slice_tasks_def)
    ultimately show ?thesis
      using dp_invD(3,4,6) [OF inv] unfolding dp_inv_def eq by simp
  qed
qed

lemma dp_take_ready_inv:
  assumes inv: "dp_inv resources s" and pl: "dp_place s \<in> {DP_Drain, DP_Wait}" and ne: "dp_ready s \<noteq> []"
  shows "dp_inv resources (dp_take_ready s)"
proof -
  obtain r rs where r: "dp_ready s = r # rs"
    using ne by (cases "dp_ready s") auto
  then have w: "r \<in> dp_waiting s" "dp_not_tried s r = {}"
    using dp_invD(5) [OF inv] by auto
  have eq: "dp_take_ready s = dp_emit (T_Resource r) (s\<lparr>dp_ready := rs, dp_waiting := dp_waiting s - {r}\<rparr>)"
    using r w by (simp add: dp_take_ready_def)
  have "mset_set (dp_waiting s) = add_mset r (mset_set (dp_waiting s - {r}))"
    using w(1) dp_invD(3) [OF inv] by (simp add: mset_set.remove)
  moreover have "set rs = {d \<in> dp_waiting s - {r}. dp_not_tried s d = {}}"
    using dp_invD(4,5) [OF inv] r by auto
  moreover have "d \<notin> dp_waiting s - {r} \<Longrightarrow> dp_not_tried s d = {}" for d
    using dp_invD(6) [OF inv, of d] w(2) by auto
  moreover have "distinct rs"
    using dp_invD(4) [OF inv] r by simp
  moreover have "sl_group ` set (emitted_slices s @ to_yield s) \<subseteq> set (emitted_resources s @ [r]) \<union> (dp_waiting s - {r})"
    using dp_invD(11) [OF inv] by auto
  moreover have "dp_place s \<noteq> DP_End b" for b
    using pl by auto
  ultimately show ?thesis
    using dp_invD(1,2,3,7,8,10) [OF inv] unfolding dp_inv_def eq by (simp del: set_append)
qed

lemma dp_worker_inv:
  assumes inv: "dp_inv resources s"
  shows "dp_inv resources (dp_slice_tried g f s)"
proof (cases "f \<in> dp_not_tried s g")
  case True
  then have w: "g \<in> dp_waiting s" "g \<notin> set (dp_ready s)"
    using dp_invD(5,6) [OF inv] by auto
  let ?nt = "(dp_not_tried s)(g := dp_not_tried s g - {f})"
  let ?rd = "if dp_not_tried s g - {f} \<noteq> {} then dp_ready s else dp_ready s @ [g]"
  have eq: "dp_slice_tried g f s = s\<lparr>dp_not_tried := ?nt, dp_ready := ?rd\<rparr>"
    using True by (simp add: dp_slice_tried_def)
  have "set ?rd = {d \<in> dp_waiting s. ?nt d = {}}"
    using dp_invD(5) [OF inv] w True by auto
  moreover have "distinct ?rd"
    using dp_invD(4) [OF inv] w(2) by auto
  moreover have "d \<notin> dp_waiting s \<longrightarrow> ?nt d = {}" for d
    using dp_invD(6) [OF inv, of d] by auto
  moreover have "(d, x) \<in> slice_key ` set (emitted_slices s @ to_yield s)" if "x \<in> ?nt d" for d x
    using dp_invD(7) [OF inv, of x d] that by (simp split: if_splits)
  ultimately show ?thesis
    using dp_invD(1,2,3,8,9,10,11) [OF inv] unfolding dp_inv_def eq by (simp del: fun_upd_apply)
qed (simp add: dp_slice_tried_def inv)

lemma dp_step_inv:
  assumes dist: "distinct resources" and inv: "dp_inv resources s" and step: "dp_step rt tmp s s'"
  shows "dp_inv resources s'"
  using step
proof cases
  case (dp_next files)
  have "dp_inv resources (dp_next (slices_to_download rt files tmp (hd (dp_todo s))) s)"
    by (rule dp_next_inv [OF dist inv dp_next(2)]) (use slices_distinct in blast)
  then show ?thesis
    using dp_next(1) by simp
next
  case (dp_yield_slice sl sls)
  then show ?thesis
    using inv unfolding dp_inv_def by (simp add: to_yield_def)
next
  case dp_slices_done
  then show ?thesis
    using inv unfolding dp_inv_def by (simp add: to_yield_def)
next
  case dp_drain
  then show ?thesis
    using dp_take_ready_inv [OF inv] by simp
next
  case dp_drained
  then show ?thesis
    using inv unfolding dp_inv_def by (simp add: to_yield_def)
next
  case dp_done
  then show ?thesis
    using inv unfolding dp_inv_def by (simp add: to_yield_def)
next
  case dp_wait_ready
  then show ?thesis
    using dp_take_ready_inv [OF inv] by simp
next
  case dp_wait_stop
  then show ?thesis
    using inv unfolding dp_inv_def by (simp add: to_yield_def)
next
  case (dp_worker sl)
  then show ?thesis
    using dp_worker_inv [OF inv] by simp
next
  case dp_set_stop
  then show ?thesis
    using inv unfolding dp_inv_def by simp
qed

interpretation dp: step_invariant "dp_init resources" "dp_step rt tmp" "\<lambda>s. distinct resources \<and> dp_inv resources s"
proof unfold_locales
  show "distinct resources \<and> dp_inv resources s" if "dp_init resources s" for s
    using that by (simp add: dp_init_def dp_inv_def emitted_resources_def emitted_slices_def List.map_filter_def to_yield_def)
  show "distinct resources \<and> dp_inv resources s'" if "distinct resources \<and> dp_inv resources s" "dp_step rt tmp s s'" for s s'
    using that dp_step_inv by blast
qed

text \<open>
  C19: The dispatcher of the downloads of an image of version 1, whatever the order in which the workers try the slices: no resource
  and no slice is dispatched twice, a resource is dispatched only when each of its slices has been tried, a dispatcher that ends
  without having been stopped has dispatched every resource, and one that waits waits for a slice that it has dispatched and that
  was not tried yet, so that it goes on as soon as the workers are through.
\<close>

theorem slices_before_their_resource:
  assumes "reachable (dp_init resources) (dp_step rt tmp) s"
  shows "distinct (emitted_resources s) \<and> set (emitted_resources s) \<subseteq> set resources
    \<and> distinct (map slice_key (emitted_slices s))
    \<and> (\<forall>sl \<in> set (emitted_slices s). sl_group sl \<in> set (emitted_resources s) \<longrightarrow> sl_save_dst sl \<notin> dp_not_tried s (sl_group sl))
    \<and> (dp_place s = DP_End True \<longrightarrow> mset (emitted_resources s) = mset resources)
    \<and> (dp_place s = DP_Wait \<and> dp_waiting s \<noteq> {} \<and> dp_ready s = []
         \<longrightarrow> (\<exists>sl \<in> set (emitted_slices s). sl_save_dst sl \<in> dp_not_tried s (sl_group sl)))"
proof -
  have inv: "dp_inv resources s" and dist: "distinct resources"
    using dp.inv_reachable [OF assms] by auto
  have sub: "mset (emitted_resources s) \<subseteq># mset resources"
    using dp_invD(2) [OF inv] by simp
  then have d: "distinct (emitted_resources s)"
    by (rule distinct_sub_mset [OF _ dist])
  have "dp_not_tried s g = {}" if "g \<in> set (emitted_resources s)" for g
  proof (rule dp_invD(6) [OF inv])
    have "count (mset resources) g \<le> 1"
      by (rule count_distinct_le [OF dist])
    moreover have "count (mset (emitted_resources s)) g \<ge> 1"
      using that by (simp add: Suc_le_eq)
    moreover have "count (mset resources) g = count (mset (emitted_resources s)) g + count (mset_set (dp_waiting s)) g + count (mset (dp_todo s)) g"
      by (simp add: dp_invD(2) [OF inv])
    ultimately have "count (mset_set (dp_waiting s)) g = 0"
      by linarith
    then show "g \<notin> dp_waiting s"
      using dp_invD(3) [OF inv] by (metis count_mset_set(1) zero_neq_one)
  qed
  moreover have "mset (emitted_resources s) = mset resources" if "dp_place s = DP_End True"
    using that dp_invD(2,8,9) [OF inv] by simp
  moreover have "\<exists>sl \<in> set (emitted_slices s). sl_save_dst sl \<in> dp_not_tried s (sl_group sl)"
    if w: "dp_place s = DP_Wait" "dp_waiting s \<noteq> {}" "dp_ready s = []"
  proof -
    obtain g where "g \<in> dp_waiting s"
      using w(2) by blast
    then have "dp_not_tried s g \<noteq> {}"
      using w(3) dp_invD(5) [OF inv] by auto
    then obtain f where "f \<in> dp_not_tried s g"
      by blast
    then show ?thesis
      using dp_invD(7) [OF inv, of f g] w(1) by (auto simp: slice_key_def to_yield_def)
  qed
  ultimately show ?thesis
    using d set_mset_mono [OF sub] dp_invD(10) [OF inv] by auto
qed

text \<open>An image with one resource of two slices.\<close>

definition wit_rt :: rs_table where
  "wit_rt = \<lparr> rt_by_digest = (\<lambda>d. if d = ''big'' then Inr (Some \<lparr> re_id = 1, re_digest = ''big'', re_size = 4, re_filter = Slice_Filter [2, 3] \<rparr>) else Inr None),
     rt_by_id = (\<lambda>i. Inr (Some \<lparr> re_id = i, re_digest = (if i = 2 then ''s2'' else ''s3''), re_size = 2, re_filter = No_Filter \<rparr>)) \<rparr>"

definition wit_dp :: dispatcher where
  "wit_dp = \<lparr> dp_place = DP_Loop, dp_todo = [''big''], dp_waiting = {}, dp_not_tried = (\<lambda>_. {}), dp_ready = [], dp_emitted = [], dp_stop = False \<rparr>"

lemma wit_slices: "slices_to_download wit_rt {} ''/t'' ''big'' = Inr [(''s2'', 2, ''/t/s2_1''), (''s3'', 2, ''/t/s3_1'')]"
  by code_simp

definition wit_dp1 :: dispatcher where "wit_dp1 = dp_next (slices_to_download wit_rt {} ''/t'' (hd (dp_todo wit_dp))) wit_dp"
definition wit_dp2 :: dispatcher where
  "wit_dp2 = dp_emit (T_Slice \<lparr> sl_digest = ''s2'', sl_size = 2, sl_save_dst = ''/t/s2_1'', sl_group = ''big'' \<rparr>)
     (wit_dp1\<lparr>dp_place := DP_Slices [\<lparr> sl_digest = ''s3'', sl_size = 2, sl_save_dst = ''/t/s3_1'', sl_group = ''big'' \<rparr>]\<rparr>)"
definition wit_dp3 :: dispatcher where "wit_dp3 = dp_slice_tried ''big'' ''/t/s2_1'' wit_dp2"

lemma wit_dp_reachable: "reachable (dp_init [''big'']) (dp_step wit_rt ''/t'') wit_dp3"
proof -
  have "reachable (dp_init [''big'']) (dp_step wit_rt ''/t'') wit_dp"
    by (rule reach_init) (simp add: dp_init_def wit_dp_def)
  moreover have "dp_step wit_rt ''/t'' wit_dp wit_dp1"
    unfolding wit_dp1_def by (rule dp_next) (simp add: wit_dp_def)
  ultimately have r1: "reachable (dp_init [''big'']) (dp_step wit_rt ''/t'') wit_dp1"
    by (rule reach_step)
  have "dp_place wit_dp1 = DP_Slices [\<lparr> sl_digest = ''s2'', sl_size = 2, sl_save_dst = ''/t/s2_1'', sl_group = ''big'' \<rparr>,
      \<lparr> sl_digest = ''s3'', sl_size = 2, sl_save_dst = ''/t/s3_1'', sl_group = ''big'' \<rparr>]"
    by (simp add: wit_dp1_def wit_dp_def wit_slices dp_next_def slice_tasks_def)
  then have "dp_step wit_rt ''/t'' wit_dp1 wit_dp2"
    unfolding wit_dp2_def by (rule dp_yield_slice)
  then have r2: "reachable (dp_init [''big'']) (dp_step wit_rt ''/t'') wit_dp2"
    by (rule reach_step [OF r1])
  have "T_Slice \<lparr> sl_digest = ''s2'', sl_size = 2, sl_save_dst = ''/t/s2_1'', sl_group = ''big'' \<rparr> \<in> set (dp_emitted wit_dp2)"
    by (simp add: wit_dp2_def)
  then have "dp_step wit_rt ''/t'' wit_dp2 wit_dp3"
    using dp_worker by (fastforce simp: wit_dp3_def)
  then show ?thesis
    by (rule reach_step [OF r2])
qed

theorem slices_before_their_resource_witness:
  "distinct (emitted_resources wit_dp3) \<and> set (emitted_resources wit_dp3) \<subseteq> {''big''} \<and> length (emitted_slices wit_dp3) = 1"
  using slices_before_their_resource [OF wit_dp_reachable]
  by (simp add: wit_dp3_def wit_dp2_def wit_dp1_def dp_slice_tried_def emitted_slices_def List.map_filter_def wit_dp_def wit_slices dp_next_def dsts_def)

section \<open>A batch of metadata files\<close>

definition info_good :: "dr_env \<Rightarrow> dr_state \<Rightarrow> download_info \<Rightarrow> bool" where
  "info_good env s i \<longleftrightarrow> (\<exists>c. ds_files (dr_dl s) (di_dst i) = Some c \<and> di_original_size i \<in> {0, length c}
     \<and> di_digest i \<in> {None, Some [], Some (de_sha (dr_net env) c)})"

lemma download_one_good:
  assumes "download_one env d i s = (Inr r, s')"
  shows "info_good env s' i" and "f \<noteq> di_dst i \<Longrightarrow> ds_files (dr_dl s') f = ds_files (dr_dl s) f"
proof -
  have "info_good env s' i \<and> (f \<noteq> di_dst i \<longrightarrow> ds_files (dr_dl s') f = ds_files (dr_dl s) f)"
  proof (cases "di_resume i")
    case True
    then obtain dg d1 where dg: "di_digest i = Some dg" "dg \<noteq> []" "di_original_size i \<noteq> 0"
        and d1: "download_resumable (dr_net env) d (di_url i) (di_dst i) dg (di_original_size i) (dr_dl s) = (Inr r, d1)"
        and s': "s' = s\<lparr>dr_dl := d1\<rparr>"
      using assms by (auto simp: download_one_def on_dl_returns split: if_splits)
    show ?thesis
      using download_resumable_returns [OF d1 dg(2,3)] download_resumable_frame [OF d1, of f] dg s' by (auto simp: info_good_def)
  next
    case False
    then obtain kw d1 where d1: "download (dr_net env) d (di_url i) (di_dst i) kw (dr_dl s) = (Inr r, d1)" and s': "s' = s\<lparr>dr_dl := d1\<rparr>"
        and kw: "kw_size kw = Some (di_original_size i)" "kw_digest kw = di_digest i"
      using assms by (fastforce simp: download_one_def on_dl_returns)
    show ?thesis
      using download_good [OF d1] download_frame [OF d1, of f] kw s' by (auto simp: info_good_def file_good_def)
  qed
  then show "info_good env s' i" and "f \<noteq> di_dst i \<Longrightarrow> ds_files (dr_dl s') f = ds_files (dr_dl s) f"
    by auto
qed

lemma info_good_frame: "ds_files (dr_dl s') (di_dst i) = ds_files (dr_dl s) (di_dst i) \<Longrightarrow> info_good env s' i = info_good env s i"
  by (simp add: info_good_def)

lemma traverse_keeps:
  assumes "traverse_io f xs s = (Inr ys, s')" and "K s" and "\<And>x s y s'. x \<in> set xs \<Longrightarrow> f x s = (Inr y, s') \<Longrightarrow> K s \<Longrightarrow> K s'"
  shows "K s'"
  using assms
proof (induction xs arbitrary: s ys)
  case (Cons x xs)
  obtain y s1 ys' where y: "f x s = (Inr y, s1)" and t: "traverse_io f xs s1 = (Inr ys', s')"
    using Cons.prems(1) by (auto simp: io_returns)
  have "K s1"
    using Cons.prems(3) [OF _ y Cons.prems(2)] by simp
  then show ?case
    by (rule Cons.IH [OF t]) (meson Cons.prems(3) list.set_intros(2))
qed (simp add: io_returns)

lemma traverse_establishes:
  assumes "traverse_io f xs s = (Inr ys, s')"
    and "\<And>x s y s'. x \<in> set xs \<Longrightarrow> f x s = (Inr y, s') \<Longrightarrow> P x y s'"
    and "\<And>x s y s' z w. x \<in> set xs \<Longrightarrow> f x s = (Inr y, s') \<Longrightarrow> P z w s \<Longrightarrow> P z w s'"
  shows "list_all2 (\<lambda>x y. P x y s') xs ys"
  using assms
proof (induction xs arbitrary: s ys)
  case (Cons x xs)
  obtain y s1 ys' where y: "f x s = (Inr y, s1)" and t: "traverse_io f xs s1 = (Inr ys', s')" and ys: "ys = y # ys'"
    using Cons.prems(1) by (auto simp: io_returns)
  have "P x y s'"
    by (rule traverse_keeps [OF t, of "P x y"]) (use Cons.prems(2) [OF _ y] in simp, meson Cons.prems(3) list.set_intros(2))
  moreover have "list_all2 (\<lambda>x y. P x y s') xs ys'"
    by (rule Cons.IH [OF t]) (meson Cons.prems(2,3) list.set_intros(2))+
  ultimately show ?case
    using ys by simp
qed (simp add: io_returns)

text \<open>The files of a batch go to different places: downloading one leaves the others, or downloads the same one again.\<close>

lemma download_one_keeps_good:
  assumes "download_one env d i s = (Inr r, s')" and "i \<in> set infos" and "j \<in> set infos" and "inj_on di_dst (set infos)" and "info_good env s j"
  shows "info_good env s' j"
proof (cases "di_dst j = di_dst i")
  case True
  then have "j = i"
    using assms(2-4) by (simp add: inj_on_def)
  then show ?thesis
    using download_one_good(1) [OF assms(1)] by simp
next
  case False
  then show ?thesis
    using info_good_frame [OF download_one_good(2) [OF assms(1) False]] assms(5) by simp
qed

lemma batch_is_verified:
  assumes run: "download_with_condition_at_thread env d spare infos s = (Inr rs, s')" and inj: "inj_on di_dst (set infos)"
  shows "length rs = length infos \<and> (\<forall>i \<in> set infos. info_good env s' i)"
proof (cases "length infos < 2")
  case True
  let ?P = "\<lambda>i (_ :: download_result) s. i \<in> set infos \<and> info_good env s i"
  have "traverse_io (download_one env d) infos s = (Inr rs, s')"
    using run True by (simp add: download_with_condition_at_thread_def)
  then have "list_all2 (\<lambda>i r. ?P i r s') infos rs"
    by (rule traverse_establishes) (use download_one_good(1) download_one_keeps_good [OF _ _ _ inj] in blast)+
  then show ?thesis
    by (auto simp: list_all2_conv_all_nth in_set_conv_nth)
next
  case False
  let ?two = "download_one_at_batch_thread env d spare"
  let ?three = "\<lambda>(r, i). case r of Some x \<Rightarrow> ret x | None \<Rightarrow> download_one env d i"
  obtain i more where infos: "infos = i # more"
    using False by (cases infos) auto
  obtain first s1 others s2 where s1: "download_one env d i s = (Inr first, s1)" and s2: "traverse_io ?two more s1 = (Inr others, s2)"
      and s3: "traverse_io ?three (zip (Some first # others) infos) s2 = (Inr rs, s')"
    using run False infos by (auto simp: download_with_condition_at_thread_def bind_returns)
  have k2: "info_good env t' j" if "x \<in> set more" "?two x t = (Inr y, t')" "info_good env t j" "j \<in> set infos" for x t y t' j
    using that download_one_keeps_good [OF _ _ _ inj, of env d x t _ t' j] infos
    by (auto simp: download_one_at_batch_thread_def io_returns split: if_splits)
  have k3: "info_good env t' j" if "x \<in> set (zip (Some first # others) infos)" "?three x t = (Inr y, t')" "info_good env t j" "j \<in> set infos"
      for x t y t' j
  proof -
    obtain r k where x: "x = (r, k)"
      by fastforce
    have "k \<in> set infos"
      using that(1) x by (auto dest: set_zip_rightD)
    then show ?thesis
      using that(2-4) x download_one_keeps_good [OF _ _ _ inj, of env d k t _ t' j] by (auto split: option.splits)
  qed
  have l2: "list_all2 (\<lambda>j r. j \<in> set more \<and> (r \<noteq> None \<longrightarrow> info_good env s2 j)) more others"
  proof (rule traverse_establishes [OF s2])
    show "x \<in> set more \<and> (y \<noteq> None \<longrightarrow> info_good env t' x)" if "x \<in> set more" "?two x t = (Inr y, t')" for x t y t'
      using that download_one_good(1) by (auto simp: download_one_at_batch_thread_def io_returns split: if_splits)
  qed (use k2 infos in auto)
  have first: "info_good env s2 i"
    by (rule traverse_keeps [OF s2, of "\<lambda>t. info_good env t i"]) (use download_one_good(1) [OF s1] k2 infos in auto)
  have l3: "list_all2 (\<lambda>p r. snd p \<in> set infos \<and> (fst p = None \<longrightarrow> info_good env s' (snd p))) (zip (Some first # others) infos) rs"
  proof (rule traverse_establishes [OF s3])
    show "snd x \<in> set infos \<and> (fst x = None \<longrightarrow> info_good env t' (snd x))"
      if "x \<in> set (zip (Some first # others) infos)" "?three x t = (Inr y, t')" for x t y t'
    proof -
      obtain r k where x: "x = (r, k)"
        by fastforce
      have "k \<in> set infos"
        using that(1) x by (auto dest: set_zip_rightD)
      then show ?thesis
        using that(2) x download_one_good(1) by (auto split: option.splits)
    qed
  qed (use k3 in blast)
  have good: "info_good env s' j" if j: "j \<in> set infos" "info_good env s2 j" for j
    by (rule traverse_keeps [OF s3, of "\<lambda>t. info_good env t j"]) (use j k3 in auto)
  have len: "length others = length more"
    using l2 by (simp add: list_all2_lengthD)
  have "info_good env s' (infos ! n)" if n: "n < length infos" for n
  proof (cases "(Some first # others) ! n")
    case None
    then show ?thesis
      using list_all2_nthD [OF l3, of n] n len infos by (cases n) simp_all
  next
    case (Some r)
    then have "info_good env s2 (infos ! n)"
      using first list_all2_nthD [OF l2, of "n - 1"] n infos by (cases n) auto
    then show ?thesis
      using good n by simp
  qed
  then have "\<forall>j \<in> set infos. info_good env s' j"
    by (metis in_set_conv_nth)
  then show ?thesis
    using list_all2_lengthD [OF l3] len infos by simp
qed

end
