(* ===== verification/Grub_Config.thy ===== *)
theory Grub_Config
  imports Py_Numbers "HOL-Library.AList"
begin

text \<open>
  The texts the GRUB boot controller reads and writes (\<^verbatim>\<open>otaclient/boot_control/_grub_common.py\<close>, \<^verbatim>\<open>_grub_new.py\<close>): the managed
  \<^verbatim>\<open>grub.cfg\<close> with its checksum, \<^verbatim>\<open>/etc/default/grub\<close>, \<^verbatim>\<open>/etc/fstab\<close>, the detection of the slots and of the state of the system. The
  hash functions and the parser of version numbers are parameters.
\<close>

section \<open>Searching in lines\<close>

abbreviation NL :: char where "NL \<equiv> CHR ''\<newline>''"

text \<open>\<^verbatim>\<open>s.find(pat)\<close>, with None for -1.\<close>

fun py_find :: "string \<Rightarrow> string \<Rightarrow> nat option" where
  "py_find pat s = (if take (length pat) s = pat then Some 0
     else case s of [] \<Rightarrow> None | _ # t \<Rightarrow> map_option Suc (py_find pat t))"

declare py_find.simps [simp del]

definition startswith :: "string \<Rightarrow> string \<Rightarrow> bool" where
  "startswith s p \<longleftrightarrow> take (length p) s = p"

lemma startswith_append [simp]: "startswith (p @ s) p"
  by (simp add: startswith_def)

definition unlines :: "string list \<Rightarrow> string" where
  "unlines ls = concat (map (\<lambda>l. l @ [NL]) ls)"

lemma unlines_simps [simp]: "unlines [] = []" "unlines (l # ls) = l @ NL # unlines ls" "unlines (ls @ ms) = unlines ls @ unlines ms"
  by (simp_all add: unlines_def)

lemma split_unlines: "(\<And>l. l \<in> set ls \<Longrightarrow> NL \<notin> set l) \<Longrightarrow> split_on NL (unlines ls) = ls @ [[]]"
  by (induction ls) (simp_all add: split_on_append)

lemma splitlines_unlines: "(\<And>l. l \<in> set ls \<Longrightarrow> NL \<notin> set l) \<Longrightarrow> splitlines (unlines ls) = ls"
  by (simp add: splitlines_def split_unlines)

lemma unlines_split: "unlines (split_on NL s) = s @ [NL]"
  by (simp add: unlines_def concat_sep join_split)

lemma line_start: "NL \<notin> set l \<Longrightarrow> NL \<notin> set p \<Longrightarrow> take (Suc (length p)) (l @ NL # r) = p @ [NL] \<Longrightarrow> l = p"
proof (induction l arbitrary: p)
  case Nil
  then show ?case
    by (cases p) auto
next
  case (Cons x l)
  then show ?case
    by (cases p) auto
qed

lemma find_past_line:
  assumes "NL \<notin> set l" and "NL \<notin> set p" and "p \<noteq> []" and "\<not> endswith l p"
  shows "py_find (p @ [NL]) (l @ NL # r) = map_option (\<lambda>n. n + length l + 1) (py_find (p @ [NL]) r)"
  using assms(1,4)
proof (induction l)
  case Nil
  have "take (length (p @ [NL])) (NL # r) \<noteq> p @ [NL]"
    using assms(2,3) by (cases p) auto
  then show ?case
    by (subst py_find.simps) (simp add: map_option.compositionality comp_def)
next
  case (Cons x l)
  have ne: "take (length (p @ [NL])) (x # l @ NL # r) \<noteq> p @ [NL]"
  proof
    assume "take (length (p @ [NL])) (x # l @ NL # r) = p @ [NL]"
    then have "x # l = p"
      using line_start [of "x # l" p r] Cons.prems(1) assms(2) by simp
    then show False
      using Cons.prems(2) by (simp add: endswith_def)
  qed
  have "\<not> endswith l p"
  proof
    assume "endswith l p"
    then obtain a where "l = a @ p"
      by (metis append_take_drop_id endswith_def)
    then show False
      using Cons.prems(2) endswith_append [of "x # a" p] by simp
  qed
  then have "py_find (p @ [NL]) (l @ NL # r) = map_option (\<lambda>n. n + length l + 1) (py_find (p @ [NL]) r)"
    using Cons by simp
  then show ?case
    using ne by (subst py_find.simps) (simp add: map_option.compositionality comp_def)
qed

lemma find_in_lines:
  assumes "NL \<notin> set p" and "p \<noteq> []" and "\<And>l. l \<in> set ls \<Longrightarrow> NL \<notin> set l \<and> \<not> endswith l p"
  shows "py_find (p @ [NL]) (unlines ls @ p @ NL # r) = Some (length (unlines ls))"
  using assms(3)
proof (induction ls)
  case Nil
  then show ?case
    by (subst py_find.simps) simp
next
  case (Cons l ls)
  then show ?case
    using find_past_line [of l p "unlines ls @ p @ NL # r"] assms(1,2) by simp
qed

section \<open>The managed grub.cfg\<close>

definition OTA_MANAGED_CFG_HEADER :: string where
  "OTA_MANAGED_CFG_HEADER = unlines [''# OTAClient managed configuration file, DO NOT EDIT!'',
     ''# Manual edits to this file will NOT be preserved across OTA!'']"

definition FOOTER_HEAD_LINE :: string where "FOOTER_HEAD_LINE = ''# ------ OTA managed metadata ------ #''"
definition FOOTER_TAIL_LINE :: string where "FOOTER_TAIL_LINE = ''# ------ End of OTA managed metadata ------ #''"
definition FOOTER_HEAD :: string where "FOOTER_HEAD = FOOTER_HEAD_LINE @ [NL]"
definition FOOTER_TAIL :: string where "FOOTER_TAIL = FOOTER_TAIL_LINE @ [NL]"

record managed_cfg =
  mc_raw_contents :: string
  mc_grub_version :: string
  mc_checksum :: string
  mc_otaclient_version :: string

text \<open>The initializer with \<^verbatim>\<open>__post_init__\<close>; \<open>sha256\<close> gives the hex digest.\<close>

definition managed_cfg_init :: "(string \<Rightarrow> string) \<Rightarrow> string \<Rightarrow> string \<Rightarrow> string \<Rightarrow> managed_cfg" where
  "managed_cfg_init sha256 raw_contents grub_version otaclient_version =
     \<lparr> mc_raw_contents = strip raw_contents, mc_grub_version = grub_version,
       mc_checksum = ''sha256:'' @ sha256 (strip raw_contents), mc_otaclient_version = otaclient_version \<rparr>"

definition lstrip_hash :: "string \<Rightarrow> string" where
  "lstrip_hash s = dropWhile (\<lambda>c. c = CHR ''#'') s"

fun parse_footer_lines :: "string list \<Rightarrow> (string \<rightharpoonup> string) \<Rightarrow> (string \<rightharpoonup> string) option" where
  "parse_footer_lines [] res = Some res"
| "parse_footer_lines (l # ls) res =
     (if startswith l ''# ------'' then parse_footer_lines ls res
      else if \<not> startswith (strip l) ''#'' then None
      else let (k, v) = partition_on (CHR '':'') (strip (lstrip_hash (strip l)))
           in parse_footer_lines ls (res(strip k \<mapsto> strip v)))"

definition parse_footer :: "string \<Rightarrow> (string \<rightharpoonup> string) option" where
  "parse_footer footer = parse_footer_lines (splitlines footer) Map.empty"

text \<open>\<open>new_hash\<close> is \<^verbatim>\<open>hashlib.new(name, data).hexdigest()\<close>, None for a name it does not know.\<close>

definition check_digest :: "(string \<Rightarrow> string \<Rightarrow> string option) \<Rightarrow> string \<Rightarrow> string \<Rightarrow> bool" where
  "check_digest new_hash checksum content = (case split_once (CHR '':'') checksum of
     (_, None) \<Rightarrow> False
   | (algorithm, Some expected) \<Rightarrow> new_hash algorithm content = Some expected)"

definition validate_managed_config ::
    "(string \<Rightarrow> string) \<Rightarrow> (string \<Rightarrow> string \<Rightarrow> string option) \<Rightarrow> string \<Rightarrow> managed_cfg option" where
  "validate_managed_config sha256 new_hash text' =
     (if \<not> startswith text' OTA_MANAGED_CFG_HEADER then None
      else let t = drop (length OTA_MANAGED_CFG_HEADER) text'
        in case (py_find FOOTER_HEAD t, py_find FOOTER_TAIL t) of
          (Some footer_start, Some footer_end) \<Rightarrow>
            (case parse_footer (drop footer_start (take (footer_end + length FOOTER_TAIL) t)) of
               None \<Rightarrow> None
             | Some metadata \<Rightarrow>
                 (case (metadata ''checksum'', metadata ''grub_version'', metadata ''otaclient_version'') of
                    (Some checksum, Some grub_version, Some otaclient_version) \<Rightarrow>
                      if checksum = [] \<or> grub_version = [] \<or> otaclient_version = [] then None
                      else let content = strip (take footer_start t)
                        in if check_digest new_hash checksum content
                           then Some (managed_cfg_init sha256 content grub_version otaclient_version) else None
                  | _ \<Rightarrow> None))
        | _ \<Rightarrow> None)"

definition export_footer :: "string \<Rightarrow> string \<Rightarrow> string \<Rightarrow> string" where
  "export_footer otaclient_version grub_version checksum =
     FOOTER_HEAD @ ''# otaclient_version: '' @ otaclient_version @ [NL] @ ''# grub_version: '' @ grub_version @ [NL]
       @ ''# checksum: '' @ checksum @ [NL] @ FOOTER_TAIL"

definition export :: "managed_cfg \<Rightarrow> string" where
  "export c = OTA_MANAGED_CFG_HEADER @ mc_raw_contents c @ [NL]
     @ export_footer (mc_otaclient_version c) (mc_grub_version c) (mc_checksum c)"

text \<open>A value of the footer: one line without blanks at its ends that does not end like the lines around the footer.\<close>

definition footer_value :: "string \<Rightarrow> bool" where
  "footer_value v \<longleftrightarrow> v \<noteq> [] \<and> stripped v \<and> NL \<notin> set v \<and> last v \<noteq> CHR ''#''"

definition footer_lines :: "string \<Rightarrow> string \<Rightarrow> string \<Rightarrow> string list" where
  "footer_lines ov gv cs = [FOOTER_HEAD_LINE, ''# otaclient_version: '' @ ov, ''# grub_version: '' @ gv, ''# checksum: '' @ cs, FOOTER_TAIL_LINE]"

lemma export_footer_lines: "export_footer ov gv cs = unlines (footer_lines ov gv cs)"
  by (simp add: export_footer_def footer_lines_def FOOTER_HEAD_def FOOTER_TAIL_def)

lemma strip_line:
  assumes "stripped a" and "a \<noteq> []" and "footer_value v"
  shows "strip (a @ v) = a @ v"
  using assms by (intro strip_stripped) (auto simp: stripped_def footer_value_def)

lemma strip_value: "footer_value v \<Longrightarrow> strip (CHR '' '' # v) = v"
  by (simp add: footer_value_def strip_def strip_stripped [unfolded strip_def] py_isspace_def)

lemma endswith_last: "endswith s p \<Longrightarrow> p \<noteq> [] \<Longrightarrow> last s = last p"
  by (metis append_take_drop_id endswith_def last_appendR)

lemma footer_line_ends:
  assumes "last l \<noteq> CHR ''#''"
  shows "\<not> endswith l FOOTER_HEAD_LINE" and "\<not> endswith l FOOTER_TAIL_LINE"
  using assms endswith_last [of l FOOTER_HEAD_LINE] endswith_last [of l FOOTER_TAIL_LINE]
  by (auto simp: FOOTER_HEAD_LINE_def FOOTER_TAIL_LINE_def)

lemma head_not_tail: "\<not> endswith FOOTER_HEAD_LINE FOOTER_TAIL_LINE"
  by (simp add: FOOTER_HEAD_LINE_def FOOTER_TAIL_LINE_def endswith_def)

text \<open>Contents none of whose lines ends like the first or the last line of a footer.\<close>

definition footer_free :: "string \<Rightarrow> bool" where
  "footer_free raw \<longleftrightarrow> (\<forall>l \<in> set (split_on NL raw). \<not> endswith l FOOTER_HEAD_LINE \<and> \<not> endswith l FOOTER_TAIL_LINE)"

lemma footer_lines_clean:
  assumes "footer_value ov" "footer_value gv" "footer_value cs" and "l \<in> set (footer_lines ov gv cs)"
  shows "NL \<notin> set l"
  using assms by (auto simp: footer_lines_def footer_value_def FOOTER_HEAD_LINE_def FOOTER_TAIL_LINE_def)

lemma find_footer:
  assumes v: "footer_value ov" "footer_value gv" "footer_value cs" and raw: "footer_free raw"
  defines "t \<equiv> raw @ NL # export_footer ov gv cs"
  shows "py_find FOOTER_HEAD t = Some (length raw + 1)"
    and "py_find FOOTER_TAIL t = Some (length t - length FOOTER_TAIL)"
proof -
  let ?mid = "[''# otaclient_version: '' @ ov, ''# grub_version: '' @ gv, ''# checksum: '' @ cs]"
  have t: "t = unlines (split_on NL raw) @ FOOTER_HEAD_LINE @ NL # unlines ?mid @ FOOTER_TAIL"
    by (simp add: t_def export_footer_def FOOTER_HEAD_def unlines_split)
  have t2: "t = unlines (split_on NL raw @ FOOTER_HEAD_LINE # ?mid) @ FOOTER_TAIL_LINE @ NL # []"
    by (simp add: t FOOTER_TAIL_def)
  have nl: "NL \<notin> set FOOTER_HEAD_LINE" "NL \<notin> set FOOTER_TAIL_LINE" "FOOTER_HEAD_LINE \<noteq> []" "FOOTER_TAIL_LINE \<noteq> []"
    by (auto simp: FOOTER_HEAD_LINE_def FOOTER_TAIL_LINE_def)
  have rawl: "NL \<notin> set l \<and> \<not> endswith l FOOTER_HEAD_LINE \<and> \<not> endswith l FOOTER_TAIL_LINE" if "l \<in> set (split_on NL raw)" for l
    using raw that split_on_no_sep [OF that] by (simp add: footer_free_def)
  have midl: "NL \<notin> set l \<and> \<not> endswith l FOOTER_TAIL_LINE" if "l \<in> set ?mid" for l
    using that v footer_line_ends(2) [of l] by (auto simp: footer_value_def)
  show "py_find FOOTER_HEAD t = Some (length raw + 1)"
    using find_in_lines [OF nl(1,3), of "split_on NL raw" "unlines ?mid @ FOOTER_TAIL"] rawl t
    by (simp add: FOOTER_HEAD_def unlines_split)
  have "NL \<notin> set l \<and> \<not> endswith l FOOTER_TAIL_LINE" if "l \<in> set (split_on NL raw @ FOOTER_HEAD_LINE # ?mid)" for l
    using that rawl midl nl(1) head_not_tail by auto
  then have "py_find (FOOTER_TAIL_LINE @ [NL]) (unlines (split_on NL raw @ FOOTER_HEAD_LINE # ?mid) @ FOOTER_TAIL_LINE @ NL # [])
      = Some (length (unlines (split_on NL raw @ FOOTER_HEAD_LINE # ?mid)))"
    by (rule find_in_lines [OF nl(2,4)])
  moreover have "length t - length FOOTER_TAIL = length (unlines (split_on NL raw @ FOOTER_HEAD_LINE # ?mid))"
    unfolding t2 by (simp add: FOOTER_TAIL_def)
  ultimately show "py_find FOOTER_TAIL t = Some (length t - length FOOTER_TAIL)"
    unfolding FOOTER_TAIL_def t2 [symmetric] by simp
qed

lemma parse_footer_value:
  assumes "footer_value v" and k: "NL \<notin> set k" "CHR '':'' \<notin> set k" "k \<noteq> []" "stripped k" "hd k \<noteq> CHR ''#''" "hd k \<noteq> CHR ''-''"
  shows "parse_footer_lines ((''# '' @ k @ '': '' @ v) # ls) res = parse_footer_lines ls (res(k \<mapsto> v))"
proof -
  let ?l = "''# '' @ k @ '': '' @ v"
  have sp: "py_isspace (CHR '' '')" "\<not> py_isspace (CHR ''#'')" "\<not> py_isspace (CHR '':'')"
    by (simp_all add: py_isspace_def Let_def)
  have v: "v \<noteq> []" "stripped v"
    using assms(1) by (auto simp: footer_value_def)
  have s1: "strip ?l = ?l"
    using v sp by (intro strip_stripped) (simp add: stripped_def)
  have s2: "strip (lstrip_hash ?l) = k @ '': '' @ v"
  proof -
    have "lstrip_hash ?l = CHR '' '' # k @ '': '' @ v"
      by (simp add: lstrip_hash_def)
    moreover have "stripped (k @ '': '' @ v)"
      using v k(3,4) by (auto simp: stripped_def)
    ultimately show ?thesis
      using sp strip_stripped [of "k @ '': '' @ v"] by (simp add: strip_def)
  qed
  have p: "partition_on (CHR '':'') (k @ '': '' @ v) = (k, CHR '' '' # v)"
    using partition_on_pair [OF k(2)] by simp
  have "\<not> startswith ?l ''# ------''"
    using k(3,6) by (cases k) (auto simp: startswith_def)
  moreover have "startswith (strip ?l) ''#''"
    unfolding s1 by (simp add: startswith_def)
  ultimately show ?thesis
    using s1 s2 p strip_value [OF assms(1)] strip_stripped [OF k(4)] by simp
qed

lemma parse_footer_export:
  assumes v: "footer_value ov" "footer_value gv" "footer_value cs"
  shows "parse_footer (export_footer ov gv cs) = Some [''otaclient_version'' \<mapsto> ov, ''grub_version'' \<mapsto> gv, ''checksum'' \<mapsto> cs]"
proof -
  have head: "parse_footer_lines (FOOTER_HEAD_LINE # ls) res = parse_footer_lines ls res"
      "parse_footer_lines (FOOTER_TAIL_LINE # ls) res = parse_footer_lines ls res" for ls res
    by (simp_all add: FOOTER_HEAD_LINE_def FOOTER_TAIL_LINE_def startswith_def)
  have keys: "stripped ''otaclient_version''" "stripped ''grub_version''" "stripped ''checksum''"
    by (simp_all add: stripped_def py_isspace_def Let_def)
  note p = parse_footer_value [OF v(1), of "''otaclient_version''"] parse_footer_value [OF v(2), of "''grub_version''"]
    parse_footer_value [OF v(3), of "''checksum''"]
  have "parse_footer (export_footer ov gv cs) = parse_footer_lines (footer_lines ov gv cs) Map.empty"
    by (simp only: parse_footer_def export_footer_lines splitlines_unlines [OF footer_lines_clean [OF v]])
  then show ?thesis
    unfolding footer_lines_def using p keys by (simp add: head del: parse_footer_lines.simps(2))
qed

text \<open>What the controller makes of a file with the header, some contents and a footer.\<close>

lemma validate_text:
  assumes v: "footer_value ov" "footer_value gv" "footer_value (''sha256:'' @ h)" and raw: "footer_free raw"
    and H: "\<And>c. new_hash ''sha256'' c = Some (sha256 c)"
  shows "validate_managed_config sha256 new_hash (OTA_MANAGED_CFG_HEADER @ raw @ NL # export_footer ov gv (''sha256:'' @ h)) =
    (if sha256 (strip (raw @ [NL])) = h then Some (managed_cfg_init sha256 (strip (raw @ [NL])) gv ov) else None)"
proof -
  let ?cs = "''sha256:'' @ h"
  let ?t = "raw @ NL # export_footer ov gv ?cs"
  have len: "length FOOTER_TAIL \<le> length ?t"
    by (simp add: export_footer_def)
  have slice': "drop (length raw + 1) (take (length ?t - length FOOTER_TAIL + length FOOTER_TAIL) ?t) = export_footer ov gv ?cs"
    using len by simp
  have content: "take (length raw + 1) ?t = raw @ [NL]"
    by simp
  have ck: "check_digest new_hash ?cs c \<longleftrightarrow> sha256 c = h" for c
    using split_once_pair [of "CHR '':''" "''sha256''" h] H by (simp add: check_digest_def)
  have ne: "ov \<noteq> []" "gv \<noteq> []" "?cs \<noteq> []"
    using v by (auto simp: footer_value_def)
  show ?thesis
    unfolding validate_managed_config_def Let_def
    using find_footer [OF v raw] slice' content ck ne parse_footer_export [OF v] by simp
qed

text \<open>A hash function gives digests in hex.\<close>

definition hex_digests :: "(string \<Rightarrow> string) \<Rightarrow> bool" where
  "hex_digests sha256 \<longleftrightarrow> (\<forall>c. sha256 c \<noteq> [] \<and> set (sha256 c) \<subseteq> set ''0123456789abcdef'')"

lemma checksum_value:
  assumes "hex_digests sha256"
  shows "footer_value (''sha256:'' @ sha256 c)"
proof -
  have "sha256 c \<noteq> []" and set: "set (sha256 c) \<subseteq> set ''0123456789abcdef''"
    using assms by (auto simp: hex_digests_def)
  then have "last (sha256 c) \<in> set ''0123456789abcdef''"
    using last_in_set by blast
  then have "\<not> py_isspace (last (sha256 c))" "last (sha256 c) \<noteq> CHR ''#''"
    by (auto simp: py_isspace_def Let_def)
  moreover have "NL \<notin> set (sha256 c)"
    using set by auto
  ultimately show ?thesis
    using \<open>sha256 c \<noteq> []\<close> by (simp add: footer_value_def stripped_def py_isspace_def Let_def)
qed

lemma strip_newline:
  assumes "stripped r"
  shows "strip (r @ [NL]) = r"
proof (cases "r = []")
  case True
  then show ?thesis
    by (simp add: strip_def py_isspace_def Let_def)
next
  case False
  then have "dropWhile py_isspace (r @ [NL]) = r @ [NL]"
    using assms by (intro dropWhile_id_hd) (simp add: stripped_def)
  moreover have "py_isspace NL"
    by (simp add: py_isspace_def Let_def)
  moreover have "dropWhile py_isspace (rev r) = rev r"
    using assms False by (intro dropWhile_id_hd) (simp add: stripped_def hd_rev)
  ultimately show ?thesis
    by (simp add: strip_def)
qed

text \<open>
  The \<^verbatim>\<open>grub.cfg\<close> that the controller writes is recognised as its own at the next start, with the same contents and versions,
  and the same file with other contents above the footer is rejected unless the contents have the same digest (so that the boot
  configuration is then generated again).
\<close>

lemma managed_cfg_recognised:
  assumes H: "\<And>c. new_hash ''sha256'' c = Some (sha256 c)" and hex: "hex_digests sha256"
    and v: "footer_value ov" "footer_value gv" and raw: "footer_free (strip raw)" and other: "footer_free raw'" "stripped raw'"
  defines "c \<equiv> managed_cfg_init sha256 raw gv ov"
  shows "validate_managed_config sha256 new_hash (export c) = Some c
    \<and> (sha256 raw' \<noteq> sha256 (strip raw) \<longrightarrow>
      validate_managed_config sha256 new_hash (OTA_MANAGED_CFG_HEADER @ raw' @ [NL] @ export_footer ov gv (mc_checksum c)) = None)"
proof -
  note vt = validate_text [of ov gv _ _ new_hash sha256, OF v checksum_value [OF hex] _ H]
  have "validate_managed_config sha256 new_hash (export c) = Some c"
    using vt [OF raw] strip_newline [OF stripped_strip] by (simp add: export_def c_def managed_cfg_init_def)
  moreover have "validate_managed_config sha256 new_hash (OTA_MANAGED_CFG_HEADER @ raw' @ [NL] @ export_footer ov gv (mc_checksum c)) = None"
    if "sha256 raw' \<noteq> sha256 (strip raw)"
    using vt [OF other(1)] strip_newline [OF other(2)] that by (simp add: c_def managed_cfg_init_def)
  ultimately show ?thesis
    by blast
qed

text \<open>A hash function for the example.\<close>

definition toy_sha :: "string \<Rightarrow> string" where
  "toy_sha c = (if c = ''set a'' then ''0a'' else ''0b'')"

section \<open>/etc/default/grub\<close>

definition GRUB_DEFAULT_OPTIONS :: "(string \<times> string) list" where
  "GRUB_DEFAULT_OPTIONS = [(''GRUB_TIMEOUT_STYLE'', ''menu''), (''GRUB_TIMEOUT'', ''0''), (''GRUB_DISABLE_SUBMENU'', ''y''),
     (''GRUB_DISABLE_OS_PROBER'', ''true''), (''GRUB_DISABLE_RECOVERY'', ''true''), (''GRUB_DEFAULT'', ''saved'')]"

definition GRUB_BLACKLIST_OPTIONS :: "string list" where
  "GRUB_BLACKLIST_OPTIONS = [''GRUB_SAVEDEFAULT'']"

text \<open>The dictionary of the options, in the order in which they are first given, each with its last value.\<close>

definition option_of_line :: "string \<Rightarrow> (string \<times> string) option" where
  "option_of_line l = (let t = strip l in
     if t = [] \<or> startswith t ''#'' then None
     else case split_once (CHR ''='') t of
       (k, Some v) \<Rightarrow> Some (strip k, strip v)
     | (_, None) \<Rightarrow> None)"

definition set_option :: "(string \<times> string) list \<Rightarrow> string \<Rightarrow> (string \<times> string) list" where
  "set_option kvp l = (case option_of_line l of None \<Rightarrow> kvp | Some (k, v) \<Rightarrow> AList.update k v kvp)"

definition parse_grub_default :: "string \<Rightarrow> (string \<times> string) list" where
  "parse_grub_default s = foldl set_option [] (splitlines s)"

definition dict_update :: "(string \<times> string) list \<Rightarrow> (string \<times> string) list \<Rightarrow> (string \<times> string) list" where
  "dict_update d kvs = foldl (\<lambda>d (k, v). AList.update k v d) d kvs"

definition dict_pops :: "(string \<times> string) list \<Rightarrow> string list \<Rightarrow> (string \<times> string) list" where
  "dict_pops d ks = foldl (\<lambda>d k. AList.delete k d) d ks"

definition update_grub_default :: "string \<Rightarrow> string" where
  "update_grub_default s =
     (let kvp = dict_pops (dict_update (parse_grub_default s) GRUB_DEFAULT_OPTIONS) GRUB_BLACKLIST_OPTIONS
      in OTA_MANAGED_CFG_HEADER @ join_with NL (map (\<lambda>(k, v). k @ ''='' @ v) kvp @ [[]]))"

text \<open>What can be an option: it is read back from the line it is written to.\<close>

definition option_ok :: "string \<times> string \<Rightarrow> bool" where
  "option_ok kv \<longleftrightarrow> stripped (fst kv) \<and> CHR ''='' \<notin> set (fst kv) \<and> NL \<notin> set (fst kv) \<and> (fst kv = [] \<or> hd (fst kv) \<noteq> CHR ''#'')
     \<and> stripped (snd kv) \<and> NL \<notin> set (snd kv)"

lemma option_line_read:
  assumes "option_ok (k, v)"
  shows "option_of_line (k @ CHR ''='' # v) = Some (k, v)"
proof -
  have eq: "\<not> py_isspace (CHR ''='')"
    by (simp add: py_isspace_def Let_def)
  have "strip (k @ CHR ''='' # v) = k @ CHR ''='' # v"
    using assms eq by (intro strip_stripped) (cases k; cases v; auto simp: stripped_def option_ok_def)
  moreover have "\<not> startswith (k @ CHR ''='' # v) ''#''"
    using assms by (cases k) (auto simp: startswith_def option_ok_def)
  moreover have "split_once (CHR ''='') (k @ CHR ''='' # v) = (k, Some v)"
    using assms by (intro split_once_pair) (simp add: option_ok_def)
  ultimately show ?thesis
    using assms strip_stripped by (simp add: option_of_line_def option_ok_def)
qed

lemma strip_subset: "set (strip s) \<subseteq> set s"
  unfolding strip_def by (auto dest!: set_dropWhileD)

lemma option_of_line_ok:
  assumes "option_of_line l = Some kv" and "NL \<notin> set l"
  shows "option_ok kv"
proof -
  let ?t = "strip l"
  obtain k v where t: "?t \<noteq> []" "\<not> startswith ?t ''#''" "split_once (CHR ''='') ?t = (k, Some v)" and kv: "kv = (strip k, strip v)"
    using assms(1) by (auto simp: option_of_line_def Let_def split: if_splits prod.splits option.splits)
  have k: "k = takeWhile (\<lambda>x. x \<noteq> CHR ''='') ?t" and v: "set v \<subseteq> set ?t"
    using t(3) by (auto simp: split_once_def split: list.splits) (metis list.set_intros(2) set_dropWhileD)
  have sub: "set k \<subseteq> set ?t" "CHR ''='' \<notin> set k"
    using k set_takeWhileD by fastforce+
  have "NL \<notin> set ?t"
    using assms(2) strip_subset [of l] by auto
  then have nl: "NL \<notin> set (strip k)" "NL \<notin> set (strip v)"
    using sub(1) v strip_subset [of k] strip_subset [of v] by auto
  have eq: "CHR ''='' \<notin> set (strip k)"
    using sub(2) strip_subset [of k] by auto
  have "strip k = [] \<or> hd (strip k) \<noteq> CHR ''#''"
  proof (cases "k = []")
    case True
    then show ?thesis
      by (simp add: strip_def)
  next
    case False
    have hk: "hd k = hd ?t"
      using False k by (cases ?t) (auto split: if_splits)
    then have "\<not> py_isspace (hd k)"
      using stripped_strip [of l] t(1) by (simp add: stripped_def)
    then have "dropWhile py_isspace k = k"
      using False by (intro dropWhile_id_hd) simp
    then have "strip k = rev (dropWhile py_isspace (rev k))"
      by (simp add: strip_def)
    then have "strip k \<noteq> [] \<Longrightarrow> hd (strip k) = hd k"
      by (metis (no_types, lifting) dropWhile_eq_Nil_conv append_is_Nil_conv hd_append2 rev_append rev_rev_ident takeWhile_dropWhile_id)
    moreover have "hd ?t \<noteq> CHR ''#''"
      using t(1,2) by (cases ?t) (auto simp: startswith_def)
    ultimately show ?thesis
      using hk by auto
  qed
  then show ?thesis
    using nl eq kv stripped_strip by (simp add: option_ok_def)
qed

text \<open>Dictionaries: distinct keys, well-formed options, and what an update of a present key does.\<close>

definition dict_ok :: "(string \<times> string) list \<Rightarrow> bool" where
  "dict_ok d \<longleftrightarrow> distinct (map fst d) \<and> list_all option_ok d"

lemma update_set: "set (AList.update k v d) \<subseteq> insert (k, v) (set d)"
  by (induction d) auto

lemma dict_ok_update: "dict_ok d \<Longrightarrow> option_ok (k, v) \<Longrightarrow> dict_ok (AList.update k v d)"
  using update_set [of k v d] by (auto simp: dict_ok_def distinct_update list_all_iff)

lemma set_option_ok:
  assumes "dict_ok d" and "NL \<notin> set l"
  shows "dict_ok (set_option d l)"
  using assms dict_ok_update option_of_line_ok by (auto simp: set_option_def split: option.split)

lemma parse_grub_default_ok: "dict_ok (parse_grub_default s)"
proof -
  have "dict_ok (foldl set_option d ls)" if "dict_ok d" "\<And>l. l \<in> set ls \<Longrightarrow> NL \<notin> set l" for d ls
    using that by (induction ls arbitrary: d) (auto intro: set_option_ok)
  moreover have "NL \<notin> set l" if "l \<in> set (splitlines s)" for l
    using that split_on_no_sep [of l NL s] by (auto simp: splitlines_def Let_def dest: in_set_butlastD split: if_splits)
  ultimately show ?thesis
    unfolding parse_grub_default_def by (simp add: dict_ok_def)
qed

lemma update_append: "k \<notin> fst ` set d \<Longrightarrow> AList.update k v d = d @ [(k, v)]"
  by (induction d) auto

lemma update_present: "map_of d k = Some v \<Longrightarrow> distinct (map fst d) \<Longrightarrow> AList.update k v d = d"
  by (induction d) (auto split: if_splits simp: map_of_eq_None_iff image_iff)

text \<open>The options that were written are read back.\<close>

lemma read_options:
  assumes "dict_ok (d @ e)"
  shows "foldl set_option d (map (\<lambda>(k, v). k @ CHR ''='' # v) e) = d @ e"
  using assms
proof (induction e arbitrary: d)
  case (Cons p e)
  obtain k v where p: "p = (k, v)"
    by fastforce
  have "option_ok (k, v)" and "k \<notin> fst ` set d"
    using Cons.prems p by (auto simp: dict_ok_def)
  then have "set_option d (k @ CHR ''='' # v) = d @ [(k, v)]"
    by (simp add: set_option_def option_line_read update_append)
  then show ?case
    using Cons.IH [of "d @ [(k, v)]"] Cons.prems p by simp
qed simp

definition managed_options :: "string \<Rightarrow> (string \<times> string) list" where
  "managed_options s = dict_pops (dict_update (parse_grub_default s) GRUB_DEFAULT_OPTIONS) GRUB_BLACKLIST_OPTIONS"

lemma default_options_ok: "list_all option_ok GRUB_DEFAULT_OPTIONS"
  by (simp add: GRUB_DEFAULT_OPTIONS_def option_ok_def stripped_def py_isspace_def Let_def)

lemma dict_update_ok:
  assumes "dict_ok d" and "list_all option_ok kvs"
  shows "dict_ok (dict_update d kvs)"
  using assms unfolding dict_update_def by (induction kvs arbitrary: d) (auto intro: dict_ok_update)

lemma dict_update_lookup:
  "map_of (dict_update d kvs) k = (case map_of (rev kvs) k of Some v \<Rightarrow> Some v | None \<Rightarrow> map_of d k)"
  unfolding dict_update_def by (induction kvs arbitrary: d) (auto simp: update_conv' split: option.splits)

lemma managed_options_ok: "dict_ok (managed_options s)"
  using dict_update_ok [OF parse_grub_default_ok default_options_ok, of s]
  by (auto simp: managed_options_def dict_pops_def GRUB_BLACKLIST_OPTIONS_def dict_ok_def list_all_iff AList.delete_eq distinct_map_filter)

lemma option_names: "''GRUB_SAVEDEFAULT'' \<notin> fst ` set GRUB_DEFAULT_OPTIONS" "distinct (map fst GRUB_DEFAULT_OPTIONS)"
  by (simp_all add: GRUB_DEFAULT_OPTIONS_def)

lemma managed_options_lookup:
  "map_of (managed_options s) k = (if k = ''GRUB_SAVEDEFAULT'' then None
     else case map_of GRUB_DEFAULT_OPTIONS k of Some v \<Rightarrow> Some v | None \<Rightarrow> map_of (parse_grub_default s) k)"
proof -
  have "map_of (rev GRUB_DEFAULT_OPTIONS) k = map_of GRUB_DEFAULT_OPTIONS k"
    by (simp add: GRUB_DEFAULT_OPTIONS_def)
  then show ?thesis
    by (simp add: managed_options_def dict_pops_def GRUB_BLACKLIST_OPTIONS_def delete_conv' dict_update_lookup)
qed

lemma update_grub_default_lines:
  "update_grub_default s = OTA_MANAGED_CFG_HEADER @ unlines (map (\<lambda>(k, v). k @ CHR ''='' # v) (managed_options s))"
proof -
  have j: "join_with NL (ls @ [[]]) = unlines ls" for ls
  proof (induction ls)
    case (Cons l ls)
    then show ?case
      by (cases ls) (simp_all add: unlines_def)
  qed simp
  show ?thesis
    unfolding update_grub_default_def managed_options_def [symmetric] Let_def j by simp
qed

lemma read_managed_options: "parse_grub_default (update_grub_default s) = managed_options s"
proof -
  let ?ls = "map (\<lambda>(k, v). k @ CHR ''='' # v) (managed_options s)"
  define h where "h = [''# OTAClient managed configuration file, DO NOT EDIT!'', ''# Manual edits to this file will NOT be preserved across OTA!'']"
  have hd: "set_option d l = d" if "l \<in> set h" for d l
  proof -
    have "strip l \<noteq> [] \<and> startswith (strip l) ''#''"
      using that by (auto simp: h_def strip_def startswith_def py_isspace_def Let_def)
    then show ?thesis
      by (simp add: set_option_def option_of_line_def)
  qed
  have "NL \<notin> set l" if "l \<in> set (h @ ?ls)" for l
    using that managed_options_ok [of s] by (auto simp: h_def dict_ok_def list_all_iff option_ok_def)
  then have "splitlines (unlines (h @ ?ls)) = h @ ?ls"
    by (rule splitlines_unlines)
  then have "parse_grub_default (update_grub_default s) = foldl set_option [] (h @ ?ls)"
    unfolding parse_grub_default_def update_grub_default_lines by (simp add: OTA_MANAGED_CFG_HEADER_def h_def)
  also have "\<dots> = foldl set_option [] ?ls"
    using hd by (simp add: h_def)
  also have "\<dots> = managed_options s"
    using read_options [of "[]" "managed_options s"] managed_options_ok [of s] by simp
  finally show ?thesis .
qed

lemma dict_update_same:
  assumes "distinct (map fst d)" and "\<And>k v. (k, v) \<in> set kvs \<Longrightarrow> map_of d k = Some v"
  shows "dict_update d kvs = d"
  using assms unfolding dict_update_def by (induction kvs) (auto simp: update_present)

text \<open>
  \<^verbatim>\<open>/etc/default/grub\<close> is rewritten so that, read again, it has every option that OTA boot control needs with its value (\<^verbatim>\<open>GRUB_DEFAULT\<close>
  is \<^verbatim>\<open>saved\<close>), not the one that would break it, and each other option with the last value it had; writing it a second time changes
  nothing.
\<close>

lemma grub_default_is_managed:
  "map_of (parse_grub_default (update_grub_default s)) k =
     (if k = ''GRUB_SAVEDEFAULT'' then None
      else case map_of GRUB_DEFAULT_OPTIONS k of Some v \<Rightarrow> Some v | None \<Rightarrow> map_of (parse_grub_default s) k)
   \<and> update_grub_default (update_grub_default s) = update_grub_default s"
proof -
  have d: "distinct (map fst (managed_options s))"
    using managed_options_ok [of s] by (simp add: dict_ok_def)
  have "dict_update (managed_options s) GRUB_DEFAULT_OPTIONS = managed_options s"
  proof (rule dict_update_same [OF d])
    show "map_of (managed_options s) k = Some v" if "(k, v) \<in> set GRUB_DEFAULT_OPTIONS" for k v
      using that option_names map_of_is_SomeI [OF option_names(2) that] by (force simp: managed_options_lookup)
  qed
  moreover have "''GRUB_SAVEDEFAULT'' \<notin> fst ` set (managed_options s)"
    using managed_options_lookup [of s "''GRUB_SAVEDEFAULT''"] by (simp add: map_of_eq_None_iff)
  ultimately have "managed_options (update_grub_default s) = managed_options s"
    unfolding managed_options_def [of "update_grub_default s"] read_managed_options
    by (simp add: dict_pops_def GRUB_BLACKLIST_OPTIONS_def)
  then show ?thesis
    unfolding read_managed_options by (simp add: update_grub_default_lines managed_options_lookup)
qed

section \<open>Slots\<close>

datatype ota_slot = Slot_A | Slot_B

fun slot_name :: "ota_slot \<Rightarrow> string" where
  "slot_name Slot_A = ''ota-slot_a''"
| "slot_name Slot_B = ''ota-slot_b''"

definition LEGACY_SLOT_ID_PREFIX :: string where "LEGACY_SLOT_ID_PREFIX = ''ota-partition.sda''"
definition LEGACY_OTA_PARTITION_FNAME :: string where "LEGACY_OTA_PARTITION_FNAME = ''ota-partition''"
definition EFI_PARTTYPE :: string where "EFI_PARTTYPE = ''c12a7328-f81f-11d2-ba4b-00a0c93ec93b''"

record partition_info =
  pi_dev :: string
  pi_uuid :: string
  pi_parttype :: string

record slot_info =
  si_dev :: string
  si_uuid :: string
  si_slot_id :: "ota_slot option"

definition from_partinfo :: "partition_info \<Rightarrow> ota_slot option \<Rightarrow> slot_info" where
  "from_partinfo p s = \<lparr> si_dev = pi_dev p, si_uuid = pi_uuid p, si_slot_id = s \<rparr>"

record ab_partition =
  ab_is_uefi :: bool
  ab_boot_partition :: slot_info
  ab_slot_a :: slot_info
  ab_slot_b :: slot_info
  ab_current_slot :: ota_slot
  ab_standby_slot :: ota_slot
  ab_old_slot_id :: "ota_slot \<Rightarrow> string"
  ab_efi_partition :: "slot_info option"

type_synonym partitions = "string \<rightharpoonup> partition_info"

text \<open>None for a \<^verbatim>\<open>GrubBootControllerError\<close>.\<close>

definition detect_boot_slots_uefi :: "partitions \<Rightarrow> string \<Rightarrow> ab_partition option" where
  "detect_boot_slots_uefi parts active = (case (parts ''1'', parts ''2'', parts ''3'', parts ''4'') of
     (Some p1, Some p2, Some p3, Some p4) \<Rightarrow>
       if active \<notin> {''3'', ''4''} then None
       else Some \<lparr> ab_is_uefi = True, ab_boot_partition = from_partinfo p2 None,
         ab_slot_a = from_partinfo p3 (Some Slot_A), ab_slot_b = from_partinfo p4 (Some Slot_B),
         ab_current_slot = (if active = ''3'' then Slot_A else Slot_B), ab_standby_slot = (if active = ''4'' then Slot_A else Slot_B),
         ab_old_slot_id = (\<lambda>s. LEGACY_SLOT_ID_PREFIX @ (case s of Slot_A \<Rightarrow> ''3'' | Slot_B \<Rightarrow> ''4'')),
         ab_efi_partition = Some (from_partinfo p1 None) \<rparr>
   | _ \<Rightarrow> None)"

definition detect_boot_slots_bios :: "partitions \<Rightarrow> string \<Rightarrow> ab_partition option" where
  "detect_boot_slots_bios parts active = (case (parts ''1'', parts ''2'', parts ''3'') of
     (Some p1, Some p2, Some p3) \<Rightarrow>
       if active \<notin> {''2'', ''3''} then None
       else Some \<lparr> ab_is_uefi = False, ab_boot_partition = from_partinfo p1 None,
         ab_slot_a = from_partinfo p2 (Some Slot_A), ab_slot_b = from_partinfo p3 (Some Slot_B),
         ab_current_slot = (if active = ''2'' then Slot_A else Slot_B), ab_standby_slot = (if active = ''3'' then Slot_A else Slot_B),
         ab_old_slot_id = (\<lambda>s. LEGACY_SLOT_ID_PREFIX @ (case s of Slot_A \<Rightarrow> ''2'' | Slot_B \<Rightarrow> ''3'')),
         ab_efi_partition = None \<rparr>
   | _ \<Rightarrow> None)"

definition detect_boot_slots :: "partitions \<Rightarrow> string \<Rightarrow> ab_partition option" where
  "detect_boot_slots parts active = (case parts ''1'' of
     None \<Rightarrow> None
   | Some p1 \<Rightarrow> if str_lower (pi_parttype p1) = EFI_PARTTYPE then detect_boot_slots_uefi parts active else detect_boot_slots_bios parts active)"

definition get_slot_info :: "ab_partition \<Rightarrow> ota_slot \<Rightarrow> slot_info" where
  "get_slot_info ab s = (if s = Slot_A then ab_slot_a ab else ab_slot_b ab)"

text \<open>The translation of the slot names of the old controller.\<close>

definition from_old_slot_id :: "(ota_slot \<Rightarrow> string) \<Rightarrow> string \<Rightarrow> ota_slot \<Rightarrow> ota_slot" where
  "from_old_slot_id mapping old_value fallback =
     (let target = LEGACY_OTA_PARTITION_FNAME @ ''.'' @ old_value
      in if target = mapping Slot_A then Slot_A else if target = mapping Slot_B then Slot_B else fallback)"

definition to_old_slot_id :: "(ota_slot \<Rightarrow> string) \<Rightarrow> string \<Rightarrow> ota_slot \<Rightarrow> string" where
  "to_old_slot_id mapping new_value fallback =
     (let n = length LEGACY_OTA_PARTITION_FNAME + 1
      in if new_value = slot_name Slot_A then drop n (mapping Slot_A)
         else if new_value = slot_name Slot_B then drop n (mapping Slot_B) else drop n (mapping fallback))"

lemma slots_told_apart:
  assumes "detect_boot_slots parts active = Some ab"
  shows "ab_current_slot ab \<noteq> ab_standby_slot ab"
    and "parts active = Some p \<Longrightarrow> si_dev (get_slot_info ab (ab_current_slot ab)) = pi_dev p"
  using assms
  by (auto simp: detect_boot_slots_def detect_boot_slots_uefi_def detect_boot_slots_bios_def get_slot_info_def from_partinfo_def
      split: option.splits if_splits)

text \<open>The names of the old controller stand for the same slots, there and back.\<close>

lemma old_slot_ids_roundtrip:
  assumes "detect_boot_slots parts active = Some ab"
  shows "from_old_slot_id (ab_old_slot_id ab) (to_old_slot_id (ab_old_slot_id ab) (slot_name s) f) g = s"
  using assms
  by (cases s) (auto simp: detect_boot_slots_def detect_boot_slots_uefi_def detect_boot_slots_bios_def
      from_old_slot_id_def to_old_slot_id_def LEGACY_SLOT_ID_PREFIX_def LEGACY_OTA_PARTITION_FNAME_def
      split: option.splits if_splits)

section \<open>/etc/fstab\<close>

abbreviation TAB :: char where "TAB \<equiv> CHR 0x09"

text \<open>
  The pattern of an entry asks for six fields separated by white space, the last two of them numbers. A dictionary entry is the
  mount point with the six fields.
\<close>

type_synonym fstab = "(string \<times> string list) list"

definition is_number :: "string \<Rightarrow> bool" where
  "is_number s \<longleftrightarrow> s \<noteq> [] \<and> list_all is_digit s"

definition fstab_entry :: "string \<Rightarrow> string list option" where
  "fstab_entry l =
     (let t = strip l; ws = split_ws t
      in if startswith t ''#'' then None
         else if length ws = 6 \<and> is_number (ws ! 4) \<and> is_number (ws ! 5) then Some ws else None)"

definition set_entry :: "fstab \<Rightarrow> string \<Rightarrow> fstab" where
  "set_entry d l = (case fstab_entry l of None \<Rightarrow> d | Some ws \<Rightarrow> AList.update (ws ! 1) ws d)"

definition read_fstab_dict :: "string \<Rightarrow> fstab" where
  "read_fstab_dict s = foldl set_entry [] (splitlines s)"

definition special_mount_points :: "string set" where
  "special_mount_points = {''/'', ''/boot'', ''/boot/efi''}"

definition generate_fstab :: "ab_partition \<Rightarrow> string \<Rightarrow> string option \<Rightarrow> string \<Rightarrow> string" where
  "generate_fstab ab base_fstab reference_fstab slot_fsuuid =
     (let slot_uuid_str = ''UUID='' @ slot_fsuuid;
          reference_dict = (case reference_fstab of None \<Rightarrow> [] | Some s \<Rightarrow> if s = [] then [] else read_fstab_dict s);
          base_dict = read_fstab_dict base_fstab;
          root = (case map_of reference_dict ''/'' of
              Some ma \<Rightarrow> join_with TAB (slot_uuid_str # tl ma)
            | None \<Rightarrow> join_with TAB [slot_uuid_str, ''/'', ''ext4'', ''errors=remount-ro'', ''0'', ''1'']);
          boot = (case map_of reference_dict ''/boot'' of
              Some ma \<Rightarrow> join_with TAB ma
            | None \<Rightarrow> join_with TAB [''UUID='' @ si_uuid (ab_boot_partition ab), ''/boot'', ''ext4'', ''defaults'', ''0'', ''1'']);
          efi = (case ab_efi_partition ab of
              None \<Rightarrow> []
            | Some p \<Rightarrow> [case map_of reference_dict ''/boot/efi'' of
                Some ma \<Rightarrow> join_with TAB ma
              | None \<Rightarrow> join_with TAB [''UUID='' @ si_uuid p, ''/boot/efi'', ''vfat'', ''defaults'', ''0'', ''1'']]);
          rest = [join_with TAB ma. (mp, ma) \<leftarrow> base_dict, mp \<notin> special_mount_points]
      in join_with NL ([root, boot] @ efi @ rest @ [[]]))"

text \<open>The entries of the file, for the mount points of the installer and the others of the image.\<close>

definition reference_entries :: "string option \<Rightarrow> fstab" where
  "reference_entries reference_fstab = (case reference_fstab of None \<Rightarrow> [] | Some s \<Rightarrow> read_fstab_dict s)"

definition fstab_entries :: "ab_partition \<Rightarrow> fstab \<Rightarrow> fstab \<Rightarrow> string \<Rightarrow> fstab" where
  "fstab_entries ab base ref slot_fsuuid =
     (let field = (\<lambda>mp dflt. case map_of ref mp of Some e \<Rightarrow> e | None \<Rightarrow> dflt)
      in [(''/'', (''UUID='' @ slot_fsuuid) # tl (field ''/'' [[], ''/'', ''ext4'', ''errors=remount-ro'', ''0'', ''1''])),
          (''/boot'', field ''/boot'' [''UUID='' @ si_uuid (ab_boot_partition ab), ''/boot'', ''ext4'', ''defaults'', ''0'', ''1''])]
         @ (case ab_efi_partition ab of None \<Rightarrow> []
            | Some p \<Rightarrow> [(''/boot/efi'', field ''/boot/efi'' [''UUID='' @ si_uuid p, ''/boot/efi'', ''vfat'', ''defaults'', ''0'', ''1''])])
         @ filter (\<lambda>(mp, _). mp \<notin> special_mount_points) base)"

definition is_word :: "string \<Rightarrow> bool" where
  "is_word w \<longleftrightarrow> w \<noteq> [] \<and> list_all (\<lambda>c. \<not> py_isspace c) w"

definition entry_ok :: "string list \<Rightarrow> bool" where
  "entry_ok ws \<longleftrightarrow> length ws = 6 \<and> list_all is_word ws \<and> is_number (ws ! 4) \<and> is_number (ws ! 5) \<and> hd (hd ws) \<noteq> CHR ''#''"

lemma split_ws_words: "list_all is_word (split_ws s)"
proof (induction s rule: split_ws.induct)
  case (1 s)
  let ?t = "dropWhile py_isspace s"
  show ?case
  proof (cases "?t = []")
    case True
    then show ?thesis
      by (simp add: split_ws.simps)
  next
    case False
    then have "is_word (takeWhile (\<lambda>c. \<not> py_isspace c) ?t)"
      using hd_dropWhile [of py_isspace s] by (cases ?t) (auto simp: is_word_def list_all_iff dest: set_takeWhileD)
    then show ?thesis
      using 1 False by (subst split_ws.simps) (simp add: Let_def)
  qed
qed

lemma split_ws_word: "is_word w \<Longrightarrow> split_ws w = [w]"
proof -
  assume w: "is_word w"
  then have "dropWhile py_isspace w = w"
    by (intro dropWhile_id_hd) (auto simp: is_word_def list_all_iff)
  moreover have d: "dropWhile (\<lambda>c. \<not> py_isspace c) w = []" and "takeWhile (\<lambda>c. \<not> py_isspace c) w = w"
    using w by (auto simp: is_word_def list_all_iff)
  moreover have "split_ws [] = []"
    by (simp add: split_ws.simps)
  ultimately show ?thesis
    using w by (subst split_ws.simps) (simp only: Let_def d is_word_def if_False simp_thms)
qed

lemma split_ws_cons: 
  assumes "is_word w"
  shows "split_ws (w @ TAB # r) = w # split_ws r"
proof -
  have sp: "py_isspace TAB"
    by (simp add: py_isspace_def Let_def)
  have "dropWhile py_isspace (w @ TAB # r) = w @ TAB # r"
    using assms by (intro dropWhile_id_hd) (auto simp: is_word_def list_all_iff hd_append)
  moreover have "takeWhile (\<lambda>c. \<not> py_isspace c) (w @ TAB # r) = w"
    "dropWhile (\<lambda>c. \<not> py_isspace c) (w @ TAB # r) = TAB # r"
    using assms sp by (auto simp: is_word_def list_all_iff takeWhile_append dropWhile_append)
  moreover have "split_ws (TAB # r) = split_ws r"
    using sp by (subst (1 2) split_ws.simps) simp
  ultimately show ?thesis
    by (subst split_ws.simps) (simp add: Let_def)
qed

lemma split_ws_join: "ws \<noteq> [] \<Longrightarrow> list_all is_word ws \<Longrightarrow> split_ws (join_with TAB ws) = ws"
proof (induction ws)
  case (Cons w ws)
  then show ?case
    by (cases "ws = []") (simp_all add: split_ws_word split_ws_cons join_with_Cons)
qed simp

lemma entry_ok_line:
  assumes "entry_ok ws"
  shows "fstab_entry (join_with TAB ws) = Some ws"
proof -
  have ws: "ws \<noteq> []" "list_all is_word ws"
    using assms by (auto simp: entry_ok_def)
  then have "is_word (hd ws)" "is_word (last ws)"
    by (simp_all add: list_all_iff)
  then have w: "hd ws \<noteq> []" "last ws \<noteq> []" "\<not> py_isspace (hd (hd ws))" "\<not> py_isspace (last (last ws))"
    by (simp_all add: is_word_def list_all_iff)
  have hl: "join_with TAB ws \<noteq> [] \<and> hd (join_with TAB ws) = hd (hd ws)" "last (join_with TAB ws) = last (last ws)"
    by (rule join_with_hd [OF ws(1) w(1)], rule join_with_last [OF ws(1) w(2)])
  have "strip (join_with TAB ws) = join_with TAB ws"
    using hl w by (intro strip_stripped) (simp add: stripped_def)
  moreover have "\<not> startswith (join_with TAB ws) ''#''"
    using hl(1) assms by (cases "join_with TAB ws") (auto simp: startswith_def entry_ok_def)
  ultimately show ?thesis
    using assms split_ws_join [OF ws] by (simp add: fstab_entry_def entry_ok_def Let_def)
qed

lemma entry_read_ok:
  assumes "fstab_entry l = Some ws"
  shows "entry_ok ws"
proof -
  let ?t = "strip l"
  have t: "\<not> startswith ?t ''#''" "ws = split_ws ?t" "length ws = 6" "is_number (ws ! 4)" "is_number (ws ! 5)"
    using assms by (auto simp: fstab_entry_def Let_def split: if_splits)
  have ne: "?t \<noteq> []"
    using t(2,3) by (auto simp: split_ws.simps [of "[]"])
  then have "dropWhile py_isspace ?t = ?t"
    using stripped_strip [of l] by (intro dropWhile_id_hd) (simp add: stripped_def)
  then have "hd ws = takeWhile (\<lambda>c. \<not> py_isspace c) ?t"
    using ne t(2) by (subst (asm) split_ws.simps) (simp add: Let_def)
  moreover have "\<not> py_isspace (hd ?t)"
    using stripped_strip [of l] ne by (simp add: stripped_def)
  ultimately have "hd (hd ws) = hd ?t"
    using ne by (cases ?t) auto
  moreover have "hd ?t \<noteq> CHR ''#''"
    using t(1) ne by (cases ?t) (auto simp: startswith_def)
  ultimately show ?thesis
    using t split_ws_words [of ?t] by (simp add: entry_ok_def)
qed

definition fstab_ok :: "fstab \<Rightarrow> bool" where
  "fstab_ok d \<longleftrightarrow> distinct (map fst d) \<and> list_all (\<lambda>(mp, ws). entry_ok ws \<and> mp = ws ! 1) d"

lemma read_fstab_dict_ok: "fstab_ok (read_fstab_dict s)"
proof -
  have step: "fstab_ok (set_entry d l)" if "fstab_ok d" for d l
  proof (cases "fstab_entry l")
    case (Some ws)
    moreover have "set (AList.update (ws ! 1) ws d) \<subseteq> insert (ws ! 1, ws) (set d)"
      by (induction d) auto
    ultimately show ?thesis
      using that entry_read_ok [OF Some] by (auto simp: set_entry_def fstab_ok_def distinct_update list_all_iff)
  qed (use that in \<open>simp add: set_entry_def\<close>)
  have "fstab_ok (foldl set_entry d ls)" if "fstab_ok d" for d ls
    using that by (induction ls arbitrary: d) (auto intro: step)
  then show ?thesis
    by (simp add: read_fstab_dict_def fstab_ok_def)
qed

lemma read_entries:
  assumes "fstab_ok (d @ e)"
  shows "foldl set_entry d (map (\<lambda>(_, ws). join_with TAB ws) e) = d @ e"
  using assms
proof (induction e arbitrary: d)
  case (Cons p e)
  obtain mp ws where p: "p = (mp, ws)"
    by fastforce
  have ok: "entry_ok ws" "mp = ws ! 1" "mp \<notin> fst ` set d"
    using Cons.prems p by (auto simp: fstab_ok_def)
  have "AList.update mp ws d = d @ [(mp, ws)]"
    using ok(3) by (induction d) auto
  then have "set_entry d (join_with TAB ws) = d @ [(mp, ws)]"
    using ok by (simp add: set_entry_def entry_ok_line)
  then show ?case
    using Cons.IH [of "d @ [(mp, ws)]"] Cons.prems p by simp
qed simp

lemma entry_line_clean:
  assumes "entry_ok ws"
  shows "NL \<notin> set (join_with TAB ws)"
proof -
  have "set (join_with c xs) \<subseteq> insert c (\<Union> (set ` set xs))" for c xs
    by (induction c xs rule: join_with.induct) auto
  moreover have "py_isspace NL"
    by (simp add: py_isspace_def Let_def)
  then have "NL \<notin> set w" if "w \<in> set ws" for w
    using assms that by (auto simp: entry_ok_def list_all_iff is_word_def)
  ultimately show ?thesis
    by (force dest: subsetD)
qed

text \<open>A file with one line for each entry is read as these entries.\<close>

lemma read_written_fstab:
  assumes "fstab_ok e"
  shows "read_fstab_dict (join_with NL (map (\<lambda>(_, ws). join_with TAB ws) e @ [[]])) = e"
proof -
  let ?ls = "map (\<lambda>(_, ws). join_with TAB ws) e"
  have cl: "NL \<notin> set l" if "l \<in> set ?ls" for l
    using assms that entry_line_clean by (auto simp: fstab_ok_def list_all_iff)
  have "split_on NL (join_with NL (?ls @ [[]])) = ?ls @ [[]]"
    using cl by (intro split_join) auto
  then have "splitlines (join_with NL (?ls @ [[]])) = ?ls"
    by (simp add: splitlines_def)
  then show ?thesis
    using read_entries [of "[]" e] assms by (simp add: read_fstab_dict_def)
qed

lemma uuid_entry_ok:
  assumes "list_all (\<lambda>c. \<not> py_isspace c) u" and "list_all is_word ws" and "length ws = 5" and "is_number (ws ! 3)" "is_number (ws ! 4)"
  shows "entry_ok ((''UUID='' @ u) # ws)"
  using assms by (simp add: entry_ok_def is_word_def py_isspace_def Let_def)

lemma default_fields_ok:
  "list_all is_word [''/'', ''ext4'', ''errors=remount-ro'', ''0'', ''1'']"
  "list_all is_word [''/boot'', ''ext4'', ''defaults'', ''0'', ''1'']"
  "list_all is_word [''/boot/efi'', ''vfat'', ''defaults'', ''0'', ''1'']"
  "is_number ''0''" "is_number ''1''"
  by (simp_all add: is_word_def is_number_def py_isspace_def is_digit_def Let_def)

lemma tl_entry_ok:
  assumes "entry_ok ws" and "list_all (\<lambda>c. \<not> py_isspace c) u"
  shows "entry_ok ((''UUID='' @ u) # tl ws)"
  using assms by (intro uuid_entry_ok) (cases ws; auto simp: entry_ok_def)+

lemma fstab_ok_lookup: "fstab_ok d \<Longrightarrow> map_of d mp = Some ws \<Longrightarrow> entry_ok ws \<and> ws ! 1 = mp"
  by (auto simp: fstab_ok_def list_all_iff dest: map_of_SomeD)

text \<open>File system identifiers are words.\<close>

definition uuids_ok :: "ab_partition \<Rightarrow> string \<Rightarrow> bool" where
  "uuids_ok ab u \<longleftrightarrow> list_all (\<lambda>c. \<not> py_isspace c) u \<and> list_all (\<lambda>c. \<not> py_isspace c) (si_uuid (ab_boot_partition ab))
     \<and> (case ab_efi_partition ab of None \<Rightarrow> True | Some p \<Rightarrow> list_all (\<lambda>c. \<not> py_isspace c) (si_uuid p))"

lemma fstab_entries_ok:
  assumes base: "fstab_ok base" and ref: "fstab_ok ref" and u: "uuids_ok ab u"
  shows "fstab_ok (fstab_entries ab base ref u)"
proof -
  define fld where "fld mp dflt = (case map_of ref mp of Some e \<Rightarrow> e | None \<Rightarrow> dflt)" for mp dflt
  have fld: "entry_ok (fld mp dflt) \<and> fld mp dflt ! 1 = mp" if "entry_ok dflt \<and> dflt ! 1 = mp" for mp dflt
    using that fstab_ok_lookup [OF ref] by (simp add: fld_def split: option.split)
  define root where "root = (''UUID='' @ u) # tl (fld ''/'' [[], ''/'', ''ext4'', ''errors=remount-ro'', ''0'', ''1''])"
  have root: "entry_ok root \<and> root ! 1 = ''/''"
  proof (cases "map_of ref ''/''")
    case None
    then show ?thesis
      using u default_fields_ok uuid_entry_ok [of u "[''/'', ''ext4'', ''errors=remount-ro'', ''0'', ''1'']"]
      by (simp add: root_def fld_def uuids_ok_def)
  next
    case (Some e)
    then have e: "entry_ok e" "e ! 1 = ''/''"
      using fstab_ok_lookup [OF ref] by auto
    then have "tl e ! 0 = ''/''"
      by (cases e) (auto simp: entry_ok_def)
    then show ?thesis
      using tl_entry_ok [OF e(1)] u Some by (simp add: root_def fld_def uuids_ok_def)
  qed
  let ?boot = "[''UUID='' @ si_uuid (ab_boot_partition ab), ''/boot'', ''ext4'', ''defaults'', ''0'', ''1'']"
  have boot: "entry_ok (fld ''/boot'' ?boot) \<and> fld ''/boot'' ?boot ! 1 = ''/boot''"
    using u default_fields_ok by (intro fld conjI uuid_entry_ok) (simp_all add: uuids_ok_def)
  define efi where "efi = (case ab_efi_partition ab of None \<Rightarrow> []
     | Some p \<Rightarrow> [(''/boot/efi'', fld ''/boot/efi'' [''UUID='' @ si_uuid p, ''/boot/efi'', ''vfat'', ''defaults'', ''0'', ''1''])])"
  have efi: "efi = [] \<or> (\<exists>e. efi = [(''/boot/efi'', e)] \<and> entry_ok e \<and> e ! 1 = ''/boot/efi'')"
  proof (cases "ab_efi_partition ab")
    case (Some p)
    let ?efi = "[''UUID='' @ si_uuid p, ''/boot/efi'', ''vfat'', ''defaults'', ''0'', ''1'']"
    have "entry_ok (fld ''/boot/efi'' ?efi) \<and> fld ''/boot/efi'' ?efi ! 1 = ''/boot/efi''"
      using u Some default_fields_ok by (intro fld conjI uuid_entry_ok) (simp_all add: uuids_ok_def)
    then show ?thesis
      using Some by (simp add: efi_def)
  qed (simp add: efi_def)
  let ?rest = "filter (\<lambda>(mp, _). mp \<notin> special_mount_points) base"
  have rest: "distinct (map fst ?rest)" "list_all (\<lambda>(mp, ws). entry_ok ws \<and> mp = ws ! 1) ?rest"
      "fst ` set ?rest \<inter> special_mount_points = {}"
    using base by (auto simp: fstab_ok_def list_all_iff distinct_map_filter)
  have "fstab_entries ab base ref u = [(''/'', root), (''/boot'', fld ''/boot'' ?boot)] @ efi @ ?rest"
    by (simp only: fstab_entries_def root_def fld_def efi_def Let_def)
  then show ?thesis
    using root boot efi rest unfolding fstab_ok_def special_mount_points_def by auto
qed

lemma generate_fstab_lines:
  "generate_fstab ab base reference u =
     join_with NL (map (\<lambda>(_, ws). join_with TAB ws) (fstab_entries ab (read_fstab_dict base) (reference_entries reference) u) @ [[]])"
proof -
  have "(case reference of None \<Rightarrow> [] | Some s \<Rightarrow> if s = [] then [] else read_fstab_dict s) = reference_entries reference"
    by (auto simp: reference_entries_def read_fstab_dict_def splitlines_def split: option.split)
  moreover have "[join_with TAB ma. (mp, ma) \<leftarrow> d, mp \<notin> special_mount_points]
      = map (\<lambda>(_, ws). join_with TAB ws) (filter (\<lambda>(mp, _). mp \<notin> special_mount_points) d)" for d :: fstab
    by (induction d) auto
  ultimately show ?thesis
    unfolding generate_fstab_def fstab_entries_def Let_def by (simp split: option.split)
qed

lemma reference_entries_ok: "fstab_ok (reference_entries reference)"
  using read_fstab_dict_ok by (auto simp: reference_entries_def fstab_ok_def split: option.split)

text \<open>
  C38: The \<^verbatim>\<open>fstab\<close> written for a slot, read again, has exactly these entries: the root with the slot's own identifier and the other fields
  of the reference, \<^verbatim>\<open>/boot\<close> and, on an UEFI system, \<^verbatim>\<open>/boot/efi\<close> of the reference or with the identifiers of the detected partitions,
  in this order, and then the remaining mount points of the image; generating it once more from its own output changes nothing.
\<close>

theorem slot_fstab_entries:
  fixes base :: string and reference :: "string option"
  assumes "uuids_ok ab slot_fsuuid"
  defines "s \<equiv> generate_fstab ab base reference slot_fsuuid"
  shows "read_fstab_dict s = fstab_entries ab (read_fstab_dict base) (reference_entries reference) slot_fsuuid
    \<and> generate_fstab ab s reference slot_fsuuid = s"
proof -
  let ?e = "fstab_entries ab (read_fstab_dict base) (reference_entries reference) slot_fsuuid"
  have e: "read_fstab_dict s = ?e"
    unfolding s_def generate_fstab_lines
    by (rule read_written_fstab [OF fstab_entries_ok [OF read_fstab_dict_ok reference_entries_ok assms(1)]])
  have "filter (\<lambda>(mp, _). mp \<notin> special_mount_points) ?e = filter (\<lambda>(mp, _). mp \<notin> special_mount_points) (read_fstab_dict base)"
    by (auto simp: fstab_entries_def special_mount_points_def Let_def split: option.split)
  then have "fstab_entries ab ?e (reference_entries reference) slot_fsuuid = ?e"
    by (simp add: fstab_entries_def Let_def)
  then have "generate_fstab ab s reference slot_fsuuid = s"
    unfolding generate_fstab_lines [of ab s] e by (simp add: s_def generate_fstab_lines)
  then show ?thesis
    using e by simp
qed

text \<open>A BIOS system with partitions of its own.\<close>

definition example_parts :: partitions where
  "example_parts = [''1'' \<mapsto> \<lparr> pi_dev = ''/dev/sda1'', pi_uuid = ''aa'', pi_parttype = ''83'' \<rparr>,
      ''2'' \<mapsto> \<lparr> pi_dev = ''/dev/sda2'', pi_uuid = ''bb'', pi_parttype = ''83'' \<rparr>,
      ''3'' \<mapsto> \<lparr> pi_dev = ''/dev/sda3'', pi_uuid = ''cc'', pi_parttype = ''83'' \<rparr>]"

definition example_ab :: ab_partition where
  "example_ab = the (detect_boot_slots example_parts ''2'')"

lemma example_ab_detected: "detect_boot_slots example_parts ''2'' = Some example_ab"
  "ab_current_slot example_ab = Slot_A" "ab_standby_slot example_ab = Slot_B"
  by (simp_all add: example_ab_def example_parts_def detect_boot_slots_def detect_boot_slots_bios_def EFI_PARTTYPE_def str_lower_def
      lower_ascii_def Let_def)

theorem slot_fstab_entries_witness:
  "read_fstab_dict (generate_fstab example_ab ''/dev/sdb1 /data ext4 defaults 0 2'' None ''cc'') =
     [(''/'', [''UUID=cc'', ''/'', ''ext4'', ''errors=remount-ro'', ''0'', ''1'']),
      (''/boot'', [''UUID=aa'', ''/boot'', ''ext4'', ''defaults'', ''0'', ''1'']),
      (''/data'', [''/dev/sdb1'', ''/data'', ''ext4'', ''defaults'', ''0'', ''2''])]"
proof -
  have "uuids_ok example_ab ''cc''"
    by code_simp
  moreover have "fstab_entries example_ab (read_fstab_dict ''/dev/sdb1 /data ext4 defaults 0 2'') (reference_entries None) ''cc'' =
     [(''/'', [''UUID=cc'', ''/'', ''ext4'', ''errors=remount-ro'', ''0'', ''1'']),
      (''/boot'', [''UUID=aa'', ''/boot'', ''ext4'', ''defaults'', ''0'', ''1'']),
      (''/data'', [''/dev/sdb1'', ''/data'', ''ext4'', ''defaults'', ''0'', ''2''])]"
    by code_simp
  ultimately show ?thesis
    using slot_fstab_entries [of example_ab "''cc''" "''/dev/sdb1 /data ext4 defaults 0 2''" None] by simp
qed

section \<open>The state of the system\<close>

datatype setup_case = FRESH | MIGRATE_FROM_OLD | ALREADY_NEW | GRUB_REGENERATE_REQUESTED

datatype grub_cfg_file = GC_Symlink | GC_Missing | GC_Unreadable | GC_Text string

text \<open>\<open>release\<close> is \<^verbatim>\<open>Version(s).release\<close>, None when the version cannot be parsed; an empty tuple is false, too.\<close>

definition tuple_less :: "nat list \<Rightarrow> nat list \<Rightarrow> bool" where
  "tuple_less a b \<longleftrightarrow> (a, b) \<in> lexord {(x, y). x < y}"

definition truthy_release :: "nat list option \<Rightarrow> bool" where
  "truthy_release r \<longleftrightarrow> r \<notin> {None, Some []}"

definition detect_boot_control_setup_case ::
    "(string \<Rightarrow> string) \<Rightarrow> (string \<Rightarrow> string \<Rightarrow> string option) \<Rightarrow> (string \<Rightarrow> nat list option) \<Rightarrow> string \<Rightarrow> string \<Rightarrow> grub_cfg_file \<Rightarrow> setup_case" where
  "detect_boot_control_setup_case sha256 new_hash release running_version min_version f = (case f of
     GC_Symlink \<Rightarrow> MIGRATE_FROM_OLD
   | GC_Missing \<Rightarrow> FRESH
   | GC_Unreadable \<Rightarrow> FRESH
   | GC_Text t \<Rightarrow> (case validate_managed_config sha256 new_hash t of
         None \<Rightarrow> FRESH
       | Some c \<Rightarrow>
           if \<not> truthy_release (release (mc_otaclient_version c)) then FRESH
           else if \<not> truthy_release (release min_version)
               \<or> \<not> tuple_less (the (release (mc_otaclient_version c))) (the (release min_version)) then ALREADY_NEW
           else if truthy_release (release running_version) \<and> tuple_less (the (release running_version)) (the (release min_version)) then ALREADY_NEW
           else GRUB_REGENERATE_REQUESTED))"

text \<open>The state files are only reset for a file that is not the controller's own; what this version writes is taken as its own.\<close>

lemma own_cfg_not_reset:
  assumes H: "\<And>c. new_hash ''sha256'' c = Some (sha256 c)" and hex: "hex_digests sha256"
    and v: "footer_value ov" "footer_value gv" and raw: "footer_free (strip raw)" and rel: "truthy_release (release ov)"
  shows "detect_boot_control_setup_case sha256 new_hash release ov min_version (GC_Text (export (managed_cfg_init sha256 raw gv ov))) = ALREADY_NEW"
proof -
  have "validate_managed_config sha256 new_hash (export (managed_cfg_init sha256 raw gv ov)) = Some (managed_cfg_init sha256 raw gv ov)"
    using validate_text [of ov gv _ _ new_hash sha256, OF v checksum_value [OF hex] raw H] strip_newline [OF stripped_strip]
    by (simp add: export_def managed_cfg_init_def)
  then show ?thesis
    using rel by (simp add: detect_boot_control_setup_case_def managed_cfg_init_def)
qed

section \<open>Kernel versions\<close>

datatype ver_part = V_Int int | V_Word string

definition parse_kernel_ver_key :: "string \<Rightarrow> ver_part list" where
  "parse_kernel_ver_key ver =
     map (\<lambda>seg. case py_int seg of Some n \<Rightarrow> V_Int n | None \<Rightarrow> V_Word seg) (concat (map (split_on (CHR ''-'')) (split_on (CHR ''.'') ver)))"

text \<open>Comparing tuples: the first parts that differ decide; a number and a word cannot be compared (\<^verbatim>\<open>TypeError\<close>, None).\<close>

fun key_less :: "ver_part list \<Rightarrow> ver_part list \<Rightarrow> bool option" where
  "key_less [] [] = Some False"
| "key_less [] (_ # _) = Some True"
| "key_less (_ # _) [] = Some False"
| "key_less (x # xs) (y # ys) =
     (if x = y then key_less xs ys
      else case (x, y) of
        (V_Int m, V_Int n) \<Rightarrow> Some (m < n)
      | (V_Word a, V_Word b) \<Rightarrow> Some ((a, b) \<in> lexord {(c, d). (of_char c :: nat) < of_char d})
      | _ \<Rightarrow> None)"

text \<open>Two kernels of one release, a release candidate and a build number: looking for the newer one raises.\<close>

lemma kernel_versions_not_comparable:
  "key_less (parse_kernel_ver_key ''6.11.0-rc1-generic'') (parse_kernel_ver_key ''6.11.0-29-generic'') = None"
  by code_simp

end
