(* ===== verification/Grub_Boot.thy ===== *)
theory Grub_Boot
  imports Boot_Commands Grub_Config
begin

text \<open>
  The boot controller for GRUB (\<^verbatim>\<open>otaclient/boot_control/_grub_new.py\<close>) over the texts of \<open>Grub_Config\<close>. Both slots share the boot
  partition; each slot has a folder and a menu entry in it, and the environment block \<^verbatim>\<open>grubenv\<close> says which entry is booted: \<^verbatim>\<open>saved_entry\<close>
  by default, \<^verbatim>\<open>next_entry\<close> for one boot.

  The state is the one of the templates with the files of the boot partition and of the root file systems of the two slots by place,
  the options of \<^verbatim>\<open>grubenv\<close> and of the temporary block next to it, and the folder \<^verbatim>\<open>/boot/ota\<close>. The status files of a slot, which
  are in its folder, are those of the templates. The programs that are run, which writes and removals fail, the listings of
  folders, the targets of links and the extraction of a menu entry from the output of \<^verbatim>\<open>grub-mkconfig\<close> are parameters. The text of an
  internal exception is its class name.
\<close>

section \<open>State\<close>

datatype bnode = BFile string | BLink string | BDir

datatype place = P_Boot path | P_Root ota_slot path

record 'x grub_state =
  gs_files :: "place \<rightharpoonup> bnode"
  gs_exec :: "place \<Rightarrow> bool"
  gs_grubenv :: "string list option"
  gs_tmp_env :: "string list option"
  gs_ota :: "entries option"
  gs_rest :: 'x

type_synonym 'x grub = "'x grub_state boot_state"
type_synonym ('x, 'a) grub_io = "('x grub, exc, 'a) io"

record 'x grub_env =
  ge_run :: "'x grub runner"
  ge_write_fails :: "'x grub \<Rightarrow> place \<Rightarrow> bool"
  ge_stuck :: "'x grub \<Rightarrow> place \<Rightarrow> bool"
  ge_env_fails :: "'x grub \<Rightarrow> bool"
  ge_listing :: "'x grub \<Rightarrow> place \<Rightarrow> string list"
  ge_link_text :: "string \<Rightarrow> string option"
  ge_link_dir :: "string \<Rightarrow> bool"
  ge_menuentry :: "string \<Rightarrow> ota_slot \<Rightarrow> string \<Rightarrow> string option"
  ge_config_fails :: "'x grub \<Rightarrow> string \<Rightarrow> bool"
  ge_restore_fails :: "string \<Rightarrow> bool"
  ge_through :: "string \<Rightarrow> string option"
  ge_new_meta :: meta
  ge_sha256 :: "string \<Rightarrow> string"
  ge_version :: string
  ge_tmp_name :: string
  ge_chroot :: "string option"
  ge_mp :: "ota_slot \<Rightarrow> string"
  ge_bootstrap_source :: string
  ge_active_root :: string
  ge_active_mp :: string
  ge_dynamic :: bool
  ge_is_dir :: "string \<Rightarrow> bool"

definition node_of :: "place \<Rightarrow> 'x grub \<Rightarrow> bnode option" where
  "node_of p s = gs_files (bs_plat s) p"

definition put_node :: "place \<Rightarrow> bnode \<Rightarrow> 'x grub \<Rightarrow> 'x grub" where
  "put_node p n s = s\<lparr>bs_plat := (bs_plat s)\<lparr>gs_files := (gs_files (bs_plat s))(p \<mapsto> n), gs_exec := (gs_exec (bs_plat s))(p := False)\<rparr>\<rparr>"

definition grubenv_of :: "'x grub \<Rightarrow> string list option" where
  "grubenv_of s = gs_grubenv (bs_plat s)"

definition grub_error :: exc where "grub_error = PyExc ''GrubBootControllerError'' [K_Other]"
definition value_error :: exc where "value_error = PyExc ''ValueError'' [K_Other]"

text \<open>\<^verbatim>\<open>except Exception as e: raise GrubBootControllerError\<close>.\<close>

definition as_grub_error :: "('s, exc, 'a) io \<Rightarrow> ('s, exc, 'a) io" where
  "as_grub_error m = catch_io m (\<lambda>e. if e = SysExit then throw SysExit else throw grub_error)"

section \<open>Files\<close>

fun below :: "place \<Rightarrow> place \<Rightarrow> bool" where
  "below (P_Boot p) (P_Boot q) = (take (length p) q = p)"
| "below (P_Root s p) (P_Root t q) = (s = t \<and> take (length p) q = p)"
| "below _ _ = False"

definition is_file :: "'x grub_env \<Rightarrow> place \<Rightarrow> 'x grub \<Rightarrow> bool" where
  "is_file env p s = (case node_of p s of Some (BFile _) \<Rightarrow> True | Some (BLink t) \<Rightarrow> ge_link_text env t \<noteq> None | _ \<Rightarrow> False)"

definition is_dir :: "'x grub_env \<Rightarrow> place \<Rightarrow> 'x grub \<Rightarrow> bool" where
  "is_dir env p s = (case node_of p s of Some BDir \<Rightarrow> True | Some (BLink t) \<Rightarrow> ge_link_dir env t | _ \<Rightarrow> False)"

definition text_of :: "'x grub_env \<Rightarrow> place \<Rightarrow> 'x grub \<Rightarrow> string option" where
  "text_of env p s = (case node_of p s of Some (BFile c) \<Rightarrow> Some c | Some (BLink t) \<Rightarrow> ge_link_text env t | _ \<Rightarrow> None)"

definition read_str :: "'x grub_env \<Rightarrow> place \<Rightarrow> ('x, string) grub_io" where
  "read_str env p = (\<lambda>s. case text_of env p s of Some c \<Rightarrow> (Inr (strip c), s)
     | None \<Rightarrow> (Inl (if is_dir env p s then os_error else not_found_error), s))"

text \<open>The atomic writes replace what is in the place, unless it is a folder.\<close>

definition write_str :: "'x grub_env \<Rightarrow> place \<Rightarrow> string \<Rightarrow> ('x, unit) grub_io" where
  "write_str env p c = (\<lambda>s. if ge_write_fails env s p \<or> node_of p s = Some BDir then (Inl os_error, s)
     else (Inr (), put_node p (BFile c) s))"

definition copy_file :: "'x grub_env \<Rightarrow> place \<Rightarrow> place \<Rightarrow> ('x, unit) grub_io" where
  "copy_file env src dst = (\<lambda>s. case text_of env src s of None \<Rightarrow> (Inl not_found_error, s) | Some c \<Rightarrow> write_str env dst c s)"

text \<open>\<^verbatim>\<open>remove_file\<close> of a file or a tree, errors ignored: \<open>ge_stuck\<close> are the places that cannot be removed.\<close>

definition remove_file :: "'x grub_env \<Rightarrow> place \<Rightarrow> ('x, unit) grub_io" where
  "remove_file env p = modify_io (\<lambda>s. s\<lparr>bs_plat := (bs_plat s)\<lparr>gs_files :=
     (\<lambda>q. if below p q \<and> \<not> ge_stuck env s q then None else gs_files (bs_plat s) q)\<rparr>\<rparr>)"

definition os_link :: "'x grub_env \<Rightarrow> place \<Rightarrow> place \<Rightarrow> ('x, unit) grub_io" where
  "os_link env src dst = (\<lambda>s. case node_of src s of None \<Rightarrow> (Inl not_found_error, s)
     | Some n \<Rightarrow> if node_of dst s \<noteq> None \<or> ge_write_fails env s dst then (Inl os_error, s) else (Inr (), put_node dst n s))"

text \<open>\<^verbatim>\<open>mkdir(exist_ok=True)\<close> of one folder; with \<^verbatim>\<open>parents=True\<close> it is called for the parents first.\<close>

definition make_dir :: "'x grub_env \<Rightarrow> place \<Rightarrow> ('x, unit) grub_io" where
  "make_dir env p = (\<lambda>s. if is_dir env p s then (Inr (), s)
     else if node_of p s \<noteq> None \<or> ge_write_fails env s p then (Inl os_error, s) else (Inr (), put_node p BDir s))"

definition chmod_exec :: "'x grub_env \<Rightarrow> place \<Rightarrow> bool \<Rightarrow> ('x, unit) grub_io" where
  "chmod_exec env p x = (\<lambda>s. if node_of p s = None then (Inl not_found_error, s)
     else (Inr (), s\<lparr>bs_plat := (bs_plat s)\<lparr>gs_exec := (gs_exec (bs_plat s))(p := x)\<rparr>\<rparr>))"

definition boot_slot_dir :: "ota_slot \<Rightarrow> place" where "boot_slot_dir slot = P_Boot [slot_name slot]"
definition boot_cfg_fpath :: "ota_slot \<Rightarrow> place" where "boot_cfg_fpath slot = P_Boot [''grub'', slot_name slot @ ''.cfg'']"
definition GRUB_CFG :: place where "GRUB_CFG = P_Boot [''grub'', ''grub.cfg'']"
definition VMLINUZ_PREFIX :: string where "VMLINUZ_PREFIX = ''vmlinuz-''"
definition INITRD_PREFIX :: string where "INITRD_PREFIX = ''initrd.img-''"

definition legacy_compat_dir :: "ab_partition \<Rightarrow> ota_slot \<Rightarrow> place" where
  "legacy_compat_dir ab slot = P_Boot [ab_old_slot_id ab slot]"

section \<open>The environment block\<close>

definition listed_options :: "string \<Rightarrow> string list" where
  "listed_options out = filter (\<lambda>l. l \<noteq> []) (map strip (splitlines out))"

definition replace_grubenv :: "'x grub_env \<Rightarrow> ('x, unit) grub_io" where
  "replace_grubenv env = (\<lambda>s. if ge_env_fails env s \<or> gs_tmp_env (bs_plat s) = None then (Inl os_error, s)
     else (Inr (), s\<lparr>bs_plat := (bs_plat s)\<lparr>gs_grubenv := gs_tmp_env (bs_plat s), gs_tmp_env := None\<rparr>\<rparr>))"

definition write_grubenv_atomic :: "'x grub_env \<Rightarrow> string list \<Rightarrow> ('x, unit) grub_io" where
  "write_grubenv_atomic env options =
     (let tmp = ''/boot/grub/.grubenv_ota_'' @ ge_tmp_name env
      in then_io
        (finally_io
          (then_io (lift_cmd (subprocess_run_wrapper (ge_run env) (in_chroot (ge_chroot env)) ([''grub-editenv'', tmp, ''set''] @ options)))
          (bind_io (lift_cmd (subprocess_run_wrapper (ge_run env) (in_chroot (ge_chroot env)) [''grub-editenv'', tmp, ''list''])) (\<lambda>out.
             if set (listed_options out) \<noteq> set options then throw value_error else replace_grubenv env)))
          (modify_io (\<lambda>s. s\<lparr>bs_plat := (bs_plat s)\<lparr>gs_tmp_env := None\<rparr>\<rparr>)))
        (lift_cmd (subprocess_call (ge_run env) here [''sync'', ''-f'', ''/boot/grub/grubenv''] False)))"

definition saved_entry :: "ota_slot \<Rightarrow> string" where "saved_entry slot = ''saved_entry='' @ slot_name slot"
definition next_entry :: "ota_slot \<Rightarrow> string" where "next_entry slot = ''next_entry='' @ slot_name slot"

definition grub_set_default_atomic :: "'x grub_env \<Rightarrow> ota_slot \<Rightarrow> ('x, unit) grub_io" where
  "grub_set_default_atomic env slot = as_grub_error (write_grubenv_atomic env [saved_entry slot])"

definition grub_reboot :: "'x grub_env \<Rightarrow> ota_slot \<Rightarrow> ota_slot \<Rightarrow> ('x, unit) grub_io" where
  "grub_reboot env next_slot current_slot = as_grub_error (write_grubenv_atomic env [saved_entry current_slot, next_entry next_slot])"

definition grub_reboot_to_standby :: "'x grub_env \<Rightarrow> ab_partition \<Rightarrow> ('x, unit) grub_io" where
  "grub_reboot_to_standby env ab = grub_reboot env (ab_standby_slot ab) (ab_current_slot ab)"

definition finalize_update_switch_boot :: "'x grub_env \<Rightarrow> ab_partition \<Rightarrow> ('x, bool) grub_io" where
  "finalize_update_switch_boot env ab = as_grub_error (then_io (grub_set_default_atomic env (ab_current_slot ab)) (ret True))"

section \<open>Kernels\<close>

text \<open>
  The newest of the versions with a kernel and an initrd. A sort compares the neighbours of the sorted order, so it raises if two keys
  cannot be compared; the first of the versions that no other one is above comes out first.
\<close>

definition keys_comparable :: "string list \<Rightarrow> bool" where
  "keys_comparable vs \<longleftrightarrow> (\<forall>a\<in>set vs. \<forall>b\<in>set vs. key_less (parse_kernel_ver_key a) (parse_kernel_ver_key b) \<noteq> None)"

definition newest_versions :: "string list \<Rightarrow> string list" where
  "newest_versions vs = filter (\<lambda>a. \<forall>b\<in>set vs. key_less (parse_kernel_ver_key a) (parse_kernel_ver_key b) = Some False) vs"

definition kernel_candidates :: "'x grub_env \<Rightarrow> ota_slot \<Rightarrow> 'x grub \<Rightarrow> string list" where
  "kernel_candidates env slot s = filter (\<lambda>v. is_file env (P_Root slot [''boot'', INITRD_PREFIX @ v]) s)
     (map (drop (length VMLINUZ_PREFIX)) (filter (\<lambda>n. startswith n VMLINUZ_PREFIX) (ge_listing env s (P_Root slot [''boot'']))))"

definition detect_slot_kernel_ver :: "'x grub_env \<Rightarrow> ota_slot \<Rightarrow> ('x, string) grub_io" where
  "detect_slot_kernel_ver env slot = (\<lambda>s. let vs = kernel_candidates env slot s
     in if vs = [] then (Inl grub_error, s)
        else if \<not> keys_comparable vs then (Inl (PyExc ''TypeError'' [K_Other]), s)
        else case newest_versions vs of v # _ \<Rightarrow> (Inr v, s) | [] \<Rightarrow> (Inl grub_error, s))"

definition keep_or_remove :: "'x grub_env \<Rightarrow> string set \<Rightarrow> string \<Rightarrow> ('x, unit) grub_io" where
  "keep_or_remove env keep n = (\<lambda>s. case node_of (P_Boot [n]) s of
     Some (BFile _) \<Rightarrow>
       (let ver = (if startswith n VMLINUZ_PREFIX then drop (length VMLINUZ_PREFIX) n else drop (length INITRD_PREFIX) n)
        in if ver \<notin> keep then remove_file env (P_Boot [n]) s else (Inr (), s))
   | _ \<Rightarrow> (Inr (), s))"

definition cleanup_old_boot_root_files :: "'x grub_env \<Rightarrow> string \<Rightarrow> string \<Rightarrow> ('x, unit) grub_io" where
  "cleanup_old_boot_root_files env active_kernel_ver standby_kernel_ver = (\<lambda>s.
     let names = ge_listing env s (P_Boot [])
     in seq_io (map (keep_or_remove env {active_kernel_ver, standby_kernel_ver})
          (filter (\<lambda>n. startswith n VMLINUZ_PREFIX) names @ filter (\<lambda>n. startswith n INITRD_PREFIX) names)) s)"

definition expose_boot_file :: "'x grub_env \<Rightarrow> ota_slot \<Rightarrow> string \<Rightarrow> ('x, unit) grub_io" where
  "expose_boot_file env slot fname = seq_io
     [remove_file env (P_Boot [fname]), os_link env (P_Boot [slot_name slot, fname]) (P_Boot [fname])]"

definition setup_boot_file :: "'x grub_env \<Rightarrow> ota_slot \<Rightarrow> string \<Rightarrow> ('x, unit) grub_io" where
  "setup_boot_file env slot fname = (\<lambda>s. case node_of (P_Root slot [''boot'', fname]) s of
     Some (BFile _) \<Rightarrow> seq_io
       [copy_file env (P_Root slot [''boot'', fname]) (P_Boot [slot_name slot, fname]), expose_boot_file env slot fname] s
   | _ \<Rightarrow> (Inr (), s))"

definition setup_boot_slot_dir :: "'x grub_env \<Rightarrow> string \<Rightarrow> ota_slot \<Rightarrow> ('x, unit) grub_io" where
  "setup_boot_slot_dir env kernel_ver slot = seq_io
     [setup_boot_file env slot (VMLINUZ_PREFIX @ kernel_ver), setup_boot_file env slot (INITRD_PREFIX @ kernel_ver)]"

section \<open>grub-mkconfig\<close>

definition chroot_mounts :: "string \<Rightarrow> string \<Rightarrow> (string \<times> string) list" where
  "chroot_mounts mp boot_source = [(mp @ ''/proc'', ''/proc''), (mp @ ''/sys'', ''/sys''), (mp @ ''/dev'', ''/dev''), (mp @ ''/boot'', boot_source)]"

definition prepare_chroot_env :: "'x grub_env \<Rightarrow> string \<Rightarrow> string \<Rightarrow> ('x, 'a) grub_io \<Rightarrow> ('x, 'a) grub_io" where
  "prepare_chroot_env env mp boot_source body' = finally_io
     (then_io (seq_io (map (\<lambda>(m, src). lift_cmd (mount (ge_run env) src m [''bind''] [] True)) (chroot_mounts mp boot_source))) body')
     (seq_io (map (\<lambda>(m, _). lift_cmd (umount (ge_run env) m False)) (chroot_mounts mp boot_source)))"

definition run_grub_mkconfig :: "'x grub_env \<Rightarrow> string \<Rightarrow> ('x, string) grub_io" where
  "run_grub_mkconfig env mp = (\<lambda>s. case subprocess_run_wrapper (ge_run env) (in_chroot (Some mp)) [''grub-mkconfig''] s of
     (Inl CalledProcessError, s') \<Rightarrow> (Inl grub_error, s') | (Inl e, s') \<Rightarrow> (Inl (as_exc e), s') | (Inr out, s') \<Rightarrow> (Inr out, s'))"

definition grub_mkconfig_on_mp :: "'x grub_env \<Rightarrow> string \<Rightarrow> string \<Rightarrow> ('x, string) grub_io" where
  "grub_mkconfig_on_mp env mp boot_source = prepare_chroot_env env mp boot_source (run_grub_mkconfig env mp)"

text \<open>The search for \<^verbatim>\<open>(GRUB)\<close>, white space and a version: the first place where it matches.\<close>

definition version_char :: "char \<Rightarrow> bool" where
  "version_char c \<longleftrightarrow> (let n = of_char c :: nat in is_digit c \<or> 65 \<le> n \<and> n \<le> 90 \<or> 97 \<le> n \<and> n \<le> 122 \<or> c \<in> set ''_.-'')"

definition version_here :: "string \<Rightarrow> string option" where
  "version_here s =
     (if \<not> startswith s ''(GRUB)'' then None
      else let r = drop 6 s; v = takeWhile version_char (dropWhile py_isspace r)
        in if r \<noteq> [] \<and> py_isspace (hd r) \<and> v \<noteq> [] then Some v else None)"

fun grub_version_of :: "string \<Rightarrow> string option" where
  "grub_version_of [] = None"
| "grub_version_of (c # s) = (case version_here (c # s) of Some v \<Rightarrow> Some v | None \<Rightarrow> grub_version_of s)"

definition detect_grub_version :: "'x grub_env \<Rightarrow> string \<Rightarrow> ('x, string) grub_io" where
  "detect_grub_version env mp = (\<lambda>s. case ge_run env (in_chroot (Some mp)) [''grub-mkconfig'', ''--version''] s of
     (R_Raise x, s') \<Rightarrow> (Inl (PyExc x [K_Other]), s')
   | (R_Failed, s') \<Rightarrow> (Inr ''unknown_grub_version'', s')
   | (R_Ok out, s') \<Rightarrow> (Inr (if out = [] then ''unknown_grub_version''
        else case grub_version_of out of Some v \<Rightarrow> v | None \<Rightarrow> out), s'))"

section \<open>Preparing a slot\<close>

definition OTA_GRUB_HOOK :: string where
  "OTA_GRUB_HOOK = unlines [[CHR 0x5C], ''#!/bin/sh'', ''cat <<EOF'',
     ''if [ -f '' @ [CHR 0x5C] @ ''${config_directory}/ota-slot_a.cfg ]; then'',
     ''    source '' @ [CHR 0x5C] @ ''${config_directory}/ota-slot_a.cfg'', ''fi'', [],
     ''if [ -f '' @ [CHR 0x5C] @ ''${config_directory}/ota-slot_b.cfg ]; then'',
     ''    source '' @ [CHR 0x5C] @ ''${config_directory}/ota-slot_b.cfg'', ''fi'', ''EOF'']"

definition UEFI_FIRMWARE_GRUB_HOOK_DISABLED :: string where
  "UEFI_FIRMWARE_GRUB_HOOK_DISABLED = unlines [''#!/bin/sh'',
     ''# This file has been replaced by otaclient to prevent the'',
     ''# '' @ [CHR 0x22] @ ''UEFI Firmware Settings'' @ [CHR 0x22] @ '' menuentry from being added to grub.cfg.'',
     ''# The file is also non-executable; this exit 0 is a belt-and-suspenders'',
     ''# guard in case something re-marks it executable.'', ''exit 0'']"

definition FSTAB :: "ota_slot \<Rightarrow> place" where "FSTAB slot = P_Root slot [''etc'', ''fstab'']"
definition DEFAULT_GRUB :: "ota_slot \<Rightarrow> place" where "DEFAULT_GRUB slot = P_Root slot [''etc'', ''default'', ''grub'']"
definition OTA_HOOK :: "ota_slot \<Rightarrow> place" where "OTA_HOOK slot = P_Root slot [''etc'', ''grub.d'', ''30_ota'']"
definition UEFI_HOOK :: "ota_slot \<Rightarrow> place" where "UEFI_HOOK slot = P_Root slot [''etc'', ''grub.d'', ''30_uefi-firmware'']"

definition disable_uefi_firmware_grub_hook :: "'x grub_env \<Rightarrow> ota_slot \<Rightarrow> ('x, unit) grub_io" where
  "disable_uefi_firmware_grub_hook env slot = (\<lambda>s. if node_of (UEFI_HOOK slot) s = None then (Inr (), s)
     else seq_io [remove_file env (UEFI_HOOK slot), write_str env (UEFI_HOOK slot) UEFI_FIRMWARE_GRUB_HOOK_DISABLED,
        chmod_exec env (UEFI_HOOK slot) False] s)"

definition setup_slot_rootfs_for_ota_boot :: "'x grub_env \<Rightarrow> ab_partition \<Rightarrow> string \<Rightarrow> ota_slot \<Rightarrow> string \<Rightarrow> ('x, unit) grub_io" where
  "setup_slot_rootfs_for_ota_boot env ab slot_fsuuid slot reference_fstab = seq_io
     [bind_io (read_str env (FSTAB slot)) (\<lambda>base.
        write_str env (FSTAB slot) (generate_fstab ab base (Some reference_fstab) slot_fsuuid)),
      bind_io (read_str env (DEFAULT_GRUB slot)) (\<lambda>d. write_str env (DEFAULT_GRUB slot) (update_grub_default d)),
      write_str env (OTA_HOOK slot) OTA_GRUB_HOOK,
      chmod_exec env (OTA_HOOK slot) True,
      disable_uefi_firmware_grub_hook env slot]"

definition setup_ota_boot_cfg_for_slot :: "'x grub_env \<Rightarrow> string \<Rightarrow> ota_slot \<Rightarrow> ('x, unit) grub_io" where
  "setup_ota_boot_cfg_for_slot env kernel_ver slot =
     bind_io (grub_mkconfig_on_mp env (ge_mp env slot) (''/boot/'' @ slot_name slot)) (\<lambda>raw.
       case ge_menuentry env raw slot kernel_ver of
         None \<Rightarrow> throw value_error
       | Some entry \<Rightarrow> write_str env (boot_cfg_fpath slot) entry)"

section \<open>The configuration files of OTA\<close>

text \<open>\<^verbatim>\<open>install_ota_config_files\<close> with writes that may fail: whether it returned, and the folder then.\<close>

fun install_steps :: "(string \<Rightarrow> bool) \<Rightarrow> meta \<Rightarrow> (string \<times> string) list \<Rightarrow> entries \<Rightarrow> bool \<times> entries" where
  "install_steps fails nm [] D = (True, D)"
| "install_steps fails nm ((n, c) # fs) D =
     (if fails n \<or> is_directory (map_of D n) then (False, D) else install_steps fails nm fs (AList.update n (File nm c) D))"

lemma install_steps_loop: "install_steps (\<lambda>_. False) nm fs D = (ok, D') \<Longrightarrow> install_loop nm fs D = (if ok then Some D' else None)"
  by (induction nm fs D rule: install_loop.induct) (auto split: if_splits)

definition ota_entries :: "'x grub \<Rightarrow> entries" where
  "ota_entries s = (case gs_ota (bs_plat s) of Some D \<Rightarrow> D | None \<Rightarrow> [])"

definition install_config_files :: "'x grub_env \<Rightarrow> ota_config_files \<Rightarrow> ('x, unit) grub_io" where
  "install_config_files env cf = (\<lambda>s. if iter_files cf = [] then (Inr (), s)
     else case install_steps (ge_config_fails env s) (ge_new_meta env) (iter_files cf) (ota_entries s) of
       (ok, D) \<Rightarrow> (if ok then Inr () else Inl os_error, s\<lparr>bs_plat := (bs_plat s)\<lparr>gs_ota := Some D\<rparr>\<rparr>))"

definition restore_config_files :: "'x grub_env \<Rightarrow> (string \<times> string option) list \<Rightarrow> ('x, unit) grub_io" where
  "restore_config_files env backup = modify_io (\<lambda>s. s\<lparr>bs_plat := (bs_plat s)\<lparr>gs_ota :=
     map_option (restore_ota_config_files (ge_restore_fails env) (ge_new_meta env) backup) (gs_ota (bs_plat s))\<rparr>\<rparr>)"

definition grub_module :: string where "grub_module = ''otaclient.boot_control._grub_new''"

definition install_new_ota_config_files_and_switch_boot :: "'x grub_env \<Rightarrow> ab_partition \<Rightarrow> ota_config_files \<Rightarrow> ('x, unit) grub_io" where
  "install_new_ota_config_files_and_switch_boot env ab cf = (\<lambda>s.
     let backup = backup_ota_config_files (ge_through env) (ota_entries s) cf
     in catch_io
       (seq_io
         [raise_as_ota_error BootControlBootConfigUpdateFailed ''failed to install the OTA config files to the boot partition'' grub_module
            (install_config_files env cf),
          raise_as_ota_error BootControlSwitchBootFailed ''failed to configure grub-reboot to standby slot'' grub_module
            (grub_reboot_to_standby env ab)])
       (\<lambda>e. if e = SysExit then throw e else then_io (if backup = [] then ret () else restore_config_files env backup) (throw e)) s)"

section \<open>The hooks of the controller\<close>

definition grub_mounts :: "'x grub_env \<Rightarrow> ab_partition \<Rightarrow> slot_mounts" where
  "grub_mounts env ab = \<lparr> sm_standby_slot_dev = si_dev (get_slot_info ab (ab_standby_slot ab)), sm_standby_mp = ge_mp env (ab_standby_slot ab),
     sm_active_rootfs = ge_active_root env, sm_active_mp = ge_active_mp env, sm_dynamic = ge_dynamic env, sm_is_dir = ge_is_dir env \<rparr>"

definition status_dir :: "ota_slot \<Rightarrow> string" where "status_dir slot = ''/boot/'' @ slot_name slot"

text \<open>The status files of a slot are removed with its folder.\<close>

definition remove_slot_dir :: "'x grub_env \<Rightarrow> ota_slot \<Rightarrow> ('x, unit) grub_io" where
  "remove_slot_dir env slot = then_io (remove_file env (boot_slot_dir slot))
     (modify_io (\<lambda>s. if node_of (boot_slot_dir slot) s = None
        then s\<lparr>bs_fs := (bs_fs s)\<lparr>fs_dirs := (fs_dirs (bs_fs s))(status_dir slot := absent_dir)\<rparr>\<rparr> else s))"

definition make_slot_dir :: "'x grub_env \<Rightarrow> ota_slot \<Rightarrow> ('x, unit) grub_io" where
  "make_slot_dir env slot = seq_io [make_dir env (boot_slot_dir slot), on_fs (mkdir (status_dir slot)),
     make_dir env (P_Boot [slot_name slot, ''grub''])]"

definition mark_legacy_failure :: "'x grub_env \<Rightarrow> ab_partition \<Rightarrow> ('x, unit) grub_io" where
  "mark_legacy_failure env ab = catch_io (\<lambda>s.
     let d = ab_old_slot_id ab (ab_current_slot ab)
     in if is_dir env (P_Boot [d]) s then write_str env (P_Boot [d, ''status'']) (ota_status_name FAILURE) s else (Inr (), s))
     (\<lambda>e. if e = SysExit then throw e else ret ())"

definition grub_pre_update_platform_specific :: "'x grub_env \<Rightarrow> ab_partition \<Rightarrow> ('x, unit) grub_io" where
  "grub_pre_update_platform_specific env ab = seq_io
     [remove_slot_dir env (ab_standby_slot ab),
      make_slot_dir env (ab_standby_slot ab),
      remove_file env (boot_cfg_fpath (ab_standby_slot ab)),
      mark_legacy_failure env ab]"

definition setup_standby :: "'x grub_env \<Rightarrow> ab_partition \<Rightarrow> string \<Rightarrow> ('x, unit) grub_io" where
  "setup_standby env ab kernel_ver = (let standby = ab_standby_slot ab in seq_io
     [setup_boot_slot_dir env kernel_ver standby,
      remove_file env (legacy_compat_dir ab standby),
      bind_io (read_str env (FSTAB (ab_current_slot ab)))
        (setup_slot_rootfs_for_ota_boot env ab (si_uuid (get_slot_info ab standby)) standby),
      setup_ota_boot_cfg_for_slot env kernel_ver standby])"

definition grub_post_update_platform_specific ::
    "'x grub_env \<Rightarrow> ab_partition \<Rightarrow> string \<Rightarrow> ota_config_files \<Rightarrow> ('x, unit) grub_io" where
  "grub_post_update_platform_specific env ab update_version cf =
     bind_io (detect_slot_kernel_ver env (ab_standby_slot ab)) (\<lambda>kernel_ver.
     bind_io (lift_cmd (get_kernel_version_via_uname (ge_run env))) (\<lambda>active_kernel_ver.
       case active_kernel_ver of
         None \<Rightarrow> throw grub_error
       | Some active_ver \<Rightarrow>
           if active_ver = [] then throw grub_error
           else seq_io
             [cleanup_old_boot_root_files env active_ver kernel_ver,
              raise_as_ota_error BootControlBootConfigUpdateFailed ''failed to setup boot files and boot config for standby slot'' grub_module
                (setup_standby env ab kernel_ver),
              install_new_ota_config_files_and_switch_boot env ab cf]))"

definition grub_platform :: "'x grub_env \<Rightarrow> ab_partition \<Rightarrow> ('x grub_state, ota_config_files) platform" where
  "grub_platform env ab = \<lparr>
     bootloader_type = ''grub'', plat_module = grub_module, default_config_files = no_config_files,
     pre_update_prepare_standby = (\<lambda>erase_standby. lift_cmd
       (prepare_standby_dev (ge_run env) (grub_mounts env ab) erase_standby None (Some (si_uuid (get_slot_info ab (ab_standby_slot ab)))))),
     mp_mount_standby = lift_cmd (mount_standby (ge_run env) (grub_mounts env ab)),
     mp_mount_active = lift_cmd (mount_active (ge_run env) (grub_mounts env ab)),
     mp_umount_all = lift_cmd (umount_all (ge_run env) (grub_mounts env ab) True),
     pre_update_platform_specific = (\<lambda>_ _. grub_pre_update_platform_specific env ab),
     post_update_platform_specific = grub_post_update_platform_specific env ab \<rparr>"

section \<open>What a failed update cannot change\<close>

text \<open>What the running slot is booted with: \<^verbatim>\<open>grub.cfg\<close>, its menu entry and everything in its folder.\<close>

definition protected' :: "ab_partition \<Rightarrow> place \<Rightarrow> bool" where
  "protected' ab p \<longleftrightarrow> p = GRUB_CFG \<or> p = boot_cfg_fpath (ab_current_slot ab) \<or> below (boot_slot_dir (ab_current_slot ab)) p"

definition clear :: "ab_partition \<Rightarrow> place \<Rightarrow> bool" where
  "clear ab p \<longleftrightarrow> (\<forall>q. below p q \<longrightarrow> \<not> protected' ab q)"

text \<open>
  The documented behaviour of the programs: none of them writes to the files of the running slot, its status files or \<^verbatim>\<open>grubenv\<close>
  (\<^verbatim>\<open>grub-editenv\<close> is given the temporary block), and \<^verbatim>\<open>grub-editenv list\<close> prints the options of the block.
\<close>

definition grub_tools :: "'x grub_env \<Rightarrow> ab_partition \<Rightarrow> status_control \<Rightarrow> bool" where
  "grub_tools env ab c \<longleftrightarrow> (\<forall>opts cmd s. let (r, s') = ge_run env opts cmd s in
     current_dir c s' = current_dir c s \<and> grubenv_of s' = grubenv_of s \<and> (\<forall>p. protected' ab p \<longrightarrow> node_of p s' = node_of p s) \<and>
     (\<forall>tmp out. cmd = [''grub-editenv'', tmp, ''list''] \<longrightarrow> r = R_Ok out \<longrightarrow> gs_tmp_env (bs_plat s') = Some (listed_options out)))"

definition switched :: "ab_partition \<Rightarrow> 'x grub \<Rightarrow> bool" where
  "switched ab s \<longleftrightarrow> (\<exists>e. grubenv_of s = Some e \<and> set e = {saved_entry (ab_current_slot ab), next_entry (ab_standby_slot ab)})"

definition bootable_as :: "ab_partition \<Rightarrow> status_control \<Rightarrow> 'x grub \<Rightarrow> 'x grub \<Rightarrow> bool" where
  "bootable_as ab c t s \<longleftrightarrow> current_dir c s = current_dir c t \<and> (\<forall>p. protected' ab p \<longrightarrow> node_of p s = node_of p t)
     \<and> (grubenv_of s = grubenv_of t \<or> switched ab s)"

lemma below_refl: "below p p"
  by (cases p) simp_all

lemma clear_not_protected: "clear ab p \<Longrightarrow> \<not> protected' ab p"
  using below_refl by (auto simp: clear_def)

lemma clear_root: "clear ab (P_Root slot p)"
  by (auto simp: clear_def protected'_def GRUB_CFG_def boot_cfg_fpath_def boot_slot_dir_def elim: below.elims)

lemma clear_boot: "x \<noteq> slot_name (ab_current_slot ab) \<Longrightarrow> x \<noteq> ''grub'' \<Longrightarrow> clear ab (P_Boot (x # q))"
  unfolding clear_def
proof (intro allI impI)
  fix q' assume x: "x \<noteq> slot_name (ab_current_slot ab)" "x \<noteq> ''grub''" and b: "below (P_Boot (x # q)) q'"
  then obtain r where "q' = P_Boot (x # r)"
    by (cases q') (auto simp: take_Cons' split: if_splits elim!: list.set_cases, metis append_take_drop_id append_Cons)
  then show "\<not> protected' ab q'"
    using x by (auto simp: protected'_def GRUB_CFG_def boot_cfg_fpath_def boot_slot_dir_def)
qed

lemma slot_name_neq: "slot_name s \<noteq> slot_name t \<longleftrightarrow> s \<noteq> t"
  by (cases s; cases t) simp_all

lemma kernel_file_name:
  assumes "startswith n VMLINUZ_PREFIX \<or> startswith n INITRD_PREFIX"
  shows "n \<noteq> slot_name s" "n \<noteq> ''grub''"
  using assms by (cases s; auto simp: startswith_def VMLINUZ_PREFIX_def INITRD_PREFIX_def)+

lemma clear_kernel_file: "startswith n VMLINUZ_PREFIX \<or> startswith n INITRD_PREFIX \<Longrightarrow> clear ab (P_Boot (n # q))"
  using kernel_file_name by (intro clear_boot) auto

text \<open>What a detection of the slots guarantees.\<close>

definition slots_ok :: "ab_partition \<Rightarrow> bool" where
  "slots_ok ab \<longleftrightarrow> ab_current_slot ab \<noteq> ab_standby_slot ab \<and> (\<forall>s. startswith (ab_old_slot_id ab s) LEGACY_SLOT_ID_PREFIX)"

lemma detected_slots_ok: "detect_boot_slots parts active = Some ab \<Longrightarrow> slots_ok ab"
  by (auto simp: detect_boot_slots_def detect_boot_slots_uefi_def detect_boot_slots_bios_def slots_ok_def
      split: option.splits if_splits)

lemma clear_standby:
  assumes "slots_ok ab"
  shows "clear ab (P_Boot (slot_name (ab_standby_slot ab) # q))" "clear ab (P_Boot (ab_old_slot_id ab slot # q))"
    "clear ab (boot_cfg_fpath (ab_standby_slot ab))"
proof -
  have ne: "ab_current_slot ab \<noteq> ab_standby_slot ab" and old: "startswith (ab_old_slot_id ab slot) LEGACY_SLOT_ID_PREFIX"
    using assms by (auto simp: slots_ok_def)
  have "slot_name (ab_standby_slot ab) \<noteq> slot_name (ab_current_slot ab)" "slot_name (ab_standby_slot ab) \<noteq> ''grub''"
    using ne slot_name_neq by (metis, cases "ab_standby_slot ab") auto
  then show "clear ab (P_Boot (slot_name (ab_standby_slot ab) # q))"
    by (rule clear_boot)
  have "ab_old_slot_id ab slot \<noteq> slot_name (ab_current_slot ab)" "ab_old_slot_id ab slot \<noteq> ''grub''"
    using old by (cases "ab_current_slot ab"; auto simp: startswith_def LEGACY_SLOT_ID_PREFIX_def)+
  then show "clear ab (P_Boot (ab_old_slot_id ab slot # q))"
    by (rule clear_boot)
  show "clear ab (boot_cfg_fpath (ab_standby_slot ab))"
    unfolding clear_def
  proof (intro allI impI)
    fix q assume "below (boot_cfg_fpath (ab_standby_slot ab)) q"
    then obtain r where "q = P_Boot ([''grub'', slot_name (ab_standby_slot ab) @ ''.cfg''] @ r)"
      by (cases q) (auto simp: boot_cfg_fpath_def, metis append_Cons append_Nil append_take_drop_id)
    moreover have "slot_name (ab_standby_slot ab) @ ''.cfg'' \<noteq> ''grub.cfg''"
      by (cases "ab_standby_slot ab") simp_all
    ultimately show "\<not> protected' ab q"
      using ne by (cases "ab_current_slot ab"; cases "ab_standby_slot ab")
        (auto simp: protected'_def GRUB_CFG_def boot_cfg_fpath_def boot_slot_dir_def)
  qed
qed

lemma node_put [simp]: "node_of q (put_node p n s) = (if q = p then Some n else node_of q s)"
  by (simp add: node_of_def put_node_def)

lemma put_node_rest [simp]: "bs_fs (put_node p n s) = bs_fs s" "grubenv_of (put_node p n s) = grubenv_of s"
  "current_dir c (put_node p n s) = current_dir c s"
  by (simp_all add: put_node_def grubenv_of_def current_dir_def)

lemma bootable_put: "bootable_as ab c t s \<Longrightarrow> clear ab p \<Longrightarrow> bootable_as ab c t (put_node p n s)"
  by (auto simp: bootable_as_def switched_def dest: clear_not_protected)

text \<open>A state that differs in nothing that matters to the running slot.\<close>

lemma bootable_same:
  assumes "bootable_as ab c t s" and "current_dir c s' = current_dir c s" and "grubenv_of s' = grubenv_of s"
    and "\<And>p. protected' ab p \<Longrightarrow> node_of p s' = node_of p s"
  shows "bootable_as ab c t s'"
  using assms by (auto simp: bootable_as_def switched_def)

lemma bootable_runs:
  assumes "grub_tools env ab c"
  shows "runs_keep (\<lambda>_. True) (bootable_as ab c t) (ge_run env)"
  unfolding runs_keep_def
proof (intro allI impI)
  fix opts cmd w
  assume "bootable_as ab c t w"
  moreover obtain r s' where run: "ge_run env opts cmd w = (r, s')"
    by fastforce
  have "current_dir c s' = current_dir c w \<and> grubenv_of s' = grubenv_of w \<and> (\<forall>p. protected' ab p \<longrightarrow> node_of p s' = node_of p w)"
    using assms [unfolded grub_tools_def, rule_format, of opts cmd w] by (simp add: run)
  ultimately show "bootable_as ab c t (snd (ge_run env opts cmd w))"
    using bootable_same [of ab c t w s'] by (simp add: run)
qed

lemma keeps_write_str: "clear ab p \<Longrightarrow> keeps (bootable_as ab c t) (write_str env p x)"
  by (auto simp: keeps_def write_str_def intro: bootable_put)

lemma keeps_copy_file: "clear ab p \<Longrightarrow> keeps (bootable_as ab c t) (copy_file env src p)"
  using keeps_write_str [of ab p c t env] by (auto simp: keeps_def copy_file_def split: option.splits)

lemma keeps_os_link: "clear ab p \<Longrightarrow> keeps (bootable_as ab c t) (os_link env src p)"
  by (auto simp: keeps_def os_link_def intro: bootable_put split: option.splits)

lemma keeps_make_dir: "clear ab p \<Longrightarrow> keeps (bootable_as ab c t) (make_dir env p)"
  by (auto simp: keeps_def make_dir_def intro: bootable_put)

lemma keeps_remove_file: "clear ab p \<Longrightarrow> keeps (bootable_as ab c t) (remove_file env p)"
  by (auto simp: keeps_def remove_file_def modify_io_def clear_def node_of_def grubenv_of_def current_dir_def elim!: bootable_same)

lemma keeps_chmod_exec: "keeps (bootable_as ab c t) (chmod_exec env p x)"
  by (auto simp: keeps_def chmod_exec_def node_of_def grubenv_of_def current_dir_def elim!: bootable_same)

lemma keeps_read_str: "keeps P (read_str env p)"
  by (auto simp: keeps_def read_str_def split: option.splits)

lemma keeps_ota: "keeps (bootable_as ab c t) (modify_io (\<lambda>s. s\<lparr>bs_plat := (bs_plat s)\<lparr>gs_ota := f s\<rparr>\<rparr>))"
  by (auto simp: keeps_def modify_io_def node_of_def grubenv_of_def current_dir_def elim!: bootable_same)

lemmas keeps_files = keeps_write_str keeps_copy_file keeps_os_link keeps_make_dir keeps_remove_file keeps_chmod_exec keeps_read_str clear_root

lemma keeps_as_grub_error [keeps_intros]: "keeps P m \<Longrightarrow> keeps P (as_grub_error m)"
  unfolding as_grub_error_def by (auto intro!: keeps_intros)

lemma as_grub_error_returns: "as_grub_error m s = (Inr a, s') \<longleftrightarrow> m s = (Inr a, s')"
  by (cases "m s") (auto simp: as_grub_error_def catch_io_def throw_def split: sum.splits)

text \<open>A method that starts by looking at the state.\<close>

lemma keeps_at: "(\<And>x. keeps P (m x)) \<Longrightarrow> keeps P (\<lambda>s. m (g s) s)"
  unfolding keeps_def by simp

section \<open>Writing the environment block\<close>

definition block_written :: "string list \<Rightarrow> 'x grub \<Rightarrow> bool" where
  "block_written options s \<longleftrightarrow> (\<exists>e. grubenv_of s = Some e \<and> set e = set options)"

text \<open>A run that kept what matters, up to the block.\<close>

definition same_boot :: "ab_partition \<Rightarrow> status_control \<Rightarrow> 'x grub \<Rightarrow> 'x grub \<Rightarrow> bool" where
  "same_boot ab c t s \<longleftrightarrow> current_dir c s = current_dir c t \<and> (\<forall>p. protected' ab p \<longrightarrow> node_of p s = node_of p t)"

lemma run_same_boot:
  assumes "grub_tools env ab c" and "lift_cmd (subprocess_run_wrapper (ge_run env) opts cmd) s = (r, s')"
  shows "same_boot ab c s s' \<and> grubenv_of s' = grubenv_of s"
    and "cmd = [''grub-editenv'', tmp, ''list''] \<Longrightarrow> r = Inr out \<Longrightarrow> gs_tmp_env (bs_plat s') = Some (listed_options out)"
proof -
  obtain q s1 where run: "ge_run env opts cmd s = (q, s1)"
    by fastforce
  have s1: "s1 = s'" and q: "r = Inr out \<Longrightarrow> q = R_Ok out" for out
    using assms(2) run by (auto simp: lift_cmd_def subprocess_run_wrapper_def split: cmd_result.splits)
  have t: "let (r, s') = ge_run env opts cmd s in
     current_dir c s' = current_dir c s \<and> grubenv_of s' = grubenv_of s \<and> (\<forall>p. protected' ab p \<longrightarrow> node_of p s' = node_of p s) \<and>
     (\<forall>tmp out. cmd = [''grub-editenv'', tmp, ''list''] \<longrightarrow> r = R_Ok out \<longrightarrow> gs_tmp_env (bs_plat s') = Some (listed_options out))"
    using assms(1) by (simp add: grub_tools_def)
  show "same_boot ab c s s' \<and> grubenv_of s' = grubenv_of s"
    using t run s1 by (auto simp: same_boot_def)
  show "cmd = [''grub-editenv'', tmp, ''list''] \<Longrightarrow> r = Inr out \<Longrightarrow> gs_tmp_env (bs_plat s') = Some (listed_options out)"
    using t run s1 q by simp
qed

lemma same_boot_trans: "same_boot ab c s t \<Longrightarrow> same_boot ab c t u \<Longrightarrow> same_boot ab c s u"
  by (simp add: same_boot_def)

definition env_body :: "'x grub_env \<Rightarrow> string \<Rightarrow> string list \<Rightarrow> ('x, unit) grub_io" where
  "env_body env tmp options =
     then_io (lift_cmd (subprocess_run_wrapper (ge_run env) (in_chroot (ge_chroot env)) ([''grub-editenv'', tmp, ''set''] @ options)))
       (bind_io (lift_cmd (subprocess_run_wrapper (ge_run env) (in_chroot (ge_chroot env)) [''grub-editenv'', tmp, ''list''])) (\<lambda>out.
          if set (listed_options out) \<noteq> set options then throw value_error else replace_grubenv env))"

lemma replace_grubenv_spec:
  assumes "replace_grubenv env s = (r, s')"
  shows "same_boot ab c s s' \<and> (if r = Inr () then grubenv_of s' = gs_tmp_env (bs_plat s) else grubenv_of s' = grubenv_of s)"
  using assms by (auto simp: replace_grubenv_def same_boot_def grubenv_of_def node_of_def current_dir_def split: if_splits)

lemma env_body_spec:
  assumes T: "grub_tools env ab c" and run: "env_body env tmp options s = (r, s')"
  shows "same_boot ab c s s' \<and> (if r = Inr () then block_written options s' else grubenv_of s' = grubenv_of s)"
proof -
  obtain r1 s1 where a: "lift_cmd (subprocess_run_wrapper (ge_run env) (in_chroot (ge_chroot env)) ([''grub-editenv'', tmp, ''set''] @ options)) s = (r1, s1)"
    by fastforce
  obtain r2 s2 where b: "lift_cmd (subprocess_run_wrapper (ge_run env) (in_chroot (ge_chroot env)) [''grub-editenv'', tmp, ''list'']) s1 = (r2, s2)"
    by fastforce
  note k1 = run_same_boot(1) [OF T a] and k2 = run_same_boot(1) [OF T b]
  have k12: "same_boot ab c s s2 \<and> grubenv_of s2 = grubenv_of s"
    using k1 k2 same_boot_trans [of ab c s s1 s2] by simp
  show ?thesis
  proof (cases r1)
    case (Inl e)
    then show ?thesis
      using run a k1 by (auto simp: env_body_def then_io_def bind_io_def)
  next
    case r1: (Inr x)
    show ?thesis
    proof (cases r2)
      case (Inl e)
      then show ?thesis
        using run a b r1 k12 by (auto simp: env_body_def then_io_def bind_io_def)
    next
      case r2: (Inr out)
      have tmp: "gs_tmp_env (bs_plat s2) = Some (listed_options out)"
        using run_same_boot(2) [OF T b refl r2] .
      show ?thesis
      proof (cases "set (listed_options out) = set options")
        case False
        then show ?thesis
          using run a b r1 r2 k12 by (auto simp: env_body_def then_io_def bind_io_def throw_def)
      next
        case True
        then have "replace_grubenv env s2 = (r, s')"
          using run a b r1 r2 by (simp add: env_body_def then_io_def bind_io_def)
        then have "same_boot ab c s2 s' \<and> (if r = Inr () then grubenv_of s' = gs_tmp_env (bs_plat s2) else grubenv_of s' = grubenv_of s2)"
          by (rule replace_grubenv_spec)
        then show ?thesis
          using k12 tmp True same_boot_trans [of ab c s s2 s'] by (auto simp: block_written_def split: if_splits)
      qed
    qed
  qed
qed

lemma write_grubenv_body:
  "write_grubenv_atomic env options = then_io
     (finally_io (env_body env (''/boot/grub/.grubenv_ota_'' @ ge_tmp_name env) options) (modify_io (\<lambda>s. s\<lparr>bs_plat := (bs_plat s)\<lparr>gs_tmp_env := None\<rparr>\<rparr>)))
     (lift_cmd (subprocess_call (ge_run env) here [''sync'', ''-f'', ''/boot/grub/grubenv''] False))"
  unfolding write_grubenv_atomic_def env_body_def Let_def ..

lemma write_grubenv_spec:
  assumes T: "grub_tools env ab c" and run: "write_grubenv_atomic env options s = (r, s')"
  shows "same_boot ab c s s'" and "grubenv_of s' = grubenv_of s \<or> block_written options s'" and "r = Inr () \<Longrightarrow> block_written options s'"
proof -
  let ?tmp = "''/boot/grub/.grubenv_ota_'' @ ge_tmp_name env"
  obtain r1 s1 where b: "env_body env ?tmp options s = (r1, s1)"
    by fastforce
  note k1 = env_body_spec [OF T b]
  let ?s2 = "s1\<lparr>bs_plat := (bs_plat s1)\<lparr>gs_tmp_env := None\<rparr>\<rparr>"
  have k2: "same_boot ab c s ?s2" "grubenv_of ?s2 = grubenv_of s1"
    using k1 by (auto simp: same_boot_def grubenv_of_def node_of_def current_dir_def)
  obtain r3 s3 where y: "lift_cmd (subprocess_call (ge_run env) here [''sync'', ''-f'', ''/boot/grub/grubenv''] False) ?s2 = (r3, s3)"
    by fastforce
  have sync: "same_boot ab c ?s2 s3 \<and> grubenv_of s3 = grubenv_of ?s2"
  proof -
    obtain q u where run: "ge_run env here [''sync'', ''-f'', ''/boot/grub/grubenv''] ?s2 = (q, u)"
      by fastforce
    have "s3 = u"
      using y run by (auto simp: lift_cmd_def subprocess_call_def subprocess_run_wrapper_def io_defs ret_def throw_def
          split: cmd_result.splits if_splits)
    then show ?thesis
      using T [unfolded grub_tools_def, rule_format, of here "[''sync'', ''-f'', ''/boot/grub/grubenv'']" ?s2] run
      by (simp add: same_boot_def)
  qed
  have w: "write_grubenv_atomic env options s = (case r1 of Inl e \<Rightarrow> (Inl e, ?s2) | Inr _ \<Rightarrow> (r3, s3))"
    unfolding write_grubenv_body using b y
    by (cases r1) (simp_all only: then_io_def bind_io_def finally_io_def modify_io_def prod.case sum.case)
  have bw: "block_written options s1 \<Longrightarrow> grubenv_of u = grubenv_of s1 \<Longrightarrow> block_written options u" for u
    by (simp add: block_written_def)
  show "same_boot ab c s s'" "grubenv_of s' = grubenv_of s \<or> block_written options s'" "r = Inr () \<Longrightarrow> block_written options s'"
    using run w k1 k2 sync bw [of s3] bw [of ?s2] same_boot_trans [of ab c s ?s2 s3]
    by (auto split: sum.splits if_splits)
qed

section \<open>The update and the running slot\<close>

lemma keeps_grub_reboot:
  assumes "grub_tools env ab c"
  shows "keeps (bootable_as ab c t) (grub_reboot_to_standby env ab)"
proof (rule keepsI)
  fix s assume b: "bootable_as ab c t s"
  let ?m = "write_grubenv_atomic env [saved_entry (ab_current_slot ab), next_entry (ab_standby_slot ab)]"
  obtain r s' where run: "?m s = (r, s')"
    by fastforce
  note k = write_grubenv_spec [OF assms run]
  have "snd (grub_reboot_to_standby env ab s) = s'"
    using run by (auto simp: grub_reboot_to_standby_def grub_reboot_def as_grub_error_def catch_io_def throw_def split: sum.split)
  moreover have "block_written [saved_entry (ab_current_slot ab), next_entry (ab_standby_slot ab)] s' \<Longrightarrow> switched ab s'"
    by (auto simp: block_written_def switched_def)
  then have "bootable_as ab c t s'"
    using b k(1,2) by (auto simp: bootable_as_def same_boot_def switched_def)
  ultimately show "bootable_as ab c t (snd (grub_reboot_to_standby env ab s))"
    by simp
qed

lemma keeps_keep_or_remove:
  assumes "startswith n VMLINUZ_PREFIX \<or> startswith n INITRD_PREFIX"
  shows "keeps (bootable_as ab c t) (keep_or_remove env ks n)"
  using keeps_remove_file [OF clear_kernel_file [OF assms, of ab "[]"], of c t env]
  by (auto simp: keeps_def keep_or_remove_def Let_def split: option.split bnode.split)

lemma keeps_cleanup: "keeps (bootable_as ab c t) (cleanup_old_boot_root_files env v w)"
  unfolding cleanup_old_boot_root_files_def Let_def
  by (rule keeps_at [where g = "\<lambda>s. ge_listing env s (P_Boot [])"]) (auto intro!: keeps_intros keeps_keep_or_remove)

lemma prefixed: "startswith (VMLINUZ_PREFIX @ v) VMLINUZ_PREFIX" "startswith (INITRD_PREFIX @ v) INITRD_PREFIX"
  by simp_all

lemma keeps_setup_boot_file:
  assumes "slots_ok ab" and "startswith n VMLINUZ_PREFIX \<or> startswith n INITRD_PREFIX"
  shows "keeps (bootable_as ab c t) (setup_boot_file env (ab_standby_slot ab) n)"
proof -
  have "keeps (bootable_as ab c t) (seq_io [copy_file env (P_Root (ab_standby_slot ab) [''boot'', n]) (P_Boot [slot_name (ab_standby_slot ab), n]),
      expose_boot_file env (ab_standby_slot ab) n])"
    unfolding expose_boot_file_def using clear_standby(1) [OF assms(1)] clear_kernel_file [OF assms(2)]
    by (auto intro!: keeps_intros keeps_files)
  then show ?thesis
    by (auto simp: keeps_def setup_boot_file_def split: option.split bnode.split)
qed

lemma keeps_mkconfig:
  assumes "grub_tools env ab c"
  shows "keeps (bootable_as ab c t) (grub_mkconfig_on_mp env mp src)"
proof -
  note r = bootable_runs [OF assms, of t]
  have run: "keeps (bootable_as ab c t) (subprocess_run_wrapper (ge_run env) (in_chroot (Some mp)) [''grub-mkconfig''])"
    by (rule keeps_run [OF r]) simp
  have "keeps (bootable_as ab c t) (run_grub_mkconfig env mp)"
  proof (rule keepsI)
    fix s assume "bootable_as ab c t s"
    then have "bootable_as ab c t (snd (subprocess_run_wrapper (ge_run env) (in_chroot (Some mp)) [''grub-mkconfig''] s))"
      by (rule keepsD [OF run])
    then show "bootable_as ab c t (snd (run_grub_mkconfig env mp s))"
      by (auto simp: run_grub_mkconfig_def split: prod.split sum.split cmd_exc.split)
  qed
  then show ?thesis
    unfolding grub_mkconfig_on_mp_def prepare_chroot_env_def chroot_mounts_def
    by (auto intro!: keeps_intros keeps_mount_any [OF r] keeps_umount [OF r])
qed

lemma keeps_disable_uefi: "keeps (bootable_as ab c t) (disable_uefi_firmware_grub_hook env slot)"
proof -
  have "keeps (bootable_as ab c t) (seq_io [remove_file env (UEFI_HOOK slot),
      write_str env (UEFI_HOOK slot) UEFI_FIRMWARE_GRUB_HOOK_DISABLED, chmod_exec env (UEFI_HOOK slot) False])"
    unfolding UEFI_HOOK_def by (auto intro!: keeps_intros keeps_files)
  then show ?thesis
    by (auto simp: keeps_def disable_uefi_firmware_grub_hook_def)
qed

lemma keeps_setup_rootfs: "keeps (bootable_as ab c t) (setup_slot_rootfs_for_ota_boot env ab u slot ref)"
  unfolding setup_slot_rootfs_for_ota_boot_def FSTAB_def DEFAULT_GRUB_def OTA_HOOK_def
  by (auto intro!: keeps_intros keeps_files keeps_disable_uefi)

lemma keeps_setup_standby:
  assumes "grub_tools env ab c" and "slots_ok ab"
  shows "keeps (bootable_as ab c t) (setup_standby env ab v)"
  unfolding setup_standby_def setup_boot_slot_dir_def setup_ota_boot_cfg_for_slot_def legacy_compat_dir_def Let_def
  using clear_standby [OF assms(2)] prefixed
  by (auto intro!: keeps_intros keeps_files keeps_setup_boot_file [OF assms(2)] keeps_mkconfig [OF assms(1)] keeps_setup_rootfs
      split: option.split)

lemma keeps_install: "keeps (bootable_as ab c t) (install_config_files env cf)"
  by (auto simp: keeps_def install_config_files_def node_of_def grubenv_of_def current_dir_def elim!: bootable_same split: prod.split)

lemma keeps_restore: "keeps (bootable_as ab c t) (restore_config_files env b)"
  unfolding restore_config_files_def by (rule keeps_ota)

lemma keeps_install_and_switch:
  assumes "grub_tools env ab c"
  shows "keeps (bootable_as ab c t) (install_new_ota_config_files_and_switch_boot env ab cf)"
  unfolding install_new_ota_config_files_and_switch_boot_def Let_def
  by (rule keeps_at [where g = ota_entries])
    (auto intro!: keeps_intros keeps_install keeps_grub_reboot [OF assms] keeps_restore)

lemma keeps_post_update_hook:
  assumes "grub_tools env ab c" and "slots_ok ab"
  shows "keeps (bootable_as ab c t) (grub_post_update_platform_specific env ab v cf)"
proof -
  note r = bootable_runs [OF assms(1), of t]
  have "keeps (bootable_as ab c t) (detect_slot_kernel_ver env slot)" for slot
    by (auto simp: keeps_def detect_slot_kernel_ver_def Let_def split: list.split)
  moreover have "keeps (bootable_as ab c t) (get_kernel_version_via_uname (ge_run env))"
    unfolding get_kernel_version_via_uname_def by (auto intro!: keeps_intros keeps_check_output [OF r])
  ultimately show ?thesis
    unfolding grub_post_update_platform_specific_def
    by (auto intro!: keeps_intros keeps_cleanup keeps_setup_standby [OF assms] keeps_install_and_switch [OF assms(1)] split: option.split)
qed

text \<open>The status files of the two slots are in their folders.\<close>

definition grub_control :: "ab_partition \<Rightarrow> status_control \<Rightarrow> bool" where
  "grub_control ab c \<longleftrightarrow> current_ota_status_dir c = status_dir (ab_current_slot ab) \<and> standby_ota_status_dir c = status_dir (ab_standby_slot ab)"

lemma status_dirs_differ: "slots_ok ab \<Longrightarrow> status_dir (ab_current_slot ab) \<noteq> status_dir (ab_standby_slot ab)"
  using slot_name_neq [of "ab_current_slot ab" "ab_standby_slot ab"] by (simp add: status_dir_def slots_ok_def)

lemma bootable_fs:
  assumes "bootable_as ab c t s" and "fs_dirs fs (current_ota_status_dir c) = fs_dirs (bs_fs s) (current_ota_status_dir c)"
  shows "bootable_as ab c t (s\<lparr>bs_fs := fs\<rparr>)"
  using assms by (intro bootable_same [OF assms(1)]) (simp_all add: current_dir_def node_of_def grubenv_of_def)

lemma keeps_pre_update_hook:
  assumes "slots_ok ab" and "grub_control ab c"
  shows "keeps (bootable_as ab c t) (grub_pre_update_platform_specific env ab)"
proof -
  have ne: "current_ota_status_dir c \<noteq> status_dir (ab_standby_slot ab)"
    using assms status_dirs_differ by (simp add: grub_control_def)
  note cl = clear_standby [OF assms(1)] clear_standby(1) [OF assms(1), of "[]", folded boot_slot_dir_def]
  have "keeps (bootable_as ab c t) (modify_io (\<lambda>s. if node_of (boot_slot_dir (ab_standby_slot ab)) s = None
        then s\<lparr>bs_fs := (bs_fs s)\<lparr>fs_dirs := (fs_dirs (bs_fs s))(status_dir (ab_standby_slot ab) := absent_dir)\<rparr>\<rparr> else s))"
    using ne by (auto simp: keeps_def modify_io_def intro: bootable_fs)
  moreover have "keeps (bootable_as ab c t) (on_fs (mkdir (status_dir (ab_standby_slot ab))))"
    using ne by (auto simp: keeps_def on_fs_def mkdir_def modify_io_def intro!: bootable_fs)
  moreover have "keeps (bootable_as ab c t) (\<lambda>s. let d = ab_old_slot_id ab (ab_current_slot ab)
     in if is_dir env (P_Boot [d]) s then write_str env (P_Boot [d, ''status'']) (ota_status_name FAILURE) s else (Inr (), s))"
    using keeps_write_str [OF cl(2) [of "ab_current_slot ab" "[''status'']"], of c t env] by (auto simp: keeps_def Let_def)
  ultimately show ?thesis
    unfolding grub_pre_update_platform_specific_def remove_slot_dir_def make_slot_dir_def mark_legacy_failure_def
    using cl by (auto intro!: keeps_intros keeps_files)
qed

text \<open>The templates can rely on the controller.\<close>

lemma grub_hooks_keep:
  fixes env :: "'a grub_env"
  assumes T: "grub_tools env ab c" and ok: "slots_ok ab" "grub_control ab c"
  shows "hooks_keep (grub_platform env ab) c"
proof -
  have dir: "keeps (\<lambda>s. current_dir c s = d) m" if "\<And>t. keeps (bootable_as ab c t) m" for d and m :: "('a, unit) grub_io"
  proof (rule keepsI)
    fix s :: "'a grub"
    assume "current_dir c s = d"
    moreover have "bootable_as ab c s (snd (m s))"
      using keepsD [OF that [of s], of s] by (simp add: bootable_as_def)
    ultimately show "current_dir c (snd (m s)) = d"
      by (simp add: bootable_as_def)
  qed
  note sm = keeps_slot_mounts [OF bootable_runs [OF T], THEN keeps_lift_cmd, THEN dir]
  show ?thesis
    unfolding hooks_keep_def grub_platform_def
    by (auto intro!: sm dir keeps_pre_update_hook [OF ok] keeps_post_update_hook [OF T ok(1)])
qed

lemma keeps_template_post_update:
  assumes T: "grub_tools env ab c" and ok: "slots_ok ab" "grub_control ab c"
  shows "keeps (bootable_as ab c t) (bc_post_update (grub_platform env ab) c v vd cf)"
proof -
  have ne: "current_ota_status_dir c \<noteq> standby_ota_status_dir c"
    using ok status_dirs_differ by (simp add: grub_control_def)
  have "keeps (bootable_as ab c t) (on_fs (post_update_standby c v vd))"
  proof (rule keepsI)
    fix s assume b: "bootable_as ab c t s"
    obtain fs' where "post_update_standby c v vd (bs_fs s) = (Inr (), fs')"
        "\<forall>d. d \<noteq> standby_ota_status_dir c \<longrightarrow> fs_dirs fs' d = fs_dirs (bs_fs s) d"
      using post_update_standby_result [of c v vd "bs_fs s"] by blast
    then show "bootable_as ab c t (snd (on_fs (post_update_standby c v vd) s))"
      using b ne by (auto simp: on_fs_def intro!: bootable_fs)
  qed
  then show ?thesis
    unfolding bc_post_update_def using keeps_slot_mounts [OF bootable_runs [OF T]]
    by (auto simp: grub_platform_def intro!: keeps_intros keeps_post_update_hook [OF T ok(1)])
qed

text \<open>A hook that returns has switched, and unmounting leaves it so.\<close>

lemma install_and_switch_returns:
  assumes "grub_tools env ab c" and "install_new_ota_config_files_and_switch_boot env ab cf s = (Inr (), s')"
  shows "switched ab s'"
proof -
  let ?b = "backup_ota_config_files (ge_through env) (ota_entries s) cf"
  have no: "(\<lambda>e. if e = SysExit then throw e else then_io (if ?b = [] then ret () else restore_config_files env ?b) (throw e)) e u \<noteq> (Inr (), s')"
    for e u by (auto simp: io_returns)
  obtain s1 where "grub_reboot_to_standby env ab s1 = (Inr (), s')"
    using assms(2) no unfolding install_new_ota_config_files_and_switch_boot_def Let_def
    by (auto simp: catch_returns then_returns ret_returns raise_as_returns)
  then have "write_grubenv_atomic env [saved_entry (ab_current_slot ab), next_entry (ab_standby_slot ab)] s1 = (Inr (), s')"
    by (simp add: grub_reboot_to_standby_def grub_reboot_def as_grub_error_returns)
  from write_grubenv_spec(3) [OF assms(1) this refl] show ?thesis
    by (auto simp: block_written_def switched_def)
qed

lemma post_update_hook_returns:
  assumes T: "grub_tools env ab c" and "grub_post_update_platform_specific env ab v cf s = (Inr (), s')"
  shows "switched ab s'"
proof -
  obtain s1 where "install_new_ota_config_files_and_switch_boot env ab cf s1 = (Inr (), s')"
    using assms(2) unfolding grub_post_update_platform_specific_def
    by (auto simp: bind_returns then_returns ret_returns throw_returns split: option.splits if_splits)
  then show ?thesis
    by (rule install_and_switch_returns [OF T])
qed

lemma switched_runs:
  fixes env :: "'a grub_env"
  assumes "grub_tools env ab c"
  shows "runs_keep (\<lambda>_. True) (switched ab) (ge_run env)"
  unfolding runs_keep_def
proof (intro allI impI)
  fix opts cmd and w :: "'a grub"
  assume "switched ab w"
  moreover have "grubenv_of (snd (ge_run env opts cmd w)) = grubenv_of w"
    using assms [unfolded grub_tools_def, rule_format, of opts cmd w] by (simp add: case_prod_unfold Let_def)
  ultimately show "switched ab (snd (ge_run env opts cmd w))"
    by (simp add: switched_def)
qed

text \<open>
  C9: With GRUB, a post-update cannot take away the way back: wherever it ends, \<^verbatim>\<open>grub.cfg\<close>, the menu entry of the running slot,
  everything in its boot folder and its status files are as before, and \<^verbatim>\<open>grubenv\<close> is either untouched or has exactly the running slot as the saved
  entry and the standby slot as the entry of the next boot; when it returns, it is the latter. The programs it runs are assumed not to
  write these files and \<^verbatim>\<open>grub-editenv\<close> to list what is in the block it is given.
\<close>

theorem grub_post_update_keeps_boot:
  assumes T: "grub_tools env ab c" and det: "detect_boot_slots parts active = Some ab" and ctl: "grub_control ab c"
    and run: "bc_post_update (grub_platform env ab) c v vd cf s = (r, s')"
  shows "(\<forall>p. protected' ab p \<longrightarrow> node_of p s' = node_of p s) \<and> current_dir c s' = current_dir c s
    \<and> (grubenv_of s' = grubenv_of s \<or> switched ab s') \<and> (r = Inr () \<longrightarrow> switched ab s')"
proof -
  have ok: "slots_ok ab"
    by (rule detected_slots_ok [OF det])
  have "bootable_as ab c s s'"
    using keepsD_eq [OF keeps_template_post_update [OF T ok ctl] run, of s] by (simp add: bootable_as_def)
  moreover have "switched ab s'" if r: "r = Inr ()"
  proof -
    let ?p = "grub_platform env ab"
    obtain s1 s2 where post: "post_update_platform_specific ?p v (case cf of Some f \<Rightarrow> f | None \<Rightarrow> default_config_files ?p) s1 = (Inr (), s2)"
      and um: "mp_umount_all ?p s2 = (Inr (), s')"
      using run [unfolded r] unfolding bc_post_update_def raise_as_returns seq_io.simps then_returns ret_returns by auto
    have "switched ab s2"
      using post_update_hook_returns [OF T] post by (simp add: grub_platform_def)
    moreover have "keeps (switched ab) (mp_umount_all ?p)"
      using keeps_slot_mounts(3) [OF switched_runs [OF T]] by (simp add: grub_platform_def keeps_lift_cmd)
    ultimately show ?thesis
      using um by (metis keepsD snd_conv)
  qed
  ultimately show ?thesis
    by (auto simp: bootable_as_def)
qed

section \<open>An example\<close>

text \<open>Programs that do what they are documented to do, on a BIOS system with a kernel in the standby slot.\<close>

definition ex_grub_run :: "unit grub runner" where
  "ex_grub_run opts cmd s =
     (if take 1 cmd = [''grub-editenv''] \<and> take 1 (drop 2 cmd) = [''set'']
      then (R_Ok '''', s\<lparr>bs_plat := (bs_plat s)\<lparr>gs_tmp_env := Some (drop 3 cmd)\<rparr>\<rparr>)
      else if take 1 cmd = [''grub-editenv'']
      then (case gs_tmp_env (bs_plat s) of
          Some e \<Rightarrow> if listed_options (unlines e) = e then (R_Ok (unlines e), s) else (R_Failed, s)
        | None \<Rightarrow> (R_Failed, s))
      else if cmd = [''uname'', ''-r''] then (R_Ok ''5.15'', s)
      else if take 1 cmd = [''findmnt''] then (R_Failed, s)
      else if cmd = [''grub-mkconfig'', ''--version''] then (R_Ok ''grub-mkconfig (GRUB) 2.12'', s)
      else (R_Ok ''x'', s))"

definition ex_grub_env :: "unit grub_env" where
  "ex_grub_env = \<lparr> ge_run = ex_grub_run, ge_write_fails = (\<lambda>_ _. False), ge_stuck = (\<lambda>_ _. False), ge_env_fails = (\<lambda>_. False),
     ge_listing = (\<lambda>_ p. if p = P_Root Slot_B [''boot''] then [''vmlinuz-5.15''] else []), ge_link_text = (\<lambda>_. None), ge_link_dir = (\<lambda>_. False),
     ge_menuentry = (\<lambda>raw slot ver. Some (''menuentry '' @ slot_name slot)), ge_config_fails = (\<lambda>_ _. False), ge_restore_fails = (\<lambda>_. False),
     ge_through = (\<lambda>_. None), ge_new_meta = 0, ge_sha256 = toy_sha, ge_version = ''3.14.2'', ge_tmp_name = ''00'', ge_chroot = None,
     ge_mp = (\<lambda>_. ''/mnt/slot''), ge_bootstrap_source = ''/boot/._ota_bootstrap0'', ge_active_root = ''/'', ge_active_mp = ''/mnt/active'',
     ge_dynamic = False, ge_is_dir = (\<lambda>_. True) \<rparr>"

definition ex_grub_ctl :: status_control where
  "ex_grub_ctl = ex_ctl\<lparr>current_ota_status_dir := status_dir Slot_A, standby_ota_status_dir := status_dir Slot_B\<rparr>"

definition ex_grub :: "unit grub" where
  "ex_grub = \<lparr> bs_fs = ex_fs, bs_plat = \<lparr>
     gs_files = [GRUB_CFG \<mapsto> BFile ''managed'', boot_cfg_fpath Slot_A \<mapsto> BFile ''menuentry a'',
       P_Root Slot_A [''etc'', ''fstab''] \<mapsto> BFile '''', P_Root Slot_B [''etc'', ''fstab''] \<mapsto> BFile '''',
       P_Root Slot_B [''etc'', ''default'', ''grub''] \<mapsto> BFile '''',
       P_Root Slot_B [''boot'', ''vmlinuz-5.15''] \<mapsto> BFile ''kernel'', P_Root Slot_B [''boot'', ''initrd.img-5.15''] \<mapsto> BFile ''initrd''],
     gs_exec = (\<lambda>_. False), gs_grubenv = Some [saved_entry Slot_A], gs_tmp_env = None, gs_ota = None, gs_rest = () \<rparr> \<rparr>"

lemma ex_grub_tools: "grub_tools ex_grub_env ab c"
proof -
  have same: "snd (ex_grub_run opts cmd s) = s \<or> (\<exists>e. snd (ex_grub_run opts cmd s) = s\<lparr>bs_plat := (bs_plat s)\<lparr>gs_tmp_env := e\<rparr>\<rparr>)" for opts cmd s
    by (auto simp: ex_grub_run_def split: option.split)
  have lst: "gs_tmp_env (bs_plat (snd (ex_grub_run opts [''grub-editenv'', tmp, ''list''] s))) = Some (listed_options out)"
    if "fst (ex_grub_run opts [''grub-editenv'', tmp, ''list''] s) = R_Ok out" for opts tmp s out
    using that by (auto simp: ex_grub_run_def split: option.splits if_splits)
  show ?thesis
    unfolding grub_tools_def
  proof (intro allI)
    fix opts cmd and s :: "unit grub"
    obtain r s' where run: "ex_grub_run opts cmd s = (r, s')"
      by fastforce
    have "s' = s \<or> (\<exists>e. s' = s\<lparr>bs_plat := (bs_plat s)\<lparr>gs_tmp_env := e\<rparr>\<rparr>)"
      using same [of opts cmd s] run by simp
    then have "current_dir c s' = current_dir c s \<and> grubenv_of s' = grubenv_of s \<and> (\<forall>p. node_of p s' = node_of p s)"
      by (auto simp: current_dir_def grubenv_of_def node_of_def)
    moreover have "gs_tmp_env (bs_plat s') = Some (listed_options out)" if "cmd = [''grub-editenv'', tmp, ''list'']" "r = R_Ok out" for tmp out
      using lst [of opts tmp s out] run that by simp
    ultimately show "let (r, s') = ge_run ex_grub_env opts cmd s in
       current_dir c s' = current_dir c s \<and> grubenv_of s' = grubenv_of s \<and> (\<forall>p. protected' ab p \<longrightarrow> node_of p s' = node_of p s) \<and>
       (\<forall>tmp out. cmd = [''grub-editenv'', tmp, ''list''] \<longrightarrow> r = R_Ok out \<longrightarrow> gs_tmp_env (bs_plat s') = Some (listed_options out))"
      using run by (auto simp: ex_grub_env_def)
  qed
qed



theorem grub_post_update_keeps_boot_witness:
  "\<exists>s'. bc_post_update (grub_platform ex_grub_env example_ab) ex_grub_ctl ''v1'' None None ex_grub = (Inr (), s')
     \<and> node_of GRUB_CFG s' = Some (BFile ''managed'') \<and> switched example_ab s'"
proof -
  have ctl: "grub_control example_ab ex_grub_ctl"
    by (simp add: grub_control_def example_ab_detected ex_grub_ctl_def ex_ctl_def)
  let ?m = "bc_post_update (grub_platform ex_grub_env example_ab) ex_grub_ctl ''v1'' None None ex_grub"
  have "fst ?m = Inr ()"
    by code_simp
  then obtain s' where run: "?m = (Inr (), s')"
    by (metis prod.collapse)
  moreover have "node_of GRUB_CFG ex_grub = Some (BFile ''managed'')"
    by (simp add: node_of_def ex_grub_def GRUB_CFG_def boot_cfg_fpath_def)
  ultimately show ?thesis
    using grub_post_update_keeps_boot [OF ex_grub_tools example_ab_detected(1) ctl run] by (auto simp: protected'_def)
qed

section \<open>Finalizing, and configuration files after a failure\<close>

text \<open>
  After the first boot into the new slot, \<^verbatim>\<open>grubenv\<close> names the slot that is running and nothing else; a failure raises.
\<close>

lemma grub_finalize_saves_slot:
  assumes "grub_tools env ab c" and "finalize_update_switch_boot env ab s = (r, s')"
  shows "same_boot ab c s s'" and "grubenv_of s' = grubenv_of s \<or> block_written [saved_entry (ab_current_slot ab)] s'"
    and "r = Inr ok \<Longrightarrow> ok \<and> block_written [saved_entry (ab_current_slot ab)] s'"
proof -
  obtain q u where w: "write_grubenv_atomic env [saved_entry (ab_current_slot ab)] s = (q, u)"
    by fastforce
  have u: "s' = u" and r: "r = Inr ok \<Longrightarrow> ok \<and> q = Inr ()" for ok
    using assms(2) w by (auto simp: finalize_update_switch_boot_def grub_set_default_atomic_def as_grub_error_def io_defs throw_def ret_def
        split: sum.splits if_splits)
  note k = write_grubenv_spec [OF assms(1) w]
  show "same_boot ab c s s'" "grubenv_of s' = grubenv_of s \<or> block_written [saved_entry (ab_current_slot ab)] s'"
    using k(1,2) u by simp_all
  show "r = Inr ok \<Longrightarrow> ok \<and> block_written [saved_entry (ab_current_slot ab)] s'"
    using k(3) r u by blast
qed

text \<open>What was installed in part, or before the switch failed, is taken back.\<close>

definition ota_kept :: "'x grub_env \<Rightarrow> bool" where
  "ota_kept env \<longleftrightarrow> (\<forall>opts cmd s. gs_ota (bs_plat (snd (ge_run env opts cmd s))) = gs_ota (bs_plat s))"

lemma install_steps_other: "install_steps fails nm fs D = (ok, D') \<Longrightarrow> n \<notin> fst ` set fs \<Longrightarrow> map_of D' n = map_of D n"
  by (induction fails nm fs D rule: install_steps.induct) (auto simp: update_conv split: if_splits)

lemma install_steps_files:
  assumes "install_steps fails nm fs D = (ok, D')" and "n \<in> fst ` set fs" and "\<not> is_directory (map_of D n)"
  shows "\<not> is_directory (map_of D' n)"
  using assms
proof (induction fails nm fs D rule: install_steps.induct)
  case (2 fails nm k c fs D)
  show ?case
  proof (cases "fails k \<or> is_directory (map_of D k)")
    case True
    then show ?thesis
      using 2 by auto
  next
    case False
    let ?D = "AList.update k (File nm c) D"
    have st: "install_steps fails nm fs ?D = (ok, D')"
      using "2.prems"(1) False by simp
    have nd: "\<not> is_directory (map_of ?D n)"
      using "2.prems"(3) by (auto simp: update_conv)
    show ?thesis
    proof (cases "n \<in> fst ` set fs")
      case True
      then show ?thesis
        using "2.IH" [OF False st _ nd] by blast
    next
      case no: False
      then show ?thesis
        using install_steps_other [OF st no] nd by simp
    qed
  qed
qed simp

lemma keeps_ota_reboot:
  assumes "ota_kept env"
  shows "keeps (\<lambda>s. gs_ota (bs_plat s) = d) (grub_reboot_to_standby env ab)"
proof -
  have r: "runs_keep (\<lambda>_. True) (\<lambda>s. gs_ota (bs_plat s) = d) (ge_run env)"
    using assms by (simp add: runs_keep_def ota_kept_def)
  have "keeps (\<lambda>s. gs_ota (bs_plat s) = d) (replace_grubenv env)"
    "keeps (\<lambda>s. gs_ota (bs_plat s) = d) (modify_io (\<lambda>s. s\<lparr>bs_plat := (bs_plat s)\<lparr>gs_tmp_env := None\<rparr>\<rparr>))"
    by (simp_all add: keeps_def replace_grubenv_def modify_io_def)
  then show ?thesis
    unfolding grub_reboot_to_standby_def grub_reboot_def write_grubenv_body env_body_def
    by (auto intro!: keeps_intros keeps_run [OF r] keeps_call [OF r])
qed

lemma config_files_restored:
  assumes run: "install_new_ota_config_files_and_switch_boot env ab cf s = (Inl e, s')" and "e \<noteq> SysExit"
    and k: "ota_kept env" and nf: "ge_restore_fails env = (\<lambda>_. False)"
    and plain: "\<And>n. n \<in> {ECU_INFO_FNAME, PROXY_INFO_FNAME} \<Longrightarrow> \<not> is_directory (map_of (ota_entries s) n) \<and> \<not> is_link (map_of (ota_entries s) n)"
  shows "content_of (map_of (ota_entries s') n) = content_of (map_of (ota_entries s) n)"
proof -
  let ?b = "backup_ota_config_files (ge_through env) (ota_entries s) cf"
  let ?inst = "raise_as_ota_error BootControlBootConfigUpdateFailed ''failed to install the OTA config files to the boot partition'' grub_module
            (install_config_files env cf)"
  let ?sw = "raise_as_ota_error BootControlSwitchBootFailed ''failed to configure grub-reboot to standby slot'' grub_module
            (grub_reboot_to_standby env ab)"
  obtain r1 s1 where m: "seq_io [?inst, ?sw] s = (r1, s1)"
    by fastforce
  have s': "s' = (if ?b = [] then s1 else snd (restore_config_files env ?b s1))"
    using run assms(2) m unfolding install_new_ota_config_files_and_switch_boot_def Let_def
    by (auto simp: catch_io_def then_io_def bind_io_def restore_config_files_def modify_io_def ret_def throw_def split: sum.splits if_splits)
  have ota: "gs_ota (bs_plat s1) = gs_ota (bs_plat (snd (install_config_files env cf s)))"
  proof -
    obtain q u where i: "?inst s = (q, u)"
      by fastforce
    have u: "u = snd (install_config_files env cf s)"
      using raise_as_seq_state [of _ _ _ "install_config_files env cf" s] i by (metis snd_conv)
    have "gs_ota (bs_plat (snd (?sw u))) = gs_ota (bs_plat u)"
      using keepsD [OF keeps_ota_reboot [OF k, of "gs_ota (bs_plat u)" ab], of u] by (simp only: raise_as_seq_state refl)
    then show ?thesis
      using m i u by (cases q; cases "?sw u") (auto simp: then_io_def bind_io_def ret_def split: sum.splits)
  qed
  show ?thesis
  proof (cases "iter_files cf = []")
    case True
    then have "?b = []"
      by (simp add: backup_ota_config_files_def)
    then show ?thesis
      using s' ota True by (simp add: install_config_files_def ota_entries_def)
  next
    case False
    obtain ok D where st: "install_steps (ge_config_fails env s) (ge_new_meta env) (iter_files cf) (ota_entries s) = (ok, D)"
      by fastforce
    have "gs_ota (bs_plat s1) = Some D"
      using ota False st by (simp add: install_config_files_def)
    moreover have "?b \<noteq> []"
      using False by (simp add: backup_ota_config_files_def)
    ultimately have e: "ota_entries s' = restore_ota_config_files (\<lambda>_. False) (ge_new_meta env) ?b D"
      using s' nf by (simp add: restore_config_files_def modify_io_def ota_entries_def)
    have names: "fst ` set (iter_files cf) \<subseteq> {ECU_INFO_FNAME, PROXY_INFO_FNAME}"
      by (auto simp: iter_files_def split: option.splits)
    show ?thesis
      unfolding e
    proof (rule restore_undoes_install [OF plain])
      show "map_of D m = map_of (ota_entries s) m" if "m \<notin> fst ` set (iter_files cf)" for m
        by (rule install_steps_other [OF st that])
      show "\<not> is_directory (map_of D m)" if "m \<in> fst ` set (iter_files cf)" for m
        using install_steps_files [OF st that] plain names that by blast
    qed
  qed
qed

section \<open>Bootstrapping\<close>

text \<open>The version and the folder of the booted kernel: \<^verbatim>\<open>/boot\<close>, the folder of the slot, or that of the old controller.\<close>

definition boot_locations :: "ab_partition \<Rightarrow> path list" where
  "boot_locations ab = [[], [slot_name (ab_current_slot ab)], [ab_old_slot_id ab (ab_current_slot ab)]]"

definition has_boot_files :: "'x grub_env \<Rightarrow> string \<Rightarrow> 'x grub \<Rightarrow> path \<Rightarrow> bool" where
  "has_boot_files env ver s loc \<longleftrightarrow>
     is_file env (P_Boot (loc @ [VMLINUZ_PREFIX @ ver])) s \<and> is_file env (P_Boot (loc @ [INITRD_PREFIX @ ver])) s"

definition bootstrap_retrieve_booted_kernel_initramfs :: "'x grub_env \<Rightarrow> ab_partition \<Rightarrow> ('x, string \<times> path) grub_io" where
  "bootstrap_retrieve_booted_kernel_initramfs env ab =
     bind_io (lift_cmd (get_kernel_version_via_uname (ge_run env))) (\<lambda>v. case v of
        None \<Rightarrow> throw grub_error
      | Some ver \<Rightarrow> if ver = [] then throw grub_error
          else (\<lambda>s. case filter (has_boot_files env ver s) (boot_locations ab) of
             loc # _ \<Rightarrow> (Inr (ver, loc), s) | [] \<Rightarrow> (Inl grub_error, s)))"

definition bootstrap_setup_boot_slot_dir :: "'x grub_env \<Rightarrow> ab_partition \<Rightarrow> string \<times> path \<Rightarrow> ('x, unit) grub_io" where
  "bootstrap_setup_boot_slot_dir env ab bf = (let slot = ab_current_slot ab; (ver, loc) = bf;
       kernel = VMLINUZ_PREFIX @ ver; initrd = INITRD_PREFIX @ ver;
       fetch = (\<lambda>f. if loc \<noteq> [slot_name slot] then copy_file env (P_Boot (loc @ [f])) (P_Boot [slot_name slot, f]) else ret ())
     in seq_io [make_slot_dir env slot, fetch kernel, fetch initrd, expose_boot_file env slot kernel, expose_boot_file env slot initrd])"

definition bootstrap_setup_rootfs_for_ota_boot :: "'x grub_env \<Rightarrow> ab_partition \<Rightarrow> ('x, unit) grub_io" where
  "bootstrap_setup_rootfs_for_ota_boot env ab = (let slot = ab_current_slot ab in
     bind_io (read_str env (FSTAB slot)) (setup_slot_rootfs_for_ota_boot env ab (si_uuid (get_slot_info ab slot)) slot))"

definition bootstrap_manage_boot_control :: "'x grub_env \<Rightarrow> ab_partition \<Rightarrow> ('x, unit) grub_io" where
  "bootstrap_manage_boot_control env ab = (let mp = ge_mp env (ab_current_slot ab) in
     bind_io (grub_mkconfig_on_mp env mp (ge_bootstrap_source env)) (\<lambda>raw.
     bind_io (detect_grub_version env mp) (\<lambda>grub_version.
       seq_io [grub_set_default_atomic env (ab_current_slot ab),
         write_str env GRUB_CFG (export (managed_cfg_init (ge_sha256 env) (strip raw) grub_version (ge_version env)))])))"

definition old_artifacts :: "string list" where
  "old_artifacts = [''vmlinuz-ota'', ''initrd.img-ota'', ''vmlinuz-ota.standby'', ''initrd.img-ota.standby'', LEGACY_OTA_PARTITION_FNAME]"

definition cleanup_old_grub_top_level_artifacts :: "'x grub_env \<Rightarrow> ('x, unit) grub_io" where
  "cleanup_old_grub_top_level_artifacts env = seq_io (map (\<lambda>n. remove_file env (P_Boot [n])) old_artifacts)"

definition bootstrap_boot_control :: "'x grub_env \<Rightarrow> ab_partition \<Rightarrow> ('x, unit) grub_io" where
  "bootstrap_boot_control env ab = (let slot = ab_current_slot ab; mp = ge_mp env slot in
     bind_io (bootstrap_retrieve_booted_kernel_initramfs env ab) (\<lambda>bf. seq_io
       [bootstrap_setup_boot_slot_dir env ab bf,
        lift_cmd (bind_mount_rw (ge_run env) True (case ge_chroot env of Some r \<Rightarrow> if r = [] then ''/'' else r | None \<Rightarrow> ''/'') mp True),
        finally_io (seq_io
            [bootstrap_setup_rootfs_for_ota_boot env ab,
             setup_ota_boot_cfg_for_slot env (fst bf) slot,
             bootstrap_manage_boot_control env ab])
          (lift_cmd (ensure_umount (ge_run env) mp True MAX_RETRY_COUNT)),
        cleanup_old_grub_top_level_artifacts env]))"

text \<open>\<^verbatim>\<open>_GrubBootControl.__init__\<close> for the detected case; \<open>migrate\<close> carries the status files of the old controller over. Whether the status files are reset is the result.\<close>

definition grub_control_init :: "'x grub_env \<Rightarrow> ab_partition \<Rightarrow> setup_case \<Rightarrow> ('x, unit) grub_io \<Rightarrow> ('x, bool) grub_io" where
  "grub_control_init env ab case' migrate = then_io (case case' of
       MIGRATE_FROM_OLD \<Rightarrow> then_io migrate (bootstrap_boot_control env ab)
     | GRUB_REGENERATE_REQUESTED \<Rightarrow> bootstrap_boot_control env ab
     | FRESH \<Rightarrow> bootstrap_boot_control env ab
     | ALREADY_NEW \<Rightarrow> ret ()) (ret (case' = FRESH))"

definition grub_cfg_found :: "'x grub_env \<Rightarrow> 'x grub \<Rightarrow> grub_cfg_file" where
  "grub_cfg_found env s = (case node_of GRUB_CFG s of
     Some (BLink _) \<Rightarrow> GC_Symlink | None \<Rightarrow> GC_Missing | Some BDir \<Rightarrow> GC_Unreadable | Some (BFile c) \<Rightarrow> GC_Text c)"

lemma version_char_value:
  assumes "v \<noteq> []" and "\<And>c. c \<in> set v \<Longrightarrow> version_char c"
  shows "footer_value v"
proof -
  have ch: "\<not> py_isspace c \<and> c \<noteq> NL \<and> c \<noteq> CHR ''#''" if "version_char c" for c
    using that by (auto simp: version_char_def py_isspace_def is_digit_def Let_def)
  then show ?thesis
    using assms hd_in_set [OF assms(1)] last_in_set [OF assms(1)] by (auto simp: footer_value_def stripped_def)
qed

lemma version_here_value: "version_here s = Some v \<Longrightarrow> footer_value v"
  by (intro version_char_value) (auto simp: version_here_def Let_def split: if_splits dest: set_takeWhileD)

lemma grub_version_of_value: "grub_version_of s = Some v \<Longrightarrow> footer_value v"
  by (induction s) (auto split: option.splits dest: version_here_value)

text \<open>The version that \<^verbatim>\<open>grub-mkconfig\<close> prints has the usual form.\<close>

definition regular_version :: "'x grub_env \<Rightarrow> bool" where
  "regular_version env \<longleftrightarrow> (\<forall>opts s out s'. ge_run env opts [''grub-mkconfig'', ''--version''] s = (R_Ok out, s') \<longrightarrow>
     out = [] \<or> grub_version_of out \<noteq> None)"

lemma detect_grub_version_value:
  assumes "regular_version env" and "detect_grub_version env mp s = (Inr v, s')"
  shows "footer_value v"
proof -
  have "footer_value ''unknown_grub_version''"
    by code_simp
  moreover obtain q u where run: "ge_run env (in_chroot (Some mp)) [''grub-mkconfig'', ''--version''] s = (q, u)"
    by fastforce
  moreover have "out = [] \<or> grub_version_of out \<noteq> None" if "q = R_Ok out" for out
    using assms(1) run that unfolding regular_version_def by blast
  ultimately show ?thesis
    using assms(2) grub_version_of_value unfolding detect_grub_version_def
    by (cases q) (auto split: if_splits)
qed

text \<open>What is left when \<^verbatim>\<open>grub.cfg\<close> is written, and which later steps keep it.\<close>

definition managed_as :: "'x grub_env \<Rightarrow> ab_partition \<Rightarrow> string \<Rightarrow> string \<Rightarrow> 'x grub \<Rightarrow> bool" where
  "managed_as env ab raw gv s \<longleftrightarrow> node_of GRUB_CFG s = Some (BFile (export (managed_cfg_init (ge_sha256 env) (strip raw) gv (ge_version env))))
     \<and> block_written [saved_entry (ab_current_slot ab)] s"

lemma managed_runs:
  fixes env :: "'a grub_env"
  assumes "grub_tools env ab c"
  shows "runs_keep (\<lambda>_. True) (managed_as env ab raw gv) (ge_run env)"
  unfolding runs_keep_def
proof (intro allI impI)
  fix opts cmd and w :: "'a grub"
  assume m: "managed_as env ab raw gv w"
  obtain r w' where run: "ge_run env opts cmd w = (r, w')"
    by fastforce
  have "grubenv_of w' = grubenv_of w" "\<forall>p. protected' ab p \<longrightarrow> node_of p w' = node_of p w"
    using assms [unfolded grub_tools_def, rule_format, of opts cmd w] by (simp_all add: run)
  then show "managed_as env ab raw gv (snd (ge_run env opts cmd w))"
    using m run by (simp add: managed_as_def block_written_def protected'_def)
qed

lemma keeps_managed_cleanup: "keeps (managed_as env ab raw gv) (cleanup_old_grub_top_level_artifacts env)"
proof -
  have "keeps (managed_as env ab raw gv) (remove_file env (P_Boot [n]))" if "n \<in> set old_artifacts" for n
  proof -
    have "\<not> below (P_Boot [n]) GRUB_CFG"
      using that by (auto simp: GRUB_CFG_def old_artifacts_def LEGACY_OTA_PARTITION_FNAME_def)
    then show ?thesis
      by (auto simp: keeps_def remove_file_def modify_io_def managed_as_def block_written_def node_of_def grubenv_of_def)
  qed
  then show ?thesis
    unfolding cleanup_old_grub_top_level_artifacts_def by (auto intro!: keeps_intros)
qed

lemma manage_boot_control_returns:
  assumes T: "grub_tools env ab c" and run: "bootstrap_manage_boot_control env ab s = (Inr (), s')"
  shows "\<exists>raw gv s0 s1 mp. managed_as env ab raw gv s' \<and> grub_mkconfig_on_mp env mp (ge_bootstrap_source env) s = (Inr raw, s0)
    \<and> detect_grub_version env mp s0 = (Inr gv, s1)"
proof -
  let ?mp = "ge_mp env (ab_current_slot ab)"
  let ?cfg = "\<lambda>raw gv. export (managed_cfg_init (ge_sha256 env) (strip raw) gv (ge_version env))"
  obtain raw s0 gv s1 s2 where mk: "grub_mkconfig_on_mp env ?mp (ge_bootstrap_source env) s = (Inr raw, s0)"
    and gv: "detect_grub_version env ?mp s0 = (Inr gv, s1)" and dflt: "grub_set_default_atomic env (ab_current_slot ab) s1 = (Inr (), s2)"
    and w: "write_str env GRUB_CFG (?cfg raw gv) s2 = (Inr (), s')"
    using run unfolding bootstrap_manage_boot_control_def Let_def seq_io.simps by (auto simp: bind_returns then_returns ret_returns)
  have "write_grubenv_atomic env [saved_entry (ab_current_slot ab)] s1 = (Inr (), s2)"
    using dflt by (simp add: grub_set_default_atomic_def as_grub_error_returns)
  from write_grubenv_spec(3) [OF T this refl] have "block_written [saved_entry (ab_current_slot ab)] s2" .
  moreover have "s' = put_node GRUB_CFG (BFile (?cfg raw gv)) s2"
    using w by (auto simp: write_str_def split: if_splits)
  ultimately have "managed_as env ab raw gv s'"
    by (simp add: managed_as_def block_written_def)
  then show ?thesis
    using mk gv by blast
qed

lemma finally_returns: "finally_io m f s = (Inr a, s') \<longleftrightarrow> (\<exists>s1. m s = (Inr a, s1) \<and> f s1 = (Inr (), s'))"
  by (cases "m s") (auto simp: finally_io_def split: prod.splits sum.splits)

lemma bootstrap_returns:
  assumes T: "grub_tools env ab c" and reg: "regular_version env" and run: "bootstrap_boot_control env ab s = (Inr (), s')"
  shows "\<exists>raw gv s0 s1 mp. managed_as env ab raw gv s' \<and> footer_value gv
    \<and> grub_mkconfig_on_mp env mp (ge_bootstrap_source env) s0 = (Inr raw, s1)"
proof -
  let ?um = "lift_cmd (ensure_umount (ge_run env) (ge_mp env (ab_current_slot ab)) True MAX_RETRY_COUNT)"
  obtain s1 s2 s3 where man: "bootstrap_manage_boot_control env ab s1 = (Inr (), s2)" and um: "?um s2 = (Inr (), s3)"
    and cl: "cleanup_old_grub_top_level_artifacts env s3 = (Inr (), s')"
    using run unfolding bootstrap_boot_control_def Let_def seq_io.simps
    by (auto simp: bind_returns then_returns ret_returns finally_returns)
  obtain raw gv s4 s5 mp where m: "managed_as env ab raw gv s2" and mk: "grub_mkconfig_on_mp env mp (ge_bootstrap_source env) s1 = (Inr raw, s4)"
    and gv: "detect_grub_version env mp s4 = (Inr gv, s5)"
    using manage_boot_control_returns [OF T man] by blast
  have "keeps (managed_as env ab raw gv) ?um"
    by (intro keeps_lift_cmd keeps_ensure_umount [OF managed_runs [OF T]]) simp_all
  then have "managed_as env ab raw gv s3"
    using m um by (metis keepsD snd_conv)
  then have "managed_as env ab raw gv s'"
    using keepsD_eq [OF keeps_managed_cleanup cl] by simp
  then show ?thesis
    using mk detect_grub_version_value [OF reg gv] by blast
qed


definition ex_fresh :: "unit grub" where
  "ex_fresh = ex_grub\<lparr>bs_plat := (bs_plat ex_grub)\<lparr>gs_files :=
     [P_Boot [''vmlinuz-5.15''] \<mapsto> BFile ''kernel'', P_Boot [''initrd.img-5.15''] \<mapsto> BFile ''initrd'',
      P_Root Slot_A [''etc'', ''fstab''] \<mapsto> BFile '''', P_Root Slot_A [''etc'', ''default'', ''grub''] \<mapsto> BFile '''']\<rparr>\<rparr>"

lemma ex_mkconfig: "grub_mkconfig_on_mp ex_grub_env mp src u = (Inr out, u') \<Longrightarrow> out = ''x''"
  unfolding grub_mkconfig_on_mp_def prepare_chroot_env_def
  by (auto simp: finally_returns then_returns run_grub_mkconfig_def subprocess_run_wrapper_def ex_grub_env_def ex_grub_run_def split: option.splits)


text \<open>
  The version is the whole output when it has another form, with its line end: the footer then has an empty line, the file is not
  recognised, and every start of the client bootstraps again and resets the status files.
\<close>

lemma irregular_version_not_recognised:
  "detect_boot_control_setup_case toy_sha (\<lambda>_ x. Some (toy_sha x)) (\<lambda>_. Some [3, 14, 2]) ''3.14.2'' ''3.14.1''
     (GC_Text (export (managed_cfg_init toy_sha ''set a'' (''GRUB 2.12'' @ [NL]) ''3.14.2''))) = FRESH"
  by code_simp

text \<open>The hook that is installed starts with a backslash, not with its interpreter line: the constant is a raw string.\<close>

lemma hook_without_interpreter_line: "\<not> startswith OTA_GRUB_HOOK ''#!''"
  by (simp add: OTA_GRUB_HOOK_def startswith_def)

end
