(* ===== verification/Spec2Isabelle.thy ===== *)
theory Spec2Isabelle
  imports AB_Update OTA_Client Abort_Protocol Servicer Downloader_Pool Retry_Task_Map Shared_Memory RPi_Boot Delta_Workers Update_Slot
    Download_Resources Grub_Boot
begin

text \<open>
  The OTA client of \<^verbatim>\<open>src/src/otaclient\<close>: over-the-air updates of the ECUs of a vehicle. This library models
  the decision logic of the program, which is its own core, and proves what makes it correct. Paths below
  are relative to \<^verbatim>\<open>src/src\<close>.

  \<^bold>\<open>The program.\<close> An ECU has two slots, the running (current) one and the standby one. An update writes the
  standby slot and reboots into it. Three processes take part. The gRPC process (\<^verbatim>\<open>otaclient/grpc/api_v2\<close>)
  receives requests for a whole tree of ECUs, forwards them to the directly connected sub ECUs and to the
  local OTA core, tracks the status of all ECUs and answers status queries. The OTA core process
  (\<^verbatim>\<open>otaclient/ota_core\<close>) takes requests from a queue, runs the update in one thread and the abort handler in
  another, and puts status reports on a queue that a collector thread (\<^verbatim>\<open>otaclient/_status_monitor.py\<close>) merges
  into the status which the gRPC process reads from shared memory. A third process, the OTA proxy (\<^verbatim>\<open>ota_proxy\<close>), relays the
  downloads of this ECU and of the ones below it, and caches the files. What an update did survives a restart or a reboot in the
  OTA status files of the two slots (\<^verbatim>\<open>otaclient/boot_control/_ota_status_control.py\<close>). An update itself goes through a
  delta calculation on the old slot, the download of what is missing, the writing of the standby slot (\<^verbatim>\<open>otaclient/create_standby\<close>)
  and the switch of the boot loader (\<^verbatim>\<open>otaclient/boot_control\<close>).

  \<^bold>\<open>The theories\<close>, by subject, each after those it imports:

  \<^item> \<open>Prelude\<close>: the state-and-exception monad for methods that write and may raise, the calculi \<open>keeps\<close>
    (invariants on every exit) and \<open>emits\<close> (traces), strings, dictionaries, reachable states and the
    locales \<open>step_invariant\<close>, \<open>keyed_store\<close> and \<open>mirrored_stores\<close>.
  \<^item> \<open>Py_Strings\<close>, \<open>Py_Numbers\<close>: splitting, joining and stripping of strings, lines, decimal numbers and \<^verbatim>\<open>int()\<close>.

  The OTA core:

  \<^item> \<open>OTA_Types\<close>: \<^verbatim>\<open>otaclient/_types.py\<close>.
  \<^item> \<open>OTA_Errors\<close>: \<^verbatim>\<open>otaclient/errors.py\<close>, the table of error classes with codes and failure types, the
    failure reason, and exceptions as values.
  \<^item> \<open>Status_Files\<close>: \<^verbatim>\<open>otaclient/boot_control/_ota_status_control.py\<close> over \<^verbatim>\<open>otaclient_common/_io.py\<close>; the
    state is a map from directories to status directories. Shown: what the constructor reports is settled,
    a restart reports the same, a persisted failure is read back and is bound to the status file written
    with it.
  \<^item> \<open>Status_Monitor\<close>: \<^verbatim>\<open>otaclient/_status_monitor.py\<close>, the handlers of the reports and a round of the
    collector. Shown: failure information is shown exactly with a failure status, reports of other
    sessions are dropped, progress adds up, a status change is pushed at once.
  \<^item> \<open>Shared_Memory\<close>: \<^verbatim>\<open>otaclient_common/_shm.py\<close>, the status block with its lock byte, HMAC and length. Shown: a torn read is never returned.
  \<^item> \<open>Abort_Handler\<close>: the zones and the request handling of \<^verbatim>\<open>otaclient/ota_core/_abort_handler.py\<close>, the
    locale \<open>abort_zones\<close> and its interpretation.
  \<^item> \<open>Abort_Protocol\<close>: the interleaving of the updater's thread, the abort handler's thread and the main
    loop as a step relation at the grain of the locked sections. Shown by an inductive invariant: no abort
    is performed once the final phase is entered; an accepted abort completes; and two races that the
    code has.
  \<^item> \<open>Metrics\<close>: \<^verbatim>\<open>otaclient/metrics.py\<close>.
  \<^item> \<open>Updater\<close>: \<^verbatim>\<open>ota_core/_updater.py\<close> and \<^verbatim>\<open>_updater_base.py\<close>, the steps of \<^verbatim>\<open>execute\<close> over a record
    \<open>work\<close>. Shown: a failed update is marked on disk, an aborted one is left alone, phases are
    reported in order.
  \<^item> \<open>AB_Update\<close>: an update end to end with the reboot into either slot.
  \<^item> \<open>OTA_Client\<close>: \<^verbatim>\<open>ota_core/_main.py\<close> and \<^verbatim>\<open>_client_updater.py\<close>: start, update, client update, a round
    of the main loop. Shown: an update always ends with the client not busy, one response for each
    request, starts are kept apart.

  Downloading:

  \<^item> \<open>Downloader\<close>: \<^verbatim>\<open>otaclient_common/downloader.py\<close>, one download with resume, decompression, checks and the conversion of
    exceptions. Shown: what is returned has the size and digest asked for; a download that was cut continues where it ended.
  \<^item> \<open>Downloader_Pool\<close>: the pool of downloaders of the same file. Shown: no instance is shared.
  \<^item> \<open>Retry_Task_Map\<close>: \<^verbatim>\<open>otaclient_common/retry_task_map.py\<close> with dispatcher, workers, callbacks and watchdog as a step relation. Shown: it
    ends only after every task succeeded, and never gets stuck before.
  \<^item> \<open>Download_Resources\<close>: \<^verbatim>\<open>ota_core/_download_resources.py\<close>: batches, part files with a budget, slices of large resources. Shown: every
    blob in its place is verified, a resource is assembled only after all its slices were tried.
  \<^item> \<open>Download_Results\<close>: what becomes of finished downloads, \<^verbatim>\<open>ota_core/_common.py\<close> and
    \<^verbatim>\<open>ota_core/_update_libs.py\<close>. Shown: exact accounting through the collector, classification of errors.

  Making the standby slot:

  \<^item> \<open>Delta_Scan\<close>: the scans of \<^verbatim>\<open>create_standby/delta_gen.py\<close> over trees. Shown: an in-place scan leaves exactly the folders of the image.
  \<^item> \<open>Delta_Workers\<close>: producer, queue and workers of the delta calculation as a step relation. Shown: no resource is lost or
    saved under a wrong digest; the calculation ends.
  \<^item> \<open>Resume_OTA\<close>: \<^verbatim>\<open>create_standby/resume_ota.py\<close>. Shown: what is left of an interrupted update is taken over only when verified.
  \<^item> \<open>Update_Slot\<close>: \<^verbatim>\<open>create_standby/update_slot.py\<close> and \<^verbatim>\<open>ota_metadata/file_table/utils.py\<close>, the file system with inodes and a pool of
    workers. Shown: when it returns, the slot has every entry of the image with contents, metadata and hard links; it can always complete.
  \<^item> \<open>Tree_Copy\<close>: \<^verbatim>\<open>copytree_identical\<close> of \<^verbatim>\<open>otaclient_common/common.py\<close>. Shown: the copy is the source, on the supported trees.

  Boot control:

  \<^item> \<open>Boot_Control\<close>: the templates of \<^verbatim>\<open>otaclient/boot_control/_base.py\<close> over a record \<open>platform\<close> of
    hooks. Shown: the current slot says FAILURE from the first step of the pre-update on; the templates
    raise OTA errors only.
  \<^item> \<open>Commands\<close>: \<^verbatim>\<open>otaclient_common/cmdhelper.py\<close>, the command lines that are built and what becomes of failures. Shown: when unmounting
    leaves a mount behind.
  \<^item> \<open>Slot_Mounts\<close>: \<^verbatim>\<open>boot_control/_slot_mnt_helper.py\<close> and the check for the in-place mode; \<open>Boot_Commands\<close>: commands inside the templates.
  \<^item> \<open>OTA_Config_Files\<close>: \<^verbatim>\<open>boot_control/_ota_config_files.py\<close>. Shown: the next slot gets this slot's configuration, updated by what the image may change.
  \<^item> \<open>RPi_Boot\<close>: the controller of the Raspberry Pi. Shown: a failed post-update cannot change what is booted; finalization switches.
  \<^item> \<open>Grub_Config\<close>, \<open>Grub_Boot\<close>: the controller for GRUB, its texts (\<^verbatim>\<open>grub.cfg\<close>, \<^verbatim>\<open>/etc/default/grub\<close>, \<^verbatim>\<open>/etc/fstab\<close>) and its methods. Shown:
    what is written is read back as it should be; a post-update never takes away the way back to the running slot; a bootstrapped
    system is recognised at the next start; configuration files are restored when the switch fails.

  The gRPC process:

  \<^item> \<open>API_Types\<close>: the messages of \<^verbatim>\<open>otaclient_api/v2/_types.py\<close> that are used, the conversion of the local
    status (\<^verbatim>\<open>grpc/api_v2/_types.py\<close>) and the identifiers of \<^verbatim>\<open>otaclient/_utils.py\<close>; the locale \<open>ecu_list\<close>
    for the containers of ECUs, interpreted for the three messages.
  \<^item> \<open>ECU_Status\<close>: \<^verbatim>\<open>grpc/api_v2/ecu_status.py\<close> and \<^verbatim>\<open>ecu_tracker.py\<close>. Shown: the flags and sets are
    the ones the tracked statuses determine, an accepted request is held, what the status API exports.
  \<^item> \<open>Servicer\<close>: \<^verbatim>\<open>grpc/api_v2/servicer.py\<close>. Shown: the ECUs reported as accepting are those in the
    response, every requested ECU is answered, local answers belong to their requests as long as no
    response is late, and what a late one does.

  The OTA proxy:

  \<^item> \<open>Cache_Control\<close>: \<^verbatim>\<open>ota_proxy/cache_control_header.py\<close>. Shown: the two parsers agree; what a header is updated
    with is read back.
  \<^item> \<open>Cache_Index\<close>: \<^verbatim>\<open>ota_proxy/cache_index.py\<close>, \<^verbatim>\<open>db.py\<close>. The index in memory and the table it is persisted in
    are two interpretations of the contract of a store (locale \<open>mirrored_stores\<close> of \<open>Prelude\<close>). Shown: the index
    survives a restart for every interleaving with the writer thread, its size is bounded, and the
    case in which an entry is lost.
  \<^item> \<open>Cache_Streaming\<close>: \<^verbatim>\<open>ota_proxy/cache_streaming.py\<close>, provider, writer thread and subscriber as functions from
    state and event to state. Shown by an invariant of all interleavings: what is committed is the whole file,
    a subscriber delivers a prefix of it and ends with all of it; and two defects.
  \<^item> \<open>OTA_Cache\<close>: \<^verbatim>\<open>ota_proxy/ota_cache.py\<close>, how a request is answered. Shown: a copy that was reported as bad is not
    served again.
  \<^item> \<open>Server_App\<close>: \<^verbatim>\<open>ota_proxy/server_app.py\<close> and the readers of files. Shown: one complete response for each
    request; a request for the rest of a file gets exactly the rest.

  This theory holds a property of the two processes' lives: a failure is reported after a restart.

  \<^bold>\<open>How code is modelled.\<close> A method that changes state is a function from the state to a result or an
  exception and the new state; what was written before an exception stays written. An exception is an OTA
  error with its class, arguments and module, another exception with its \<^verbatim>\<open>repr\<close> and what the code asks
  of its chain, or \<^verbatim>\<open>SystemExit\<close>. Integers of the program are unbounded; bytes are 8-bit words where they are
  encoded. Times are inputs. Logging has no
  effect on the model. Iteration over sets and over finished asynchronous tasks is over a list whose order
  is an argument, so theorems hold for every order. Threads that share state are step relations over the whole state (\<open>Abort_Protocol\<close>,
  \<open>Retry_Task_Map\<close>, \<open>Delta_Workers\<close>, \<open>Update_Slot\<close>, \<open>Resume_OTA\<close>, \<open>Download_Resources\<close>, \<open>Cache_Streaming\<close>), and the theorems hold
  in every reachable state or for all lists of events. No fuel is used: every definition is a total function; loops that
  retry have the limit of the source as their bound, and the endless loops of the threads are modelled by one round each.

  \<^bold>\<open>What is a parameter.\<close> Command line tools, kernel answers (which writes fail, listings, time stamps), libraries (hashes, HTTP,
  SQLite, YAML, JSON) and the parts of the program that are not modelled appear as arguments: the records \<open>platform\<close> (hooks of a boot controller,
  instantiated by \<open>RPi_Boot\<close> and \<open>Grub_Boot\<close>), \<open>work\<close> (metadata, delta generation,
  downloads, writing the slot, persisting files), \<open>client_env\<close> (proxy, JSON decoding, certificate stores,
  image detection) and the \<open>_env\<close> record of each theory on files. A field may change the whole shared state and may raise anything, so it also stands for
  what other threads do meanwhile; a theorem that relies on more says so in a named predicate, such as
  \<open>hooks_keep\<close> (a hook does not write to the current slot's status directory), \<open>status_dir_kept\<close>,
  \<open>current_status_spared\<close>, \<open>standby_status_spared\<close>, \<open>work_silent\<close>, \<open>sync_reads\<close>, \<open>finalize_returns\<close>, \<open>mount_tools\<close> and \<open>never_busy\<close>
  (\<^verbatim>\<open>findmnt\<close> and \<^verbatim>\<open>umount\<close>), \<open>boot_tools\<close>, \<open>grub_tools\<close> and \<open>regular_version\<close> (programs of the boot controllers), \<open>file_table\<close>, \<open>prepared_slot\<close> and
  \<open>resources_complete\<close> (what an image and the steps before give to the slot update), and its
  witness instantiates the parameters with concrete functions. \<open>AB_Update\<close> and \<open>Updater\<close> are stated over \<open>platform\<close> and \<open>work\<close>; that the
  controllers of the Raspberry Pi and of GRUB satisfy \<open>hooks_keep\<close> is \<open>rpi_hooks_keep\<close> and \<open>grub_hooks_keep\<close>.

  \<^bold>\<open>What is not modelled.\<close> The download, verification and parsing of the OTA metadata (\<^verbatim>\<open>ota_metadata\<close>), which is the work of libraries for X.509,
  JWT and SQLite; the boot controllers for NVIDIA Jetson (\<^verbatim>\<open>boot_control/_jetson_*\<close>), which drive vendor tools; the partition image updater
  (\<^verbatim>\<open>_partition_image.py\<close>, \<^verbatim>\<open>_dpi.py\<close>); of GRUB the rewriting of menu entries by regular expressions and the folder kept for the old controller;
  the protobuf wrappers, configuration classes (declarations for pydantic), persistent files, the client package, logging and the process
  launcher; of the proxy the HTTP session, the metrics thread and the mounts.
\<close>

section \<open>A failure across a restart\<close>

text \<open>
  The start of the process on the same slot: the boot controller's status files are read again, and the
  client is created from what they say.
\<close>

definition restart_client ::
  "('p, 'c) client_env \<Rightarrow> bool fs_io \<Rightarrow> real \<Rightarrow> ('p core \<Rightarrow> version_detail option) \<Rightarrow>
   'p core \<Rightarrow> (exc + bool) \<times> 'p core" where
  "restart_client e fin mclock load_detail s =
     client_start e (ret ()) (on_boot (on_fs (status_control_init False fin (wk_ctl (ce_work e)))))
       mclock load_detail (s\<lparr>report_queue := []\<rparr>)"

definition collected :: "nat \<Rightarrow> int \<Rightarrow> 'p core \<Rightarrow> otaclient_status option" where
  "collected mx now s = load_reports mx None (map (Pair now) (report_queue s))"

lemma client_start_reports:
  assumes "status_control_init False fin c (bs_fs (co_boot s)) = (Inr c', fs)"
    and "wk_ctl (ce_work e) = c" and "load_booted_failure_info c' fs = Some (ft, reason)"
    and "booted_ota_status c' = FAILURE"
  shows "\<exists>s2. restart_client e fin mclock ld s = (Inr True, s2) \<and> live_ota_status s2 = FAILURE \<and>
    (\<exists>st. collected mx now s2 = Some st \<and> cs_ota_status st = FAILURE \<and> failure_type st = ft \<and>
       failure_reason st = reason)"
  using assms
  by (auto simp: restart_client_def client_start_def io_defs on_boot_def on_fs_def upd_metrics_def
      put_report_def get_booted_ota_status_def get_booted_failure_info_def collected_def load_report_def
      on_session_finished_def cut_traceback_def Let_def)



end
